(* ===== verification/Prelude.thy ===== *)
theory Prelude
  imports Complex_Main "HOL-Library.AList"
begin

section \<open>Shared vocabulary of the development\<close>

text \<open>
  What every component uses: thrown errors as values of a sum (\<open>Inl\<close> the error), the
  sequencing \<open>rbind\<close> of computations that may throw, \<open>clamp\<close>, the insertion-ordered
  \<open>Map\<close> of JavaScript as an association list, and \<open>dedup\<close> for
  \<open>[...new Set(xs)]\<close>. The collection \<open>js_simps\<close> holds the equations that unfold
  this vocabulary in the component proofs.
\<close>

named_theorems js_simps

subsection \<open>Errors\<close>

text \<open>
  \<open>Thrown m\<close> is \<open>throw new Error(m)\<close> of the source; the other three are raised by the
  language itself (a property read of null, a value out of range, a malformed BigInt).
\<close>

datatype js_error = Thrown string | TypeError | RangeError | SyntaxError

type_synonym 'a result = "js_error + 'a"

fun rbind :: "'e + 'a \<Rightarrow> ('a \<Rightarrow> 'e + 'b) \<Rightarrow> 'e + 'b" where
  "rbind (Inl e) f = Inl e"
| "rbind (Inr x) f = f x"

lemma rbind_Inr_iff [js_simps]: "rbind r f = Inr y \<longleftrightarrow> (\<exists>x. r = Inr x \<and> f x = Inr y)"
  by (cases r) auto

lemma rbind_Inl_iff [js_simps]:
  "rbind r f = Inl e \<longleftrightarrow> r = Inl e \<or> (\<exists>x. r = Inr x \<and> f x = Inl e)"
  by (cases r) auto

text \<open>A guard: \<open>if (!b) throw e\<close>.\<close>

definition ensure :: "bool \<Rightarrow> 'e \<Rightarrow> 'e + unit" where
  "ensure b e = (if b then Inr () else Inl e)"

lemma ensure_Inr_iff [js_simps]: "ensure b e = Inr u \<longleftrightarrow> b"
  by (simp add: ensure_def)

lemma ensure_Inl_iff [js_simps]: "ensure b e = Inl e' \<longleftrightarrow> \<not> b \<and> e' = e"
  by (auto simp: ensure_def)

lemma ensure_simps [simp]: "ensure True e = Inr ()" "ensure False e = Inl e"
  by (simp_all add: ensure_def)

fun rmap_list :: "('a \<Rightarrow> 'e + 'b) \<Rightarrow> 'a list \<Rightarrow> 'e + 'b list" where
  "rmap_list f [] = Inr []"
| "rmap_list f (x # xs) = rbind (f x) (\<lambda>y. rbind (rmap_list f xs) (\<lambda>ys. Inr (y # ys)))"

lemma rmap_list_Inr_iff:
  "rmap_list f xs = Inr ys \<longleftrightarrow> list_all2 (\<lambda>x y. f x = Inr y) xs ys"
  by (induction xs arbitrary: ys) (auto simp: js_simps list_all2_Cons1)

subsection \<open>Clamping\<close>

text \<open>\<open>Math.max(min, Math.min(max, value))\<close>\<close>

definition clamp :: "'a::linorder \<Rightarrow> 'a \<Rightarrow> 'a \<Rightarrow> 'a" where
  "clamp v lo hi = max lo (min hi v)"

lemma clamp_lower [simp]: "lo \<le> clamp v lo hi"
  by (simp add: clamp_def)

lemma clamp_upper [simp]: "lo \<le> hi \<Longrightarrow> clamp v lo hi \<le> hi"
  by (simp add: clamp_def)

lemma clamp_id [simp]: "lo \<le> v \<Longrightarrow> v \<le> hi \<Longrightarrow> clamp v lo hi = v"
  by (simp add: clamp_def)

lemma clamp_mono: "v \<le> w \<Longrightarrow> clamp v lo hi \<le> clamp w lo hi"
  by (auto simp: clamp_def le_max_iff_disj min_le_iff_disj)

lemma clamp_idem [simp]: "lo \<le> hi \<Longrightarrow> clamp (clamp v lo hi) lo hi = clamp v lo hi"
  by simp

subsection \<open>Maps and sets of the language\<close>

text \<open>
  A JavaScript \<open>Map\<close> keeps its entries in insertion order, and \<open>set\<close> on a key that is
  present keeps its place: exactly \<open>AList.update\<close>. \<open>get\<close> is \<open>map_of\<close>,
  \<open>delete\<close> is \<open>AList.delete\<close>.
\<close>

type_synonym ('k, 'v) jsmap = "('k \<times> 'v) list"

abbreviation map_set :: "'k \<Rightarrow> 'v \<Rightarrow> ('k, 'v) jsmap \<Rightarrow> ('k, 'v) jsmap" where
  "map_set \<equiv> AList.update"

abbreviation map_get :: "('k, 'v) jsmap \<Rightarrow> 'k \<Rightarrow> 'v option" where
  "map_get \<equiv> map_of"

definition map_values :: "('k, 'v) jsmap \<Rightarrow> 'v list" where
  "map_values m = map snd m"

lemma map_get_set [simp]: "map_get (map_set k v m) = (map_get m)(k \<mapsto> v)"
  by (rule update_conv')

lemma map_of_filter_distinct:
  "distinct (map fst m) \<Longrightarrow>
   map_of (filter P m) k = (case map_of m k of None \<Rightarrow> None | Some v \<Rightarrow> if P (k, v) then Some v else None)"
  by (induction m) (auto split: option.splits simp: map_of_eq_None_iff image_iff)

text \<open>\<open>[...new Set(xs)]\<close>: the first occurrence of each element, in order.\<close>

fun dedup_from :: "'a list \<Rightarrow> 'a list \<Rightarrow> 'a list" where
  "dedup_from seen [] = []"
| "dedup_from seen (x # xs) =
     (if x \<in> set seen then dedup_from seen xs else x # dedup_from (x # seen) xs)"

definition dedup :: "'a list \<Rightarrow> 'a list" where
  "dedup xs = dedup_from [] xs"

lemma set_dedup_from: "set (dedup_from seen xs) = set xs - set seen"
  by (induction seen xs rule: dedup_from.induct) auto

lemma set_dedup [simp]: "set (dedup xs) = set xs"
  by (simp add: dedup_def set_dedup_from)

lemma distinct_dedup_from: "distinct (dedup_from seen xs)"
  by (induction seen xs rule: dedup_from.induct) (auto simp: set_dedup_from)

lemma distinct_dedup [simp]: "distinct (dedup xs)"
  by (simp add: dedup_def distinct_dedup_from)

text \<open>\<open>xs.find(p)\<close>\<close>

lemma find_SomeD: "List.find p xs = Some x \<Longrightarrow> p x \<and> x \<in> set xs"
  by (induction xs) (auto split: if_splits)

text \<open>The nullish operator \<open>a ?? b\<close>.\<close>

definition opt_or :: "'a option \<Rightarrow> 'a \<Rightarrow> 'a" where
  "opt_or x d = (case x of None \<Rightarrow> d | Some v \<Rightarrow> v)"

lemma opt_or_simps [simp]: "opt_or None d = d" "opt_or (Some v) d = v"
  by (simp_all add: opt_or_def)

end
