(* ===== verification/Js_Number.thy ===== *)
theory Js_Number
  imports Prelude "HOL-Library.Log_Nat"
begin

section \<open>Numbers of the source: IEEE doubles over the rationals\<close>

text \<open>
  A JavaScript number is an IEEE-754 double. A finite one is a rational here, and every
  arithmetic operation whose result need not be representable is followed by \<open>fl\<close>,
  rounding to the nearest double (53 significant bits, ties to even), so that
  \<open>a * b\<close> of the source is \<open>fl (a * b)\<close>. Integers up to \<open>2^53\<close> are exact
  (\<open>fl_of_int\<close>), and rounding is monotone (\<open>fl_mono\<close>), which gives the bounds the
  components use. The range of exponents is not limited: a finite intermediate result that
  overflows to Infinity (above \<open>2^1024\<close>) or is subnormal is outside this model, except in
  \<open>Number(string)\<close> of \<open>Js_Text\<close>, which returns the infinities.
\<close>


subsection \<open>Rounding to the nearest integer, ties to even\<close>

definition rne :: "rat \<Rightarrow> int" where
  "rne x = (let f = \<lfloor>x\<rfloor>; r = x - of_int f in
     if r < 1/2 then f else if 1/2 < r then f + 1 else if even f then f else f + 1)"

lemma rne_of_int [simp]: "rne (of_int n) = n"
  by (simp add: rne_def)

lemma rne_bounds: "\<lfloor>x\<rfloor> \<le> rne x" "rne x \<le> \<lfloor>x\<rfloor> + 1"
  by (auto simp: rne_def Let_def)

lemma rne_mono: "x \<le> y \<Longrightarrow> rne x \<le> rne y"
proof -
  assume le: "x \<le> y"
  then have fl: "\<lfloor>x\<rfloor> \<le> \<lfloor>y\<rfloor>" by (rule floor_mono)
  show ?thesis
  proof (cases "\<lfloor>x\<rfloor> = \<lfloor>y\<rfloor>")
    case True
    with le show ?thesis by (auto simp: rne_def Let_def)
  next
    case False
    with fl have "\<lfloor>x\<rfloor> + 1 \<le> \<lfloor>y\<rfloor>" by simp
    with rne_bounds(2)[of x] rne_bounds(1)[of y] show ?thesis by linarith
  qed
qed

subsection \<open>The binary exponent of a positive rational\<close>

definition ilog2 :: "rat \<Rightarrow> int" where
  "ilog2 x = (let (n, d) = quotient_of x; e = bitlen n - bitlen d in
     if 2 powi e \<le> x then e else e - 1)"

lemma powi_int_nat: "0 \<le> k \<Longrightarrow> (2::rat) powi k = of_int (2 ^ nat k)"
  by (simp add: power_int_def)

lemma ilog2_bounds:
  assumes "0 < x"
  shows "2 powi ilog2 x \<le> x" "x < 2 powi (ilog2 x + 1)"
proof -
  obtain n d where q: "quotient_of x = (n, d)" by (cases "quotient_of x")
  have d: "0 < d" using q by (rule quotient_of_denom_pos)
  have x: "x = of_int n / of_int d" using q by (rule quotient_of_div)
  have n: "0 < n" using assms d x by (simp add: zero_less_divide_iff)
  let ?a = "bitlen n" and ?b = "bitlen d"
  have a: "2 ^ nat (?a - 1) \<le> n" "n < 2 ^ nat ?a" using bitlen_bounds[OF n] by auto
  have b: "2 ^ nat (?b - 1) \<le> d" "d < 2 ^ nat ?b" using bitlen_bounds[OF d] by auto
  have pos: "0 \<le> ?a - 1" "0 \<le> ?b - 1"
    using n d bitlen_eq_zero_iff[of n] bitlen_eq_zero_iff[of d] bitlen_nonneg[of n] bitlen_nonneg[of d]
    by linarith+
  have a': "2 powi (?a - 1) \<le> (of_int n :: rat)" "(of_int n :: rat) < 2 powi ?a"
    using a pos by (simp_all only: powi_int_nat of_int_le_iff of_int_less_iff bitlen_nonneg)
  have b': "2 powi (?b - 1) \<le> (of_int d :: rat)" "(of_int d :: rat) < 2 powi ?b"
    using b pos by (simp_all only: powi_int_nat of_int_le_iff of_int_less_iff bitlen_nonneg)
  have lo: "2 powi (?a - ?b - 1) \<le> x"
  proof -
    have "2 powi (?a - ?b - 1) * of_int d \<le> 2 powi (?a - ?b - 1) * (2 powi ?b :: rat)"
      using b'(2) by (intro mult_left_mono) auto
    also have "\<dots> = 2 powi (?a - 1)" by (simp flip: power_int_add)
    also have "\<dots> \<le> of_int n" by (rule a')
    finally show ?thesis using d by (simp add: x pos_le_divide_eq)
  qed
  have hi: "x < 2 powi (?a - ?b + 1)"
  proof -
    have "of_int n < (2 powi ?a :: rat)" by (rule a')
    also have "\<dots> = 2 powi (?a - ?b + 1) * 2 powi (?b - 1)" by (simp flip: power_int_add)
    also have "\<dots> \<le> 2 powi (?a - ?b + 1) * of_int d"
      using b'(1) by (intro mult_left_mono) auto
    finally show ?thesis using d by (simp add: x pos_divide_less_eq)
  qed
  show "2 powi ilog2 x \<le> x" using lo by (simp add: ilog2_def q Let_def)
  show "x < 2 powi (ilog2 x + 1)" using hi by (simp add: ilog2_def q Let_def)
qed

lemma powi_less_imp: "(2::rat) powi a < 2 powi b \<Longrightarrow> a < b"
  by (metis linorder_not_less one_le_numeral power_int_increasing)

lemma ilog2_mono: "0 < x \<Longrightarrow> x \<le> y \<Longrightarrow> ilog2 x \<le> ilog2 y"
proof -
  assume x: "0 < x" and le: "x \<le> y"
  have "2 powi ilog2 x \<le> x" using x by (rule ilog2_bounds)
  also note le
  also have "y < 2 powi (ilog2 y + 1)" using x le by (intro ilog2_bounds) simp
  finally show ?thesis using powi_less_imp by fastforce
qed

subsection \<open>Rounding to a double\<close>

definition flp :: "rat \<Rightarrow> rat" where
  "flp x = (let u = 2 powi (ilog2 x - 52) in of_int (rne (x / u)) * u)"

definition fl :: "rat \<Rightarrow> rat" where
  "fl x = (if x = 0 then 0 else if x < 0 then - flp (- x) else flp x)"

lemma flp_dyadic:
  assumes x: "x = of_int m * 2 powi k" and m: "0 < m" "m < 2 ^ 53"
  shows "flp x = x"
proof -
  define e where "e = ilog2 x"
  have pos: "0 < x" using x m by simp
  have "2 powi e \<le> x" unfolding e_def using pos by (rule ilog2_bounds)
  also have "x < 2 powi (53 + k)"
  proof -
    have "(of_int m :: rat) < of_int (2 ^ 53)" using m(2) by (simp only: of_int_less_iff)
    then have "x < of_int (2 ^ 53) * 2 powi k" unfolding x by (intro mult_strict_right_mono) auto
    also have "\<dots> = 2 powi (53 + k)" by (simp add: power_int_add)
    finally show ?thesis .
  qed
  finally have "e - 52 \<le> k" using powi_less_imp by fastforce
  then have k: "2 powi k = (of_int (2 ^ nat (k - (e - 52))) :: rat) * 2 powi (e - 52)"
    by (subst powi_int_nat[symmetric]) (simp_all flip: power_int_add)
  have "x / 2 powi (e - 52) = of_int (m * 2 ^ nat (k - (e - 52)))"
    unfolding x k by simp
  then have "of_int (rne (x / 2 powi (e - 52))) = x / 2 powi (e - 52)"
    by (metis rne_of_int)
  then show ?thesis by (simp add: flp_def Let_def e_def)
qed

lemma flp_bounds:
  assumes "0 < x"
  shows "2 powi ilog2 x \<le> flp x" "flp x \<le> 2 powi (ilog2 x + 1)"
proof -
  define u :: rat where "u = 2 powi (ilog2 x - 52)"
  have u: "0 < u" by (simp add: u_def)
  have lo: "of_int (2 ^ 52) * u = 2 powi ilog2 x" and hi: "of_int (2 ^ 53) * u = 2 powi (ilog2 x + 1)"
    by (simp_all add: u_def power_int_diff power_int_add)
  have "of_int (2 ^ 52) \<le> x / u" "x / u \<le> of_int (2 ^ 53)"
    using ilog2_bounds[OF assms] u
    by (simp_all only: pos_le_divide_eq pos_divide_le_eq lo hi order_less_imp_le)
  then have r: "2 ^ 52 \<le> rne (x / u)" "rne (x / u) \<le> 2 ^ 53"
    by (metis rne_mono rne_of_int)+
  have "of_int (2 ^ 52) * u \<le> of_int (rne (x / u)) * u"
    "of_int (rne (x / u)) * u \<le> of_int (2 ^ 53) * u"
    using r u by (simp_all only: mult_le_cancel_right_pos of_int_le_iff)
  then show "2 powi ilog2 x \<le> flp x" "flp x \<le> 2 powi (ilog2 x + 1)"
    by (simp_all only: lo hi) (simp_all add: flp_def Let_def u_def)
qed

lemma flp_mono: "0 < x \<Longrightarrow> x \<le> y \<Longrightarrow> flp x \<le> flp y"
proof -
  assume x: "0 < x" and le: "x \<le> y"
  then have y: "0 < y" by simp
  have e: "ilog2 x \<le> ilog2 y" using x le by (rule ilog2_mono)
  show ?thesis
  proof (cases "ilog2 x = ilog2 y")
    case True
    define u :: rat where "u = 2 powi (ilog2 y - 52)"
    have u: "0 < u" by (simp add: u_def)
    have "rne (x / u) \<le> rne (y / u)" using le u by (intro rne_mono divide_right_mono) auto
    then show ?thesis using u by (simp add: flp_def Let_def True u_def)
  next
    case False
    have "flp x \<le> 2 powi (ilog2 x + 1)" using x by (rule flp_bounds)
    also have "\<dots> \<le> 2 powi ilog2 y" using e False by (intro power_int_increasing) auto
    also have "\<dots> \<le> flp y" using y by (rule flp_bounds)
    finally show ?thesis .
  qed
qed

lemma flp_pos: "0 < x \<Longrightarrow> 0 < flp x"
  by (metis flp_bounds(1) less_le_trans zero_less_numeral zero_less_power_int)

lemma fl_0 [simp]: "fl 0 = 0"
  by (simp add: fl_def)

lemma fl_minus [simp]: "fl (- x) = - fl x"
  by (simp add: fl_def)

lemma fl_mono: "x \<le> y \<Longrightarrow> fl x \<le> fl y"
  using flp_mono[of x y] flp_mono[of "- y" "- x"] flp_pos[of y] flp_pos[of "- x"]
  by (auto simp: fl_def)

lemma fl_dyadic:
  assumes x: "x = of_int m * 2 powi k" and m: "\<bar>m\<bar> < 2 ^ 53"
  shows "fl x = x"
proof -
  have pk: "\<not> (2::rat) powi k < 0" "(2::rat) powi k \<noteq> 0" by (simp_all add: not_less)
  consider "m = 0" | "0 < m" | "0 < - m" by linarith
  then show ?thesis
  proof cases
    case 1 then show ?thesis by (simp add: x)
  next
    case 2 then show ?thesis using flp_dyadic[OF x] m pk by (simp add: fl_def x mult_less_0_iff)
  next
    case 3
    then have "flp (- x) = - x" using flp_dyadic[of "- x" "- m" k] m by (simp add: x)
    then show ?thesis using 3 pk by (simp add: fl_def x mult_less_0_iff)
  qed
qed

lemma fl_of_int [simp]: "\<bar>n\<bar> \<le> 2 ^ 53 \<Longrightarrow> fl (of_int n) = of_int n"
proof (cases "\<bar>n\<bar> = 2 ^ 53")
  case True
  then have "n = 2 ^ 53 \<or> n = - (2 ^ 53)" by linarith
  then show ?thesis
    using fl_dyadic[of "of_int (2 ^ 53)" 1 53] by (auto simp del: of_int_power)
next
  case False
  assume "\<bar>n\<bar> \<le> 2 ^ 53"
  with False show ?thesis by (intro fl_dyadic[of _ n 0]) auto
qed

lemma flp_idem: "0 < x \<Longrightarrow> flp (flp x) = flp x"
proof -
  assume x: "0 < x"
  define k where "k = ilog2 x - 52"
  define m where "m = rne (x / 2 powi k)"
  have f: "flp x = of_int m * 2 powi k" by (simp add: flp_def m_def k_def Let_def)
  have "x / 2 powi k < 2 ^ 53"
    using ilog2_bounds(2)[OF x] by (simp add: k_def field_simps power_int_add power_int_diff)
  then have "m \<le> rne (of_int (2 ^ 53))" unfolding m_def by (intro rne_mono) simp
  then have le: "m \<le> 2 ^ 53" by (simp only: rne_of_int)
  have pos: "0 < m"
  proof -
    have "0 < (2::rat) powi k" by simp
    then show ?thesis using flp_pos[OF x] f zero_less_mult_pos2[of "of_int m :: rat"] by simp
  qed
  show ?thesis
  proof (cases "m = 2 ^ 53")
    case True
    then have "flp x = of_int 1 * 2 powi (k + 53)" by (simp add: f power_int_add)
    then show ?thesis by (rule flp_dyadic) simp_all
  next
    case False
    show ?thesis by (rule flp_dyadic[OF f pos]) (use le False in simp)
  qed
qed

lemma fl_idem [simp]: "fl (fl x) = fl x"
  using flp_pos[of x] flp_pos[of "- x"] by (auto simp: fl_def flp_idem)

lemma fl_ge_int: "of_int n \<le> x \<Longrightarrow> \<bar>n\<bar> \<le> 2 ^ 53 \<Longrightarrow> of_int n \<le> fl x"
  using fl_mono[of "of_int n" x] by simp

lemma fl_le_int: "x \<le> of_int n \<Longrightarrow> \<bar>n\<bar> \<le> 2 ^ 53 \<Longrightarrow> fl x \<le> of_int n"
  using fl_mono[of x "of_int n"] by simp


subsection \<open>The rounding error\<close>

lemma rne_error: "\<bar>of_int (rne x) - x\<bar> \<le> 1 / 2"
proof -
  have "of_int \<lfloor>x\<rfloor> \<le> x" "x < of_int \<lfloor>x\<rfloor> + 1" by linarith+
  then show ?thesis by (auto simp: rne_def Let_def)
qed

lemma flp_error: "0 < x \<Longrightarrow> \<bar>flp x - x\<bar> \<le> x / 2 ^ 53"
proof -
  assume x: "0 < x"
  define u :: rat where "u = 2 powi (ilog2 x - 52)"
  have u: "0 < u" by (simp add: u_def)
  have le: "u * 2 ^ 52 \<le> x" using ilog2_bounds(1)[OF x] by (simp add: u_def power_int_diff)
  have "flp x - x = (of_int (rne (x / u)) - x / u) * u" using u by (simp add: flp_def Let_def u_def algebra_simps)
  then have "\<bar>flp x - x\<bar> = \<bar>of_int (rne (x / u)) - x / u\<bar> * u" using u by (simp add: abs_mult)
  also have "\<dots> \<le> 1 / 2 * u" using u by (intro mult_right_mono rne_error) auto
  also have "\<dots> \<le> x / 2 ^ 53" using le by simp
  finally show ?thesis .
qed

lemma fl_error: "\<bar>fl x - x\<bar> \<le> \<bar>x\<bar> / 2 ^ 53"
proof (cases x "0::rat" rule: linorder_cases)
  case less
  have "\<bar>fl x - x\<bar> = \<bar>flp (- x) - (- x)\<bar>" using less by (simp add: fl_def abs_minus_commute)
  also have "\<dots> \<le> - x / 2 ^ 53" using less by (intro flp_error) simp
  finally show ?thesis using less by simp
qed (use flp_error[of x] in \<open>simp_all add: fl_def\<close>)

subsection \<open>Values and the operations the components use\<close>

datatype jsnum = NaN | PosInf | NegInf | Fin rat

text \<open>\<open>Number.isFinite\<close>, as the finite value when there is one.\<close>

fun finite_num :: "jsnum \<Rightarrow> rat option" where
  "finite_num (Fin x) = Some x"
| "finite_num _ = None"

text \<open>A real result stored as a number: rounded, an infinity from \<open>2^1024\<close> on.\<close>

definition num_of_rat :: "rat \<Rightarrow> jsnum" where
  "num_of_rat x = (let y = fl x in
     if y = 0 \<or> ilog2 \<bar>y\<bar> < 1024 then Fin y else if 0 < y then PosInf else NegInf)"

text \<open>\<open>Math.round\<close>: the nearest integer, halves towards plus infinity.\<close>

definition js_round :: "rat \<Rightarrow> int" where
  "js_round x = \<lfloor>x + 1/2\<rfloor>"

lemma js_round_of_int [simp]: "js_round (of_int n) = n"
  by (simp add: js_round_def floor_eq_iff)

lemma js_round_mono: "x \<le> y \<Longrightarrow> js_round x \<le> js_round y"
  by (simp add: js_round_def floor_mono)

lemma js_round_ge: "of_int n \<le> x \<Longrightarrow> n \<le> js_round x"
  using js_round_mono[of "of_int n" x] by simp

lemma js_round_le: "x \<le> of_int n \<Longrightarrow> js_round x \<le> n"
  using js_round_mono[of x "of_int n"] by simp

end
