(* ===== verification/Js_Text.thy ===== *)
theory Js_Text
  imports Js_Number "HOL-Library.Sublist"
begin

section \<open>Strings of the source\<close>

text \<open>
  Strings are lists of bytes (the UTF-8 form of the source's text). What the components compare,
  split, parse and lower-case is ASCII, and \<open>to_lower\<close> leaves other bytes alone; \<open>trim\<close> removes every white space
  and line terminator of the language, those of two and three bytes included.
  \<open>bigint_of_string\<close> and \<open>number_of_string\<close> are the conversions \<open>BigInt(s)\<close> and
  \<open>Number(s)\<close> of the language, \<open>show_int\<close> is \<open>toString()\<close> of an integer.
\<close>

subsection \<open>Searching and cutting\<close>

definition is_ws :: "char \<Rightarrow> bool" where
  "is_ws c = (let n = (of_char c :: nat) in n = 32 \<or> (9 \<le> n \<and> n \<le> 13))"

text \<open>The white space of two bytes, U+00A0, and of three: U+1680, U+2000 to U+200A, U+2028, U+2029, U+202F, U+205F, U+3000, U+FEFF.\<close>

definition is_ws2 :: "char \<Rightarrow> char \<Rightarrow> bool" where
  "is_ws2 a b \<longleftrightarrow> (of_char a :: nat) = 194 \<and> (of_char b :: nat) = 160"

definition is_ws3 :: "char \<Rightarrow> char \<Rightarrow> char \<Rightarrow> bool" where
  "is_ws3 a b c \<longleftrightarrow> (let x = (of_char a :: nat); y = (of_char b :: nat); z = (of_char c :: nat) in
     (x = 225 \<and> y = 154 \<and> z = 128)
     \<or> (x = 226 \<and> (y = 128 \<and> ((128 \<le> z \<and> z \<le> 138) \<or> z = 168 \<or> z = 169 \<or> z = 175) \<or> y = 129 \<and> z = 159))
     \<or> (x = 227 \<and> y = 128 \<and> z = 128) \<or> (x = 239 \<and> y = 187 \<and> z = 191))"

fun drop_ws :: "string \<Rightarrow> string" where
  "drop_ws [] = []"
| "drop_ws [a] = (if is_ws a then [] else [a])"
| "drop_ws [a, b] = (if is_ws a then drop_ws [b] else if is_ws2 a b then [] else [a, b])"
| "drop_ws (a # b # c # s) =
     (if is_ws a then drop_ws (b # c # s) else if is_ws2 a b then drop_ws (c # s)
      else if is_ws3 a b c then drop_ws s else a # b # c # s)"

text \<open>The same on the reversed text, for its end.\<close>

fun drop_ws_end :: "string \<Rightarrow> string" where
  "drop_ws_end [] = []"
| "drop_ws_end [a] = (if is_ws a then [] else [a])"
| "drop_ws_end [b, a] = (if is_ws b then drop_ws_end [a] else if is_ws2 a b then [] else [b, a])"
| "drop_ws_end (c # b # a # s) =
     (if is_ws c then drop_ws_end (b # a # s) else if is_ws2 b c then drop_ws_end (a # s)
      else if is_ws3 a b c then drop_ws_end s else c # b # a # s)"

definition trim :: "string \<Rightarrow> string" where
  "trim s = rev (drop_ws_end (rev (drop_ws s)))"

definition lower_char :: "char \<Rightarrow> char" where
  "lower_char c = (let n = (of_char c :: nat) in
     if 65 \<le> n \<and> n \<le> 90 then char_of (n + 32) else c)"

definition to_lower :: "string \<Rightarrow> string" where
  "to_lower s = map lower_char s"

definition starts_with :: "string \<Rightarrow> string \<Rightarrow> bool" where
  "starts_with s p = (take (length p) s = p)"

fun str_includes :: "string \<Rightarrow> string \<Rightarrow> bool" where
  "str_includes [] p = (p = [])"
| "str_includes (c # s) p = (starts_with (c # s) p \<or> str_includes s p)"

text \<open>\<open>s.split(sep)\<close> for a one-character separator: never empty.\<close>

fun split_char :: "char \<Rightarrow> string \<Rightarrow> string list" where
  "split_char sep [] = [[]]"
| "split_char sep (c # s) =
     (if c = sep then [] # split_char sep s
      else case split_char sep s of [] \<Rightarrow> [[c]] | w # ws \<Rightarrow> (c # w) # ws)"

text \<open>\<open>xs.join(sep)\<close>\<close>

fun join :: "string \<Rightarrow> string list \<Rightarrow> string" where
  "join sep [] = []"
| "join sep [x] = x"
| "join sep (x # xs) = x @ sep @ join sep xs"

lemma str_includes_sublist: "str_includes s p \<longleftrightarrow> sublist p s"
proof (induction s p rule: str_includes.induct)
  case (2 c s p)
  have "starts_with (c # s) p \<longleftrightarrow> prefix p (c # s)"
    by (auto simp: starts_with_def prefix_def) (metis append_take_drop_id)
  with 2 show ?case by (simp only: str_includes.simps sublist_Cons_right)
next
  case (1 p)
  show ?case by (cases p) simp_all
qed

text \<open>A printable ASCII character: no white space begins or ends with it.\<close>

definition plain :: "char \<Rightarrow> bool" where
  "plain c \<longleftrightarrow> \<not> is_ws c \<and> (of_char c :: nat) < 128"

lemma plain_not_ws:
  "plain a \<Longrightarrow> \<not> is_ws a" "plain a \<Longrightarrow> \<not> is_ws2 a b" "plain b \<Longrightarrow> \<not> is_ws2 a b"
  "plain a \<Longrightarrow> \<not> is_ws3 a b c" "plain c \<Longrightarrow> \<not> is_ws3 a b c"
  by (auto simp: plain_def is_ws2_def is_ws3_def Let_def)

text \<open>The three kinds do not overlap.\<close>

lemma ws_apart:
  "is_ws2 a b \<Longrightarrow> \<not> is_ws a" "is_ws2 a b \<Longrightarrow> \<not> is_ws b"
  "is_ws3 a b c \<Longrightarrow> \<not> is_ws a" "is_ws3 a b c \<Longrightarrow> \<not> is_ws c" "is_ws3 a b c \<Longrightarrow> \<not> is_ws2 a b" "is_ws3 a b c \<Longrightarrow> \<not> is_ws2 b c"
  by (auto simp: is_ws_def is_ws2_def is_ws3_def Let_def)

lemma drop_ws_plain: "plain a \<Longrightarrow> drop_ws (a # s) = a # s" "plain a \<Longrightarrow> drop_ws_end (a # s) = a # s"
  by (cases "a # s" rule: drop_ws.cases; simp add: plain_not_ws) (cases "a # s" rule: drop_ws_end.cases; simp add: plain_not_ws)

lemma trim_plain:
  assumes "s \<noteq> []" "plain (hd s)" "plain (last s)"
  shows "trim s = s"
proof -
  have "drop_ws s = s" using assms(1,2) drop_ws_plain(1)[of "hd s" "tl s"] by simp
  moreover have "drop_ws_end (rev s) = rev s"
    using assms(1,3) drop_ws_plain(2)[of "last s" "rev (butlast s)"] by (metis append_butlast_last_id rev.simps(2) rev_rev_ident rev_swap)
  ultimately show ?thesis by (simp add: trim_def)
qed

lemma trim_no_ws [simp]: "list_all plain s \<Longrightarrow> trim s = s"
  by (cases "s = []") (simp add: trim_def, simp add: list_all_iff trim_plain)

text \<open>White space is dropped once and for all, and what is trimmed is a part of the text.\<close>

lemma drop_ws_idem: "drop_ws (drop_ws s) = drop_ws s"
  by (induction s rule: drop_ws.induct) simp_all

lemma drop_ws_end_idem: "drop_ws_end (drop_ws_end s) = drop_ws_end s"
  by (induction s rule: drop_ws_end.induct) simp_all

lemma drop_ws_suffix: "suffix (drop_ws s) s"
  by (induction s rule: drop_ws.induct) (auto simp: suffix_Cons)

lemma drop_ws_end_suffix: "suffix (drop_ws_end s) s"
  by (induction s rule: drop_ws_end.induct) (auto simp: suffix_Cons)

text \<open>A text that keeps its front: its first characters are none.\<close>

definition front_ok :: "string \<Rightarrow> bool" where
  "front_ok s \<longleftrightarrow> (case s of [] \<Rightarrow> True | [a] \<Rightarrow> \<not> is_ws a | [a, b] \<Rightarrow> \<not> is_ws a \<and> \<not> is_ws2 a b
     | a # b # c # r \<Rightarrow> \<not> is_ws a \<and> \<not> is_ws2 a b \<and> \<not> is_ws3 a b c)"

lemma drop_ws_length: "length (drop_ws s) \<le> length s"
  using drop_ws_suffix by (rule suffix_length_le)

lemma drop_ws_same: "drop_ws s = s \<longleftrightarrow> front_ok s"
proof (cases s rule: drop_ws.cases)
  case (3 a b)
  then show ?thesis using drop_ws_length[of "[b]"] by (auto simp: front_ok_def)
next
  case (4 a b c r)
  have "drop_ws t \<noteq> a # b # c # r" if "length t < length s" for t
    using drop_ws_length[of t] that 4 by auto
  from this[of "b # c # r"] this[of "c # r"] this[of r] show ?thesis by (simp add: 4 front_ok_def)
qed (simp_all add: front_ok_def)

lemma drop_ws_prefix: "drop_ws (p @ r) = p @ r \<Longrightarrow> drop_ws p = p"
  unfolding drop_ws_same by (cases p rule: drop_ws.cases; cases r rule: drop_ws.cases) (simp_all add: front_ok_def)

lemma trim_idem [simp]: "trim (trim s) = trim s"
proof -
  let ?d = "drop_ws s" let ?r = "drop_ws_end (rev ?d)"
  obtain a where "rev ?d = a @ ?r" using drop_ws_end_suffix[of "rev ?d"] by (auto simp: suffix_def)
  then have d: "?d = rev ?r @ rev a" by (metis rev_append rev_rev_ident)
  then have "drop_ws (rev ?r @ rev a) = rev ?r @ rev a" by (metis drop_ws_idem)
  then have "drop_ws (rev ?r) = rev ?r" by (rule drop_ws_prefix)
  then show ?thesis by (simp add: trim_def drop_ws_end_idem)
qed

text \<open>A text is blank from the front when it is from the end.\<close>

lemma drop_ws_append: "drop_ws s = [] \<Longrightarrow> drop_ws (s @ t) = drop_ws t"
proof (induction s rule: drop_ws.induct)
  case (2 a)
  then show ?case by (cases t rule: drop_ws.cases) (simp_all split: if_splits)
next
  case (3 a b)
  show ?case
  proof (cases "is_ws a")
    case True
    then have "drop_ws ([b] @ t) = drop_ws t" using 3 by simp
    then show ?thesis using True by (cases t) simp_all
  qed (use 3 in \<open>cases t; simp split: if_splits\<close>)
qed (simp_all split: if_splits)

lemma drop_ws_end_append: "drop_ws_end s = [] \<Longrightarrow> drop_ws_end (s @ t) = drop_ws_end t"
proof (induction s rule: drop_ws_end.induct)
  case (2 a)
  then show ?case by (cases t rule: drop_ws_end.cases) (simp_all split: if_splits)
next
  case (3 b a)
  show ?case
  proof (cases "is_ws b")
    case True
    then have "drop_ws_end ([a] @ t) = drop_ws_end t" using 3 by simp
    then show ?thesis using True by (cases t) simp_all
  qed (use 3 in \<open>cases t; simp split: if_splits\<close>)
qed (simp_all split: if_splits)

lemma blank_forward: "drop_ws s = [] \<Longrightarrow> drop_ws_end (rev s) = []"
proof (induction s rule: drop_ws.induct)
  case (3 a b)
  then show ?case by (simp add: ws_apart split: if_splits)
next
  case (4 a b c s)
  consider "is_ws a" | "\<not> is_ws a" "is_ws2 a b" | "\<not> is_ws a" "\<not> is_ws2 a b" "is_ws3 a b c" using 4 by (auto split: if_splits)
  then show ?case
  proof cases
    case 1
    then have "drop_ws_end (rev (b # c # s)) = []" using 4 by simp
    from drop_ws_end_append[OF this, of "[a]"] show ?thesis using 1 by simp
  next
    case 2
    then have "drop_ws_end (rev (c # s)) = []" using 4 by simp
    from drop_ws_end_append[OF this, of "[b, a]"] show ?thesis using 2 by (simp add: ws_apart)
  next
    case 3
    then have "drop_ws_end (rev s) = []" using 4 by simp
    from drop_ws_end_append[OF this, of "[c, b, a]"] show ?thesis using 3 by (simp add: ws_apart)
  qed
qed (simp_all split: if_splits)

lemma blank_backward: "drop_ws_end r = [] \<Longrightarrow> drop_ws (rev r) = []"
proof (induction r rule: drop_ws_end.induct)
  case (3 b a)
  then show ?case by (simp add: ws_apart split: if_splits)
next
  case (4 c b a s)
  consider "is_ws c" | "\<not> is_ws c" "is_ws2 b c" | "\<not> is_ws c" "\<not> is_ws2 b c" "is_ws3 a b c" using 4 by (auto split: if_splits)
  then show ?case
  proof cases
    case 1
    then have "drop_ws (rev (b # a # s)) = []" using 4 by simp
    from drop_ws_append[OF this, of "[c]"] show ?thesis using 1 by simp
  next
    case 2
    then have "drop_ws (rev (a # s)) = []" using 4 by simp
    from drop_ws_append[OF this, of "[b, c]"] show ?thesis using 2 by (simp add: ws_apart)
  next
    case 3
    then have "drop_ws (rev s) = []" using 4 by simp
    from drop_ws_append[OF this, of "[a, b, c]"] show ?thesis using 3 by (simp add: ws_apart)
  qed
qed (simp_all split: if_splits)

lemma blank_rev: "drop_ws_end (rev s) = [] \<longleftrightarrow> drop_ws s = []"
  using blank_forward blank_backward by (metis rev_rev_ident)

lemma trim_empty: "trim s = [] \<longleftrightarrow> drop_ws s = []"
proof -
  have "trim s = [] \<longleftrightarrow> drop_ws_end (rev (drop_ws s)) = []" by (simp add: trim_def)
  also have "\<dots> \<longleftrightarrow> drop_ws (drop_ws s) = []" by (rule blank_rev)
  finally show ?thesis by (simp add: drop_ws_idem)
qed

subsection \<open>Digits\<close>

definition digit_val :: "char \<Rightarrow> nat option" where
  "digit_val c = (let n = (of_char c :: nat) in
     if 48 \<le> n \<and> n \<le> 57 then Some (n - 48)
     else if 97 \<le> n \<and> n \<le> 102 then Some (n - 87)
     else if 65 \<le> n \<and> n \<le> 70 then Some (n - 55) else None)"

definition digit_in :: "nat \<Rightarrow> char \<Rightarrow> bool" where
  "digit_in b c = (case digit_val c of None \<Rightarrow> False | Some d \<Rightarrow> d < b)"

abbreviation is_digit :: "char \<Rightarrow> bool" where
  "is_digit \<equiv> digit_in 10"

text \<open>A non-empty run of digits: the regular expression \<open>/^\d+$/\<close> for base 10.\<close>

definition all_digits :: "nat \<Rightarrow> string \<Rightarrow> bool" where
  "all_digits b s = (s \<noteq> [] \<and> list_all (digit_in b) s)"

definition radix_val :: "nat \<Rightarrow> string \<Rightarrow> nat" where
  "radix_val b s = foldl (\<lambda>a c. a * b + opt_or (digit_val c) 0) 0 s"

definition digit_char :: "nat \<Rightarrow> char" where
  "digit_char d = char_of (if d < 10 then d + 48 else d + 87)"

lemma digit_val_char [simp]: "d < 16 \<Longrightarrow> digit_val (digit_char d) = Some d"
  by (auto simp: digit_val_def digit_char_def Let_def of_char_of)

lemma digit_in_char [simp]: "d < b \<Longrightarrow> b \<le> 16 \<Longrightarrow> digit_in b (digit_char d)"
  by (simp add: digit_in_def)

lemma digit_plain: "digit_in b c \<Longrightarrow> plain c"
  by (auto simp: plain_def digit_in_def digit_val_def is_ws_def Let_def split: if_splits option.splits)

lemma radix_val_snoc: "radix_val b (s @ [c]) = radix_val b s * b + opt_or (digit_val c) 0"
  by (simp add: radix_val_def)

fun show_nat :: "nat \<Rightarrow> string" where
  "show_nat n = (if n < 10 then [digit_char n] else show_nat (n div 10) @ [digit_char (n mod 10)])"

declare show_nat.simps [simp del]

lemma show_nat_digits: "all_digits 10 (show_nat n)"
proof (induction n rule: show_nat.induct)
  case (1 n)
  then show ?case
    by (cases "n < 10") (simp_all add: show_nat.simps [of n] all_digits_def)
qed

lemma radix_val_show_nat [simp]: "radix_val 10 (show_nat n) = n"
proof (induction n rule: show_nat.induct)
  case (1 n)
  then show ?case
    by (cases "n < 10") (simp_all add: show_nat.simps [of n] radix_val_snoc, simp add: radix_val_def)
qed

definition show_int :: "int \<Rightarrow> string" where
  "show_int n = (if n < 0 then CHR ''-'' # show_nat (nat (- n)) else show_nat (nat n))"

text \<open>The same digits computed on integers, which evaluates faster.\<close>

function show_digits :: "int \<Rightarrow> string" where
  "show_digits n = (if n < 10 then [digit_char (nat n)] else show_digits (n div 10) @ [digit_char (nat (n mod 10))])"
  by pat_completeness auto
termination
  by (relation "measure nat") auto

declare show_digits.simps [simp del]

lemma show_digits_nat: "show_digits (int n) = show_nat n"
proof (induction n rule: show_nat.induct)
  case (1 n)
  show ?case
  proof (cases "n < 10")
    case True
    then show ?thesis by (simp add: show_digits.simps[of "int n"] show_nat.simps[of n])
  next
    case False
    then have "show_digits (int n) = show_digits (int (n div 10)) @ [digit_char (n mod 10)]"
      by (simp add: show_digits.simps[of "int n"] nat_mod_distrib zdiv_int)
    then show ?thesis using 1 False by (simp add: show_nat.simps[of n])
  qed
qed

lemma show_int_code [code]:
  "show_int n = (if n < 0 then CHR ''-'' # show_digits (- n) else show_digits n)"
  using show_digits_nat[of "nat n"] show_digits_nat[of "nat (- n)"]
  by (cases "n < 0") (simp_all add: show_int_def split: if_splits)

definition radix_int :: "int \<Rightarrow> string \<Rightarrow> int" where
  "radix_int b s = foldl (\<lambda>a c. a * b + int (opt_or (digit_val c) 0)) 0 s"

lemma radix_val_int [code_unfold]: "int (radix_val b s) = radix_int (int b) s"
  by (induction s rule: rev_induct) (simp_all add: radix_val_def radix_int_def)

lemma radix_val_rat [code_unfold]: "(of_nat (radix_val b s) :: rat) = of_int (radix_int (int b) s)"
  by (simp flip: radix_val_int)

subsection \<open>\<open>BigInt(string)\<close>\<close>

definition bigint_of_string :: "string \<Rightarrow> int result" where
  "bigint_of_string s = (let t = trim s in
     if t = [] then Inr 0
     else if all_digits 10 t then Inr (int (radix_val 10 t))
     else if hd t = CHR ''-'' \<and> all_digits 10 (tl t) then Inr (- int (radix_val 10 (tl t)))
     else if hd t = CHR ''+'' \<and> all_digits 10 (tl t) then Inr (int (radix_val 10 (tl t)))
     else if take 2 t \<in> {''0x'', ''0X''} \<and> all_digits 16 (drop 2 t) then Inr (int (radix_val 16 (drop 2 t)))
     else if take 2 t \<in> {''0o'', ''0O''} \<and> all_digits 8 (drop 2 t) then Inr (int (radix_val 8 (drop 2 t)))
     else if take 2 t \<in> {''0b'', ''0B''} \<and> all_digits 2 (drop 2 t) then Inr (int (radix_val 2 (drop 2 t)))
     else Inl SyntaxError)"

lemma all_digits_no_ws: "all_digits b s \<Longrightarrow> list_all plain s"
  by (auto simp: all_digits_def list_all_iff digit_plain)

lemma trim_show_nat [simp]: "trim (show_nat n) = show_nat n"
  by (rule trim_no_ws [OF all_digits_no_ws [OF show_nat_digits]])

lemma show_nat_nonempty [simp]: "show_nat n \<noteq> []"
  using show_nat_digits[of n] by (simp add: all_digits_def)

lemma bigint_of_show_int [simp]: "bigint_of_string (show_int n) = Inr n"
proof (cases "n < 0")
  case False
  then show ?thesis
    using show_nat_digits[of "nat n"] by (simp add: bigint_of_string_def show_int_def Let_def)
next
  case True
  have ws: "plain (CHR ''-'')" by code_simp
  have nd: "\<not> digit_in 10 (CHR ''-'')" by code_simp
  have "list_all plain (show_int n)"
    using True ws all_digits_no_ws[OF show_nat_digits] by (simp add: show_int_def)
  then have t: "trim (show_int n) = show_int n" by simp
  then show ?thesis
    using True nd show_nat_digits[of "nat (- n)"]
    by (simp add: bigint_of_string_def t, simp add: show_int_def all_digits_def)
qed

text \<open>\<open>BigInt(number)\<close>: a RangeError unless the number is an integer.\<close>

definition bigint_of_num :: "jsnum \<Rightarrow> int result" where
  "bigint_of_num x = (case finite_num x of None \<Rightarrow> Inl RangeError
     | Some r \<Rightarrow> if r = of_int \<lfloor>r\<rfloor> then Inr \<lfloor>r\<rfloor> else Inl RangeError)"

subsection \<open>\<open>Number(string)\<close>\<close>

text \<open>The exponent part, after the mantissa: \<open>[eE][+-]?digits\<close>, or nothing.\<close>

definition exponent_of :: "string \<Rightarrow> int option" where
  "exponent_of s = (case s of [] \<Rightarrow> Some 0
     | c # r \<Rightarrow>
       if c \<notin> {CHR ''e'', CHR ''E''} then None
       else if all_digits 10 r then Some (int (radix_val 10 r))
       else (case r of [] \<Rightarrow> None
             | c' # r' \<Rightarrow>
               if c' = CHR ''+'' \<and> all_digits 10 r' then Some (int (radix_val 10 r'))
               else if c' = CHR ''-'' \<and> all_digits 10 r' then Some (- int (radix_val 10 r'))
               else None))"

definition unsigned_decimal :: "string \<Rightarrow> rat option" where
  "unsigned_decimal s =
     (let ip = takeWhile is_digit s; r1 = dropWhile is_digit s;
          fr = (case r1 of [] \<Rightarrow> [] | c # r \<Rightarrow> if c = CHR ''.'' then takeWhile is_digit r else []);
          r2 = (case r1 of [] \<Rightarrow> [] | c # r \<Rightarrow> if c = CHR ''.'' then dropWhile is_digit r else r1)
      in if ip = [] \<and> fr = [] then None
         else case exponent_of r2 of None \<Rightarrow> None
         | Some e \<Rightarrow> Some (of_nat (radix_val 10 (ip @ fr)) * 10 powi (e - int (length fr))))"

definition unsigned_number :: "string \<Rightarrow> jsnum" where
  "unsigned_number s = (if s = ''Infinity'' then PosInf
     else case unsigned_decimal s of None \<Rightarrow> NaN | Some r \<Rightarrow> num_of_rat r)"

fun num_neg :: "jsnum \<Rightarrow> jsnum" where
  "num_neg NaN = NaN"
| "num_neg PosInf = NegInf"
| "num_neg NegInf = PosInf"
| "num_neg (Fin x) = Fin (- x)"

definition number_of_string :: "string \<Rightarrow> jsnum" where
  "number_of_string s = (let t = trim s in
     if t = [] then Fin 0
     else if hd t = CHR ''-'' then num_neg (unsigned_number (tl t))
     else if hd t = CHR ''+'' then unsigned_number (tl t)
     else if take 2 t \<in> {''0x'', ''0X''} then
       (if all_digits 16 (drop 2 t) then num_of_rat (of_nat (radix_val 16 (drop 2 t))) else NaN)
     else if take 2 t \<in> {''0o'', ''0O''} then
       (if all_digits 8 (drop 2 t) then num_of_rat (of_nat (radix_val 8 (drop 2 t))) else NaN)
     else if take 2 t \<in> {''0b'', ''0B''} then
       (if all_digits 2 (drop 2 t) then num_of_rat (of_nat (radix_val 2 (drop 2 t))) else NaN)
     else unsigned_number t)"

text \<open>The ASCII text of a list of bytes given by number: for literals beyond ASCII.\<close>

definition utf8 :: "nat list \<Rightarrow> string" where
  "utf8 bs = map char_of bs"

end
