(* ===== verification/Byte_Codec.thy ===== *)
theory Byte_Codec
  imports Js_Text "HOL-Library.Word"
begin

unbundle bit_operations_syntax

section \<open>Bytes: buffers, little-endian integers, hexadecimal\<close>

text \<open>
  A \<open>Uint8Array\<close> is a list of 8-bit words; BigInts are integers with their infinite two's
  complement bits. Writing through a \<open>DataView\<close> or \<open>Uint8Array.set\<close> raises a RangeError
  outside the buffer. \<open>writeU64LE\<close> and \<open>writeI64LE\<close> are those of
  services/shield-oracle/src/shield_score.ts and packages/universal-shield-sdk/src/index.ts (the
  two files hold the same text), \<open>readU64LE\<close>, \<open>readI64LE\<close> and \<open>encodeU64LE\<close> those of
  lib/unforgiven-v2-client.ts. The locale \<open>le_codec\<close> is the contract of a writer and its reader.
\<close>

type_synonym u8 = "8 word"
type_synonym bytes = "u8 list"

subsection \<open>Buffers\<close>

definition set_u8 :: "bytes \<Rightarrow> nat \<Rightarrow> int \<Rightarrow> bytes result" where
  "set_u8 buf off v = (if off < length buf then Inr (buf[off := word_of_int v]) else Inl RangeError)"

definition set_bytes :: "bytes \<Rightarrow> nat \<Rightarrow> bytes \<Rightarrow> bytes result" where
  "set_bytes buf off src = (if off + length src \<le> length buf
     then Inr (take off buf @ src @ drop (off + length src) buf) else Inl RangeError)"

definition slice :: "bytes \<Rightarrow> nat \<Rightarrow> nat \<Rightarrow> bytes" where
  "slice bs from to = take (to - from) (drop from bs)"

text \<open>Writing the next field of a buffer filled up to there, zero after.\<close>

lemma set_bytes_next:
  "length pre = off \<Longrightarrow> length src \<le> n \<Longrightarrow>
   set_bytes (pre @ replicate n 0) off src = Inr ((pre @ src) @ replicate (n - length src) 0)"
  by (simp add: set_bytes_def)

lemma set_u8_next:
  "length pre = off \<Longrightarrow> 0 < n \<Longrightarrow>
   set_u8 (pre @ replicate n 0) off v = Inr ((pre @ [word_of_int v]) @ replicate (n - 1) 0)"
  by (cases n) (simp_all add: set_u8_def list_update_append)

lemma slice_length [simp]: "length (slice bs from to) = min (to - from) (length bs - from)"
  by (simp add: slice_def)

lemma slice_append_skip: "length a \<le> from \<Longrightarrow> slice (a @ b) from to = slice b (from - length a) (to - length a)"
  by (simp add: slice_def)

lemma slice_append_here: "to = length a \<Longrightarrow> slice (a @ b) 0 to = a"
  by (simp add: slice_def)

subsection \<open>Writers\<close>

fun writeBytesLoop :: "bytes \<Rightarrow> nat \<Rightarrow> int \<Rightarrow> nat list \<Rightarrow> bytes result" where
  "writeBytesLoop buf off v [] = Inr buf"
| "writeBytesLoop buf off v (i # is) =
     rbind (set_u8 buf (off + i) (drop_bit (i * 8) v AND 0xff)) (\<lambda>b. writeBytesLoop b off v is)"

definition writeU64LE :: "bytes \<Rightarrow> nat \<Rightarrow> int \<Rightarrow> bytes result" where
  "writeU64LE buf off v =
     (if v < 0 \<or> push_bit 64 1 - 1 < v then Inl (Thrown ''u64 out of range'')
      else writeBytesLoop buf off v [0..<8])"

definition writeI64LE :: "bytes \<Rightarrow> nat \<Rightarrow> int \<Rightarrow> bytes result" where
  "writeI64LE buf off v =
     (if v < - push_bit 63 1 \<or> push_bit 63 1 - 1 < v then Inl (Thrown ''i64 out of range'')
      else writeU64LE buf off (if v < 0 then push_bit 64 1 + v else v))"

definition encodeU64LE :: "int \<Rightarrow> bytes" where
  "encodeU64LE v = map (\<lambda>i. word_of_int (drop_bit (8 * i) v AND 0xff)) [0..<8]"

definition encodeI64LE :: "int \<Rightarrow> bytes" where
  "encodeI64LE v = encodeU64LE (if v < 0 then push_bit 64 1 + v else v)"

lemma length_encode [simp]: "length (encodeU64LE v) = 8" "length (encodeI64LE v) = 8"
  by (simp_all add: encodeU64LE_def encodeI64LE_def)

lemma writeBytesLoop_eq:
  "off + k \<le> length buf \<Longrightarrow> writeBytesLoop buf off v [0..<k] =
     Inr (take off buf @ map (\<lambda>i. word_of_int (drop_bit (8 * i) v AND 0xff)) [0..<k] @ drop (off + k) buf)"
proof -
  have app: "writeBytesLoop buf off v (xs @ ys) =
      rbind (writeBytesLoop buf off v xs) (\<lambda>b. writeBytesLoop b off v ys)" for buf xs ys
  proof (induction xs arbitrary: buf)
    case (Cons x xs)
    then show ?case by (cases "set_u8 buf (off + x) (drop_bit (x * 8) v AND 0xff)") simp_all
  qed simp
  show "off + k \<le> length buf \<Longrightarrow> ?thesis"
  proof (induction k)
    case (Suc k)
    then have "drop (off + k) buf = buf ! (off + k) # drop (off + Suc k) buf"
      by (simp add: Cons_nth_drop_Suc)
    with Suc show ?case
      by (simp add: app set_u8_def list_update_append mult.commute)
  qed simp
qed

lemma writeU64LE_eq:
  assumes "off + 8 \<le> length buf" "0 \<le> v" "v < 2 ^ 64"
  shows "writeU64LE buf off v = set_bytes buf off (encodeU64LE v)"
  using assms by (simp add: writeU64LE_def writeBytesLoop_eq set_bytes_def encodeU64LE_def)

lemma writeI64LE_eq:
  assumes "off + 8 \<le> length buf" "- (2 ^ 63) \<le> v" "v < 2 ^ 63"
  shows "writeI64LE buf off v = set_bytes buf off (encodeI64LE v)"
  using assms by (simp add: writeI64LE_def writeU64LE_eq encodeI64LE_def)

subsection \<open>Readers\<close>

text \<open>\<open>bytes[k] ?? 0\<close>\<close>

definition byte_at :: "bytes \<Rightarrow> nat \<Rightarrow> int" where
  "byte_at bs k = (if k < length bs then uint (bs ! k) else 0)"

definition readU64LE :: "bytes \<Rightarrow> nat \<Rightarrow> int" where
  "readU64LE bs off = fold (\<lambda>i v. v OR push_bit (8 * i) (byte_at bs (off + i))) [0..<8] 0"

definition readI64LE :: "bytes \<Rightarrow> nat \<Rightarrow> int" where
  "readI64LE bs off = (let v = readU64LE bs off in
     if push_bit 63 1 \<le> v then v - push_bit 64 1 else v)"

lemma take_bit_split: "take_bit (m + n) (v::int) = take_bit m v OR push_bit m (take_bit n (drop_bit m v))"
  by (rule bit_eqI) (auto simp: bit_simps)

lemma readU64LE_loop:
  assumes "\<And>i. i < k \<Longrightarrow> byte_at bs (off + i) = take_bit 8 (drop_bit (8 * i) v)"
  shows "fold (\<lambda>i v. v OR push_bit (8 * i) (byte_at bs (off + i))) [0..<k] 0 = take_bit (8 * k) (v::int)"
  using assms
proof (induction k)
  case (Suc k)
  then show ?case
    using take_bit_split[of "8 * k" 8 v] by (simp add: add.commute[of 8])
qed simp

lemma and_255: "(v::int) AND 255 = take_bit 8 v"
  by (simp add: take_bit_eq_mask mask_eq_exp_minus_1)

lemma readU64LE_encode: "readU64LE (pre @ encodeU64LE v @ post) (length pre) = take_bit 64 v"
proof -
  have "byte_at (pre @ encodeU64LE v @ post) (length pre + i) = take_bit 8 (drop_bit (8 * i) v)" if "i < 8" for i
    using that
    by (simp add: byte_at_def nth_append encodeU64LE_def uint_word_of_int_eq and_255)
  from readU64LE_loop[of 8, OF this] show ?thesis by (simp add: readU64LE_def)
qed

text \<open>The contract of a writer and the reader of the same field.\<close>

locale le_codec =
  fixes put :: "int \<Rightarrow> bytes"
    and get :: "bytes \<Rightarrow> nat \<Rightarrow> int"
    and lo hi :: int
  assumes put_length: "length (put v) = 8"
    and get_put: "lo \<le> v \<Longrightarrow> v < hi \<Longrightarrow> get (pre @ put v @ post) (length pre) = v"
begin

lemma put_inj: "lo \<le> v \<Longrightarrow> v < hi \<Longrightarrow> lo \<le> w \<Longrightarrow> w < hi \<Longrightarrow> put v = put w \<longleftrightarrow> v = w"
  by (metis get_put)

lemma get_at: "lo \<le> v \<Longrightarrow> v < hi \<Longrightarrow> off = length pre \<Longrightarrow> get (pre @ put v @ post) off = v"
  using get_put by simp

end

interpretation u64: le_codec encodeU64LE readU64LE 0 "2 ^ 64"
  by unfold_locales (simp_all add: readU64LE_encode take_bit_int_eq_self)

interpretation i64: le_codec encodeI64LE readI64LE "- (2 ^ 63)" "2 ^ 63"
proof unfold_locales
  fix v :: int and pre post :: bytes
  assume v: "- (2 ^ 63) \<le> v" "v < 2 ^ 63"
  let ?w = "if v < 0 then push_bit 64 1 + v else v"
  have "readU64LE (pre @ encodeI64LE v @ post) (length pre) = ?w"
    using v by (simp add: encodeI64LE_def readU64LE_encode take_bit_int_eq_self)
  then show "readI64LE (pre @ encodeI64LE v @ post) (length pre) = v"
    using v by (simp add: readI64LE_def)
qed simp

subsection \<open>Hexadecimal\<close>

definition byte_hex :: "u8 \<Rightarrow> string" where
  "byte_hex b = [digit_char (unat b div 16), digit_char (unat b mod 16)]"

text \<open>The same, computed on integers, which evaluates faster.\<close>

lemma char_of_int: "char_of (int n) = char_of n"
  by (simp add: char_of_def bit_of_nat_iff_bit)

lemma byte_hex_code [code]:
  "byte_hex b = (let q = uint b div 16; r = uint b mod 16 in
     [char_of (if q < 10 then q + 48 else q + 87), char_of (if r < 10 then r + 48 else r + 87)])"
proof -
  have u: "uint b = int (unat b)" by simp
  have "char_of (if int d < 10 then int d + 48 else int d + 87) = digit_char d" for d
    using char_of_int[of "d + 48"] char_of_int[of "d + 87"] by (simp add: digit_char_def)
  from this[of "unat b div 16"] this[of "unat b mod 16"] show ?thesis
    unfolding Let_def u byte_hex_def by (simp only: zdiv_int zmod_int of_nat_numeral)
qed

definition to_hex :: "bytes \<Rightarrow> string" where
  "to_hex bs = concat (map byte_hex bs)"

text \<open>\<open>Buffer.from(s, 'hex')\<close>: decodes pairs up to the first that is not hexadecimal.\<close>

fun buffer_from_hex :: "string \<Rightarrow> bytes" where
  "buffer_from_hex (a # b # r) =
     (if digit_in 16 a \<and> digit_in 16 b then of_nat (radix_val 16 [a, b]) # buffer_from_hex r else [])"
| "buffer_from_hex _ = []"

lemma radix_val_byte: "d < 16 \<Longrightarrow> e < 16 \<Longrightarrow> radix_val 16 [digit_char d, digit_char e] = 16 * d + e"
  by (simp add: radix_val_def)

lemma unat_u8_less: "unat (b :: u8) < 256"
  using unsigned_less[of b, where 'a = nat] by simp

lemma buffer_from_hex_to_hex [simp]: "buffer_from_hex (to_hex bs) = bs"
proof (induction bs)
  case (Cons b bs)
  have "unat b div 16 < 16" "unat b mod 16 < 16"
    using unat_u8_less[of b] by (simp_all add: less_mult_imp_div_less)
  with Cons show ?case
    by (simp add: to_hex_def byte_hex_def radix_val_byte)
qed (simp add: to_hex_def)

lemma length_to_hex [simp]: "length (to_hex bs) = 2 * length bs"
  by (induction bs) (simp_all add: to_hex_def byte_hex_def)

end
