(* ===== verification/Js_Value.thy ===== *)
theory Js_Value
  imports Js_Text
begin

section \<open>Dynamically typed values\<close>

text \<open>
  \<open>unknown\<close> and \<open>Record<string, unknown>\<close> of the source: parsed JSON. An object is an
  association list of its own properties, in order. Reading a property of null or undefined
  throws; a property that is not there is undefined (no component reads a property of a string,
  a number or an array that the language defines itself).
\<close>

datatype jsval = JUndef | JNull | JBool bool | JNum jsnum | JStr string
  | JArr "jsval list" | JObj "(string \<times> jsval) list"

fun js_own :: "jsval \<Rightarrow> string \<Rightarrow> jsval option" where
  "js_own (JObj ps) k = map_of ps k"
| "js_own _ k = None"

text \<open>\<open>v.k\<close>\<close>

definition js_prop :: "jsval \<Rightarrow> string \<Rightarrow> jsval result" where
  "js_prop v k = (if v \<in> {JUndef, JNull} then Inl TypeError else Inr (opt_or (js_own v k) JUndef))"

text \<open>\<open>v?.k\<close>\<close>

definition js_prop_opt :: "jsval \<Rightarrow> string \<Rightarrow> jsval" where
  "js_prop_opt v k = opt_or (js_own v k) JUndef"

text \<open>\<open>a ?? b\<close> on values.\<close>

definition js_nullish :: "jsval \<Rightarrow> jsval \<Rightarrow> jsval" where
  "js_nullish a b = (if a \<in> {JUndef, JNull} then b else a)"

fun js_truthy :: "jsval \<Rightarrow> bool" where
  "js_truthy JUndef = False"
| "js_truthy JNull = False"
| "js_truthy (JBool b) = b"
| "js_truthy (JNum NaN) = False"
| "js_truthy (JNum (Fin x)) = (x \<noteq> 0)"
| "js_truthy (JNum _) = True"
| "js_truthy (JStr s) = (s \<noteq> [])"
| "js_truthy (JArr _) = True"
| "js_truthy (JObj _) = True"

fun js_string :: "jsval \<Rightarrow> string option" where
  "js_string (JStr s) = Some s"
| "js_string _ = None"

text \<open>\<open>v && typeof v === 'object' && !Array.isArray(v)\<close>\<close>

fun js_is_object :: "jsval \<Rightarrow> bool" where
  "js_is_object (JObj _) = True"
| "js_is_object _ = False"

text \<open>\<open>(v as string).toLowerCase()\<close>: a TypeError when \<open>v\<close> is no string.\<close>

fun js_lower :: "jsval \<Rightarrow> string result" where
  "js_lower (JStr s) = Inr (to_lower s)"
| "js_lower _ = Inl TypeError"

lemma js_prop_obj [simp]: "js_prop (JObj ps) k = Inr (opt_or (map_of ps k) JUndef)"
  by (simp add: js_prop_def)

lemma js_prop_error: "js_prop v k = Inl e \<Longrightarrow> e = TypeError"
  by (simp add: js_prop_def split: if_splits)

subsection \<open>Conversions of the language\<close>

text \<open>\<open>a || b\<close>\<close>

definition js_or :: "jsval \<Rightarrow> jsval \<Rightarrow> jsval" where
  "js_or a b = (if js_truthy a then a else b)"

text \<open>The elements a \<open>for ... of\<close> loop visits; a TypeError on a value that is not iterable.\<close>

fun js_iter :: "jsval \<Rightarrow> jsval list result" where
  "js_iter (JArr xs) = Inr xs"
| "js_iter (JStr s) = Inr (map (\<lambda>c. JStr [c]) s)"
| "js_iter _ = Inl TypeError"

text \<open>\<open>v?.toLowerCase?.() ?? ''\<close>\<close>

fun js_lower_opt :: "jsval \<Rightarrow> string result" where
  "js_lower_opt (JStr s) = Inr (to_lower s)"
| "js_lower_opt (JObj ps) =
     (if opt_or (map_of ps ''toLowerCase'') JUndef \<in> {JUndef, JNull} then Inr [] else Inl TypeError)"
| "js_lower_opt _ = Inr []"

text \<open>\<open>(v as string).trim()\<close>\<close>

fun js_trim :: "jsval \<Rightarrow> string result" where
  "js_trim (JStr s) = Inr (trim s)"
| "js_trim _ = Inl TypeError"

text \<open>
  \<open>Number(v)\<close>. An array is converted through its text: the empty one is 0, one of several elements is
  not a number because of its commas.
\<close>

fun js_to_number :: "jsval \<Rightarrow> jsnum" where
  "js_to_number (JNum x) = x"
| "js_to_number (JStr s) = number_of_string s"
| "js_to_number (JBool b) = Fin (if b then 1 else 0)"
| "js_to_number JNull = Fin 0"
| "js_to_number (JArr []) = Fin 0"
| "js_to_number (JArr [JBool b]) = NaN"
| "js_to_number (JArr [JUndef]) = Fin 0"
| "js_to_number (JArr [x]) = js_to_number x"
| "js_to_number (JArr (x # y # r)) = NaN"
| "js_to_number _ = NaN"

text \<open>The integer a bitwise operator sees; \<open>& 0xff\<close> of it is that of its low 32 bits.\<close>

definition num_trunc :: "jsnum \<Rightarrow> int" where
  "num_trunc x = (case finite_num x of None \<Rightarrow> 0 | Some r \<Rightarrow> if r < 0 then - \<lfloor>- r\<rfloor> else \<lfloor>r\<rfloor>)"

definition js_to_int :: "jsval \<Rightarrow> int" where
  "js_to_int v = num_trunc (js_to_number v)"

text \<open>\<open>BigInt(v)\<close>: numbers must be integers, arrays and objects go through their text.\<close>

fun array_integer_text :: "jsval list \<Rightarrow> string option" where
  "array_integer_text [] = Some []"
| "array_integer_text [JStr s] = Some s"
| "array_integer_text [JNull] = Some []"
| "array_integer_text [JUndef] = Some []"
| "array_integer_text [JNum (Fin x)] =
     (if x = of_int \<lfloor>x\<rfloor> \<and> \<bar>x\<bar> < 10 ^ 21 then Some (show_int \<lfloor>x\<rfloor>) else None)"
| "array_integer_text [JArr xs] = array_integer_text xs"
| "array_integer_text _ = None"

fun js_bigint :: "jsval \<Rightarrow> int result" where
  "js_bigint (JStr s) = bigint_of_string s"
| "js_bigint (JNum x) = bigint_of_num x"
| "js_bigint (JBool b) = Inr (if b then 1 else 0)"
| "js_bigint (JArr xs) = (case array_integer_text xs of None \<Rightarrow> Inl SyntaxError | Some s \<Rightarrow> bigint_of_string s)"
| "js_bigint (JObj _) = Inl SyntaxError"
| "js_bigint _ = Inl TypeError"

lemma js_prop_opt_obj [simp]: "js_prop_opt (JObj ps) k = opt_or (map_of ps k) JUndef"
  by (simp add: js_prop_opt_def)

end
