(* ===== verification/Dignity_Scoring.thy ===== *)
theory Dignity_Scoring
  imports Js_Value "HOL-Library.Multiset"
begin

section \<open>Dignity scoring (services/dignity-scoring/src)\<close>

text \<open>
  The weights of a wallet: the adapters read one number per provider family out of the
  attestations (\<open>adapters.ts\<close>, \<open>utils.ts\<close>), and \<open>computeDignityScore\<close> turns them into
  points, a mask of the adapters that scored and the total (\<open>index.ts\<close>). An attestation is a
  dynamically typed value; reading its provider throws when a provider field is not a string.
  The lemmas give each extractor as a maximum, the values the total can take, and its
  monotonicity and order independence in the attestations.
\<close>

subsection \<open>Reading an attestation (utils.ts)\<close>

definition providerName :: "jsval \<Rightarrow> string result" where
  "providerName attestation =
     rbind (js_prop attestation ''provider'') (\<lambda>p.
     rbind (js_prop attestation ''providerName'') (\<lambda>pn.
     rbind (js_prop attestation ''claimData'') (\<lambda>cd.
       js_lower (js_nullish (js_nullish (js_nullish p pn) (js_prop_opt cd ''provider'')) (JStr [])))))"

text \<open>The inner loop: follow the parts of one path while each is present in an object.\<close>

fun followPath :: "jsval \<Rightarrow> string list \<Rightarrow> jsval" where
  "followPath cur [] = cur"
| "followPath cur (p # ps) =
     (case js_own cur p of Some v \<Rightarrow> followPath v ps | None \<Rightarrow> JUndef)"

text \<open>The value at the end of a path, when it is a finite number or a string denoting one.\<close>

fun pathNumber :: "jsval \<Rightarrow> rat option" where
  "pathNumber (JNum x) = finite_num x"
| "pathNumber (JStr s) = finite_num (number_of_string s)"
| "pathNumber _ = None"

fun readPathNumber :: "jsval \<Rightarrow> string list \<Rightarrow> rat option" where
  "readPathNumber input [] = None"
| "readPathNumber input (path # paths) =
     (case pathNumber (followPath input (split_char (CHR ''.'') path)) of
        Some n \<Rightarrow> Some n
      | None \<Rightarrow> readPathNumber input paths)"

subsection \<open>The adapters (adapters.ts)\<close>

definition githubPaths :: "string list" where
  "githubPaths = [''commit_count'', ''commits'', ''data.commit_count'', ''data.commits'']"

definition spotifyPaths :: "string list" where
  "spotifyPaths = [''playtime_hours'', ''hours'', ''data.playtime_hours'', ''data.hours'']"

definition agePaths :: "string list" where
  "agePaths = [''account_age_days'', ''age_days'', ''data.account_age_days'']"

definition activityPaths :: "string list" where
  "activityPaths = [''activity_score'', ''engagement_score'', ''data.activity_score'']"

fun githubLoop :: "rat \<Rightarrow> jsval list \<Rightarrow> rat result" where
  "githubLoop githubCommits [] = Inr githubCommits"
| "githubLoop githubCommits (raw # rest) = rbind (providerName raw) (\<lambda>provider.
     if \<not> str_includes provider ''github'' then githubLoop githubCommits rest
     else githubLoop (max githubCommits (opt_or (readPathNumber raw githubPaths) 0)) rest)"

definition extractGithubCommits :: "jsval list \<Rightarrow> rat result" where
  "extractGithubCommits attestations = githubLoop 0 attestations"

fun spotifyLoop :: "rat \<Rightarrow> jsval list \<Rightarrow> rat result" where
  "spotifyLoop spotifyHours [] = Inr spotifyHours"
| "spotifyLoop spotifyHours (raw # rest) = rbind (providerName raw) (\<lambda>provider.
     if \<not> str_includes provider ''spotify'' then spotifyLoop spotifyHours rest
     else spotifyLoop (max spotifyHours (opt_or (readPathNumber raw spotifyPaths) 0)) rest)"

definition extractSpotifyHours :: "jsval list \<Rightarrow> rat result" where
  "extractSpotifyHours attestations = spotifyLoop 0 attestations"

fun twitterLoop :: "rat \<Rightarrow> rat \<Rightarrow> jsval list \<Rightarrow> (rat \<times> rat) result" where
  "twitterLoop accountAgeDays activityScore [] = Inr (accountAgeDays, activityScore)"
| "twitterLoop accountAgeDays activityScore (raw # rest) = rbind (providerName raw) (\<lambda>provider.
     if \<not> str_includes provider ''twitter'' \<and> \<not> str_includes provider ''x.com''
     then twitterLoop accountAgeDays activityScore rest
     else twitterLoop (max accountAgeDays (opt_or (readPathNumber raw agePaths) 0))
            (max activityScore (opt_or (readPathNumber raw activityPaths) 0)) rest)"

definition extractTwitterSignals :: "jsval list \<Rightarrow> (rat \<times> rat) result" where
  "extractTwitterSignals attestations = twitterLoop 0 0 attestations"

fun googleLoop :: "rat \<Rightarrow> jsval list \<Rightarrow> rat result" where
  "googleLoop ageDays [] = Inr ageDays"
| "googleLoop ageDays (raw # rest) = rbind (providerName raw) (\<lambda>provider.
     if \<not> str_includes provider ''google'' then googleLoop ageDays rest
     else googleLoop (max ageDays (opt_or (readPathNumber raw agePaths) 0)) rest)"

definition extractGoogleFallbackAgeDays :: "jsval list \<Rightarrow> rat result" where
  "extractGoogleFallbackAgeDays attestations = googleLoop 0 attestations"

subsection \<open>The score (index.ts)\<close>

record adapter_breakdown =
  githubCommits :: rat
  githubPoints :: int
  spotifyHours :: rat
  spotifyPoints :: int
  twitterAccountAgeDays :: rat
  twitterActivityScore :: rat
  twitterPoints :: int
  googleFallbackAgeDays :: rat
  googleFallbackPoints :: int
  adapterMask :: int
  totalScore :: int

text \<open>The mask \<open>0b001 | 0b010 | 0b100\<close>; the three bits are disjoint.\<close>

definition adapterMaskOf :: "int \<Rightarrow> int \<Rightarrow> int \<Rightarrow> int" where
  "adapterMaskOf gp sp tp =
     or (or (if 0 < gp then 1 else 0) (if 0 < sp then 2 else 0)) (if 0 < tp then 4 else 0)"

definition computeDignityScore :: "jsval list \<Rightarrow> adapter_breakdown result" where
  "computeDignityScore attestations =
     rbind (extractGithubCommits attestations) (\<lambda>commits.
     rbind (extractSpotifyHours attestations) (\<lambda>hours.
     rbind (extractTwitterSignals attestations) (\<lambda>(age, activity).
     rbind (extractGoogleFallbackAgeDays attestations) (\<lambda>googleAge.
       let gp = (if 50 < commits then 40 else 0);
           sp = (if 10 < hours then 30 else 0);
           tp = (if 365 < age \<and> 50 \<le> activity then 20 else 0)
       in Inr \<lparr>githubCommits = commits, githubPoints = gp, spotifyHours = hours, spotifyPoints = sp,
            twitterAccountAgeDays = age, twitterActivityScore = activity, twitterPoints = tp,
            googleFallbackAgeDays = googleAge, googleFallbackPoints = 0,
            adapterMask = adapterMaskOf gp sp tp,
            totalScore = max 0 (min 100 (gp + sp + tp))\<rparr>))))"

lemma bit_adapterMaskOf:
  "bit (adapterMaskOf gp sp tp) i \<longleftrightarrow> i = 0 \<and> 0 < gp \<or> i = 1 \<and> 0 < sp \<or> i = 2 \<and> 0 < tp"
  using bit_exp_iff [of 1 i, where 'a = int] bit_exp_iff [of 2 i, where 'a = int]
  by (auto simp: adapterMaskOf_def bit_or_iff bit_1_iff)

subsection \<open>The extractors as maxima\<close>

text \<open>
  Every loop reads the provider of each attestation; if one is no string, the loop throws the
  TypeError. Otherwise it is the maximum of the accumulator and the numbers of the attestations
  its provider test selects. The locale is that contract, proved once for the three loops that
  carry one accumulator.
\<close>

definition all_named :: "jsval list \<Rightarrow> bool" where
  "all_named atts = list_all (\<lambda>a. \<not> isl (providerName a)) atts"

definition best_of :: "(string \<Rightarrow> bool) \<Rightarrow> string list \<Rightarrow> rat \<Rightarrow> jsval set \<Rightarrow> rat" where
  "best_of P paths acc A = Max (insert acc
     ((\<lambda>raw. opt_or (readPathNumber raw paths) 0) ` {raw \<in> A. \<exists>p. providerName raw = Inr p \<and> P p}))"

lemma best_of_empty [simp]: "best_of P paths acc {} = acc"
  by (simp add: best_of_def)

lemma Max_insert_max:
  "finite S \<Longrightarrow> Max (insert a (insert v S)) = Max (insert (max a v) (S::'a::linorder set))"
  by (cases "S = {}") (simp_all add: max.assoc)

lemma best_of_insert_hit:
  assumes "providerName raw = Inr p" "P p" "finite A"
  shows "best_of P paths acc (insert raw A) = best_of P paths (max acc (opt_or (readPathNumber raw paths) 0)) A"
proof -
  have "{r \<in> insert raw A. \<exists>p. providerName r = Inr p \<and> P p} =
        insert raw {r \<in> A. \<exists>p. providerName r = Inr p \<and> P p}"
    using assms by auto
  then show ?thesis
    using assms(3) by (simp add: best_of_def Max_insert_max del: Max_insert)
qed

lemma best_of_insert_miss:
  assumes "providerName raw = Inr p" "\<not> P p"
  shows "best_of P paths acc (insert raw A) = best_of P paths acc A"
proof -
  have "{r \<in> insert raw A. \<exists>p. providerName r = Inr p \<and> P p} =
        {r \<in> A. \<exists>p. providerName r = Inr p \<and> P p}"
    using assms by auto
  then show ?thesis by (simp add: best_of_def)
qed

lemma best_of_mono: "A \<subseteq> B \<Longrightarrow> finite B \<Longrightarrow> best_of P paths acc A \<le> best_of P paths acc B"
  unfolding best_of_def by (rule Max_mono) (auto intro: finite_subset)

lemma best_of_ge: "finite A \<Longrightarrow> acc \<le> best_of P paths acc A"
  by (simp add: best_of_def)

lemma providerName_error: "providerName a = Inl e \<Longrightarrow> e = TypeError"
proof -
  have "js_lower v = Inl e' \<Longrightarrow> e' = TypeError" for v e' by (cases v) auto
  then show "providerName a = Inl e \<Longrightarrow> e = TypeError"
    by (auto simp: providerName_def js_simps dest: js_prop_error)
qed

locale adapter_loop =
  fixes loop :: "rat \<Rightarrow> jsval list \<Rightarrow> rat result"
    and P :: "string \<Rightarrow> bool"
    and paths :: "string list"
  assumes loop_Nil: "loop acc [] = Inr acc"
    and loop_Cons: "loop acc (raw # rest) = rbind (providerName raw) (\<lambda>p.
      if \<not> P p then loop acc rest else loop (max acc (opt_or (readPathNumber raw paths) 0)) rest)"
begin

lemma loop_eq:
  "loop acc atts = (if all_named atts then Inr (best_of P paths acc (set atts)) else Inl TypeError)"
proof (induction atts arbitrary: acc)
  case Nil
  show ?case by (simp add: loop_Nil all_named_def)
next
  case (Cons raw atts)
  show ?case
  proof (cases "providerName raw")
    case (Inl e)
    then show ?thesis by (simp add: loop_Cons all_named_def providerName_error)
  next
    case (Inr p)
    then show ?thesis
      by (cases "P p") (simp_all add: loop_Cons Cons.IH all_named_def best_of_insert_hit best_of_insert_miss)
  qed
qed

end

interpretation github: adapter_loop githubLoop "\<lambda>p. str_includes p ''github''" githubPaths
  by unfold_locales simp_all

interpretation spotify: adapter_loop spotifyLoop "\<lambda>p. str_includes p ''spotify''" spotifyPaths
  by unfold_locales simp_all

interpretation google: adapter_loop googleLoop "\<lambda>p. str_includes p ''google''" agePaths
  by unfold_locales simp_all

abbreviation is_twitter :: "string \<Rightarrow> bool" where
  "is_twitter p \<equiv> str_includes p ''twitter'' \<or> str_includes p ''x.com''"

lemma twitterLoop_eq:
  "twitterLoop age act atts =
     (if all_named atts
      then Inr (best_of is_twitter agePaths age (set atts), best_of is_twitter activityPaths act (set atts))
      else Inl TypeError)"
proof (induction atts arbitrary: age act)
  case Nil
  show ?case by (simp add: all_named_def)
next
  case (Cons raw atts)
  show ?case
  proof (cases "providerName raw")
    case (Inl e)
    then show ?thesis by (simp add: all_named_def providerName_error)
  next
    case (Inr p)
    then show ?thesis
      by (cases "is_twitter p")
        (auto simp: Cons.IH all_named_def best_of_insert_hit best_of_insert_miss)
  qed
qed

lemmas extractor_eqs =
  extractGithubCommits_def github.loop_eq extractSpotifyHours_def spotify.loop_eq
  extractTwitterSignals_def twitterLoop_eq extractGoogleFallbackAgeDays_def google.loop_eq

text \<open>The score as a function of the set of attestations.\<close>

definition score_of :: "jsval set \<Rightarrow> adapter_breakdown" where
  "score_of A =
     (let commits = best_of (\<lambda>p. str_includes p ''github'') githubPaths 0 A;
          hours = best_of (\<lambda>p. str_includes p ''spotify'') spotifyPaths 0 A;
          age = best_of is_twitter agePaths 0 A;
          act = best_of is_twitter activityPaths 0 A;
          googleAge = best_of (\<lambda>p. str_includes p ''google'') agePaths 0 A;
          gp = (if 50 < commits then 40 else 0);
          sp = (if 10 < hours then 30 else 0);
          tp = (if 365 < age \<and> 50 \<le> act then 20 else 0)
      in \<lparr>githubCommits = commits, githubPoints = gp, spotifyHours = hours, spotifyPoints = sp,
           twitterAccountAgeDays = age, twitterActivityScore = act, twitterPoints = tp,
           googleFallbackAgeDays = googleAge, googleFallbackPoints = 0,
           adapterMask = adapterMaskOf gp sp tp, totalScore = max 0 (min 100 (gp + sp + tp))\<rparr>)"

lemma computeDignityScore_eq:
  "computeDignityScore atts = (if all_named atts then Inr (score_of (set atts)) else Inl TypeError)"
  by (simp add: computeDignityScore_def extractor_eqs score_of_def Let_def)

subsection \<open>Properties\<close>

definition dignity_totals :: "int set" where
  "dignity_totals = {0, 20, 30, 40, 50, 60, 70, 90}"

text \<open>
  A score that is returned is decided by the mask: 40, 30 and 20 points for bits 0, 1 and 2, so
  the total is one of eight values between 0 and 90. The cap at 100 is never reached, and the
  google fallback never scores.
\<close>

theorem dignity_score_by_mask:
  assumes "computeDignityScore attestations = Inr b"
  shows "totalScore b = 40 * of_bool (bit (adapterMask b) 0) + 30 * of_bool (bit (adapterMask b) 1)
           + 20 * of_bool (bit (adapterMask b) 2)
         \<and> totalScore b = githubPoints b + spotifyPoints b + twitterPoints b + googleFallbackPoints b
         \<and> totalScore b \<in> dignity_totals \<and> 0 \<le> adapterMask b \<and> adapterMask b \<le> 7"
proof -
  have "b = score_of (set attestations)"
    using assms by (simp add: computeDignityScore_eq split: if_splits)
  then show ?thesis
    by (simp add: score_of_def Let_def adapterMaskOf_def dignity_totals_def bit_simps)
qed

definition github_60 :: jsval where
  "github_60 = JObj [(''provider'', JStr ''GitHub-contrib''), (''data'', JObj [(''commits'', JStr ''60'')])]"

definition spotify_11 :: jsval where
  "spotify_11 = JObj [(''claimData'', JObj [(''provider'', JStr ''spotify'')]), (''hours'', JNum (Fin 11))]"

lemma sample_scores:
  "computeDignityScore [github_60] = Inr (score_of {github_60})"
  "totalScore (score_of {github_60}) = 40"
  "computeDignityScore [spotify_11, github_60] = Inr (score_of {spotify_11, github_60})"
  "totalScore (score_of {spotify_11, github_60}) = 70"
proof -
  have n: "all_named [spotify_11, github_60]" by code_simp
  then show "computeDignityScore [spotify_11, github_60] = Inr (score_of {spotify_11, github_60})"
    "computeDignityScore [github_60] = Inr (score_of {github_60})"
    by (simp_all add: computeDignityScore_eq all_named_def)
  have "map_sum id totalScore (computeDignityScore [github_60]) = Inr 40"
    "map_sum id totalScore (computeDignityScore [spotify_11, github_60]) = Inr 70"
    by code_simp+
  then show "totalScore (score_of {github_60}) = 40" "totalScore (score_of {spotify_11, github_60}) = 70"
    using n by (simp_all add: computeDignityScore_eq all_named_def)
qed

theorem dignity_score_by_mask_witness:
  "totalScore (score_of {github_60}) =
     40 * of_bool (bit (adapterMask (score_of {github_60})) 0)
     + 30 * of_bool (bit (adapterMask (score_of {github_60})) 1)
     + 20 * of_bool (bit (adapterMask (score_of {github_60})) 2)"
  using dignity_score_by_mask [OF sample_scores(1)] by blast

text \<open>
  The score depends only on which attestations are presented: their order and repetitions
  change nothing, the error included. So an attestation cannot be counted twice.
\<close>

theorem dignity_order_independent:
  assumes "set attestations = set attestations'"
  shows "computeDignityScore attestations = computeDignityScore attestations'"
  using assms by (simp add: computeDignityScore_eq all_named_def list_all_iff)

theorem dignity_order_independent_witness:
  "computeDignityScore [spotify_11, github_60] = computeDignityScore [github_60, spotify_11, github_60]"
  by (rule dignity_order_independent) auto

text \<open>
  Presenting more attestations never lowers the score nor clears a bit of the mask.
\<close>

theorem dignity_monotone:
  assumes "computeDignityScore attestations = Inr a" "computeDignityScore (attestations @ extra) = Inr b"
  shows "totalScore a \<le> totalScore b \<and> (\<forall>i. bit (adapterMask a) i \<longrightarrow> bit (adapterMask b) i)"
proof (intro conjI allI impI)
  let ?A = "set attestations" and ?B = "set (attestations @ extra)"
  have ab: "a = score_of ?A" "b = score_of ?B"
    using assms by (simp_all add: computeDignityScore_eq split: if_splits)
  have le: "best_of P paths 0 ?A \<le> best_of P paths 0 ?B" for P paths
    by (rule best_of_mono) auto
  note mono = le [of "\<lambda>p. str_includes p ''github''" githubPaths]
    le [of "\<lambda>p. str_includes p ''spotify''" spotifyPaths]
    le [of is_twitter agePaths] le [of is_twitter activityPaths]
  show "totalScore a \<le> totalScore b"
    using mono by (auto simp: ab score_of_def Let_def)
  fix i assume "bit (adapterMask a) i"
  then show "bit (adapterMask b) i"
    using mono by (auto simp: ab score_of_def Let_def bit_adapterMaskOf split: if_splits)
qed

theorem dignity_monotone_witness:
  "totalScore (score_of {spotify_11}) \<le> totalScore (score_of {spotify_11, github_60})"
proof -
  have n: "all_named [spotify_11, github_60]" by code_simp
  have "computeDignityScore [spotify_11] = Inr (score_of {spotify_11})"
    "computeDignityScore ([spotify_11] @ [github_60]) = Inr (score_of {spotify_11, github_60})"
    using n by (simp_all add: computeDignityScore_eq all_named_def)
  then show ?thesis by (rule dignity_monotone [THEN conjunct1])
qed

end
