(* ===== verification/Shield_Payload.thy ===== *)
theory Shield_Payload
  imports Byte_Codec Dignity_Scoring
begin

section \<open>The signed Shield payload (services/shield-oracle/src/shield_score.ts)\<close>

text \<open>
  The record the oracle signs, its 141-byte serialization, the score after the user mode, the
  binding of attestations to a wallet and the key that makes a proof one-time. SHA-256 and
  Keccak-256 are other people's code and parameters of the model, as are \<open>JSON.parse\<close> and
  \<open>JSON.stringify\<close> on an attestation: nothing is assumed of them. The lemmas give the layout of
  the payload field by field, so that a payload is determined by its bytes.
\<close>

datatype user_mode = Bot_suspected | Guest | Verified

record payload_raw =
  policy_version :: int
  user_pubkey :: bytes
  initial_price :: int
  sales_velocity_bps :: int
  time_elapsed :: int
  dignity_score :: int
  adapter_mask :: int
  user_mode :: int
  zk_provider :: int
  zk_proof_hash :: bytes
  scoring_model_hash :: bytes
  attestation_expiry :: int
  nonce :: int

definition SHIELD_PAYLOAD_V0_LEN :: nat where "SHIELD_PAYLOAD_V0_LEN = 141"
definition DEFAULT_POLICY_VERSION :: int where "DEFAULT_POLICY_VERSION = 0"
definition DEFAULT_ZK_PROVIDER :: int where "DEFAULT_ZK_PROVIDER = 1"
definition DEFAULT_INITIAL_PRICE :: int where "DEFAULT_INITIAL_PRICE = 1000000000"
definition DEFAULT_SALES_VELOCITY_BPS :: int where "DEFAULT_SALES_VELOCITY_BPS = 5000"
definition DEFAULT_TIME_ELAPSED :: int where "DEFAULT_TIME_ELAPSED = 12"
definition PROOF_TTL_SECONDS :: int where "PROOF_TTL_SECONDS = 300"

lemmas shield_defaults = DEFAULT_POLICY_VERSION_def DEFAULT_ZK_PROVIDER_def DEFAULT_INITIAL_PRICE_def
  DEFAULT_SALES_VELOCITY_BPS_def DEFAULT_TIME_ELAPSED_def PROOF_TTL_SECONDS_def

fun modeToCode :: "user_mode \<Rightarrow> int" where
  "modeToCode Bot_suspected = 0"
| "modeToCode Guest = 1"
| "modeToCode Verified = 2"

definition zero_breakdown :: adapter_breakdown where
  "zero_breakdown = \<lparr>githubCommits = 0, githubPoints = 0, spotifyHours = 0, spotifyPoints = 0,
     twitterAccountAgeDays = 0, twitterActivityScore = 0, twitterPoints = 0,
     googleFallbackAgeDays = 0, googleFallbackPoints = 0, adapterMask = 0, totalScore = 0\<rparr>"

fun applyUserModeToDignityScore :: "adapter_breakdown \<Rightarrow> user_mode \<Rightarrow> adapter_breakdown" where
  "applyUserModeToDignityScore base Bot_suspected = zero_breakdown"
| "applyUserModeToDignityScore base Guest = base\<lparr>totalScore := max (totalScore base) 25\<rparr>"
| "applyUserModeToDignityScore base Verified = base"

definition computeDignityScoreForMode :: "jsval list \<Rightarrow> user_mode \<Rightarrow> adapter_breakdown result" where
  "computeDignityScoreForMode attestations mode =
     rbind (computeDignityScore attestations) (\<lambda>raw. Inr (applyUserModeToDignityScore raw mode))"

subsection \<open>Which wallet an attestation names\<close>

definition parseWalletFromContextString :: "(string \<Rightarrow> jsval option) \<Rightarrow> jsval \<Rightarrow> jsval" where
  "parseWalletFromContextString json_parse context =
     (case js_string context of None \<Rightarrow> JNull
      | Some s \<Rightarrow> (case json_parse s of None \<Rightarrow> JNull
        | Some parsed \<Rightarrow> if parsed \<in> {JUndef, JNull} then JNull
            else js_nullish (js_nullish (js_nullish (js_prop_opt parsed ''contextAddress'')
                   (js_prop_opt parsed ''walletAddress'')) (js_prop_opt parsed ''owner'')) JNull))"

definition attestationWallet :: "(string \<Rightarrow> jsval option) \<Rightarrow> jsval \<Rightarrow> jsval result" where
  "attestationWallet json_parse attestation =
     rbind (js_prop attestation ''owner'') (\<lambda>topOwner.
       if js_string topOwner \<noteq> None then Inr topOwner
       else let claim = js_prop_opt attestation ''claimData'' in
         if \<not> js_truthy claim then Inr JNull
         else let claimOwner = js_prop_opt claim ''owner'' in
           if js_string claimOwner \<noteq> None then Inr claimOwner
           else Inr (parseWalletFromContextString json_parse (js_prop_opt claim ''context'')))"

datatype ownership = Owned | Not_owned string

fun ownershipLoop :: "(string \<Rightarrow> jsval option) \<Rightarrow> string \<Rightarrow> bool \<Rightarrow> jsval list \<Rightarrow> ownership result" where
  "ownershipLoop json_parse wallet found [] =
     Inr (if found then Owned else Not_owned ''attestation missing wallet binding'')"
| "ownershipLoop json_parse wallet found (a # rest) =
     rbind (attestationWallet json_parse a) (\<lambda>owner.
       if \<not> js_truthy owner then ownershipLoop json_parse wallet found rest
       else if owner \<noteq> JStr wallet then Inr (Not_owned ''attestation wallet mismatch'')
       else ownershipLoop json_parse wallet True rest)"

definition validateAttestationWalletOwnership ::
  "(string \<Rightarrow> jsval option) \<Rightarrow> jsval list \<Rightarrow> string \<Rightarrow> ownership result" where
  "validateAttestationWalletOwnership json_parse attestations wallet =
     (if attestations = [] then Inr (Not_owned ''no attestations provided'')
      else ownershipLoop json_parse wallet False attestations)"

definition hashAttestations :: "(string \<Rightarrow> bytes) \<Rightarrow> (jsval \<Rightarrow> string) \<Rightarrow> jsval \<Rightarrow> bytes" where
  "hashAttestations sha256 json_stringify attestations = sha256 (json_stringify attestations)"

definition computeUniqKey :: "(bytes \<Rightarrow> bytes) \<Rightarrow> bytes \<Rightarrow> bytes \<Rightarrow> string" where
  "computeUniqKey keccak_256 zkProofHash walletPubkey = to_hex (keccak_256 (zkProofHash @ walletPubkey))"

subsection \<open>Serialization\<close>

definition serializeShieldPayloadV0 :: "payload_raw \<Rightarrow> bytes result" where
  "serializeShieldPayloadV0 p =
     rbind (ensure (length (user_pubkey p) = 32) (Thrown ''user_pubkey must be 32 bytes'')) (\<lambda>_.
     rbind (ensure (length (zk_proof_hash p) = 32) (Thrown ''zk_proof_hash must be 32 bytes'')) (\<lambda>_.
     rbind (ensure (length (scoring_model_hash p) = 32) (Thrown ''scoring_model_hash must be 32 bytes'')) (\<lambda>_.
     rbind (set_u8 (replicate SHIELD_PAYLOAD_V0_LEN 0) 0 (policy_version p AND 0xff)) (\<lambda>out.
     rbind (set_bytes out 1 (user_pubkey p)) (\<lambda>out.
     rbind (writeU64LE out 33 (initial_price p)) (\<lambda>out.
     rbind (writeI64LE out 41 (sales_velocity_bps p)) (\<lambda>out.
     rbind (writeU64LE out 49 (time_elapsed p)) (\<lambda>out.
     rbind (set_u8 out 57 (dignity_score p AND 0xff)) (\<lambda>out.
     rbind (set_u8 out 58 (adapter_mask p AND 0xff)) (\<lambda>out.
     rbind (set_u8 out 59 (user_mode p AND 0xff)) (\<lambda>out.
     rbind (set_u8 out 60 (zk_provider p AND 0xff)) (\<lambda>out.
     rbind (set_bytes out 61 (zk_proof_hash p)) (\<lambda>out.
     rbind (set_bytes out 93 (scoring_model_hash p)) (\<lambda>out.
     rbind (writeI64LE out 125 (attestation_expiry p)) (\<lambda>out.
     writeU64LE out 133 (nonce p))))))))))))))))"

text \<open>What the code accepts: three 32-byte fields and five integers in the range of their width.\<close>

definition u64_range :: "int \<Rightarrow> bool" where "u64_range v \<longleftrightarrow> 0 \<le> v \<and> v < 2 ^ 64"
definition i64_range :: "int \<Rightarrow> bool" where "i64_range v \<longleftrightarrow> - (2 ^ 63) \<le> v \<and> v < 2 ^ 63"

definition wf_payload :: "payload_raw \<Rightarrow> bool" where
  "wf_payload p \<longleftrightarrow> length (user_pubkey p) = 32 \<and> length (zk_proof_hash p) = 32
     \<and> length (scoring_model_hash p) = 32 \<and> u64_range (initial_price p) \<and> i64_range (sales_velocity_bps p)
     \<and> u64_range (time_elapsed p) \<and> i64_range (attestation_expiry p) \<and> u64_range (nonce p)"

text \<open>The abstract layout: the fields one after the other.\<close>

definition payload_layout :: "payload_raw \<Rightarrow> bytes" where
  "payload_layout p =
     [word_of_int (policy_version p AND 0xff)] @ user_pubkey p @ encodeU64LE (initial_price p)
     @ encodeI64LE (sales_velocity_bps p) @ encodeU64LE (time_elapsed p)
     @ [word_of_int (dignity_score p AND 0xff)] @ [word_of_int (adapter_mask p AND 0xff)]
     @ [word_of_int (user_mode p AND 0xff)] @ [word_of_int (zk_provider p AND 0xff)]
     @ zk_proof_hash p @ scoring_model_hash p @ encodeI64LE (attestation_expiry p) @ encodeU64LE (nonce p)"

lemma writeU64LE_next:
  "length pre = off \<Longrightarrow> 8 \<le> n \<Longrightarrow> u64_range v \<Longrightarrow>
   writeU64LE (pre @ replicate n 0) off v = Inr ((pre @ encodeU64LE v) @ replicate (n - 8) 0)"
  by (simp add: u64_range_def writeU64LE_eq set_bytes_next del: append_assoc)

lemma writeI64LE_next:
  "length pre = off \<Longrightarrow> 8 \<le> n \<Longrightarrow> i64_range v \<Longrightarrow>
   writeI64LE (pre @ replicate n 0) off v = Inr ((pre @ encodeI64LE v) @ replicate (n - 8) 0)"
  by (simp add: i64_range_def writeI64LE_eq set_bytes_next del: append_assoc)

lemma writeU64LE_range: "writeU64LE buf off v = Inr b \<Longrightarrow> u64_range v"
  by (auto simp: writeU64LE_def u64_range_def split: if_splits)

lemma writeI64LE_range: "writeI64LE buf off v = Inr b \<Longrightarrow> i64_range v"
  by (auto simp: writeI64LE_def i64_range_def split: if_splits)

lemma serialize_wf: "wf_payload p \<Longrightarrow> serializeShieldPayloadV0 p = Inr (payload_layout p)"
proof -
  assume wf: "wf_payload p"
  have zero: "replicate SHIELD_PAYLOAD_V0_LEN 0 = [] @ replicate 141 (0::u8)"
    by (simp add: SHIELD_PAYLOAD_V0_LEN_def)
  show ?thesis
    using wf unfolding wf_payload_def serializeShieldPayloadV0_def zero payload_layout_def
    by (simp add: set_u8_next set_bytes_next writeU64LE_next writeI64LE_next del: append_assoc append.simps replicate.simps)
       simp
qed

lemma serialize_Inr_wf: "serializeShieldPayloadV0 p = Inr b \<Longrightarrow> wf_payload p"
  unfolding serializeShieldPayloadV0_def wf_payload_def
  by (auto simp: js_simps dest: writeU64LE_range writeI64LE_range)

lemma serialize_Inr_iff: "serializeShieldPayloadV0 p = Inr b \<longleftrightarrow> wf_payload p \<and> b = payload_layout p"
  by (metis serialize_wf serialize_Inr_wf sum.inject(2))

subsection \<open>Reading the layout back\<close>

lemma wf_lengths:
  "wf_payload p \<Longrightarrow> length (user_pubkey p) = 32"
  "wf_payload p \<Longrightarrow> length (zk_proof_hash p) = 32"
  "wf_payload p \<Longrightarrow> length (scoring_model_hash p) = 32"
  by (simp_all add: wf_payload_def)

lemma payload_layout_length: "wf_payload p \<Longrightarrow> length (payload_layout p) = 141"
  by (simp add: payload_layout_def wf_lengths)

lemma payload_layout_slices:
  assumes "wf_payload p"
  shows "slice (payload_layout p) 1 33 = user_pubkey p"
    "slice (payload_layout p) 61 93 = zk_proof_hash p"
    "slice (payload_layout p) 93 125 = scoring_model_hash p"
    "slice (payload_layout p) 133 141 = encodeU64LE (nonce p)"
  by (simp_all add: payload_layout_def slice_def wf_lengths[OF assms])

lemma payload_layout_ints:
  assumes "wf_payload p"
  shows "readU64LE (payload_layout p) 33 = initial_price p"
    "readI64LE (payload_layout p) 41 = sales_velocity_bps p"
    "readU64LE (payload_layout p) 49 = time_elapsed p"
    "readI64LE (payload_layout p) 125 = attestation_expiry p"
    "readU64LE (payload_layout p) 133 = nonce p"
proof -
  let ?h = "[word_of_int (policy_version p AND 0xff)] @ user_pubkey p"
  let ?m = "[word_of_int (dignity_score p AND 0xff)] @ [word_of_int (adapter_mask p AND 0xff)]
     @ [word_of_int (user_mode p AND 0xff)] @ [word_of_int (zk_provider p AND 0xff)]
     @ zk_proof_hash p @ scoring_model_hash p"
  let ?a = "encodeU64LE (initial_price p)" and ?b = "encodeI64LE (sales_velocity_bps p)"
    and ?c = "encodeU64LE (time_elapsed p)" and ?d = "encodeI64LE (attestation_expiry p)"
    and ?e = "encodeU64LE (nonce p)"
  note u = u64.get_at and i = i64.get_at
  note ranges = assms [unfolded wf_payload_def u64_range_def i64_range_def]
  have "readU64LE (?h @ ?a @ (?b @ ?c @ ?m @ ?d @ ?e)) 33 = initial_price p"
    using ranges by (intro u) auto
  then show "readU64LE (payload_layout p) 33 = initial_price p" by (simp add: payload_layout_def)
  have "readI64LE ((?h @ ?a) @ ?b @ (?c @ ?m @ ?d @ ?e)) 41 = sales_velocity_bps p"
    using ranges by (intro i) auto
  then show "readI64LE (payload_layout p) 41 = sales_velocity_bps p" by (simp add: payload_layout_def)
  have "readU64LE ((?h @ ?a @ ?b) @ ?c @ (?m @ ?d @ ?e)) 49 = time_elapsed p"
    using ranges by (intro u) auto
  then show "readU64LE (payload_layout p) 49 = time_elapsed p" by (simp add: payload_layout_def)
  have "readI64LE ((?h @ ?a @ ?b @ ?c @ ?m) @ ?d @ ?e) 125 = attestation_expiry p"
    using ranges by (intro i) auto
  then show "readI64LE (payload_layout p) 125 = attestation_expiry p" by (simp add: payload_layout_def)
  have "readU64LE ((?h @ ?a @ ?b @ ?c @ ?m @ ?d) @ ?e @ []) 133 = nonce p"
    using ranges by (intro u) auto
  then show "readU64LE (payload_layout p) 133 = nonce p" by (simp add: payload_layout_def)
qed

lemma payload_layout_bytes:
  assumes "wf_payload p"
  shows "byte_at (payload_layout p) 0 = policy_version p mod 256"
    "byte_at (payload_layout p) 57 = dignity_score p mod 256"
    "byte_at (payload_layout p) 58 = adapter_mask p mod 256"
    "byte_at (payload_layout p) 59 = user_mode p mod 256"
    "byte_at (payload_layout p) 60 = zk_provider p mod 256"
  by (simp_all add: payload_layout_def byte_at_def nth_append wf_lengths[OF assms] and_255
      uint_word_of_int_eq take_bit_eq_mod)

definition sample_payload :: payload_raw where
  "sample_payload = \<lparr>policy_version = 0, user_pubkey = replicate 32 7, initial_price = 1000000000,
     sales_velocity_bps = 5000, time_elapsed = 12, dignity_score = 70, adapter_mask = 3, user_mode = 2,
     zk_provider = 1, zk_proof_hash = replicate 32 9, scoring_model_hash = replicate 32 17,
     attestation_expiry = 1700000300, nonce = 1700000000123\<rparr>"

lemma sample_payload_wf: "wf_payload sample_payload"
  by (simp add: wf_payload_def sample_payload_def u64_range_def i64_range_def)

subsection \<open>Properties\<close>

text \<open>
  C3. The serialization is total on well-formed payloads and only on them: it throws exactly when a
  field has the wrong length or an integer leaves the range of its width. What it returns has 141
  bytes, and every field can be read back at its offset: no field overlaps another and none is lost.
\<close>

theorem payload_roundtrip:
  "case serializeShieldPayloadV0 p of
     Inl _ \<Rightarrow> \<not> wf_payload p
   | Inr b \<Rightarrow> wf_payload p \<and> length b = SHIELD_PAYLOAD_V0_LEN
     \<and> byte_at b 0 = policy_version p mod 256 \<and> slice b 1 33 = user_pubkey p
     \<and> readU64LE b 33 = initial_price p \<and> readI64LE b 41 = sales_velocity_bps p
     \<and> readU64LE b 49 = time_elapsed p \<and> byte_at b 57 = dignity_score p mod 256
     \<and> byte_at b 58 = adapter_mask p mod 256 \<and> byte_at b 59 = user_mode p mod 256
     \<and> byte_at b 60 = zk_provider p mod 256 \<and> slice b 61 93 = zk_proof_hash p
     \<and> slice b 93 125 = scoring_model_hash p \<and> readI64LE b 125 = attestation_expiry p
     \<and> readU64LE b 133 = nonce p"
proof (cases "serializeShieldPayloadV0 p")
  case (Inl e)
  then show ?thesis using serialize_wf by fastforce
next
  case (Inr b)
  then have wf: "wf_payload p" and b: "b = payload_layout p"
    by (simp_all add: serialize_Inr_iff)
  show ?thesis
    unfolding Inr sum.case b SHIELD_PAYLOAD_V0_LEN_def
    by (intro conjI wf payload_layout_length payload_layout_slices payload_layout_ints payload_layout_bytes)
qed

theorem payload_roundtrip_witness:
  "readI64LE (payload_layout sample_payload) 41 = 5000"
proof -
  have "serializeShieldPayloadV0 sample_payload = Inr (payload_layout sample_payload)"
    by (rule serialize_wf [OF sample_payload_wf])
  then show ?thesis using payload_roundtrip [of sample_payload] by (simp add: sample_payload_def)
qed

text \<open>
  The signed bytes determine the quote: two payloads that serialize to the same bytes agree in
  every wide field, and in the five one-byte fields modulo 256. A signature cannot be moved to
  another wallet, price, proof, expiry or nonce.
\<close>

theorem payload_bytes_determine_payload:
  assumes "serializeShieldPayloadV0 p = Inr b" "serializeShieldPayloadV0 q = Inr b"
  shows "user_pubkey p = user_pubkey q \<and> initial_price p = initial_price q
     \<and> sales_velocity_bps p = sales_velocity_bps q \<and> time_elapsed p = time_elapsed q
     \<and> zk_proof_hash p = zk_proof_hash q \<and> scoring_model_hash p = scoring_model_hash q
     \<and> attestation_expiry p = attestation_expiry q \<and> nonce p = nonce q
     \<and> dignity_score p mod 256 = dignity_score q mod 256 \<and> adapter_mask p mod 256 = adapter_mask q mod 256
     \<and> user_mode p mod 256 = user_mode q mod 256 \<and> zk_provider p mod 256 = zk_provider q mod 256
     \<and> policy_version p mod 256 = policy_version q mod 256"
proof -
  from assms have wf: "wf_payload p" "wf_payload q" and eq: "payload_layout p = payload_layout q"
    by (auto simp: serialize_Inr_iff)
  note read = payload_layout_slices payload_layout_ints payload_layout_bytes
  show ?thesis
    by (intro conjI; insert eq; simp flip: read[OF wf(1)] read[OF wf(2)])
qed

theorem payload_bytes_determine_payload_witness:
  "nonce sample_payload = nonce (sample_payload\<lparr>adapter_mask := 259\<rparr>)"
proof -
  let ?q = "sample_payload\<lparr>adapter_mask := 259\<rparr>"
  have "wf_payload ?q" using sample_payload_wf by (simp add: wf_payload_def)
  moreover have "payload_layout ?q = payload_layout sample_payload"
    by (simp add: payload_layout_def sample_payload_def)
  ultimately have "serializeShieldPayloadV0 ?q = Inr (payload_layout sample_payload)"
    by (simp add: serialize_wf)
  with serialize_wf [OF sample_payload_wf] show ?thesis
    by (rule payload_bytes_determine_payload [THEN conjunct2, THEN conjunct2, THEN conjunct2, THEN conjunct2,
          THEN conjunct2, THEN conjunct2, THEN conjunct2, THEN conjunct1])
qed

subsection \<open>Wallet binding\<close>

text \<open>The wallet an attestation is bound to, when its reading does not throw.\<close>

definition names_wallet :: "(string \<Rightarrow> jsval option) \<Rightarrow> jsval \<Rightarrow> jsval option" where
  "names_wallet json_parse a = (case attestationWallet json_parse a of Inl _ \<Rightarrow> None
     | Inr w \<Rightarrow> if js_truthy w then Some w else None)"

lemma ownershipLoop_Owned_iff:
  "ownershipLoop jp w found atts = Inr Owned \<longleftrightarrow>
     (\<forall>a \<in> set atts. \<not> isl (attestationWallet jp a) \<and> names_wallet jp a \<in> {None, Some (JStr w)})
     \<and> (found \<or> (\<exists>a \<in> set atts. names_wallet jp a = Some (JStr w)))"
proof (induction atts arbitrary: found)
  case (Cons a atts)
  show ?case
    by (cases "attestationWallet jp a") (auto simp: Cons.IH names_wallet_def)
qed simp

text \<open>
  Attestations pass the ownership check exactly when none can be read to name another wallet
  and at least one names the requesting wallet: an attestation without any wallet is let through
  only beside one that is bound.
\<close>

theorem ownership_valid_iff:
  "validateAttestationWalletOwnership json_parse attestations wallet = Inr Owned \<longleftrightarrow>
     (\<forall>a \<in> set attestations. \<not> isl (attestationWallet json_parse a)
        \<and> names_wallet json_parse a \<in> {None, Some (JStr wallet)})
     \<and> (\<exists>a \<in> set attestations. names_wallet json_parse a = Some (JStr wallet))"
  by (cases "attestations = []") (simp_all add: validateAttestationWalletOwnership_def ownershipLoop_Owned_iff)

theorem ownership_valid_witness:
  "validateAttestationWalletOwnership (\<lambda>_. None)
     [JObj [(''claimData'', JObj [(''owner'', JStr ''W1'')])], JObj []] ''W1'' = Inr Owned"
  unfolding ownership_valid_iff
  by (simp add: names_wallet_def attestationWallet_def js_prop_opt_def)

end
