(* ===== verification/Shield_Price.thy ===== *)
theory Shield_Price
  imports Js_Text "HOL-Library.Word" "HOL-Library.Signed_Division"
begin

unbundle bit_operations_syntax

section \<open>The VRGDA price (lib/unforgiven-v2-client.ts, packages/universal-shield-sdk/src/index.ts)\<close>

text \<open>
  Two implementations of one pricing rule over BigInts. The client (\<open>powFixed\<close>,
  \<open>computeExponentialPrice\<close>, \<open>calculateShieldQuote\<close>) computes without bounds; the SDK
  (\<open>powFixedChecked\<close>, \<open>quoteCore\<close>, the arithmetic of its \<open>calculateFromPayload\<close>) gives up on a
  product above \<open>2^128\<close> and quotes infinity. BigInt division truncates towards zero: \<open>sdiv\<close>.
  A dignity score is an integer here; on a fraction \<open>BigInt\<close> throws before any arithmetic.
  The lemmas show the fixed-point power monotone and bounded by the real one, the price bounded and
  antitone in the score, and the two implementations equal where the SDK is finite.
\<close>

definition BPS_SCALE :: int where "BPS_SCALE = 10000"
definition FIXED_POINT_SCALE :: int where "FIXED_POINT_SCALE = 1000000000"
definition LOYALTY_BASE_BPS :: int where "LOYALTY_BASE_BPS = 10000"
definition LOYALTY_THRESHOLD :: int where "LOYALTY_THRESHOLD = 70"
definition LOYALTY_POINT_DISCOUNT_BPS :: int where "LOYALTY_POINT_DISCOUNT_BPS = 30"
definition BLOCK_MULTIPLIER :: int where "BLOCK_MULTIPLIER = 100"
definition BOT_PRICE_CAP_MULTIPLIER :: int where "BOT_PRICE_CAP_MULTIPLIER = 120"
definition MAX_TIME_ELAPSED_SECS :: int where "MAX_TIME_ELAPSED_SECS = 30 * 24 * 60 * 60"
definition U64_MAX :: int where "U64_MAX = push_bit 64 1 - 1"
definition U128_MAX :: int where "U128_MAX = push_bit 128 1 - 1"

lemmas price_consts = BPS_SCALE_def FIXED_POINT_SCALE_def LOYALTY_BASE_BPS_def LOYALTY_THRESHOLD_def
  LOYALTY_POINT_DISCOUNT_BPS_def BLOCK_MULTIPLIER_def BOT_PRICE_CAP_MULTIPLIER_def
  MAX_TIME_ELAPSED_SECS_def U64_MAX_def U128_MAX_def

subsection \<open>The client's arithmetic\<close>

text \<open>The \<open>while (exp > 0n)\<close> loop of square-and-multiply.\<close>

function powLoop :: "int \<Rightarrow> int \<Rightarrow> int \<Rightarrow> int" where
  "powLoop resultFp base expo =
     (if 0 < expo then
        let resultFp' = (if expo AND 1 = 1 then (resultFp * base) sdiv FIXED_POINT_SCALE else resultFp);
            expo' = drop_bit 1 expo;
            base' = (if 0 < expo' then (base * base) sdiv FIXED_POINT_SCALE else base)
        in powLoop resultFp' base' expo'
      else resultFp)"
  by pat_completeness auto
termination
  by (relation "measure (\<lambda>(r, b, e). nat e)") (auto simp: drop_bit_Suc)

declare powLoop.simps [simp del]

definition powFixed :: "int \<Rightarrow> int \<Rightarrow> int" where
  "powFixed baseFp exponent = powLoop FIXED_POINT_SCALE baseFp exponent"

definition computeExponentialPrice :: "int \<Rightarrow> int \<Rightarrow> int \<Rightarrow> int" where
  "computeExponentialPrice basePrice velocityBps timeElapsed =
     (if timeElapsed = 0 \<or> velocityBps = 0 then (if 0 < basePrice then basePrice else 1)
      else let growthNumerator = BPS_SCALE + velocityBps in
        if growthNumerator \<le> 0 then 1
        else let perStepGrowthFp = (growthNumerator * FIXED_POINT_SCALE) sdiv BPS_SCALE;
                 growthFactorFp = powFixed perStepGrowthFp timeElapsed;
                 price = (basePrice * growthFactorFp) sdiv FIXED_POINT_SCALE
             in if 0 < price then price else 1)"

subsection \<open>The client's quote\<close>

record client_quote =
  finalPriceLamports :: int
  surchargeLamports :: int
  cq_blocked :: bool
  cq_isInfinite :: bool
  cq_effectiveVelocityBps :: int

definition discountBps :: "int \<Rightarrow> int" where
  "discountBps dignityScore =
     LOYALTY_BASE_BPS - max 0 (dignityScore - LOYALTY_THRESHOLD) * LOYALTY_POINT_DISCOUNT_BPS"

definition effectiveVelocity :: "int \<Rightarrow> int \<Rightarrow> int" where
  "effectiveVelocity salesVelocityBps dignityScore =
     (let scoreDistance = 100 - dignityScore; heatWeightBps = scoreDistance * scoreDistance
      in (salesVelocityBps * heatWeightBps) sdiv BPS_SCALE)"

definition calculateShieldQuote :: "int \<Rightarrow> int \<Rightarrow> int \<Rightarrow> int \<Rightarrow> client_quote result" where
  "calculateShieldQuote initialPriceLamports salesVelocityBps timeElapsedSecs dignityScore =
     (if dignityScore < 0 \<or> 100 < dignityScore then Inl (Thrown (''invalid dignity score: '' @ show_int dignityScore))
      else if salesVelocityBps \<le> - BPS_SCALE then Inl (Thrown (''invalid sales velocity: '' @ show_int salesVelocityBps))
      else if timeElapsedSecs < 0 \<or> MAX_TIME_ELAPSED_SECS < timeElapsedSecs
        then Inl (Thrown (''invalid time elapsed: '' @ show_int timeElapsedSecs))
      else
        let basePrice = (if 0 < initialPriceLamports then initialPriceLamports else 1);
            effectiveVelocityBps = effectiveVelocity salesVelocityBps dignityScore;
            expPrice = computeExponentialPrice basePrice effectiveVelocityBps timeElapsedSecs;
            loyaltyDiscountBps = discountBps dignityScore;
            discounted = (expPrice * (if 0 < loyaltyDiscountBps then loyaltyDiscountBps else 0))
                           sdiv LOYALTY_BASE_BPS;
            discountedPrice = (if discounted \<noteq> 0 then discounted else 1);
            cappedPrice = (if basePrice * BOT_PRICE_CAP_MULTIPLIER < discountedPrice
                           then basePrice * BOT_PRICE_CAP_MULTIPLIER else discountedPrice);
            blocked = (basePrice * BLOCK_MULTIPLIER \<le> cappedPrice)
        in Inr \<lparr>finalPriceLamports = cappedPrice,
             surchargeLamports = (if basePrice < cappedPrice then cappedPrice - basePrice else 0),
             cq_blocked = blocked, cq_isInfinite = False, cq_effectiveVelocityBps = effectiveVelocityBps\<rparr>)"

subsection \<open>The SDK's arithmetic\<close>

definition checkedMulU128 :: "int \<Rightarrow> int \<Rightarrow> int option" where
  "checkedMulU128 a b = (let r = a * b in if U128_MAX < r then None else Some r)"

definition checkedDivU128 :: "int \<Rightarrow> int \<Rightarrow> int option" where
  "checkedDivU128 a b = (if b = 0 then None else Some (a sdiv b))"

definition checkedMulDivU128 :: "int \<Rightarrow> int \<Rightarrow> int \<Rightarrow> int option" where
  "checkedMulDivU128 a b d = (case checkedMulU128 a b of None \<Rightarrow> None | Some m \<Rightarrow> checkedDivU128 m d)"

function powLoopChecked :: "int \<Rightarrow> int \<Rightarrow> int \<Rightarrow> int option" where
  "powLoopChecked result base expo =
     (if 0 < expo then
        (case (if expo AND 1 = 1 then checkedMulDivU128 result base FIXED_POINT_SCALE else Some result) of
           None \<Rightarrow> None
         | Some result' \<Rightarrow>
           let expo' = drop_bit 1 expo in
           (case (if 0 < expo' then checkedMulDivU128 base base FIXED_POINT_SCALE else Some base) of
              None \<Rightarrow> None
            | Some base' \<Rightarrow> powLoopChecked result' base' expo'))
      else Some result)"
  by pat_completeness auto
termination
  by (relation "measure (\<lambda>(r, b, e). nat e)") (auto simp: drop_bit_Suc)

declare powLoopChecked.simps [simp del]

definition powFixedChecked :: "int \<Rightarrow> int \<Rightarrow> int option" where
  "powFixedChecked baseFp exponent = powLoopChecked FIXED_POINT_SCALE baseFp exponent"

text \<open>
  The exponential part of \<open>calculateFromPayload\<close>; \<open>None\<close> is each of its returns of
  \<open>infinityOutput\<close>.
\<close>

definition sdkExpPrice :: "int \<Rightarrow> int \<Rightarrow> int \<Rightarrow> int option" where
  "sdkExpPrice basePrice effectiveVelocityBps timeElapsed =
     (if 0 < timeElapsed \<and> effectiveVelocityBps \<noteq> 0 then
        let growthNumerator = BPS_SCALE + effectiveVelocityBps in
        if growthNumerator \<le> 0 then Some 1
        else (case checkedMulDivU128 growthNumerator FIXED_POINT_SCALE BPS_SCALE of None \<Rightarrow> None
          | Some perStepGrowth \<Rightarrow>
            (case powFixedChecked perStepGrowth timeElapsed of None \<Rightarrow> None
             | Some growthFactor \<Rightarrow>
               (case checkedMulDivU128 basePrice growthFactor FIXED_POINT_SCALE of None \<Rightarrow> None
                | Some priced \<Rightarrow> Some (if 0 < priced then priced else 1))))
      else Some basePrice)"

text \<open>The rest: the discount, the cap and the block flag, \<open>None\<close> for infinity.\<close>

definition sdkPrice :: "int \<Rightarrow> int \<Rightarrow> int \<Rightarrow> int \<Rightarrow> (int \<times> bool) option" where
  "sdkPrice initialPrice salesVelocityBps timeElapsed dignityScore =
     (let basePrice = (if 0 < initialPrice then initialPrice else 1);
          effectiveVelocityBps = effectiveVelocity salesVelocityBps dignityScore in
      case sdkExpPrice basePrice effectiveVelocityBps timeElapsed of None \<Rightarrow> None
      | Some expPrice \<Rightarrow>
        let loyaltyPenalty = max 0 (dignityScore - LOYALTY_THRESHOLD) * LOYALTY_POINT_DISCOUNT_BPS;
            loyaltyDiscountBps = (if BPS_SCALE < loyaltyPenalty then 0 else BPS_SCALE - loyaltyPenalty) in
        (case checkedMulDivU128 expPrice loyaltyDiscountBps BPS_SCALE of None \<Rightarrow> None
         | Some final \<Rightarrow>
           if U64_MAX < final then None
           else let botCapPrice = basePrice * BOT_PRICE_CAP_MULTIPLIER;
                    final' = (if 0 < final then final else 1);
                    finalPrice = (if botCapPrice < final' then botCapPrice else final')
                in Some (finalPrice, basePrice * BLOCK_MULTIPLIER \<le> finalPrice)))"

subsection \<open>The fixed-point power\<close>

lemma sdiv_nonneg: "0 \<le> a \<Longrightarrow> 0 < b \<Longrightarrow> a sdiv b = a div (b::int)"
  by (simp add: signed_divide_int_def sgn_if)

lemma sdiv_mono: "0 \<le> a \<Longrightarrow> a \<le> a' \<Longrightarrow> 0 < d \<Longrightarrow> a sdiv d \<le> a' sdiv (d::int)"
  by (simp add: sdiv_nonneg zdiv_mono1)

text \<open>One multiplication of the loop.\<close>

definition fpMul :: "int \<Rightarrow> int \<Rightarrow> int" where
  "fpMul a b = (a * b) sdiv FIXED_POINT_SCALE"

lemma fp_scale_pos [simp]: "0 < FIXED_POINT_SCALE" "0 \<le> FIXED_POINT_SCALE"
  by (simp_all add: FIXED_POINT_SCALE_def)

lemma fpMul_div: "0 \<le> a \<Longrightarrow> 0 \<le> b \<Longrightarrow> fpMul a b = a * b div FIXED_POINT_SCALE"
  by (simp add: fpMul_def sdiv_nonneg)

lemma fpMul_nonneg [simp]: "0 \<le> a \<Longrightarrow> 0 \<le> b \<Longrightarrow> 0 \<le> fpMul a b"
  by (simp add: fpMul_div pos_imp_zdiv_nonneg_iff)

lemma fpMul_mono: "0 \<le> a \<Longrightarrow> a \<le> a' \<Longrightarrow> 0 \<le> b \<Longrightarrow> b \<le> b' \<Longrightarrow> fpMul a b \<le> fpMul a' b'"
  unfolding fpMul_def by (rule sdiv_mono) (auto intro: mult_mono)

lemma fpMul_ge: "0 \<le> a \<Longrightarrow> FIXED_POINT_SCALE \<le> b \<Longrightarrow> a \<le> fpMul a b"
proof -
  assume a: "0 \<le> a" and b: "FIXED_POINT_SCALE \<le> b"
  have "a * FIXED_POINT_SCALE div FIXED_POINT_SCALE \<le> a * b div FIXED_POINT_SCALE"
    using a b by (intro zdiv_mono1 mult_left_mono) auto
  then show ?thesis using a b by (simp add: fpMul_div FIXED_POINT_SCALE_def)
qed

lemma fpMul_commute: "fpMul a b = fpMul b a"
  by (simp add: fpMul_def mult.commute)

lemma fpMul_le: "0 \<le> a \<Longrightarrow> 0 \<le> b \<Longrightarrow> b \<le> FIXED_POINT_SCALE \<Longrightarrow> fpMul a b \<le> a"
proof -
  assume a: "0 \<le> a" and b: "0 \<le> b" "b \<le> FIXED_POINT_SCALE"
  have "a * b div FIXED_POINT_SCALE \<le> a * FIXED_POINT_SCALE div FIXED_POINT_SCALE"
    using a b by (intro zdiv_mono1 mult_left_mono) auto
  then show ?thesis using a b by (simp add: fpMul_div FIXED_POINT_SCALE_def)
qed

lemma shift_facts: "(e::int) AND 1 = 1 \<longleftrightarrow> odd e" "drop_bit (Suc 0) (e::int) = e div 2"
  by (simp_all add: and_one_eq odd_iff_mod_2_eq_one drop_bit_Suc)

lemma powLoop_0 [simp]: "e \<le> 0 \<Longrightarrow> powLoop r b e = r"
  by (simp add: powLoop.simps[of r b e])

lemma powLoop_step:
  "0 < e \<Longrightarrow> powLoop r b e =
     powLoop (if odd e then fpMul r b else r) (if 1 < e then fpMul b b else b) (e div 2)"
proof -
  assume e: "0 < e"
  have "0 < e div 2 \<longleftrightarrow> 1 < e" by linarith
  then show ?thesis
    using e by (simp add: powLoop.simps[of r b e] Let_def shift_facts fpMul_def)
qed

text \<open>Induction over the halving of the exponent.\<close>

lemma halving_induct [case_names zero one step]:
  assumes "\<And>e. e \<le> 0 \<Longrightarrow> P e" and "P 1"
    and "\<And>e. 1 < e \<Longrightarrow> P (e div 2) \<Longrightarrow> P (e::int)"
  shows "P e"
proof (induction "nat e" arbitrary: e rule: less_induct)
  case less
  consider "e \<le> 0" | "e = 1" | "1 < e" by linarith
  then show ?case
  proof cases
    case 3
    then have "nat (e div 2) < nat e" by simp
    then show ?thesis using assms(3) 3 less by blast
  qed (use assms in auto)
qed

lemma powLoop_1: "powLoop r b 1 = fpMul r b"
  by (simp add: powLoop_step[of 1])

lemma powLoop_mono:
  "0 \<le> r \<Longrightarrow> r \<le> r' \<Longrightarrow> 0 \<le> b \<Longrightarrow> b \<le> b' \<Longrightarrow> powLoop r b e \<le> powLoop r' b' e"
proof (induction e arbitrary: r r' b b' rule: halving_induct)
  case (step e)
  then show ?case by (simp add: powLoop_step[of e] fpMul_mono)
qed (simp_all add: powLoop_1 fpMul_mono)

lemma powLoop_nonneg: "0 \<le> r \<Longrightarrow> 0 \<le> b \<Longrightarrow> 0 \<le> powLoop r b e"
proof (induction e arbitrary: r b rule: halving_induct)
  case (step e)
  then show ?case by (simp add: powLoop_step[of e])
qed (simp_all add: powLoop_1)

lemma powLoop_ge_result: "0 \<le> r \<Longrightarrow> FIXED_POINT_SCALE \<le> b \<Longrightarrow> r \<le> powLoop r b e"
proof (induction e arbitrary: r b rule: halving_induct)
  case (step e)
  have b: "b \<le> fpMul b b" "0 \<le> b" using step.prems fp_scale_pos fpMul_ge[of b b] by linarith+
  have "r \<le> (if odd e then fpMul r b else r)" using step.prems by (simp add: fpMul_ge)
  also have "\<dots> \<le> powLoop (if odd e then fpMul r b else r) (fpMul b b) (e div 2)"
    using step.prems b by (intro step.IH) auto
  finally show ?case using step.hyps by (simp add: powLoop_step[of e])
qed (simp_all add: powLoop_1 fpMul_ge)

lemma powLoop_ge_base:
  "FIXED_POINT_SCALE \<le> r \<Longrightarrow> FIXED_POINT_SCALE \<le> b \<Longrightarrow> 0 < e \<Longrightarrow> b \<le> powLoop r b e"
proof (induction e arbitrary: r b rule: halving_induct)
  case one
  then show ?case using fpMul_ge[of b r] fp_scale_pos by (simp add: powLoop_1 fpMul_commute)
next
  case (step e)
  have b: "b \<le> fpMul b b" "0 \<le> b" "0 \<le> r"
    using step.prems fp_scale_pos fpMul_ge[of b b] by linarith+
  have r: "r \<le> (if odd e then fpMul r b else r)" using step.prems b by (simp add: fpMul_ge)
  have "fpMul b b \<le> powLoop (if odd e then fpMul r b else r) (fpMul b b) (e div 2)"
    using step.prems step.hyps b r by (intro step.IH) (linarith+)
  with b show ?case using step.hyps by (simp add: powLoop_step[of e])
qed simp

lemma fpMul_real:
  "0 \<le> a \<Longrightarrow> 0 \<le> b \<Longrightarrow>
   real_of_int (fpMul a b) / real_of_int FIXED_POINT_SCALE
     \<le> (real_of_int a / real_of_int FIXED_POINT_SCALE) * (real_of_int b / real_of_int FIXED_POINT_SCALE)"
proof -
  assume ab: "0 \<le> a" "0 \<le> b"
  have "real_of_int (fpMul a b) \<le> real_of_int (a * b) / real_of_int FIXED_POINT_SCALE"
    unfolding fpMul_div[OF ab] by (rule real_of_int_div4)
  then show ?thesis by (simp add: FIXED_POINT_SCALE_def field_simps)
qed

lemma powLoop_real:
  "0 \<le> r \<Longrightarrow> 0 \<le> b \<Longrightarrow>
   real_of_int (powLoop r b e) / real_of_int FIXED_POINT_SCALE
     \<le> real_of_int r / real_of_int FIXED_POINT_SCALE * (real_of_int b / real_of_int FIXED_POINT_SCALE) ^ nat e"
proof (induction e arbitrary: r b rule: halving_induct)
  case one
  then show ?case using fpMul_real[of r b] by (simp add: powLoop_1)
next
  case (step e)
  let ?S = "real_of_int FIXED_POINT_SCALE"
  let ?r = "if odd e then fpMul r b else r"
  have pos: "0 < ?S" by simp
  have IH: "real_of_int (powLoop ?r (fpMul b b) (e div 2)) / ?S
      \<le> real_of_int ?r / ?S * (real_of_int (fpMul b b) / ?S) ^ nat (e div 2)"
    using step.prems by (intro step.IH) auto
  also have "\<dots> \<le> (real_of_int r / ?S * (real_of_int b / ?S) ^ (if odd e then 1 else 0))
      * ((real_of_int b / ?S) * (real_of_int b / ?S)) ^ nat (e div 2)"
  proof (intro mult_mono power_mono)
    show "real_of_int ?r / ?S \<le> real_of_int r / ?S * (real_of_int b / ?S) ^ (if odd e then 1 else 0)"
      using step.prems fpMul_real[of r b] by simp
  qed (use step.prems fpMul_real[of b b] pos in \<open>auto intro!: divide_nonneg_pos zero_le_power\<close>)
  also have "\<dots> = real_of_int r / ?S * (real_of_int b / ?S) ^ nat e"
  proof -
    have ne: "nat e = (if odd e then 1 else 0) + (nat (e div 2) + nat (e div 2))"
      using step.hyps by (cases "odd e") (auto elim!: oddE evenE)
    show ?thesis by (subst ne) (simp only: power_add power_mult_distrib mult.assoc)
  qed
  finally show ?case using step.hyps by (simp add: powLoop_step[of e])
qed simp

subsection \<open>The checked power\<close>

lemma checkedMulDiv_Some:
  "checkedMulDivU128 a b d = Some x \<Longrightarrow> x = (a * b) sdiv d"
  by (auto simp: checkedMulDivU128_def checkedMulU128_def checkedDivU128_def Let_def split: if_splits)

lemma checkedMulDiv_None: "d \<noteq> 0 \<Longrightarrow> checkedMulDivU128 a b d = None \<longleftrightarrow> U128_MAX < a * b"
  by (auto simp: checkedMulDivU128_def checkedMulU128_def checkedDivU128_def Let_def)

lemma checkedMulDiv_fp:
  "checkedMulDivU128 a b FIXED_POINT_SCALE = (if U128_MAX < a * b then None else Some (fpMul a b))"
  by (auto simp: checkedMulDivU128_def checkedMulU128_def checkedDivU128_def Let_def fpMul_def FIXED_POINT_SCALE_def)

lemma powLoopChecked_0 [simp]: "e \<le> 0 \<Longrightarrow> powLoopChecked r b e = Some r"
  by (simp add: powLoopChecked.simps[of r b e])

lemma powLoopChecked_step:
  "0 < e \<Longrightarrow> powLoopChecked r b e =
     (if odd e \<and> U128_MAX < r * b then None
      else if 1 < e \<and> U128_MAX < b * b then None
      else powLoopChecked (if odd e then fpMul r b else r) (if 1 < e then fpMul b b else b) (e div 2))"
proof -
  assume e: "0 < e"
  have "0 < e div 2 \<longleftrightarrow> 1 < e" by linarith
  then show ?thesis
    using e by (simp add: powLoopChecked.simps[of r b e] Let_def shift_facts checkedMulDiv_fp)
qed

text \<open>When the checked loop returns, it returns what the unbounded one does.\<close>

lemma powLoopChecked_Some: "powLoopChecked r b e = Some x \<Longrightarrow> powLoop r b e = x"
proof (induction e arbitrary: r b rule: halving_induct)
  case (step e)
  then show ?case by (simp add: powLoopChecked_step[of e] powLoop_step[of e] split: if_splits)
qed (simp_all add: powLoopChecked_step[of 1] powLoop_1 split: if_splits)

text \<open>When it gives up, the unbounded power is huge.\<close>

definition hugeFp :: int where "hugeFp = U128_MAX div FIXED_POINT_SCALE"

lemma overflow_huge: "0 \<le> a \<Longrightarrow> 0 \<le> b \<Longrightarrow> U128_MAX < a * b \<Longrightarrow> hugeFp \<le> fpMul a b"
  by (simp add: fpMul_div hugeFp_def zdiv_mono1)

lemma powLoopChecked_None:
  "FIXED_POINT_SCALE \<le> r \<Longrightarrow> FIXED_POINT_SCALE \<le> b \<Longrightarrow> powLoopChecked r b e = None \<Longrightarrow> hugeFp \<le> powLoop r b e"
proof (induction e arbitrary: r b rule: halving_induct)
  case one
  then show ?case
    using order_trans[OF fp_scale_pos(2)] overflow_huge[of r b]
    by (simp add: powLoopChecked_step[of 1] powLoop_1 split: if_splits)
next
  case (step e)
  let ?r = "if odd e then fpMul r b else r"
  have pos: "0 \<le> r" "0 \<le> b" using step.prems fp_scale_pos by linarith+
  have r: "r \<le> ?r" and b: "b \<le> fpMul b b" using step.prems pos by (simp_all add: fpMul_ge)
  have S: "FIXED_POINT_SCALE \<le> ?r" "FIXED_POINT_SCALE \<le> fpMul b b" using step.prems r b by linarith+
  consider "odd e" "U128_MAX < r * b" | "U128_MAX < b * b"
    | "powLoopChecked ?r (fpMul b b) (e div 2) = None"
    using step.prems step.hyps by (auto simp: powLoopChecked_step[of e] split: if_splits)
  then have "hugeFp \<le> powLoop ?r (fpMul b b) (e div 2)"
  proof cases
    case 1
    then have "hugeFp \<le> ?r" using pos overflow_huge by simp
    also have "\<dots> \<le> powLoop ?r (fpMul b b) (e div 2)" using S fp_scale_pos by (intro powLoop_ge_result) linarith+
    finally show ?thesis .
  next
    case 2
    then have "hugeFp \<le> fpMul b b" using pos overflow_huge by simp
    also have "\<dots> \<le> powLoop ?r (fpMul b b) (e div 2)" using S step.hyps by (intro powLoop_ge_base) linarith+
    finally show ?thesis .
  next
    case 3
    then show ?thesis using S step.IH by blast
  qed
  then show ?case using step.hyps by (simp add: powLoop_step[of e])
qed simp

text \<open>A base of at most one never overflows.\<close>

lemma small_product: "0 \<le> a \<Longrightarrow> a \<le> FIXED_POINT_SCALE \<Longrightarrow> 0 \<le> b \<Longrightarrow> b \<le> FIXED_POINT_SCALE \<Longrightarrow> \<not> U128_MAX < a * b"
proof -
  assume "0 \<le> a" "a \<le> FIXED_POINT_SCALE" "0 \<le> b" "b \<le> FIXED_POINT_SCALE"
  then have "a * b \<le> FIXED_POINT_SCALE * FIXED_POINT_SCALE" by (intro mult_mono) auto
  then show ?thesis by (simp add: FIXED_POINT_SCALE_def U128_MAX_def)
qed

lemma powLoopChecked_small:
  "0 \<le> r \<Longrightarrow> r \<le> FIXED_POINT_SCALE \<Longrightarrow> 0 \<le> b \<Longrightarrow> b \<le> FIXED_POINT_SCALE \<Longrightarrow>
   \<exists>x. powLoopChecked r b e = Some x \<and> 0 \<le> x \<and> x \<le> FIXED_POINT_SCALE"
proof (induction e arbitrary: r b rule: halving_induct)
  case one
  then show ?case
    using fpMul_le[of r b] by (simp add: powLoopChecked_step[of 1] small_product)
next
  case (step e)
  let ?r = "if odd e then fpMul r b else r"
  have "0 \<le> ?r" "?r \<le> FIXED_POINT_SCALE" "0 \<le> fpMul b b" "fpMul b b \<le> FIXED_POINT_SCALE"
    using step.prems fpMul_le[of r b] fpMul_le[of b b] by auto
  then have "\<exists>x. powLoopChecked ?r (fpMul b b) (e div 2) = Some x \<and> 0 \<le> x \<and> x \<le> FIXED_POINT_SCALE"
    by (rule step.IH)
  then show ?case using step.hyps step.prems by (simp add: powLoopChecked_step[of e] small_product)
qed simp

subsection \<open>The price in closed form\<close>

lemma basePrice_max: "(if 0 < i then i else 1) = max 1 (i::int)"
  by auto

lemma per_step: "0 < g \<Longrightarrow> (g * FIXED_POINT_SCALE) sdiv BPS_SCALE = g * 100000"
  by (simp add: sdiv_nonneg FIXED_POINT_SCALE_def BPS_SCALE_def)

lemma powFixed_nonneg: "0 \<le> b \<Longrightarrow> 0 \<le> powFixed b e"
  by (simp add: powFixed_def powLoop_nonneg FIXED_POINT_SCALE_def)

lemma powFixed_ge_scale: "FIXED_POINT_SCALE \<le> b \<Longrightarrow> FIXED_POINT_SCALE \<le> powFixed b e"
  by (simp add: powFixed_def powLoop_ge_result)

lemma powFixed_mono: "0 \<le> b \<Longrightarrow> b \<le> b' \<Longrightarrow> powFixed b e \<le> powFixed b' e"
  by (simp add: powFixed_def powLoop_mono)

lemma computeExponentialPrice_eq:
  "1 \<le> b \<Longrightarrow> computeExponentialPrice b v t =
     (if t = 0 \<or> v = 0 then b
      else if BPS_SCALE + v \<le> 0 then 1
      else max 1 (fpMul b (powFixed ((BPS_SCALE + v) * 100000) t)))"
  by (simp add: computeExponentialPrice_def Let_def per_step fpMul_def max_def)

lemma computeExponentialPrice_pos: "1 \<le> b \<Longrightarrow> 1 \<le> computeExponentialPrice b v t"
  by (simp add: computeExponentialPrice_eq)

lemma computeExponentialPrice_mono:
  assumes "1 \<le> b" "0 \<le> v" "v \<le> v'"
  shows "computeExponentialPrice b v t \<le> computeExponentialPrice b v' t"
proof -
  have mono: "powFixed ((BPS_SCALE + v) * 100000) t \<le> powFixed ((BPS_SCALE + v') * 100000) t"
    using assms by (intro powFixed_mono) (simp_all add: BPS_SCALE_def)
  have ge: "FIXED_POINT_SCALE \<le> powFixed ((BPS_SCALE + v) * 100000) t" if "0 \<le> v" for v
    using that by (intro powFixed_ge_scale) (simp add: FIXED_POINT_SCALE_def BPS_SCALE_def)
  have "b \<le> fpMul b (powFixed ((BPS_SCALE + v') * 100000) t)"
    using assms ge[of v'] by (intro fpMul_ge) auto
  moreover have "fpMul b (powFixed ((BPS_SCALE + v) * 100000) t)
      \<le> fpMul b (powFixed ((BPS_SCALE + v') * 100000) t)"
    using assms mono ge[of v] fp_scale_pos by (intro fpMul_mono) linarith+
  ultimately show ?thesis
    using assms by (auto simp: computeExponentialPrice_eq BPS_SCALE_def le_max_iff_disj)
qed

lemma computeExponentialPrice_compound:
  assumes "1 \<le> b" "0 \<le> v" "0 \<le> t"
  shows "real_of_int (computeExponentialPrice b v t)
           \<le> real_of_int b * (1 + real_of_int v / 10000) ^ nat t"
proof -
  let ?g = "1 + real_of_int v / 10000" and ?S = "real_of_int FIXED_POINT_SCALE"
  have one: "1 \<le> ?g ^ nat t" using assms by (intro one_le_power) simp
  then have b2: "real_of_int b * 1 \<le> real_of_int b * ?g ^ nat t"
    using assms by (intro mult_left_mono) auto
  then have b1: "1 \<le> real_of_int b * ?g ^ nat t" using assms by linarith
  have pos: "0 \<le> powFixed ((BPS_SCALE + v) * 100000) t"
    using assms by (intro powFixed_nonneg) (simp add: BPS_SCALE_def)
  have base: "real_of_int ((BPS_SCALE + v) * 100000) / ?S = ?g"
    by (simp add: BPS_SCALE_def FIXED_POINT_SCALE_def field_simps)
  have pw: "real_of_int (powFixed ((BPS_SCALE + v) * 100000) t) / ?S \<le> ?g ^ nat t"
  proof -
    have "real_of_int (powFixed ((BPS_SCALE + v) * 100000) t) / ?S
        \<le> ?S / ?S * (real_of_int ((BPS_SCALE + v) * 100000) / ?S) ^ nat t"
      unfolding powFixed_def using assms by (intro powLoop_real) (simp_all add: BPS_SCALE_def)
    also have "\<dots> = ?g ^ nat t" unfolding base by (simp add: FIXED_POINT_SCALE_def)
    finally show ?thesis .
  qed
  have "real_of_int (fpMul b (powFixed ((BPS_SCALE + v) * 100000) t))
      \<le> real_of_int b * (real_of_int (powFixed ((BPS_SCALE + v) * 100000) t) / ?S)"
    using fpMul_real[of b "powFixed ((BPS_SCALE + v) * 100000) t"] assms pos
    by (simp add: FIXED_POINT_SCALE_def)
  also have "\<dots> \<le> real_of_int b * ?g ^ nat t" using pw assms by (intro mult_left_mono) auto
  finally have "real_of_int (fpMul b (powFixed ((BPS_SCALE + v) * 100000) t)) \<le> real_of_int b * ?g ^ nat t" .
  then have m: "real_of_int (max 1 (fpMul b (powFixed ((BPS_SCALE + v) * 100000) t))) \<le> real_of_int b * ?g ^ nat t"
    using b1 by (simp only: of_int_max of_int_1 max.bounded_iff simp_thms)
  have "\<not> BPS_SCALE + v \<le> 0" using assms by (simp add: BPS_SCALE_def)
  then show ?thesis
    using m b2 by (simp only: computeExponentialPrice_eq[OF assms(1)] if_False mult_1_right split: if_split) simp
qed

lemma discountBps_range: "0 \<le> d \<Longrightarrow> d \<le> 100 \<Longrightarrow> 9100 \<le> discountBps d \<and> discountBps d \<le> 10000"
  by (simp add: discountBps_def price_consts)

lemma discountBps_antitone: "d \<le> d' \<Longrightarrow> discountBps d' \<le> discountBps d"
  by (simp add: discountBps_def price_consts max_def)

definition discounted :: "int \<Rightarrow> int \<Rightarrow> int" where
  "discounted e d = max 1 (e * discountBps d div 10000)"

lemma discounted_mono:
  "1 \<le> e \<Longrightarrow> e \<le> e' \<Longrightarrow> 0 \<le> d' \<Longrightarrow> d' \<le> d \<Longrightarrow> d \<le> 100 \<Longrightarrow> discounted e d \<le> discounted e' d'"
proof -
  assume a: "1 \<le> e" "e \<le> e'" "0 \<le> d'" "d' \<le> d" "d \<le> 100"
  have "e * discountBps d \<le> e' * discountBps d'"
    using a discountBps_range[of d] discountBps_antitone[of d' d] by (intro mult_mono) auto
  then have "e * discountBps d div 10000 \<le> e' * discountBps d' div 10000" by (rule zdiv_mono1) simp
  then show ?thesis by (auto simp: discounted_def le_max_iff_disj)
qed

lemma discounted_le: "1 \<le> e \<Longrightarrow> 0 \<le> d \<Longrightarrow> d \<le> 100 \<Longrightarrow> discounted e d \<le> e"
proof -
  assume a: "1 \<le> e" "0 \<le> d" "d \<le> 100"
  have "e * discountBps d div 10000 \<le> e * 10000 div 10000"
    using a discountBps_range[of d] by (intro zdiv_mono1 mult_left_mono) auto
  then show ?thesis using a by (simp add: discounted_def)
qed

definition quotedPrice :: "int \<Rightarrow> int \<Rightarrow> int \<Rightarrow> int \<Rightarrow> int" where
  "quotedPrice i v t d =
     min (max 1 i * 120) (discounted (computeExponentialPrice (max 1 i) (effectiveVelocity v d) t) d)"

lemma calculateShieldQuote_Inr_iff:
  "calculateShieldQuote i v t d = Inr q \<longleftrightarrow>
     0 \<le> d \<and> d \<le> 100 \<and> - BPS_SCALE < v \<and> 0 \<le> t \<and> t \<le> MAX_TIME_ELAPSED_SECS \<and>
     q = \<lparr>finalPriceLamports = quotedPrice i v t d,
          surchargeLamports = max 0 (quotedPrice i v t d - max 1 i),
          cq_blocked = (max 1 i * 100 \<le> quotedPrice i v t d), cq_isInfinite = False,
          cq_effectiveVelocityBps = effectiveVelocity v d\<rparr>"
proof (cases "0 \<le> d \<and> d \<le> 100")
  case True
  let ?e = "computeExponentialPrice (max 1 i) (effectiveVelocity v d) t"
  have dr: "9100 \<le> discountBps d" using discountBps_range True by blast
  have e: "1 \<le> ?e" by (simp add: computeExponentialPrice_pos)
  have nn: "0 \<le> ?e * discountBps d" using dr e by simp
  have div: "(?e * discountBps d) sdiv LOYALTY_BASE_BPS = ?e * discountBps d div 10000"
    using nn by (simp add: sdiv_nonneg LOYALTY_BASE_BPS_def)
  have "0 \<le> ?e * discountBps d div 10000" using nn by simp
  then have disc: "(if ?e * discountBps d div 10000 \<noteq> 0 then ?e * discountBps d div 10000 else 1)
      = discounted ?e d"
    by (auto simp: discounted_def max_def)
  have cap: "(if max 1 i * BOT_PRICE_CAP_MULTIPLIER < discounted ?e d then max 1 i * BOT_PRICE_CAP_MULTIPLIER
      else discounted ?e d) = quotedPrice i v t d"
    by (auto simp: quotedPrice_def BOT_PRICE_CAP_MULTIPLIER_def min_def)
  have sur: "(if max 1 i < c then c - max 1 i else 0) = max 0 (c - max 1 i)" for c
    by auto
  have guard: "(d < 0 \<or> 100 < d) = False" and pos: "(0 < discountBps d) = True" using True dr by auto
  have "calculateShieldQuote i v t d =
      (if v \<le> - BPS_SCALE then Inl (Thrown (''invalid sales velocity: '' @ show_int v))
       else if t < 0 \<or> MAX_TIME_ELAPSED_SECS < t then Inl (Thrown (''invalid time elapsed: '' @ show_int t))
       else Inr \<lparr>finalPriceLamports = quotedPrice i v t d,
          surchargeLamports = max 0 (quotedPrice i v t d - max 1 i),
          cq_blocked = (max 1 i * 100 \<le> quotedPrice i v t d), cq_isInfinite = False,
          cq_effectiveVelocityBps = effectiveVelocity v d\<rparr>)"
    unfolding calculateShieldQuote_def Let_def basePrice_max
    by (simp only: guard pos if_False if_True div disc cap sur BLOCK_MULTIPLIER_def)
  then show ?thesis using True by (auto split: if_splits)
qed (auto simp: calculateShieldQuote_def)

lemma effectiveVelocity_antitone:
  assumes "0 \<le> v" "d \<le> d'" "d' \<le> 100"
  shows "0 \<le> effectiveVelocity v d' \<and> effectiveVelocity v d' \<le> effectiveVelocity v d"
proof -
  have "(100 - d') * (100 - d') \<le> (100 - d) * (100 - d)" using assms by (intro mult_mono) auto
  then have "v * ((100 - d') * (100 - d')) \<le> v * ((100 - d) * (100 - d))"
    using assms by (intro mult_left_mono) auto
  moreover have "0 \<le> v * ((100 - d') * (100 - d'))" using assms by simp
  ultimately show ?thesis
    by (simp add: effectiveVelocity_def Let_def sdiv_nonneg BPS_SCALE_def zdiv_mono1)
qed

lemma quotedPrice_bounds: "0 \<le> d \<Longrightarrow> d \<le> 100 \<Longrightarrow> 1 \<le> quotedPrice i v t d \<and> quotedPrice i v t d \<le> max 1 i * 120"
  by (auto simp: quotedPrice_def discounted_def)

lemma quotedPrice_antitone:
  assumes "0 \<le> v" "0 \<le> d" "d \<le> d'" "d' \<le> 100"
  shows "quotedPrice i v t d' \<le> quotedPrice i v t d"
proof -
  have "computeExponentialPrice (max 1 i) (effectiveVelocity v d') t
      \<le> computeExponentialPrice (max 1 i) (effectiveVelocity v d) t"
    using effectiveVelocity_antitone[OF assms(1,3,4)] by (intro computeExponentialPrice_mono) auto
  then have "discounted (computeExponentialPrice (max 1 i) (effectiveVelocity v d') t) d'
      \<le> discounted (computeExponentialPrice (max 1 i) (effectiveVelocity v d) t) d"
    using assms by (intro discounted_mono computeExponentialPrice_pos) auto
  then show ?thesis by (auto simp: quotedPrice_def min_le_iff_disj)
qed

subsection \<open>Properties of the client's price\<close>

text \<open>
  A price is at least one lamport and at most 120 times the base price; the quote blocks
  exactly from 100 times on, and the surcharge is what the price exceeds the base by. A perfect
  score pays 91 percent of the base whatever the velocity, and is never blocked.
\<close>

theorem client_price_bounds:
  assumes "calculateShieldQuote initialPrice velocity elapsed score = Inr q"
  shows "1 \<le> finalPriceLamports q \<and> finalPriceLamports q \<le> 120 * max 1 initialPrice
     \<and> (cq_blocked q \<longleftrightarrow> 100 * max 1 initialPrice \<le> finalPriceLamports q)
     \<and> surchargeLamports q = max 0 (finalPriceLamports q - max 1 initialPrice)
     \<and> (score = 100 \<longrightarrow> finalPriceLamports q = max 1 (max 1 initialPrice * 91 div 100) \<and> \<not> cq_blocked q)"
proof -
  let ?b = "max 1 initialPrice"
  from assms have q: "finalPriceLamports q = quotedPrice initialPrice velocity elapsed score"
    "cq_blocked q = (?b * 100 \<le> quotedPrice initialPrice velocity elapsed score)"
    "surchargeLamports q = max 0 (quotedPrice initialPrice velocity elapsed score - ?b)"
    and s: "0 \<le> score" "score \<le> 100"
    by (auto simp: calculateShieldQuote_Inr_iff)
  have perfect: "quotedPrice initialPrice velocity elapsed 100 = max 1 (?b * 91 div 100)"
  proof -
    have "?b * 9100 div 10000 = ?b * 91 div 100"
      using div_mult_mult1[of "100::int" "?b * 91" 100] by (simp add: mult.left_commute mult.commute)
    moreover have "?b * 91 div 100 \<le> ?b * 120" "1 \<le> ?b * 120" by linarith+
    ultimately show ?thesis
      by (simp add: quotedPrice_def discounted_def effectiveVelocity_def computeExponentialPrice_eq
          discountBps_def price_consts signed_divide_int_def min_absorb2)
  qed
  have "?b * 91 div 100 < ?b * 100" "1 < ?b * 100" by linarith+
  then show ?thesis
    using quotedPrice_bounds[OF s, of initialPrice velocity elapsed] perfect by (auto simp: q mult.commute)
qed

theorem client_price_bounds_witness:
  "\<exists>q. calculateShieldQuote 1000000000 5000 12 0 = Inr q \<and> finalPriceLamports q = 120000000000 \<and> cq_blocked q
     \<and> 1 \<le> finalPriceLamports q"
proof -
  obtain q where q: "calculateShieldQuote 1000000000 5000 12 0 = Inr q"
    and p: "finalPriceLamports q = 120000000000" "cq_blocked q"
  proof -
    have "map_sum id (\<lambda>q. (finalPriceLamports q, cq_blocked q)) (calculateShieldQuote 1000000000 5000 12 0)
        = Inr (120000000000, True)" by code_simp
    then show thesis using that by (cases "calculateShieldQuote 1000000000 5000 12 0") auto
  qed
  from client_price_bounds [OF q] q p show ?thesis by auto
qed

definition quote_price :: "int \<Rightarrow> int \<Rightarrow> int \<Rightarrow> int \<Rightarrow> (int \<times> bool) option" where
  "quote_price i v t d = (case calculateShieldQuote i v t d of Inl _ \<Rightarrow> None
     | Inr q \<Rightarrow> Some (finalPriceLamports q, cq_blocked q))"

lemma quote_price_Some: "quote_price i v t d = Some (c, b) \<Longrightarrow>
   \<exists>q. calculateShieldQuote i v t d = Inr q \<and> finalPriceLamports q = c \<and> cq_blocked q = b"
  by (auto simp: quote_price_def split: sum.splits)

text \<open>
  C4. The fairness valve: at one price, velocity (not negative) and time, a higher dignity score never
  pays more, and is not blocked where a lower score passes.
\<close>

theorem higher_score_never_pays_more:
  assumes "0 \<le> velocity" "low \<le> high"
    and "calculateShieldQuote initialPrice velocity elapsed low = Inr ql"
    and "calculateShieldQuote initialPrice velocity elapsed high = Inr qh"
  shows "finalPriceLamports qh \<le> finalPriceLamports ql
     \<and> surchargeLamports qh \<le> surchargeLamports ql \<and> (cq_blocked qh \<longrightarrow> cq_blocked ql)"
  using assms quotedPrice_antitone[of velocity low high initialPrice elapsed]
  by (auto simp: calculateShieldQuote_Inr_iff)

theorem higher_score_never_pays_more_witness:
  "\<exists>ql qh. calculateShieldQuote 1000000000 5000 12 40 = Inr ql \<and> calculateShieldQuote 1000000000 5000 12 70 = Inr qh
     \<and> finalPriceLamports qh < finalPriceLamports ql \<and> finalPriceLamports qh \<le> finalPriceLamports ql"
proof -
  have "quote_price 1000000000 5000 12 40 = Some (7287592623, False)"
    "quote_price 1000000000 5000 12 70 = Some (1695881429, False)" by code_simp+
  then obtain ql qh where q: "calculateShieldQuote 1000000000 5000 12 40 = Inr ql"
      "calculateShieldQuote 1000000000 5000 12 70 = Inr qh"
    and p: "finalPriceLamports ql = 7287592623" "finalPriceLamports qh = 1695881429"
    using quote_price_Some by metis
  from higher_score_never_pays_more [OF _ _ q] p q show ?thesis by auto
qed

text \<open>
  The other side of the valve: the guard admits velocities between -9999 and -1, and there the
  order is reversed. At velocity -5000 and 12 steps the score 0 pays a fraction of what the perfect
  score pays, without being blocked.
\<close>

theorem negative_velocity_inverts_valve:
  "\<exists>ql qh. calculateShieldQuote 1000000000 (-5000) 12 0 = Inr ql
     \<and> calculateShieldQuote 1000000000 (-5000) 12 100 = Inr qh
     \<and> finalPriceLamports ql = 244140 \<and> finalPriceLamports qh = 910000000 \<and> \<not> cq_blocked ql"
proof -
  have "quote_price 1000000000 (-5000) 12 0 = Some (244140, False)"
    "quote_price 1000000000 (-5000) 12 100 = Some (910000000, False)" by code_simp+
  then show ?thesis using quote_price_Some by blast
qed

text \<open>
  The fixed-point power never overcharges: the price is at most the base compounded at the
  effective velocity, in real arithmetic, over the elapsed steps.
\<close>

theorem price_at_most_compound_growth:
  assumes "calculateShieldQuote initialPrice velocity elapsed score = Inr q" "0 \<le> velocity"
  shows "real_of_int (finalPriceLamports q) \<le> real_of_int (max 1 initialPrice)
           * (1 + real_of_int (cq_effectiveVelocityBps q) / 10000) ^ nat elapsed"
proof -
  from assms(1) have q: "finalPriceLamports q = quotedPrice initialPrice velocity elapsed score"
      "cq_effectiveVelocityBps q = effectiveVelocity velocity score"
    and r: "0 \<le> score" "score \<le> 100" "0 \<le> elapsed"
    by (auto simp: calculateShieldQuote_Inr_iff)
  have v: "0 \<le> effectiveVelocity velocity score"
    using effectiveVelocity_antitone[of velocity score score] assms r by simp
  let ?e = "computeExponentialPrice (max 1 initialPrice) (effectiveVelocity velocity score) elapsed"
  have "quotedPrice initialPrice velocity elapsed score \<le> discounted ?e score"
    by (simp add: quotedPrice_def)
  also have "\<dots> \<le> ?e" using r by (intro discounted_le computeExponentialPrice_pos) auto
  finally have "real_of_int (quotedPrice initialPrice velocity elapsed score) \<le> real_of_int ?e" by simp
  also have "\<dots> \<le> real_of_int (max 1 initialPrice)
      * (1 + real_of_int (effectiveVelocity velocity score) / 10000) ^ nat elapsed"
    using v r by (intro computeExponentialPrice_compound) auto
  finally show ?thesis by (simp only: q)
qed

theorem price_at_most_compound_growth_witness:
  "\<exists>q. calculateShieldQuote 1000000000 5000 12 70 = Inr q
     \<and> real_of_int (finalPriceLamports q) \<le> 1000000000 * (1 + real_of_int (cq_effectiveVelocityBps q) / 10000) ^ 12"
proof -
  have "quote_price 1000000000 5000 12 70 = Some (1695881429, False)" by code_simp
  then obtain q where q: "calculateShieldQuote 1000000000 5000 12 70 = Inr q"
    using quote_price_Some by blast
  from price_at_most_compound_growth [OF q] q show ?thesis by auto
qed

subsection \<open>The SDK against the client\<close>

lemma sdkExpPrice_Some:
  assumes "sdkExpPrice b v t = Some e" "1 \<le> b" "0 \<le> t"
  shows "e = computeExponentialPrice b v t"
  using assms
  by (auto simp: sdkExpPrice_def computeExponentialPrice_def Let_def powFixed_def powFixedChecked_def
      dest!: checkedMulDiv_Some powLoopChecked_Some split: if_splits option.splits)

lemma sdk_discount:
  "0 \<le> d \<Longrightarrow> d \<le> 100 \<Longrightarrow>
   (if BPS_SCALE < max 0 (d - LOYALTY_THRESHOLD) * LOYALTY_POINT_DISCOUNT_BPS then 0
    else BPS_SCALE - max 0 (d - LOYALTY_THRESHOLD) * LOYALTY_POINT_DISCOUNT_BPS) = discountBps d"
  by (auto simp: discountBps_def price_consts max_def)

lemma sdkPrice_eq:
  assumes "0 \<le> d" "d \<le> 100"
  shows "sdkPrice i v t d =
     (case sdkExpPrice (max 1 i) (effectiveVelocity v d) t of None \<Rightarrow> None
      | Some e \<Rightarrow> (case checkedMulDivU128 e (discountBps d) BPS_SCALE of None \<Rightarrow> None
         | Some final \<Rightarrow> if U64_MAX < final then None
             else Some (min (max 1 i * 120) (max 1 final), max 1 i * 100 \<le> min (max 1 i * 120) (max 1 final))))"
proof -
  have cap: "(if c * BOT_PRICE_CAP_MULTIPLIER < max 1 f then c * BOT_PRICE_CAP_MULTIPLIER
      else max 1 f) = min (c * 120) (max 1 f)" for c f :: int
    by (auto simp: BOT_PRICE_CAP_MULTIPLIER_def)
  show ?thesis
    unfolding sdkPrice_def Let_def basePrice_max by (simp only: sdk_discount[OF assms] cap BLOCK_MULTIPLIER_def)
qed

lemma discounted_sdiv:
  "0 \<le> d \<Longrightarrow> d \<le> 100 \<Longrightarrow> 1 \<le> e \<Longrightarrow> max 1 ((e * discountBps d) sdiv BPS_SCALE) = discounted e d"
  using discountBps_range[of d] by (simp add: discounted_def sdiv_nonneg BPS_SCALE_def)

text \<open>
  C8. The SDK and the client quote the same price and the same block flag for every input that the
  client accepts and on which the SDK does not give up.
\<close>

theorem sdk_price_agrees_with_client:
  assumes "sdkPrice initialPrice velocity elapsed score = Some (price, blocked)"
    and "calculateShieldQuote initialPrice velocity elapsed score = Inr q"
  shows "finalPriceLamports q = price \<and> cq_blocked q = blocked"
proof -
  from assms(2) have q: "finalPriceLamports q = quotedPrice initialPrice velocity elapsed score"
    "cq_blocked q = (max 1 initialPrice * 100 \<le> quotedPrice initialPrice velocity elapsed score)"
    and r: "0 \<le> score" "score \<le> 100" "0 \<le> elapsed"
    by (auto simp: calculateShieldQuote_Inr_iff)
  let ?e = "computeExponentialPrice (max 1 initialPrice) (effectiveVelocity velocity score) elapsed"
  from assms(1) r obtain final where e: "sdkExpPrice (max 1 initialPrice) (effectiveVelocity velocity score) elapsed = Some ?e"
    and f: "final = (?e * discountBps score) sdiv BPS_SCALE"
    and p: "price = min (max 1 initialPrice * 120) (max 1 final)"
      "blocked = (max 1 initialPrice * 100 \<le> min (max 1 initialPrice * 120) (max 1 final))"
    by (auto simp: sdkPrice_eq dest!: sdkExpPrice_Some checkedMulDiv_Some split: option.splits if_splits)
  have "max 1 final = discounted ?e score"
    unfolding f using r by (intro discounted_sdiv computeExponentialPrice_pos) auto
  then show ?thesis by (simp add: q p quotedPrice_def)
qed

theorem sdk_price_agrees_with_client_witness:
  "\<exists>q. calculateShieldQuote 1000000000 5000 12 70 = Inr q \<and> finalPriceLamports q = 1695881429"
proof -
  have "quote_price 1000000000 5000 12 70 = Some (1695881429, False)" by code_simp
  then obtain q where q: "calculateShieldQuote 1000000000 5000 12 70 = Inr q" using quote_price_Some by blast
  have "sdkPrice 1000000000 5000 12 70 = Some (1695881429, False)" by code_simp
  from sdk_price_agrees_with_client [OF this q] q show ?thesis by auto
qed

lemma huge_bound: "200 * FIXED_POINT_SCALE \<le> hugeFp" "200 * (U64_MAX div 120) \<le> hugeFp"
  by (simp_all add: hugeFp_def FIXED_POINT_SCALE_def U128_MAX_def U64_MAX_def)

lemma fpMul_scale: "0 \<le> b \<Longrightarrow> fpMul b (k * FIXED_POINT_SCALE) = b * k" if "0 \<le> k"
  using that by (simp add: fpMul_def sdiv_nonneg FIXED_POINT_SCALE_def mult.assoc[symmetric])

lemma sdkExpPrice_None_huge:
  assumes none: "sdkExpPrice b v t = None" and b: "1 \<le> b" "b \<le> U64_MAX div 120" and t: "0 \<le> t"
  shows "200 * b \<le> computeExponentialPrice b v t"
proof -
  let ?g = "(BPS_SCALE + v) * 100000" and ?w = "powFixed ((BPS_SCALE + v) * 100000) t"
  from none have c: "0 < t" "v \<noteq> 0" "\<not> BPS_SCALE + v \<le> 0"
    by (auto simp: sdkExpPrice_def Let_def split: if_splits)
  then have step: "((BPS_SCALE + v) * FIXED_POINT_SCALE) sdiv BPS_SCALE = ?g" by (simp add: per_step)
  have ne: "BPS_SCALE \<noteq> 0" "FIXED_POINT_SCALE \<noteq> 0" by (simp_all add: BPS_SCALE_def FIXED_POINT_SCALE_def)
  have pw: "x = ?w" if "powFixedChecked ?g t = Some x" for x
    using powLoopChecked_Some that by (simp add: powFixed_def powFixedChecked_def)
  consider "U128_MAX < (BPS_SCALE + v) * FIXED_POINT_SCALE" | "powFixedChecked ?g t = None"
    | "U128_MAX < b * ?w" "powFixedChecked ?g t = Some ?w"
  proof (cases "checkedMulDivU128 (BPS_SCALE + v) FIXED_POINT_SCALE BPS_SCALE")
    case None
    then show ?thesis using that(1) ne by (simp add: checkedMulDiv_None)
  next
    case (Some x)
    then have x: "x = ?g" using checkedMulDiv_Some step by metis
    show ?thesis
    proof (cases "powFixedChecked ?g t")
      case None
      then show ?thesis by (rule that(2))
    next
      case (Some w)
      have "checkedMulDivU128 b w FIXED_POINT_SCALE = None"
        using none c \<open>checkedMulDivU128 _ _ _ = Some x\<close> x Some
        by (simp add: sdkExpPrice_def Let_def split: option.splits if_splits)
      then show ?thesis using that(3) Some pw[OF Some] ne by (simp add: checkedMulDiv_None)
    qed
  qed
  then have "200 * b \<le> fpMul b ?w"
  proof cases
    case 3
    then have "hugeFp \<le> fpMul b ?w" using b c by (intro overflow_huge powFixed_nonneg) (auto simp: BPS_SCALE_def)
    with huge_bound(2) b show ?thesis by linarith
  next
    case 1
    have "200 * FIXED_POINT_SCALE \<le> ?g" "FIXED_POINT_SCALE \<le> ?g"
      using 1 by (simp_all add: U128_MAX_def FIXED_POINT_SCALE_def)
    then have "200 * FIXED_POINT_SCALE \<le> ?w"
      using powLoop_ge_base[of FIXED_POINT_SCALE ?g t] c by (simp add: powFixed_def)
    then have "fpMul b (200 * FIXED_POINT_SCALE) \<le> fpMul b ?w" using b by (intro fpMul_mono) auto
    then show ?thesis using b by (simp add: fpMul_scale)
  next
    case 2
    have "FIXED_POINT_SCALE \<le> ?g"
    proof (rule ccontr)
      assume "\<not> FIXED_POINT_SCALE \<le> ?g"
      then show False
        using 2 c powLoopChecked_small[of FIXED_POINT_SCALE ?g t] by (auto simp: powFixedChecked_def)
    qed
    then have "hugeFp \<le> ?w" using 2 powLoopChecked_None by (simp add: powFixed_def powFixedChecked_def)
    then have "200 * FIXED_POINT_SCALE \<le> ?w" using huge_bound(1) by linarith
    then have "fpMul b (200 * FIXED_POINT_SCALE) \<le> fpMul b ?w" using b by (intro fpMul_mono) auto
    then show ?thesis using b by (simp add: fpMul_scale)
  qed
  then show ?thesis using b c by (simp add: computeExponentialPrice_eq)
qed

text \<open>
  Where the SDK gives up (an infinite price), the client blocks too and quotes its cap, for every
  base price whose cap fits 64 bits.
\<close>

theorem sdk_infinite_client_blocked:
  assumes "sdkPrice initialPrice velocity elapsed score = None"
    and "calculateShieldQuote initialPrice velocity elapsed score = Inr q"
    and "120 * max 1 initialPrice \<le> U64_MAX"
  shows "cq_blocked q \<and> finalPriceLamports q = 120 * max 1 initialPrice"
proof -
  let ?b = "max 1 initialPrice" and ?v = "effectiveVelocity velocity score"
  let ?e = "computeExponentialPrice ?b ?v elapsed"
  from assms(2) have q: "finalPriceLamports q = quotedPrice initialPrice velocity elapsed score"
    "cq_blocked q = (?b * 100 \<le> quotedPrice initialPrice velocity elapsed score)"
    and r: "0 \<le> score" "score \<le> 100" "0 \<le> elapsed"
    by (auto simp: calculateShieldQuote_Inr_iff)
  have e: "1 \<le> ?e" and d: "9100 \<le> discountBps score" "discountBps score \<le> 10000"
    using r discountBps_range by (auto simp: computeExponentialPrice_pos)
  have b: "?b \<le> U64_MAX div 120" using assms(3) by linarith
  have big: "120 * ?b \<le> discounted ?e score" if "200 * ?b \<le> ?e"
  proof -
    have "(200 * ?b) * 9100 \<le> ?e * discountBps score" using that d e by (intro mult_mono) auto
    then have "(200 * ?b) * 9100 div 10000 \<le> ?e * discountBps score div 10000" by (rule zdiv_mono1) simp
    then show ?thesis by (simp add: discounted_def)
  qed
  consider "sdkExpPrice ?b ?v elapsed = None" | "U128_MAX < ?e * discountBps score"
    | "U64_MAX < (?e * discountBps score) sdiv BPS_SCALE"
    using assms(1) r by (auto simp: sdkPrice_eq checkedMulDiv_None BPS_SCALE_def
        dest!: sdkExpPrice_Some checkedMulDiv_Some split: option.splits if_splits)
  then have "120 * ?b \<le> discounted ?e score"
  proof cases
    case 1
    then show ?thesis using sdkExpPrice_None_huge[OF 1 _ b] r by (intro big) auto
  next
    case 2
    have "?e * discountBps score \<le> ?e * 10000" using d e by (intro mult_left_mono) auto
    with 2 have "200 * (U64_MAX div 120) \<le> ?e" by (simp add: U128_MAX_def U64_MAX_def)
    with b show ?thesis by (intro big) linarith
  next
    case 3
    then have "U64_MAX < discounted ?e score" using discounted_sdiv[of score ?e] r e by linarith
    with assms(3) show ?thesis by linarith
  qed
  then show ?thesis by (simp add: q quotedPrice_def)
qed

theorem sdk_infinite_client_blocked_witness:
  "\<exists>q. calculateShieldQuote 1000000000 1000000000000 8 0 = Inr q \<and> cq_blocked q"
proof -
  have "quote_price 1000000000 1000000000000 8 0 = Some (120000000000, True)" by code_simp
  then obtain q where q: "calculateShieldQuote 1000000000 1000000000000 8 0 = Inr q" using quote_price_Some by blast
  have "sdkPrice 1000000000 1000000000000 8 0 = None" by code_simp
  from sdk_infinite_client_blocked [OF this q] q show ?thesis by (auto simp: U64_MAX_def)
qed

text \<open>
  Beyond that bound they part: for a base of \<open>2^63\<close> lamports whose price doubles, the SDK quotes
  infinity and blocks, the client quotes \<open>2^64\<close> lamports, which no 64-bit field can hold, unblocked.
\<close>

theorem sdk_client_diverge_above_u64:
  "sdkPrice (2 ^ 63) 10000 1 0 = None
   \<and> (\<exists>q. calculateShieldQuote (2 ^ 63) 10000 1 0 = Inr q \<and> finalPriceLamports q = 2 ^ 64 \<and> \<not> cq_blocked q)"
proof -
  have "sdkPrice 9223372036854775808 10000 1 0 = None" by code_simp
  moreover have "quote_price 9223372036854775808 10000 1 0 = Some (18446744073709551616, False)" by code_simp
  ultimately show ?thesis
    using quote_price_Some[of 9223372036854775808 10000 1 0 18446744073709551616 False] by simp
qed

end
