(* ===== verification/Shield_Sdk.thy ===== *)
theory Shield_Sdk
  imports Shield_Payload Shield_Price
begin

section \<open>The SDK (packages/universal-shield-sdk/src/index.ts)\<close>

text \<open>
  From a quote request to an execute request: the SDK's own copy of the dignity score, the
  normalization of the optional inputs, \<open>buildShieldPayloadV0\<close>, \<open>calculateFromPayload\<close> over the
  arithmetic of \<open>Shield_Price\<close>, and the two request builders around an oracle signer. The wall clock
  is a function from the number of the reading to milliseconds; \<open>new PublicKey(s).toBytes()\<close> and the
  signer are parameters. The lemmas compare the SDK's score with the oracle's, bound every field of a
  built payload, and show what an execute request guarantees.
\<close>

subsection \<open>Data\<close>

record anti_resale_policy =
  maxTicketsPerWallet :: jsnum
  cooldownSeconds :: jsnum
  transferLockUntil :: jsnum

record partial_anti_resale =
  pa_maxTicketsPerWallet :: "jsnum option"
  pa_cooldownSeconds :: "jsnum option"
  pa_transferLockUntil :: "jsnum option"

record proof_placeholder =
  pp_provider :: string
  pp_proofHashHex :: string
  pp_schemaVersion :: string
  pp_issuedAt :: jsnum

record partial_proof =
  pq_proofHashHex :: "string option"
  pq_issuedAt :: "jsnum option"

record shield_quote_input =
  in_userPubkey :: string
  in_initialPrice :: int
  in_salesVelocityBps :: jsnum
  in_timeElapsed :: int
  in_attestations :: "jsval list option"
  in_mode :: "user_mode option"
  in_nonce :: "int option"
  in_policyVersion :: "jsnum option"
  in_zkProvider :: "jsnum option"
  in_scoringModelHashHex :: "string option"
  in_attestationExpiry :: "int option"
  in_proofPlaceholder :: "partial_proof option"
  in_antiResalePolicy :: "partial_anti_resale option"

record shield_quote_output =
  out_finalPrice :: int
  out_isInfinite :: bool
  out_blocked :: bool
  out_effectiveVelocityBps :: jsnum
  out_proof :: proof_placeholder
  out_payload :: payload_raw
  out_payloadBytes :: bytes
  out_payloadHex :: string
  out_dignityBreakdown :: adapter_breakdown
  out_antiResalePolicy :: anti_resale_policy

record signed_shield_request =
  ss_quote :: shield_quote_output
  ss_oracleSignature :: "bytes option"
  ss_oracleSignatureHex :: "string option"

record execute_shield_request =
  es_quote :: shield_quote_output
  es_payload :: payload_raw
  es_oracleSignature :: bytes
  es_oracleSignatureHex :: string

subsection \<open>Normalization\<close>

text \<open>Comparisons of numbers with an integer constant: false on NaN.\<close>

fun num_lt_int :: "jsnum \<Rightarrow> int \<Rightarrow> bool" where
  "num_lt_int (Fin x) k = (x < of_int k)"
| "num_lt_int NegInf k = True"
| "num_lt_int _ k = False"

definition assertSafeInteger :: "jsnum \<Rightarrow> string \<Rightarrow> int result" where
  "assertSafeInteger value name =
     (case bigint_of_num value of
        Inr n \<Rightarrow> if \<bar>n\<bar> \<le> 2 ^ 53 - 1 then Inr n else Inl (Thrown (name @ '' must be a safe integer''))
      | Inl _ \<Rightarrow> Inl (Thrown (name @ '' must be a safe integer'')))"

text \<open>\<open>/^[0-9a-f]{64}$/\<close>\<close>

definition is_hex64 :: "string \<Rightarrow> bool" where
  "is_hex64 s = (length s = 64 \<and> list_all (\<lambda>c. digit_in 16 c \<and> lower_char c = c) s)"

text \<open>\<open>Number.parseInt\<close> of two characters in base 16, stored in a byte (NaN is stored as 0).\<close>

fun parseInt_pair :: "char \<Rightarrow> char \<Rightarrow> int" where
  "parseInt_pair a b =
     (case digit_val a of
        Some x \<Rightarrow> (case digit_val b of Some y \<Rightarrow> int (16 * x + y) | None \<Rightarrow> int x)
      | None \<Rightarrow> (case digit_val b of
           Some y \<Rightarrow> if is_ws a \<or> a = CHR ''+'' then int y else if a = CHR ''-'' then - int y else 0
         | None \<Rightarrow> 0))"

fun fromHexPairs :: "string \<Rightarrow> bytes" where
  "fromHexPairs (a # b # r) = word_of_int (parseInt_pair a b) # fromHexPairs r"
| "fromHexPairs _ = []"

definition fromHex :: "string \<Rightarrow> bytes result" where
  "fromHex hex = (if odd (length hex) then Inl (Thrown ''hex string must have even length'')
     else Inr (fromHexPairs hex))"

definition normalizeMode :: "user_mode option \<Rightarrow> user_mode" where
  "normalizeMode mode = opt_or mode Verified"

definition normalizeProofPlaceholder :: "int \<Rightarrow> partial_proof option \<Rightarrow> proof_placeholder result" where
  "normalizeProofPlaceholder now inp =
     (let proofHashHex = to_lower (opt_or (Option.bind inp pq_proofHashHex) (replicate 64 (CHR ''0''))) in
      if \<not> is_hex64 proofHashHex then Inl (Thrown ''proofHashHex must be exactly 64 hex chars'')
      else Inr \<lparr>pp_provider = ''reclaim'', pp_proofHashHex = proofHashHex, pp_schemaVersion = ''v0'',
             pp_issuedAt = opt_or (Option.bind inp pq_issuedAt) (Fin (of_int now))\<rparr>)"

definition normalizeAntiResalePolicy :: "partial_anti_resale option \<Rightarrow> anti_resale_policy result" where
  "normalizeAntiResalePolicy inp =
     (let policy = \<lparr>maxTicketsPerWallet = opt_or (Option.bind inp pa_maxTicketsPerWallet) (Fin 1),
            cooldownSeconds = opt_or (Option.bind inp pa_cooldownSeconds) (Fin 86400),
            transferLockUntil = opt_or (Option.bind inp pa_transferLockUntil) (Fin 0)\<rparr> in
      if num_lt_int (maxTicketsPerWallet policy) 1 then Inl (Thrown ''maxTicketsPerWallet must be >= 1'')
      else if num_lt_int (cooldownSeconds policy) 0 then Inl (Thrown ''cooldownSeconds must be >= 0'')
      else Inr policy)"

subsection \<open>The SDK's dignity score\<close>

definition sdkGithubPaths :: "string list" where
  "sdkGithubPaths = [''commit_count'', ''commits'', ''data.commit_count'', ''data.commits'',
     ''claimData.context.commit_count'']"

definition sdkSpotifyPaths :: "string list" where
  "sdkSpotifyPaths = [''playtime_hours'', ''hours'', ''listening_hours'', ''data.playtime_hours'', ''data.hours'']"

definition sdkAgePaths :: "string list" where
  "sdkAgePaths = [''account_age_days'', ''age_days'', ''data.account_age_days'', ''data.age_days'']"

text \<open>The five accumulators of the loop, in the order of their declaration.\<close>

type_synonym sdk_signals = "rat \<times> rat \<times> rat \<times> rat \<times> rat"

fun sdkScoreLoop :: "sdk_signals \<Rightarrow> jsval list \<Rightarrow> sdk_signals result" where
  "sdkScoreLoop acc [] = Inr acc"
| "sdkScoreLoop (gh, sp, age, act, ggl) (att # rest) = rbind (providerName att) (\<lambda>provider.
     let gh = (if str_includes provider ''github''
               then max gh (opt_or (readPathNumber att sdkGithubPaths) 0) else gh);
         sp = (if str_includes provider ''spotify''
               then max sp (opt_or (readPathNumber att sdkSpotifyPaths) 0) else sp);
         tw = (str_includes provider ''twitter'' \<or> str_includes provider ''x.com'');
         age = (if tw then max age (opt_or (readPathNumber att sdkAgePaths) 0) else age);
         act = (if tw then max act (opt_or (readPathNumber att activityPaths) 0) else act);
         ggl = (if str_includes provider ''google''
                then max ggl (opt_or (readPathNumber att agePaths) 0) else ggl)
     in sdkScoreLoop (gh, sp, age, act, ggl) rest)"

definition sdkComputeDignityScore :: "jsval list \<Rightarrow> user_mode \<Rightarrow> adapter_breakdown result" where
  "sdkComputeDignityScore attestations mode =
     (if mode = Bot_suspected then Inr zero_breakdown
      else rbind (sdkScoreLoop (0, 0, 0, 0, 0) attestations) (\<lambda>(gh, sp, age, act, ggl).
        let gp = (if 50 < gh then 40 else 0);
            spp = (if 10 < sp then 30 else 0);
            tp = (if 365 < age \<and> 50 \<le> act then 20 else 0);
            total = gp + spp + tp + 0;
            total = (if mode = Guest then max total 25 else total)
        in Inr \<lparr>githubCommits = gh, githubPoints = gp, spotifyHours = sp, spotifyPoints = spp,
             twitterAccountAgeDays = age, twitterActivityScore = act, twitterPoints = tp,
             googleFallbackAgeDays = ggl, googleFallbackPoints = 0,
             adapterMask = adapterMaskOf gp spp tp, totalScore = max 0 (min 100 total)\<rparr>))"

subsection \<open>Payload and quote\<close>

definition DEFAULT_SCORING_MODEL_HASH_HEX :: string where
  "DEFAULT_SCORING_MODEL_HASH_HEX = replicate 64 (CHR ''1'')"

definition buildShieldPayloadV0 ::
  "(string \<Rightarrow> bytes result) \<Rightarrow> (nat \<Rightarrow> int) \<Rightarrow> shield_quote_input \<Rightarrow>
   (payload_raw \<times> proof_placeholder \<times> adapter_breakdown \<times> anti_resale_policy) result" where
  "buildShieldPayloadV0 pubkey_bytes clock inp =
     rbind (assertSafeInteger (in_salesVelocityBps inp) ''salesVelocityBps'') (\<lambda>velocity.
     rbind (ensure (\<not> in_initialPrice inp < 0) (Thrown ''initialPrice must be >= 0'')) (\<lambda>_.
     rbind (ensure (\<not> in_timeElapsed inp < 0) (Thrown ''timeElapsed must be >= 0'')) (\<lambda>_.
     let mode = normalizeMode (in_mode inp) in
     rbind (normalizeProofPlaceholder (clock 0) (in_proofPlaceholder inp)) (\<lambda>pf.
     rbind (sdkComputeDignityScore (opt_or (in_attestations inp) []) mode) (\<lambda>breakdown.
     rbind (normalizeAntiResalePolicy (in_antiResalePolicy inp)) (\<lambda>policy.
     rbind (assertSafeInteger (opt_or (in_policyVersion inp) (Fin (of_int DEFAULT_POLICY_VERSION))) ''policyVersion'') (\<lambda>pv.
     rbind (assertSafeInteger (opt_or (in_zkProvider inp) (Fin (of_int DEFAULT_ZK_PROVIDER))) ''zkProvider'') (\<lambda>zk.
     rbind (ensure (\<not> (pv < 0 \<or> 255 < pv)) (Thrown ''policyVersion must be in range 0..255'')) (\<lambda>_.
     rbind (ensure (\<not> (zk < 0 \<or> 255 < zk)) (Thrown ''zkProvider must be in range 0..255'')) (\<lambda>_.
     rbind (pubkey_bytes (in_userPubkey inp)) (\<lambda>userPubkey.
     let modelHashHex = to_lower (opt_or (in_scoringModelHashHex inp) DEFAULT_SCORING_MODEL_HASH_HEX) in
     rbind (ensure (is_hex64 modelHashHex) (Thrown ''scoringModelHashHex must be exactly 64 hex chars'')) (\<lambda>_.
     rbind (fromHex (pp_proofHashHex pf)) (\<lambda>proofHash.
     rbind (fromHex modelHashHex) (\<lambda>modelHash.
       Inr (\<lparr>policy_version = pv, user_pubkey = userPubkey, initial_price = in_initialPrice inp,
              sales_velocity_bps = velocity, time_elapsed = in_timeElapsed inp,
              dignity_score = totalScore breakdown, adapter_mask = adapterMask breakdown,
              user_mode = modeToCode mode, zk_provider = zk, zk_proof_hash = proofHash,
              scoring_model_hash = modelHash,
              attestation_expiry = opt_or (in_attestationExpiry inp) (clock 1 div 1000 + 300),
              nonce = opt_or (in_nonce inp) (clock 2 * 1000)\<rparr>, pf, breakdown, policy)))))))))))))))"

text \<open>
  The SDK's own serializer has the text of the oracle's, on a \<open>DataView\<close>: the definition of
  \<open>Shield_Payload\<close> is used for both.
\<close>

definition infinityOutput ::
  "int \<Rightarrow> payload_raw \<Rightarrow> proof_placeholder \<Rightarrow> adapter_breakdown \<Rightarrow> anti_resale_policy \<Rightarrow>
   shield_quote_output result" where
  "infinityOutput effectiveVelocityBps payload pf breakdown policy =
     rbind (serializeShieldPayloadV0 payload) (\<lambda>payloadBytes.
       Inr \<lparr>out_finalPrice = U64_MAX, out_isInfinite = True, out_blocked = True,
         out_effectiveVelocityBps = num_of_rat (of_int effectiveVelocityBps), out_proof = pf,
         out_payload = payload, out_payloadBytes = payloadBytes,
         out_payloadHex = ''0x'' @ to_hex payloadBytes, out_dignityBreakdown = breakdown,
         out_antiResalePolicy = policy\<rparr>)"

definition calculateFromPayload ::
  "payload_raw \<Rightarrow> proof_placeholder \<Rightarrow> adapter_breakdown \<Rightarrow> anti_resale_policy \<Rightarrow>
   shield_quote_output result" where
  "calculateFromPayload payload pf breakdown policy =
     (if dignity_score payload < 0 \<or> 100 < dignity_score payload
        then Inl (Thrown ''dignity_score must be in range 0..=100'')
      else if sales_velocity_bps payload \<le> - BPS_SCALE
        then Inl (Thrown ''sales_velocity_bps must be greater than -10000'')
      else let effectiveVelocityBps = effectiveVelocity (sales_velocity_bps payload) (dignity_score payload) in
        (case sdkPrice (initial_price payload) (sales_velocity_bps payload) (time_elapsed payload)
                (dignity_score payload) of
           None \<Rightarrow> infinityOutput effectiveVelocityBps payload pf breakdown policy
         | Some (finalPrice, blocked) \<Rightarrow>
             rbind (serializeShieldPayloadV0 payload) (\<lambda>payloadBytes.
               Inr \<lparr>out_finalPrice = finalPrice, out_isInfinite = False, out_blocked = blocked,
                 out_effectiveVelocityBps = num_of_rat (of_int effectiveVelocityBps), out_proof = pf,
                 out_payload = payload, out_payloadBytes = payloadBytes,
                 out_payloadHex = ''0x'' @ to_hex payloadBytes, out_dignityBreakdown = breakdown,
                 out_antiResalePolicy = policy\<rparr>)))"

definition sdkCalculateShieldQuote ::
  "(string \<Rightarrow> bytes result) \<Rightarrow> (nat \<Rightarrow> int) \<Rightarrow> shield_quote_input \<Rightarrow> shield_quote_output result" where
  "sdkCalculateShieldQuote pubkey_bytes clock inp =
     rbind (buildShieldPayloadV0 pubkey_bytes clock inp) (\<lambda>(payload, pf, breakdown, policy).
       calculateFromPayload payload pf breakdown policy)"

definition buildSignedShieldRequest ::
  "(string \<Rightarrow> bytes result) \<Rightarrow> (nat \<Rightarrow> int) \<Rightarrow> shield_quote_input \<Rightarrow> (bytes \<Rightarrow> bytes result) option \<Rightarrow>
   signed_shield_request result" where
  "buildSignedShieldRequest pubkey_bytes clock inp oracleSigner =
     rbind (sdkCalculateShieldQuote pubkey_bytes clock inp) (\<lambda>quote.
       case oracleSigner of
         None \<Rightarrow> Inr \<lparr>ss_quote = quote, ss_oracleSignature = None, ss_oracleSignatureHex = None\<rparr>
       | Some signer \<Rightarrow>
           rbind (signer (out_payloadBytes quote)) (\<lambda>signature.
           if length signature \<noteq> 64 then Inl (Thrown ''oracle signature must be 64 bytes'')
           else Inr \<lparr>ss_quote = quote, ss_oracleSignature = Some signature,
                  ss_oracleSignatureHex = Some (''0x'' @ to_hex signature)\<rparr>))"

definition buildExecuteShieldRequest ::
  "(string \<Rightarrow> bytes result) \<Rightarrow> (nat \<Rightarrow> int) \<Rightarrow> shield_quote_input \<Rightarrow> (bytes \<Rightarrow> bytes result) option \<Rightarrow>
   execute_shield_request result" where
  "buildExecuteShieldRequest pubkey_bytes clock inp oracleSigner =
     rbind (buildSignedShieldRequest pubkey_bytes clock inp oracleSigner) (\<lambda>signed.
       case (ss_oracleSignature signed, ss_oracleSignatureHex signed) of
         (Some sig, Some hex) \<Rightarrow>
           if out_blocked (ss_quote signed) \<or> out_isInfinite (ss_quote signed)
           then Inl (Thrown ''shield blocked this payload; execute request denied'')
           else Inr \<lparr>es_quote = ss_quote signed, es_payload = out_payload (ss_quote signed),
                  es_oracleSignature = sig, es_oracleSignatureHex = hex\<rparr>
       | _ \<Rightarrow> Inl (Thrown ''oracleSigner is required for execute request''))"

subsection \<open>The two scores\<close>

text \<open>What the SDK reads and the oracle does not.\<close>

definition sdk_only_signal :: "jsval \<Rightarrow> bool" where
  "sdk_only_signal att \<longleftrightarrow> readPathNumber att
     [''claimData.context.commit_count'', ''listening_hours'', ''data.age_days''] \<noteq> None"

lemma readPathNumber_skip:
  "readPathNumber v [p] = None \<Longrightarrow> readPathNumber v (xs @ p # ys) = readPathNumber v (xs @ ys)"
  by (induction xs) (simp_all split: option.splits)

lemma readPathNumber_None_iff:
  "readPathNumber v ps = None \<longleftrightarrow> (\<forall>p \<in> set ps. readPathNumber v [p] = None)"
  by (induction ps) (simp_all split: option.splits)

lemma no_sdk_only_signal:
  "\<not> sdk_only_signal att \<Longrightarrow> readPathNumber att
     [''claimData.context.commit_count'', ''listening_hours'', ''data.age_days''] = None"
  by (unfold sdk_only_signal_def not_not)

lemma sdk_paths:
  assumes "\<not> sdk_only_signal att"
  shows "readPathNumber att sdkGithubPaths = readPathNumber att githubPaths"
    "readPathNumber att sdkSpotifyPaths = readPathNumber att spotifyPaths"
    "readPathNumber att sdkAgePaths = readPathNumber att agePaths"
proof -
  have all: "\<forall>p \<in> set [''claimData.context.commit_count'', ''listening_hours'', ''data.age_days''].
      readPathNumber att [p] = None"
    by (rule readPathNumber_None_iff[THEN iffD1, OF no_sdk_only_signal[OF assms]])
  have n: "readPathNumber att [''claimData.context.commit_count''] = None"
    "readPathNumber att [''listening_hours''] = None" "readPathNumber att [''data.age_days''] = None"
    by (rule bspec[OF all], simp del: readPathNumber.simps)+
  have split: "sdkGithubPaths = githubPaths @ ''claimData.context.commit_count'' # []"
    "sdkSpotifyPaths = take 2 spotifyPaths @ ''listening_hours'' # drop 2 spotifyPaths"
    "sdkAgePaths = agePaths @ ''data.age_days'' # []"
    by (simp_all add: sdkGithubPaths_def githubPaths_def sdkSpotifyPaths_def
      spotifyPaths_def sdkAgePaths_def agePaths_def)
  show "readPathNumber att sdkGithubPaths = readPathNumber att githubPaths"
    "readPathNumber att sdkSpotifyPaths = readPathNumber att spotifyPaths"
    "readPathNumber att sdkAgePaths = readPathNumber att agePaths"
    unfolding split readPathNumber_skip[OF n(1)] readPathNumber_skip[OF n(2)] readPathNumber_skip[OF n(3)]
    by simp_all
qed

lemma sdkScoreLoop_eq:
  "\<forall>att \<in> set atts. \<not> sdk_only_signal att \<Longrightarrow>
   sdkScoreLoop (gh, sp, age, act, ggl) atts =
     rbind (githubLoop gh atts) (\<lambda>gh. rbind (spotifyLoop sp atts) (\<lambda>sp.
     rbind (twitterLoop age act atts) (\<lambda>(age, act). rbind (googleLoop ggl atts) (\<lambda>ggl.
       Inr (gh, sp, age, act, ggl)))))"
proof (induction atts arbitrary: gh sp age act ggl)
  case (Cons a atts)
  show ?case
  proof (cases "providerName a")
    case (Inr p)
    then show ?thesis using Cons by (simp add: Let_def sdk_paths)
  qed simp
qed simp

lemma clamped_total: "0 \<le> max 0 (min 100 (x::int)) \<and> max 0 (min 100 x) \<le> 100"
  by simp

lemma sdk_score_range:
  assumes "sdkComputeDignityScore atts mode = Inr b"
  shows "0 \<le> totalScore b \<and> totalScore b \<le> 100"
proof -
  have "\<exists>t. totalScore b = max 0 (min 100 t)"
  proof (cases "mode = Bot_suspected")
    case True
    with assms have "b = zero_breakdown" by (simp add: sdkComputeDignityScore_def)
    then have "totalScore b = max 0 (min 100 0)" by (simp add: zero_breakdown_def)
    then show ?thesis ..
  next
    case False
    with assms obtain acc where "sdkScoreLoop (0, 0, 0, 0, 0) atts = Inr acc"
      by (cases "sdkScoreLoop (0, 0, 0, 0, 0) atts") (simp_all add: sdkComputeDignityScore_def)
    with False assms show ?thesis
      by (cases acc) (auto simp: sdkComputeDignityScore_def Let_def split del: if_split)
  qed
  then show ?thesis using clamped_total by metis
qed

lemma scoring_modes_agree:
  assumes "mode \<noteq> Bot_suspected" "\<forall>att \<in> set attestations. \<not> sdk_only_signal att"
  shows "sdkComputeDignityScore attestations mode = computeDignityScoreForMode attestations mode"
proof -
  have "sdkScoreLoop (0, 0, 0, 0, 0) attestations =
     rbind (extractGithubCommits attestations) (\<lambda>gh. rbind (extractSpotifyHours attestations) (\<lambda>sp.
     rbind (extractTwitterSignals attestations) (\<lambda>(age, act). rbind (extractGoogleFallbackAgeDays attestations) (\<lambda>ggl.
       Inr (gh, sp, age, act, ggl)))))"
    unfolding sdkScoreLoop_eq[OF assms(2)] extractGithubCommits_def extractSpotifyHours_def
      extractTwitterSignals_def extractGoogleFallbackAgeDays_def by (rule refl)
  note loop = this
  have total: "max 0 (min 100 (max t 25)) = max (max 0 (min 100 t)) (25::int)" for t by linarith
  note defs = sdkComputeDignityScore_def computeDignityScoreForMode_def computeDignityScore_def loop
  show ?thesis
  proof (cases "extractGithubCommits attestations")
    case gh: (Inr gh)
    show ?thesis
    proof (cases "extractSpotifyHours attestations")
      case sp: (Inr sp)
      show ?thesis
      proof (cases "extractTwitterSignals attestations")
        case tw: (Inr tw)
        show ?thesis
          using assms(1) by (cases mode; cases tw; cases "extractGoogleFallbackAgeDays attestations")
            (simp_all add: defs gh sp tw total Let_def split del: if_split)
      qed (use assms(1) in \<open>simp add: defs gh sp split del: if_split\<close>)
    qed (use assms(1) in \<open>simp add: defs gh split del: if_split\<close>)
  qed (use assms(1) in \<open>simp add: defs split del: if_split\<close>)
qed

text \<open>
  C40. The SDK and the oracle give the same breakdown, errors included, in the scoring modes guest and verified, for
  attestations that carry none of the three signals only the SDK reads. For a suspected bot the SDK gives zeros
  without reading the attestations; the oracle reads them first, so it gives the same zeros where they can be read, and
  their error where they cannot.
\<close>

theorem sdk_score_agrees_with_oracle:
  assumes "mode \<noteq> Bot_suspected \<longrightarrow> (\<forall>att \<in> set attestations. \<not> sdk_only_signal att)"
  shows "if mode = Bot_suspected
     then sdkComputeDignityScore attestations mode = Inr zero_breakdown
       \<and> computeDignityScoreForMode attestations mode
           = (case computeDignityScore attestations of Inl e \<Rightarrow> Inl e | Inr _ \<Rightarrow> Inr zero_breakdown)
     else sdkComputeDignityScore attestations mode = computeDignityScoreForMode attestations mode"
proof (cases "mode = Bot_suspected")
  case True
  then show ?thesis
    by (simp add: sdkComputeDignityScore_def computeDignityScoreForMode_def split: sum.split)
next
  case False
  with assms have "sdkComputeDignityScore attestations mode = computeDignityScoreForMode attestations mode"
    by (intro scoring_modes_agree) auto
  with False show ?thesis by simp
qed

theorem sdk_score_agrees_with_oracle_witness:
  "sdkComputeDignityScore [github_60, spotify_11] Guest = computeDignityScoreForMode [github_60, spotify_11] Guest"
proof -
  have "Guest \<noteq> Bot_suspected \<longrightarrow> (\<forall>att \<in> set [github_60, spotify_11]. \<not> sdk_only_signal att)" by code_simp
  from sdk_score_agrees_with_oracle[OF this] show ?thesis by simp
qed

text \<open>
  On the other attestations they part in both directions: a Spotify attestation that carries
  \<open>listening_hours\<close> below and \<open>data.hours\<close> above the threshold scores 30 with the oracle and 0 with
  the SDK, and a GitHub one whose count is in its context scores 0 and 40.
\<close>

theorem sdk_and_oracle_scores_differ:
  "map_sum id totalScore (sdkComputeDignityScore [JObj [(''provider'', JStr ''spotify''),
      (''listening_hours'', JNum (Fin 1)), (''data'', JObj [(''hours'', JNum (Fin 20))])]] Verified) = Inr 0
   \<and> map_sum id totalScore (computeDignityScoreForMode [JObj [(''provider'', JStr ''spotify''),
      (''listening_hours'', JNum (Fin 1)), (''data'', JObj [(''hours'', JNum (Fin 20))])]] Verified) = Inr 30
   \<and> map_sum id totalScore (sdkComputeDignityScore [JObj [(''provider'', JStr ''github''),
      (''claimData'', JObj [(''context'', JObj [(''commit_count'', JNum (Fin 60))])])]] Verified) = Inr 40
   \<and> map_sum id totalScore (computeDignityScoreForMode [JObj [(''provider'', JStr ''github''),
      (''claimData'', JObj [(''context'', JObj [(''commit_count'', JNum (Fin 60))])])]] Verified) = Inr 0"
  by (intro conjI) code_simp+

subsection \<open>The built payload\<close>

lemma assertSafeInteger_Inr_iff:
  "assertSafeInteger v name = Inr n \<longleftrightarrow> bigint_of_num v = Inr n \<and> \<bar>n\<bar> \<le> 2 ^ 53 - 1"
  by (auto simp: assertSafeInteger_def split: sum.splits)

lemma length_fromHexPairs [simp]: "length (fromHexPairs s) = length s div 2"
  by (induction s rule: fromHexPairs.induct) simp_all

lemma fromHex_Inr_iff: "fromHex s = Inr b \<longleftrightarrow> even (length s) \<and> b = fromHexPairs s"
  by (auto simp: fromHex_def)

lemma is_hex64_length: "is_hex64 s \<Longrightarrow> length s = 64"
  by (simp add: is_hex64_def)

lemma normalizeProofPlaceholder_hex:
  "normalizeProofPlaceholder now inp = Inr pf \<Longrightarrow> is_hex64 (pp_proofHashHex pf)"
  by (auto simp: normalizeProofPlaceholder_def Let_def split: if_splits)

lemma built_payload:
  assumes "buildShieldPayloadV0 pubkey_bytes clock inp = Inr (p, pf, breakdown, policy)"
  shows "0 \<le> dignity_score p" "dignity_score p \<le> 100" "length (zk_proof_hash p) = 32"
    "length (scoring_model_hash p) = 32" "0 \<le> policy_version p" "policy_version p \<le> 255"
    "0 \<le> zk_provider p" "zk_provider p \<le> 255"
    "0 \<le> initial_price p" "0 \<le> time_elapsed p" "\<bar>sales_velocity_bps p\<bar> \<le> 2 ^ 53 - 1"
    "pubkey_bytes (in_userPubkey inp) = Inr (user_pubkey p)" "initial_price p = in_initialPrice inp"
    "time_elapsed p = in_timeElapsed inp" "dignity_score p = totalScore breakdown"
    "bigint_of_num (in_salesVelocityBps inp) = Inr (sales_velocity_bps p)"
  using assms
  by (auto simp: buildShieldPayloadV0_def js_simps Let_def assertSafeInteger_Inr_iff fromHex_Inr_iff
      dest: sdk_score_range is_hex64_length normalizeProofPlaceholder_hex[THEN is_hex64_length])

lemma sdkPrice_bounds:
  assumes "0 \<le> d" "d \<le> 100" "sdkPrice i v t d = Some (price, blocked)"
  shows "1 \<le> price" "price \<le> U64_MAX" "price \<le> max 1 i * 120" "blocked \<longleftrightarrow> max 1 i * 100 \<le> price"
  using assms(3) unfolding sdkPrice_eq[OF assms(1,2)]
  by (auto simp: U64_MAX_def split: option.splits if_splits)

definition quote_ok :: "payload_raw \<Rightarrow> shield_quote_output \<Rightarrow> bool" where
  "quote_ok p q \<longleftrightarrow> out_payload q = p \<and> serializeShieldPayloadV0 p = Inr (out_payloadBytes q)
     \<and> out_payloadHex q = ''0x'' @ to_hex (out_payloadBytes q)
     \<and> 1 \<le> out_finalPrice q \<and> out_finalPrice q \<le> U64_MAX
     \<and> (out_isInfinite q \<longrightarrow> out_blocked q)
     \<and> (\<not> out_isInfinite q \<longrightarrow> out_finalPrice q \<le> max 1 (initial_price p) * 120
          \<and> (out_blocked q \<longleftrightarrow> max 1 (initial_price p) * 100 \<le> out_finalPrice q))"

lemma buildSigned_Some:
  "buildSignedShieldRequest pubkey_bytes clock inp (Some signer) = Inr sr \<longleftrightarrow>
     (\<exists>q sig. sdkCalculateShieldQuote pubkey_bytes clock inp = Inr q \<and> signer (out_payloadBytes q) = Inr sig
        \<and> length sig = 64 \<and> sr = \<lparr>ss_quote = q, ss_oracleSignature = Some sig,
              ss_oracleSignatureHex = Some (''0x'' @ to_hex sig)\<rparr>)"
  by (auto simp: buildSignedShieldRequest_def js_simps)

lemma buildSigned_None:
  "buildSignedShieldRequest pubkey_bytes clock inp None = Inr sr \<Longrightarrow> ss_oracleSignature sr = None"
  by (auto simp: buildSignedShieldRequest_def js_simps)

lemma buildExecute_Inr:
  assumes "buildExecuteShieldRequest pubkey_bytes clock inp oracleSigner = Inr r"
  obtains q signer where "sdkCalculateShieldQuote pubkey_bytes clock inp = Inr q" "oracleSigner = Some signer"
    "signer (out_payloadBytes q) = Inr (es_oracleSignature r)" "length (es_oracleSignature r) = 64"
    "es_quote r = q" "es_payload r = out_payload q" "\<not> out_blocked q" "\<not> out_isInfinite q"
proof (cases oracleSigner)
  case None
  then show thesis using assms
    by (auto simp: buildExecuteShieldRequest_def js_simps dest: buildSigned_None)
next
  case (Some signer)
  then show thesis using assms that[OF _ Some]
    by (auto simp: buildExecuteShieldRequest_def rbind_Inr_iff buildSigned_Some split: if_splits)
qed

lemma calculateFromPayload_ok:
  assumes "calculateFromPayload p pf breakdown policy = Inr q"
  shows "quote_ok p q \<and> (\<not> out_isInfinite q \<longrightarrow> sdkPrice (initial_price p) (sales_velocity_bps p)
       (time_elapsed p) (dignity_score p) = Some (out_finalPrice q, out_blocked q))"
proof -
  have r: "0 \<le> dignity_score p" "dignity_score p \<le> 100"
    using assms by (auto simp: calculateFromPayload_def split: if_splits)
  show ?thesis
  proof (cases "sdkPrice (initial_price p) (sales_velocity_bps p) (time_elapsed p) (dignity_score p)")
    case None
    then show ?thesis using assms
      by (auto simp: calculateFromPayload_def infinityOutput_def js_simps Let_def quote_ok_def U64_MAX_def
          split: if_splits)
  next
    case (Some a)
    then obtain price blocked where s: "sdkPrice (initial_price p) (sales_velocity_bps p) (time_elapsed p)
        (dignity_score p) = Some (price, blocked)" by (cases a) auto
    note b = sdkPrice_bounds[OF r s]
    show ?thesis using assms s b
      by (auto simp: calculateFromPayload_def js_simps Let_def quote_ok_def split: if_splits)
  qed
qed

text \<open>
  Every payload the builder produces can be quoted: when its integers fit their fields and the
  velocity is above -10000, the quote returns, with the 141 bytes of the payload, a price between one
  lamport and the cap, and the block flag exactly from 100 times the base price on. Scores, hashes and
  versions never make it fail: the builder has bounded them.
\<close>

theorem sdk_quote_total:
  assumes decode: "\<And>s b. pubkey_bytes s = Inr b \<Longrightarrow> length b = 32"
    and build: "buildShieldPayloadV0 pubkey_bytes clock inp = Inr (p, pf, breakdown, policy)"
    and fit: "initial_price p < 2 ^ 64" "time_elapsed p < 2 ^ 64" "- 10000 < sales_velocity_bps p"
      "i64_range (attestation_expiry p)" "u64_range (nonce p)"
  shows "\<exists>q. sdkCalculateShieldQuote pubkey_bytes clock inp = Inr q \<and> quote_ok p q
       \<and> length (out_payloadBytes q) = 141"
proof -
  note b = built_payload[OF build]
  have "wf_payload p" unfolding wf_payload_def u64_range_def i64_range_def
    using b decode[OF b(12)] fit by (auto simp: u64_range_def i64_range_def)
  then have ser: "serializeShieldPayloadV0 p = Inr (payload_layout p)" "length (payload_layout p) = 141"
    by (rule serialize_wf, rule payload_layout_length)
  obtain q where q: "calculateFromPayload p pf breakdown policy = Inr q"
    using ser b(1,2) fit
    by (cases "sdkPrice (initial_price p) (sales_velocity_bps p) (time_elapsed p) (dignity_score p)")
       (auto simp: calculateFromPayload_def infinityOutput_def Let_def BPS_SCALE_def)
  then have ok: "quote_ok p q" using calculateFromPayload_ok by blast
  then have "out_payloadBytes q = payload_layout p" using ser by (simp add: quote_ok_def)
  with q ok ser build show ?thesis by (simp add: sdkCalculateShieldQuote_def)
qed

definition sample_input :: shield_quote_input where
  "sample_input = \<lparr>in_userPubkey = ''W1'', in_initialPrice = 1000000000, in_salesVelocityBps = Fin 5000,
     in_timeElapsed = 12, in_attestations = Some [github_60, spotify_11], in_mode = None, in_nonce = None,
     in_policyVersion = None, in_zkProvider = None, in_scoringModelHashHex = None,
     in_attestationExpiry = None, in_proofPlaceholder = None, in_antiResalePolicy = None\<rparr>"

definition sample_decode :: "string \<Rightarrow> bytes result" where
  "sample_decode s = Inr (replicate 32 7)"

definition sample_clock :: "nat \<Rightarrow> int" where
  "sample_clock k = 1700000000000 + int k"

lemma sample_build:
  "map_sum id fst (buildShieldPayloadV0 sample_decode sample_clock sample_input) =
   Inr \<lparr>policy_version = 0, user_pubkey = replicate 32 7, initial_price = 1000000000,
     sales_velocity_bps = 5000, time_elapsed = 12, dignity_score = 70, adapter_mask = 3, user_mode = 2,
     zk_provider = 1, zk_proof_hash = replicate 32 0, scoring_model_hash = replicate 32 17,
     attestation_expiry = 1700000300, nonce = 1700000000002000\<rparr>"
  by code_simp

theorem sdk_quote_total_witness:
  "\<exists>q. sdkCalculateShieldQuote sample_decode sample_clock sample_input = Inr q \<and> length (out_payloadBytes q) = 141"
proof -
  obtain p pf breakdown policy where build: "buildShieldPayloadV0 sample_decode sample_clock sample_input
      = Inr (p, pf, breakdown, policy)"
    and p: "p = \<lparr>policy_version = 0, user_pubkey = replicate 32 7, initial_price = 1000000000,
     sales_velocity_bps = 5000, time_elapsed = 12, dignity_score = 70, adapter_mask = 3, user_mode = 2,
     zk_provider = 1, zk_proof_hash = replicate 32 0, scoring_model_hash = replicate 32 17,
     attestation_expiry = 1700000300, nonce = 1700000000002000\<rparr>"
    using sample_build
    by (cases "buildShieldPayloadV0 sample_decode sample_clock sample_input") auto
  have "\<exists>q. sdkCalculateShieldQuote sample_decode sample_clock sample_input = Inr q \<and> quote_ok p q
      \<and> length (out_payloadBytes q) = 141"
    by (rule sdk_quote_total [OF _ build]) (auto simp: sample_decode_def p i64_range_def u64_range_def)
  then show ?thesis by blast
qed

text \<open>
  An execute request only exists for a payload the shield lets through: its quote is finite and
  unblocked, priced below 100 times the base, at the price of the SDK's rule for the score in the payload;
  its signature is what the signer returned for exactly the serialized bytes of its payload, 64
  bytes long; and the payload names the wallet, price and elapsed time of the request.
\<close>

theorem execute_request_only_if_let_through:
  assumes "buildExecuteShieldRequest pubkey_bytes clock inp oracleSigner = Inr r"
  shows "\<exists>signer bytes. oracleSigner = Some signer \<and> serializeShieldPayloadV0 (es_payload r) = Inr bytes
     \<and> signer bytes = Inr (es_oracleSignature r) \<and> length (es_oracleSignature r) = 64
     \<and> \<not> out_isInfinite (es_quote r) \<and> \<not> out_blocked (es_quote r)
     \<and> out_finalPrice (es_quote r) < 100 * max 1 (in_initialPrice inp)
     \<and> sdkPrice (in_initialPrice inp) (sales_velocity_bps (es_payload r)) (in_timeElapsed inp)
         (dignity_score (es_payload r)) = Some (out_finalPrice (es_quote r), False)
     \<and> pubkey_bytes (in_userPubkey inp) = Inr (user_pubkey (es_payload r))
     \<and> dignity_score (es_payload r) \<in> {0..100}"
proof -
  from assms obtain q signer where q: "sdkCalculateShieldQuote pubkey_bytes clock inp = Inr q"
    and s: "oracleSigner = Some signer" "signer (out_payloadBytes q) = Inr (es_oracleSignature r)"
      "length (es_oracleSignature r) = 64"
    and r: "es_quote r = q" "es_payload r = out_payload q" "\<not> out_blocked q" "\<not> out_isInfinite q"
    by (elim buildExecute_Inr) blast
  from q obtain p pf breakdown policy where
    build: "buildShieldPayloadV0 pubkey_bytes clock inp = Inr (p, pf, breakdown, policy)"
    and calc: "calculateFromPayload p pf breakdown policy = Inr q"
    by (auto simp: sdkCalculateShieldQuote_def js_simps)
  note ok = calculateFromPayload_ok[OF calc]
  then have p: "out_payload q = p" by (simp add: quote_ok_def)
  show ?thesis
    using s r ok built_payload[OF build] by (auto simp: p quote_ok_def)
qed

theorem execute_request_only_if_let_through_witness:
  "\<exists>r. buildExecuteShieldRequest sample_decode sample_clock sample_input (Some (\<lambda>_. Inr (replicate 64 1))) = Inr r
     \<and> out_finalPrice (es_quote r) = 1695881429 \<and> out_finalPrice (es_quote r) < 100 * 1000000000"
proof -
  have "map_sum id (\<lambda>r. out_finalPrice (es_quote r))
      (buildExecuteShieldRequest sample_decode sample_clock sample_input (Some (\<lambda>_. Inr (replicate 64 1)))) = Inr 1695881429"
    by code_simp
  then obtain r where r: "buildExecuteShieldRequest sample_decode sample_clock sample_input
      (Some (\<lambda>_. Inr (replicate 64 1))) = Inr r" "out_finalPrice (es_quote r) = 1695881429"
    by (cases "buildExecuteShieldRequest sample_decode sample_clock sample_input (Some (\<lambda>_. Inr (replicate 64 1)))") auto
  from execute_request_only_if_let_through [OF r(1)] r show ?thesis by (auto simp: sample_input_def)
qed

end
