(* ===== verification/Guards.thy ===== *)
theory Guards
  imports Js_Value
begin

section \<open>Guards over time\<close>

text \<open>
  Two interfaces the services rely on, as locales over a state, a step that says whether the event was
  accepted, and the time of the event. \<open>one_time_guard\<close> lets a key through once per lifetime (the
  replay stores), \<open>fixed_window\<close> counts a key per window (the rate limits). Their clients' lemmas
  are about the accepted events of a run: they are a lifetime apart, and no interval of a window's length
  holds more than twice the limit. The environment variables the guards read are below.
\<close>

subsection \<open>Runs\<close>

fun run_guard :: "('s \<Rightarrow> 'e \<Rightarrow> 's \<times> bool) \<Rightarrow> 's \<Rightarrow> 'e list \<Rightarrow> ('e \<times> bool) list" where
  "run_guard step s [] = []"
| "run_guard step s (e # es) = (let (s', ok) = step s e in (e, ok) # run_guard step s' es)"

definition accepted_at :: "('e \<Rightarrow> int) \<Rightarrow> ('e \<times> bool) list \<Rightarrow> int list" where
  "accepted_at tm tr = map (\<lambda>(e, ok). tm e) (filter snd tr)"

lemma accepted_at_simps [simp]:
  "accepted_at tm [] = []"
  "accepted_at tm ((e, ok) # tr) = (if ok then tm e # accepted_at tm tr else accepted_at tm tr)"
  by (simp_all add: accepted_at_def)

definition in_window :: "int \<Rightarrow> int \<Rightarrow> int list \<Rightarrow> nat" where
  "in_window lo hi ts = length (filter (\<lambda>t. lo \<le> t \<and> t < hi) ts)"

lemma in_window_simps [simp]:
  "in_window lo hi [] = 0"
  "in_window lo hi (ts @ us) = in_window lo hi ts + in_window lo hi us"
  "in_window lo hi (t # ts) = (if lo \<le> t \<and> t < hi then Suc (in_window lo hi ts) else in_window lo hi ts)"
  by (simp_all add: in_window_def)

lemma in_window_split: "lo \<le> m \<Longrightarrow> m \<le> hi \<Longrightarrow> in_window lo hi ts = in_window lo m ts + in_window m hi ts"
  by (induction ts) auto

lemma in_window_mono: "lo' \<le> lo \<Longrightarrow> hi \<le> hi' \<Longrightarrow> in_window lo hi ts \<le> in_window lo' hi' ts"
  by (induction ts) auto

subsection \<open>Once per lifetime\<close>

locale one_time_guard =
  fixes wf :: "'s \<Rightarrow> bool"
    and expiry :: "'s \<Rightarrow> int option"
    and step :: "'s \<Rightarrow> 'e \<Rightarrow> 's \<times> bool"
    and tm :: "'e \<Rightarrow> int"
    and ttl :: int
  assumes wf_step: "wf s \<Longrightarrow> step s e = (s', ok) \<Longrightarrow> wf s'"
    and accept: "wf s \<Longrightarrow> step s e = (s', True) \<Longrightarrow>
      (\<forall>x. expiry s = Some x \<longrightarrow> x \<le> tm e) \<and> expiry s' = Some (tm e + ttl)"
    and keep: "wf s \<Longrightarrow> step s e = (s', False) \<Longrightarrow>
      expiry s' = expiry s \<or> (expiry s' = None \<and> (\<exists>x. expiry s = Some x \<and> x \<le> tm e))"
begin

lemma accepted_spaced_from:
  assumes "wf s" "sorted (map tm es)" "\<forall>e \<in> set es. now \<le> tm e"
    and "\<forall>x. expiry s = Some x \<longrightarrow> x = prv + ttl" "expiry s = None \<longrightarrow> prv + ttl \<le> now"
  shows "successively (\<lambda>a b. a + ttl \<le> b) (prv # accepted_at tm (run_guard step s es))"
  using assms
proof (induction es arbitrary: s now prv)
  case (Cons e es)
  obtain s' ok where st: "step s e = (s', ok)" by (cases "step s e")
  have e: "now \<le> tm e" "sorted (map tm es)" "\<forall>e' \<in> set es. tm e \<le> tm e'" using Cons.prems by auto
  show ?case
  proof (cases ok)
    case True
    with st have "step s e = (s', True)" by simp
    note a = accept[OF Cons.prems(1) this]
    have "prv + ttl \<le> tm e" using a Cons.prems(4,5) e(1) by (cases "expiry s") fastforce+
    moreover have "successively (\<lambda>a b. a + ttl \<le> b) (tm e # accepted_at tm (run_guard step s' es))"
      using a e wf_step[OF Cons.prems(1) st] by (intro Cons.IH[of _ "tm e"]) auto
    ultimately show ?thesis using st True by simp
  next
    case False
    with st have "step s e = (s', False)" by simp
    from keep[OF Cons.prems(1) this] have "\<forall>x. expiry s' = Some x \<longrightarrow> x = prv + ttl"
      "expiry s' = None \<longrightarrow> prv + ttl \<le> tm e"
      using Cons.prems(4,5) e(1) by (cases "expiry s"; fastforce)+
    then have "successively (\<lambda>a b. a + ttl \<le> b) (prv # accepted_at tm (run_guard step s' es))"
      using e wf_step[OF Cons.prems(1) st] by (intro Cons.IH[of _ "tm e"]) auto
    then show ?thesis using st False by simp
  qed
qed simp

lemma accepted_spaced:
  assumes "wf s" "sorted (map tm es)" "expiry s = None"
  shows "successively (\<lambda>a b. a + ttl \<le> b) (accepted_at tm (run_guard step s es))"
proof (cases es)
  case (Cons e es')
  have "successively (\<lambda>a b. a + ttl \<le> b) ((tm e - ttl) # accepted_at tm (run_guard step s es))"
    using assms Cons by (intro accepted_spaced_from[of s es "tm e"]) auto
  then show ?thesis by (cases "accepted_at tm (run_guard step s es)") auto
qed simp

end

subsection \<open>So many per window\<close>

text \<open>What one event may do to the bucket of a key: its window start and count.\<close>

definition bucket_step :: "int \<Rightarrow> int \<Rightarrow> (int \<times> int) option \<Rightarrow> int \<Rightarrow> (int \<times> int) option \<Rightarrow> bool \<Rightarrow> bool" where
  "bucket_step w limit b now b' acc \<longleftrightarrow>
     (let expired = (case b of None \<Rightarrow> True | Some (s, c) \<Rightarrow> w \<le> now - s) in
      (\<not> acc \<and> b' = b) \<or> (\<not> acc \<and> expired \<and> b' = None) \<or> (expired \<and> b' = Some (now, 1))
      \<or> (\<exists>s c. b = Some (s, c) \<and> now - s < w \<and> c < limit \<and> b' = Some (s, c + 1)))"

text \<open>
  The invariant over the accepted times: in the current window at most the count, in the window's length
  before its start and in any interval of that length at most the limit and twice the limit. After the
  bucket is gone, the last window's length still holds at most the limit.
\<close>

definition window_inv :: "int \<Rightarrow> int \<Rightarrow> (int \<times> int) option \<Rightarrow> int \<Rightarrow> int list \<Rightarrow> bool" where
  "window_inv w limit b now ts \<longleftrightarrow>
     (\<forall>t \<in> set ts. t \<le> now) \<and> (\<forall>lo. int (in_window lo (lo + w) ts) \<le> 2 * limit)
     \<and> (case b of
          None \<Rightarrow> int (in_window (now - w + 1) (now + 1) ts) \<le> limit \<and> (\<forall>t \<in> set ts. t < now)
        | Some (s, c) \<Rightarrow> s \<le> now \<and> c \<le> limit \<and> int (in_window s (now + 1) ts) \<le> c
            \<and> int (in_window (s - w + 1) s ts) \<le> limit \<and> (\<forall>t \<in> set ts. t < s + w))"

lemma window_invD:
  assumes "window_inv w limit b now ts"
  shows "t \<in> set ts \<Longrightarrow> t \<le> now" "int (in_window lo (lo + w) ts) \<le> 2 * limit"
  using assms unfolding window_inv_def by blast+

lemma window_inv_NoneI:
  "(\<And>t. t \<in> set ts \<Longrightarrow> t < now) \<Longrightarrow> (\<And>lo. int (in_window lo (lo + w) ts) \<le> 2 * limit) \<Longrightarrow>
   int (in_window (now - w + 1) (now + 1) ts) \<le> limit \<Longrightarrow> window_inv w limit None now ts"
  unfolding window_inv_def by (simp add: less_imp_le)

lemma window_inv_SomeI:
  "(\<And>t. t \<in> set ts \<Longrightarrow> t \<le> now) \<Longrightarrow> (\<And>lo. int (in_window lo (lo + w) ts) \<le> 2 * limit) \<Longrightarrow>
   s \<le> now \<Longrightarrow> c \<le> limit \<Longrightarrow> int (in_window s (now + 1) ts) \<le> c \<Longrightarrow>
   int (in_window (s - w + 1) s ts) \<le> limit \<Longrightarrow> (\<And>t. t \<in> set ts \<Longrightarrow> t < s + w) \<Longrightarrow>
   window_inv w limit (Some (s, c)) now ts"
  unfolding window_inv_def by simp

lemma window_inv_NoneD:
  "window_inv w limit None now ts \<Longrightarrow> int (in_window (now - w + 1) (now + 1) ts) \<le> limit"
  "window_inv w limit None now ts \<Longrightarrow> t \<in> set ts \<Longrightarrow> t < now"
  unfolding window_inv_def by simp_all

lemma window_inv_SomeD:
  assumes "window_inv w limit (Some (s, c)) now ts"
  shows "s \<le> now" "c \<le> limit" "int (in_window s (now + 1) ts) \<le> c"
    "int (in_window (s - w + 1) s ts) \<le> limit" "t \<in> set ts \<Longrightarrow> t < s + w"
  using assms unfolding window_inv_def by simp_all

lemma in_window_upto: "(\<And>t. t \<in> set ts \<Longrightarrow> t \<le> now) \<Longrightarrow> now < hi \<Longrightarrow> in_window lo hi ts = in_window lo (now + 1) ts"
proof (induction ts)
  case (Cons t ts)
  have "t \<le> now" by (rule Cons.prems) simp
  moreover have "in_window lo hi ts = in_window lo (now + 1) ts" using Cons by simp
  ultimately show ?case using Cons.prems(2) by simp
qed simp

lemma in_window_le: "int (in_window lo' hi' ts) \<le> k \<Longrightarrow> lo' \<le> lo \<Longrightarrow> hi \<le> hi' \<Longrightarrow> int (in_window lo hi ts) \<le> k"
  using in_window_mono[of lo' lo hi hi' ts] by linarith

text \<open>The invariant only weakens as time passes.\<close>

lemma window_inv_later:
  assumes inv: "window_inv w limit b now ts" and le: "now \<le> now'"
  shows "window_inv w limit b now' ts"
proof -
  note old = window_invD(1)[OF inv]
  have up: "in_window lo (now' + 1) ts = in_window lo (now + 1) ts" for lo
    using le by (intro in_window_upto old) auto
  have le': "t \<le> now'" if "t \<in> set ts" for t using old[OF that] le by simp
  show ?thesis
  proof (cases b)
    case None
    note d = window_inv_NoneD[OF inv[unfolded None]]
    show ?thesis unfolding None
    proof (rule window_inv_NoneI)
      show "int (in_window (now' - w + 1) (now' + 1) ts) \<le> limit"
        unfolding up using le by (intro in_window_le[OF d(1)]) auto
      show "t < now'" if "t \<in> set ts" for t using d(2)[OF that] le by simp
    qed (rule window_invD(2)[OF inv])
  next
    case (Some sc)
    obtain s c where sc: "sc = (s, c)" by (cases sc)
    note d = window_inv_SomeD[OF inv[unfolded Some sc]]
    show ?thesis unfolding Some sc using d(1) le
      by (intro window_inv_SomeI[OF le' window_invD(2)[OF inv]] d(2,4,5)) (auto simp: up d(3))
  qed
qed

text \<open>Accepting at a time that opens a window.\<close>

definition bucket_expired :: "int \<Rightarrow> (int \<times> int) option \<Rightarrow> int \<Rightarrow> bool" where
  "bucket_expired w b now = (case b of None \<Rightarrow> True | Some (s, c) \<Rightarrow> w \<le> now - s)"

lemma expired_gap:
  assumes inv: "window_inv w limit b now ts" and ex: "bucket_expired w b now"
  shows "int (in_window (now - w + 1) (now + 1) ts) \<le> limit \<and> (\<forall>t \<in> set ts. t < now)"
proof (cases b)
  case None
  show ?thesis using window_inv_NoneD[OF inv[unfolded None]] by blast
next
  case (Some sc)
  obtain s c where sc: "sc = (s, c)" by (cases sc)
  note d = window_inv_SomeD[OF inv[unfolded Some sc]]
  have g: "w \<le> now - s" using ex by (simp add: bucket_expired_def Some sc)
  have "int (in_window (now - w + 1) (now + 1) ts) \<le> c" using g by (intro in_window_le[OF d(3)]) auto
  moreover have "t < now" if "t \<in> set ts" for t using d(5)[OF that] g by linarith
  ultimately show ?thesis using d(2) by force
qed

lemma window_inv_fresh:
  assumes inv: "window_inv w limit b now ts" and ex: "bucket_expired w b now"
    and pos: "0 < w" "1 \<le> limit"
  shows "window_inv w limit (Some (now, 1)) now (if acc then ts @ [now] else ts)"
proof -
  note old = window_invD(1)[OF inv] and any = window_invD(2)[OF inv]
  from expired_gap[OF inv ex] have gap: "int (in_window (now - w + 1) (now + 1) ts) \<le> limit"
    and old': "t < now" if "t \<in> set ts" for t using that by blast+
  have gap: "int (in_window (now - w + 1) (now + 1) ts) \<le> limit" using expired_gap[OF inv ex] by blast
  have none: "in_window now (now + 1) ts = 0"
    using old' by (auto simp: in_window_def filter_empty_conv)
  have before: "int (in_window (now - w + 1) now ts) \<le> limit" by (intro in_window_le[OF gap]) auto
  have any': "int (in_window lo (lo + w) (ts @ [now])) \<le> 2 * limit" for lo
  proof (cases "lo \<le> now \<and> now < lo + w")
    case True
    then have "int (in_window lo (now + 1) ts) \<le> limit" by (intro in_window_le[OF gap]) auto
    moreover have "in_window lo (lo + w) ts = in_window lo (now + 1) ts"
      using True by (intro in_window_upto old) auto
    ultimately show ?thesis using True pos by simp
  next
    case False
    then have "in_window lo (lo + w) (ts @ [now]) = in_window lo (lo + w) ts" by auto
    then show ?thesis using any[of lo] by (simp del: in_window_simps)
  qed
  have "window_inv w limit (Some (now, 1)) now ts"
    using old none before old' pos by (intro window_inv_SomeI any) force+
  moreover have "window_inv w limit (Some (now, 1)) now (ts @ [now])"
  proof (rule window_inv_SomeI[OF _ any'])
    show "t < now + w" if "t \<in> set (ts @ [now])" for t using that old' pos by force
  qed (use old none before pos in auto)
  ultimately show ?thesis by simp
qed

lemma window_inv_incr:
  assumes inv: "window_inv w limit (Some (s, c)) now ts" and w: "now - s < w" "c < limit"
  shows "window_inv w limit (Some (s, c + 1)) now (if acc then ts @ [now] else ts)"
proof -
  note old = window_invD(1)[OF inv] and any = window_invD(2)[OF inv] and d = window_inv_SomeD[OF inv]
  have any': "int (in_window lo (lo + w) (ts @ [now])) \<le> 2 * limit" for lo
  proof (cases "lo \<le> now \<and> now < lo + w")
    case True
    then have up: "in_window lo (lo + w) ts = in_window lo (now + 1) ts"
      by (intro in_window_upto old) auto
    have "int (in_window lo (now + 1) ts) \<le> limit + c"
    proof (cases "s \<le> lo")
      case True
      have "int (in_window lo (now + 1) ts) \<le> c" using True by (intro in_window_le[OF d(3)]) auto
      then show ?thesis using w d(3) by linarith
    next
      case False
      have "in_window lo (now + 1) ts = in_window lo s ts + in_window s (now + 1) ts"
        using d(1) False by (intro in_window_split) auto
      moreover have "int (in_window lo s ts) \<le> limit"
        using d(1) True False by (intro in_window_le[OF d(4)]) auto
      ultimately show ?thesis using d(3) by linarith
    qed
    then show ?thesis using True up w by simp
  next
    case False
    then have "in_window lo (lo + w) (ts @ [now]) = in_window lo (lo + w) ts" by auto
    then show ?thesis using any[of lo] by (simp del: in_window_simps)
  qed
  have "window_inv w limit (Some (s, c + 1)) now ts"
    using w d(3) by (intro window_inv_SomeI old any d) auto
  moreover have "window_inv w limit (Some (s, c + 1)) now (ts @ [now])"
  proof (rule window_inv_SomeI[OF _ any'])
    show "t < s + w" if "t \<in> set (ts @ [now])" for t using that d(5) w by force
    show "int (in_window (s - w + 1) s (ts @ [now])) \<le> limit" using d(1,4) by simp
    show "int (in_window s (now + 1) (ts @ [now])) \<le> c + 1" using d(1,3) by simp
  qed (use old d(1) w in auto)
  ultimately show ?thesis by simp
qed

lemma window_inv_step:
  assumes inv: "window_inv w limit b now ts" and step: "bucket_step w limit b now b' acc"
    and pos: "0 < w" "1 \<le> limit"
  shows "window_inv w limit b' now (if acc then ts @ [now] else ts)"
proof -
  from step consider "\<not> acc" "b' = b" | "\<not> acc" "bucket_expired w b now" "b' = None"
    | "bucket_expired w b now" "b' = Some (now, 1)"
    | s c where "b = Some (s, c)" "now - s < w" "c < limit" "b' = Some (s, c + 1)"
    unfolding bucket_step_def Let_def bucket_expired_def by blast
  then show ?thesis
  proof cases
    case 2
    have "window_inv w limit None now ts"
      using expired_gap[OF inv 2(2)] window_invD(2)[OF inv] by (intro window_inv_NoneI) blast+
    then show ?thesis using 2 by simp
  next
    case 3
    then show ?thesis using window_inv_fresh[OF inv 3(1) pos] by simp
  next
    case 4
    then show ?thesis using window_inv_incr[OF inv[unfolded 4(1)] 4(2,3)] by simp
  qed (use inv in simp)
qed

locale fixed_window =
  fixes enabled :: bool
    and wf :: "'s \<Rightarrow> bool"
    and bucket :: "'s \<Rightarrow> (int \<times> int) option"
    and step :: "'s \<Rightarrow> 'e \<Rightarrow> 's \<times> bool"
    and tm :: "'e \<Rightarrow> int"
    and w limit :: int
  assumes window_pos: "enabled \<Longrightarrow> 0 < w" and limit_pos: "enabled \<Longrightarrow> 1 \<le> limit"
    and wf_step: "wf s \<Longrightarrow> step s e = (s', acc) \<Longrightarrow> wf s'"
    and law: "enabled \<Longrightarrow> wf s \<Longrightarrow> step s e = (s', acc) \<Longrightarrow> bucket_step w limit (bucket s) (tm e) (bucket s') acc"
begin

lemma run_inv:
  "enabled \<Longrightarrow> wf s \<Longrightarrow> sorted (map tm es) \<Longrightarrow> \<forall>e \<in> set es. now \<le> tm e \<Longrightarrow> window_inv w limit (bucket s) now ts \<Longrightarrow>
   int (in_window lo (lo + w) (ts @ accepted_at tm (run_guard step s es))) \<le> 2 * limit"
proof (induction es arbitrary: s now ts)
  case Nil
  then show ?case using window_invD(2)[OF Nil.prems(5)] by simp
next
  case (Cons e es)
  obtain s' acc where st: "step s e = (s', acc)" by (cases "step s e")
  have "window_inv w limit (bucket s) (tm e) ts" using Cons.prems(4) by (intro window_inv_later[OF Cons.prems(5)]) simp
  from window_inv_step[OF this law[OF Cons.prems(1,2) st] window_pos limit_pos] Cons.prems(1)
  have inv: "window_inv w limit (bucket s') (tm e) (if acc then ts @ [tm e] else ts)" by blast
  have "int (in_window lo (lo + w) ((if acc then ts @ [tm e] else ts) @ accepted_at tm (run_guard step s' es))) \<le> 2 * limit"
    using Cons.prems(3) by (intro Cons.IH[OF Cons.prems(1) wf_step[OF Cons.prems(2) st] _ _ inv]) simp_all
  then show ?case using st by (cases acc) simp_all
qed

lemma at_most_twice_limit:
  assumes "enabled" "wf s" "sorted (map tm es)" "bucket s = None"
  shows "int (in_window lo (lo + w) (accepted_at tm (run_guard step s es))) \<le> 2 * limit"
proof (cases es)
  case Nil
  then show ?thesis using limit_pos assms(1) by simp
next
  case (Cons e es')
  have "int (in_window lo (lo + w) ([] @ accepted_at tm (run_guard step s es))) \<le> 2 * limit"
    using assms Cons limit_pos by (intro run_inv[of s es "tm e"]) (auto intro: window_inv_NoneI)
  then show ?thesis by simp
qed

end

subsection \<open>Environment variables\<close>

type_synonym env = "string \<Rightarrow> string option"

definition env_is :: "env \<Rightarrow> string \<Rightarrow> string \<Rightarrow> bool" where
  "env_is env name v \<longleftrightarrow> env name = Some v"

text \<open>\<open>process.env[name]\<close> when it is not the empty string: \<open>process.env[name] || d\<close>.\<close>

definition env_or :: "env \<Rightarrow> string \<Rightarrow> string \<Rightarrow> string" where
  "env_or env name d = (case env name of None \<Rightarrow> d | Some s \<Rightarrow> if s = [] then d else s)"

definition optionalBooleanEnv :: "env \<Rightarrow> string \<Rightarrow> bool option" where
  "optionalBooleanEnv env name =
     (case env name of None \<Rightarrow> None
      | Some raw \<Rightarrow>
          if raw = ''1'' \<or> to_lower raw = ''true'' then Some True
          else if raw = ''0'' \<or> to_lower raw = ''false'' then Some False
          else None)"

end
