(* ===== verification/Replay_Store.thy ===== *)
theory Replay_Store
  imports Guards
begin

section \<open>Proof replay (services/shield-oracle/src/proof_replay_store.ts)\<close>

text \<open>
  A proof identifier is claimed once per time to live: with Redis (\<open>SET NX EX\<close>, a parameter: absent or
  closed, or its answer for a key) or in a map of expiry times. The in-memory store is an instance of
  \<open>one_time_guard\<close> for each identifier.
\<close>

datatype replay_reason = Replay_detected | Backend_unavailable
datatype replay_claim_result = Claim_ok | Claim_failed replay_reason

datatype redis_set_reply = Set_failed | Set_reply "string option"

type_synonym redis_set = "(string \<Rightarrow> int \<Rightarrow> redis_set_reply) option"
type_synonym replay_store = "(string, int) jsmap"

definition replayPrefix :: "env \<Rightarrow> string" where
  "replayPrefix env = env_or env ''RECLAIM_REPLAY_PREFIX'' ''reclaim:proof-id''"

definition replayTtlSecsDefault :: "env \<Rightarrow> int" where
  "replayTtlSecsDefault env =
     (case finite_num (number_of_string (env_or env ''RECLAIM_REPLAY_TTL_SECONDS'' ''300'')) of
        Some parsed \<Rightarrow> if 0 < parsed then \<lfloor>parsed\<rfloor> else 300
      | None \<Rightarrow> 300)"

definition requireRedisForReplayProtection :: "env \<Rightarrow> bool" where
  "requireRedisForReplayProtection env =
     opt_or (optionalBooleanEnv env ''RECLAIM_REPLAY_REQUIRE_REDIS'') (env_is env ''NODE_ENV'' ''production'')"

definition cleanupMemoryStore :: "int \<Rightarrow> replay_store \<Rightarrow> replay_store" where
  "cleanupMemoryStore nowMs m = filter (\<lambda>(k, expiresAtMs). \<not> expiresAtMs \<le> nowMs) m"

definition claimInMemory :: "int \<Rightarrow> string \<Rightarrow> int \<Rightarrow> replay_store \<Rightarrow> replay_store \<times> bool" where
  "claimInMemory now key ttlSecs m =
     (let m' = cleanupMemoryStore now m in
      if map_get m' key \<noteq> None then (m', False)
      else (map_set key (now + ttlSecs * 1000) m', True))"

definition claimProofIdentifierForReplayProtection ::
  "env \<Rightarrow> redis_set \<Rightarrow> int \<Rightarrow> int \<Rightarrow> replay_store \<Rightarrow> string \<Rightarrow> replay_store \<times> replay_claim_result" where
  "claimProofIdentifierForReplayProtection env redis now ttlSecs m identifier =
     (let normalized = trim identifier in
      if normalized = [] then (m, Claim_failed Replay_detected)
      else let key = replayPrefix env @ '':'' @ normalized;
               requireRedis = requireRedisForReplayProtection env;
               in_memory = (let (m', ok) = claimInMemory now key ttlSecs m in
                 (m', if ok then Claim_ok else Claim_failed Replay_detected)) in
        (case redis of
           Some set_nx \<Rightarrow>
             (case set_nx key ttlSecs of
                Set_reply r \<Rightarrow> (m, if r = Some ''OK'' then Claim_ok else Claim_failed Replay_detected)
              | Set_failed \<Rightarrow> if requireRedis then (m, Claim_failed Backend_unavailable) else in_memory)
         | None \<Rightarrow> if requireRedis then (m, Claim_failed Backend_unavailable) else in_memory))"

subsection \<open>The store of expiry times\<close>

definition wf_store :: "('k, int) jsmap \<Rightarrow> bool" where
  "wf_store m \<longleftrightarrow> distinct (map fst m)"

lemma cleanup_get:
  assumes "wf_store m"
  shows "map_get (filter (\<lambda>(k, x). \<not> x \<le> now) m) k =
     (case map_get m k of None \<Rightarrow> None | Some x \<Rightarrow> if x \<le> now then None else Some x)"
  using map_of_filter_distinct[of m "\<lambda>(k, x). \<not> x \<le> now" k] assms
  by (auto simp: wf_store_def split: option.splits)

lemma wf_store_simps:
  "wf_store m \<Longrightarrow> wf_store (filter P m)" "wf_store m \<Longrightarrow> wf_store (map_set k v m)" "wf_store []"
  by (simp_all add: wf_store_def distinct_map_filter distinct_update)

lemma wf_claimInMemory: "wf_store m \<Longrightarrow> claimInMemory now key ttl m = (m', ok) \<Longrightarrow> wf_store m'"
  by (auto simp: claimInMemory_def cleanupMemoryStore_def Let_def wf_store_simps split: if_splits)

lemma claimInMemory_True:
  "wf_store m \<Longrightarrow> claimInMemory now key ttl m = (m', True) \<Longrightarrow>
   (\<forall>x. map_get m key = Some x \<longrightarrow> x \<le> now) \<and> map_get m' key = Some (now + ttl * 1000)"
  by (auto simp: claimInMemory_def cleanupMemoryStore_def Let_def cleanup_get split: if_splits)

lemma claimInMemory_False:
  "wf_store m \<Longrightarrow> claimInMemory now key ttl m = (m', False) \<Longrightarrow> map_get m' key = map_get m key \<and> map_get m key \<noteq> None"
  by (auto simp: claimInMemory_def cleanupMemoryStore_def Let_def cleanup_get split: if_splits option.splits)

lemma claimInMemory_other:
  "wf_store m \<Longrightarrow> claimInMemory now key ttl m = (m', ok) \<Longrightarrow> k \<noteq> key \<Longrightarrow>
   map_get m' k = map_get m k \<or> (map_get m' k = None \<and> (\<exists>x. map_get m k = Some x \<and> x \<le> now))"
  by (auto simp: claimInMemory_def cleanupMemoryStore_def Let_def cleanup_get split: if_splits option.splits)

text \<open>One identifier, claimed without Redis: an event is the time and the identifier presented.\<close>

type_synonym replay_event = "int \<times> string"

definition replay_time :: "replay_event \<Rightarrow> int" where
  "replay_time ev = fst ev"

definition replay_step :: "env \<Rightarrow> int \<Rightarrow> string \<Rightarrow> replay_store \<Rightarrow> replay_event \<Rightarrow> replay_store \<times> bool" where
  "replay_step env ttl ident m ev = (case ev of (now, identifier) \<Rightarrow>
     let (m', r) = claimProofIdentifierForReplayProtection env None now ttl m identifier
     in (m', trim identifier = trim ident \<and> r = Claim_ok))"

abbreviation replay_key :: "env \<Rightarrow> string \<Rightarrow> string" where
  "replay_key env ident \<equiv> replayPrefix env @ '':'' @ trim ident"

lemma replay_step_cases:
  assumes "replay_step env ttl ident m (now, i) = (m', ok)"
  obtains "m' = m" "ok = False"
  | c where "claimInMemory now (replay_key env i) ttl m = (m', c)" "ok = (trim i = trim ident \<and> c)"
  using assms
  by (auto simp: replay_step_def claimProofIdentifierForReplayProtection_def Let_def split: if_splits prod.splits)

lemma replay_wf: "wf_store m \<Longrightarrow> replay_step env ttl ident m e = (m', ok) \<Longrightarrow> wf_store m'"
  by (cases e) (auto elim!: replay_step_cases dest: wf_claimInMemory)

lemma replay_accept:
  assumes "wf_store m" "replay_step env ttl ident m e = (m', True)"
  shows "(\<forall>x. map_get m (replay_key env ident) = Some x \<longrightarrow> x \<le> replay_time e)
      \<and> map_get m' (replay_key env ident) = Some (replay_time e + ttl * 1000)"
proof -
  obtain now i where e: "e = (now, i)" by (cases e)
  from assms(2)[unfolded e] show ?thesis
    by (cases rule: replay_step_cases) (use assms(1) claimInMemory_True in \<open>auto simp: replay_time_def e\<close>)
qed

lemma replay_keep:
  assumes "wf_store m" "replay_step env ttl ident m e = (m', False)"
  shows "map_get m' (replay_key env ident) = map_get m (replay_key env ident) \<or>
      (map_get m' (replay_key env ident) = None \<and>
       (\<exists>x. map_get m (replay_key env ident) = Some x \<and> x \<le> replay_time e))"
proof -
  obtain now i where e: "e = (now, i)" by (cases e)
  from assms(2)[unfolded e] show ?thesis
  proof (cases rule: replay_step_cases)
    case (2 c)
    show ?thesis
    proof (cases "trim i = trim ident")
      case True
      then show ?thesis using 2 assms(1) claimInMemory_False by (metis (full_types))
    next
      case False
      then show ?thesis using claimInMemory_other[OF assms(1) 2(1), of "replay_key env ident"]
        by (simp add: replay_time_def e)
    qed
  qed simp
qed

interpretation replay_guard: one_time_guard wf_store "\<lambda>m. map_get m (replay_key env ident)"
    "replay_step env ttl ident" replay_time "ttl * 1000" for env ttl ident
  by unfold_locales (fact replay_wf replay_accept replay_keep)+

subsection \<open>Properties\<close>

text \<open>
  Without Redis a proof identifier is claimed at most once per time to live, however often and under
  whatever surrounding white space it is presented and whatever else is claimed in between: the claims
  that succeed are at least the time to live apart.
\<close>

theorem replay_claims_are_spaced:
  assumes "sorted (map replay_time evs)"
  shows "successively (\<lambda>a b. a + ttl * 1000 \<le> b)
     (accepted_at replay_time (run_guard (replay_step env ttl ident) [] evs))"
  using assms by (intro replay_guard.accepted_spaced) (auto simp: wf_store_def)

theorem replay_claims_are_spaced_witness:
  "accepted_at replay_time (run_guard (replay_step (\<lambda>_. None) 300 ''p'') []
     [(0, ''p''), (1000, '' p''), (299999, ''p''), (300000, ''p ''), (400000, ''p'')]) = [0, 300000]
   \<and> successively (\<lambda>a b. a + 300 * 1000 \<le> b) [0::int, 300000]"
proof -
  let ?evs = "[(0, ''p''), (1000, '' p''), (299999, ''p''), (300000, ''p ''), (400000, ''p'')] :: replay_event list"
  have s: "sorted (map replay_time ?evs)" by (simp add: replay_time_def)
  have a: "accepted_at replay_time (run_guard (replay_step (\<lambda>_. None) 300 ''p'') [] ?evs) = [0, 300000]" by code_simp
  from replay_claims_are_spaced [OF s, of 300 "\<lambda>_. None" "''p''"] a show ?thesis by simp
qed

end
