(* ===== verification/Reclaim_Verify.thy ===== *)
theory Reclaim_Verify
  imports Replay_Store
begin

section \<open>Verification of a proof bundle (services/shield-oracle/src/reclaim_verify.ts)\<close>

text \<open>
  The checks a bundle of Reclaim proofs passes before it is scored: the signatures (\<open>verifyProof\<close> of the
  Reclaim SDK, an asynchronous function of the bundle whose rejection is \<open>None\<close>), the provider allowlist,
  the owner and context wallets, and one claim per proof identifier (a state-passing parameter, by default
  that of \<open>Replay_Store\<close>). \<open>json_parse\<close> is \<open>JSON.parse\<close>, \<open>None\<close> where it throws.
\<close>

datatype verification_reason = No_attestations | Proof_signature_verification_failed
  | Provider_allowlist_required | Provider_not_allowlisted | Owner_wallet_mismatch
  | Context_wallet_mismatch | Proof_identifier_missing | Proof_replay_detected | Replay_backend_unavailable

datatype verification = Verification_ok "string list" | Verification_failed int verification_reason

definition allowedProviders :: "env \<Rightarrow> string list" where
  "allowedProviders env =
     dedup (map to_lower (filter (\<lambda>s. s \<noteq> []) (map trim
       (split_char (CHR '','') (env_or env ''RECLAIM_ALLOWED_PROVIDERS'' [])))))"

definition requireProviderAllowlist :: "env \<Rightarrow> bool" where
  "requireProviderAllowlist env = env_is env ''NODE_ENV'' ''production''"

definition parseContextWallet :: "(string \<Rightarrow> jsval option) \<Rightarrow> string \<Rightarrow> string option" where
  "parseContextWallet json_parse context =
     (case json_parse context of None \<Rightarrow> None
      | Some parsed \<Rightarrow>
          if parsed \<in> {JUndef, JNull} then None
          else map_option trim (List.find (\<lambda>s. trim s \<noteq> [])
            (List.map_filter (\<lambda>k. js_string (js_prop_opt parsed k))
              [''contextAddress'', ''walletAddress'', ''owner'', ''wallet'', ''address''])))"

definition contextMatchesWallet :: "(string \<Rightarrow> jsval option) \<Rightarrow> string \<Rightarrow> string \<Rightarrow> bool" where
  "contextMatchesWallet json_parse contextRaw walletBase58 =
     (parseContextWallet json_parse contextRaw = Some walletBase58)"

text \<open>One round of the first loop: the identifier, or the reason it returns early, or a TypeError.\<close>

definition checkProof ::
  "(string \<Rightarrow> jsval option) \<Rightarrow> string list \<Rightarrow> bool \<Rightarrow> string \<Rightarrow> jsval \<Rightarrow> (verification_reason + string) result" where
  "checkProof json_parse providerAllowlist requireContextWallet wallet proof =
     (let claimData = js_prop_opt proof ''claimData'' in
      rbind (js_lower_opt (js_prop_opt claimData ''provider'')) (\<lambda>provider.
      if providerAllowlist \<noteq> [] \<and> provider \<notin> set providerAllowlist then Inr (Inl Provider_not_allowlisted)
      else if js_nullish (js_prop_opt claimData ''owner'') (JStr []) \<noteq> JStr wallet
        then Inr (Inl Owner_wallet_mismatch)
      else if requireContextWallet \<and>
          (case js_string (js_nullish (js_prop_opt claimData ''context'') (JStr [])) of
             None \<Rightarrow> True | Some contextRaw \<Rightarrow> \<not> contextMatchesWallet json_parse contextRaw wallet)
        then Inr (Inl Context_wallet_mismatch)
      else rbind (js_trim (js_or (js_or (js_prop_opt proof ''identifier'') (js_prop_opt claimData ''identifier'')) (JStr [])))
        (\<lambda>identifier. if identifier = [] then Inr (Inl Proof_identifier_missing) else Inr (Inr identifier))))"

fun checkProofs :: "(jsval \<Rightarrow> (verification_reason + string) result) \<Rightarrow> string list \<Rightarrow> jsval list \<Rightarrow>
    (verification_reason + string list) result" where
  "checkProofs check identifiers [] = Inr (Inr identifiers)"
| "checkProofs check identifiers (proof # proofs) = rbind (check proof) (\<lambda>r.
     case r of Inl reason \<Rightarrow> Inr (Inl reason)
     | Inr identifier \<Rightarrow> checkProofs check (identifiers @ [identifier]) proofs)"

text \<open>The second loop: claims in order, stopping at the first that fails; earlier claims stay.\<close>

fun claimAll :: "('st \<Rightarrow> string \<Rightarrow> 'st \<times> replay_claim_result) \<Rightarrow> 'st \<Rightarrow> string list \<Rightarrow> 'st \<times> verification option" where
  "claimAll claim st [] = (st, None)"
| "claimAll claim st (identifier # rest) =
     (case claim st identifier of
        (st', Claim_ok) \<Rightarrow> claimAll claim st' rest
      | (st', Claim_failed Backend_unavailable) \<Rightarrow> (st', Some (Verification_failed 503 Replay_backend_unavailable))
      | (st', Claim_failed Replay_detected) \<Rightarrow> (st', Some (Verification_failed 409 Proof_replay_detected)))"

definition verifyReclaimProofBundle ::
  "env \<Rightarrow> (string \<Rightarrow> jsval option) \<Rightarrow> (jsval list \<Rightarrow> bool option) \<Rightarrow>
   ('st \<Rightarrow> string \<Rightarrow> 'st \<times> replay_claim_result) \<Rightarrow> 'st \<Rightarrow> string \<Rightarrow> jsval list \<Rightarrow> 'st \<times> verification result" where
  "verifyReclaimProofBundle env json_parse verifyProof claim st wallet attestations =
     (if attestations = [] then (st, Inr (Verification_failed 400 No_attestations))
      else if verifyProof attestations \<noteq> Some True
        then (st, Inr (Verification_failed 400 Proof_signature_verification_failed))
      else let providerAllowlist = allowedProviders env in
        if requireProviderAllowlist env \<and> providerAllowlist = []
          then (st, Inr (Verification_failed 503 Provider_allowlist_required))
        else
          (case checkProofs (checkProof json_parse providerAllowlist
                  (\<not> env_is env ''RECLAIM_REQUIRE_CONTEXT_MATCH'' ''0'') wallet) [] attestations of
             Inl e \<Rightarrow> (st, Inl e)
           | Inr (Inl reason) \<Rightarrow> (st, Inr (Verification_failed 400 reason))
           | Inr (Inr identifiers) \<Rightarrow>
               (case claimAll claim st identifiers of
                  (st', Some failure) \<Rightarrow> (st', Inr failure)
                | (st', None) \<Rightarrow> (st', Inr (Verification_ok identifiers)))))"

subsection \<open>What a passed bundle has shown\<close>

definition proof_bound :: "env \<Rightarrow> (string \<Rightarrow> jsval option) \<Rightarrow> string \<Rightarrow> jsval \<Rightarrow> string \<Rightarrow> bool" where
  "proof_bound env json_parse wallet proof identifier \<longleftrightarrow>
     js_prop_opt (js_prop_opt proof ''claimData'') ''owner'' = JStr wallet
     \<and> (allowedProviders env \<noteq> [] \<longrightarrow> (\<exists>p \<in> set (allowedProviders env).
          js_lower_opt (js_prop_opt (js_prop_opt proof ''claimData'') ''provider'') = Inr p))
     \<and> (\<not> env_is env ''RECLAIM_REQUIRE_CONTEXT_MATCH'' ''0'' \<longrightarrow> (\<exists>c.
          js_prop_opt (js_prop_opt proof ''claimData'') ''context'' = JStr c \<and> contextMatchesWallet json_parse c wallet))
     \<and> identifier \<noteq> []"

lemma js_string_Some: "js_string v = Some s \<longleftrightarrow> v = JStr s"
  by (cases v) auto

lemma nullish_str: "s \<noteq> [] \<Longrightarrow> js_nullish v (JStr []) = JStr s \<longleftrightarrow> v = JStr s"
  by (auto simp: js_nullish_def)

lemma checkProof_bound:
  assumes "checkProof json_parse (allowedProviders env) (\<not> env_is env ''RECLAIM_REQUIRE_CONTEXT_MATCH'' ''0'') wallet proof
       = Inr (Inr identifier)"
    and "wallet \<noteq> []" and empty: "json_parse [] = None"
  shows "proof_bound env json_parse wallet proof identifier"
proof -
  let ?ctx = "js_nullish (js_prop_opt (js_prop_opt proof ''claimData'') ''context'') (JStr [])"
  from assms(1) have ow: "js_prop_opt (js_prop_opt proof ''claimData'') ''owner'' = JStr wallet"
    and pr: "allowedProviders env \<noteq> [] \<longrightarrow> (\<exists>p \<in> set (allowedProviders env).
          js_lower_opt (js_prop_opt (js_prop_opt proof ''claimData'') ''provider'') = Inr p)"
    and cx: "env_is env ''RECLAIM_REQUIRE_CONTEXT_MATCH'' ''0'' \<or>
        (\<exists>c. js_string ?ctx = Some c \<and> contextMatchesWallet json_parse c wallet)"
    and "identifier \<noteq> []"
    using nullish_str[OF assms(2)]
    by (auto simp: checkProof_def Let_def js_simps split: if_splits option.splits)
  moreover have "js_prop_opt (js_prop_opt proof ''claimData'') ''context'' = JStr c"
    if "js_string ?ctx = Some c" "contextMatchesWallet json_parse c wallet" for c
  proof -
    have "c \<noteq> []" using that(2) empty by (auto simp: contextMatchesWallet_def parseContextWallet_def)
    then show ?thesis using that(1) nullish_str by (simp add: js_string_Some)
  qed
  ultimately show ?thesis unfolding proof_bound_def by blast
qed

lemma checkProofs_ok:
  "checkProofs check acc proofs = Inr (Inr ids) \<longleftrightarrow>
     (\<exists>new. ids = acc @ new \<and> list_all2 (\<lambda>p i. check p = Inr (Inr i)) proofs new)"
proof (induction proofs arbitrary: acc)
  case (Cons p proofs)
  show ?case
  proof (cases "check p")
    case (Inr r)
    then show ?thesis
      by (cases r) (auto simp: Cons.IH list_all2_Cons1)
  qed (auto simp: list_all2_Cons1)
qed auto

lemma verify_ok_iff:
  "verifyReclaimProofBundle env json_parse verifyProof claim st wallet atts = (st', Inr (Verification_ok ids)) \<longleftrightarrow>
     atts \<noteq> [] \<and> verifyProof atts = Some True \<and> \<not> (requireProviderAllowlist env \<and> allowedProviders env = [])
     \<and> list_all2 (\<lambda>p i. checkProof json_parse (allowedProviders env)
          (\<not> env_is env ''RECLAIM_REQUIRE_CONTEXT_MATCH'' ''0'') wallet p = Inr (Inr i)) atts ids
     \<and> claimAll claim st ids = (st', None)"
proof -
  have claims: "snd (claimAll claim st ids) \<noteq> Some (Verification_ok is)" for st ids "is"
    by (induction claim st ids rule: claimAll.induct) (auto split: prod.splits replay_claim_result.splits replay_reason.splits)
  have no: "claimAll claim st xs \<noteq> (s, Some (Verification_ok is))" for s xs "is"
    by (metis claims snd_conv)
  let ?ck = "checkProof json_parse (allowedProviders env) (\<not> env_is env ''RECLAIM_REQUIRE_CONTEXT_MATCH'' ''0'') wallet"
  have eq: "list_all2 (\<lambda>p i. ?ck p = Inr (Inr i)) atts ids \<longleftrightarrow> checkProofs ?ck [] atts = Inr (Inr ids)"
    using checkProofs_ok[of ?ck "[]" atts ids] by simp
  show ?thesis
    unfolding eq using no
    by (cases "checkProofs ?ck [] atts")
       (auto simp: verifyReclaimProofBundle_def Let_def split: sum.splits prod.splits option.splits)
qed

text \<open>
  C6. A bundle passes only when its signatures verify and every proof in it is bound to the requesting
  wallet: its owner, its context (unless the check is switched off) and its provider, which in
  production is one of a non-empty allowlist; and each proof's identifier has been claimed, in order.
\<close>

theorem verified_bundle_is_bound:
  assumes "verifyReclaimProofBundle env json_parse verifyProof claim st wallet attestations
      = (st', Inr (Verification_ok identifiers))"
    and "wallet \<noteq> []" "json_parse [] = None"
  shows "attestations \<noteq> [] \<and> verifyProof attestations = Some True
     \<and> list_all2 (proof_bound env json_parse wallet) attestations identifiers
     \<and> (env_is env ''NODE_ENV'' ''production'' \<longrightarrow> allowedProviders env \<noteq> [])
     \<and> claimAll claim st identifiers = (st', None)"
proof -
  from assms(1) have v: "attestations \<noteq> []" "verifyProof attestations = Some True"
    "env_is env ''NODE_ENV'' ''production'' \<longrightarrow> allowedProviders env \<noteq> []" "claimAll claim st identifiers = (st', None)"
    and l: "list_all2 (\<lambda>p i. checkProof json_parse (allowedProviders env)
        (\<not> env_is env ''RECLAIM_REQUIRE_CONTEXT_MATCH'' ''0'') wallet p = Inr (Inr i)) attestations identifiers"
    by (auto simp: verify_ok_iff requireProviderAllowlist_def)
  from l have "list_all2 (proof_bound env json_parse wallet) attestations identifiers"
    by (rule list_all2_mono) (rule checkProof_bound[where json_parse = json_parse], auto simp: assms)
  with v show ?thesis by blast
qed

definition sample_proof :: "string \<Rightarrow> jsval" where
  "sample_proof i = JObj [(''identifier'', JStr i), (''claimData'', JObj [(''provider'', JStr ''GitHub''),
     (''owner'', JStr ''W1''), (''context'', JStr ''ctx'')])]"

definition sample_json :: "string \<Rightarrow> jsval option" where
  "sample_json s = (if s = ''ctx'' then Some (JObj [(''walletAddress'', JStr '' W1'')]) else None)"

definition sample_env :: env where
  "sample_env name = (if name = ''RECLAIM_ALLOWED_PROVIDERS'' then Some ''github, twitter'' else
     if name = ''RECLAIM_REPLAY_REQUIRE_REDIS'' then Some ''false''
     else if name = ''NODE_ENV'' then Some ''production'' else None)"

abbreviation memory_claim :: "env \<Rightarrow> int \<Rightarrow> int \<Rightarrow> replay_store \<Rightarrow> string \<Rightarrow> replay_store \<times> replay_claim_result" where
  "memory_claim env now ttl \<equiv> claimProofIdentifierForReplayProtection env None now ttl"

theorem verified_bundle_is_bound_witness:
  "list_all2 (proof_bound sample_env sample_json ''W1'') [sample_proof ''a'', sample_proof '' b''] [''a'', ''b'']"
proof -
  let ?r = "verifyReclaimProofBundle sample_env sample_json (\<lambda>_. Some True) (memory_claim sample_env 5 300)
      [] ''W1'' [sample_proof ''a'', sample_proof '' b'']"
  have "snd ?r = Inr (Verification_ok [''a'', ''b''])" by code_simp
  then obtain st' where "?r = (st', Inr (Verification_ok [''a'', ''b'']))" by (cases ?r) simp
  from verified_bundle_is_bound [OF this] show ?thesis by (simp add: sample_json_def)
qed

subsection \<open>Replay across and within bundles\<close>

lemma memory_claim_ok:
  assumes "wf_store m" "memory_claim env now ttl m i = (m', Claim_ok)"
  shows "wf_store m'" "trim i \<noteq> []" "\<forall>x. map_get m (replay_key env i) = Some x \<longrightarrow> x \<le> now"
    "map_get m' (replay_key env i) = Some (now + ttl * 1000)"
    "k \<noteq> replay_key env i \<Longrightarrow> map_get m k = Some x \<Longrightarrow> now < x \<Longrightarrow> map_get m' k = Some x"
proof -
  from assms(2) have c: "claimInMemory now (replay_key env i) ttl m = (m', True)" and t: "trim i \<noteq> []"
    by (auto simp: claimProofIdentifierForReplayProtection_def Let_def split: if_splits prod.splits)
  show "trim i \<noteq> []" by (rule t)
  show "wf_store m'" using c assms(1) by (rule wf_claimInMemory[rotated])
  show "\<forall>x. map_get m (replay_key env i) = Some x \<longrightarrow> x \<le> now"
    "map_get m' (replay_key env i) = Some (now + ttl * 1000)"
    using claimInMemory_True[OF assms(1) c] by blast+
  show "map_get m' k = Some x" if "k \<noteq> replay_key env i" "map_get m k = Some x" "now < x"
    using claimInMemory_other[OF assms(1) c that(1)] that by auto
qed

text \<open>While a claim is live, no claim of any identifier, whatever its outcome, removes or repeats it.\<close>

lemma memory_claim_live:
  assumes "wf_store m" "memory_claim env now ttl m j = (m', r)"
    and "map_get m (replay_key env i) = Some x" "now < x"
  shows "wf_store m'" "map_get m' (replay_key env i) = Some x" "r = Claim_ok \<Longrightarrow> trim i \<noteq> trim j"
proof -
  show "r = Claim_ok \<Longrightarrow> trim i \<noteq> trim j"
    using memory_claim_ok(3)[OF assms(1)] assms(2,3,4) by fastforce
  consider "m' = m" | c where "claimInMemory now (replay_key env j) ttl m = (m', c)"
    using assms(2) by (auto simp: claimProofIdentifierForReplayProtection_def Let_def split: if_splits prod.splits)
  then have "wf_store m' \<and> map_get m' (replay_key env i) = Some x"
  proof cases
    case (2 c)
    show ?thesis
    proof (cases "replay_key env i = replay_key env j")
      case True
      with 2 assms claimInMemory_True have "\<not> c" by fastforce
      with 2 True assms claimInMemory_False wf_claimInMemory show ?thesis by fastforce
    next
      case False
      from claimInMemory_other[OF assms(1) 2 False] wf_claimInMemory[OF assms(1) 2] assms(3,4)
      show ?thesis by auto
    qed
  qed (use assms in simp)
  then show "wf_store m'" "map_get m' (replay_key env i) = Some x" by blast+
qed

lemma claimAll_live:
  assumes "wf_store m" "claimAll (memory_claim env now ttl) m ids = (m', r)"
    and "map_get m (replay_key env i) = Some x" "now < x"
  shows "wf_store m' \<and> map_get m' (replay_key env i) = Some x \<and> (r = None \<longrightarrow> trim i \<notin> trim ` set ids)"
  using assms
proof (induction ids arbitrary: m)
  case (Cons j ids)
  obtain m1 c where c: "memory_claim env now ttl m j = (m1, c)" by fastforce
  note k = memory_claim_live[OF Cons.prems(1) c Cons.prems(3,4)]
  show ?case
  proof (cases c)
    case Claim_ok
    with Cons.prems(2) c have "claimAll (memory_claim env now ttl) m1 ids = (m', r)" by simp
    from Cons.IH[OF k(1) this k(2) Cons.prems(4)] k(3)[OF Claim_ok] show ?thesis by auto
  next
    case (Claim_failed e)
    with Cons.prems(2) c k(1,2) show ?thesis by (cases e) auto
  qed
qed simp

lemma claimAll_claims:
  assumes "wf_store m" "claimAll (memory_claim env now ttl) m ids = (m', None)" "0 < ttl"
  shows "wf_store m' \<and> distinct (map trim ids) \<and> (\<forall>i \<in> set ids. map_get m' (replay_key env i) = Some (now + ttl * 1000))"
  using assms
proof (induction ids arbitrary: m)
  case (Cons j ids)
  from Cons.prems(2) obtain m1 where c: "memory_claim env now ttl m j = (m1, Claim_ok)"
    and r: "claimAll (memory_claim env now ttl) m1 ids = (m', None)"
    by (auto split: prod.splits replay_claim_result.splits replay_reason.splits)
  note k = memory_claim_ok[OF Cons.prems(1) c]
  have "now < now + ttl * 1000" using Cons.prems(3) by simp
  from claimAll_live[OF k(1) r k(4) this] Cons.IH[OF k(1) r Cons.prems(3)] show ?case by auto
qed simp

lemma claimAll_wf:
  "wf_store m \<Longrightarrow> claimAll (memory_claim env now ttl) m ids = (m', r) \<Longrightarrow> wf_store m'"
proof (induction ids arbitrary: m)
  case (Cons j ids)
  obtain m1 c where c: "memory_claim env now ttl m j = (m1, c)" by fastforce
  then have "wf_store m1"
    using Cons.prems(1) wf_claimInMemory
    by (auto simp: claimProofIdentifierForReplayProtection_def Let_def split: if_splits prod.splits)
  with Cons c show ?case by (auto split: replay_claim_result.splits replay_reason.splits)
qed simp

text \<open>
  The verifications one oracle process runs, one after the other, with the replay store between them:
  each with its time, what the Reclaim SDK answers, the wallet and the bundle; the outcomes in order.
\<close>

record bundle_call =
  bc_now :: int
  bc_verify :: "jsval list \<Rightarrow> bool option"
  bc_wallet :: string
  bc_atts :: "jsval list"

fun run_bundles :: "env \<Rightarrow> (string \<Rightarrow> jsval option) \<Rightarrow> int \<Rightarrow> replay_store \<Rightarrow> bundle_call list \<Rightarrow>
    verification result list" where
  "run_bundles env json_parse ttl m [] = []"
| "run_bundles env json_parse ttl m (c # cs) =
     (case verifyReclaimProofBundle env json_parse (bc_verify c) (memory_claim env (bc_now c) ttl) m
         (bc_wallet c) (bc_atts c) of
        (m', r) \<Rightarrow> r # run_bundles env json_parse ttl m' cs)"

lemma verify_store:
  assumes "verifyReclaimProofBundle env json_parse verifyProof claim m wallet atts = (m', r)"
  obtains (case1) "m' = m" "\<nexists>ids. r = Inr (Verification_ok ids)"
  | (case2) ids v where "claimAll claim m ids = (m', v)" "r = Inr (case v of None \<Rightarrow> Verification_ok ids | Some f \<Rightarrow> f)"
      "\<nexists>ids. v = Some (Verification_ok ids)"
proof -
  have claims: "snd (claimAll claim st ids) \<noteq> Some (Verification_ok is)" for st ids "is"
    by (induction claim st ids rule: claimAll.induct) (auto split: prod.splits replay_claim_result.splits replay_reason.splits)
  have no: "claimAll claim m xs \<noteq> (s, Some (Verification_ok is))" for s xs "is"
    by (metis claims snd_conv)
  have end_of: thesis if "claimAll claim m ids = (m', v)" "r = Inr (case v of None \<Rightarrow> Verification_ok ids | Some f \<Rightarrow> f)" for ids v
    using that no by (intro case2) auto
  from assms case1 end_of[of _ None] end_of[of _ "Some f" for f] show thesis
    by (auto simp: verifyReclaimProofBundle_def Let_def split: if_splits sum.splits prod.splits option.splits)
qed

lemma verify_wf:
  "wf_store m \<Longrightarrow> verifyReclaimProofBundle env json_parse verifyProof (memory_claim env now ttl) m wallet atts = (m', r) \<Longrightarrow>
   wf_store m'"
  by (erule verify_store) (auto dest: claimAll_wf)

lemma verify_live:
  assumes "wf_store m" "map_get m (replay_key env i) = Some x" "now < x"
    and "verifyReclaimProofBundle env json_parse verifyProof (memory_claim env now ttl) m wallet atts = (m', r)"
  shows "map_get m' (replay_key env i) = Some x \<and> (\<forall>ids. r = Inr (Verification_ok ids) \<longrightarrow> trim i \<notin> trim ` set ids)"
  using assms(4)
proof (cases rule: verify_store)
  case (case2 ids v)
  from claimAll_live[OF assms(1) case2(1) assms(2,3)] case2(2,3) show ?thesis by (auto split: option.splits)
qed (use assms in auto)

lemma run_bundles_live:
  assumes "wf_store m" "map_get m (replay_key env i) = Some x" "\<forall>c \<in> set (take (Suc n) cs). bc_now c < x" "n < length cs"
    and "run_bundles env json_parse ttl m cs ! n = Inr (Verification_ok ids)"
  shows "trim i \<notin> trim ` set ids"
  using assms
proof (induction cs arbitrary: m n)
  case (Cons c cs)
  obtain m' r where v: "verifyReclaimProofBundle env json_parse (bc_verify c) (memory_claim env (bc_now c) ttl) m
      (bc_wallet c) (bc_atts c) = (m', r)" by fastforce
  have "bc_now c < x" using Cons.prems(3) by simp
  note live = verify_live[OF Cons.prems(1,2) this v]
  show ?case
  proof (cases n)
    case 0
    with live Cons.prems(5) v show ?thesis by simp
  next
    case (Suc n')
    with Cons.prems v show ?thesis
      using Cons.IH[OF verify_wf[OF Cons.prems(1) v], of n'] live by simp
  qed
qed simp

text \<open>
  C7. One proof, one use, for an oracle without Redis: of all the bundles an oracle process verifies, in
  the order of their times and whatever happens to the others (failed signatures, early refusals,
  replays that stop half way), a passed bundle has distinct identifiers, and until their time to live is
  over no later bundle of any wallet that shares an identifier with it passes, however it is mixed.
\<close>

theorem verified_bundle_cannot_be_replayed:
  assumes "sorted (map bc_now calls)" "0 < ttl" "i < j" "j < length calls"
    and "run_bundles env json_parse ttl [] calls ! i = Inr (Verification_ok ids)"
    and "run_bundles env json_parse ttl [] calls ! j = Inr (Verification_ok ids')"
    and "bc_now (calls ! j) < bc_now (calls ! i) + ttl * 1000"
  shows "distinct (map trim ids) \<and> trim ` set ids \<inter> trim ` set ids' = {}"
proof -
  have "distinct (map trim ids) \<and> trim ` set ids \<inter> trim ` set ids' = {}"
    if "wf_store m" "run_bundles env json_parse ttl m calls ! i = Inr (Verification_ok ids)"
      "run_bundles env json_parse ttl m calls ! j = Inr (Verification_ok ids')" for m
    using that assms(1,3,4,7)
  proof (induction calls arbitrary: m i j)
    case (Cons c cs)
    obtain m' r where v: "verifyReclaimProofBundle env json_parse (bc_verify c) (memory_claim env (bc_now c) ttl) m
        (bc_wallet c) (bc_atts c) = (m', r)" by fastforce
    note wf = verify_wf[OF Cons.prems(1) v]
    obtain j' where j: "j = Suc j'" using Cons.prems(5) by (cases j) auto
    show ?case
    proof (cases i)
      case (Suc i')
      show ?thesis using Cons.IH[OF wf, of i' j'] Cons.prems v j Suc by simp
    next
      case 0
      with v Cons.prems(2) have "claimAll (memory_claim env (bc_now c) ttl) m ids = (m', None)"
        by (auto simp: verify_ok_iff)
      note one = claimAll_claims[OF Cons.prems(1) this assms(2)]
      have before: "\<forall>c' \<in> set (take (Suc j') cs). bc_now c' < bc_now c + ttl * 1000"
      proof
        fix c' assume "c' \<in> set (take (Suc j') cs)"
        then obtain k where "k \<le> j'" "k < length cs" "c' = cs ! k" by (auto simp: in_set_conv_nth less_Suc_eq_le)
        with Cons.prems(4,6,7) j 0 sorted_nth_mono[of "map bc_now cs" k j'] show "bc_now c' < bc_now c + ttl * 1000"
          by simp
      qed
      have "trim k \<notin> trim ` set ids'" if "k \<in> set ids" for k
        by (rule run_bundles_live[OF wf _ before]) (use one that v j Cons.prems(3,6) in auto)
      with one show ?thesis by auto
    qed
  qed simp
  from this[of "[]"] assms(5,6) show ?thesis by (simp add: wf_store_def)
qed

theorem verified_bundle_cannot_be_replayed_witness:
  "run_bundles sample_env sample_json 300 []
     [\<lparr>bc_now = 5, bc_verify = \<lambda>_. Some True, bc_wallet = ''W1'', bc_atts = [sample_proof ''a'']\<rparr>,
      \<lparr>bc_now = 6, bc_verify = \<lambda>_. None, bc_wallet = ''W1'', bc_atts = [sample_proof ''a'']\<rparr>,
      \<lparr>bc_now = 7, bc_verify = \<lambda>_. Some True, bc_wallet = ''W1'', bc_atts = [sample_proof ''c'', sample_proof '' a'']\<rparr>,
      \<lparr>bc_now = 8, bc_verify = \<lambda>_. Some True, bc_wallet = ''W1'', bc_atts = [sample_proof ''b'']\<rparr>]
    = [Inr (Verification_ok [''a'']), Inr (Verification_failed 400 Proof_signature_verification_failed),
       Inr (Verification_failed 409 Proof_replay_detected), Inr (Verification_ok [''b''])]
   \<and> trim ` set [''a''] \<inter> trim ` set [''b''] = {}"
proof -
  let ?cs = "[\<lparr>bc_now = 5, bc_verify = \<lambda>_. Some True, bc_wallet = ''W1'', bc_atts = [sample_proof ''a'']\<rparr>,
      \<lparr>bc_now = 6, bc_verify = \<lambda>_. None, bc_wallet = ''W1'', bc_atts = [sample_proof ''a'']\<rparr>,
      \<lparr>bc_now = 7, bc_verify = \<lambda>_. Some True, bc_wallet = ''W1'', bc_atts = [sample_proof ''c'', sample_proof '' a'']\<rparr>,
      \<lparr>bc_now = 8, bc_verify = \<lambda>_. Some True, bc_wallet = ''W1'', bc_atts = [sample_proof ''b'']\<rparr>]"
  have r: "run_bundles sample_env sample_json 300 [] ?cs
    = [Inr (Verification_ok [''a'']), Inr (Verification_failed 400 Proof_signature_verification_failed),
       Inr (Verification_failed 409 Proof_replay_detected), Inr (Verification_ok [''b''])]" by code_simp
  show ?thesis
    using verified_bundle_cannot_be_replayed [of ?cs 300 0 3 sample_env sample_json "[''a'']" "[''b'']"] r by simp
qed

end
