(* ===== verification/Oracle_Key.thy ===== *)
theory Oracle_Key
  imports Guards
begin

section \<open>The oracle's key (services/shield-oracle/src/oracle.ts)\<close>

text \<open>
  The module variable \<open>ORACLE\<close> is loaded on first use from the environment or from a file, and
  generated only where no static key is required. \<open>parse_key\<close> is \<open>JSON.parse\<close> followed by
  \<open>Keypair.fromSecretKey\<close> (\<open>None\<close> where either throws), \<open>read_file\<close> reads a file (\<open>None\<close> where that
  throws), \<open>fresh\<close> is the key \<open>Keypair.generate\<close> would return.
\<close>

definition requireStaticKey :: "env \<Rightarrow> bool" where
  "requireStaticKey env \<longleftrightarrow> env_is env ''ORACLE_REQUIRE_STATIC_KEY'' ''1''
     \<or> (env_is env ''NODE_ENV'' ''production'' \<and> \<not> env_is env ''ORACLE_ALLOW_EPHEMERAL_IN_PRODUCTION'' ''1'')"

definition loadOracleKeypairFromEnv :: "env \<Rightarrow> (string \<Rightarrow> 'k option) \<Rightarrow> 'k option" where
  "loadOracleKeypairFromEnv env parse_key =
     (let envKey = env_or env ''ORACLE_PRIVATE_KEY'' [] in if envKey = [] then None else parse_key envKey)"

definition loadOracleKeypairFromPath :: "env \<Rightarrow> (string \<Rightarrow> string option) \<Rightarrow> (string \<Rightarrow> 'k option) \<Rightarrow> 'k option" where
  "loadOracleKeypairFromPath env read_file parse_key =
     (let keyPath = env_or env ''ORACLE_KEYPAIR_PATH'' [] in
      if keyPath = [] then None else Option.bind (read_file keyPath) parse_key)"

definition loadedKey :: "env \<Rightarrow> (string \<Rightarrow> string option) \<Rightarrow> (string \<Rightarrow> 'k option) \<Rightarrow> 'k option" where
  "loadedKey env read_file parse_key =
     (case loadOracleKeypairFromEnv env parse_key of
        Some k \<Rightarrow> Some k | None \<Rightarrow> loadOracleKeypairFromPath env read_file parse_key)"

definition oracleKeypair ::
  "env \<Rightarrow> (string \<Rightarrow> string option) \<Rightarrow> (string \<Rightarrow> 'k option) \<Rightarrow> 'k \<Rightarrow> 'k option \<Rightarrow> 'k option \<times> 'k result" where
  "oracleKeypair env read_file parse_key fresh oracle =
     (case oracle of
        Some k \<Rightarrow> (oracle, Inr k)
      | None \<Rightarrow>
          (case loadedKey env read_file parse_key of
             Some k \<Rightarrow> (Some k, Inr k)
           | None \<Rightarrow>
               if requireStaticKey env then (None, Inl (Thrown ''Static Oracle key required: set ORACLE_PRIVATE_KEY or ORACLE_KEYPAIR_PATH (or ORACLE_ALLOW_EPHEMERAL_IN_PRODUCTION=1 only for non-production fallback).''))
               else (Some fresh, Inr fresh)))"

lemma oracleKeypair_keeps: "oracleKeypair env rf pk fresh oracle = (oracle', Inr k) \<Longrightarrow> oracle' = Some k"
  by (auto simp: oracleKeypair_def split: option.splits if_splits)

lemma oracleKeypair_stable: "oracleKeypair env rf pk fresh (Some k) = (Some k, Inr k)"
  by (simp add: oracleKeypair_def)

text \<open>
  Where a static key is required, a fresh process signs with the key of the environment or, when that
  is missing or malformed, of the file, and refuses when neither can be read; once it has a key it keeps it,
  whatever the environment says later.
\<close>

theorem static_key_or_refusal:
  assumes "requireStaticKey env"
  shows "(case oracleKeypair env read_file parse_key fresh None of
       (oracle', Inr k) \<Rightarrow> oracle' = Some k \<and> loadedKey env read_file parse_key = Some k
         \<and> (\<forall>env' rf pk fr. oracleKeypair env' rf pk fr oracle' = (oracle', Inr k))
     | (oracle', Inl e) \<Rightarrow> oracle' = None \<and> loadedKey env read_file parse_key = None \<and> (\<exists>m. e = Thrown m))"
  using assms by (auto simp: oracleKeypair_def split: option.splits)

theorem static_key_or_refusal_witness:
  "loadedKey (\<lambda>n. if n = ''NODE_ENV'' then Some ''production'' else if n = ''ORACLE_KEYPAIR_PATH'' then Some ''id'' else None)
     (\<lambda>p. Some ''7'') (\<lambda>s. Some (length s)) = Some 1
   \<and> fst (oracleKeypair (\<lambda>n. if n = ''NODE_ENV'' then Some ''production'' else if n = ''ORACLE_KEYPAIR_PATH'' then Some ''id'' else None)
     (\<lambda>p. Some ''7'') (\<lambda>s. Some (length s)) 99 None) = Some 1"
proof -
  let ?env = "\<lambda>n. if n = ''NODE_ENV'' then Some ''production'' else if n = ''ORACLE_KEYPAIR_PATH'' then Some ''id'' else None"
  have r: "requireStaticKey ?env" by (simp add: requireStaticKey_def env_is_def)
  have l: "loadedKey ?env (\<lambda>p. Some ''7'') (\<lambda>s. Some (length s)) = Some 1"
    by (simp add: loadedKey_def loadOracleKeypairFromEnv_def loadOracleKeypairFromPath_def env_or_def)
  from static_key_or_refusal [OF r, of "\<lambda>p. Some ''7''" "\<lambda>s. Some (length s)" 99] l
  show ?thesis by (auto split: prod.splits sum.splits)
qed

end
