(* ===== verification/Shield_Handler.thy ===== *)
theory Shield_Handler
  imports Shield_Payload Reclaim_Verify Oracle_Key
begin

section \<open>Issuing a signed score (services/shield-oracle/src/handler.ts)\<close>

text \<open>
  \<open>handleShieldScoreRequest\<close>: the body is arbitrary JSON, its checks run in the order of the code, and
  what it changes (the one-time map \<open>seenProofByUniq\<close>, the oracle key, the state of the verification)
  is passed along every path, thrown errors included. The clock readings, the random number and the
  cryptography are parameters in \<open>oracle_services\<close>; nothing is assumed of them in the definitions. The
  one-time map is an instance of \<open>one_time_guard\<close>.
\<close>

subsection \<open>Data\<close>

record ('k, 'v) oracle_state =
  seenProofByUniq :: "(string, int) jsmap"
  oracle_key :: "'k option"
  verify_state :: 'v

record ('k, 'v) oracle_services =
  sv_pubkey :: "jsval \<Rightarrow> (string \<times> bytes) result"
  sv_json_parse :: "string \<Rightarrow> jsval option"
  sv_json_stringify :: "jsval \<Rightarrow> string"
  sv_sha256 :: "string \<Rightarrow> bytes"
  sv_keccak :: "bytes \<Rightarrow> bytes"
  sv_verify :: "'v \<Rightarrow> string \<Rightarrow> jsval list \<Rightarrow> 'v \<times> verification result"
  sv_keypair :: "'k option \<Rightarrow> 'k option \<times> 'k result"
  sv_sign :: "bytes \<Rightarrow> 'k \<Rightarrow> bytes"
  sv_key_base58 :: "'k \<Rightarrow> string"
  sv_model_hash :: bytes

text \<open>The readings one request takes: \<open>Date.now()\<close> twice and \<open>Math.random()\<close>.\<close>

record readings =
  rd_now1 :: int
  rd_now2 :: int
  rd_random :: rat

record payload_view =
  pv_policy_version :: jsval
  pv_user_pubkey :: string
  pv_initial_price :: string
  pv_sales_velocity_bps :: string
  pv_time_elapsed :: string
  pv_dignity_score :: int
  pv_adapter_mask :: int
  pv_user_mode :: int
  pv_zk_provider :: jsval
  pv_zk_proof_hash_hex :: string
  pv_scoring_model_hash_hex :: string
  pv_attestation_expiry :: string
  pv_nonce :: string

record issued_score =
  is_dignity_score :: int
  is_adapter_breakdown :: adapter_breakdown
  is_payload :: payload_view
  is_payload_hex :: string
  is_oracle_signature :: bytes
  is_oracle_signature_hex :: string
  is_oracle_pubkey :: string
  is_uniq_key :: string
  is_scoring_model_hash_hex :: string

datatype shield_body = Failed string string "string option" | Issued issued_score | Internal_error js_error

record shield_result =
  sr_status :: int
  sr_body :: shield_body

subsection \<open>Steps of the handler\<close>

definition fail :: "int \<Rightarrow> string \<Rightarrow> string \<Rightarrow> string option \<Rightarrow> shield_result" where
  "fail status reason err details = \<lparr>sr_status = status, sr_body = Failed reason err details\<rparr>"

definition cleanupSeen :: "int \<Rightarrow> (string, int) jsmap \<Rightarrow> (string, int) jsmap" where
  "cleanupSeen now m = filter (\<lambda>(k, expiry). \<not> expiry \<le> now) m"

definition parse_mode :: "jsval \<Rightarrow> user_mode option" where
  "parse_mode v = (if v = JStr ''bot_suspected'' then Some Bot_suspected
     else if v = JStr ''guest'' then Some Guest
     else if v = JStr ''verified'' then Some Verified else None)"

fun reason_text :: "verification_reason \<Rightarrow> string" where
  "reason_text No_attestations = ''no_attestations''"
| "reason_text Proof_signature_verification_failed = ''proof_signature_verification_failed''"
| "reason_text Provider_allowlist_required = ''provider_allowlist_required''"
| "reason_text Provider_not_allowlisted = ''provider_not_allowlisted''"
| "reason_text Owner_wallet_mismatch = ''owner_wallet_mismatch''"
| "reason_text Context_wallet_mismatch = ''context_wallet_mismatch''"
| "reason_text Proof_identifier_missing = ''proof_identifier_missing''"
| "reason_text Proof_replay_detected = ''proof_replay_detected''"
| "reason_text Replay_backend_unavailable = ''replay_backend_unavailable''"

text \<open>
  The ownership check on a value that need not be an array: its length is compared with 0 first.
\<close>

definition ownership_of :: "(string \<Rightarrow> jsval option) \<Rightarrow> jsval \<Rightarrow> string \<Rightarrow> ownership result" where
  "ownership_of json_parse attestations wallet =
     (if js_own attestations ''length'' = Some (JNum (Fin 0))
      then Inr (Not_owned ''no attestations provided'')
      else rbind (js_iter attestations) (\<lambda>atts. validateAttestationWalletOwnership json_parse atts wallet))"

text \<open>The checks of the mode \<open>verified\<close>: \<open>Some\<close> the response when one fails.\<close>

definition verifiedChecks ::
  "('k, 'v) oracle_services \<Rightarrow> 'v \<Rightarrow> jsval \<Rightarrow> string \<Rightarrow> 'v \<times> shield_result option result" where
  "verifiedChecks sv v attestations wallet =
     (case ownership_of (sv_json_parse sv) attestations wallet of
        Inl e \<Rightarrow> (v, Inl e)
      | Inr (Not_owned reason) \<Rightarrow>
          (v, Inr (Some (fail 400 ''invalid_attestation_ownership'' ''Invalid attestation ownership'' (Some reason))))
      | Inr Owned \<Rightarrow>
          (case js_iter attestations of
             Inl e \<Rightarrow> (v, Inl e)
           | Inr atts \<Rightarrow>
               (case sv_verify sv v wallet atts of
                  (v', Inl e) \<Rightarrow> (v', Inl e)
                | (v', Inr (Verification_ok _)) \<Rightarrow> (v', Inr None)
                | (v', Inr (Verification_failed status reason)) \<Rightarrow>
                    (v', Inr (Some (fail status (reason_text reason)
                       (if status = 503 then ''Reclaim verification backend unavailable''
                        else ''Reclaim verification rejected'') None))))))"

text \<open>
  \<open>body.proof_hash_hex && /^[0-9a-fA-F]{64}$/.test(body.proof_hash_hex)\<close>: the test reads the text of its
  argument, so a one-element array around such a string passes it, and then has no \<open>toLowerCase\<close>; an
  object with a \<open>toString\<close> of its own, which no JSON makes a function, has no text, and no array with such
  an element has one. Numbers, booleans, other objects and longer arrays have texts of another form.
\<close>

lemma rmap_list_cong [fundef_cong]:
  "xs = ys \<Longrightarrow> (\<And>x. x \<in> set ys \<Longrightarrow> f x = g x) \<Longrightarrow> rmap_list f xs = rmap_list g ys"
  by (induction ys arbitrary: xs) auto

fun hash_text :: "jsval \<Rightarrow> string result" where
  "hash_text (JStr s) = Inr s"
| "hash_text (JArr xs) = rbind (rmap_list hash_text xs) (\<lambda>ts. Inr (case ts of [t] \<Rightarrow> t | _ \<Rightarrow> []))"
| "hash_text (JObj ps) = (if map_of ps ''toString'' = None then Inr [] else Inl TypeError)"
| "hash_text _ = Inr []"

definition proofHashOf :: "('k, 'v) oracle_services \<Rightarrow> jsval \<Rightarrow> jsval \<Rightarrow> bytes result" where
  "proofHashOf sv body attestations =
     (let h = js_prop_opt body ''proof_hash_hex'' in
      rbind (hash_text h) (\<lambda>t.
      if length t = 64 \<and> list_all (digit_in 16) t then rbind (js_lower h) (\<lambda>s. Inr (buffer_from_hex s))
      else Inr (hashAttestations (sv_sha256 sv) (sv_json_stringify sv) attestations)))"

definition bigint_or :: "jsval \<Rightarrow> int \<Rightarrow> int result" where
  "bigint_or v d = (if v \<in> {JUndef, JNull} then Inr d else js_bigint v)"

definition buildPayload ::
  "('k, 'v) oracle_services \<Rightarrow> readings \<Rightarrow> jsval \<Rightarrow> user_mode \<Rightarrow> bytes \<Rightarrow> adapter_breakdown \<Rightarrow> bytes \<Rightarrow> payload_raw result" where
  "buildPayload sv r body mode user dignity zkProofHash =
     rbind (bigint_or (js_prop_opt body ''initial_price'') DEFAULT_INITIAL_PRICE) (\<lambda>price.
     rbind (bigint_or (js_prop_opt body ''sales_velocity_bps'') DEFAULT_SALES_VELOCITY_BPS) (\<lambda>velocity.
     rbind (bigint_or (js_prop_opt body ''time_elapsed'') DEFAULT_TIME_ELAPSED) (\<lambda>elapsed.
       Inr \<lparr>policy_version = js_to_int (js_nullish (js_prop_opt body ''policy_version'') (JNum (Fin (of_int DEFAULT_POLICY_VERSION)))),
          user_pubkey = user, initial_price = price, sales_velocity_bps = velocity, time_elapsed = elapsed,
          dignity_score = totalScore dignity, adapter_mask = adapterMask dignity, user_mode = modeToCode mode,
          zk_provider = js_to_int (js_nullish (js_prop_opt body ''zk_provider'') (JNum (Fin (of_int DEFAULT_ZK_PROVIDER)))),
          zk_proof_hash = zkProofHash, scoring_model_hash = sv_model_hash sv,
          attestation_expiry = rd_now1 r div 1000 + PROOF_TTL_SECONDS,
          nonce = rd_now2 r * 1000 + \<lfloor>fl (rd_random r * 1000)\<rfloor>\<rparr>)))"

definition viewPayload :: "jsval \<Rightarrow> string \<Rightarrow> payload_raw \<Rightarrow> payload_view" where
  "viewPayload body wallet p =
     \<lparr>pv_policy_version = js_nullish (js_prop_opt body ''policy_version'') (JNum (Fin (of_int DEFAULT_POLICY_VERSION))),
      pv_user_pubkey = wallet, pv_initial_price = show_int (initial_price p),
      pv_sales_velocity_bps = show_int (sales_velocity_bps p), pv_time_elapsed = show_int (time_elapsed p),
      pv_dignity_score = dignity_score p, pv_adapter_mask = adapter_mask p, pv_user_mode = user_mode p,
      pv_zk_provider = js_nullish (js_prop_opt body ''zk_provider'') (JNum (Fin (of_int DEFAULT_ZK_PROVIDER))),
      pv_zk_proof_hash_hex = to_hex (zk_proof_hash p), pv_scoring_model_hash_hex = to_hex (scoring_model_hash p),
      pv_attestation_expiry = show_int (attestation_expiry p), pv_nonce = show_int (nonce p)\<rparr>"

text \<open>\<open>mode === 'verified' && existing && existing > now\<close>\<close>

definition proof_reused :: "user_mode \<Rightarrow> int \<Rightarrow> int option \<Rightarrow> bool" where
  "proof_reused mode now existing \<longleftrightarrow>
     mode = Verified \<and> (case existing of None \<Rightarrow> False | Some x \<Rightarrow> x \<noteq> 0 \<and> now < x)"

text \<open>The last stage: the key, the signature, the one-time mark and the response.\<close>

definition signScore ::
  "('k, 'v) oracle_services \<Rightarrow> ('k, 'v) oracle_state \<Rightarrow> jsval \<Rightarrow> user_mode \<Rightarrow> string \<Rightarrow> adapter_breakdown \<Rightarrow>
   payload_raw \<Rightarrow> bytes \<Rightarrow> string \<Rightarrow> ('k, 'v) oracle_state \<times> shield_result result" where
  "signScore sv st body mode wallet dignity payload payloadBytes uniq =
     (case sv_keypair sv (oracle_key st) of
        (key', Inl e) \<Rightarrow> (st\<lparr>oracle_key := key'\<rparr>, Inl e)
      | (key', Inr oracle) \<Rightarrow>
        let signature = sv_sign sv payloadBytes oracle;
            seen' = (if mode = Verified
                     then map_set uniq (attestation_expiry payload) (seenProofByUniq st)
                     else seenProofByUniq st) in
        (st\<lparr>oracle_key := key', seenProofByUniq := seen'\<rparr>,
         Inr \<lparr>sr_status = 200, sr_body = Issued
           \<lparr>is_dignity_score = totalScore dignity, is_adapter_breakdown = dignity,
            is_payload = viewPayload body wallet payload, is_payload_hex = to_hex payloadBytes,
            is_oracle_signature = signature, is_oracle_signature_hex = to_hex signature,
            is_oracle_pubkey = sv_key_base58 sv oracle, is_uniq_key = uniq,
            is_scoring_model_hash_hex = to_hex (sv_model_hash sv)\<rparr>\<rparr>))"

text \<open>From the clock reading on: score, one-time check, payload, signature, response.\<close>

definition issueScore ::
  "('k, 'v) oracle_services \<Rightarrow> readings \<Rightarrow> ('k, 'v) oracle_state \<Rightarrow> jsval \<Rightarrow> user_mode \<Rightarrow> string \<Rightarrow> bytes \<Rightarrow> jsval \<Rightarrow>
   ('k, 'v) oracle_state \<times> shield_result result" where
  "issueScore sv r st0 body mode wallet user attestations =
     (let now = rd_now1 r div 1000;
          st = st0\<lparr>seenProofByUniq := cleanupSeen now (seenProofByUniq st0)\<rparr> in
      case rbind (js_iter attestations) (\<lambda>atts. computeDignityScoreForMode atts mode) of
        Inl e \<Rightarrow> (st, Inl e)
      | Inr dignity \<Rightarrow>
        (case proofHashOf sv body attestations of
           Inl e \<Rightarrow> (st, Inl e)
         | Inr zkProofHash \<Rightarrow>
           let uniq = computeUniqKey (sv_keccak sv) zkProofHash user in
           if proof_reused mode now (map_get (seenProofByUniq st) uniq)
           then (st, Inr (fail 409 ''proof_reused_in_active_window'' ''Proof already used in active window'' None))
           else
             (case buildPayload sv r body mode user dignity zkProofHash of
                Inl e \<Rightarrow> (st, Inl e)
              | Inr payload \<Rightarrow>
                (case serializeShieldPayloadV0 payload of
                   Inl e \<Rightarrow> (st, Inl e)
                 | Inr payloadBytes \<Rightarrow> signScore sv st body mode wallet dignity payload payloadBytes uniq))))"

definition shieldScoreBody ::
  "('k, 'v) oracle_services \<Rightarrow> readings \<Rightarrow> ('k, 'v) oracle_state \<Rightarrow> jsval \<Rightarrow> ('k, 'v) oracle_state \<times> shield_result result" where
  "shieldScoreBody sv r st body =
     (case js_prop body ''wallet'' of
        Inl e \<Rightarrow> (st, Inl e)
      | Inr wallet \<Rightarrow>
        if \<not> js_truthy wallet then (st, Inr (fail 400 ''missing_wallet'' ''Missing wallet'' None))
        else
          (case parse_mode (js_nullish (js_prop_opt body ''mode'') (JStr ''verified'')) of
             None \<Rightarrow> (st, Inr (fail 400 ''invalid_mode'' ''Invalid mode'' None))
           | Some mode \<Rightarrow>
             (case sv_pubkey sv wallet of
                Inl e \<Rightarrow> (st, Inl e)
              | Inr (base58, user) \<Rightarrow>
                let attestations = js_nullish (js_prop_opt body ''reclaim_attestations'') (JArr []) in
                (case (if mode = Verified then verifiedChecks sv (verify_state st) attestations base58
                       else (verify_state st, Inr None)) of
                   (v', Inl e) \<Rightarrow> (st\<lparr>verify_state := v'\<rparr>, Inl e)
                 | (v', Inr (Some failure)) \<Rightarrow> (st\<lparr>verify_state := v'\<rparr>, Inr failure)
                 | (v', Inr None) \<Rightarrow>
                     issueScore sv r (st\<lparr>verify_state := v'\<rparr>) body mode base58 user attestations))))"

definition handleShieldScoreRequest ::
  "('k, 'v) oracle_services \<Rightarrow> readings \<Rightarrow> ('k, 'v) oracle_state \<Rightarrow> jsval \<Rightarrow> ('k, 'v) oracle_state \<times> shield_result" where
  "handleShieldScoreRequest sv r st body =
     (case shieldScoreBody sv r st body of
        (st', Inr response) \<Rightarrow> (st', response)
      | (st', Inl e) \<Rightarrow> (st', \<lparr>sr_status = 500, sr_body = Internal_error e\<rparr>))"

subsection \<open>The path to a signature\<close>

definition now_secs :: "readings \<Rightarrow> int" where
  "now_secs r = rd_now1 r div 1000"

text \<open>Everything that has held when a score is issued.\<close>

record 'k issue_trace =
  it_dignity :: adapter_breakdown
  it_payload :: payload_raw
  it_bytes :: bytes
  it_oracle :: 'k

definition issue_facts ::
  "('k, 'v) oracle_services \<Rightarrow> readings \<Rightarrow> ('k, 'v) oracle_state \<Rightarrow> jsval \<Rightarrow> user_mode \<Rightarrow> string \<Rightarrow> bytes \<Rightarrow> jsval \<Rightarrow>
   ('k, 'v) oracle_state \<Rightarrow> issued_score \<Rightarrow> 'k issue_trace \<Rightarrow> bool" where
  "issue_facts sv r st0 body mode wallet user attestations st' i t \<longleftrightarrow>
     (let seen = cleanupSeen (now_secs r) (seenProofByUniq st0); p = it_payload t in
      rbind (js_iter attestations) (\<lambda>atts. computeDignityScoreForMode atts mode) = Inr (it_dignity t)
      \<and> proofHashOf sv body attestations = Inr (zk_proof_hash p)
      \<and> buildPayload sv r body mode user (it_dignity t) (zk_proof_hash p) = Inr p
      \<and> serializeShieldPayloadV0 p = Inr (it_bytes t)
      \<and> sv_keypair sv (oracle_key st0) = (oracle_key st', Inr (it_oracle t))
      \<and> is_uniq_key i = computeUniqKey (sv_keccak sv) (zk_proof_hash p) user
      \<and> \<not> proof_reused mode (now_secs r) (map_get seen (is_uniq_key i))
      \<and> seenProofByUniq st' = (if mode = Verified then map_set (is_uniq_key i) (attestation_expiry p) seen else seen)
      \<and> verify_state st' = verify_state st0
      \<and> is_oracle_signature i = sv_sign sv (it_bytes t) (it_oracle t)
      \<and> is_oracle_pubkey i = sv_key_base58 sv (it_oracle t)
      \<and> is_payload_hex i = to_hex (it_bytes t) \<and> is_dignity_score i = totalScore (it_dignity t)
      \<and> is_oracle_signature_hex i = to_hex (is_oracle_signature i)
      \<and> is_scoring_model_hash_hex i = to_hex (sv_model_hash sv)
      \<and> is_payload i = viewPayload body wallet p)"

lemma buildPayload_fields:
  "buildPayload sv r body mode user dignity zk = Inr p \<Longrightarrow>
   user_pubkey p = user \<and> dignity_score p = totalScore dignity \<and> adapter_mask p = adapterMask dignity
   \<and> user_mode p = modeToCode mode \<and> zk_proof_hash p = zk \<and> scoring_model_hash p = sv_model_hash sv
   \<and> attestation_expiry p = now_secs r + 300"
  by (auto simp: buildPayload_def js_simps now_secs_def PROOF_TTL_SECONDS_def)

lemma issue_facts_payload:
  "issue_facts sv r st0 body mode wallet user attestations st' i t \<Longrightarrow>
   buildPayload sv r body mode user (it_dignity t) (zk_proof_hash (it_payload t)) = Inr (it_payload t)"
  by (simp add: issue_facts_def Let_def)

lemma issue_facts_score:
  "issue_facts sv r st0 body mode wallet user attestations st' i t \<Longrightarrow>
   rbind (js_iter attestations) (\<lambda>atts. computeDignityScoreForMode atts mode) = Inr (it_dignity t)
   \<and> is_dignity_score i = totalScore (it_dignity t)"
  by (simp add: issue_facts_def Let_def)

lemma guest_total:
  "computeDignityScoreForMode atts Guest = Inr d \<Longrightarrow>
   \<exists>b. computeDignityScore atts = Inr b \<and> totalScore d = max (totalScore b) 25"
  by (auto simp: computeDignityScoreForMode_def js_simps)

lemma issue_facts_seen:
  assumes "issue_facts sv r st0 body mode wallet user attestations st' i t"
  shows "\<not> proof_reused mode (now_secs r) (map_get (cleanupSeen (now_secs r) (seenProofByUniq st0)) (is_uniq_key i))"
    "seenProofByUniq st' = (if mode = Verified
       then map_set (is_uniq_key i) (attestation_expiry (it_payload t)) (cleanupSeen (now_secs r) (seenProofByUniq st0))
       else cleanupSeen (now_secs r) (seenProofByUniq st0))"
  using assms unfolding issue_facts_def Let_def by - (elim conjE, assumption)+

lemma signScore_Issued:
  assumes "signScore sv st body mode wallet dignity p bytes uniq = (st', Inr res)" "sr_body res = Issued i"
  obtains okey where "sv_keypair sv (oracle_key st) = (oracle_key st', Inr okey)" "is_uniq_key i = uniq"
    "seenProofByUniq st' = (if mode = Verified then map_set uniq (attestation_expiry p) (seenProofByUniq st)
       else seenProofByUniq st)" "verify_state st' = verify_state st"
    "is_oracle_signature i = sv_sign sv bytes okey" "is_oracle_pubkey i = sv_key_base58 sv okey"
    "is_payload_hex i = to_hex bytes" "is_dignity_score i = totalScore dignity"
    "is_oracle_signature_hex i = to_hex (is_oracle_signature i)"
    "is_scoring_model_hash_hex i = to_hex (sv_model_hash sv)" "is_payload i = viewPayload body wallet p"
proof (cases "sv_keypair sv (oracle_key st)")
  case (Pair key' k)
  then show thesis using assms that by (cases k) (auto simp: signScore_def Let_def)
qed

lemma issueScore_Issued:
  assumes "issueScore sv r st0 body mode wallet user attestations = (st', Inr res)" "sr_body res = Issued i"
  obtains t where "issue_facts sv r st0 body mode wallet user attestations st' i t"
proof -
  let ?seen = "cleanupSeen (now_secs r) (seenProofByUniq st0)"
  let ?st = "st0\<lparr>seenProofByUniq := ?seen\<rparr>"
  note d = issueScore_def Let_def now_secs_def[symmetric]
  obtain dignity where dg: "rbind (js_iter attestations) (\<lambda>atts. computeDignityScoreForMode atts mode) = Inr dignity"
    using assms(1)
    by (cases "rbind (js_iter attestations) (\<lambda>atts. computeDignityScoreForMode atts mode)") (simp_all add: d)
  obtain zk where zk: "proofHashOf sv body attestations = Inr zk"
    using assms(1) by (cases "proofHashOf sv body attestations") (simp_all add: d dg)
  let ?u = "computeUniqKey (sv_keccak sv) zk user"
  have fresh: "\<not> proof_reused mode (now_secs r) (map_get ?seen ?u)"
    using assms by (auto simp: d dg zk fail_def split: if_splits)
  obtain p where p: "buildPayload sv r body mode user dignity zk = Inr p"
    using assms(1) fresh by (cases "buildPayload sv r body mode user dignity zk") (simp_all add: d dg zk)
  obtain bytes where b: "serializeShieldPayloadV0 p = Inr bytes"
    using assms(1) fresh by (cases "serializeShieldPayloadV0 p") (simp_all add: d dg zk p)
  have "signScore sv ?st body mode wallet dignity p bytes ?u = (st', Inr res)"
    using assms(1) fresh by (simp add: d dg zk p b)
  then obtain okey where o: "sv_keypair sv (oracle_key ?st) = (oracle_key st', Inr okey)" "is_uniq_key i = ?u"
    "seenProofByUniq st' = (if mode = Verified then map_set ?u (attestation_expiry p) (seenProofByUniq ?st)
       else seenProofByUniq ?st)" "verify_state st' = verify_state ?st"
    "is_oracle_signature i = sv_sign sv bytes okey" "is_oracle_pubkey i = sv_key_base58 sv okey"
    "is_payload_hex i = to_hex bytes" "is_dignity_score i = totalScore dignity"
    "is_oracle_signature_hex i = to_hex (is_oracle_signature i)"
    "is_scoring_model_hash_hex i = to_hex (sv_model_hash sv)" "is_payload i = viewPayload body wallet p"
    using assms(2) by (rule signScore_Issued)
  have z: "zk_proof_hash p = zk" using buildPayload_fields[OF p] by blast
  show thesis
    by (rule that[of "\<lparr>it_dignity = dignity, it_payload = p, it_bytes = bytes, it_oracle = okey\<rparr>"])
       (use o in \<open>simp add: issue_facts_def Let_def z dg zk p b fresh\<close>)
qed

lemma verifiedChecks_none:
  assumes "verifiedChecks sv v attestations wallet = (v', Inr None)"
  obtains atts ids where "attestations = JArr atts"
    "validateAttestationWalletOwnership (sv_json_parse sv) atts wallet = Inr Owned"
    "sv_verify sv v wallet atts = (v', Inr (Verification_ok ids))"
proof -
  obtain atts where it: "js_iter attestations = Inr atts"
    and ow: "validateAttestationWalletOwnership (sv_json_parse sv) atts wallet = Inr Owned"
    and vr: "\<exists>ids. sv_verify sv v wallet atts = (v', Inr (Verification_ok ids))"
    using assms
    by (auto simp: verifiedChecks_def ownership_of_def js_simps
        split: sum.splits ownership.splits prod.splits verification.splits if_splits)
  have "attestations = JArr atts"
  proof (cases attestations)
    case (JStr s)
    have "names_wallet (sv_json_parse sv) (JStr [c]) = None" for c
      by (simp add: names_wallet_def attestationWallet_def js_prop_def js_prop_opt_def)
    then show ?thesis using ow JStr it ownershipLoop_Owned_iff[of "sv_json_parse sv" wallet False atts]
      by (auto simp: validateAttestationWalletOwnership_def split: if_splits)
  qed (use it in auto)
  with ow vr show thesis using that by blast
qed

lemma handle_Issued:
  assumes "handleShieldScoreRequest sv r st body = (st', res)" "sr_body res = Issued i"
  obtains wallet mode base58 user v t where "js_prop body ''wallet'' = Inr wallet" "js_truthy wallet"
    "parse_mode (js_nullish (js_prop_opt body ''mode'') (JStr ''verified'')) = Some mode"
    "sv_pubkey sv wallet = Inr (base58, user)"
    "(if mode = Verified then verifiedChecks sv (verify_state st) (js_nullish (js_prop_opt body ''reclaim_attestations'') (JArr [])) base58
      else (verify_state st, Inr None)) = (v, Inr None)"
    "issue_facts sv r (st\<lparr>verify_state := v\<rparr>) body mode base58 user
      (js_nullish (js_prop_opt body ''reclaim_attestations'') (JArr [])) st' i t"
proof -
  let ?a = "js_nullish (js_prop_opt body ''reclaim_attestations'') (JArr [])"
  have sb: "shieldScoreBody sv r st body = (st', Inr res)"
    using assms by (auto simp: handleShieldScoreRequest_def split: prod.splits sum.splits)
  obtain wallet where w: "js_prop body ''wallet'' = Inr wallet" "js_truthy wallet"
    using sb assms(2) by (cases "js_prop body ''wallet''") (auto simp: shieldScoreBody_def fail_def split: if_splits)
  obtain mode where m: "parse_mode (js_nullish (js_prop_opt body ''mode'') (JStr ''verified'')) = Some mode"
    using sb assms(2) w by (cases "parse_mode (js_nullish (js_prop_opt body ''mode'') (JStr ''verified''))")
      (auto simp: shieldScoreBody_def fail_def)
  obtain base58 user where p: "sv_pubkey sv wallet = Inr (base58, user)"
    using sb w m by (cases "sv_pubkey sv wallet") (auto simp: shieldScoreBody_def)
  let ?c = "if mode = Verified then verifiedChecks sv (verify_state st) ?a base58 else (verify_state st, Inr None)"
  obtain v c where vc: "?c = (v, c)" by (cases ?c)
  have cn: "c = Inr None"
  proof (cases c)
    case (Inl e)
    then show ?thesis using sb w m p vc by (simp add: shieldScoreBody_def Let_def)
  next
    case (Inr out)
    show ?thesis
    proof (cases out)
      case (Some failure)
      then have f: "res = failure" using sb w m p vc Inr by (simp add: shieldScoreBody_def Let_def)
      have "mode = Verified" using vc Inr Some by (cases mode) auto
      then have "verifiedChecks sv (verify_state st) ?a base58 = (v, Inr (Some failure))" using vc Inr Some by simp
      then have "\<exists>a b d. sr_body failure = Failed a b d"
        by (auto simp: verifiedChecks_def fail_def split: sum.splits ownership.splits prod.splits verification.splits)
      then show ?thesis using assms(2) f by simp
    qed (use Inr in simp)
  qed
  have "issueScore sv r (st\<lparr>verify_state := v\<rparr>) body mode base58 user ?a = (st', Inr res)"
    using sb w m p vc cn by (simp add: shieldScoreBody_def Let_def)
  then obtain t where "issue_facts sv r (st\<lparr>verify_state := v\<rparr>) body mode base58 user ?a st' i t"
    using assms(2) by (rule issueScore_Issued)
  then show thesis using that w m p vc cn by blast
qed

subsection \<open>The one-time map\<close>

lemma issueScore_not_issued:
  assumes "issueScore sv r st0 body mode wallet user atts = (st', out)" "\<forall>res i. out = Inr res \<longrightarrow> sr_body res \<noteq> Issued i"
  shows "seenProofByUniq st' = cleanupSeen (now_secs r) (seenProofByUniq st0)"
  using assms
  by (auto simp: issueScore_def signScore_def Let_def now_secs_def split: sum.splits prod.splits if_splits)

lemma handle_seen:
  assumes "handleShieldScoreRequest sv r st body = (st', res)" "\<And>i. sr_body res \<noteq> Issued i"
  shows "seenProofByUniq st' \<in> {seenProofByUniq st, cleanupSeen (now_secs r) (seenProofByUniq st)}"
proof -
  obtain out where sb: "shieldScoreBody sv r st body = (st', out)" and no: "\<forall>res i. out = Inr res \<longrightarrow> sr_body res \<noteq> Issued i"
    using assms by (cases "shieldScoreBody sv r st body") (auto simp: handleShieldScoreRequest_def split: sum.splits)
  have "issueScore sv r (st\<lparr>verify_state := v\<rparr>) body mode b u a = (st', out) \<Longrightarrow>
      seenProofByUniq st' = cleanupSeen (now_secs r) (seenProofByUniq st)" for v mode b u a
    using issueScore_not_issued[OF _ no] by force
  then show ?thesis using sb
    by (auto simp: shieldScoreBody_def Let_def split: sum.splits option.splits prod.splits if_splits)
qed

type_synonym score_event = "readings \<times> jsval"

definition score_time :: "score_event \<Rightarrow> int" where
  "score_time ev = now_secs (fst ev)"

text \<open>
  The event issues a score in the mode \<open>verified\<close> under the one-time key \<open>k\<close>. A clock reading before
  1970 is no event.
\<close>

definition issues_verified :: "jsval \<Rightarrow> shield_result \<Rightarrow> string \<Rightarrow> bool" where
  "issues_verified body res k \<longleftrightarrow> parse_mode (js_nullish (js_prop_opt body ''mode'') (JStr ''verified'')) = Some Verified
     \<and> (case sr_body res of Issued i \<Rightarrow> is_uniq_key i = k | _ \<Rightarrow> False)"

definition score_step ::
  "('k, 'v) oracle_services \<Rightarrow> string \<Rightarrow> ('k, 'v) oracle_state \<Rightarrow> score_event \<Rightarrow> ('k, 'v) oracle_state \<times> bool" where
  "score_step sv k st ev = (case ev of (r, body) \<Rightarrow>
     if now_secs r < 0 then (st, False)
     else let (st', res) = handleShieldScoreRequest sv r st body in (st', issues_verified body res k))"

definition wf_oracle :: "('k, 'v) oracle_state \<Rightarrow> bool" where
  "wf_oracle st \<longleftrightarrow> wf_store (seenProofByUniq st)"

lemma score_step_cases:
  assumes "score_step sv k st (r, body) = (st', ok)"
  obtains "\<not> ok" "seenProofByUniq st' \<in> {seenProofByUniq st, cleanupSeen (now_secs r) (seenProofByUniq st)}"
  | uniq where "ok = (uniq = k)" "0 \<le> now_secs r" "\<not> proof_reused Verified (now_secs r) (map_get (cleanupSeen (now_secs r) (seenProofByUniq st)) uniq)"
      "seenProofByUniq st' = map_set uniq (now_secs r + 300) (cleanupSeen (now_secs r) (seenProofByUniq st))"
proof (cases "now_secs r < 0")
  case True
  then show thesis using that(1) assms by (simp add: score_step_def)
next
  case now: False
  then obtain res where h: "handleShieldScoreRequest sv r st body = (st', res)" and ok: "ok = issues_verified body res k"
    using assms by (auto simp: score_step_def split: prod.splits)
  show thesis
  proof (cases "\<exists>i. sr_body res = Issued i")
    case False
    then have "\<not> ok" using ok by (auto simp: issues_verified_def split: shield_body.splits)
    then show thesis using that(1) handle_seen[OF h] False by blast
  next
    case True
    then obtain i where i: "sr_body res = Issued i" by blast
    from h i show thesis
    proof (rule handle_Issued)
      fix wallet mode base58 user v t
      assume m: "parse_mode (js_nullish (js_prop_opt body ''mode'') (JStr ''verified'')) = Some mode"
        and f: "issue_facts sv r (st\<lparr>verify_state := v\<rparr>) body mode base58 user
          (js_nullish (js_prop_opt body ''reclaim_attestations'') (JArr [])) st' i t"
      show thesis
      proof (cases "mode = Verified")
        case True
        have "attestation_expiry (it_payload t) = now_secs r + 300"
          using issue_facts_payload[OF f] buildPayload_fields by blast
        moreover have "\<not> proof_reused mode (now_secs r) (map_get (cleanupSeen (now_secs r) (seenProofByUniq st)) (is_uniq_key i))"
          "seenProofByUniq st' = map_set (is_uniq_key i) (attestation_expiry (it_payload t))
             (cleanupSeen (now_secs r) (seenProofByUniq st))"
          using issue_facts_seen[OF f] True by simp_all
        moreover have "ok = (is_uniq_key i = k)" using m i ok True by (simp add: issues_verified_def)
        ultimately show thesis using that(2)[of "is_uniq_key i"] True now by simp
      next
        case False
        then show thesis using that(1) f m ok by (simp add: issue_facts_def Let_def issues_verified_def)
      qed
    qed
  qed
qed

lemma cleanupSeen_get:
  "wf_store m \<Longrightarrow> map_get (cleanupSeen now m) k =
     (case map_get m k of None \<Rightarrow> None | Some x \<Rightarrow> if x \<le> now then None else Some x)"
  by (simp add: cleanupSeen_def cleanup_get)

lemma wf_cleanupSeen: "wf_store m \<Longrightarrow> wf_store (cleanupSeen now m)"
  by (simp add: cleanupSeen_def wf_store_simps)

lemma score_wf: "wf_oracle st \<Longrightarrow> score_step sv k st e = (st', ok) \<Longrightarrow> wf_oracle st'"
  by (cases e) (auto simp: wf_oracle_def wf_cleanupSeen wf_store_simps elim!: score_step_cases)

lemma score_accept:
  assumes "wf_oracle st" "score_step sv k st e = (st', True)"
  shows "(\<forall>x. map_get (seenProofByUniq st) k = Some x \<longrightarrow> x \<le> score_time e)
     \<and> map_get (seenProofByUniq st') k = Some (score_time e + 300)"
proof -
  obtain r body where e: "e = (r, body)" by (cases e)
  from assms(2)[unfolded e] show ?thesis
    by (cases rule: score_step_cases)
       (use assms(1) in \<open>auto simp: e score_time_def wf_oracle_def cleanupSeen_get proof_reused_def
          split: option.splits if_splits\<close>)
qed

lemma score_keep:
  assumes "wf_oracle st" "score_step sv k st e = (st', False)"
  shows "map_get (seenProofByUniq st') k = map_get (seenProofByUniq st) k \<or>
     (map_get (seenProofByUniq st') k = None \<and> (\<exists>x. map_get (seenProofByUniq st) k = Some x \<and> x \<le> score_time e))"
proof -
  obtain r body where e: "e = (r, body)" by (cases e)
  from assms(2)[unfolded e] show ?thesis
    by (cases rule: score_step_cases)
       (use assms(1) in \<open>auto simp: e score_time_def wf_oracle_def cleanupSeen_get split: option.splits if_splits\<close>)
qed

interpretation score_guard: one_time_guard wf_oracle "\<lambda>st. map_get (seenProofByUniq st) k"
    "score_step sv k" score_time 300 for sv :: "('k, 'v) oracle_services" and k
  by unfold_locales (fact score_wf score_accept score_keep)+

subsection \<open>Properties\<close>

text \<open>
  C1. A score signed in the mode \<open>verified\<close> has been earned: the attestations are an array that passed the
  ownership check and the bundle verification for the wallet of the request, the score is that of these
  attestations, and the signature is over exactly the bytes of a payload with that wallet, that score, the
  mode code 2, the hash the one-time key is computed from and an expiry 300 seconds from now.
\<close>

theorem verified_score_is_earned:
  assumes "handleShieldScoreRequest sv r st body = (st', res)" "sr_body res = Issued i"
    and "parse_mode (js_nullish (js_prop_opt body ''mode'') (JStr ''verified'')) = Some Verified"
  shows "\<exists>wallet base58 user atts ids p bytes key. js_prop body ''wallet'' = Inr wallet
     \<and> sv_pubkey sv wallet = Inr (base58, user) \<and> js_prop_opt body ''reclaim_attestations'' = JArr atts
     \<and> validateAttestationWalletOwnership (sv_json_parse sv) atts base58 = Inr Owned
     \<and> sv_verify sv (verify_state st) base58 atts = (verify_state st', Inr (Verification_ok ids))
     \<and> map_sum id totalScore (computeDignityScore atts) = Inr (dignity_score p)
     \<and> user_pubkey p = user \<and> user_mode p = 2 \<and> attestation_expiry p = now_secs r + 300
     \<and> is_uniq_key i = to_hex (sv_keccak sv (zk_proof_hash p @ user))
     \<and> serializeShieldPayloadV0 p = Inr bytes \<and> is_payload_hex i = to_hex bytes
     \<and> is_oracle_signature i = sv_sign sv bytes key \<and> is_oracle_pubkey i = sv_key_base58 sv key"
proof -
  let ?a = "js_nullish (js_prop_opt body ''reclaim_attestations'') (JArr [])"
  from assms(1,2) show ?thesis
  proof (rule handle_Issued)
    fix wallet mode base58 user v t
    assume w: "js_prop body ''wallet'' = Inr wallet" "sv_pubkey sv wallet = Inr (base58, user)"
      and m: "parse_mode (js_nullish (js_prop_opt body ''mode'') (JStr ''verified'')) = Some mode"
      and c: "(if mode = Verified then verifiedChecks sv (verify_state st) ?a base58
          else (verify_state st, Inr None)) = (v, Inr None)"
      and f: "issue_facts sv r (st\<lparr>verify_state := v\<rparr>) body mode base58 user ?a st' i t"
    have mode: "mode = Verified" using m assms(3) by simp
    then have "verifiedChecks sv (verify_state st) ?a base58 = (v, Inr None)" using c by simp
    then obtain atts ids where a: "?a = JArr atts"
      and o: "validateAttestationWalletOwnership (sv_json_parse sv) atts base58 = Inr Owned"
      and vr: "sv_verify sv (verify_state st) base58 atts = (v, Inr (Verification_ok ids))"
      by (rule verifiedChecks_none)
    have "atts \<noteq> []" using o by (auto simp: validateAttestationWalletOwnership_def)
    then have ja: "js_prop_opt body ''reclaim_attestations'' = JArr atts"
      using a by (auto simp: js_nullish_def split: if_splits)
    note p = buildPayload_fields[OF issue_facts_payload[OF f]]
    have dg: "computeDignityScore atts = Inr (it_dignity t)" and v: "v = verify_state st'"
      and rest: "serializeShieldPayloadV0 (it_payload t) = Inr (it_bytes t)" "is_payload_hex i = to_hex (it_bytes t)"
        "is_oracle_signature i = sv_sign sv (it_bytes t) (it_oracle t)"
        "is_oracle_pubkey i = sv_key_base58 sv (it_oracle t)"
        "is_uniq_key i = computeUniqKey (sv_keccak sv) (zk_proof_hash (it_payload t)) user"
      using f by (auto simp: issue_facts_def Let_def a mode computeDignityScoreForMode_def js_simps)
    show ?thesis
      using w ja o vr dg v rest p
      by (intro exI[of _ wallet] exI[of _ base58] exI[of _ user] exI[of _ atts] exI[of _ ids]
          exI[of _ "it_payload t"] exI[of _ "it_bytes t"] exI[of _ "it_oracle t"] conjI)
         (simp_all add: mode computeUniqKey_def)
  qed
qed

text \<open>
  A concrete oracle: the wallet \<open>W1\<close> decodes to 32 bytes, hashes are constant functions of the length,
  the bundle check is that of \<open>Reclaim_Verify\<close> in memory at time \<open>now\<close>, signatures are 64 equal bytes.
\<close>

definition sample_services :: "int \<Rightarrow> (nat, replay_store) oracle_services" where
  "sample_services now = \<lparr>sv_pubkey = (\<lambda>w. if w = JStr ''W1'' then Inr (''W1'', replicate 32 7) else Inl (Thrown ''Invalid public key input'')),
     sv_json_parse = sample_json, sv_json_stringify = (\<lambda>_. ''[]''), sv_sha256 = (\<lambda>s. replicate 32 1),
     sv_keccak = (\<lambda>b. take 32 b), sv_verify = verifyReclaimProofBundle sample_env sample_json (\<lambda>_. Some True)
       (memory_claim sample_env now 300), sv_keypair = (\<lambda>k. (Some 5, Inr 5)), sv_sign = (\<lambda>b k. replicate 64 (of_nat k)),
     sv_key_base58 = (\<lambda>k. ''ORACLE''), sv_model_hash = replicate 32 17\<rparr>"

definition sample_oracle :: "(nat, replay_store) oracle_state" where
  "sample_oracle = \<lparr>seenProofByUniq = [], oracle_key = None, verify_state = []\<rparr>"

definition sample_body :: "string \<Rightarrow> string \<Rightarrow> jsval" where
  "sample_body mode i = JObj [(''wallet'', JStr ''W1''), (''mode'', JStr mode), (''reclaim_attestations'',
     JArr [JObj [(''identifier'', JStr i), (''commit_count'', JNum (Fin 60)), (''claimData'', JObj
       [(''provider'', JStr ''github''), (''owner'', JStr ''W1''), (''context'', JStr ''ctx'')])]])]"

definition issued_brief :: "shield_result \<Rightarrow> (int \<times> int) option" where
  "issued_brief res = (case sr_body res of Issued i \<Rightarrow> Some (sr_status res, is_dignity_score i) | _ \<Rightarrow> None)"

lemma issued_brief_Some: "issued_brief res = Some (n, d) \<Longrightarrow> \<exists>i. sr_body res = Issued i \<and> is_dignity_score i = d"
  by (auto simp: issued_brief_def split: shield_body.splits)

definition sample_readings :: "int \<Rightarrow> readings" where
  "sample_readings ms = \<lparr>rd_now1 = ms, rd_now2 = ms, rd_random = 1/2\<rparr>"

theorem verified_score_is_earned_witness:
  "\<exists>atts (p :: payload_raw). js_prop_opt (sample_body ''verified'' ''a'') ''reclaim_attestations'' = JArr atts
     \<and> map_sum id totalScore (computeDignityScore atts) = Inr (dignity_score p) \<and> attestation_expiry p = 1300"
proof -
  let ?h = "handleShieldScoreRequest (sample_services 1000000) (sample_readings 1000000) sample_oracle (sample_body ''verified'' ''a'')"
  have "issued_brief (snd ?h) = Some (200, 40)" by code_simp
  then obtain i where i: "sr_body (snd ?h) = Issued i" using issued_brief_Some by blast
  have h: "?h = (fst ?h, snd ?h)" by simp
  have "parse_mode (js_nullish (js_prop_opt (sample_body ''verified'' ''a'') ''mode'') (JStr ''verified'')) = Some Verified"
    by code_simp
  note earned = verified_score_is_earned [OF h i this]
  have "now_secs (sample_readings 1000000) = 1000" by (simp add: now_secs_def sample_readings_def)
  then have "now_secs (sample_readings 1000000) + 300 = 1300" by simp
  from earned [unfolded this] show ?thesis
    by (elim exE conjE) (intro exI conjI, assumption, assumption, assumption)
qed

text \<open>
  C2. A proof is good for one verified score per wallet in an active window: whatever requests come in
  between, two verified scores issued under one key (the Keccak hash of proof hash and wallet) are at
  least 300 seconds apart.
\<close>

theorem verified_scores_are_spaced:
  assumes "wf_oracle st" "map_get (seenProofByUniq st) k = None" "sorted (map score_time evs)"
  shows "successively (\<lambda>a b. a + 300 \<le> b) (accepted_at score_time (run_guard (score_step sv k) st evs))"
  using assms by (intro score_guard.accepted_spaced)

theorem verified_scores_are_spaced_witness:
  "accepted_at score_time (run_guard (score_step (sample_services 1000000) (to_hex (replicate 32 1))) sample_oracle
     [(sample_readings 1000000, sample_body ''verified'' ''a''), (sample_readings 1200000, sample_body ''verified'' ''b''),
      (sample_readings 1300000, sample_body ''verified'' ''c'')]) = [1000, 1300]
   \<and> successively (\<lambda>a b. a + 300 \<le> b) [1000::int, 1300]"
proof -
  let ?evs = "[(sample_readings 1000000, sample_body ''verified'' ''a''), (sample_readings 1200000, sample_body ''verified'' ''b''),
      (sample_readings 1300000, sample_body ''verified'' ''c'')]"
  have a: "accepted_at score_time (run_guard (score_step (sample_services 1000000) (to_hex (replicate 32 1))) sample_oracle ?evs)
      = [1000, 1300]" by code_simp
  have "sorted (map score_time ?evs)" by (simp add: score_time_def now_secs_def sample_readings_def)
  with a show ?thesis
    using verified_scores_are_spaced [of sample_oracle "to_hex (replicate 32 1)" ?evs "sample_services 1000000"]
    by (simp add: wf_oracle_def wf_store_def sample_oracle_def)
qed

text \<open>
  The mode \<open>guest\<close> skips every check: the response does not depend on the verification or on the
  parsing of contexts, and the signed score is that of the attestations as presented, at least 25.
\<close>

theorem guest_score_is_unverified:
  assumes "handleShieldScoreRequest sv r st body = (st', res)" "sr_body res = Issued i"
    and "parse_mode (js_nullish (js_prop_opt body ''mode'') (JStr ''verified'')) = Some Guest"
  shows "(\<forall>f g. handleShieldScoreRequest (sv\<lparr>sv_verify := f, sv_json_parse := g\<rparr>) r st body = (st', res))
     \<and> (\<exists>atts b. js_iter (js_nullish (js_prop_opt body ''reclaim_attestations'') (JArr [])) = Inr atts
         \<and> computeDignityScore atts = Inr b \<and> is_dignity_score i = max (totalScore b) 25)"
proof -
  have hash: "proofHashOf (sv\<lparr>sv_verify := f, sv_json_parse := g\<rparr>) body atts = proofHashOf sv body atts" for f g body atts
    by (cases "hash_text (js_prop_opt body ''proof_hash_hex'')") (simp_all add: proofHashOf_def)
  have sub: "proofHashOf (sv\<lparr>sv_verify := f, sv_json_parse := g\<rparr>) = proofHashOf sv"
    "buildPayload (sv\<lparr>sv_verify := f, sv_json_parse := g\<rparr>) = buildPayload sv"
    "signScore (sv\<lparr>sv_verify := f, sv_json_parse := g\<rparr>) = signScore sv"
    "sv_keccak (sv\<lparr>sv_verify := f, sv_json_parse := g\<rparr>) = sv_keccak sv" for f g
    by (intro ext; simp add: hash buildPayload_def signScore_def Let_def split: prod.split sum.split)+
  have iss: "issueScore (sv\<lparr>sv_verify := f, sv_json_parse := g\<rparr>) = issueScore sv" for f g
    by (intro ext) (unfold issueScore_def sub, rule refl)
  have "shieldScoreBody (sv\<lparr>sv_verify := f, sv_json_parse := g\<rparr>) r st body = shieldScoreBody sv r st body" for f g
    using assms(3) by (simp add: shieldScoreBody_def iss Let_def split: sum.split)
  then have "\<forall>f g. handleShieldScoreRequest (sv\<lparr>sv_verify := f, sv_json_parse := g\<rparr>) r st body = (st', res)"
    using assms(1) by (simp add: handleShieldScoreRequest_def)
  moreover from assms(1,2) have "\<exists>atts b. js_iter (js_nullish (js_prop_opt body ''reclaim_attestations'') (JArr [])) = Inr atts
         \<and> computeDignityScore atts = Inr b \<and> is_dignity_score i = max (totalScore b) 25"
  proof (rule handle_Issued)
    fix wallet mode base58 user v t
    assume m: "parse_mode (js_nullish (js_prop_opt body ''mode'') (JStr ''verified'')) = Some mode"
      and f: "issue_facts sv r (st\<lparr>verify_state := v\<rparr>) body mode base58 user
        (js_nullish (js_prop_opt body ''reclaim_attestations'') (JArr [])) st' i t"
    from issue_facts_score[OF f] obtain atts where
      a: "js_iter (js_nullish (js_prop_opt body ''reclaim_attestations'') (JArr [])) = Inr atts"
        "computeDignityScoreForMode atts mode = Inr (it_dignity t)" and s: "is_dignity_score i = totalScore (it_dignity t)"
      by (auto simp: js_simps)
    have "mode = Guest" using m assms(3) by simp
    with a(2) obtain b where "computeDignityScore atts = Inr b" "totalScore (it_dignity t) = max (totalScore b) 25"
      using guest_total by blast
    with a(1) s show ?thesis by auto
  qed
  ultimately show ?thesis by blast
qed

theorem guest_score_is_unverified_witness:
  "\<exists>res i. snd (handleShieldScoreRequest ((sample_services 0)\<lparr>sv_verify := (\<lambda>v _ _. (v, Inl TypeError)), sv_json_parse := (\<lambda>_. None)\<rparr>)
      (sample_readings 1000000) sample_oracle (sample_body ''guest'' ''stolen'')) = res
     \<and> sr_body res = Issued i \<and> is_dignity_score i = 40"
proof -
  let ?h = "handleShieldScoreRequest (sample_services 0) (sample_readings 1000000) sample_oracle (sample_body ''guest'' ''stolen'')"
  have "issued_brief (snd ?h) = Some (200, 40)" by code_simp
  then obtain i where i: "sr_body (snd ?h) = Issued i" "is_dignity_score i = 40" using issued_brief_Some by blast
  have h: "?h = (fst ?h, snd ?h)" by simp
  have "parse_mode (js_nullish (js_prop_opt (sample_body ''guest'' ''stolen'') ''mode'') (JStr ''verified'')) = Some Guest"
    by code_simp
  from guest_score_is_unverified [OF h i(1) this] i show ?thesis by auto
qed

end
