(* ===== verification/Rate_Limit.thy ===== *)
theory Rate_Limit
  imports Guards
begin

section \<open>Rate limits (services/shield-oracle/src/rate_limit.ts)\<close>

text \<open>
  A fixed window per IP address and per wallet: in memory (\<open>consume\<close>) or in Redis, which is a
  parameter (\<open>redis\<close>: absent or closed, or its answer to the counting script for a key). State is the two
  bucket maps; the clock reading and the environment of a call are arguments. The in-memory guard is an
  instance of \<open>fixed_window\<close>, once for each scope.
\<close>

subsection \<open>Data\<close>

record bucket =
  windowStartedAtMs :: int
  b_count :: int

datatype rate_scope = Ip_scope | Wallet_scope
datatype rate_reason = Rate_limited | Rate_backend_unavailable

record rate_decision =
  rd_ok :: bool
  rd_retryAfterSec :: rat
  rd_scope :: "rate_scope option"
  rd_key :: "string option"
  rd_reason :: "rate_reason option"

type_synonym buckets = "(string, bucket) jsmap"

record rate_state =
  ipBuckets :: buckets
  walletBuckets :: buckets

text \<open>
  The answer of the counting script: an exception, or the array it returns (\<open>null\<close> when absent).
\<close>

datatype redis_reply = Eval_failed | Eval_reply "jsval list option"

type_synonym redis = "(string \<Rightarrow> int \<Rightarrow> redis_reply) option"

subsection \<open>Configuration\<close>

definition positiveIntEnv :: "env \<Rightarrow> string \<Rightarrow> int \<Rightarrow> int" where
  "positiveIntEnv env name fallback =
     (case finite_num (number_of_string (opt_or (env name) (show_int fallback))) of
        Some parsed \<Rightarrow> if 0 < parsed then \<lfloor>parsed\<rfloor> else fallback
      | None \<Rightarrow> fallback)"

definition rateWindowSecs :: "env \<Rightarrow> int" where
  "rateWindowSecs env = positiveIntEnv env ''SHIELD_RATE_WINDOW_SECS'' 60"

definition ipLimitPerWindow :: "env \<Rightarrow> int" where
  "ipLimitPerWindow env = positiveIntEnv env ''SHIELD_RATE_LIMIT_PER_IP'' 120"

definition walletLimitPerWindow :: "env \<Rightarrow> int" where
  "walletLimitPerWindow env = positiveIntEnv env ''SHIELD_RATE_LIMIT_PER_WALLET'' 60"

definition requireRedisForRateLimit :: "env \<Rightarrow> bool" where
  "requireRedisForRateLimit env =
     opt_or (optionalBooleanEnv env ''SHIELD_RATE_LIMIT_REQUIRE_REDIS'') (env_is env ''NODE_ENV'' ''production'')"

subsection \<open>Consuming\<close>

definition rate_pass :: rate_decision where
  "rate_pass = \<lparr>rd_ok = True, rd_retryAfterSec = 0, rd_scope = None, rd_key = None, rd_reason = None\<rparr>"

definition consume :: "buckets \<Rightarrow> string \<Rightarrow> int \<Rightarrow> int \<Rightarrow> int \<Rightarrow> buckets \<times> rate_decision" where
  "consume buckets key limit windowMs nowMs =
     (if key = [] \<or> limit \<le> 0 \<or> windowMs \<le> 0 then (buckets, rate_pass)
      else case map_get buckets key of
        None \<Rightarrow> (map_set key \<lparr>windowStartedAtMs = nowMs, b_count = 1\<rparr> buckets, rate_pass)
      | Some existing \<Rightarrow>
          if windowMs \<le> nowMs - windowStartedAtMs existing
          then (map_set key \<lparr>windowStartedAtMs = nowMs, b_count = 1\<rparr> buckets, rate_pass)
          else if limit \<le> b_count existing
          then let retryMs = windowMs - (nowMs - windowStartedAtMs existing) in
            (buckets, \<lparr>rd_ok = False, rd_retryAfterSec = max 1 (of_int \<lceil>fl (of_int retryMs / 1000)\<rceil>),
               rd_scope = None, rd_key = Some key, rd_reason = Some Rate_limited\<rparr>)
          else (map_set key (existing\<lparr>b_count := b_count existing + 1\<rparr>) buckets, rate_pass))"

text \<open>\<open>Number(v)\<close> of a script result: a number or its text; any other element is not a number.\<close>

fun number_of_reply :: "jsval \<Rightarrow> jsnum" where
  "number_of_reply (JNum x) = x"
| "number_of_reply (JStr s) = number_of_string s"
| "number_of_reply (JBool b) = Fin (if b then 1 else 0)"
| "number_of_reply _ = NaN"

definition reply_nth :: "jsval list option \<Rightarrow> nat \<Rightarrow> jsnum \<Rightarrow> jsnum" where
  "reply_nth response k d = (case response of None \<Rightarrow> d
     | Some xs \<Rightarrow> if k < length xs \<and> xs ! k \<notin> {JUndef, JNull} then number_of_reply (xs ! k) else d)"

fun num_gt_int :: "jsnum \<Rightarrow> int \<Rightarrow> bool" where
  "num_gt_int (Fin x) k = (of_int k < x)"
| "num_gt_int PosInf k = True"
| "num_gt_int _ k = False"

text \<open>The Redis path after the script has answered.\<close>

definition consumeRedis :: "jsval list option \<Rightarrow> string \<Rightarrow> int \<Rightarrow> int \<Rightarrow> rate_decision" where
  "consumeRedis response key limit windowSecs =
     (let current = reply_nth response 0 (Fin 0);
          ttl = reply_nth response 1 (Fin (of_int windowSecs)) in
      if num_gt_int current limit
      then \<lparr>rd_ok = False,
             rd_retryAfterSec = max 1 (case finite_num ttl of
                 Some t \<Rightarrow> if 0 < t then t else of_int windowSecs | None \<Rightarrow> of_int windowSecs),
             rd_scope = None, rd_key = Some key, rd_reason = Some Rate_limited\<rparr>
      else rate_pass)"

definition live_buckets :: "int \<Rightarrow> int \<Rightarrow> buckets \<Rightarrow> buckets" where
  "live_buckets windowMs nowMs m = filter (\<lambda>(k, v). \<not> windowMs \<le> nowMs - windowStartedAtMs v) m"

definition cleanupRateLimitState :: "env \<Rightarrow> int \<Rightarrow> rate_state \<Rightarrow> rate_state" where
  "cleanupRateLimitState env nowMs st =
     (let windowMs = rateWindowSecs env * 1000 in
      st\<lparr>ipBuckets := live_buckets windowMs nowMs (ipBuckets st),
         walletBuckets := live_buckets windowMs nowMs (walletBuckets st)\<rparr>)"

fun scope_name :: "rate_scope \<Rightarrow> string" where
  "scope_name Ip_scope = ''ip''"
| "scope_name Wallet_scope = ''wallet''"

definition rate_unavailable :: "rate_scope \<Rightarrow> string \<Rightarrow> rate_decision" where
  "rate_unavailable scope key = \<lparr>rd_ok = False, rd_retryAfterSec = 1, rd_scope = Some scope,
     rd_key = Some key, rd_reason = Some Rate_backend_unavailable\<rparr>"

definition with_scope :: "rate_scope \<Rightarrow> rate_decision \<Rightarrow> rate_decision" where
  "with_scope scope d = (if \<not> rd_ok d then d\<lparr>rd_scope := Some scope\<rparr> else d)"

definition consumeInMemory :: "rate_scope \<Rightarrow> string \<Rightarrow> int \<Rightarrow> int \<Rightarrow> int \<Rightarrow> rate_state \<Rightarrow> rate_state \<times> rate_decision" where
  "consumeInMemory scope key limit windowSecs nowMs st =
     (case scope of
        Ip_scope \<Rightarrow> (let (m, d) = consume (ipBuckets st) key limit (windowSecs * 1000) nowMs
                     in (st\<lparr>ipBuckets := m\<rparr>, with_scope scope d))
      | Wallet_scope \<Rightarrow> (let (m, d) = consume (walletBuckets st) key limit (windowSecs * 1000) nowMs
                     in (st\<lparr>walletBuckets := m\<rparr>, with_scope scope d)))"

definition consumeForScope ::
  "rate_scope \<Rightarrow> string \<Rightarrow> int \<Rightarrow> int \<Rightarrow> int \<Rightarrow> redis \<Rightarrow> bool \<Rightarrow> rate_state \<Rightarrow> rate_state \<times> rate_decision" where
  "consumeForScope scope key limit windowSecs nowMs redis requireRedis st =
     (if key = [] \<or> limit \<le> 0 \<or> windowSecs \<le> 0 then (st, rate_pass)
      else case redis of
        Some eval_script \<Rightarrow>
          (let redisKey = ''shield:rate:'' @ scope_name scope @ '':'' @ key in
           case eval_script redisKey windowSecs of
             Eval_reply response \<Rightarrow> (st, with_scope scope (consumeRedis response redisKey limit windowSecs))
           | Eval_failed \<Rightarrow>
               if requireRedis then (st, rate_unavailable scope key)
               else consumeInMemory scope key limit windowSecs nowMs st)
      | None \<Rightarrow>
          if requireRedis then (st, rate_unavailable scope key)
          else consumeInMemory scope key limit windowSecs nowMs st)"

definition evaluateShieldRateLimit ::
  "env \<Rightarrow> redis \<Rightarrow> int \<Rightarrow> string \<Rightarrow> string option \<Rightarrow> rate_state \<Rightarrow> rate_state \<times> rate_decision" where
  "evaluateShieldRateLimit env redis now ip wallet st =
     (let windowSecs = rateWindowSecs env;
          requireRedis = requireRedisForRateLimit env;
          st0 = cleanupRateLimitState env now st;
          (st1, ipDecision) = consumeForScope Ip_scope ip (ipLimitPerWindow env) windowSecs now redis requireRedis st0 in
      if \<not> rd_ok ipDecision then (st1, ipDecision)
      else if opt_or wallet [] \<noteq> [] then
        let (st2, walletDecision) = consumeForScope Wallet_scope (opt_or wallet []) (walletLimitPerWindow env)
              windowSecs now redis requireRedis st1 in
        if \<not> rd_ok walletDecision then (st2, walletDecision) else (st2, rate_pass)
      else (st1, rate_pass))"

subsection \<open>One bucket\<close>

definition bucket_of :: "buckets \<Rightarrow> string \<Rightarrow> (int \<times> int) option" where
  "bucket_of m key = map_option (\<lambda>b. (windowStartedAtMs b, b_count b)) (map_get m key)"

lemma rate_pass_ok [simp]: "rd_ok rate_pass" "with_scope sc rate_pass = rate_pass"
  by (simp_all add: rate_pass_def with_scope_def)

lemma with_scope_ok [simp]: "rd_ok (with_scope sc d) = rd_ok d"
  by (simp add: with_scope_def)

lemma consume_other: "k \<noteq> key \<Longrightarrow> consume m key limit w now = (m', d) \<Longrightarrow> bucket_of m' k = bucket_of m k"
  by (auto simp: consume_def bucket_of_def Let_def split: if_splits option.splits)

lemma consume_bucket_step:
  assumes "consume m key limit w now = (m', d)" "key \<noteq> []" "0 < limit" "0 < w"
  shows "bucket_step w limit (bucket_of m key) now (bucket_of m' key) (rd_ok d)"
  using assms
  by (auto simp: consume_def bucket_of_def bucket_step_def Let_def split: if_splits option.splits)

text \<open>What clean-up does to a key's bucket: drop it when its window is over.\<close>

lemma bucket_of_live:
  assumes "distinct (map fst m)"
  shows "bucket_of (live_buckets w now m) k =
     (case bucket_of m k of None \<Rightarrow> None | Some (s, c) \<Rightarrow> if w \<le> now - s then None else Some (s, c))"
  using map_of_filter_distinct[OF assms, of "\<lambda>(k, v). \<not> w \<le> now - windowStartedAtMs v" k]
  by (auto simp: bucket_of_def live_buckets_def split: option.splits)

lemma distinct_live: "distinct (map fst m) \<Longrightarrow> distinct (map fst (live_buckets w now m))"
  by (simp add: live_buckets_def distinct_map_filter)

lemma distinct_consume: "distinct (map fst m) \<Longrightarrow> consume m key limit w now = (m', d) \<Longrightarrow> distinct (map fst m')"
  by (auto simp: consume_def Let_def distinct_update split: if_splits option.splits)

subsection \<open>Both scopes as fixed windows\<close>

definition wf_rate :: "rate_state \<Rightarrow> bool" where
  "wf_rate st \<longleftrightarrow> distinct (map fst (ipBuckets st)) \<and> distinct (map fst (walletBuckets st))"

type_synonym rate_event = "int \<times> string \<times> string option"

definition rate_time :: "rate_event \<Rightarrow> int" where
  "rate_time ev = fst ev"

text \<open>An event lets an IP address through when its own bucket did, a wallet when the whole call did.\<close>

definition ip_step :: "env \<Rightarrow> string \<Rightarrow> rate_state \<Rightarrow> rate_event \<Rightarrow> rate_state \<times> bool" where
  "ip_step env k st ev = (case ev of (now, ip, wallet) \<Rightarrow>
     let (st', d) = evaluateShieldRateLimit env None now ip wallet st
     in (st', ip = k \<and> (rd_ok d \<or> rd_scope d = Some Wallet_scope)))"

definition wallet_step :: "env \<Rightarrow> string \<Rightarrow> rate_state \<Rightarrow> rate_event \<Rightarrow> rate_state \<times> bool" where
  "wallet_step env k st ev = (case ev of (now, ip, wallet) \<Rightarrow>
     let (st', d) = evaluateShieldRateLimit env None now ip wallet st in (st', wallet = Some k \<and> rd_ok d))"

definition memory_mode :: "env \<Rightarrow> bool" where
  "memory_mode env \<longleftrightarrow> \<not> requireRedisForRateLimit env \<and> 0 < rateWindowSecs env
     \<and> 0 < ipLimitPerWindow env \<and> 0 < walletLimitPerWindow env"

lemma consumeForScope_memory:
  "memory_mode env \<Longrightarrow> consumeForScope scope key limit ws now None (requireRedisForRateLimit env) st =
     (if key = [] \<or> limit \<le> 0 \<or> ws \<le> 0 then (st, rate_pass) else consumeInMemory scope key limit ws now st)"
  by (simp add: consumeForScope_def memory_mode_def)

definition live_view :: "int \<Rightarrow> int \<Rightarrow> (int \<times> int) option \<Rightarrow> (int \<times> int) option" where
  "live_view w now b = (case b of None \<Rightarrow> None | Some (s, c) \<Rightarrow> if w \<le> now - s then None else Some (s, c))"

lemma bucket_step_live: "bucket_step w limit (live_view w now b) now b' acc \<Longrightarrow> bucket_step w limit b now b' acc"
  by (auto simp: bucket_step_def live_view_def split: option.splits if_splits)

lemma bucket_step_live_keep: "bucket_step w limit b now (live_view w now b) False"
  by (auto simp: bucket_step_def live_view_def split: option.splits)

lemma cleanup_buckets:
  "wf_rate st \<Longrightarrow> bucket_of (ipBuckets (cleanupRateLimitState env now st)) k
     = live_view (rateWindowSecs env * 1000) now (bucket_of (ipBuckets st) k)"
  "wf_rate st \<Longrightarrow> bucket_of (walletBuckets (cleanupRateLimitState env now st)) k
     = live_view (rateWindowSecs env * 1000) now (bucket_of (walletBuckets st) k)"
  by (simp_all add: cleanupRateLimitState_def wf_rate_def bucket_of_live live_view_def Let_def)

lemma wf_cleanup: "wf_rate st \<Longrightarrow> wf_rate (cleanupRateLimitState env now st)"
  by (simp add: wf_rate_def cleanupRateLimitState_def distinct_live Let_def)

lemma wf_consumeForScope:
  "wf_rate st \<Longrightarrow> consumeForScope scope key limit ws now redis rq st = (st', d) \<Longrightarrow> wf_rate st'"
  by (auto simp: consumeForScope_def consumeInMemory_def wf_rate_def Let_def
      dest: distinct_consume split: if_splits option.splits redis_reply.splits rate_scope.splits prod.splits)

lemma wf_evaluate: "wf_rate st \<Longrightarrow> evaluateShieldRateLimit env redis now ip wallet st = (st', d) \<Longrightarrow> wf_rate st'"
  by (auto simp: evaluateShieldRateLimit_def Let_def dest: wf_consumeForScope[OF wf_cleanup] wf_consumeForScope
      split: if_splits prod.splits)

text \<open>What one call does to the two maps.\<close>

lemma consumeInMemory_Ip:
  "consumeInMemory Ip_scope key limit ws now st = (st', d) \<Longrightarrow>
   walletBuckets st' = walletBuckets st \<and> (\<exists>d0. consume (ipBuckets st) key limit (ws * 1000) now = (ipBuckets st', d0)
     \<and> rd_ok d = rd_ok d0 \<and> (\<not> rd_ok d \<longrightarrow> rd_scope d = Some Ip_scope))"
  by (auto simp: consumeInMemory_def with_scope_def split: prod.splits if_splits)

lemma consumeInMemory_Wallet:
  "consumeInMemory Wallet_scope key limit ws now st = (st', d) \<Longrightarrow>
   ipBuckets st' = ipBuckets st \<and> (\<exists>d0. consume (walletBuckets st) key limit (ws * 1000) now = (walletBuckets st', d0)
     \<and> rd_ok d = rd_ok d0 \<and> (\<not> rd_ok d \<longrightarrow> rd_scope d = Some Wallet_scope))"
  by (auto simp: consumeInMemory_def with_scope_def split: prod.splits if_splits)

lemma evaluate_memory:
  assumes m: "memory_mode env" and ev: "evaluateShieldRateLimit env None now ip wallet st = (st', d)"
  defines "st0 \<equiv> cleanupRateLimitState env now st" and "w \<equiv> rateWindowSecs env * 1000"
    and "ws \<equiv> opt_or wallet []"
  obtains (ip_denied) d0 where "ip \<noteq> []" "consume (ipBuckets st0) ip (ipLimitPerWindow env) w now = (ipBuckets st', d0)"
      "\<not> rd_ok d0" "walletBuckets st' = walletBuckets st0" "\<not> rd_ok d" "rd_scope d = Some Ip_scope"
    | (ip_passed) d0 st1 where "ip = [] \<and> st1 = st0 \<or> (ip \<noteq> [] \<and> consume (ipBuckets st0) ip (ipLimitPerWindow env) w now
          = (ipBuckets st1, d0) \<and> rd_ok d0 \<and> walletBuckets st1 = walletBuckets st0)"
      "ws = [] \<and> st' = st1 \<and> rd_ok d \<or> (ws \<noteq> [] \<and> ipBuckets st' = ipBuckets st1 \<and>
         (\<exists>d1. consume (walletBuckets st1) ws (walletLimitPerWindow env) w now = (walletBuckets st', d1)
            \<and> rd_ok d1 = rd_ok d \<and> (\<not> rd_ok d \<longrightarrow> rd_scope d = Some Wallet_scope)))"
proof -
  have pos: "\<not> rateWindowSecs env \<le> 0" "\<not> ipLimitPerWindow env \<le> 0" "\<not> walletLimitPerWindow env \<le> 0"
    using m by (auto simp: memory_mode_def)
  obtain st1 d1 where c1: "consumeForScope Ip_scope ip (ipLimitPerWindow env) (rateWindowSecs env) now None
      (requireRedisForRateLimit env) st0 = (st1, d1)" by (metis prod.exhaust)
  have one: "ip = [] \<and> st1 = st0 \<and> rd_ok d1 \<or> (ip \<noteq> [] \<and> walletBuckets st1 = walletBuckets st0
      \<and> (\<exists>d0. consume (ipBuckets st0) ip (ipLimitPerWindow env) w now = (ipBuckets st1, d0)
         \<and> rd_ok d1 = rd_ok d0 \<and> (\<not> rd_ok d1 \<longrightarrow> rd_scope d1 = Some Ip_scope)))"
    using c1 pos by (auto simp: consumeForScope_memory[OF m] w_def dest: consumeInMemory_Ip split: if_splits)
  show thesis
  proof (cases "rd_ok d1")
    case False
    then have "st' = st1" "d = d1" using ev c1 by (auto simp: evaluateShieldRateLimit_def Let_def st0_def)
    then show thesis using one False ip_denied by blast
  next
    case True
    have i: "ip = [] \<and> st1 = st0 \<or> (ip \<noteq> [] \<and> (\<exists>d0. consume (ipBuckets st0) ip (ipLimitPerWindow env) w now
          = (ipBuckets st1, d0) \<and> rd_ok d0) \<and> walletBuckets st1 = walletBuckets st0)" using one True by blast
    have "ws = [] \<and> st' = st1 \<and> rd_ok d \<or> (ws \<noteq> [] \<and> ipBuckets st' = ipBuckets st1 \<and>
         (\<exists>d1. consume (walletBuckets st1) ws (walletLimitPerWindow env) w now = (walletBuckets st', d1)
            \<and> rd_ok d1 = rd_ok d \<and> (\<not> rd_ok d \<longrightarrow> rd_scope d = Some Wallet_scope)))"
      using ev c1 True pos
      by (auto simp: evaluateShieldRateLimit_def Let_def st0_def consumeForScope_memory[OF m] w_def ws_def
          dest: consumeInMemory_Wallet split: if_splits prod.splits)
    then show thesis using i ip_passed by metis
  qed
qed

lemma ip_law:
  assumes m: "memory_mode env" "k \<noteq> []" and wf: "wf_rate st" and step: "ip_step env k st ev = (st', acc)"
  shows "bucket_step (rateWindowSecs env * 1000) (ipLimitPerWindow env) (bucket_of (ipBuckets st) k)
     (rate_time ev) (bucket_of (ipBuckets st') k) acc"
proof -
  obtain now ip wallet where e: "ev = (now, ip, wallet)" by (cases ev)
  let ?w = "rateWindowSecs env * 1000" and ?b = "bucket_of (ipBuckets st) k"
  let ?st0 = "cleanupRateLimitState env now st"
  obtain d where ev: "evaluateShieldRateLimit env None now ip wallet st = (st', d)"
    and acc: "acc = (ip = k \<and> (rd_ok d \<or> rd_scope d = Some Wallet_scope))"
    using step by (auto simp: ip_step_def e split: prod.splits)
  have lim: "0 < ipLimitPerWindow env" "0 < ?w" using m by (auto simp: memory_mode_def)
  note live = cleanup_buckets(1)[OF wf, of env now k]
  have step_k: "bucket_step ?w (ipLimitPerWindow env) ?b now (bucket_of m' k) (rd_ok d0)"
    if "ip = k" "consume (ipBuckets ?st0) ip (ipLimitPerWindow env) ?w now = (m', d0)" for m' d0
    using consume_bucket_step[OF that(2)[unfolded that(1)] m(2) lim] by (simp add: live bucket_step_live)
  have keep_k: "bucket_step ?w (ipLimitPerWindow env) ?b now b' False" if "b' = bucket_of (ipBuckets ?st0) k" for b'
    using bucket_step_live_keep by (simp add: that live)
  from m(1) ev have "bucket_step ?w (ipLimitPerWindow env) ?b now (bucket_of (ipBuckets st') k) acc"
  proof (cases rule: evaluate_memory)
    case (ip_denied d0)
    have na: "\<not> acc" using acc ip_denied(5,6) by simp
    show ?thesis
    proof (cases "ip = k")
      case True
      show ?thesis using step_k[OF True ip_denied(2)] ip_denied(3) na by simp
    next
      case False
      have "bucket_of (ipBuckets st') k = bucket_of (ipBuckets ?st0) k"
        by (rule consume_other[OF _ ip_denied(2)]) (use False in simp)
      from keep_k[OF this] na show ?thesis by simp
    qed
  next
    case (ip_passed d0 st1)
    then have ip': "ipBuckets st' = ipBuckets st1" and ok: "rd_ok d \<or> rd_scope d = Some Wallet_scope" by auto
    show ?thesis
    proof (cases "ip = k")
      case True
      then have c: "consume (ipBuckets ?st0) ip (ipLimitPerWindow env) ?w now = (ipBuckets st1, d0)" "rd_ok d0"
        using ip_passed(1) m(2) by auto
      show ?thesis using step_k[OF True c(1)] c(2) ip' ok acc True by simp
    next
      case False
      have "bucket_of (ipBuckets st') k = bucket_of (ipBuckets ?st0) k"
        using ip_passed(1) False ip' consume_other[of k ip] by metis
      from keep_k[OF this] False acc show ?thesis by simp
    qed
  qed
  then show ?thesis by (simp add: rate_time_def e)
qed

lemma wallet_law:
  assumes m: "memory_mode env" "k \<noteq> []" and wf: "wf_rate st" and step: "wallet_step env k st ev = (st', acc)"
  shows "bucket_step (rateWindowSecs env * 1000) (walletLimitPerWindow env) (bucket_of (walletBuckets st) k)
     (rate_time ev) (bucket_of (walletBuckets st') k) acc"
proof -
  obtain now ip wallet where e: "ev = (now, ip, wallet)" by (cases ev)
  let ?w = "rateWindowSecs env * 1000" and ?b = "bucket_of (walletBuckets st) k"
  let ?st0 = "cleanupRateLimitState env now st"
  obtain d where ev: "evaluateShieldRateLimit env None now ip wallet st = (st', d)"
    and acc: "acc = (wallet = Some k \<and> rd_ok d)"
    using step by (auto simp: wallet_step_def e split: prod.splits)
  have lim: "0 < walletLimitPerWindow env" "0 < ?w" using m by (auto simp: memory_mode_def)
  note live = cleanup_buckets(2)[OF wf, of env now k]
  have step_k: "bucket_step ?w (walletLimitPerWindow env) ?b now (bucket_of m' k) (rd_ok d0)"
    if "consume (walletBuckets ?st0) k (walletLimitPerWindow env) ?w now = (m', d0)" for m' d0
    using consume_bucket_step[OF that m(2) lim] by (simp add: live bucket_step_live)
  have keep_k: "bucket_step ?w (walletLimitPerWindow env) ?b now b' False" if "b' = bucket_of (walletBuckets ?st0) k" for b'
    using bucket_step_live_keep by (simp add: that live)
  from m(1) ev have "bucket_step ?w (walletLimitPerWindow env) ?b now (bucket_of (walletBuckets st') k) acc"
  proof (cases rule: evaluate_memory)
    case (ip_denied d0)
    then show ?thesis using acc keep_k by simp
  next
    case (ip_passed d0 st1)
    then have w1: "walletBuckets st1 = walletBuckets ?st0" by auto
    show ?thesis
    proof (cases "wallet = Some k")
      case True
      then show ?thesis using ip_passed(2) m(2) w1 step_k acc by auto
    next
      case False
      then have "opt_or wallet [] = [] \<or> k \<noteq> opt_or wallet []" by (cases wallet) auto
      then have "bucket_of (walletBuckets st') k = bucket_of (walletBuckets ?st0) k"
        using ip_passed(2) w1 by (metis consume_other)
      then show ?thesis using keep_k False acc by simp
    qed
  qed
  then show ?thesis by (simp add: rate_time_def e)
qed

interpretation ip_guard: fixed_window "memory_mode env \<and> k \<noteq> []" wf_rate "\<lambda>st. bucket_of (ipBuckets st) k"
    "ip_step env k" rate_time "rateWindowSecs env * 1000" "ipLimitPerWindow env" for env k
  by unfold_locales (auto simp: memory_mode_def ip_step_def intro: ip_law wf_evaluate split: prod.splits)

interpretation wallet_guard: fixed_window "memory_mode env \<and> k \<noteq> []" wf_rate "\<lambda>st. bucket_of (walletBuckets st) k"
    "wallet_step env k" rate_time "rateWindowSecs env * 1000" "walletLimitPerWindow env" for env k
  by unfold_locales (auto simp: memory_mode_def wallet_step_def intro: wallet_law wf_evaluate split: prod.splits)

subsection \<open>Properties\<close>

definition rate_empty :: rate_state where
  "rate_empty = \<lparr>ipBuckets = [], walletBuckets = []\<rparr>"

lemma rate_empty_facts: "wf_rate rate_empty" "bucket_of (ipBuckets rate_empty) k = None"
  "bucket_of (walletBuckets rate_empty) k = None"
  by (simp_all add: wf_rate_def rate_empty_def bucket_of_def)

text \<open>
  C5. From a fresh process in memory mode, whatever the order of addresses and wallets, every interval
  of one window's length lets through at most twice the limit of an IP address, and of a wallet; the
  factor two is the boundary of two fixed windows, and cleaning up expired buckets costs nothing.
\<close>

theorem rate_limit_holds_in_every_window:
  assumes "memory_mode env" "key \<noteq> []" "sorted (map rate_time evs)"
  shows "int (in_window lo (lo + rateWindowSecs env * 1000)
           (accepted_at rate_time (run_guard (ip_step env key) rate_empty evs))) \<le> 2 * ipLimitPerWindow env
     \<and> int (in_window lo (lo + rateWindowSecs env * 1000)
           (accepted_at rate_time (run_guard (wallet_step env key) rate_empty evs))) \<le> 2 * walletLimitPerWindow env"
  using assms rate_empty_facts
  by (intro conjI ip_guard.at_most_twice_limit wallet_guard.at_most_twice_limit) auto

definition small_limits :: env where
  "small_limits name = (if name = ''SHIELD_RATE_LIMIT_PER_IP'' then Some ''2''
     else if name = ''SHIELD_RATE_WINDOW_SECS'' then Some ''1'' else None)"

theorem rate_limit_holds_in_every_window_witness:
  "int (in_window 900 1900 (accepted_at rate_time (run_guard (ip_step small_limits ''9.9.9.9'') rate_empty
     [(0, ''9.9.9.9'', None), (900, ''9.9.9.9'', None), (950, ''9.9.9.9'', Some ''W''), (1000, ''9.9.9.9'', None),
      (1001, ''9.9.9.9'', None), (1002, ''9.9.9.9'', None)]))) = 3
   \<and> (3::int) \<le> 2 * ipLimitPerWindow small_limits"
proof -
  let ?evs = "[(0, ''9.9.9.9'', None), (900, ''9.9.9.9'', None), (950, ''9.9.9.9'', Some ''W''), (1000, ''9.9.9.9'', None),
      (1001, ''9.9.9.9'', None), (1002, ''9.9.9.9'', None)] :: rate_event list"
  have m: "memory_mode small_limits" by code_simp
  have s: "sorted (map rate_time ?evs)" by (simp add: rate_time_def)
  have n: "int (in_window 900 1900 (accepted_at rate_time
      (run_guard (ip_step small_limits ''9.9.9.9'') rate_empty ?evs))) = 3" by code_simp
  have w: "rateWindowSecs small_limits = 1" by code_simp
  from rate_limit_holds_in_every_window [OF m _ s, of "''9.9.9.9''" 900] n w show ?thesis by simp
qed

text \<open>
  Fail closed: where Redis is required and cannot be used, every call with an address is refused
  with \<open>backend_unavailable\<close> in the IP scope, and the only change of state is the clean-up.
\<close>

theorem rate_limit_fails_closed:
  assumes "requireRedisForRateLimit env" "redis = None \<or> redis = Some (\<lambda>_ _. Eval_failed)"
    and "ip \<noteq> []" "0 < rateWindowSecs env" "0 < ipLimitPerWindow env"
  shows "evaluateShieldRateLimit env redis now ip wallet st =
     (cleanupRateLimitState env now st, rate_unavailable Ip_scope ip)"
  using assms by (auto simp: evaluateShieldRateLimit_def consumeForScope_def rate_unavailable_def Let_def)

theorem rate_limit_fails_closed_witness:
  "evaluateShieldRateLimit (\<lambda>n. if n = ''NODE_ENV'' then Some ''production'' else None) None 5 ''127.0.0.1'' (Some ''W'') rate_empty
   = (rate_empty, rate_unavailable Ip_scope ''127.0.0.1'')"
proof -
  let ?env = "\<lambda>n. if n = ''NODE_ENV'' then Some ''production'' else None"
  have "requireRedisForRateLimit ?env" "0 < rateWindowSecs ?env" "0 < ipLimitPerWindow ?env" by code_simp+
  from rate_limit_fails_closed [OF this(1) _ _ this(2,3), of None "''127.0.0.1''" 5 "Some ''W''" rate_empty]
  show ?thesis by (simp add: cleanupRateLimitState_def rate_empty_def live_buckets_def Let_def)
qed

text \<open>
  The guard of \<open>positiveIntEnv\<close> is before the rounding: a window set to a positive fraction of a
  second is floored to zero and turns both limits off, in every state, Redis required or not.
\<close>

theorem fractional_window_disables_limits:
  assumes "env ''SHIELD_RATE_WINDOW_SECS'' = Some ''0.5''"
  shows "evaluateShieldRateLimit env redis now ip wallet st = (cleanupRateLimitState env now st, rate_pass)"
proof -
  have "finite_num (number_of_string ''0.5'') = Some (1 / 2)" by code_simp
  then have "rateWindowSecs env = 0"
    using assms by (simp add: rateWindowSecs_def positiveIntEnv_def floor_eq_iff)
  then show ?thesis by (simp add: evaluateShieldRateLimit_def consumeForScope_def Let_def)
qed

theorem fractional_window_disables_limits_witness:
  "rd_ok (snd (evaluateShieldRateLimit (\<lambda>n. if n = ''SHIELD_RATE_WINDOW_SECS'' then Some ''0.5'' else Some ''production'')
     None 5 ''127.0.0.1'' None rate_empty))"
  by (subst fractional_window_disables_limits) simp_all

end
