(* ===== verification/Shield_Route.thy ===== *)
theory Shield_Route
  imports Shield_Handler Rate_Limit
begin

section \<open>The HTTP route of the oracle (app/api/shield-score/route.ts)\<close>

text \<open>
  \<open>POST\<close>: the client's address, the freeze switch, the rate limits and the handler, with the state of
  both services threaded through. The headers, the request's own address and the parsed body (\<open>None\<close>
  where \<open>req.json()\<close> throws) are arguments; \<open>isIP\<close> of \<open>node:net\<close> is a parameter.
\<close>

definition strip_mapped :: "string \<Rightarrow> string" where
  "strip_mapped s = (if to_lower (take 7 s) = ''::ffff:'' then drop 7 s else s)"

text \<open>\<open>/^(\d{1,3}(?:\.\d{1,3}){3}):\d+$/\<close>, as its first group.\<close>

definition ipv4_with_port :: "string \<Rightarrow> string option" where
  "ipv4_with_port s = (case split_char (CHR '':'') s of
       [a, port] \<Rightarrow> if all_digits 10 port \<and> length (split_char (CHR ''.'') a) = 4
            \<and> list_all (\<lambda>d. all_digits 10 d \<and> length d \<le> 3) (split_char (CHR ''.'') a)
          then Some a else None
     | _ \<Rightarrow> None)"

definition normalizeIp :: "(string \<Rightarrow> bool) \<Rightarrow> string option \<Rightarrow> string option" where
  "normalizeIp isIP value =
     (case value of None \<Rightarrow> None
      | Some v \<Rightarrow>
          if trim v = [] then None
          else let candidate = strip_mapped (trim v) in
            if isIP candidate then Some candidate
            else (case ipv4_with_port candidate of
                    Some a \<Rightarrow> if isIP a then Some a else None | None \<Rightarrow> None))"

definition firstForwardedIp :: "(string \<Rightarrow> bool) \<Rightarrow> string option \<Rightarrow> string option" where
  "firstForwardedIp isIP headerValue =
     (case headerValue of None \<Rightarrow> None
      | Some h \<Rightarrow> if h = [] then None
          else (case List.map_filter (\<lambda>raw. normalizeIp isIP (Some raw)) (split_char (CHR '','') h) of
                  [] \<Rightarrow> None | ip # _ \<Rightarrow> Some ip))"

record request_origin =
  forwarded_for :: "string option"
  real_ip :: "string option"
  request_ip :: "string option"

definition clientIp :: "env \<Rightarrow> (string \<Rightarrow> bool) \<Rightarrow> request_origin \<Rightarrow> string" where
  "clientIp env isIP req =
     (let direct = opt_or (normalizeIp isIP (request_ip req)) ''unknown'' in
      if env_is env ''SHIELD_TRUST_PROXY_HEADERS'' ''1''
      then (case firstForwardedIp isIP (forwarded_for req) of
              Some ip \<Rightarrow> ip
            | None \<Rightarrow> (case normalizeIp isIP (real_ip req) of Some ip \<Rightarrow> ip | None \<Rightarrow> direct))
      else direct)"

definition parseWallet :: "jsval \<Rightarrow> string option" where
  "parseWallet body =
     (case js_string (js_prop_opt body ''wallet'') of None \<Rightarrow> None
      | Some w \<Rightarrow> if w \<noteq> [] then Some w else None)"

datatype route_body = Shield_frozen | Rate_backend_down rat | Rate_exceeded rat "rate_scope option"
  | Handled shield_body | Invalid_json

record route_response =
  rr_status :: int
  rr_retryAfter :: "rat option"
  rr_body :: route_body

record ('k, 'v) route_state =
  rs_rate :: rate_state
  rs_oracle :: "('k, 'v) oracle_state"

definition POST ::
  "env \<Rightarrow> (string \<Rightarrow> bool) \<Rightarrow> redis \<Rightarrow> ('k, 'v) oracle_services \<Rightarrow> int \<Rightarrow> readings \<Rightarrow> request_origin \<Rightarrow> jsval option \<Rightarrow>
   ('k, 'v) route_state \<Rightarrow> ('k, 'v) route_state \<times> route_response" where
  "POST env isIP redis sv rateNow r req body st =
     (let ip = clientIp env isIP req in
      if env_is env ''SHIELD_FREEZE'' ''1''
      then (st, \<lparr>rr_status = 503, rr_retryAfter = None, rr_body = Shield_frozen\<rparr>)
      else case body of
        None \<Rightarrow> (st, \<lparr>rr_status = 400, rr_retryAfter = None, rr_body = Invalid_json\<rparr>)
      | Some b \<Rightarrow>
        (let (rate, decision) = evaluateShieldRateLimit env redis rateNow ip (parseWallet b) (rs_rate st);
             st1 = st\<lparr>rs_rate := rate\<rparr> in
         if \<not> rd_ok decision then
           (if rd_reason decision = Some Rate_backend_unavailable
            then (st1, \<lparr>rr_status = 503, rr_retryAfter = Some (rd_retryAfterSec decision),
                    rr_body = Rate_backend_down (rd_retryAfterSec decision)\<rparr>)
            else (st1, \<lparr>rr_status = 429, rr_retryAfter = Some (rd_retryAfterSec decision),
                    rr_body = Rate_exceeded (rd_retryAfterSec decision) (rd_scope decision)\<rparr>))
         else
           (let (orc, result) = handleShieldScoreRequest sv r (rs_oracle st1) (js_nullish b (JObj [])) in
            (st1\<lparr>rs_oracle := orc\<rparr>,
             \<lparr>rr_status = sr_status result, rr_retryAfter = None, rr_body = Handled (sr_body result)\<rparr>))))"

subsection \<open>Properties\<close>

lemma normalizeIp_isIP: "normalizeIp isIP v = Some ip \<Longrightarrow> isIP ip"
  by (auto simp: normalizeIp_def Let_def split: option.splits if_splits)

lemma firstForwardedIp_isIP: "firstForwardedIp isIP h = Some ip \<Longrightarrow> isIP ip"
proof -
  assume f: "firstForwardedIp isIP h = Some ip"
  then obtain s where h: "h = Some s" by (auto simp: firstForwardedIp_def split: option.splits)
  let ?l = "List.map_filter (\<lambda>raw. normalizeIp isIP (Some raw)) (split_char (CHR '','') s)"
  have "ip \<in> set ?l" using f h by (auto simp: firstForwardedIp_def split: list.splits if_splits)
  then show ?thesis using normalizeIp_isIP by (auto simp: List.map_filter_def)
qed

text \<open>
  The address the limits count is an address (or \<open>unknown\<close>), and without the switch for trusted
  proxies no header can change it: a client cannot pick its own bucket.
\<close>

theorem client_ip_not_spoofable:
  "(clientIp env isIP req = ''unknown'' \<or> isIP (clientIp env isIP req))
   \<and> (\<not> env_is env ''SHIELD_TRUST_PROXY_HEADERS'' ''1'' \<longrightarrow>
        clientIp env isIP (req\<lparr>forwarded_for := f, real_ip := h\<rparr>) = clientIp env isIP req)"
proof
  have d: "opt_or (normalizeIp isIP (request_ip req)) ''unknown'' = ''unknown''
      \<or> isIP (opt_or (normalizeIp isIP (request_ip req)) ''unknown'')"
    by (cases "normalizeIp isIP (request_ip req)") (auto dest: normalizeIp_isIP)
  show "clientIp env isIP req = ''unknown'' \<or> isIP (clientIp env isIP req)"
    using d by (auto simp: clientIp_def Let_def dest: normalizeIp_isIP firstForwardedIp_isIP split: option.split)
qed (simp add: clientIp_def Let_def)

theorem client_ip_not_spoofable_witness:
  "clientIp (\<lambda>_. None) (\<lambda>s. s = ''9.9.9.9'') \<lparr>forwarded_for = Some ''1.1.1.1'', real_ip = None, request_ip = Some ''::ffff:9.9.9.9:443''\<rparr>
     = ''9.9.9.9''"
proof -
  let ?req = "\<lparr>forwarded_for = None, real_ip = None, request_ip = Some ''::ffff:9.9.9.9:443''\<rparr>"
  have "clientIp (\<lambda>_. None) (\<lambda>s. s = ''9.9.9.9'') ?req = ''9.9.9.9''" by code_simp
  with client_ip_not_spoofable [of "\<lambda>_. None" "\<lambda>s. s = ''9.9.9.9''" ?req None "Some ''1.1.1.1''"]
  show ?thesis by (simp add: env_is_def)
qed

text \<open>
  C39. The oracle signs only behind the gates: a response with an issued score means the service is not
  frozen, the body parsed, the limits let the request through, and it is the handler's own answer; in
  every other case before the handler its state, the one-time map and the key, is untouched.
\<close>

theorem route_signs_only_behind_gates:
  assumes "POST env isIP redis sv rateNow r req body st = (st', resp)"
  shows "rs_oracle st' = rs_oracle st \<and> (\<forall>b. rr_body resp \<noteq> Handled b)
       \<and> (env_is env ''SHIELD_FREEZE'' ''1'' \<longrightarrow> st' = st \<and> rr_status resp = 503)
     \<or> \<not> env_is env ''SHIELD_FREEZE'' ''1'' \<and> (\<exists>b res. body = Some b
       \<and> evaluateShieldRateLimit env redis rateNow (clientIp env isIP req) (parseWallet b) (rs_rate st)
           = (rs_rate st', snd (evaluateShieldRateLimit env redis rateNow (clientIp env isIP req) (parseWallet b) (rs_rate st)))
       \<and> rd_ok (snd (evaluateShieldRateLimit env redis rateNow (clientIp env isIP req) (parseWallet b) (rs_rate st)))
       \<and> handleShieldScoreRequest sv r (rs_oracle st) (js_nullish b (JObj [])) = (rs_oracle st', res)
       \<and> rr_body resp = Handled (sr_body res) \<and> rr_status resp = sr_status res)"
  using assms
  by (cases body) (auto simp: POST_def Let_def split: if_splits prod.splits)

theorem route_signs_only_behind_gates_witness:
  "\<not> (\<exists>b. rr_body (snd (POST (\<lambda>n. if n = ''SHIELD_FREEZE'' then Some ''1'' else None) (\<lambda>_. True) None (sample_services 0) 0
     (sample_readings 0) \<lparr>forwarded_for = None, real_ip = None, request_ip = None\<rparr> (Some (sample_body ''guest'' ''a''))
     \<lparr>rs_rate = rate_empty, rs_oracle = sample_oracle\<rparr>)) = Handled b)"
proof -
  let ?env = "\<lambda>n. if n = ''SHIELD_FREEZE'' then Some ''1'' else None"
  let ?p = "POST ?env (\<lambda>_. True) None (sample_services 0) 0 (sample_readings 0)
     \<lparr>forwarded_for = None, real_ip = None, request_ip = None\<rparr> (Some (sample_body ''guest'' ''a''))
     \<lparr>rs_rate = rate_empty, rs_oracle = sample_oracle\<rparr>"
  have "?p = (fst ?p, snd ?p)" by simp
  from route_signs_only_behind_gates [OF this] show ?thesis by (auto simp: env_is_def)
qed

end
