(* ===== verification/Client_Codec.thy ===== *)
theory Client_Codec
  imports Byte_Codec Js_Value Js_Number
begin

section \<open>Decoding on the client (lib/unforgiven-v2-client.ts)\<close>

text \<open>
  Accounts and events of the chain program as the client reads them: fixed offsets into byte arrays
  after an 8-byte discriminator, little-endian integers, 32-byte keys; and the conversions between
  lamports and SOL, hexadecimal and bytes. A \<open>PublicKey\<close> is its 32 bytes; SHA-256 is a parameter. The
  lemmas give the layouts the parsers read, as round trips, and the accuracy of the conversions.
\<close>

type_synonym pubkey = bytes

subsection \<open>Snapshots\<close>

record global_config =
  gc_authority :: pubkey
  gc_bump :: int

record admin_config =
  ac_authority :: pubkey
  ac_oraclePubkey :: bytes
  ac_activeScoringModelHash :: bytes
  ac_bump :: int

record ticket_receipt =
  tr_address :: pubkey
  tr_mint :: pubkey
  tr_eventKey :: pubkey
  tr_originalBuyer :: pubkey
  tr_currentHolder :: pubkey
  tr_purchasePriceLamports :: int
  tr_lastSalePriceLamports :: int
  tr_issuedAt :: int
  tr_lastTransferAt :: int
  tr_nonce :: int
  tr_zkProofHashHex :: string
  tr_listed :: bool
  tr_resaleCount :: int
  tr_bump :: int

record ticket_listing =
  tl_address :: pubkey
  tl_seller :: pubkey
  tl_mint :: pubkey
  tl_askPriceLamports :: int
  tl_createdAt :: int
  tl_bump :: int

record execution_event =
  ev_finalPriceLamports :: int
  ev_blocked :: bool
  ev_effectiveVelocityBps :: int
  ev_dignityScore :: int
  ev_adapterMask :: int
  ev_userMode :: int
  ev_nonce :: int
  ev_zkProofHashHex :: string

subsection \<open>Conversions\<close>

definition boolFromByte :: "bytes \<Rightarrow> nat \<Rightarrow> bool" where
  "boolFromByte bs off = (off < length bs \<longrightarrow> bs ! off \<noteq> 0)"

definition hexToBytes :: "string \<Rightarrow> bytes result" where
  "hexToBytes hex = (let clean = (if starts_with hex ''0x'' then drop 2 hex else hex) in
     if length clean mod 2 \<noteq> 0 then Inl (Thrown ''invalid hex length'')
     else Inr (buffer_from_hex clean))"

definition bytesToHex :: "bytes \<Rightarrow> string" where
  "bytesToHex bs = to_hex bs"

definition lamportsToSol :: "int \<Rightarrow> rat" where
  "lamportsToSol lamports = fl (fl (of_int lamports) / 1000000000)"

definition solToLamports :: "rat \<Rightarrow> int" where
  "solToLamports v = js_round (fl (v * 1000000000))"

definition normalizeSignedProofPayload :: "jsval \<Rightarrow> jsval list" where
  "normalizeSignedProofPayload proof =
     (if \<not> js_truthy proof then []
      else filter (\<lambda>item. case js_own item ''signatures'' of Some (JArr (_ # _)) \<Rightarrow> True | _ \<Rightarrow> False)
             (case proof of JArr xs \<Rightarrow> xs | _ \<Rightarrow> [proof]))"

definition anchorDiscriminator :: "(string \<Rightarrow> bytes) \<Rightarrow> string \<Rightarrow> string \<Rightarrow> bytes" where
  "anchorDiscriminator sha256 namespace name = slice (sha256 (namespace @ '':'' @ name)) 0 8"

definition hasAccountDiscriminator :: "(string \<Rightarrow> bytes) \<Rightarrow> bytes \<Rightarrow> string \<Rightarrow> bool" where
  "hasAccountDiscriminator sha256 data name =
     (let expected = anchorDiscriminator sha256 ''account'' name in
      list_all (\<lambda>i. i < length data \<and> data ! i = expected ! i) [0..<length expected])"

subsection \<open>Accounts\<close>

definition parseGlobalConfigAccount :: "bytes \<Rightarrow> global_config option" where
  "parseGlobalConfigAccount data =
     (if length data < 41 then None
      else Some \<lparr>gc_authority = slice data 8 40, gc_bump = byte_at data 40\<rparr>)"

definition parseAdminConfigAccount :: "bytes \<Rightarrow> admin_config option" where
  "parseAdminConfigAccount data =
     (if length data < 105 then None
      else Some \<lparr>ac_authority = slice data 8 40, ac_oraclePubkey = slice data 40 72,
             ac_activeScoringModelHash = slice data 72 104, ac_bump = byte_at data 104\<rparr>)"

definition parseTicketReceiptAccount :: "pubkey \<Rightarrow> bytes \<Rightarrow> ticket_receipt option" where
  "parseTicketReceiptAccount address data =
     (if length data < 218 then None
      else Some \<lparr>tr_address = address, tr_mint = slice data 8 40, tr_eventKey = slice data 40 72,
             tr_originalBuyer = slice data 72 104, tr_currentHolder = slice data 104 136,
             tr_purchasePriceLamports = readU64LE data 136, tr_lastSalePriceLamports = readU64LE data 144,
             tr_issuedAt = readI64LE data 152, tr_lastTransferAt = readI64LE data 160,
             tr_nonce = readU64LE data 168, tr_zkProofHashHex = bytesToHex (slice data 176 208),
             tr_listed = boolFromByte data 208, tr_resaleCount = readU64LE data 209, tr_bump = byte_at data 217\<rparr>)"

definition parseTicketListingAccount :: "pubkey \<Rightarrow> bytes \<Rightarrow> ticket_listing option" where
  "parseTicketListingAccount address data =
     (if length data < 89 then None
      else Some \<lparr>tl_address = address, tl_seller = slice data 8 40, tl_mint = slice data 40 72,
             tl_askPriceLamports = readU64LE data 72, tl_createdAt = readI64LE data 80, tl_bump = byte_at data 88\<rparr>)"

subsection \<open>Events\<close>

text \<open>\<open>Buffer.from(s, 'base64')\<close>: both alphabets, other characters skipped, up to the padding.\<close>

definition base64_val :: "char \<Rightarrow> nat option" where
  "base64_val c = (let n = (of_char c :: nat) in
     if 65 \<le> n \<and> n \<le> 90 then Some (n - 65)
     else if 97 \<le> n \<and> n \<le> 122 then Some (n - 71)
     else if 48 \<le> n \<and> n \<le> 57 then Some (n + 4)
     else if n = 43 \<or> n = 45 then Some 62
     else if n = 47 \<or> n = 95 then Some 63 else None)"

fun base64_bytes :: "nat list \<Rightarrow> bytes" where
  "base64_bytes (a # b # c # d # r) =
     of_nat (a * 4 + b div 16) # of_nat (b * 16 + c div 4) # of_nat (c * 64 + d) # base64_bytes r"
| "base64_bytes [a, b, c] = [of_nat (a * 4 + b div 16), of_nat (b * 16 + c div 4)]"
| "base64_bytes [a, b] = [of_nat (a * 4 + b div 16)]"
| "base64_bytes _ = []"

definition buffer_from_base64 :: "string \<Rightarrow> bytes" where
  "buffer_from_base64 s =
     base64_bytes (List.map_filter base64_val (takeWhile (\<lambda>c. c \<noteq> CHR ''='') s))"

definition eventOfLine :: "bytes \<Rightarrow> string \<Rightarrow> execution_event option" where
  "eventOfLine eventDisc line =
     (if \<not> starts_with line ''Program data: '' then None
      else let raw = buffer_from_base64 (drop (length ''Program data: '') line) in
        if length raw < 68 then None
        else if \<not> list_all (\<lambda>i. i < length eventDisc \<and> raw ! i = eventDisc ! i) [0..<8] then None
        else Some \<lparr>ev_finalPriceLamports = readU64LE raw 8, ev_blocked = boolFromByte raw 16,
          ev_effectiveVelocityBps = readI64LE raw 17, ev_dignityScore = byte_at raw 25,
          ev_adapterMask = byte_at raw 26, ev_userMode = byte_at raw 27, ev_nonce = readU64LE raw 28,
          ev_zkProofHashHex = bytesToHex (slice raw 36 68)\<rparr>)"

fun firstEvent :: "bytes \<Rightarrow> string list \<Rightarrow> execution_event option" where
  "firstEvent eventDisc [] = None"
| "firstEvent eventDisc (line # rest) =
     (case eventOfLine eventDisc line of Some ev \<Rightarrow> Some ev | None \<Rightarrow> firstEvent eventDisc rest)"

definition parseExecutionEventFromLogs :: "(string \<Rightarrow> bytes) \<Rightarrow> string list \<Rightarrow> execution_event option" where
  "parseExecutionEventFromLogs sha256 logMessages =
     firstEvent (anchorDiscriminator sha256 ''event'' ''ShieldExecutionEvent'') logMessages"

subsection \<open>The layout of a receipt\<close>

text \<open>A receipt as the chain program lays it out, with its 32 bytes of proof hash.\<close>

definition receipt_layout :: "bytes \<Rightarrow> bytes \<Rightarrow> ticket_receipt \<Rightarrow> bytes" where
  "receipt_layout disc proofHash r = disc @ tr_mint r @ tr_eventKey r @ tr_originalBuyer r @ tr_currentHolder r
     @ encodeU64LE (tr_purchasePriceLamports r) @ encodeU64LE (tr_lastSalePriceLamports r)
     @ encodeI64LE (tr_issuedAt r) @ encodeI64LE (tr_lastTransferAt r) @ encodeU64LE (tr_nonce r)
     @ proofHash @ [if tr_listed r then 1 else 0] @ encodeU64LE (tr_resaleCount r) @ [word_of_int (tr_bump r)]"

definition wf_receipt :: "bytes \<Rightarrow> bytes \<Rightarrow> ticket_receipt \<Rightarrow> bool" where
  "wf_receipt disc proofHash r \<longleftrightarrow> length disc = 8 \<and> length (tr_mint r) = 32 \<and> length (tr_eventKey r) = 32
     \<and> length (tr_originalBuyer r) = 32 \<and> length (tr_currentHolder r) = 32 \<and> length proofHash = 32
     \<and> tr_zkProofHashHex r = to_hex proofHash
     \<and> tr_purchasePriceLamports r \<in> {0..<2 ^ 64} \<and> tr_lastSalePriceLamports r \<in> {0..<2 ^ 64}
     \<and> tr_issuedAt r \<in> {- (2 ^ 63)..<2 ^ 63} \<and> tr_lastTransferAt r \<in> {- (2 ^ 63)..<2 ^ 63}
     \<and> tr_nonce r \<in> {0..<2 ^ 64} \<and> tr_resaleCount r \<in> {0..<2 ^ 64} \<and> tr_bump r \<in> {0..<256}"

lemma receipt_slices:
  assumes "wf_receipt disc h r"
  shows "length (receipt_layout disc h r) = 218"
    "slice (receipt_layout disc h r) 8 40 = tr_mint r"
    "slice (receipt_layout disc h r) 40 72 = tr_eventKey r"
    "slice (receipt_layout disc h r) 72 104 = tr_originalBuyer r"
    "slice (receipt_layout disc h r) 104 136 = tr_currentHolder r"
    "slice (receipt_layout disc h r) 176 208 = h"
  using assms by (simp_all add: receipt_layout_def wf_receipt_def slice_def)

lemma receipt_ints:
  assumes wf: "wf_receipt disc h r"
  shows "readU64LE (receipt_layout disc h r) 136 = tr_purchasePriceLamports r"
    "readU64LE (receipt_layout disc h r) 144 = tr_lastSalePriceLamports r"
    "readI64LE (receipt_layout disc h r) 152 = tr_issuedAt r"
    "readI64LE (receipt_layout disc h r) 160 = tr_lastTransferAt r"
    "readU64LE (receipt_layout disc h r) 168 = tr_nonce r"
    "readU64LE (receipt_layout disc h r) 209 = tr_resaleCount r"
proof -
  let ?k = "disc @ tr_mint r @ tr_eventKey r @ tr_originalBuyer r @ tr_currentHolder r"
  let ?a = "encodeU64LE (tr_purchasePriceLamports r)" and ?b = "encodeU64LE (tr_lastSalePriceLamports r)"
    and ?c = "encodeI64LE (tr_issuedAt r)" and ?d = "encodeI64LE (tr_lastTransferAt r)"
    and ?e = "encodeU64LE (tr_nonce r)" and ?l = "[if tr_listed r then 1 else 0] :: bytes"
    and ?f = "encodeU64LE (tr_resaleCount r)" and ?g = "[word_of_int (tr_bump r)] :: bytes"
  note w = wf [unfolded wf_receipt_def atLeastLessThan_iff]
  have "readU64LE (?k @ ?a @ (?b @ ?c @ ?d @ ?e @ h @ ?l @ ?f @ ?g)) 136 = tr_purchasePriceLamports r"
    using w by (intro u64.get_at) auto
  then show "readU64LE (receipt_layout disc h r) 136 = tr_purchasePriceLamports r" by (simp add: receipt_layout_def)
  have "readU64LE ((?k @ ?a) @ ?b @ (?c @ ?d @ ?e @ h @ ?l @ ?f @ ?g)) 144 = tr_lastSalePriceLamports r"
    using w by (intro u64.get_at) auto
  then show "readU64LE (receipt_layout disc h r) 144 = tr_lastSalePriceLamports r" by (simp add: receipt_layout_def)
  have "readI64LE ((?k @ ?a @ ?b) @ ?c @ (?d @ ?e @ h @ ?l @ ?f @ ?g)) 152 = tr_issuedAt r"
    using w by (intro i64.get_at) auto
  then show "readI64LE (receipt_layout disc h r) 152 = tr_issuedAt r" by (simp add: receipt_layout_def)
  have "readI64LE ((?k @ ?a @ ?b @ ?c) @ ?d @ (?e @ h @ ?l @ ?f @ ?g)) 160 = tr_lastTransferAt r"
    using w by (intro i64.get_at) auto
  then show "readI64LE (receipt_layout disc h r) 160 = tr_lastTransferAt r" by (simp add: receipt_layout_def)
  have "readU64LE ((?k @ ?a @ ?b @ ?c @ ?d) @ ?e @ (h @ ?l @ ?f @ ?g)) 168 = tr_nonce r"
    using w by (intro u64.get_at) auto
  then show "readU64LE (receipt_layout disc h r) 168 = tr_nonce r" by (simp add: receipt_layout_def)
  have "readU64LE ((?k @ ?a @ ?b @ ?c @ ?d @ ?e @ h @ ?l) @ ?f @ ?g) 209 = tr_resaleCount r"
    using w by (intro u64.get_at) auto
  then show "readU64LE (receipt_layout disc h r) 209 = tr_resaleCount r" by (simp add: receipt_layout_def)
qed

lemma receipt_bytes:
  assumes "wf_receipt disc h r"
  shows "boolFromByte (receipt_layout disc h r) 208 = tr_listed r" "byte_at (receipt_layout disc h r) 217 = tr_bump r"
  using assms
  by (simp_all add: receipt_layout_def wf_receipt_def boolFromByte_def byte_at_def nth_append
      uint_word_of_int_eq take_bit_int_eq_self)

text \<open>
  The receipt parser inverts the layout: every well-formed receipt is read back from its 218 bytes
  field by field, and nothing shorter is read.
\<close>

theorem receipt_roundtrip:
  assumes "wf_receipt disc proofHash r"
  shows "parseTicketReceiptAccount (tr_address r) (receipt_layout disc proofHash r) = Some r
     \<and> (n < 218 \<longrightarrow> parseTicketReceiptAccount (tr_address r) (take n (receipt_layout disc proofHash r)) = None)"
  using assms
  by (simp add: parseTicketReceiptAccount_def receipt_slices receipt_ints receipt_bytes bytesToHex_def)
     (simp add: wf_receipt_def)

definition sample_receipt :: ticket_receipt where
  "sample_receipt = \<lparr>tr_address = replicate 32 1, tr_mint = replicate 32 2, tr_eventKey = replicate 32 3,
     tr_originalBuyer = replicate 32 4, tr_currentHolder = replicate 32 5, tr_purchasePriceLamports = 910000000,
     tr_lastSalePriceLamports = 0, tr_issuedAt = 1700000000, tr_lastTransferAt = -1, tr_nonce = 9,
     tr_zkProofHashHex = to_hex (replicate 32 6), tr_listed = True, tr_resaleCount = 2, tr_bump = 254\<rparr>"

theorem receipt_roundtrip_witness:
  "parseTicketReceiptAccount (replicate 32 1) (receipt_layout (replicate 8 0) (replicate 32 6) sample_receipt) = Some sample_receipt"
proof -
  have "wf_receipt (replicate 8 0) (replicate 32 6) sample_receipt" by (simp add: wf_receipt_def sample_receipt_def)
  from receipt_roundtrip [OF this] show ?thesis by (simp add: sample_receipt_def)
qed

text \<open>
  Showing lamports as SOL and reading them back loses nothing below \<open>2^50\<close> lamports: the two
  roundings of the division and the product stay within half a lamport.
\<close>

theorem lamports_sol_roundtrip:
  assumes "0 \<le> n" "n \<le> 2 ^ 50"
  shows "solToLamports (lamportsToSol n) = n"
proof -
  let ?r = "of_int n :: rat"
  have n: "0 \<le> ?r" "?r \<le> 2 ^ 50" using assms by (simp, metis of_int_le_iff of_int_power of_int_numeral)
  have e: "fl ?r = ?r" using assms by simp
  let ?s = "fl (?r / 1000000000)"
  have s: "\<bar>?s - ?r / 1000000000\<bar> \<le> ?r / 1000000000 / 2 ^ 53" using fl_error[of "?r / 1000000000"] n by simp
  then have p: "\<bar>?s * 1000000000 - ?r\<bar> \<le> ?r / 2 ^ 53" by (simp add: abs_le_iff field_simps)
  have "?r / 2 ^ 53 \<le> 1 / 8" using n by simp
  then have "\<bar>?s * 1000000000 - ?r\<bar> \<le> 1" using p by linarith
  then have pb: "\<bar>?s * 1000000000\<bar> \<le> 2251799813685248" using n by simp
  have "\<bar>fl (?s * 1000000000) - ?s * 1000000000\<bar> \<le> 1 / 4"
    using fl_error[of "?s * 1000000000"] pb by simp
  with p \<open>?r / 2 ^ 53 \<le> 1 / 8\<close> have "\<bar>fl (?s * 1000000000) - ?r\<bar> \<le> 3 / 8" by linarith
  then have "?r \<le> fl (?s * 1000000000) + 1 / 2 \<and> fl (?s * 1000000000) + 1 / 2 < ?r + 1" by linarith
  then have "\<lfloor>fl (?s * 1000000000) + 1 / 2\<rfloor> = n" by (simp only: floor_eq_iff)
  then show ?thesis by (simp add: solToLamports_def lamportsToSol_def js_round_def e)
qed

theorem lamports_sol_roundtrip_witness:
  "solToLamports (lamportsToSol 1695881429) = 1695881429"
  by (rule lamports_sol_roundtrip) simp_all

end
