(* ===== verification/Client_Instructions.thy ===== *)
theory Client_Instructions
  imports Client_Codec Shield_Handler Shield_Price
begin

section \<open>Addresses, instructions and quotes on the client (lib/unforgiven-v2-client.ts)\<close>

text \<open>
  Program-derived addresses from seeds, the instructions of the ticket program, the reading of owned
  tickets and listings, and the quote the client shows for an oracle's response. The chain is a record
  of parameters: SHA-256, the derivation of an address from seeds and a program, and the addresses of
  the system programs. The lemmas tie the client to the payload the oracle signed.
\<close>

record chain =
  ch_sha256 :: "string \<Rightarrow> bytes"
  ch_pda :: "bytes list \<Rightarrow> pubkey \<Rightarrow> pubkey"
  ch_bpf_loader :: pubkey
  ch_token_program :: pubkey
  ch_system_program :: pubkey
  ch_sysvar_instructions :: pubkey
  ch_sysvar_rent :: pubkey

definition utf8ToBytes :: "string \<Rightarrow> bytes" where
  "utf8ToBytes s = map (\<lambda>c. of_nat (of_char c)) s"

subsection \<open>Derived addresses\<close>

definition deriveProgramDataAddress :: "chain \<Rightarrow> pubkey \<Rightarrow> pubkey" where
  "deriveProgramDataAddress ch programId = ch_pda ch [programId] (ch_bpf_loader ch)"

definition findGlobalConfigV2Pda :: "chain \<Rightarrow> pubkey \<Rightarrow> pubkey" where
  "findGlobalConfigV2Pda ch programId = ch_pda ch [utf8ToBytes ''global_v2''] programId"

definition findAdminConfigPda :: "chain \<Rightarrow> pubkey \<Rightarrow> pubkey" where
  "findAdminConfigPda ch programId = ch_pda ch [utf8ToBytes ''admin_config_v2''] programId"

definition length_text :: "bytes \<Rightarrow> string" where
  "length_text bs = '', got '' @ show_int (int (length bs))"

definition payload_length_error :: "bytes \<Rightarrow> js_error" where
  "payload_length_error bs = Thrown (''payload length mismatch: expected 141'' @ length_text bs)"

definition proofUseSeeds :: "bytes \<Rightarrow> bytes list" where
  "proofUseSeeds payloadBytes =
     [utf8ToBytes ''proof_use'', slice payloadBytes 1 33, slice payloadBytes 61 93, slice payloadBytes 133 141]"

definition findProofUsePda :: "chain \<Rightarrow> pubkey \<Rightarrow> bytes \<Rightarrow> pubkey result" where
  "findProofUsePda ch programId payloadBytes =
     (if length payloadBytes \<noteq> 141 then Inl (payload_length_error payloadBytes)
      else Inr (ch_pda ch (proofUseSeeds payloadBytes) programId))"

definition findTicketMintAuthorityPda :: "chain \<Rightarrow> pubkey \<Rightarrow> pubkey" where
  "findTicketMintAuthorityPda ch programId = ch_pda ch [utf8ToBytes ''ticket_mint_authority_v2''] programId"

definition findTicketMintPda :: "chain \<Rightarrow> pubkey \<Rightarrow> bytes \<Rightarrow> pubkey result" where
  "findTicketMintPda ch programId payloadBytes =
     (if length payloadBytes \<noteq> 141 then Inl (payload_length_error payloadBytes)
      else Inr (ch_pda ch [utf8ToBytes ''ticket_mint_v2'', slice payloadBytes 1 33, slice payloadBytes 61 93,
             slice payloadBytes 133 141] programId))"

definition findTicketTokenPda :: "chain \<Rightarrow> pubkey \<Rightarrow> pubkey \<Rightarrow> pubkey \<Rightarrow> pubkey" where
  "findTicketTokenPda ch programId ticketMint owner =
     ch_pda ch [utf8ToBytes ''ticket_token_v2'', ticketMint, owner] programId"

definition findTicketReceiptPda :: "chain \<Rightarrow> pubkey \<Rightarrow> pubkey \<Rightarrow> pubkey" where
  "findTicketReceiptPda ch programId ticketMint = ch_pda ch [utf8ToBytes ''ticket_receipt_v2'', ticketMint] programId"

definition findTicketListingPda :: "chain \<Rightarrow> pubkey \<Rightarrow> pubkey \<Rightarrow> pubkey" where
  "findTicketListingPda ch programId ticketMint = ch_pda ch [utf8ToBytes ''ticket_listing_v2'', ticketMint] programId"

definition findTicketEscrowPda :: "chain \<Rightarrow> pubkey \<Rightarrow> pubkey \<Rightarrow> pubkey" where
  "findTicketEscrowPda ch programId ticketMint = ch_pda ch [utf8ToBytes ''ticket_escrow_v2'', ticketMint] programId"

subsection \<open>Instructions\<close>

record account_meta =
  am_pubkey :: pubkey
  am_isSigner :: bool
  am_isWritable :: bool

record transaction_instruction =
  ti_programId :: pubkey
  ti_keys :: "account_meta list"
  ti_data :: bytes

text \<open>The arguments of \<open>Ed25519Program.createInstructionWithPublicKey\<close>.\<close>

record ed25519_args =
  ed_publicKey :: bytes
  ed_message :: bytes
  ed_signature :: bytes

abbreviation meta :: "pubkey \<Rightarrow> bool \<Rightarrow> bool \<Rightarrow> account_meta" where
  "meta k s w \<equiv> \<lparr>am_pubkey = k, am_isSigner = s, am_isWritable = w\<rparr>"

definition buildPreviewInstructionData :: "chain \<Rightarrow> bytes \<Rightarrow> bytes \<Rightarrow> bytes" where
  "buildPreviewInstructionData ch payloadBytes oracleSignatureBytes =
     concat [anchorDiscriminator (ch_sha256 ch) ''global'' ''preview_price'', payloadBytes, oracleSignatureBytes]"

definition buildExecuteInstructionData :: "chain \<Rightarrow> bytes \<Rightarrow> bytes \<Rightarrow> bytes result" where
  "buildExecuteInstructionData ch payloadBytes oracleSignatureBytes =
     (if length payloadBytes \<noteq> 141 then Inl (Thrown (''execute_shield payload must be 141 bytes'' @ length_text payloadBytes))
      else if length oracleSignatureBytes \<noteq> 64 then Inl (Thrown (''oracle_signature must be 64 bytes'' @ length_text oracleSignatureBytes))
      else Inr (concat [anchorDiscriminator (ch_sha256 ch) ''global'' ''execute_shield'', payloadBytes, oracleSignatureBytes]))"

record execute_input =
  ei_programId :: pubkey
  ei_userPubkey :: pubkey
  ei_treasuryPubkey :: pubkey
  ei_payloadBytes :: bytes
  ei_oracleSignatureBytes :: bytes
  ei_oraclePubkeyBytes :: bytes

record execute_instructions =
  xi_ed25519Ix :: ed25519_args
  xi_executeIx :: transaction_instruction
  xi_ticketMintPda :: pubkey
  xi_ticketReceiptPda :: pubkey

definition buildExecuteInstructions :: "chain \<Rightarrow> execute_input \<Rightarrow> execute_instructions result" where
  "buildExecuteInstructions ch inp =
     (let prog = ei_programId inp;
          adminConfigPda = findAdminConfigPda ch prog;
          globalConfigPda = findGlobalConfigV2Pda ch prog in
      rbind (findProofUsePda ch prog (ei_payloadBytes inp)) (\<lambda>proofUsePda.
      rbind (findTicketMintPda ch prog (ei_payloadBytes inp)) (\<lambda>ticketMintPda.
      let ticketMintAuthorityPda = findTicketMintAuthorityPda ch prog;
          userTicketTokenPda = findTicketTokenPda ch prog ticketMintPda (ei_userPubkey inp);
          ticketReceiptPda = findTicketReceiptPda ch prog ticketMintPda in
      rbind (buildExecuteInstructionData ch (ei_payloadBytes inp) (ei_oracleSignatureBytes inp)) (\<lambda>dat.
        Inr \<lparr>xi_ed25519Ix = \<lparr>ed_publicKey = ei_oraclePubkeyBytes inp, ed_message = ei_payloadBytes inp,
               ed_signature = ei_oracleSignatureBytes inp\<rparr>,
          xi_executeIx = \<lparr>ti_programId = prog,
            ti_keys = [meta (ei_userPubkey inp) True True, meta globalConfigPda False False,
              meta (ei_treasuryPubkey inp) False True, meta adminConfigPda False False,
              meta (ch_sysvar_instructions ch) False False, meta proofUsePda False True,
              meta ticketMintPda False True, meta ticketMintAuthorityPda False False,
              meta userTicketTokenPda False True, meta ticketReceiptPda False True,
              meta (ch_token_program ch) False False, meta (ch_system_program ch) False False,
              meta (ch_sysvar_rent ch) False False],
            ti_data = dat\<rparr>,
          xi_ticketMintPda = ticketMintPda, xi_ticketReceiptPda = ticketReceiptPda\<rparr>))))"

definition buildListTicketInstruction ::
  "chain \<Rightarrow> pubkey \<Rightarrow> pubkey \<Rightarrow> pubkey \<Rightarrow> int \<Rightarrow> transaction_instruction \<times> pubkey" where
  "buildListTicketInstruction ch programId sellerPubkey ticketMint askPriceLamports =
     (let listingPda = findTicketListingPda ch programId ticketMint in
      (\<lparr>ti_programId = programId,
        ti_keys = [meta sellerPubkey True True, meta ticketMint False False,
          meta (findTicketReceiptPda ch programId ticketMint) False True,
          meta (findTicketTokenPda ch programId ticketMint sellerPubkey) False True,
          meta listingPda False True, meta (findTicketEscrowPda ch programId ticketMint) False True,
          meta (ch_token_program ch) False False, meta (ch_system_program ch) False False,
          meta (ch_sysvar_rent ch) False False],
        ti_data = concat [anchorDiscriminator (ch_sha256 ch) ''global'' ''list_ticket'', encodeU64LE askPriceLamports]\<rparr>,
       listingPda))"

definition buildCancelTicketListingInstruction :: "chain \<Rightarrow> pubkey \<Rightarrow> pubkey \<Rightarrow> pubkey \<Rightarrow> transaction_instruction" where
  "buildCancelTicketListingInstruction ch programId sellerPubkey ticketMint =
     \<lparr>ti_programId = programId,
      ti_keys = [meta sellerPubkey True True, meta ticketMint False False,
        meta (findTicketReceiptPda ch programId ticketMint) False True,
        meta (findTicketListingPda ch programId ticketMint) False True,
        meta (findTicketTokenPda ch programId ticketMint sellerPubkey) False True,
        meta (findTicketEscrowPda ch programId ticketMint) False True,
        meta (ch_token_program ch) False False, meta (ch_system_program ch) False False,
        meta (ch_sysvar_rent ch) False False],
      ti_data = anchorDiscriminator (ch_sha256 ch) ''global'' ''cancel_ticket_listing''\<rparr>"

definition buildFillTicketListingInstruction ::
  "chain \<Rightarrow> pubkey \<Rightarrow> pubkey \<Rightarrow> pubkey \<Rightarrow> pubkey \<Rightarrow> pubkey \<Rightarrow> transaction_instruction" where
  "buildFillTicketListingInstruction ch programId buyerPubkey sellerPubkey feeRecipientPubkey ticketMint =
     \<lparr>ti_programId = programId,
      ti_keys = [meta buyerPubkey True True, meta sellerPubkey False True,
        meta (findGlobalConfigV2Pda ch programId) False False, meta feeRecipientPubkey False True,
        meta ticketMint False False,
        meta (findTicketReceiptPda ch programId ticketMint) False True,
        meta (findTicketListingPda ch programId ticketMint) False True,
        meta (findTicketTokenPda ch programId ticketMint buyerPubkey) False True,
        meta (findTicketEscrowPda ch programId ticketMint) False True,
        meta (ch_token_program ch) False False, meta (ch_system_program ch) False False,
        meta (ch_sysvar_rent ch) False False],
      ti_data = anchorDiscriminator (ch_sha256 ch) ''global'' ''fill_ticket_listing''\<rparr>"

subsection \<open>Reading the chain\<close>

text \<open>\<open>getAccountInfo\<close> is a function from address to data, \<open>getProgramAccounts\<close> a list of accounts.\<close>

record protocol_state =
  ps_globalConfigExists :: bool
  ps_adminConfigExists :: bool
  ps_globalAuthority :: "pubkey option"

definition fetchProtocolState :: "chain \<Rightarrow> (pubkey \<Rightarrow> bytes option) \<Rightarrow> pubkey \<Rightarrow> protocol_state" where
  "fetchProtocolState ch getAccountInfo programId =
     (let globalInfo = getAccountInfo (findGlobalConfigV2Pda ch programId);
          adminInfo = getAccountInfo (findAdminConfigPda ch programId);
          globalConfig = Option.bind globalInfo parseGlobalConfigAccount in
      \<lparr>ps_globalConfigExists = (globalInfo \<noteq> None), ps_adminConfigExists = (adminInfo \<noteq> None),
       ps_globalAuthority = map_option gc_authority globalConfig\<rparr>)"

text \<open>\<open>sort((l, r) => Number(r.k - l.k))\<close>: a stable sort with the greatest first.\<close>

definition fetchOwnedTickets ::
  "chain \<Rightarrow> (pubkey \<times> bytes) list \<Rightarrow> (pubkey \<Rightarrow> bytes option) \<Rightarrow> pubkey \<Rightarrow> pubkey \<Rightarrow> (ticket_receipt \<times> ticket_listing option) list" where
  "fetchOwnedTickets ch programAccounts getAccountInfo programId owner =
     (let receipts = filter (\<lambda>r. tr_currentHolder r = owner)
            (List.map_filter (\<lambda>(k, dat). parseTicketReceiptAccount k dat)
              (filter (\<lambda>(k, dat). hasAccountDiscriminator (ch_sha256 ch) dat ''TicketReceipt'') programAccounts));
          listing = (\<lambda>r. let listingPda = findTicketListingPda ch programId (tr_mint r) in
            case getAccountInfo listingPda of None \<Rightarrow> None
            | Some dat \<Rightarrow> if hasAccountDiscriminator (ch_sha256 ch) dat ''TicketListing''
                then parseTicketListingAccount listingPda dat else None)
      in sort_key (\<lambda>(r, l). - tr_issuedAt r) (map (\<lambda>r. (r, listing r)) receipts))"

definition fetchActiveListings :: "chain \<Rightarrow> (pubkey \<times> bytes) list \<Rightarrow> ticket_listing list" where
  "fetchActiveListings ch programAccounts =
     sort_key (\<lambda>l. - tl_createdAt l)
       (List.map_filter (\<lambda>(k, dat). parseTicketListingAccount k dat)
         (filter (\<lambda>(k, dat). hasAccountDiscriminator (ch_sha256 ch) dat ''TicketListing'') programAccounts))"

subsection \<open>The quote for an oracle's response\<close>

record shield_quote =
  sq_mode :: user_mode
  sq_dignityScore :: int
  sq_adapterMask :: int
  sq_initialPriceLamports :: int
  sq_quote :: client_quote
  sq_salesVelocityBps :: int
  sq_timeElapsedSecs :: int
  sq_attestationExpiry :: int
  sq_oraclePubkey :: string
  sq_payloadHex :: string
  sq_oracleSignatureHex :: string
  sq_scoringModelHashHex :: string
  sq_nonce :: int

definition shieldQuoteFromApiResponse :: "issued_score \<Rightarrow> user_mode \<Rightarrow> shield_quote result" where
  "shieldQuoteFromApiResponse response mode =
     (let p = is_payload response in
      rbind (bigint_of_string (pv_initial_price p)) (\<lambda>initialPriceLamports.
      rbind (bigint_of_string (pv_sales_velocity_bps p)) (\<lambda>salesVelocityBps.
      rbind (bigint_of_string (pv_time_elapsed p)) (\<lambda>timeElapsedSecs.
      rbind (calculateShieldQuote initialPriceLamports salesVelocityBps timeElapsedSecs (pv_dignity_score p)) (\<lambda>quote.
      rbind (bigint_of_string (pv_attestation_expiry p)) (\<lambda>attestationExpiry.
      rbind (bigint_of_string (pv_nonce p)) (\<lambda>nonce.
        Inr \<lparr>sq_mode = mode, sq_dignityScore = pv_dignity_score p, sq_adapterMask = pv_adapter_mask p,
          sq_initialPriceLamports = initialPriceLamports, sq_quote = quote,
          sq_salesVelocityBps = salesVelocityBps, sq_timeElapsedSecs = timeElapsedSecs,
          sq_attestationExpiry = attestationExpiry, sq_oraclePubkey = is_oracle_pubkey response,
          sq_payloadHex = is_payload_hex response, sq_oracleSignatureHex = is_oracle_signature_hex response,
          sq_scoringModelHashHex = is_scoring_model_hash_hex response, sq_nonce = nonce\<rparr>)))))))"

subsection \<open>Properties\<close>

lemma starts_0x_hex: "\<not> starts_with (to_hex bs) ''0x''"
proof
  assume s: "starts_with (to_hex bs) ''0x''"
  then obtain b r where b: "bs = b # r" by (cases bs) (auto simp: starts_with_def to_hex_def)
  have "take 2 (to_hex bs) = byte_hex b" by (simp add: b to_hex_def byte_hex_def numeral_2_eq_2)
  then have "byte_hex b = ''0x''" using s by (simp add: starts_with_def numeral_2_eq_2)
  then have "digit_char (unat b mod 16) = CHR ''x''" by (simp add: byte_hex_def)
  then have "digit_val (CHR ''x'') = Some (unat b mod 16)" by (metis digit_val_char mod_less_divisor zero_less_numeral)
  moreover have "digit_val (CHR ''x'') = None" by code_simp
  ultimately show False by simp
qed

lemma hexToBytes_to_hex [simp]: "hexToBytes (to_hex bs) = Inr bs"
  by (simp add: hexToBytes_def Let_def starts_0x_hex)

text \<open>
  C9. What the client shows is what the oracle signed: for every score the handler issues, the payload hex
  of the client's quote decodes to bytes of the layout, its signature hex to the oracle key's signature
  over exactly these bytes, under the key it names; price, velocity, time, score, adapter mask, expiry and
  nonce of the quote are those the bytes hold, the model hash is the signed one and the service's, the
  signed wallet and mode are those of the request, and the price shown is the client's price of the signed
  fields. The mode of the quote is the one the caller announces.
\<close>

theorem client_reads_what_oracle_signed:
  assumes "handleShieldScoreRequest sv r st body = (st', res)" "sr_body res = Issued i"
    and "shieldQuoteFromApiResponse i mode = Inr q"
  shows "\<exists>p bytes k wallet name user m. serializeShieldPayloadV0 p = Inr bytes
     \<and> sq_payloadHex q = to_hex bytes \<and> hexToBytes (sq_payloadHex q) = Inr bytes
     \<and> hexToBytes (sq_oracleSignatureHex q) = Inr (sv_sign sv bytes k) \<and> is_oracle_signature i = sv_sign sv bytes k
     \<and> sv_keypair sv (oracle_key st) = (oracle_key st', Inr k) \<and> sq_oraclePubkey q = sv_key_base58 sv k
     \<and> js_prop body ''wallet'' = Inr wallet \<and> sv_pubkey sv wallet = Inr (name, user) \<and> slice bytes 1 33 = user
     \<and> parse_mode (js_nullish (js_prop_opt body ''mode'') (JStr ''verified'')) = Some m
     \<and> byte_at bytes 59 = modeToCode m mod 256 \<and> sq_mode q = mode
     \<and> sq_initialPriceLamports q = readU64LE bytes 33 \<and> sq_salesVelocityBps q = readI64LE bytes 41
     \<and> sq_timeElapsedSecs q = readU64LE bytes 49 \<and> sq_dignityScore q mod 256 = byte_at bytes 57
     \<and> sq_adapterMask q mod 256 = byte_at bytes 58
     \<and> hexToBytes (sq_scoringModelHashHex q) = Inr (slice bytes 93 125) \<and> slice bytes 93 125 = sv_model_hash sv
     \<and> pv_zk_proof_hash_hex (is_payload i) = to_hex (slice bytes 61 93)
     \<and> sq_attestationExpiry q = readI64LE bytes 125 \<and> sq_nonce q = readU64LE bytes 133
     \<and> dignity_score p = sq_dignityScore q \<and> adapter_mask p = sq_adapterMask q
     \<and> calculateShieldQuote (initial_price p) (sales_velocity_bps p) (time_elapsed p) (dignity_score p) = Inr (sq_quote q)"
  using assms(1,2)
proof (rule handle_Issued)
  fix wallet md base58 user v t
  assume w: "js_prop body ''wallet'' = Inr wallet" "sv_pubkey sv wallet = Inr (base58, user)"
      "parse_mode (js_nullish (js_prop_opt body ''mode'') (JStr ''verified'')) = Some md"
    and f: "issue_facts sv r (st\<lparr>verify_state := v\<rparr>) body md base58 user
      (js_nullish (js_prop_opt body ''reclaim_attestations'') (JArr [])) st' i t"
  let ?p = "it_payload t" and ?b = "it_bytes t"
  have ser: "serializeShieldPayloadV0 ?p = Inr ?b" and hex: "is_payload_hex i = to_hex ?b"
    and view: "is_payload i = viewPayload body base58 ?p" and model: "is_scoring_model_hash_hex i = to_hex (sv_model_hash sv)"
    and key: "sv_keypair sv (oracle_key st) = (oracle_key st', Inr (it_oracle t))"
    and sig: "is_oracle_signature i = sv_sign sv ?b (it_oracle t)" "is_oracle_signature_hex i = to_hex (is_oracle_signature i)"
    and pub: "is_oracle_pubkey i = sv_key_base58 sv (it_oracle t)"
    using f by (simp_all add: issue_facts_def Let_def)
  note p = buildPayload_fields[OF issue_facts_payload[OF f]]
  from ser have wf: "wf_payload ?p" and b: "?b = payload_layout ?p" by (simp_all add: serialize_Inr_iff)
  note rd = payload_layout_ints[OF wf] payload_layout_bytes[OF wf] payload_layout_slices[OF wf]
  from assms(3) have q: "sq_mode q = mode" "sq_payloadHex q = to_hex ?b" "sq_initialPriceLamports q = initial_price ?p"
    "sq_salesVelocityBps q = sales_velocity_bps ?p" "sq_timeElapsedSecs q = time_elapsed ?p"
    "sq_attestationExpiry q = attestation_expiry ?p" "sq_nonce q = nonce ?p" "sq_dignityScore q = dignity_score ?p"
    "sq_adapterMask q = adapter_mask ?p" "sq_oracleSignatureHex q = to_hex (sv_sign sv ?b (it_oracle t))"
    "sq_oraclePubkey q = sv_key_base58 sv (it_oracle t)" "sq_scoringModelHashHex q = to_hex (sv_model_hash sv)"
    "calculateShieldQuote (initial_price ?p) (sales_velocity_bps ?p) (time_elapsed ?p) (dignity_score ?p) = Inr (sq_quote q)"
    by (auto simp: shieldQuoteFromApiResponse_def Let_def view viewPayload_def hex model sig pub js_simps)
  have bytes: "slice ?b 1 33 = user" "byte_at ?b 59 = modeToCode md mod 256" "byte_at ?b 57 = dignity_score ?p mod 256"
    "byte_at ?b 58 = adapter_mask ?p mod 256" "slice ?b 93 125 = sv_model_hash sv" "slice ?b 61 93 = zk_proof_hash ?p"
    "readU64LE ?b 33 = initial_price ?p" "readI64LE ?b 41 = sales_velocity_bps ?p" "readU64LE ?b 49 = time_elapsed ?p"
    "readI64LE ?b 125 = attestation_expiry ?p" "readU64LE ?b 133 = nonce ?p"
    unfolding b rd using p by simp_all
  have hexes: "hexToBytes (sq_payloadHex q) = Inr ?b" "hexToBytes (sq_oracleSignatureHex q) = Inr (sv_sign sv ?b (it_oracle t))"
    "hexToBytes (sq_scoringModelHashHex q) = Inr (slice ?b 93 125)"
    "pv_zk_proof_hash_hex (is_payload i) = to_hex (slice ?b 61 93)"
    unfolding q bytes view viewPayload_def by simp_all
  show ?thesis
    by (rule exI[of _ ?p], rule exI[of _ ?b], rule exI[of _ "it_oracle t"], rule exI[of _ wallet], rule exI[of _ base58],
        rule exI[of _ user], rule exI[of _ md], intro conjI)
       (rule ser q hexes sig key w bytes | simp only: q bytes)+
qed

theorem client_reads_what_oracle_signed_witness:
  "\<exists>i q. sr_body (snd (handleShieldScoreRequest (sample_services 0) (sample_readings 1000000) sample_oracle
       (sample_body ''guest'' ''a''))) = Issued i
     \<and> shieldQuoteFromApiResponse i Guest = Inr q \<and> finalPriceLamports (sq_quote q) = 7287592623
     \<and> (\<exists>bytes. hexToBytes (sq_payloadHex q) = Inr bytes \<and> readU64LE bytes 33 = sq_initialPriceLamports q)"
proof -
  let ?h = "handleShieldScoreRequest (sample_services 0) (sample_readings 1000000) sample_oracle (sample_body ''guest'' ''a'')"
  have "(case sr_body (snd ?h) of Issued i \<Rightarrow> map_sum id (\<lambda>q. finalPriceLamports (sq_quote q)) (shieldQuoteFromApiResponse i Guest)
      | _ \<Rightarrow> Inl TypeError) = Inr 7287592623" by code_simp
  then obtain i where i: "sr_body (snd ?h) = Issued i"
      and d: "map_sum id (\<lambda>q. finalPriceLamports (sq_quote q)) (shieldQuoteFromApiResponse i Guest) = Inr 7287592623"
    by (cases "sr_body (snd ?h)") simp_all
  from d obtain q where q: "shieldQuoteFromApiResponse i Guest = Inr q" "finalPriceLamports (sq_quote q) = 7287592623"
    by (cases "shieldQuoteFromApiResponse i Guest") simp_all
  have h: "?h = (fst ?h, snd ?h)" by simp
  from client_reads_what_oracle_signed [OF h i q(1)] i q show ?thesis by auto
qed

end
