(* ===== verification/Hub_Types.thy ===== *)
theory Hub_Types
  imports Guards Byte_Codec
begin

section \<open>Data of the fan pass hub (services/fan-pass-hub/src/types.ts)\<close>

text \<open>
  The records and enumerations the hub's parts exchange, with the texts of the enumerations. The signal
  and the source of a risk signal are texts: the parser of requests only casts them.
\<close>

datatype hub_decision = Allow | Block | Step_up

datatype graph_event_type = Ev_view | Ev_verify | Ev_purchase | Ev_resale | Ev_task_complete
  | Ev_membership_upgrade | Ev_claim | Ev_quote

datatype relation_edge_type = User_creator | User_community | User_asset

datatype trust_tier = Low_trust | Medium_trust | High_trust

record risk_signal =
  sg_signal :: string
  sg_weight :: rat
  sg_source :: string

record graph_event =
  ge_event_id :: string
  ge_wallet :: string
  ge_event_type :: graph_event_type
  ge_asset_id :: string
  ge_decision :: "hub_decision option"
  ge_value_lamports :: "string option"
  ge_context :: "jsval option"
  ge_occurred_at :: int
  ge_ingested_at :: int

record graph_event_input =
  gi_wallet :: string
  gi_event_type :: graph_event_type
  gi_asset_id :: string
  gi_decision :: "hub_decision option"
  gi_value_lamports :: "string option"
  gi_context :: "jsval option"
  gi_occurred_at :: "int option"

record relation_edge =
  re_edge_id :: string
  re_from_wallet :: string
  re_to_id :: string
  re_edge_type :: relation_edge_type
  re_weight :: int
  re_metadata :: "jsval option"
  re_updated_at :: int

record relation_input =
  ri_from_wallet :: string
  ri_to_id :: string
  ri_edge_type :: relation_edge_type
  ri_weight :: rat
  ri_metadata :: "jsval option"

record reputation =
  rp_wallet :: string
  rp_score :: int
  rp_trust_tier :: trust_tier
  rp_event_count :: int
  rp_relation_strength :: int
  rp_risk_signals :: "risk_signal list"
  rp_snapshot_version :: int
  rp_snapshot_hash_hex :: string
  rp_anchored_at :: "int option"

record anchor_request =
  aq_snapshot_hash_hex :: string
  aq_snapshot_version :: int
  aq_generated_at :: int

datatype chain_mode = Mock | Onchain

record anchor_receipt =
  an_snapshot_hash_hex :: string
  an_snapshot_version :: int
  an_anchor_tx_signature :: string
  an_anchored_at :: int
  an_mode :: chain_mode

fun decision_name :: "hub_decision \<Rightarrow> string" where
  "decision_name Allow = ''allow''"
| "decision_name Block = ''block''"
| "decision_name Step_up = ''step_up''"

fun event_type_name :: "graph_event_type \<Rightarrow> string" where
  "event_type_name Ev_view = ''view''"
| "event_type_name Ev_verify = ''verify''"
| "event_type_name Ev_purchase = ''purchase''"
| "event_type_name Ev_resale = ''resale''"
| "event_type_name Ev_task_complete = ''task_complete''"
| "event_type_name Ev_membership_upgrade = ''membership_upgrade''"
| "event_type_name Ev_claim = ''claim''"
| "event_type_name Ev_quote = ''quote''"

fun edge_type_name :: "relation_edge_type \<Rightarrow> string" where
  "edge_type_name User_creator = ''user_creator''"
| "edge_type_name User_community = ''user_community''"
| "edge_type_name User_asset = ''user_asset''"


text \<open>What the host gives: the environment, SHA-256 of a text and \<open>JSON.stringify\<close>.\<close>

record hub_host =
  hh_env :: env
  hh_sha256 :: "string \<Rightarrow> bytes"
  hh_json_stringify :: "jsval \<Rightarrow> string"

definition sha256Hex :: "hub_host \<Rightarrow> string \<Rightarrow> string" where
  "sha256Hex h input = to_hex (hh_sha256 h input)"

end
