(* ===== verification/Chain_Adapter.thy ===== *)
theory Chain_Adapter
  imports Hub_Types Client_Codec
begin

section \<open>The chain behind the hub (services/fan-pass-hub/src/chain_adapter.ts)\<close>

text \<open>
  The interface \<open>ChainAdapter\<close> as the graph store uses it is a locale: a receipt names the snapshot it was
  asked for. \<open>SolanaAdapter\<close> provides it, in mock mode and on a cluster. The cluster connection, the
  signature verification, key parsing and random identifiers are parameters.
\<close>

subsection \<open>Data\<close>

record signature_verification_input =
  sv_message_hex :: string
  sv_signature_base64 :: string
  sv_public_key_base58 :: string

record signature_verification_result =
  vr_valid :: bool
  vr_reason :: "js_error option"

record nonce_issue_result =
  ni_nonce :: string
  ni_issued_at :: int
  ni_ttl_seconds :: int

record submit_transaction_result =
  sx_tx_signature :: string
  sx_mode :: chain_mode

record confirm_transaction_result =
  cx_confirmed :: bool
  cx_slot :: "int option"
  cx_mode :: chain_mode

record solana_adapter =
  sa_mockMode :: bool
  sa_cluster :: string

subsection \<open>The adapter for Solana\<close>

text \<open>The constructor: each setting may be given, and is read from the environment otherwise.\<close>

definition new_SolanaAdapter :: "env \<Rightarrow> string option \<Rightarrow> bool option \<Rightarrow> solana_adapter" where
  "new_SolanaAdapter env rpcUrl mockMode =
     \<lparr>sa_mockMode = opt_or mockMode (env_is env ''HUB_SOLANA_MOCK_MODE'' ''1''),
      sa_cluster = opt_or rpcUrl (opt_or (env ''HUB_SOLANA_RPC_URL'') ''http://127.0.0.1:8899'')\<rparr>"

definition loadAnchorSigner :: "env \<Rightarrow> (string \<Rightarrow> string option) \<Rightarrow> (string \<Rightarrow> 'k option) \<Rightarrow> 'k option" where
  "loadAnchorSigner env read_file parse_key =
     (let fromPath = opt_or (env ''HUB_ANCHOR_KEYPAIR_PATH'') [] in
      if fromPath = [] then None else Option.bind (read_file fromPath) parse_key)"

definition verifyAuthorizationSignature ::
  "(bytes \<Rightarrow> bytes \<Rightarrow> bytes \<Rightarrow> bool result) \<Rightarrow> (string \<Rightarrow> bytes result) \<Rightarrow> signature_verification_input \<Rightarrow>
   signature_verification_result" where
  "verifyAuthorizationSignature verify pubkey_bytes inp =
     (case rbind (pubkey_bytes (sv_public_key_base58 inp)) (\<lambda>pubkey.
             verify (buffer_from_hex (sv_message_hex inp)) (buffer_from_base64 (sv_signature_base64 inp)) pubkey) of
        Inr valid \<Rightarrow> \<lparr>vr_valid = valid, vr_reason = None\<rparr>
      | Inl e \<Rightarrow> \<lparr>vr_valid = False, vr_reason = Some e\<rparr>)"

definition issueNonce :: "hub_host \<Rightarrow> int \<Rightarrow> string \<Rightarrow> string \<Rightarrow> nonce_issue_result" where
  "issueNonce h now uuid wallet =
     \<lparr>ni_nonce = take 32 (sha256Hex h (wallet @ '':'' @ show_int now @ '':'' @ uuid)),
      ni_issued_at = now, ni_ttl_seconds = 300\<rparr>"

definition submitTransaction ::
  "hub_host \<Rightarrow> solana_adapter \<Rightarrow> (bytes \<Rightarrow> string result) \<Rightarrow> int \<Rightarrow> string \<Rightarrow> submit_transaction_result result" where
  "submitTransaction h ad send now serialized_tx_base64 =
     (if sa_mockMode ad
      then Inr \<lparr>sx_tx_signature = take 88 (sha256Hex h (''mock-submit:'' @ serialized_tx_base64 @ '':'' @ show_int now)),
             sx_mode = Mock\<rparr>
      else rbind (send (buffer_from_base64 serialized_tx_base64)) (\<lambda>txSignature.
             Inr \<lparr>sx_tx_signature = txSignature, sx_mode = Onchain\<rparr>))"

text \<open>A status is the confirmation status, if the signature is known, and the slot.\<close>

definition confirmTransaction ::
  "solana_adapter \<Rightarrow> (string \<Rightarrow> (string option \<times> int option) result) \<Rightarrow> string \<Rightarrow> confirm_transaction_result result" where
  "confirmTransaction ad getSignatureStatus txSignature =
     (if sa_mockMode ad then Inr \<lparr>cx_confirmed = True, cx_slot = None, cx_mode = Mock\<rparr>
      else rbind (getSignatureStatus txSignature) (\<lambda>(status, slot).
             Inr \<lparr>cx_confirmed = (status = Some ''confirmed''), cx_slot = slot, cx_mode = Onchain\<rparr>))"

text \<open>The memo of an anchor transaction, before \<open>JSON.stringify\<close>.\<close>

definition anchorMemo :: "anchor_request \<Rightarrow> jsval" where
  "anchorMemo q = JObj [(''snapshot_hash_hex'', JStr (aq_snapshot_hash_hex q)),
     (''snapshot_version'', JNum (Fin (of_int (aq_snapshot_version q)))),
     (''generated_at'', JNum (Fin (of_int (aq_generated_at q))))]"

text \<open>\<open>sendMemo signer memo\<close> is \<open>sendAndConfirmTransaction\<close> of the one memo instruction.\<close>

definition anchorSnapshot ::
  "hub_host \<Rightarrow> solana_adapter \<Rightarrow> 'k option \<Rightarrow> ('k \<Rightarrow> string \<Rightarrow> string result) \<Rightarrow> int \<Rightarrow> anchor_request \<Rightarrow>
   anchor_receipt result" where
  "anchorSnapshot h ad signer sendMemo now q =
     (if sa_mockMode ad
      then Inr \<lparr>an_snapshot_hash_hex = aq_snapshot_hash_hex q, an_snapshot_version = aq_snapshot_version q,
             an_anchor_tx_signature = take 88 (sha256Hex h (''mock-anchor:'' @ aq_snapshot_hash_hex q @ '':''
                @ show_int (aq_snapshot_version q) @ '':'' @ show_int (aq_generated_at q))),
             an_anchored_at = now, an_mode = Mock\<rparr>
      else case signer of
        None \<Rightarrow> Inl (Thrown ''HUB_ANCHOR_KEYPAIR_PATH is required when HUB_SOLANA_MOCK_MODE=0'')
      | Some payer \<Rightarrow> rbind (sendMemo payer (hh_json_stringify h (anchorMemo q))) (\<lambda>signature.
          Inr \<lparr>an_snapshot_hash_hex = aq_snapshot_hash_hex q, an_snapshot_version = aq_snapshot_version q,
             an_anchor_tx_signature = signature, an_anchored_at = now, an_mode = Onchain\<rparr>))"

subsection \<open>The interface\<close>

locale chain_adapter =
  fixes anchor :: "int \<Rightarrow> anchor_request \<Rightarrow> anchor_receipt result"
  assumes names_snapshot: "anchor now q = Inr receipt \<Longrightarrow>
      an_snapshot_hash_hex receipt = aq_snapshot_hash_hex q \<and> an_snapshot_version receipt = aq_snapshot_version q"

interpretation solana: chain_adapter "anchorSnapshot h ad signer sendMemo"
    for h ad and signer :: "'k option" and sendMemo
  by unfold_locales (auto simp: anchorSnapshot_def js_simps split: if_splits option.splits)

end
