(* ===== verification/Hub_Graph.thy ===== *)
theory Hub_Graph
  imports Chain_Adapter "HOL-Library.List_Lexorder" "HOL-Library.Char_ord" "HOL-Library.Multiset"
begin

section \<open>The identity graph of the fan pass hub (services/fan-pass-hub/src/graph_store.ts)\<close>

text \<open>
  The graph of events and relations of each wallet, with its snapshot version and the anchors of
  snapshots on the chain. The process keeps it in a global and writes it to a file after every change;
  a fresh process, or one whose configured path has changed, reads the file. The model passes the global
  and the files as \<open>hub_state\<close>. A file is what \<open>JSON.parse\<close> makes of it: a persisted graph, or something
  that is none. Identifiers are UUIDs and hex digests, on which the order of the locale is that of the
  bytes; the keys of metadata objects are not array indices. A write that fails is a step of its own,
  \<open>writeFailed\<close>; that its exception makes the request answer 500 is not in the routes' models.
\<close>

subsection \<open>State\<close>

record hub_graph =
  hg_events :: "(string, graph_event) jsmap"
  hg_relations :: "(string, relation_edge) jsmap"
  hg_snapshotVersion :: int
  hg_anchors :: "(int, anchor_receipt) jsmap"
  hg_loadedFromDisk :: bool
  hg_storagePath :: string

record persisted_graph =
  pg_snapshot_version :: jsnum
  pg_events :: "graph_event list"
  pg_relations :: "relation_edge list"
  pg_anchors :: "anchor_receipt list"
  pg_updated_at :: int

datatype store_file = Unreadable | Persisted persisted_graph

record hub_state =
  hs_graph :: "hub_graph option"
  hs_files :: "string \<Rightarrow> store_file option"

subsection \<open>The file\<close>

definition resolveStoragePath :: "env \<Rightarrow> string" where
  "resolveStoragePath env =
     (let configured = trim (opt_or (env ''HUB_GRAPH_STORE_PATH'') []) in
      if configured \<noteq> [] then configured else ''/tmp/wanwan-fan-pass-graph.json'')"

definition defaultState :: "env \<Rightarrow> hub_graph" where
  "defaultState env = \<lparr>hg_events = [], hg_relations = [], hg_snapshotVersion = 1, hg_anchors = [],
     hg_loadedFromDisk = False, hg_storagePath = resolveStoragePath env\<rparr>"

definition readPersistedState :: "(string \<Rightarrow> store_file option) \<Rightarrow> string \<Rightarrow> persisted_graph option" where
  "readPersistedState files path =
     (case files path of
        Some (Persisted parsed) \<Rightarrow> if finite_num (pg_snapshot_version parsed) = None then None else Some parsed
      | _ \<Rightarrow> None)"

definition persistedState :: "int \<Rightarrow> hub_graph \<Rightarrow> persisted_graph" where
  "persistedState now st =
     \<lparr>pg_snapshot_version = Fin (of_int (hg_snapshotVersion st)),
      pg_events = sort_key ge_event_id (map_values (hg_events st)),
      pg_relations = sort_key re_edge_id (map_values (hg_relations st)),
      pg_anchors = sort_key an_snapshot_version (map_values (hg_anchors st)),
      pg_updated_at = now\<rparr>"

definition writePersistedState :: "int \<Rightarrow> hub_graph \<Rightarrow> hub_state \<Rightarrow> hub_state" where
  "writePersistedState now st hs =
     hs\<lparr>hs_graph := Some st, hs_files := (hs_files hs)(hg_storagePath st \<mapsto> Persisted (persistedState now st))\<rparr>"

text \<open>\<open>new Map(xs.map(x => [key(x), x]))\<close>\<close>

definition map_by :: "('v \<Rightarrow> 'k) \<Rightarrow> 'v list \<Rightarrow> ('k, 'v) jsmap" where
  "map_by key xs = foldl (\<lambda>m x. map_set (key x) x m) [] xs"

definition hydrateStateIfNeeded :: "(string \<Rightarrow> store_file option) \<Rightarrow> hub_graph \<Rightarrow> hub_graph" where
  "hydrateStateIfNeeded files st =
     (if hg_loadedFromDisk st then st
      else (case readPersistedState files (hg_storagePath st) of
              None \<Rightarrow> st
            | Some persisted \<Rightarrow>
                st\<lparr>hg_events := map_by ge_event_id (pg_events persisted),
                   hg_relations := map_by re_edge_id (pg_relations persisted),
                   hg_anchors := map_by an_snapshot_version (pg_anchors persisted),
                   hg_snapshotVersion := max 1 \<lfloor>opt_or (finite_num (pg_snapshot_version persisted)) 1\<rfloor>\<rparr>)
           \<lparr>hg_loadedFromDisk := True\<rparr>)"

text \<open>The global state as every operation finds it: created, re-pointed and read when needed.\<close>

definition getState :: "hub_host \<Rightarrow> hub_state \<Rightarrow> hub_graph" where
  "getState h hs =
     (let st = opt_or (hs_graph hs) (defaultState (hh_env h));
          expectedPath = resolveStoragePath (hh_env h);
          st1 = (if hg_storagePath st \<noteq> expectedPath
                 then st\<lparr>hg_storagePath := expectedPath, hg_loadedFromDisk := False\<rparr> else st)
      in hydrateStateIfNeeded (hs_files hs) st1)"

subsection \<open>Canonical JSON and hashes\<close>

fun stableCopy :: "jsval \<Rightarrow> jsval" where
  "stableCopy (JArr xs) = JArr (map stableCopy xs)"
| "stableCopy (JObj kvs) = JObj (sort_key fst (map (\<lambda>(k, v). (k, stableCopy v)) kvs))"
| "stableCopy v = v"

definition stableStringify :: "hub_host \<Rightarrow> jsval \<Rightarrow> string" where
  "stableStringify h v = hh_json_stringify h (stableCopy v)"

text \<open>The objects as \<open>JSON.stringify\<close> sees them; an undefined field is left out by it.\<close>

definition js_text_opt :: "string option \<Rightarrow> jsval" where
  "js_text_opt v = (case v of None \<Rightarrow> JUndef | Some s \<Rightarrow> JStr s)"

definition js_int :: "int \<Rightarrow> jsval" where
  "js_int n = JNum (Fin (of_int n))"

definition event_value :: "graph_event \<Rightarrow> jsval" where
  "event_value e = JObj
     [(''event_id'', JStr (ge_event_id e)), (''wallet'', JStr (ge_wallet e)),
      (''event_type'', JStr (event_type_name (ge_event_type e))), (''asset_id'', JStr (ge_asset_id e)),
      (''decision'', js_text_opt (map_option decision_name (ge_decision e))),
      (''value_lamports'', js_text_opt (ge_value_lamports e)),
      (''context'', case ge_context e of None \<Rightarrow> JUndef | Some c \<Rightarrow> stableCopy c),
      (''occurred_at'', js_int (ge_occurred_at e)), (''ingested_at'', js_int (ge_ingested_at e))]"

definition edge_value :: "relation_edge \<Rightarrow> jsval" where
  "edge_value r = JObj
     [(''edge_id'', JStr (re_edge_id r)), (''from_wallet'', JStr (re_from_wallet r)), (''to_id'', JStr (re_to_id r)),
      (''edge_type'', JStr (edge_type_name (re_edge_type r))), (''weight'', js_int (re_weight r)),
      (''metadata'', case re_metadata r of None \<Rightarrow> JUndef | Some m \<Rightarrow> stableCopy m),
      (''updated_at'', js_int (re_updated_at r))]"

definition currentSnapshotHashHex :: "hub_host \<Rightarrow> hub_graph \<Rightarrow> string" where
  "currentSnapshotHashHex h st =
     (let events = map event_value (sort_key ge_event_id (map_values (hg_events st)));
          relations = map edge_value (sort_key re_edge_id (map_values (hg_relations st)))
      in sha256Hex h (stableStringify h (JObj
           [(''snapshot_version'', js_int (hg_snapshotVersion st)), (''events'', JArr events),
            (''relations'', JArr relations)])))"

subsection \<open>Reputation\<close>

fun eventWeight :: "graph_event_type \<Rightarrow> int" where
  "eventWeight Ev_verify = 6"
| "eventWeight Ev_purchase = 8"
| "eventWeight Ev_task_complete = 5"
| "eventWeight Ev_membership_upgrade = 7"
| "eventWeight Ev_claim = 3"
| "eventWeight Ev_resale = -4"
| "eventWeight Ev_quote = 1"
| "eventWeight Ev_view = 1"

definition trustTier :: "int \<Rightarrow> trust_tier" where
  "trustTier score = (if 80 \<le> score then High_trust else if 45 \<le> score then Medium_trust else Low_trust)"

definition computeRiskSignals :: "int \<Rightarrow> graph_event list \<Rightarrow> int \<Rightarrow> risk_signal list" where
  "computeRiskSignals now walletEvents relationStrength =
     (let inLastHour = filter (\<lambda>e. now - ge_ingested_at e \<le> 60 * 60 * 1000) walletEvents;
          resaleCount = length (filter (\<lambda>e. ge_event_type e = Ev_resale) walletEvents);
          purchaseCount = length (filter (\<lambda>e. ge_event_type e = Ev_purchase) walletEvents)
      in (if 20 \<le> length inLastHour
          then [\<lparr>sg_signal = ''high_velocity'', sg_weight = 20, sg_source = ''behavior''\<rparr>] else [])
       @ (if 3 \<le> resaleCount \<and> purchaseCount = 0
          then [\<lparr>sg_signal = ''resale_anomaly'', sg_weight = 30, sg_source = ''behavior''\<rparr>] else [])
       @ (if 8 \<le> length walletEvents \<and> relationStrength < 10
          then [\<lparr>sg_signal = ''low_relation_density'', sg_weight = 12, sg_source = ''relation''\<rparr>] else []))"

definition walletEvents :: "hub_graph \<Rightarrow> string \<Rightarrow> graph_event list" where
  "walletEvents st wallet = filter (\<lambda>e. ge_wallet e = wallet) (map_values (hg_events st))"

definition walletRelations :: "hub_graph \<Rightarrow> string \<Rightarrow> relation_edge list" where
  "walletRelations st wallet = filter (\<lambda>r. re_from_wallet r = wallet) (map_values (hg_relations st))"

text \<open>The sum of the weights, rounded at each step; the integer sums are exact.\<close>

definition penaltyOf :: "risk_signal list \<Rightarrow> rat" where
  "penaltyOf signals = foldl (\<lambda>sum signal. fl (sum + sg_weight signal)) 0 signals"

definition reputationScore :: "int \<Rightarrow> int \<Rightarrow> risk_signal list \<Rightarrow> int" where
  "reputationScore behaviorScore relationStrength signals =
     clamp (js_round (fl (fl (of_int (50 + behaviorScore) + fl (of_int relationStrength * (1 / 2))) - penaltyOf signals))) 0 100"

definition reputationOf :: "hub_host \<Rightarrow> int \<Rightarrow> hub_graph \<Rightarrow> string \<Rightarrow> risk_signal list \<Rightarrow> reputation" where
  "reputationOf h now st wallet extraSignals =
     (let events = walletEvents st wallet;
          relations = walletRelations st wallet;
          relationStrength = sum_list (map re_weight relations);
          behaviorScore = sum_list (map (\<lambda>e. eventWeight (ge_event_type e)) events);
          mergedSignals = computeRiskSignals now events relationStrength @ extraSignals;
          score = reputationScore behaviorScore relationStrength mergedSignals
      in \<lparr>rp_wallet = wallet, rp_score = score, rp_trust_tier = trustTier score,
          rp_event_count = int (length events), rp_relation_strength = relationStrength,
          rp_risk_signals = mergedSignals, rp_snapshot_version = hg_snapshotVersion st,
          rp_snapshot_hash_hex = currentSnapshotHashHex h st,
          rp_anchored_at = map_option an_anchored_at (map_get (hg_anchors st) (hg_snapshotVersion st))\<rparr>)"

definition getReputationSnapshot ::
  "hub_host \<Rightarrow> int \<Rightarrow> string \<Rightarrow> risk_signal list option \<Rightarrow> hub_state \<Rightarrow> hub_state \<times> reputation" where
  "getReputationSnapshot h now wallet extraSignals hs =
     (let st = getState h hs in
      (hs\<lparr>hs_graph := Some st\<rparr>, reputationOf h now st wallet (opt_or extraSignals [])))"

subsection \<open>Operations\<close>

record ingest_result =
  ir_event_id :: string
  ir_snapshot_version :: int

definition nextSnapshotVersion :: "hub_graph \<Rightarrow> hub_graph" where
  "nextSnapshotVersion st = st\<lparr>hg_snapshotVersion := hg_snapshotVersion st + 1\<rparr>"

text \<open>\<open>randomUUID()\<close> and \<open>Date.now()\<close> are arguments.\<close>

definition ingestGraphEvent ::
  "hub_host \<Rightarrow> string \<Rightarrow> int \<Rightarrow> graph_event_input \<Rightarrow> hub_state \<Rightarrow> hub_state \<times> ingest_result" where
  "ingestGraphEvent h eventId now inp hs =
     (let st = getState h hs;
          event = \<lparr>ge_event_id = eventId, ge_wallet = gi_wallet inp, ge_event_type = gi_event_type inp,
            ge_asset_id = gi_asset_id inp, ge_decision = gi_decision inp,
            ge_value_lamports = gi_value_lamports inp, ge_context = gi_context inp,
            ge_occurred_at = opt_or (gi_occurred_at inp) now, ge_ingested_at = now\<rparr>;
          st' = nextSnapshotVersion (st\<lparr>hg_events := map_set eventId event (hg_events st)\<rparr>)
      in (writePersistedState now st' hs,
          \<lparr>ir_event_id = eventId, ir_snapshot_version = hg_snapshotVersion st'\<rparr>))"

record upsert_result =
  ur_edge_id :: string
  ur_updated_at :: int
  ur_snapshot_version :: int

definition edgeId :: "hub_host \<Rightarrow> string \<Rightarrow> relation_edge_type \<Rightarrow> string \<Rightarrow> string" where
  "edgeId h from_wallet edge_type to_id =
     take 40 (sha256Hex h (from_wallet @ '':'' @ edge_type_name edge_type @ '':'' @ to_id))"

definition upsertRelationEdge ::
  "hub_host \<Rightarrow> int \<Rightarrow> relation_input \<Rightarrow> hub_state \<Rightarrow> hub_state \<times> upsert_result" where
  "upsertRelationEdge h now inp hs =
     (let st = getState h hs;
          id = edgeId h (ri_from_wallet inp) (ri_edge_type inp) (ri_to_id inp);
          next = \<lparr>re_edge_id = id, re_from_wallet = ri_from_wallet inp, re_to_id = ri_to_id inp,
            re_edge_type = ri_edge_type inp, re_weight = clamp (js_round (ri_weight inp)) 0 100,
            re_metadata = ri_metadata inp, re_updated_at = now\<rparr>;
          st' = nextSnapshotVersion (st\<lparr>hg_relations := map_set id next (hg_relations st)\<rparr>)
      in (writePersistedState now st' hs,
          \<lparr>ur_edge_id = id, ur_updated_at = now, ur_snapshot_version = hg_snapshotVersion st'\<rparr>))"

text \<open>
  Anchoring asks the adapter and waits: what is before the \<open>await\<close> and what is after it are two steps,
  between which other requests run.
\<close>

definition anchorBegin :: "hub_host \<Rightarrow> int \<Rightarrow> hub_state \<Rightarrow> hub_state \<times> anchor_request" where
  "anchorBegin h now hs =
     (let st = getState h hs in
      (hs\<lparr>hs_graph := Some st\<rparr>,
       \<lparr>aq_snapshot_hash_hex = currentSnapshotHashHex h st, aq_snapshot_version = hg_snapshotVersion st,
        aq_generated_at = now\<rparr>))"

definition anchorFinish :: "int \<Rightarrow> anchor_receipt \<Rightarrow> hub_state \<Rightarrow> hub_state" where
  "anchorFinish now receipt hs =
     (case hs_graph hs of
        None \<Rightarrow> hs
      | Some st \<Rightarrow> writePersistedState now
          (st\<lparr>hg_anchors := map_set (hg_snapshotVersion st) receipt (hg_anchors st)\<rparr>) hs)"

definition anchorCurrentSnapshot ::
  "hub_host \<Rightarrow> int \<Rightarrow> (anchor_request \<Rightarrow> anchor_receipt result) \<Rightarrow> hub_state \<Rightarrow> hub_state \<times> anchor_receipt result" where
  "anchorCurrentSnapshot h now anchor hs =
     (let (hs', request) = anchorBegin h now hs in
      case anchor request of
        Inl e \<Rightarrow> (hs', Inl e)
      | Inr receipt \<Rightarrow> (anchorFinish now receipt hs', Inr receipt))"

record wallet_graph =
  wg_wallet :: string
  wg_events :: "graph_event list"
  wg_relations :: "relation_edge list"
  wg_reputation :: reputation
  wg_latest_anchor :: "anchor_receipt option"

definition exportWalletGraph :: "hub_host \<Rightarrow> int \<Rightarrow> string \<Rightarrow> hub_state \<Rightarrow> hub_state \<times> wallet_graph" where
  "exportWalletGraph h now wallet hs =
     (let st = getState h hs in
      (hs\<lparr>hs_graph := Some st\<rparr>,
       \<lparr>wg_wallet = wallet, wg_events = sort_key ge_ingested_at (walletEvents st wallet),
        wg_relations = sort_key re_edge_id (walletRelations st wallet),
        wg_reputation = reputationOf h now st wallet [],
        wg_latest_anchor = map_get (hg_anchors st) (hg_snapshotVersion st)\<rparr>))"

definition getAssetEventCountByType :: "hub_host \<Rightarrow> graph_event_type \<Rightarrow> hub_state \<Rightarrow> hub_state \<times> (string, int) jsmap" where
  "getAssetEventCountByType h eventType hs =
     (let st = getState h hs in
      (hs\<lparr>hs_graph := Some st\<rparr>,
       foldl (\<lambda>counts e. if ge_event_type e \<noteq> eventType then counts
                else map_set (ge_asset_id e) (opt_or (map_get counts (ge_asset_id e)) 0 + 1) counts)
             [] (map_values (hg_events st))))"

text \<open>A fresh process has no global; the files stay.\<close>

definition restart :: "hub_state \<Rightarrow> hub_state" where
  "restart hs = hs\<lparr>hs_graph := None\<rparr>"

text \<open>The reset of the store, and the removal of its file.\<close>

definition resetFanPassHubGraphStoreForTests :: "hub_host \<Rightarrow> int \<Rightarrow> hub_state \<Rightarrow> hub_state" where
  "resetFanPassHubGraphStoreForTests h now hs =
     writePersistedState now ((getState h hs)\<lparr>hg_events := [], hg_relations := [], hg_snapshotVersion := 1, hg_anchors := []\<rparr>) hs"

definition clearPersistedFanPassHubGraphStoreForTests :: "hub_host \<Rightarrow> hub_state \<Rightarrow> hub_state" where
  "clearPersistedFanPassHubGraphStoreForTests h hs =
     hs\<lparr>hs_files := (hs_files hs)(resolveStoragePath (hh_env h) := None)\<rparr>"

subsection \<open>Well-formed graphs\<close>

definition keyed :: "('v \<Rightarrow> 'k) \<Rightarrow> ('k, 'v) jsmap \<Rightarrow> bool" where
  "keyed key m \<longleftrightarrow> distinct (map fst m) \<and> (\<forall>(k, v) \<in> set m. key v = k)"

definition wf_graph :: "hub_host \<Rightarrow> hub_graph \<Rightarrow> bool" where
  "wf_graph h st \<longleftrightarrow> keyed ge_event_id (hg_events st) \<and> keyed re_edge_id (hg_relations st)
     \<and> keyed an_snapshot_version (hg_anchors st) \<and> 1 \<le> hg_snapshotVersion st
     \<and> (\<forall>r \<in> set (map_values (hg_relations st)).
          re_edge_id r = edgeId h (re_from_wallet r) (re_edge_type r) (re_to_id r) \<and> 0 \<le> re_weight r \<and> re_weight r \<le> 100)
     \<and> (\<forall>a \<in> set (map_values (hg_anchors st)). an_snapshot_version a \<le> hg_snapshotVersion st
          \<and> (an_snapshot_version a = hg_snapshotVersion st \<longrightarrow> an_snapshot_hash_hex a = currentSnapshotHashHex h st))"

text \<open>The same graph up to the order of the maps, which no operation observes.\<close>

definition same_graph :: "hub_graph \<Rightarrow> hub_graph \<Rightarrow> bool" where
  "same_graph a b \<longleftrightarrow> mset (hg_events a) = mset (hg_events b) \<and> mset (hg_relations a) = mset (hg_relations b)
     \<and> mset (hg_anchors a) = mset (hg_anchors b) \<and> hg_snapshotVersion a = hg_snapshotVersion b"

lemma keyed_Nil [simp]: "keyed key []"
  by (simp add: keyed_def)

lemma keyed_set: "keyed key m \<Longrightarrow> key v = k \<Longrightarrow> keyed key (map_set k v m)"
proof -
  assume m: "keyed key m" and k: "key v = k"
  then have d: "distinct (map fst (map_set k v m))" by (simp add: keyed_def distinct_update)
  moreover have "key y = x" if "(x, y) \<in> set (map_set k v m)" for x y
  proof -
    have "map_of (map_set k v m) x = Some y" by (rule map_of_is_SomeI[OF d that])
    then show ?thesis using m k by (auto simp: keyed_def split: if_splits dest: map_of_SomeD)
  qed
  ultimately show ?thesis by (auto simp: keyed_def)
qed

lemma keyed_values: "keyed key m \<Longrightarrow> map (\<lambda>v. (key v, v)) (map_values m) = m"
  by (simp add: keyed_def map_values_def list.map_comp case_prod_beta map_idI)

lemma distinct_map_mset: "mset a = mset b \<Longrightarrow> distinct (map f a) = distinct (map f b)"
  by (metis mset_eq_imp_distinct_iff mset_map)

lemma keyed_mset: "mset a = mset b \<Longrightarrow> keyed key a \<Longrightarrow> keyed key b"
  using distinct_map_mset[of a b fst] mset_eq_setD[of a b] by (simp add: keyed_def)

lemma map_get_mset: "mset a = mset b \<Longrightarrow> distinct (map fst a) \<Longrightarrow> map_get a = map_get b"
  using distinct_map_mset[of a b fst] mset_eq_setD[of a b] by (simp add: map_of_inject_set)

lemma keyed_distinct: "keyed key m \<Longrightarrow> distinct (map key (map_values m))"
proof -
  assume m: "keyed key m"
  then have "map key (map_values m) = map fst m"
    by (auto simp: keyed_def map_values_def)
  then show ?thesis using m by (simp add: keyed_def)
qed

lemma keyed_get: "keyed key m \<Longrightarrow> map_get m k = Some v \<Longrightarrow> key v = k \<and> v \<in> set (map_values m)"
  by (force simp: keyed_def map_values_def dest: map_of_SomeD)

text \<open>Rebuilding a map from its values.\<close>

lemma map_by_append: "distinct (map fst m @ map key xs) \<Longrightarrow>
   foldl (\<lambda>m x. map_set (key x) x m) m xs = m @ map (\<lambda>x. (key x, x)) xs"
proof (induction xs arbitrary: m)
  case (Cons x xs)
  have new: "map_set (key x) x m = m @ [(key x, x)]"
    using Cons.prems by (induction m) auto
  show ?case using Cons.prems by (simp add: new Cons.IH)
qed simp

lemma map_by_distinct: "distinct (map key xs) \<Longrightarrow> map_by key xs = map (\<lambda>x. (key x, x)) xs"
  by (simp add: map_by_def map_by_append)

lemma map_by_None: "map_get (map_by key xs) k = None \<longleftrightarrow> k \<notin> key ` set xs"
  by (induction xs rule: rev_induct) (auto simp: map_by_def)

lemma map_by_sorted:
  assumes "keyed key m"
  shows "mset (map_by key (sort_key ord (map_values m))) = mset m"
proof -
  have "distinct (map key (sort_key ord (map_values m)))"
    using keyed_distinct[OF assms] by (simp add: distinct_map_mset[of "sort_key ord (map_values m)" "map_values m"])
  then have "mset (map_by key (sort_key ord (map_values m))) = mset (map (\<lambda>x. (key x, x)) (map_values m))"
    by (simp add: map_by_distinct)
  then show ?thesis by (simp add: keyed_values[OF assms])
qed

lemma map_values_mset: "mset a = mset b \<Longrightarrow> mset (map_values a) = mset (map_values b)"
  by (simp add: map_values_def)

lemma sort_values_eq:
  assumes "mset a = mset b" "keyed key a"
  shows "sort_key key (map_values a) = sort_key key (map_values b)"
  by (rule sort_key_inj_key_eq)
     (use map_values_mset[OF assms(1)] keyed_distinct[OF assms(2)] in \<open>simp_all add: distinct_map\<close>)

lemma same_graph_refl [simp]: "same_graph st st"
  by (simp add: same_graph_def)

lemma same_graph_sym: "same_graph a b \<Longrightarrow> same_graph b a"
  by (simp add: same_graph_def)

lemma same_hash:
  assumes "same_graph a b" "wf_graph h a"
  shows "currentSnapshotHashHex h a = currentSnapshotHashHex h b"
  using sort_values_eq[of "hg_events a" "hg_events b"] sort_values_eq[of "hg_relations a" "hg_relations b"] assms
  by (simp add: currentSnapshotHashHex_def same_graph_def wf_graph_def)

lemma same_values: "mset a = mset b \<Longrightarrow> set (map_values a) = set (map_values b)"
  by (rule mset_eq_setD) (rule map_values_mset)

lemma same_wf:
  assumes "same_graph a b" "wf_graph h a"
  shows "wf_graph h b"
proof -
  have k: "keyed ge_event_id (hg_events b)" "keyed re_edge_id (hg_relations b)" "keyed an_snapshot_version (hg_anchors b)"
    using assms by (auto simp: same_graph_def wf_graph_def intro: keyed_mset)
  have v: "set (map_values (hg_relations b)) = set (map_values (hg_relations a))"
    "set (map_values (hg_anchors b)) = set (map_values (hg_anchors a))" "hg_snapshotVersion b = hg_snapshotVersion a"
    using assms(1) same_values[of "hg_relations a" "hg_relations b"] same_values[of "hg_anchors a" "hg_anchors b"]
    by (simp_all add: same_graph_def)
  show ?thesis using assms(2) unfolding wf_graph_def v same_hash[OF assms, symmetric] by (simp add: k)
qed

text \<open>What is computed from a graph does not depend on the order of its maps.\<close>

lemma filter_mset_eq: "mset xs = mset ys \<Longrightarrow> mset (filter P xs) = mset (filter P ys)"
  by simp

lemma length_mset_eq: "mset xs = mset ys \<Longrightarrow> length xs = length ys"
  by (rule mset_eq_length)

lemma sum_list_mset_eq: "mset xs = mset ys \<Longrightarrow> sum_list (map f xs) = (sum_list (map f ys) :: int)"
  by (metis mset_map sum_mset_sum_list)

lemma computeRiskSignals_mset:
  "mset xs = mset ys \<Longrightarrow> computeRiskSignals now xs s = computeRiskSignals now ys s"
  by (simp add: computeRiskSignals_def Let_def length_mset_eq[of xs ys]
      length_mset_eq[of "filter P xs" "filter P ys" for P])

lemma same_reputation:
  assumes "same_graph a b" "wf_graph h a"
  shows "reputationOf h now a wallet extra = reputationOf h now b wallet extra"
proof -
  have ev: "mset (walletEvents a wallet) = mset (walletEvents b wallet)"
    and re: "mset (walletRelations a wallet) = mset (walletRelations b wallet)"
    using assms(1) map_values_mset[of "hg_events a" "hg_events b"] map_values_mset[of "hg_relations a" "hg_relations b"]
    by (simp_all add: walletEvents_def walletRelations_def same_graph_def)
  have an: "map_get (hg_anchors a) = map_get (hg_anchors b)"
    using assms by (intro map_get_mset) (simp_all add: same_graph_def wf_graph_def keyed_def)
  show ?thesis
    using sum_list_mset_eq[OF ev] sum_list_mset_eq[OF re] length_mset_eq[OF ev] an assms(1)
    by (simp add: reputationOf_def Let_def computeRiskSignals_mset[OF ev] same_hash[OF assms] same_graph_def)
qed

subsection \<open>Reaching a state\<close>

text \<open>A process starts without a graph; requests, restarts and new processes follow in any order.\<close>

definition hub_init :: "hub_state" where
  "hub_init = \<lparr>hs_graph = None, hs_files = (\<lambda>_. None)\<rparr>"

text \<open>
  A write that fails (the directory, the temporary file, the renaming) throws after the global has changed: the
  operation leaves its graph in the process, and the file as it was.
\<close>

definition writeFailed :: "hub_state \<Rightarrow> hub_state \<Rightarrow> hub_state" where
  "writeFailed hs hs' = hs'\<lparr>hs_files := hs_files hs\<rparr>"

text \<open>
  The states of a hub, with the anchors that wait for the chain, and whether the last write has succeeded. Requests
  come in any order, also between the two halves of an anchor; a process that stops loses its waiting anchors.
\<close>

inductive hub_run ::
  "hub_host \<Rightarrow> (int \<Rightarrow> anchor_request \<Rightarrow> anchor_receipt result) \<Rightarrow> hub_state \<Rightarrow> anchor_request list \<Rightarrow> bool \<Rightarrow> bool"
  for h anchor where
  started: "hub_run h anchor hub_init [] True"
| ingested: "hub_run h anchor hs pending saved \<Longrightarrow> hub_run h anchor (fst (ingestGraphEvent h uuid now inp hs)) pending True"
| upserted: "hub_run h anchor hs pending saved \<Longrightarrow> hub_run h anchor (fst (upsertRelationEdge h now rel hs)) pending True"
| ingest_unwritten: "hub_run h anchor hs pending saved \<Longrightarrow>
    hub_run h anchor (writeFailed hs (fst (ingestGraphEvent h uuid now inp hs))) pending False"
| upsert_unwritten: "hub_run h anchor hs pending saved \<Longrightarrow>
    hub_run h anchor (writeFailed hs (fst (upsertRelationEdge h now rel hs))) pending False"
| asked: "hub_run h anchor hs pending saved \<Longrightarrow> anchorBegin h now hs = (hs', q) \<Longrightarrow> hub_run h anchor hs' (q # pending) saved"
| anchored: "hub_run h anchor hs pending saved \<Longrightarrow> q \<in> set pending \<Longrightarrow> anchor at_ms q = Inr receipt \<Longrightarrow>
    hub_run h anchor (anchorFinish now receipt hs) (remove1 q pending) True"
| anchor_unwritten: "hub_run h anchor hs pending saved \<Longrightarrow> q \<in> set pending \<Longrightarrow> anchor at_ms q = Inr receipt \<Longrightarrow>
    hub_run h anchor (writeFailed hs (anchorFinish now receipt hs)) (remove1 q pending) False"
| refused: "hub_run h anchor hs pending saved \<Longrightarrow> q \<in> set pending \<Longrightarrow> hub_run h anchor hs (remove1 q pending) saved"
| read: "hub_run h anchor hs pending saved \<Longrightarrow> hub_run h anchor (fst (getReputationSnapshot h now wallet extra hs)) pending saved"
| stopped: "hub_run h anchor hs pending saved \<Longrightarrow> hub_run h anchor (restart hs) [] True"

text \<open>
  The invariant while anchors are not overtaken: the graph an operation sees is well formed, and is the one a fresh
  process reads.
\<close>

definition synced :: "hub_host \<Rightarrow> hub_state \<Rightarrow> bool" where
  "synced h hs \<longleftrightarrow> wf_graph h (getState h hs) \<and> same_graph (getState h hs) (getState h (restart hs))
     \<and> (\<forall>g. hs_graph hs = Some g \<longrightarrow> hg_loadedFromDisk g \<and> hg_storagePath g = resolveStoragePath (hh_env h))"

lemma getState_loaded [simp]:
  "hg_loadedFromDisk (getState h hs)" "hg_storagePath (getState h hs) = resolveStoragePath (hh_env h)"
  by (auto simp: getState_def hydrateStateIfNeeded_def Let_def split: option.splits)

lemma getState_current:
  "hs_graph hs = Some g \<Longrightarrow> hg_loadedFromDisk g \<Longrightarrow> hg_storagePath g = resolveStoragePath (hh_env h) \<Longrightarrow> getState h hs = g"
  by (simp add: getState_def hydrateStateIfNeeded_def)

lemma getState_fresh:
  "hs_graph hs = None \<Longrightarrow> getState h hs = hydrateStateIfNeeded (hs_files hs) (defaultState (hh_env h))"
  by (simp add: getState_def defaultState_def)

lemma restart_simps [simp]: "hs_graph (restart hs) = None" "hs_files (restart hs) = hs_files hs"
  by (simp_all add: restart_def)

lemma restart_read [simp]: "restart (hs\<lparr>hs_graph := g\<rparr>) = restart hs"
  by (simp add: restart_def)

text \<open>Reading back what was written.\<close>

lemma hydrate_written:
  assumes "wf_graph h st" "files (resolveStoragePath env) = Some (Persisted (persistedState t st))"
  shows "same_graph st (hydrateStateIfNeeded files (defaultState env))"
  using assms
  by (simp add: same_graph_def hydrateStateIfNeeded_def defaultState_def readPersistedState_def persistedState_def
      wf_graph_def map_by_sorted max_def)

lemma written_synced:
  assumes "wf_graph h st" "hg_loadedFromDisk st" "hg_storagePath st = resolveStoragePath (hh_env h)"
  shows "synced h (writePersistedState now st hs)" "getState h (writePersistedState now st hs) = st"
proof -
  let ?hs = "writePersistedState now st hs"
  have g: "hs_graph ?hs = Some st" by (simp add: writePersistedState_def)
  show c: "getState h ?hs = st" by (rule getState_current[OF g assms(2,3)])
  have "same_graph st (getState h (restart ?hs))"
    by (simp add: getState_fresh, rule hydrate_written[OF assms(1)]) (simp add: writePersistedState_def assms(3))
  then show "synced h ?hs" using assms g by (simp add: synced_def c)
qed

lemma read_synced: "synced h hs \<Longrightarrow> synced h (hs\<lparr>hs_graph := Some (getState h hs)\<rparr>)"
proof -
  assume s: "synced h hs"
  let ?hs = "hs\<lparr>hs_graph := Some (getState h hs)\<rparr>"
  have "getState h ?hs = getState h hs" by (rule getState_current) simp_all
  then show ?thesis using s by (simp add: synced_def)
qed

lemma restart_synced: "synced h hs \<Longrightarrow> synced h (restart hs)"
  using same_wf[of "getState h hs" "getState h (restart hs)"] by (simp add: synced_def restart_def)

lemma init_synced: "synced h hub_init"
  by (simp add: synced_def hub_init_def restart_def getState_fresh hydrateStateIfNeeded_def readPersistedState_def
      defaultState_def wf_graph_def map_values_def)

text \<open>A change of the graph gets a new version, which no anchor is for.\<close>

lemma wf_ingest:
  assumes "wf_graph h st" "ge_event_id e = k"
  shows "wf_graph h (nextSnapshotVersion (st\<lparr>hg_events := map_set k e (hg_events st)\<rparr>))"
  using assms by (auto simp: wf_graph_def nextSnapshotVersion_def keyed_set)

lemma set_values_update: "v \<in> set (map_values (map_set k x m)) \<Longrightarrow> v = x \<or> v \<in> set (map_values m)"
  by (induction m) (auto simp: map_values_def split: if_splits)

lemma clamp_int_bounds: "0 \<le> clamp (n::int) 0 100" "clamp (n::int) 0 100 \<le> 100"
  by (simp_all add: clamp_def)

lemma wf_upsert:
  assumes "wf_graph h st" "re_edge_id r = k" "k = edgeId h (re_from_wallet r) (re_edge_type r) (re_to_id r)"
    "0 \<le> re_weight r" "re_weight r \<le> 100"
  shows "wf_graph h (nextSnapshotVersion (st\<lparr>hg_relations := map_set k r (hg_relations st)\<rparr>))"
  using assms by (auto simp: wf_graph_def nextSnapshotVersion_def keyed_set dest!: set_values_update)

lemma wf_anchor:
  assumes "wf_graph h st" "an_snapshot_version a = hg_snapshotVersion st"
    "an_snapshot_hash_hex a = currentSnapshotHashHex h st"
  shows "wf_graph h (st\<lparr>hg_anchors := map_set (hg_snapshotVersion st) a (hg_anchors st)\<rparr>)"
  using assms by (auto simp: wf_graph_def keyed_set currentSnapshotHashHex_def dest!: set_values_update)

lemma ingest_synced:
  assumes "synced h hs"
  shows "synced h (fst (ingestGraphEvent h uuid now inp hs))"
  using assms unfolding ingestGraphEvent_def Let_def fst_conv
  by (intro written_synced wf_ingest) (simp_all add: synced_def nextSnapshotVersion_def)

lemma upsert_synced:
  assumes "synced h hs"
  shows "synced h (fst (upsertRelationEdge h now rel hs))"
  using assms unfolding upsertRelationEdge_def Let_def fst_conv
  by (intro written_synced wf_upsert) (simp_all add: synced_def nextSnapshotVersion_def clamp_int_bounds)

text \<open>The graph after an operation.\<close>

lemma ingest_state:
  assumes "wf_graph h (getState h hs)"
  obtains e where "getState h (fst (ingestGraphEvent h uuid now inp hs)) =
      nextSnapshotVersion (getState h hs\<lparr>hg_events := map_set uuid e (hg_events (getState h hs))\<rparr>)"
    "ge_wallet e = gi_wallet inp" "ge_event_type e = gi_event_type inp" "ge_asset_id e = gi_asset_id inp"
proof
  let ?e = "\<lparr>ge_event_id = uuid, ge_wallet = gi_wallet inp, ge_event_type = gi_event_type inp,
        ge_asset_id = gi_asset_id inp, ge_decision = gi_decision inp, ge_value_lamports = gi_value_lamports inp,
        ge_context = gi_context inp, ge_occurred_at = opt_or (gi_occurred_at inp) now, ge_ingested_at = now\<rparr>"
  show "getState h (fst (ingestGraphEvent h uuid now inp hs)) =
      nextSnapshotVersion (getState h hs\<lparr>hg_events := map_set uuid ?e (hg_events (getState h hs))\<rparr>)"
    unfolding ingestGraphEvent_def Let_def fst_conv
    by (rule written_synced(2), rule wf_ingest) (simp_all add: assms nextSnapshotVersion_def)
qed simp_all

lemma upsert_state:
  assumes "wf_graph h (getState h hs)"
  obtains r where "getState h (fst (upsertRelationEdge h now rel hs)) =
      nextSnapshotVersion (getState h hs\<lparr>hg_relations := map_set (re_edge_id r) r (hg_relations (getState h hs))\<rparr>)"
    "re_edge_id r = edgeId h (ri_from_wallet rel) (ri_edge_type rel) (ri_to_id rel)" "re_from_wallet r = ri_from_wallet rel"
proof
  let ?r = "\<lparr>re_edge_id = edgeId h (ri_from_wallet rel) (ri_edge_type rel) (ri_to_id rel),
      re_from_wallet = ri_from_wallet rel, re_to_id = ri_to_id rel, re_edge_type = ri_edge_type rel,
      re_weight = clamp (js_round (ri_weight rel)) 0 100, re_metadata = ri_metadata rel, re_updated_at = now\<rparr>"
  show "getState h (fst (upsertRelationEdge h now rel hs)) =
      nextSnapshotVersion (getState h hs\<lparr>hg_relations := map_set (re_edge_id ?r) ?r (hg_relations (getState h hs))\<rparr>)"
    unfolding upsertRelationEdge_def Let_def fst_conv relation_edge.select_convs
    by (rule written_synced(2), rule wf_upsert) (simp_all add: assms nextSnapshotVersion_def clamp_int_bounds)
qed simp_all

context chain_adapter
begin

lemma anchor_synced:
  assumes "synced h hs"
  shows "synced h (fst (anchorCurrentSnapshot h now (anchor at_ms) hs))"
proof -
  let ?q = "\<lparr>aq_snapshot_hash_hex = currentSnapshotHashHex h (getState h hs),
      aq_snapshot_version = hg_snapshotVersion (getState h hs), aq_generated_at = now\<rparr>"
  show ?thesis
  proof (cases "anchor at_ms ?q")
    case (Inl e)
    then show ?thesis using read_synced[OF assms] by (simp add: anchorCurrentSnapshot_def anchorBegin_def Let_def)
  next
    case (Inr a)
    have "synced h (writePersistedState now (getState h hs\<lparr>hg_anchors :=
        map_set (hg_snapshotVersion (getState h hs)) a (hg_anchors (getState h hs))\<rparr>)
        (hs\<lparr>hs_graph := Some (getState h hs)\<rparr>))"
      using assms names_snapshot[OF Inr] by (intro written_synced wf_anchor) (simp_all add: synced_def)
    then show ?thesis using Inr by (simp add: anchorCurrentSnapshot_def anchorBegin_def anchorFinish_def Let_def)
  qed
qed

end

subsection \<open>What every run keeps\<close>

text \<open>
  The part of \<open>wf_graph\<close> that an overtaken anchor does not break: its receipt is filed under a version that is not
  the one it names, but names no version to come, and the current one only with the current hash.
\<close>

definition receipt_fits :: "hub_host \<Rightarrow> hub_graph \<Rightarrow> int \<Rightarrow> string \<Rightarrow> bool" where
  "receipt_fits h st version hash \<longleftrightarrow> version \<le> hg_snapshotVersion st
     \<and> (version = hg_snapshotVersion st \<longrightarrow> hash = currentSnapshotHashHex h st)"

definition sound_graph :: "hub_host \<Rightarrow> hub_graph \<Rightarrow> bool" where
  "sound_graph h st \<longleftrightarrow> keyed ge_event_id (hg_events st) \<and> keyed re_edge_id (hg_relations st) \<and> 1 \<le> hg_snapshotVersion st
     \<and> (\<forall>r \<in> set (map_values (hg_relations st)).
          re_edge_id r = edgeId h (re_from_wallet r) (re_edge_type r) (re_to_id r) \<and> 0 \<le> re_weight r \<and> re_weight r \<le> 100)
     \<and> (\<forall>a \<in> set (map_values (hg_anchors st)). receipt_fits h st (an_snapshot_version a) (an_snapshot_hash_hex a))"

lemma wf_sound: "wf_graph h st \<longleftrightarrow> sound_graph h st \<and> keyed an_snapshot_version (hg_anchors st)"
  by (auto simp: wf_graph_def sound_graph_def receipt_fits_def)

text \<open>The same events, relations and version.\<close>

definition same_core :: "hub_graph \<Rightarrow> hub_graph \<Rightarrow> bool" where
  "same_core a b \<longleftrightarrow> mset (hg_events a) = mset (hg_events b) \<and> mset (hg_relations a) = mset (hg_relations b)
     \<and> hg_snapshotVersion a = hg_snapshotVersion b"

lemma core_hash:
  assumes "same_core a b" "keyed ge_event_id (hg_events a)" "keyed re_edge_id (hg_relations a)"
  shows "currentSnapshotHashHex h a = currentSnapshotHashHex h b"
  using sort_values_eq[of "hg_events a" "hg_events b"] sort_values_eq[of "hg_relations a" "hg_relations b"] assms
  by (simp add: currentSnapshotHashHex_def same_core_def)

lemma core_reputation:
  assumes "same_core a b" "sound_graph h a"
  shows "reputationOf h now b wallet extra
     = (reputationOf h now a wallet extra)\<lparr>rp_anchored_at := rp_anchored_at (reputationOf h now b wallet extra)\<rparr>"
proof -
  have ev: "mset (walletEvents a wallet) = mset (walletEvents b wallet)"
    and re: "mset (walletRelations a wallet) = mset (walletRelations b wallet)"
    using assms(1) map_values_mset[of "hg_events a" "hg_events b"] map_values_mset[of "hg_relations a" "hg_relations b"]
    by (simp_all add: walletEvents_def walletRelations_def same_core_def)
  have hash: "currentSnapshotHashHex h a = currentSnapshotHashHex h b"
    using assms by (intro core_hash) (simp_all add: sound_graph_def)
  show ?thesis
    using sum_list_mset_eq[OF ev] sum_list_mset_eq[OF re] length_mset_eq[OF ev] assms(1)
    by (simp add: reputationOf_def Let_def computeRiskSignals_mset[OF ev] hash same_core_def)
qed

lemma core_sound:
  assumes "same_core a b" "sound_graph h a" "set (map_values (hg_anchors b)) \<subseteq> set (map_values (hg_anchors a))"
  shows "sound_graph h b"
proof -
  have hash: "currentSnapshotHashHex h a = currentSnapshotHashHex h b"
    using assms by (intro core_hash) (simp_all add: sound_graph_def)
  have k: "keyed ge_event_id (hg_events b)" "keyed re_edge_id (hg_relations b)"
    using assms by (auto simp: same_core_def sound_graph_def intro: keyed_mset)
  have v: "set (map_values (hg_relations b)) = set (map_values (hg_relations a))" "hg_snapshotVersion b = hg_snapshotVersion a"
    using assms(1) same_values[of "hg_relations a" "hg_relations b"] by (simp_all add: same_core_def)
  show ?thesis using assms(2,3) k by (auto simp: sound_graph_def receipt_fits_def v hash)
qed

text \<open>The anchors of a file are filed under the versions they name when it is read.\<close>

lemma map_by_snoc: "map_by key (xs @ [x]) = map_set (key x) x (map_by key xs)"
  by (simp add: map_by_def)

lemma map_by_keyed: "keyed key (map_by key xs) \<and> set (map_values (map_by key xs)) \<subseteq> set xs"
proof (induction xs rule: rev_induct)
  case Nil
  then show ?case by (simp add: map_by_def map_values_def)
next
  case (snoc x xs)
  then show ?case by (auto simp: map_by_snoc keyed_set dest!: set_values_update)
qed

definition refiled :: "hub_graph \<Rightarrow> (int, anchor_receipt) jsmap" where
  "refiled st = map_by an_snapshot_version (sort_key an_snapshot_version (map_values (hg_anchors st)))"

lemma refiled_keyed: "keyed an_snapshot_version (refiled st)" "set (map_values (refiled st)) \<subseteq> set (map_values (hg_anchors st))"
  using map_by_keyed[of an_snapshot_version "sort_key an_snapshot_version (map_values (hg_anchors st))"] by (auto simp: refiled_def)

lemma refiled_same: "keyed an_snapshot_version (hg_anchors st) \<Longrightarrow> mset (refiled st) = mset (hg_anchors st)"
  by (simp add: refiled_def map_by_sorted)

lemma hydrate_refiled:
  assumes "sound_graph h st" "files (resolveStoragePath env) = Some (Persisted (persistedState t st))"
  shows "same_core st (hydrateStateIfNeeded files (defaultState env)) \<and> hg_anchors (hydrateStateIfNeeded files (defaultState env)) = refiled st"
  using assms
  by (simp add: same_core_def refiled_def hydrateStateIfNeeded_def defaultState_def readPersistedState_def persistedState_def
      sound_graph_def map_by_sorted max_def)

text \<open>
  The invariant: the graph in the process and the one in the file are sound, the waiting anchors fit the one in the process,
  and after a successful write the two are the same, the anchors refiled.
\<close>

definition run_ok :: "hub_host \<Rightarrow> hub_state \<Rightarrow> anchor_request list \<Rightarrow> bool \<Rightarrow> bool" where
  "run_ok h hs pending saved \<longleftrightarrow> sound_graph h (getState h hs) \<and> sound_graph h (getState h (restart hs))
     \<and> (\<forall>g. hs_graph hs = Some g \<longrightarrow> hg_loadedFromDisk g \<and> hg_storagePath g = resolveStoragePath (hh_env h))
     \<and> (\<forall>q \<in> set pending. receipt_fits h (getState h hs) (aq_snapshot_version q) (aq_snapshot_hash_hex q))
     \<and> keyed an_snapshot_version (hg_anchors (getState h (restart hs)))
     \<and> (saved \<longrightarrow> same_core (getState h hs) (getState h (restart hs))
          \<and> mset (hg_anchors (getState h (restart hs))) = mset (refiled (getState h hs)))"

lemma written_ok:
  assumes "sound_graph h st" "hg_loadedFromDisk st" "hg_storagePath st = resolveStoragePath (hh_env h)"
    and "\<forall>q \<in> set pending. receipt_fits h st (aq_snapshot_version q) (aq_snapshot_hash_hex q)"
  shows "run_ok h (writePersistedState now st hs) pending True"
proof -
  let ?hs = "writePersistedState now st hs"
  have c: "getState h ?hs = st" by (rule getState_current) (simp_all add: writePersistedState_def assms)
  have r: "same_core st (getState h (restart ?hs)) \<and> hg_anchors (getState h (restart ?hs)) = refiled st"
    by (simp add: getState_fresh, rule hydrate_refiled[OF assms(1)]) (simp add: writePersistedState_def assms(3))
  then have "sound_graph h (getState h (restart ?hs))"
    using core_sound[OF _ assms(1)] refiled_keyed(2) by (metis)
  with r c assms refiled_keyed(1) show ?thesis by (simp add: run_ok_def) (simp add: writePersistedState_def)
qed

lemma unwritten_ok:
  assumes "run_ok h hs pending saved" "sound_graph h st" "hg_loadedFromDisk st" "hg_storagePath st = resolveStoragePath (hh_env h)"
    and "\<forall>q \<in> set pending'. receipt_fits h st (aq_snapshot_version q) (aq_snapshot_hash_hex q)"
  shows "run_ok h (writeFailed hs (writePersistedState now st hs')) pending' False"
proof -
  let ?hs = "writeFailed hs (writePersistedState now st hs')"
  have c: "getState h ?hs = st"
    by (rule getState_current) (simp_all add: writeFailed_def writePersistedState_def assms)
  have r: "getState h (restart ?hs) = getState h (restart hs)"
    by (simp add: getState_fresh writeFailed_def writePersistedState_def)
  show ?thesis using assms unfolding run_ok_def c r by (auto simp: writeFailed_def writePersistedState_def)
qed

lemma fits_later:
  "receipt_fits h st v x \<Longrightarrow> hg_snapshotVersion st < hg_snapshotVersion st' \<Longrightarrow> receipt_fits h st' v x"
  by (simp add: receipt_fits_def)

lemma sound_ingest:
  assumes "sound_graph h st" "ge_event_id e = k"
  shows "sound_graph h (nextSnapshotVersion (st\<lparr>hg_events := map_set k e (hg_events st)\<rparr>))"
  using assms by (auto simp: sound_graph_def nextSnapshotVersion_def keyed_set receipt_fits_def)

lemma sound_upsert:
  assumes "sound_graph h st" "re_edge_id r = k" "k = edgeId h (re_from_wallet r) (re_edge_type r) (re_to_id r)"
    "0 \<le> re_weight r" "re_weight r \<le> 100"
  shows "sound_graph h (nextSnapshotVersion (st\<lparr>hg_relations := map_set k r (hg_relations st)\<rparr>))"
  using assms by (auto simp: sound_graph_def nextSnapshotVersion_def keyed_set receipt_fits_def dest!: set_values_update)

lemma fits_anchor [simp]:
  "receipt_fits h (st\<lparr>hg_anchors := m\<rparr>) v x \<longleftrightarrow> receipt_fits h st v x"
  by (simp add: receipt_fits_def currentSnapshotHashHex_def)

lemma sound_anchor:
  assumes "sound_graph h st" "receipt_fits h st (an_snapshot_version a) (an_snapshot_hash_hex a)"
  shows "sound_graph h (st\<lparr>hg_anchors := map_set v a (hg_anchors st)\<rparr>)"
  using assms by (auto simp: sound_graph_def dest!: set_values_update)

lemma ingest_run:
  assumes "run_ok h hs pending saved"
  shows "run_ok h (fst (ingestGraphEvent h uuid now inp hs)) pending True"
    "run_ok h (writeFailed hs (fst (ingestGraphEvent h uuid now inp hs))) pending False"
  unfolding ingestGraphEvent_def Let_def fst_conv
  by ((rule written_ok unwritten_ok[OF assms]; (rule sound_ingest)?,
      use assms in \<open>auto simp: run_ok_def nextSnapshotVersion_def intro: fits_later\<close>))+

lemma upsert_run:
  assumes "run_ok h hs pending saved"
  shows "run_ok h (fst (upsertRelationEdge h now rel hs)) pending True"
    "run_ok h (writeFailed hs (fst (upsertRelationEdge h now rel hs))) pending False"
  unfolding upsertRelationEdge_def Let_def fst_conv
  by ((rule written_ok unwritten_ok[OF assms]; (rule sound_upsert)?,
      use assms in \<open>auto simp: run_ok_def nextSnapshotVersion_def clamp_int_bounds intro: fits_later\<close>))+

lemma read_run:
  assumes "run_ok h hs pending saved"
  shows "run_ok h (hs\<lparr>hs_graph := Some (getState h hs)\<rparr>) pending saved"
proof -
  have "getState h (hs\<lparr>hs_graph := Some (getState h hs)\<rparr>) = getState h hs" by (rule getState_current) simp_all
  then show ?thesis using assms by (simp add: run_ok_def)
qed

lemma begin_run:
  assumes "run_ok h hs pending saved" "anchorBegin h now hs = (hs', q)"
  shows "run_ok h hs' (q # pending) saved"
proof -
  have x: "hs' = hs\<lparr>hs_graph := Some (getState h hs)\<rparr>" "aq_snapshot_version q = hg_snapshotVersion (getState h hs)"
    "aq_snapshot_hash_hex q = currentSnapshotHashHex h (getState h hs)" using assms(2) by (auto simp: anchorBegin_def Let_def)
  have "getState h hs' = getState h hs" unfolding x by (rule getState_current) simp_all
  then show ?thesis using read_run[OF assms(1)] x by (simp add: run_ok_def receipt_fits_def)
qed

lemma fewer_run: "run_ok h hs pending saved \<Longrightarrow> run_ok h hs (remove1 q pending) saved"
  using set_remove1_subset[of q pending] by (auto simp: run_ok_def)

lemma restart_run:
  assumes "run_ok h hs pending saved"
  shows "run_ok h (restart hs) [] True"
  using assms by (auto simp: run_ok_def same_core_def restart_def refiled_same)

lemma init_run: "run_ok h hub_init [] True"
  using init_synced[of h]
  by (simp add: run_ok_def synced_def wf_sound same_graph_def same_core_def refiled_same hub_init_def)
     (simp add: restart_def getState_fresh)

context chain_adapter
begin

lemma finish_run:
  assumes "run_ok h hs pending saved" "q \<in> set pending" "anchor at_ms q = Inr receipt" "hs_graph hs = Some st"
  shows "run_ok h (anchorFinish now receipt hs) (remove1 q pending) True"
    "run_ok h (writeFailed hs (anchorFinish now receipt hs)) (remove1 q pending) False"
proof -
  have l: "hg_loadedFromDisk st" "hg_storagePath st = resolveStoragePath (hh_env h)"
    using assms(1,4) by (simp_all add: run_ok_def)
  have g: "getState h hs = st" by (rule getState_current[OF assms(4) l])
  have fits: "receipt_fits h st (an_snapshot_version receipt) (an_snapshot_hash_hex receipt)"
    using assms(1,2) names_snapshot[OF assms(3)] by (auto simp: run_ok_def g)
  have snd: "sound_graph h (st\<lparr>hg_anchors := map_set (hg_snapshotVersion st) receipt (hg_anchors st)\<rparr>)"
    using assms(1) by (intro sound_anchor fits) (simp add: run_ok_def g)
  have p: "\<forall>q \<in> set (remove1 q pending). receipt_fits h st (aq_snapshot_version q) (aq_snapshot_hash_hex q)"
    using fewer_run[OF assms(1), of q, unfolded run_ok_def g] by blast
  show "run_ok h (anchorFinish now receipt hs) (remove1 q pending) True"
    unfolding anchorFinish_def assms(4) option.case by (rule written_ok[OF snd]) (simp_all add: l p)
  show "run_ok h (writeFailed hs (anchorFinish now receipt hs)) (remove1 q pending) False"
    unfolding anchorFinish_def assms(4) option.case by (rule unwritten_ok[OF assms(1) snd]) (simp_all add: l p)
qed

lemma waiting_alive: "hub_run h anchor hs pending saved \<Longrightarrow> pending = [] \<or> (\<exists>g. hs_graph hs = Some g)"
  by (induction rule: hub_run.induct)
     (auto simp: ingestGraphEvent_def upsertRelationEdge_def writePersistedState_def writeFailed_def anchorBegin_def
        anchorFinish_def getReputationSnapshot_def Let_def split: option.splits)

lemma run_invariant: "hub_run h anchor hs pending saved \<Longrightarrow> run_ok h hs pending saved"
proof (induction rule: hub_run.induct)
  case (anchored hs pending saved q at_ms receipt now)
  then obtain st where "hs_graph hs = Some st" using waiting_alive[of h hs pending saved] by (cases pending) auto
  then show ?case using finish_run(1) anchored by blast
next
  case (anchor_unwritten hs pending saved q at_ms receipt now)
  then obtain st where "hs_graph hs = Some st" using waiting_alive[of h hs pending saved] by (cases pending) auto
  then show ?case using finish_run(2) anchor_unwritten by blast
qed (auto intro: init_run ingest_run upsert_run begin_run fewer_run restart_run
       simp: getReputationSnapshot_def Let_def read_run)

text \<open>While no anchor has been overtaken, the graph is well formed and the one a fresh process reads.\<close>

lemma run_synced:
  assumes "hub_run h anchor hs pending True" "keyed an_snapshot_version (hg_anchors (getState h hs))"
  shows "synced h hs"
  using run_invariant[OF assms(1)] assms(2)
  by (auto simp: run_ok_def synced_def wf_sound same_core_def same_graph_def refiled_same)

end

subsection \<open>Properties\<close>

lemma reputation_of_state: "snd (getReputationSnapshot h now wallet extra hs) = reputationOf h now (getState h hs) wallet (opt_or extra [])"
  by (simp add: getReputationSnapshot_def Let_def)

text \<open>The global after an event, and after the end of an anchor.\<close>

lemma ingest_global:
  "hs_graph (fst (ingestGraphEvent h uuid now inp hs)) = Some (getState h (fst (ingestGraphEvent h uuid now inp hs)))"
  by (simp add: ingestGraphEvent_def Let_def writePersistedState_def nextSnapshotVersion_def)
     (rule getState_current[symmetric], simp_all)

lemma anchored_state:
  assumes "hs_graph hs = Some st" "hg_loadedFromDisk st" "hg_storagePath st = resolveStoragePath (hh_env h)"
  shows "getState h (anchorFinish now a hs) = st\<lparr>hg_anchors := map_set (hg_snapshotVersion st) a (hg_anchors st)\<rparr>"
  by (rule getState_current) (simp_all add: anchorFinish_def assms writePersistedState_def)

text \<open>
  C10. The hub survives a crash: in every state that requests, anchors, failed writes and restarts reach, in any order and
  with requests between the request of an anchor and its receipt, a process that starts again from the file after a
  successful write has the same events, relations and version, and answers every reputation request as the running one
  does, the snapshot hash included, up to the time of anchoring. That one is the same as long as every receipt is
  filed under the version it names, that is, no anchor has been overtaken; and the restarted process reports a snapshot
  as anchored only with a receipt that names its version and its hash.
\<close>

theorem reputation_survives_restart:
  assumes "hub_run h (anchorSnapshot h ad signer sendMemo) hs pending True"
    and "before = snd (getReputationSnapshot h now wallet extra hs)"
    and "after = snd (getReputationSnapshot h now wallet extra (restart hs))"
  shows "mset (hg_events (getState h (restart hs))) = mset (hg_events (getState h hs))
     \<and> mset (hg_relations (getState h (restart hs))) = mset (hg_relations (getState h hs))
     \<and> hg_snapshotVersion (getState h (restart hs)) = hg_snapshotVersion (getState h hs)
     \<and> after = before\<lparr>rp_anchored_at := rp_anchored_at after\<rparr>
     \<and> (keyed an_snapshot_version (hg_anchors (getState h hs)) \<longrightarrow>
          same_graph (getState h hs) (getState h (restart hs)) \<and> after = before)
     \<and> (\<forall>t. rp_anchored_at after = Some t \<longrightarrow> (\<exists>a \<in> set (map_values (hg_anchors (getState h hs))). an_anchored_at a = t
          \<and> an_snapshot_version a = rp_snapshot_version after \<and> an_snapshot_hash_hex a = rp_snapshot_hash_hex after))"
proof -
  let ?g = "getState h hs" and ?g' = "getState h (restart hs)"
  have ok: "run_ok h hs pending True" by (rule solana.run_invariant[OF assms(1)])
  then have core: "same_core ?g ?g'" and snd: "sound_graph h ?g" "sound_graph h ?g'"
    and k: "keyed an_snapshot_version (hg_anchors ?g')" and m: "mset (hg_anchors ?g') = mset (refiled ?g)" by (simp_all add: run_ok_def)
  have rep: "before = reputationOf h now ?g wallet (opt_or extra [])" "after = reputationOf h now ?g' wallet (opt_or extra [])"
    using assms(2,3) by (simp_all add: reputation_of_state)
  have part: "after = before\<lparr>rp_anchored_at := rp_anchored_at after\<rparr>"
    unfolding rep by (rule core_reputation[OF core snd(1)])
  have undisturbed: "same_graph ?g ?g' \<and> after = before" if "keyed an_snapshot_version (hg_anchors ?g)"
  proof -
    have "synced h hs" by (rule solana.run_synced[OF assms(1) that])
    then have "same_graph ?g ?g'" "wf_graph h ?g" by (simp_all add: synced_def)
    then show ?thesis using same_reputation[of ?g ?g' h] by (simp add: rep)
  qed
  have genuine: "\<exists>a \<in> set (map_values (hg_anchors ?g)). an_anchored_at a = t
      \<and> an_snapshot_version a = rp_snapshot_version after \<and> an_snapshot_hash_hex a = rp_snapshot_hash_hex after"
    if "rp_anchored_at after = Some t" for t
  proof -
    obtain a where a: "map_get (hg_anchors ?g') (hg_snapshotVersion ?g') = Some a" "an_anchored_at a = t"
      using \<open>rp_anchored_at after = Some t\<close> by (auto simp: rep reputationOf_def Let_def)
    from keyed_get[OF k a(1)] have v: "an_snapshot_version a = hg_snapshotVersion ?g'" "a \<in> set (map_values (hg_anchors ?g'))" by simp_all
    have "a \<in> set (map_values (hg_anchors ?g))" using v(2) refiled_keyed(2)[of ?g] same_values[OF m] by blast
    moreover have "an_snapshot_hash_hex a = currentSnapshotHashHex h ?g'"
      using snd(2) v by (auto simp: sound_graph_def receipt_fits_def)
    ultimately show ?thesis using a(2) v(1) by (auto simp: rep reputationOf_def Let_def)
  qed
  show ?thesis using core part undisturbed genuine by (simp add: same_core_def)
qed

definition sample_host :: hub_host where
  "sample_host = \<lparr>hh_env = (\<lambda>_. None), hh_sha256 = (\<lambda>s. map (of_nat \<circ> of_char) s), hh_json_stringify = (\<lambda>_. ''{}'')\<rparr>"

definition sample_event :: "string \<Rightarrow> graph_event_type \<Rightarrow> graph_event_input" where
  "sample_event w t = \<lparr>gi_wallet = w, gi_event_type = t, gi_asset_id = ''a1'', gi_decision = None,
     gi_value_lamports = None, gi_context = None, gi_occurred_at = None\<rparr>"

definition sample_hub :: hub_state where
  "sample_hub = fst (ingestGraphEvent sample_host ''e2'' 20 (sample_event ''W'' Ev_purchase)
     (fst (ingestGraphEvent sample_host ''e1'' 10 (sample_event ''W'' Ev_verify) hub_init)))"

lemma sample_hub_run: "hub_run sample_host anchor sample_hub [] True"
  unfolding sample_hub_def by (rule hub_run.ingested, rule hub_run.ingested, rule hub_run.started)

text \<open>Anchoring, overtaken by an event: the restarted process has the same score.\<close>

theorem reputation_survives_restart_witness:
  "\<exists>hs. hub_run sample_host (anchorSnapshot sample_host \<lparr>sa_mockMode = True, sa_cluster = []\<rparr> (None :: unit option) (\<lambda>_ _. Inr [])) hs [] True
     \<and> rp_anchored_at (snd (getReputationSnapshot sample_host 30 ''W'' None hs)) = Some 26
     \<and> rp_score (snd (getReputationSnapshot sample_host 30 ''W'' None (restart hs))) = 65"
proof -
  let ?ad = "anchorSnapshot sample_host \<lparr>sa_mockMode = True, sa_cluster = []\<rparr> (None :: unit option) (\<lambda>_ _. Inr [])"
  let ?b = "anchorBegin sample_host 25 sample_hub"
  let ?i = "fst (ingestGraphEvent sample_host ''e3'' 26 (sample_event ''W'' Ev_view) (fst ?b))"
  obtain a where a: "?ad 26 (snd ?b) = Inr a" "an_anchored_at a = 26" by (simp add: anchorSnapshot_def)
  let ?hs = "anchorFinish 26 a ?i"
  have "hub_run sample_host ?ad (fst ?b) [snd ?b] True" by (rule hub_run.asked[OF sample_hub_run]) simp
  then have "hub_run sample_host ?ad ?i [snd ?b] True" by (rule hub_run.ingested)
  then have r: "hub_run sample_host ?ad ?hs [] True" using hub_run.anchored[of sample_host ?ad ?i "[snd ?b]" True "snd ?b" 26 a 26] a(1) by simp
  have g: "getState sample_host ?hs = (getState sample_host ?i)\<lparr>hg_anchors := map_set (hg_snapshotVersion (getState sample_host ?i)) a
      (hg_anchors (getState sample_host ?i))\<rparr>" by (rule anchored_state[OF ingest_global]) simp_all
  have at: "rp_anchored_at (snd (getReputationSnapshot sample_host 30 ''W'' None ?hs)) = Some 26"
    unfolding reputation_of_state g by (simp add: reputationOf_def Let_def a(2))
  have "rp_score (snd (getReputationSnapshot sample_host 30 ''W'' None ?hs)) = rp_score (snd (getReputationSnapshot sample_host 30 ''W'' None ?i))"
    unfolding reputation_of_state g by (simp add: reputationOf_def Let_def walletEvents_def walletRelations_def)
  also have "\<dots> = 65" by code_simp
  finally have "rp_score (snd (getReputationSnapshot sample_host 30 ''W'' None ?hs)) = 65" .
  moreover have score: "after = before\<lparr>rp_anchored_at := t\<rparr> \<Longrightarrow> rp_score after = rp_score before" for before after :: reputation and t
    by simp
  have "rp_score (snd (getReputationSnapshot sample_host 30 ''W'' None (restart ?hs))) = rp_score (snd (getReputationSnapshot sample_host 30 ''W'' None ?hs))"
    by (rule score, rule reputation_survives_restart[OF r refl refl, THEN conjunct2, THEN conjunct2, THEN conjunct2, THEN conjunct1])
  ultimately have "rp_score (snd (getReputationSnapshot sample_host 30 ''W'' None (restart ?hs))) = 65" by simp
  with r at show ?thesis by blast
qed

text \<open>
  No stale anchor: while no anchor has been overtaken, a reputation that says it is anchored has the
  version and the hash its receipt names, and after any event or relation it is not anchored any more.
\<close>

theorem anchored_reputation_is_current:
  assumes "hub_run h (anchorSnapshot h ad signer sendMemo) hs pending True" "keyed an_snapshot_version (hg_anchors (getState h hs))"
  shows "(\<forall>t. rp_anchored_at (snd (getReputationSnapshot h now wallet extra hs)) = Some t \<longrightarrow>
       (\<exists>a. map_get (hg_anchors (getState h hs)) (an_snapshot_version a) = Some a \<and> an_anchored_at a = t
          \<and> an_snapshot_version a = rp_snapshot_version (snd (getReputationSnapshot h now wallet extra hs))
          \<and> an_snapshot_hash_hex a = rp_snapshot_hash_hex (snd (getReputationSnapshot h now wallet extra hs))))
     \<and> rp_anchored_at (snd (getReputationSnapshot h now wallet extra (fst (ingestGraphEvent h uuid at_ms inp hs)))) = None
     \<and> rp_anchored_at (snd (getReputationSnapshot h now wallet extra (fst (upsertRelationEdge h at_ms rel hs)))) = None"
proof -
  let ?st = "getState h hs"
  have sy: "synced h hs" by (rule solana.run_synced[OF assms])
  then have wf: "wf_graph h ?st" by (simp add: synced_def)
  then have k: "keyed an_snapshot_version (hg_anchors ?st)" by (simp add: wf_graph_def)
  have cur: "an_snapshot_version a = hg_snapshotVersion ?st \<and> an_snapshot_hash_hex a = currentSnapshotHashHex h ?st"
    if "map_get (hg_anchors ?st) (hg_snapshotVersion ?st) = Some a" for a
    using keyed_get[OF k that] wf by (auto simp: wf_graph_def)
  have new: "map_get (hg_anchors ?st) (hg_snapshotVersion ?st + 1) = None"
  proof (cases "map_get (hg_anchors ?st) (hg_snapshotVersion ?st + 1)")
    case (Some a)
    then show ?thesis using keyed_get[OF k Some] wf by (auto simp: wf_graph_def)
  qed
  obtain e where i: "getState h (fst (ingestGraphEvent h uuid at_ms inp hs)) =
      nextSnapshotVersion (?st\<lparr>hg_events := map_set uuid e (hg_events ?st)\<rparr>)" by (rule ingest_state[OF wf])
  obtain r where u: "getState h (fst (upsertRelationEdge h at_ms rel hs)) =
      nextSnapshotVersion (?st\<lparr>hg_relations := map_set (re_edge_id r) r (hg_relations ?st)\<rparr>)" by (rule upsert_state[OF wf])
  show ?thesis
    using cur by (auto simp: reputation_of_state reputationOf_def Let_def i u nextSnapshotVersion_def new) (metis cur)
qed

theorem anchored_reputation_is_current_witness:
  "rp_anchored_at (snd (getReputationSnapshot sample_host 30 ''W'' None (fst (anchorCurrentSnapshot sample_host 25
      (anchorSnapshot sample_host \<lparr>sa_mockMode = True, sa_cluster = []\<rparr> (None :: unit option) (\<lambda>_ _. Inr []) 26) sample_hub)))) = Some 26
   \<and> rp_anchored_at (snd (getReputationSnapshot sample_host 30 ''W'' None (fst (ingestGraphEvent sample_host ''e3'' 27
      (sample_event ''V'' Ev_view) (fst (anchorCurrentSnapshot sample_host 25
      (anchorSnapshot sample_host \<lparr>sa_mockMode = True, sa_cluster = []\<rparr> (None :: unit option) (\<lambda>_ _. Inr []) 26) sample_hub)))))) = None"
proof -
  let ?ad = "anchorSnapshot sample_host \<lparr>sa_mockMode = True, sa_cluster = []\<rparr> (None :: unit option) (\<lambda>_ _. Inr [])"
  let ?hs = "fst (anchorCurrentSnapshot sample_host 25 (?ad 26) sample_hub)"
  let ?b = "anchorBegin sample_host 25 sample_hub"
  obtain a where a: "?ad 26 (snd ?b) = Inr a" by (simp add: anchorSnapshot_def)
  have "hub_run sample_host ?ad (fst ?b) [snd ?b] True" by (rule hub_run.asked[OF sample_hub_run]) simp
  then have "hub_run sample_host ?ad (anchorFinish 25 a (fst ?b)) [] True"
    using hub_run.anchored[of sample_host ?ad "fst ?b" "[snd ?b]" True "snd ?b" 26 a 25] a by simp
  moreover have "anchorFinish 25 a (fst ?b) = ?hs" using a by (simp add: anchorCurrentSnapshot_def case_prod_beta)
  ultimately have r: "hub_run sample_host ?ad ?hs [] True" by simp
  have k: "keyed an_snapshot_version (hg_anchors (getState sample_host ?hs))" by code_simp
  have "rp_anchored_at (snd (getReputationSnapshot sample_host 30 ''W'' None ?hs)) = Some 26" by code_simp
  then show ?thesis using anchored_reputation_is_current[OF r k, of 30 "''W''" None "''e3''" 27 "sample_event ''V'' Ev_view"] by blast
qed

text \<open>
  Anchoring that is overtaken: when an event is ingested between the request of an anchor and its
  receipt, the receipt is filed under the new version. The hub then reports the new snapshot as anchored,
  although the receipt names the version before it, and a restart reports it as not anchored.
\<close>

theorem overtaken_anchor_is_filed_wrongly:
  assumes "synced h hs"
    and "anchorBegin h at_ms hs = (hs1, q)" "anchorSnapshot h ad signer sendMemo later q = Inr receipt"
    and "hs2 = anchorFinish later receipt (fst (ingestGraphEvent h uuid later inp hs1))"
  shows "rp_anchored_at (snd (getReputationSnapshot h now wallet extra hs2)) = Some (an_anchored_at receipt)
     \<and> rp_snapshot_version (snd (getReputationSnapshot h now wallet extra hs2)) = an_snapshot_version receipt + 1
     \<and> rp_anchored_at (snd (getReputationSnapshot h now wallet extra (restart hs2))) = None"
proof -
  let ?st = "getState h hs"
  note sy = assms(1)
  have hs1: "hs1 = hs\<lparr>hs_graph := Some ?st\<rparr>" and q: "aq_snapshot_version q = hg_snapshotVersion ?st"
    using assms(2) by (auto simp: anchorBegin_def Let_def)
  have sy1: "synced h hs1" unfolding hs1 by (rule read_synced[OF sy])
  have st1: "getState h hs1 = ?st" unfolding hs1 by (rule getState_current) simp_all
  have wf: "wf_graph h ?st" using sy by (simp add: synced_def)
  obtain e where "getState h (fst (ingestGraphEvent h uuid later inp hs1)) =
      nextSnapshotVersion (?st\<lparr>hg_events := map_set uuid e (hg_events ?st)\<rparr>)"
    using ingest_state[of h hs1 uuid later inp] wf by (metis st1)
  then obtain g where g: "hs_graph (fst (ingestGraphEvent h uuid later inp hs1)) = Some g"
      "hg_loadedFromDisk g" "hg_storagePath g = resolveStoragePath (hh_env h)"
      "hg_snapshotVersion g = hg_snapshotVersion ?st + 1" "hg_anchors g = hg_anchors ?st"
    by (auto simp: ingestGraphEvent_def writePersistedState_def Let_def nextSnapshotVersion_def st1)
  let ?g = "g\<lparr>hg_anchors := map_set (hg_snapshotVersion g) receipt (hg_anchors g)\<rparr>"
  have hs2: "hs2 = writePersistedState later ?g (fst (ingestGraphEvent h uuid later inp hs1))"
    by (simp add: assms(4) anchorFinish_def g(1))
  have cur: "getState h hs2 = ?g"
    by (rule getState_current) (simp_all add: hs2 writePersistedState_def g(2,3))
  have rv: "an_snapshot_version receipt = hg_snapshotVersion ?st"
    using solana.names_snapshot[OF assms(3)] q by simp
  have "map_get (hg_anchors (getState h (restart hs2))) (hg_snapshotVersion ?st + 1) = None"
    using g(3-5) rv wf
    by (auto simp: getState_fresh hs2 writePersistedState_def hydrateStateIfNeeded_def defaultState_def
        readPersistedState_def persistedState_def map_by_None wf_graph_def dest!: set_values_update)
  moreover have "hg_snapshotVersion (getState h (restart hs2)) = hg_snapshotVersion ?st + 1"
    using g(3,4) wf
    by (simp add: getState_fresh hs2 writePersistedState_def hydrateStateIfNeeded_def defaultState_def
        readPersistedState_def persistedState_def wf_graph_def)
  ultimately show ?thesis
    by (simp add: reputation_of_state reputationOf_def Let_def cur g(4) rv)
qed

theorem overtaken_anchor_is_filed_wrongly_witness:
  "\<exists>hs2. rp_anchored_at (snd (getReputationSnapshot sample_host 30 ''W'' None hs2)) = Some 26
     \<and> rp_anchored_at (snd (getReputationSnapshot sample_host 30 ''W'' None (restart hs2))) = None"
proof -
  let ?ad = "anchorSnapshot sample_host \<lparr>sa_mockMode = True, sa_cluster = []\<rparr> (None :: unit option) (\<lambda>_ _. Inr [])"
  obtain hs1 q where b: "anchorBegin sample_host 25 sample_hub = (hs1, q)" by fastforce
  obtain a where a: "?ad 26 q = Inr a" "an_anchored_at a = 26" by (simp add: anchorSnapshot_def)
  have "keyed an_snapshot_version (hg_anchors (getState sample_host sample_hub))" by code_simp
  then have "synced sample_host sample_hub"
    using solana.run_synced[of sample_host sample_host "\<lparr>sa_mockMode = True, sa_cluster = []\<rparr>" "None :: unit option" "\<lambda>_ _. Inr []"] sample_hub_run
    by blast
  from overtaken_anchor_is_filed_wrongly[OF this b a(1) refl] a(2) show ?thesis by metis
qed

text \<open>
  One wallet's events and relations are its own: whatever is ingested under a fresh identifier or
  related for one wallet, another wallet's score, tier, counts and signals stay as they are.
\<close>

theorem wallets_do_not_interfere:
  assumes "wf_graph h (getState h hs)" and "gi_wallet inp \<noteq> wallet"
    and "map_get (hg_events (getState h hs)) uuid = None"
    and "before = snd (getReputationSnapshot h now wallet extra hs)"
    and "after = snd (getReputationSnapshot h now wallet extra (fst (ingestGraphEvent h uuid at_ms inp hs)))"
  shows "rp_score after = rp_score before \<and> rp_trust_tier after = rp_trust_tier before
     \<and> rp_event_count after = rp_event_count before \<and> rp_relation_strength after = rp_relation_strength before
     \<and> rp_risk_signals after = rp_risk_signals before \<and> rp_snapshot_version after = rp_snapshot_version before + 1"
proof -
  let ?st = "getState h hs"
  note wf = assms(1)
  obtain e where s: "getState h (fst (ingestGraphEvent h uuid at_ms inp hs)) =
      nextSnapshotVersion (?st\<lparr>hg_events := map_set uuid e (hg_events ?st)\<rparr>)" and w: "ge_wallet e = gi_wallet inp"
    by (rule ingest_state[OF wf])
  have "map_values (map_set uuid e m) = map_values m @ [e]" if "map_get m uuid = None" for m
    using that by (induction m) (auto simp: map_values_def split: if_splits)
  then have "walletEvents (nextSnapshotVersion (?st\<lparr>hg_events := map_set uuid e (hg_events ?st)\<rparr>)) wallet = walletEvents ?st wallet"
    using assms(2,3) w by (simp add: walletEvents_def nextSnapshotVersion_def)
  moreover have "walletRelations (nextSnapshotVersion (?st\<lparr>hg_events := m\<rparr>)) wallet = walletRelations ?st wallet" for m
    by (simp add: walletRelations_def nextSnapshotVersion_def)
  ultimately show ?thesis
    by (simp add: assms(4,5) reputation_of_state reputationOf_def Let_def s, simp add: nextSnapshotVersion_def)
qed

theorem wallets_do_not_interfere_witness:
  "rp_score (snd (getReputationSnapshot sample_host 30 ''V'' None (fst (ingestGraphEvent sample_host ''e3'' 27
      (sample_event ''W'' Ev_resale) sample_hub)))) = 50"
proof -
  have n: "map_get (hg_events (getState sample_host sample_hub)) ''e3'' = None" by code_simp
  have v: "rp_score (snd (getReputationSnapshot sample_host 30 ''V'' None sample_hub)) = 50" by code_simp
  have w: "gi_wallet (sample_event ''W'' Ev_resale) \<noteq> ''V''" by (simp add: sample_event_def)
  have "keyed an_snapshot_version (hg_anchors (getState sample_host sample_hub))" by code_simp
  then have "wf_graph sample_host (getState sample_host sample_hub)"
    using solana.run_synced[of sample_host sample_host "\<lparr>sa_mockMode = True, sa_cluster = []\<rparr>" "None :: unit option" "\<lambda>_ _. Inr []"] sample_hub_run
    unfolding synced_def by blast
  then show ?thesis using wallets_do_not_interfere[OF _ w n refl refl] v by simp
qed

text \<open>Penalties.\<close>

lemma penalty_ge: "fl p = p \<Longrightarrow> \<forall>s \<in> set ss. 0 \<le> sg_weight s \<Longrightarrow> p \<le> foldl (\<lambda>sum s. fl (sum + sg_weight s)) p ss"
proof (induction ss arbitrary: p)
  case (Cons s ss)
  have "p \<le> fl (p + sg_weight s)" using fl_mono[of p "p + sg_weight s"] Cons.prems by simp
  also have "\<dots> \<le> foldl (\<lambda>sum s. fl (sum + sg_weight s)) (fl (p + sg_weight s)) ss"
    by (rule Cons.IH) (use Cons.prems in simp_all)
  finally show ?case by simp
qed simp

lemma penalty_fixed: "fl p = p \<Longrightarrow> fl (foldl (\<lambda>sum s. fl (sum + sg_weight s)) p ss) = foldl (\<lambda>sum s. fl (sum + sg_weight s)) p ss"
  by (induction ss arbitrary: p) simp_all

lemma penaltyOf_append:
  assumes "\<forall>s \<in> set extra. 0 \<le> sg_weight s"
  shows "penaltyOf ss \<le> penaltyOf (ss @ extra)"
  unfolding penaltyOf_def foldl_append by (rule penalty_ge[OF penalty_fixed assms]) simp

text \<open>
  A caller cannot talk its reputation up: with signals of non-negative weight, which is all the
  parser of requests lets through, the score is at most the one without them, and the trust tier is no
  higher. Every score is between 0 and 100.
\<close>

theorem extra_signals_never_raise_score:
  assumes "\<forall>s \<in> set extra. 0 \<le> sg_weight s"
  shows "rp_score (snd (getReputationSnapshot h now wallet (Some extra) hs)) \<le> rp_score (snd (getReputationSnapshot h now wallet None hs))
     \<and> 0 \<le> rp_score (snd (getReputationSnapshot h now wallet (Some extra) hs))
     \<and> rp_score (snd (getReputationSnapshot h now wallet None hs)) \<le> 100
     \<and> (rp_trust_tier (snd (getReputationSnapshot h now wallet (Some extra) hs)) = High_trust \<longrightarrow>
          rp_trust_tier (snd (getReputationSnapshot h now wallet None hs)) = High_trust)
     \<and> (rp_trust_tier (snd (getReputationSnapshot h now wallet None hs)) = Low_trust \<longrightarrow>
          rp_trust_tier (snd (getReputationSnapshot h now wallet (Some extra) hs)) = Low_trust)"
proof -
  have "reputationScore b r (ss @ extra) \<le> reputationScore b r ss" for b r ss
    unfolding reputationScore_def
    by (intro clamp_mono js_round_mono fl_mono diff_left_mono penaltyOf_append assms)
  moreover have "0 \<le> reputationScore b r ss" "reputationScore b r ss \<le> 100" for b r ss
    by (simp_all add: reputationScore_def clamp_int_bounds)
  ultimately have "rp_score (snd (getReputationSnapshot h now wallet (Some extra) hs)) \<le> rp_score (snd (getReputationSnapshot h now wallet None hs))"
      "0 \<le> rp_score (snd (getReputationSnapshot h now wallet (Some extra) hs))"
      "rp_score (snd (getReputationSnapshot h now wallet None hs)) \<le> 100"
    by (simp_all add: reputation_of_state reputationOf_def Let_def)
  moreover have "rp_trust_tier (snd (getReputationSnapshot h now wallet x hs))
      = trustTier (rp_score (snd (getReputationSnapshot h now wallet x hs)))" for x
    by (simp add: reputation_of_state reputationOf_def Let_def)
  ultimately show ?thesis by (auto simp: trustTier_def split: if_splits)
qed

theorem extra_signals_never_raise_score_witness:
  "rp_score (snd (getReputationSnapshot sample_host 30 ''W'' (Some [\<lparr>sg_signal = ''operator_flag'', sg_weight = 40,
      sg_source = ''operator''\<rparr>]) sample_hub)) \<le> 64"
proof -
  let ?x = "[\<lparr>sg_signal = ''operator_flag'', sg_weight = 40, sg_source = ''operator''\<rparr>] :: risk_signal list"
  have "rp_score (snd (getReputationSnapshot sample_host 30 ''W'' None sample_hub)) = 64" by code_simp
  then show ?thesis using extra_signals_never_raise_score[of ?x sample_host 30 "''W''" sample_hub] by simp
qed

end
