(* ===== verification/Hub_Decision.thy ===== *)
theory Hub_Decision
  imports Hub_Graph Shield_Handler Shield_Price
begin

section \<open>Decisions of the fan pass hub (services/fan-pass-hub/src/decision_engine.ts)\<close>

text \<open>
  A quote for an action of a wallet: its reputation, the telemetry of a scenario, the mode the oracle is
  asked in, the oracle's answer, the price and the decision, kept in a cache under the request and the
  snapshot version. The state is that of the three services together: the graph, the oracle and the cache.
\<close>

subsection \<open>Requests and responses\<close>

datatype hub_action_type = Ac_view | Ac_verify | Ac_purchase | Ac_resale | Ac_task_complete
  | Ac_membership_upgrade | Ac_claim

fun action_name :: "hub_action_type \<Rightarrow> string" where
  "action_name Ac_view = ''view''"
| "action_name Ac_verify = ''verify''"
| "action_name Ac_purchase = ''purchase''"
| "action_name Ac_resale = ''resale''"
| "action_name Ac_task_complete = ''task_complete''"
| "action_name Ac_membership_upgrade = ''membership_upgrade''"
| "action_name Ac_claim = ''claim''"

record decision_context =
  dc_channel :: "string option"
  dc_campaign_id :: "string option"
  dc_amount_lamports :: "string option"
  dc_metadata :: "jsval option"

record hub_quote_request =
  hq_wallet :: string
  hq_action_type :: hub_action_type
  hq_asset_id :: string
  hq_context :: "decision_context option"
  hq_proofs :: "jsval list option"
  hq_risk_signals :: "risk_signal list option"

record signature_payload =
  sp_payload_hex :: string
  sp_oracle_signature_hex :: string
  sp_oracle_pubkey :: string
  sp_uniq_key :: string
  sp_nonce :: string
  sp_attestation_expiry :: string

record hub_quote =
  qr_decision :: hub_decision
  qr_tier :: user_mode
  qr_final_price_lamports :: string
  qr_signature_payload :: "signature_payload option"
  qr_ttl_seconds :: jsnum
  qr_snapshot_version :: int
  qr_snapshot_hash_hex :: string
  qr_risk_signals :: "risk_signal list"
  qr_reason_codes :: "string list"

record ('k, 'v) hub_services =
  sv_hub :: hub_state
  sv_oracle :: "('k, 'v) oracle_state"
  sv_cache :: "(string, hub_quote) jsmap"

subsection \<open>The cache key\<close>

definition signal_value :: "risk_signal \<Rightarrow> jsval" where
  "signal_value s = JObj [(''signal'', JStr (sg_signal s)), (''weight'', JNum (Fin (sg_weight s))),
     (''source'', JStr (sg_source s))]"

definition context_value :: "decision_context \<Rightarrow> jsval" where
  "context_value c = JObj [(''channel'', js_text_opt (dc_channel c)), (''campaign_id'', js_text_opt (dc_campaign_id c)),
     (''amount_lamports'', js_text_opt (dc_amount_lamports c)), (''metadata'', opt_or (dc_metadata c) JUndef)]"

definition cacheKey :: "hub_host \<Rightarrow> hub_quote_request \<Rightarrow> int \<Rightarrow> string" where
  "cacheKey h inp snapshotVersion = sha256Hex h (hh_json_stringify h (JObj
     [(''wallet'', JStr (hq_wallet inp)), (''action_type'', JStr (action_name (hq_action_type inp))),
      (''asset_id'', JStr (hq_asset_id inp)),
      (''context'', stableCopy (case hq_context inp of None \<Rightarrow> JObj [] | Some c \<Rightarrow> context_value c)),
      (''proofs'', stableCopy (JArr (opt_or (hq_proofs inp) []))),
      (''risk_signals'', stableCopy (JArr (map signal_value (opt_or (hq_risk_signals inp) [])))),
      (''snapshot_version'', js_int snapshotVersion)]))"

definition actionNeedsStepUp :: "hub_action_type \<Rightarrow> bool" where
  "actionNeedsStepUp actionType \<longleftrightarrow> actionType \<in> {Ac_resale, Ac_claim, Ac_membership_upgrade}"

definition applyRiskSignals :: "risk_signal list \<Rightarrow> risk_signal list option \<Rightarrow> risk_signal list" where
  "applyRiskSignals base external = base @ opt_or external []"

subsection \<open>Telemetry of a scenario\<close>

fun toFiniteNumber :: "jsval \<Rightarrow> rat option" where
  "toFiniteNumber (JNum x) = finite_num x"
| "toFiniteNumber (JStr s) = (if trim s \<noteq> [] then finite_num (number_of_string s) else None)"
| "toFiniteNumber _ = None"

definition readTelemetrySummary :: "jsval option \<Rightarrow> jsval option" where
  "readTelemetrySummary metadata =
     (let raw = js_prop_opt (opt_or metadata JUndef) ''telemetry_summary'' in
      if js_is_object raw then Some raw else None)"

datatype decision_bias = No_bias | Bias_step_up | Bias_block

record scenario_assessment =
  as_signals :: "risk_signal list"
  as_reason_codes :: "string list"
  as_decision_bias :: decision_bias

definition push_code :: "string \<Rightarrow> scenario_assessment \<Rightarrow> scenario_assessment" where
  "push_code code a = a\<lparr>as_reason_codes := as_reason_codes a @ [code]\<rparr>"

text \<open>A signal of the source \<open>behavior\<close> and the reason code of its name.\<close>

definition push_signal :: "string \<Rightarrow> rat \<Rightarrow> scenario_assessment \<Rightarrow> scenario_assessment" where
  "push_signal name weight a = push_code name
     (a\<lparr>as_signals := as_signals a @ [\<lparr>sg_signal = name, sg_weight = weight, sg_source = ''behavior''\<rparr>]\<rparr>)"

definition upon :: "bool \<Rightarrow> ('a \<Rightarrow> 'a) \<Rightarrow> 'a \<Rightarrow> 'a" where
  "upon c f a = (if c then f a else a)"

definition raise_step_up :: "scenario_assessment \<Rightarrow> scenario_assessment" where
  "raise_step_up a = (if as_decision_bias a \<noteq> Bias_block then a\<lparr>as_decision_bias := Bias_step_up\<rparr> else a)"

definition opt_sat :: "(rat \<Rightarrow> bool) \<Rightarrow> rat option \<Rightarrow> bool" where
  "opt_sat P v = (case v of None \<Rightarrow> False | Some x \<Rightarrow> P x)"

definition assessNarrative :: "jsval \<Rightarrow> scenario_assessment \<Rightarrow> scenario_assessment" where
  "assessNarrative telemetry r0 =
     (let reading = toFiniteNumber (js_prop_opt telemetry ''reading_time_ms'');
          quizFailed = (js_prop_opt telemetry ''quiz_correct'' = JBool False);
          scrollEntropy = toFiniteNumber (js_prop_opt telemetry ''scroll_entropy'');
          focusBlurCount = toFiniteNumber (js_prop_opt telemetry ''focus_blur_count'');
          r1 = push_code ''scenario_narrative'' r0;
          r2 = upon (opt_sat (\<lambda>x. 0 < x \<and> x < 45000) reading)
                 (\<lambda>r. raise_step_up (push_signal ''narrative_low_dwell'' 18 r)) r1;
          r3 = upon quizFailed
                 (\<lambda>r. (push_signal ''narrative_quiz_fail'' 24 r)\<lparr>as_decision_bias :=
                    if opt_sat (\<lambda>x. x < 60000) reading then Bias_block else Bias_step_up\<rparr>) r2;
          r4 = upon (opt_sat (\<lambda>x. x < fl (2 / 10) \<or> 9 < x) scrollEntropy) (push_signal ''narrative_scroll_anomaly'' 12) r3
      in upon (opt_sat (\<lambda>x. 6 \<le> x) focusBlurCount) (push_signal ''focus_instability'' 10) r4)"

definition assessPressure :: "jsval \<Rightarrow> scenario_assessment \<Rightarrow> scenario_assessment" where
  "assessPressure telemetry r0 =
     (let retryCount = toFiniteNumber (js_prop_opt telemetry ''retry_count'');
          clickDelta = toFiniteNumber (js_prop_opt telemetry ''countdown_to_click_ms'');
          queueWait = toFiniteNumber (js_prop_opt telemetry ''queue_wait_ms'');
          inputLatency = toFiniteNumber (js_prop_opt telemetry ''input_latency_ms'');
          focusBlurCount = toFiniteNumber (js_prop_opt telemetry ''focus_blur_count'');
          r1 = push_code ''scenario_pressure_sim'' r0;
          r2 = upon (opt_sat (\<lambda>x. 5 \<le> x) retryCount)
                 (\<lambda>r. (push_signal ''pressure_retry_burst'' 22 r)\<lparr>as_decision_bias := Bias_step_up\<rparr>) r1;
          r3 = upon (opt_sat (\<lambda>x. x < -100 \<or> 4000 < x) clickDelta)
                 (\<lambda>r. raise_step_up (push_signal ''pressure_countdown_click_outlier'' 18 r)) r2;
          r4 = upon (opt_sat (\<lambda>x. x < 50) queueWait) (push_signal ''pressure_queue_rejoin_anomaly'' 10) r3;
          r5 = upon (opt_sat (\<lambda>x. x < 80 \<or> 10000 < x) inputLatency) (push_signal ''pressure_latency_pattern_anomaly'' 12) r4
      in upon (opt_sat (\<lambda>x. 4 \<le> x) focusBlurCount) (push_signal ''focus_instability'' 10) r5)"

definition assessScenarioTelemetry :: "jsval option \<Rightarrow> scenario_assessment" where
  "assessScenarioTelemetry metadata =
     (let empty = \<lparr>as_signals = [], as_reason_codes = [], as_decision_bias = No_bias\<rparr> in
      case (js_string (js_prop_opt (opt_or metadata JUndef) ''scenario_type''), readTelemetrySummary metadata) of
        (Some scenarioType, Some telemetry) \<Rightarrow>
          if scenarioType = ''narrative'' then assessNarrative telemetry empty
          else if scenarioType = ''pressure_sim'' then assessPressure telemetry empty
          else empty
      | _ \<Rightarrow> empty)"

subsection \<open>Price and mode\<close>

definition priceBps :: "hub_action_type \<Rightarrow> trust_tier \<Rightarrow> int" where
  "priceBps actionType tier =
     (let bps = 10000 - (if tier = High_trust then 500 else 0) + (if tier = Low_trust then 1500 else 0)
            - (if actionType = Ac_membership_upgrade then 300 else 0)
            + (if actionType = Ac_resale then 2500 else 0) + (if actionType = Ac_claim then 500 else 0)
      in if bps < 1 then 1 else bps)"

definition computePriceLamports :: "int \<Rightarrow> hub_action_type \<Rightarrow> trust_tier \<Rightarrow> int" where
  "computePriceLamports basePrice actionType tier = (basePrice * priceBps actionType tier) sdiv 10000"

definition determineMode :: "hub_action_type \<Rightarrow> bool \<Rightarrow> int \<Rightarrow> trust_tier \<Rightarrow> user_mode" where
  "determineMode actionType proofs score tier =
     (if proofs then Verified
      else if score < 20 \<and> actionNeedsStepUp actionType then Bot_suspected
      else if tier = Low_trust \<and> actionType = Ac_resale then Bot_suspected
      else Guest)"

fun mode_name :: "user_mode \<Rightarrow> string" where
  "mode_name Bot_suspected = ''bot_suspected''"
| "mode_name Guest = ''guest''"
| "mode_name Verified = ''verified''"

subsection \<open>The oracle's answer\<close>

definition issued_of :: "shield_body \<Rightarrow> issued_score option" where
  "issued_of body = (case body of Issued i \<Rightarrow> Some i | _ \<Rightarrow> None)"

definition extractShieldPayload :: "issued_score option \<Rightarrow> signature_payload option" where
  "extractShieldPayload body =
     (case body of None \<Rightarrow> None
      | Some i \<Rightarrow>
          if is_payload_hex i = [] \<or> is_oracle_signature_hex i = [] \<or> is_oracle_pubkey i = [] \<or> is_uniq_key i = []
             \<or> pv_nonce (is_payload i) = [] then None
          else Some \<lparr>sp_payload_hex = is_payload_hex i, sp_oracle_signature_hex = is_oracle_signature_hex i,
             sp_oracle_pubkey = is_oracle_pubkey i, sp_uniq_key = is_uniq_key i, sp_nonce = pv_nonce (is_payload i),
             sp_attestation_expiry = pv_attestation_expiry (is_payload i)\<rparr>)"

text \<open>\<open>Math.max(0, expirySec - nowSec)\<close>\<close>

fun remaining :: "jsnum \<Rightarrow> int \<Rightarrow> jsnum" where
  "remaining (Fin x) nowSec = Fin (max 0 (fl (x - of_int nowSec)))"
| "remaining PosInf nowSec = PosInf"
| "remaining NegInf nowSec = Fin 0"
| "remaining NaN nowSec = NaN"

text \<open>What the decision of a successful answer is, and what a failed one falls back to.\<close>

definition decideIssued :: "int \<Rightarrow> user_mode \<Rightarrow> hub_action_type \<Rightarrow> decision_bias \<Rightarrow> hub_decision" where
  "decideIssued dignity mode actionType bias =
     (let decision = (if dignity \<le> 20 \<or> mode = Bot_suspected then Block
            else if actionNeedsStepUp actionType \<and> mode \<noteq> Verified then Step_up else Allow)
      in if bias = Bias_block then Block
         else if bias = Bias_step_up \<and> decision = Allow then Step_up else decision)"

definition decideFallback :: "int \<Rightarrow> bool \<Rightarrow> decision_bias \<Rightarrow> hub_decision" where
  "decideFallback status proofs bias =
     (let fallbackDecision = (if status = 409 \<or> (proofs \<and> status \<in> {400, 401, 403}) then Block else Step_up)
      in case bias of Bias_block \<Rightarrow> Block | Bias_step_up \<Rightarrow> Step_up | No_bias \<Rightarrow> fallbackDecision)"

subsection \<open>The quote\<close>

text \<open>The clock readings of one quote: for the risk signals, for the oracle, and for the time to live.\<close>

record quote_clock =
  qc_signals_now :: int
  qc_readings :: readings
  qc_now :: int

definition shieldBody :: "hub_quote_request \<Rightarrow> user_mode \<Rightarrow> int \<Rightarrow> jsval" where
  "shieldBody inp mode basePrice = JObj
     [(''wallet'', JStr (hq_wallet inp)),
      (''reclaim_attestations'', case hq_proofs inp of None \<Rightarrow> JUndef | Some ps \<Rightarrow> JArr ps),
      (''mode'', JStr (mode_name mode)), (''initial_price'', JStr (show_int basePrice))]"

definition hasProofs :: "hub_quote_request \<Rightarrow> bool" where
  "hasProofs inp \<longleftrightarrow> opt_or (hq_proofs inp) [] \<noteq> []"

definition quoteMode :: "hub_quote_request \<Rightarrow> reputation \<Rightarrow> user_mode" where
  "quoteMode inp reputation =
     determineMode (hq_action_type inp) (hasProofs inp) (rp_score reputation) (rp_trust_tier reputation)"

definition scenarioOf :: "hub_quote_request \<Rightarrow> scenario_assessment" where
  "scenarioOf inp = assessScenarioTelemetry (Option.bind (hq_context inp) dc_metadata)"

definition mergedSignals :: "hub_quote_request \<Rightarrow> reputation \<Rightarrow> risk_signal list" where
  "mergedSignals inp reputation =
     applyRiskSignals (applyRiskSignals (rp_risk_signals reputation) (hq_risk_signals inp)) (Some (as_signals (scenarioOf inp)))"

definition fallbackQuote :: "hub_quote_request \<Rightarrow> reputation \<Rightarrow> int \<Rightarrow> int \<Rightarrow> hub_quote" where
  "fallbackQuote inp reputation basePrice status =
     \<lparr>qr_decision = decideFallback status (hasProofs inp) (as_decision_bias (scenarioOf inp)),
      qr_tier = quoteMode inp reputation,
      qr_final_price_lamports =
        show_int (computePriceLamports basePrice (hq_action_type inp) (rp_trust_tier reputation)),
      qr_signature_payload = None, qr_ttl_seconds = Fin 0,
      qr_snapshot_version = rp_snapshot_version reputation,
      qr_snapshot_hash_hex = rp_snapshot_hash_hex reputation,
      qr_risk_signals = mergedSignals inp reputation,
      qr_reason_codes = dedup ([''shield_status_'' @ show_int status] @ as_reason_codes (scenarioOf inp)
        @ (if hasProofs inp then [''proof_verification_failed''] else []))\<rparr>"

definition issuedQuote :: "hub_quote_request \<Rightarrow> reputation \<Rightarrow> int \<Rightarrow> int \<Rightarrow> issued_score option \<Rightarrow> hub_quote result" where
  "issuedQuote inp reputation basePrice now body =
     (let mode = quoteMode inp reputation;
          dignity = (case body of None \<Rightarrow> 0 | Some i \<Rightarrow> pv_dignity_score (is_payload i));
          nowSec = now div 1000;
          expirySec = (case body of None \<Rightarrow> Fin (of_int nowSec)
             | Some i \<Rightarrow> number_of_string (pv_attestation_expiry (is_payload i))) in
      rbind (bigint_of_string (case body of None \<Rightarrow> show_int basePrice | Some i \<Rightarrow> pv_initial_price (is_payload i)))
        (\<lambda>shieldBasePrice. Inr
          \<lparr>qr_decision = decideIssued dignity mode (hq_action_type inp) (as_decision_bias (scenarioOf inp)),
           qr_tier = mode,
           qr_final_price_lamports =
             show_int (computePriceLamports shieldBasePrice (hq_action_type inp) (rp_trust_tier reputation)),
           qr_signature_payload = extractShieldPayload body, qr_ttl_seconds = remaining expirySec nowSec,
           qr_snapshot_version = rp_snapshot_version reputation,
           qr_snapshot_hash_hex = rp_snapshot_hash_hex reputation,
           qr_risk_signals = mergedSignals inp reputation,
           qr_reason_codes = dedup
             ((if dignity \<le> 20 then [''dignity_below_threshold''] else [])
              @ (if mode = Bot_suspected then [''bot_suspected_mode''] else [])
              @ (if actionNeedsStepUp (hq_action_type inp) \<and> mode \<noteq> Verified
                 then [''sensitive_action_requires_step_up''] else [])
              @ as_reason_codes (scenarioOf inp))\<rparr>))"

text \<open>A quote that is not in the cache.\<close>

definition freshQuote ::
  "('k, 'v) oracle_services \<Rightarrow> quote_clock \<Rightarrow> hub_quote_request \<Rightarrow> reputation \<Rightarrow> ('k, 'v) oracle_state \<Rightarrow>
   ('k, 'v) oracle_state \<times> hub_quote result" where
  "freshQuote sv clock inp reputation orc =
     (case bigint_of_string (opt_or (Option.bind (hq_context inp) dc_amount_lamports) ''1000000000'') of
        Inl e \<Rightarrow> (orc, Inl e)
      | Inr basePrice \<Rightarrow>
        (let (orc', shieldResult) = handleShieldScoreRequest sv (qc_readings clock) orc
               (shieldBody inp (quoteMode inp reputation) basePrice) in
         if sr_status shieldResult \<noteq> 200
         then (orc', Inr (fallbackQuote inp reputation basePrice (sr_status shieldResult)))
         else (orc', issuedQuote inp reputation basePrice (qc_now clock) (issued_of (sr_body shieldResult)))))"

definition quoteHubDecision ::
  "hub_host \<Rightarrow> ('k, 'v) oracle_services \<Rightarrow> quote_clock \<Rightarrow> hub_quote_request \<Rightarrow> ('k, 'v) hub_services \<Rightarrow>
   ('k, 'v) hub_services \<times> hub_quote result" where
  "quoteHubDecision h sv clock inp st =
     (let (hub', reputation) = getReputationSnapshot h (qc_signals_now clock) (hq_wallet inp) (hq_risk_signals inp) (sv_hub st);
          key = cacheKey h inp (rp_snapshot_version reputation);
          st1 = st\<lparr>sv_hub := hub'\<rparr> in
      case map_get (sv_cache st1) key of
        Some cached \<Rightarrow> (st1, Inr cached)
      | None \<Rightarrow>
        (case freshQuote sv clock inp reputation (sv_oracle st1) of
           (orc', Inl e) \<Rightarrow> (st1\<lparr>sv_oracle := orc'\<rparr>, Inl e)
         | (orc', Inr quote) \<Rightarrow>
             (st1\<lparr>sv_oracle := orc', sv_cache := map_set key quote (sv_cache st1)\<rparr>, Inr quote)))"

definition resetHubDecisionCacheForTests :: "('k, 'v) hub_services \<Rightarrow> ('k, 'v) hub_services" where
  "resetHubDecisionCacheForTests st = st\<lparr>sv_cache := []\<rparr>"

subsection \<open>How a quote comes about\<close>

abbreviation reputation_at :: "hub_host \<Rightarrow> quote_clock \<Rightarrow> hub_quote_request \<Rightarrow> ('k, 'v) hub_services \<Rightarrow> reputation" where
  "reputation_at h clock inp st \<equiv>
     snd (getReputationSnapshot h (qc_signals_now clock) (hq_wallet inp) (hq_risk_signals inp) (sv_hub st))"

definition quote_key :: "hub_host \<Rightarrow> quote_clock \<Rightarrow> hub_quote_request \<Rightarrow> ('k, 'v) hub_services \<Rightarrow> string" where
  "quote_key h clock inp st = cacheKey h inp (rp_snapshot_version (reputation_at h clock inp st))"

lemma quote_fresh:
  assumes "quoteHubDecision h sv clock inp st = (st', Inr q)" "map_get (sv_cache st) (quote_key h clock inp st) = None"
  shows "freshQuote sv clock inp (reputation_at h clock inp st) (sv_oracle st) = (sv_oracle st', Inr q)"
    "sv_cache st' = map_set (quote_key h clock inp st) q (sv_cache st)"
  using assms
  by (auto simp: quoteHubDecision_def quote_key_def Let_def split: prod.splits sum.splits option.splits)

lemma fresh_quote_cases:
  assumes "freshQuote sv clock inp rep orc = (orc', Inr q)"
  obtains (fallback) base result where "handleShieldScoreRequest sv (qc_readings clock) orc
        (shieldBody inp (quoteMode inp rep) base) = (orc', result)" "sr_status result \<noteq> 200"
      "q = fallbackQuote inp rep base (sr_status result)"
    | (issued) base result where "handleShieldScoreRequest sv (qc_readings clock) orc
        (shieldBody inp (quoteMode inp rep) base) = (orc', result)" "sr_status result = 200"
      "issuedQuote inp rep base (qc_now clock) (issued_of (sr_body result)) = Inr q"
  using assms by (auto simp: freshQuote_def split: sum.splits prod.splits if_splits)

lemma issuedQuote_fields:
  "issuedQuote inp rep base now body = Inr q \<Longrightarrow>
   qr_tier q = quoteMode inp rep \<and> qr_decision q = decideIssued (case body of None \<Rightarrow> 0 | Some i \<Rightarrow> pv_dignity_score (is_payload i))
     (quoteMode inp rep) (hq_action_type inp) (as_decision_bias (scenarioOf inp))"
  by (auto simp: issuedQuote_def Let_def js_simps)

lemma decideFallback_not_allow: "decideFallback status proofs bias \<noteq> Allow"
  by (simp add: decideFallback_def split: decision_bias.split)

lemma decideIssued_Allow:
  "decideIssued d mode act bias = Allow \<longleftrightarrow>
     20 < d \<and> mode \<noteq> Bot_suspected \<and> (actionNeedsStepUp act \<longrightarrow> mode = Verified) \<and> bias = No_bias"
  by (cases bias) (auto simp: decideIssued_def Let_def)

lemma allowed_issued:
  assumes "freshQuote sv clock inp rep orc = (orc', Inr q)" "qr_decision q = Allow"
  obtains base res i where "handleShieldScoreRequest sv (qc_readings clock) orc
       (shieldBody inp (quoteMode inp rep) base) = (orc', res)" "sr_body res = Issued i"
    "20 < pv_dignity_score (is_payload i)" "quoteMode inp rep \<noteq> Bot_suspected" "qr_tier q = quoteMode inp rep"
    "actionNeedsStepUp (hq_action_type inp) \<longrightarrow> quoteMode inp rep = Verified" "as_decision_bias (scenarioOf inp) = No_bias"
  using assms(1)
proof (cases rule: fresh_quote_cases)
  case (fallback base result)
  then show ?thesis using assms(2) decideFallback_not_allow by (simp add: fallbackQuote_def)
next
  case (issued base result)
  have f: "qr_tier q = quoteMode inp rep" "decideIssued (case issued_of (sr_body result) of None \<Rightarrow> 0
      | Some i \<Rightarrow> pv_dignity_score (is_payload i)) (quoteMode inp rep) (hq_action_type inp)
      (as_decision_bias (scenarioOf inp)) = Allow" using issuedQuote_fields[OF issued(3)] assms(2) by simp_all
  obtain i where i: "issued_of (sr_body result) = Some i" "20 < pv_dignity_score (is_payload i)"
    using f(2) by (cases "issued_of (sr_body result)") (simp_all add: decideIssued_Allow)
  then have "sr_body result = Issued i" by (simp add: issued_of_def split: shield_body.splits)
  then show ?thesis using f i that[OF issued(1)] by (auto simp: decideIssued_Allow)
qed

lemma shieldBody_props [simp]:
  "js_prop (shieldBody inp m b) ''wallet'' = Inr (JStr (hq_wallet inp))"
  "js_prop_opt (shieldBody inp m b) ''mode'' = JStr (mode_name m)"
  "js_prop_opt (shieldBody inp m b) ''reclaim_attestations'' = (case hq_proofs inp of None \<Rightarrow> JUndef | Some ps \<Rightarrow> JArr ps)"
  by (simp_all add: shieldBody_def)

lemma parse_mode_name [simp]: "parse_mode (js_nullish (JStr (mode_name m)) d) = Some m"
  by (cases m) (simp_all add: parse_mode_def js_nullish_def)

lemma quoteMode_Verified: "quoteMode inp rep = Verified \<longleftrightarrow> hasProofs inp"
  by (simp add: quoteMode_def determineMode_def)

subsection \<open>Properties\<close>

text \<open>
  C37. A sensitive action needs a verified proof: a quote that is not from the cache allows a resale, a
  claim or a membership upgrade only in the tier \<open>verified\<close>, with proofs that passed the oracle's ownership
  check and bundle verification for the wallet and score above 20, and with inconspicuous telemetry.
\<close>

theorem sensitive_action_allowed_only_verified:
  assumes "quoteHubDecision h sv clock inp st = (st', Inr q)" "map_get (sv_cache st) (quote_key h clock inp st) = None"
    and "qr_decision q = Allow" "actionNeedsStepUp (hq_action_type inp)"
  shows "qr_tier q = Verified \<and> as_decision_bias (scenarioOf inp) = No_bias
     \<and> (\<exists>atts base58 user ids v d. hq_proofs inp = Some atts \<and> atts \<noteq> []
          \<and> sv_pubkey sv (JStr (hq_wallet inp)) = Inr (base58, user)
          \<and> validateAttestationWalletOwnership (sv_json_parse sv) atts base58 = Inr Owned
          \<and> sv_verify sv (verify_state (sv_oracle st)) base58 atts = (v, Inr (Verification_ok ids))
          \<and> map_sum id totalScore (computeDignityScore atts) = Inr d \<and> 20 < d)"
proof -
  from quote_fresh(1)[OF assms(1,2)] assms(3) show ?thesis
  proof (rule allowed_issued)
    fix base res i
    let ?body = "shieldBody inp (quoteMode inp (reputation_at h clock inp st)) base"
    assume hd: "handleShieldScoreRequest sv (qc_readings clock) (sv_oracle st) ?body = (sv_oracle st', res)" "sr_body res = Issued i"
      and i: "20 < pv_dignity_score (is_payload i)" "qr_tier q = quoteMode inp (reputation_at h clock inp st)"
        "actionNeedsStepUp (hq_action_type inp) \<longrightarrow> quoteMode inp (reputation_at h clock inp st) = Verified"
        "as_decision_bias (scenarioOf inp) = No_bias"
    have vm: "quoteMode inp (reputation_at h clock inp st) = Verified" using i(3) assms(4) by simp
    then obtain atts where atts: "hq_proofs inp = Some atts" "atts \<noteq> []"
      by (cases "hq_proofs inp") (auto simp: quoteMode_Verified hasProofs_def)
    from hd show ?thesis
    proof (rule handle_Issued)
      fix wallet mode base58 user v t
      let ?a = "js_nullish (js_prop_opt ?body ''reclaim_attestations'') (JArr [])"
      assume w: "js_prop ?body ''wallet'' = Inr wallet" "sv_pubkey sv wallet = Inr (base58, user)"
        and m: "parse_mode (js_nullish (js_prop_opt ?body ''mode'') (JStr ''verified'')) = Some mode"
        and c: "(if mode = Verified then verifiedChecks sv (verify_state (sv_oracle st)) ?a base58
            else (verify_state (sv_oracle st), Inr None)) = (v, Inr None)"
        and f: "issue_facts sv (qc_readings clock) ((sv_oracle st)\<lparr>verify_state := v\<rparr>) ?body mode base58 user ?a (sv_oracle st') i t"
      have a: "?a = JArr atts" by (simp add: atts js_nullish_def)
      have mode: "mode = Verified" using m unfolding shieldBody_props parse_mode_name vm by simp
      then have "verifiedChecks sv (verify_state (sv_oracle st)) (JArr atts) base58 = (v, Inr None)" using c a by simp
      then obtain ids where o: "validateAttestationWalletOwnership (sv_json_parse sv) atts base58 = Inr Owned"
        and vr: "sv_verify sv (verify_state (sv_oracle st)) base58 atts = (v, Inr (Verification_ok ids))"
        by (rule verifiedChecks_none) simp
      have d: "computeDignityScore atts = Inr (it_dignity t)" and "pv_dignity_score (is_payload i) = dignity_score (it_payload t)"
        using f[unfolded a mode] by (auto simp: issue_facts_def Let_def computeDignityScoreForMode_def js_simps viewPayload_def)
      moreover have "dignity_score (it_payload t) = totalScore (it_dignity t)"
        using buildPayload_fields[OF issue_facts_payload[OF f]] by simp
      ultimately show ?thesis using i vm atts w o vr by auto
    qed
  qed
qed

text \<open>The handler's sample request, asked through the hub: a resale with one proof of 60 commits.\<close>

definition sample_proofs :: "jsval list" where
  "sample_proofs = (case js_prop_opt (sample_body ''verified'' ''a'') ''reclaim_attestations'' of JArr ps \<Rightarrow> ps | _ \<Rightarrow> [])"

definition sample_request :: "hub_action_type \<Rightarrow> jsval list option \<Rightarrow> jsval option \<Rightarrow> hub_quote_request" where
  "sample_request act proofs metadata = \<lparr>hq_wallet = ''W1'', hq_action_type = act, hq_asset_id = ''a1'',
     hq_context = Some \<lparr>dc_channel = None, dc_campaign_id = None, dc_amount_lamports = None, dc_metadata = metadata\<rparr>,
     hq_proofs = proofs, hq_risk_signals = None\<rparr>"

definition sample_clock :: "int \<Rightarrow> quote_clock" where
  "sample_clock ms = \<lparr>qc_signals_now = ms, qc_readings = sample_readings ms, qc_now = ms\<rparr>"

definition sample_services_state :: "(nat, replay_store) hub_services" where
  "sample_services_state = \<lparr>sv_hub = hub_init, sv_oracle = sample_oracle, sv_cache = []\<rparr>"

definition quote_brief :: "hub_quote result \<Rightarrow> (hub_decision \<times> string \<times> jsnum) option" where
  "quote_brief r = (case r of Inr q \<Rightarrow> Some (qr_decision q, qr_final_price_lamports q, qr_ttl_seconds q) | Inl _ \<Rightarrow> None)"

lemma quote_brief_Some: "quote_brief r = Some (d, p, t) \<Longrightarrow> \<exists>q. r = Inr q \<and> qr_decision q = d \<and> qr_ttl_seconds q = t"
  by (auto simp: quote_brief_def split: sum.splits)

theorem sensitive_action_allowed_only_verified_witness:
  "\<exists>atts ids. hq_proofs (sample_request Ac_resale (Some sample_proofs) None) = Some atts \<and> atts \<noteq> []
     \<and> map_sum id totalScore (computeDignityScore atts) = Inr 40
     \<and> snd (sv_verify (sample_services 1000000) [] ''W1'' atts) = Inr (Verification_ok ids)"
proof -
  let ?inp = "sample_request Ac_resale (Some sample_proofs) None"
  let ?q = "quoteHubDecision sample_host (sample_services 1000000) (sample_clock 1000000) ?inp sample_services_state"
  have "quote_brief (snd ?q) = Some (Allow, ''1250000000'', Fin 300)" by code_simp
  then obtain q where q: "snd ?q = Inr q" "qr_decision q = Allow" using quote_brief_Some by blast
  have e: "?q = (fst ?q, Inr q)" by (simp flip: q(1))
  have c: "map_get (sv_cache sample_services_state) k = None" for k by (simp add: sample_services_state_def)
  have n: "actionNeedsStepUp (hq_action_type ?inp)" by (simp add: sample_request_def actionNeedsStepUp_def)
  from sensitive_action_allowed_only_verified[OF e c q(2) n]
  obtain atts base58 user ids v where a: "hq_proofs ?inp = Some atts" "atts \<noteq> []"
      "sv_pubkey (sample_services 1000000) (JStr (hq_wallet ?inp)) = Inr (base58, user)"
      "sv_verify (sample_services 1000000) (verify_state (sv_oracle sample_services_state)) base58 atts = (v, Inr (Verification_ok ids))"
    by blast
  have "atts = sample_proofs" using a(1) by (simp add: sample_request_def)
  moreover have "map_sum id totalScore (computeDignityScore sample_proofs) = Inr 40" by code_simp
  moreover have "base58 = ''W1''" "verify_state (sv_oracle sample_services_state) = []"
    using a(3) by (simp_all add: sample_services_def sample_request_def sample_services_state_def sample_oracle_def)
  ultimately show ?thesis using a by auto
qed

text \<open>
  A quote is kept for good: asking again with the same request, at any later time and whatever the
  oracle would answer then, returns the first answer unchanged, its time to live and signature included,
  and asks the oracle nothing, until an event or relation changes the snapshot version.
\<close>

theorem quote_is_kept_for_good:
  assumes "quoteHubDecision h sv clock inp st = (st1, Inr q)"
  shows "quoteHubDecision h sv' clock' inp st1 = (st1, Inr q)"
proof -
  let ?g = "getState h (sv_hub st)"
  have hub: "sv_hub st1 = (sv_hub st)\<lparr>hs_graph := Some ?g\<rparr>"
    using assms by (auto simp: quoteHubDecision_def getReputationSnapshot_def Let_def split: option.splits prod.splits sum.splits)
  have g: "getState h (sv_hub st1) = ?g" unfolding hub by (rule getState_current) simp_all
  have key: "cacheKey h inp (hg_snapshotVersion ?g) = quote_key h clock inp st"
    by (simp add: quote_key_def reputation_of_state reputationOf_def Let_def)
  have c: "map_get (sv_cache st1) (cacheKey h inp (hg_snapshotVersion ?g)) = Some q"
    using assms unfolding key
    by (auto simp: quoteHubDecision_def quote_key_def Let_def split: option.splits prod.splits sum.splits)
  have "sv_hub st1 = (sv_hub st1)\<lparr>hs_graph := Some ?g\<rparr>" by (simp add: hub)
  then have "st1\<lparr>sv_hub := (sv_hub st1)\<lparr>hs_graph := Some ?g\<rparr>\<rparr> = st1" by simp
  then show ?thesis
    by (simp add: quoteHubDecision_def getReputationSnapshot_def Let_def g reputationOf_def c)
qed

theorem quote_is_kept_for_good_witness:
  "\<exists>st1 q. quoteHubDecision sample_host (sample_services 1000000) (sample_clock 1000000)
      (sample_request Ac_resale (Some sample_proofs) None) sample_services_state = (st1, Inr q)
     \<and> qr_ttl_seconds q = Fin 300
     \<and> quoteHubDecision sample_host (sample_services 9000000) (sample_clock 9000000)
      (sample_request Ac_resale (Some sample_proofs) None) st1 = (st1, Inr q)"
proof -
  let ?q = "quoteHubDecision sample_host (sample_services 1000000) (sample_clock 1000000)
      (sample_request Ac_resale (Some sample_proofs) None) sample_services_state"
  have "quote_brief (snd ?q) = Some (Allow, ''1250000000'', Fin 300)" by code_simp
  then obtain q where q: "snd ?q = Inr q" "qr_ttl_seconds q = Fin 300" using quote_brief_Some by blast
  have e: "?q = (fst ?q, Inr q)" by (simp flip: q(1))
  from e q(2) quote_is_kept_for_good[OF e] show ?thesis by blast
qed

text \<open>
  The price of a quote is between 92 and 140 percent of the base, and at one action a better tier
  never pays more.
\<close>

theorem hub_price_bounds:
  assumes "0 \<le> basePrice"
  shows "basePrice * 92 div 100 \<le> computePriceLamports basePrice act tier
     \<and> computePriceLamports basePrice act tier \<le> basePrice * 14 div 10
     \<and> computePriceLamports basePrice act High_trust \<le> computePriceLamports basePrice act Medium_trust
     \<and> computePriceLamports basePrice act Medium_trust \<le> computePriceLamports basePrice act Low_trust"
proof -
  have b: "9200 \<le> priceBps act t" "priceBps act t \<le> 14000" for t
    by (cases act; cases t; simp add: priceBps_def Let_def)+
  have m: "priceBps act High_trust \<le> priceBps act Medium_trust" "priceBps act Medium_trust \<le> priceBps act Low_trust"
    by (cases act; simp add: priceBps_def Let_def)+
  have p: "computePriceLamports basePrice act t = basePrice * priceBps act t div 10000" for t
    using b(1)[of t] assms by (simp add: computePriceLamports_def sdiv_nonneg)
  have mono: "basePrice * k div 10000 \<le> basePrice * l div 10000" if "k \<le> l" for k l
    using that assms by (intro zdiv_mono1 mult_left_mono) simp_all
  have "basePrice * 92 div 100 = basePrice * 9200 div 10000" "basePrice * 14 div 10 = basePrice * 14000 div 10000" by simp_all
  then show ?thesis using b[of tier] m by (simp only: p) (intro conjI mono; simp)
qed

theorem hub_price_bounds_witness:
  "computePriceLamports 1000000000 Ac_resale Low_trust = 1400000000 \<and>
   computePriceLamports 1000000000 Ac_membership_upgrade High_trust \<le> computePriceLamports 1000000000 Ac_membership_upgrade Medium_trust"
proof -
  have "computePriceLamports 1000000000 Ac_resale Low_trust = 1400000000"
    by (simp add: computePriceLamports_def priceBps_def sdiv_nonneg)
  then show ?thesis using hub_price_bounds[of 1000000000 Ac_membership_upgrade] by simp
qed

lemma assess_simps: "as_decision_bias (push_signal n w a) = as_decision_bias a"
  "as_decision_bias (push_code c a) = as_decision_bias a"
  "as_signals (push_code c a) = as_signals a"
  "as_signals (push_signal n w a) = as_signals a @ [\<lparr>sg_signal = n, sg_weight = w, sg_source = ''behavior''\<rparr>]"
  by (simp_all add: push_signal_def push_code_def)

definition added_weight :: "scenario_assessment \<Rightarrow> rat" where
  "added_weight a = sum_list (map sg_weight (as_signals a))"

lemma added_weight_simps:
  "added_weight (push_code c a) = added_weight a" "added_weight (push_signal n w a) = added_weight a + w"
  "added_weight (raise_step_up a) = added_weight a" "added_weight (a\<lparr>as_decision_bias := d\<rparr>) = added_weight a"
  by (simp_all add: added_weight_def assess_simps raise_step_up_def)

lemma added_weight_upon:
  "added_weight (upon b (push_signal n w) a) = added_weight a + (if b then w else 0)"
  "added_weight (upon b (\<lambda>r. raise_step_up (push_signal n w r)) a) = added_weight a + (if b then w else 0)"
  "added_weight (upon b (\<lambda>r. (push_signal n w r)\<lparr>as_decision_bias := d\<rparr>) a) = added_weight a + (if b then w else 0)"
  by (simp_all add: upon_def added_weight_simps)

lemma bias_upon:
  "as_decision_bias (upon b (push_signal n w) a) = as_decision_bias a"
  "as_decision_bias (upon b (\<lambda>r. raise_step_up (push_signal n w r)) a) = Bias_block \<longleftrightarrow> as_decision_bias a = Bias_block"
  "as_decision_bias (upon b (\<lambda>r. (push_signal n w r)\<lparr>as_decision_bias := d\<rparr>) a) = (if b then d else as_decision_bias a)"
  by (simp_all add: upon_def raise_step_up_def assess_simps)

definition narrative_fail :: "jsval \<Rightarrow> bool" where
  "narrative_fail telemetry \<longleftrightarrow> js_prop_opt telemetry ''quiz_correct'' = JBool False
     \<and> opt_sat (\<lambda>x. x < 60000) (toFiniteNumber (js_prop_opt telemetry ''reading_time_ms''))"

lemma assessed_bias:
  assumes "as_decision_bias a = No_bias"
  shows "as_decision_bias (assessNarrative t a) = Bias_block \<longleftrightarrow> narrative_fail t"
    and "as_decision_bias (assessPressure t a) \<noteq> Bias_block"
  using assms by (simp_all add: assessNarrative_def assessPressure_def Let_def bias_upon assess_simps narrative_fail_def)

lemma assessed_weight:
  "added_weight (assessNarrative t a) \<le> added_weight a + 64" "added_weight (assessPressure t a) \<le> added_weight a + 72"
  unfolding assessNarrative_def assessPressure_def Let_def added_weight_upon added_weight_simps by simp_all

text \<open>
  Telemetry blocks in exactly one case, a failed quiz of a narrative that was read in less than a
  minute; the telemetry of a pressure simulation never does. The weights it adds sum to at most 72.
\<close>

theorem telemetry_blocks_only_failed_quiz:
  "(as_decision_bias (assessScenarioTelemetry metadata) = Bias_block \<longleftrightarrow>
      js_prop_opt (opt_or metadata JUndef) ''scenario_type'' = JStr ''narrative''
      \<and> (\<exists>telemetry. readTelemetrySummary metadata = Some telemetry \<and> narrative_fail telemetry))
   \<and> sum_list (map sg_weight (as_signals (assessScenarioTelemetry metadata))) \<le> 72"
proof (cases "js_prop_opt (opt_or metadata JUndef) ''scenario_type''")
  case (JStr scenario)
  let ?empty = "\<lparr>as_signals = [], as_reason_codes = [], as_decision_bias = No_bias\<rparr>"
  have "added_weight ?empty = 0" by (simp add: added_weight_def)
  then have w: "added_weight (assessNarrative t ?empty) \<le> 72" "added_weight (assessPressure t ?empty) \<le> 72" for t
    using assessed_weight[of t ?empty] by simp_all
  show ?thesis
    using JStr assessed_bias[of ?empty] w[unfolded added_weight_def]
    by (cases "readTelemetrySummary metadata") (simp_all add: assessScenarioTelemetry_def Let_def)
qed (simp_all add: assessScenarioTelemetry_def Let_def)

text \<open>A host whose texts tell requests apart.\<close>

fun sample_text :: "jsval \<Rightarrow> string" where
  "sample_text (JStr s) = s"
| "sample_text (JArr xs) = concat (map sample_text xs)"
| "sample_text (JObj kvs) = concat (map (\<lambda>(k, v). sample_text v) kvs)"
| "sample_text _ = []"

definition telling_host :: hub_host where
  "telling_host = sample_host\<lparr>hh_json_stringify := sample_text\<rparr>"

text \<open>
  A softened refusal: a proof that has been used is refused with \<open>block\<close>, but the same request with
  telemetry that looks like a bot's retry burst is only asked to step up.
\<close>

theorem suspicious_telemetry_softens_replay:
  "map (\<lambda>m. quote_brief (snd (quoteHubDecision telling_host ((sample_services 1000000)\<lparr>sv_verify := (\<lambda>v w a. (v, Inr (Verification_ok [])))\<rparr>)
      (sample_clock 1000000) (sample_request Ac_claim (Some sample_proofs) m)
      (fst (quoteHubDecision telling_host (sample_services 1000000) (sample_clock 1000000)
         (sample_request Ac_resale (Some sample_proofs) None) sample_services_state)))))
     [None, Some (JObj [(''scenario_type'', JStr ''pressure_sim''), (''telemetry_summary'', JObj [(''retry_count'', JNum (Fin 9))])])]
   = [Some (Block, ''1050000000'', Fin 0), Some (Step_up, ''1050000000'', Fin 0)]"
  by code_simp

end
