(* ===== verification/Hub_Workflow.thy ===== *)
theory Hub_Workflow
  imports Hub_Decision
begin

section \<open>Workflows of the fan pass hub (services/fan-pass-hub/src/hub_workflow.ts)\<close>

text \<open>
  The catalog and the three workflows: a quote, an event for the quote, and, when it allows the action,
  an event for the action and a relation. The lemmas give the effect on the graph.
\<close>

subsection \<open>Catalog\<close>

record fan_pass_release =
  rl_id :: string
  rl_title :: string
  rl_artist :: string
  rl_base_price_lamports :: string
  rl_max_supply :: int
  rl_tag :: string

record fan_pass_membership_tier =
  mt_id :: string
  mt_title :: string
  mt_required_reputation_score :: int
  mt_community_id :: string
  mt_monthly_price_lamports :: string

record fan_pass_task =
  tk_id :: string
  tk_title :: string
  tk_creator_id :: string
  tk_reward_points :: int
  tk_action_hint :: string

definition RELEASES :: "fan_pass_release list" where
  "RELEASES =
     [\<lparr>rl_id = ''release:flame-rises-genesis-pass'', rl_title = ''FLAME RISES Genesis Pass'', rl_artist = ''LE SSERAFIM'',
       rl_base_price_lamports = ''1200000000'', rl_max_supply = 5000, rl_tag = ''music''\<rparr>,
      \<lparr>rl_id = ''release:director-cut-cinema-pass'', rl_title = ''Director Cut Cinema Pass'', rl_artist = ''UNFORGIVEN Studio'',
       rl_base_price_lamports = ''1600000000'', rl_max_supply = 3000, rl_tag = ''movie''\<rparr>]"

definition MEMBERSHIPS :: "fan_pass_membership_tier list" where
  "MEMBERSHIPS =
     [\<lparr>mt_id = ''membership:core'', mt_title = ''Core Fan'', mt_required_reputation_score = 40,
       mt_community_id = ''community:core-fans'', mt_monthly_price_lamports = ''700000000''\<rparr>,
      \<lparr>mt_id = ''membership:inner-circle'', mt_title = ''Inner Circle'', mt_required_reputation_score = 70,
       mt_community_id = ''community:inner-circle'', mt_monthly_price_lamports = ''1300000000''\<rparr>]"

definition TASKS :: "fan_pass_task list" where
  "TASKS =
     [\<lparr>tk_id = ''task:stream-party'', tk_title = ''Join Weekly Stream Party'', tk_creator_id = ''creator:wanwan'',
       tk_reward_points = 8, tk_action_hint = ''stream + live chat check-in''\<rparr>,
      \<lparr>tk_id = ''task:campus-invite'', tk_title = ''Invite 3 New Fans'', tk_creator_id = ''creator:wanwan'',
       tk_reward_points = 12, tk_action_hint = ''share referral + first login''\<rparr>]"

record fan_pass_catalog =
  ct_releases :: "fan_pass_release list"
  ct_memberships :: "fan_pass_membership_tier list"
  ct_tasks :: "fan_pass_task list"
  ct_release_sold_count_by_id :: "(string, int) jsmap"

definition getFanPassCatalog :: "hub_host \<Rightarrow> hub_state \<Rightarrow> hub_state \<times> fan_pass_catalog" where
  "getFanPassCatalog h hs =
     (let (hs', sold) = getAssetEventCountByType h Ev_purchase hs in
      (hs', \<lparr>ct_releases = RELEASES, ct_memberships = MEMBERSHIPS, ct_tasks = TASKS,
         ct_release_sold_count_by_id = sold\<rparr>))"

subsection \<open>Items of a workflow\<close>

datatype workflow_kind = Purchase_release | Upgrade_membership | Complete_task

fun workflow_name :: "workflow_kind \<Rightarrow> string" where
  "workflow_name Purchase_release = ''purchase_release''"
| "workflow_name Upgrade_membership = ''upgrade_membership''"
| "workflow_name Complete_task = ''complete_task''"

record workflow_input =
  wi_wallet :: string
  wi_workflow_kind :: workflow_kind
  wi_item_id :: string
  wi_proofs :: "jsval list option"

fun actionAndEventForWorkflow :: "workflow_kind \<Rightarrow> hub_action_type \<times> graph_event_type" where
  "actionAndEventForWorkflow Purchase_release = (Ac_purchase, Ev_purchase)"
| "actionAndEventForWorkflow Upgrade_membership = (Ac_membership_upgrade, Ev_membership_upgrade)"
| "actionAndEventForWorkflow Complete_task = (Ac_task_complete, Ev_task_complete)"

definition findRelease :: "string \<Rightarrow> fan_pass_release result" where
  "findRelease key = (case List.find (\<lambda>release. rl_id release = key) RELEASES of
     None \<Rightarrow> Inl (Thrown ''release item not found'') | Some item \<Rightarrow> Inr item)"

definition findMembership :: "string \<Rightarrow> fan_pass_membership_tier result" where
  "findMembership key = (case List.find (\<lambda>tier. mt_id tier = key) MEMBERSHIPS of
     None \<Rightarrow> Inl (Thrown ''membership item not found'') | Some item \<Rightarrow> Inr item)"

definition findTask :: "string \<Rightarrow> fan_pass_task result" where
  "findTask key = (case List.find (\<lambda>task. tk_id task = key) TASKS of
     None \<Rightarrow> Inl (Thrown ''task item not found'') | Some item \<Rightarrow> Inr item)"

definition amountLamportsForWorkflow :: "workflow_input \<Rightarrow> string result" where
  "amountLamportsForWorkflow inp =
     (case wi_workflow_kind inp of
        Purchase_release \<Rightarrow> map_sum id rl_base_price_lamports (findRelease (wi_item_id inp))
      | Upgrade_membership \<Rightarrow> map_sum id mt_monthly_price_lamports (findMembership (wi_item_id inp))
      | Complete_task \<Rightarrow> Inr ''100000000'')"

definition relationUpdateForWorkflow :: "workflow_input \<Rightarrow> relation_input result" where
  "relationUpdateForWorkflow inp =
     (case wi_workflow_kind inp of
        Purchase_release \<Rightarrow> rbind (findRelease (wi_item_id inp)) (\<lambda>release. Inr
          \<lparr>ri_from_wallet = wi_wallet inp, ri_to_id = rl_id release, ri_edge_type = User_asset, ri_weight = 12,
           ri_metadata = Some (JObj [(''source'', JStr ''purchase_release''), (''artist'', JStr (rl_artist release)),
             (''tag'', JStr (rl_tag release))])\<rparr>)
      | Upgrade_membership \<Rightarrow> rbind (findMembership (wi_item_id inp)) (\<lambda>tier. Inr
          \<lparr>ri_from_wallet = wi_wallet inp, ri_to_id = mt_community_id tier, ri_edge_type = User_community, ri_weight = 18,
           ri_metadata = Some (JObj [(''source'', JStr ''upgrade_membership''), (''tier'', JStr (mt_title tier))])\<rparr>)
      | Complete_task \<Rightarrow> rbind (findTask (wi_item_id inp)) (\<lambda>task. Inr
          \<lparr>ri_from_wallet = wi_wallet inp, ri_to_id = tk_creator_id task, ri_edge_type = User_creator,
           ri_weight = of_int (max 5 (min 25 (tk_reward_points task))),
           ri_metadata = Some (JObj [(''source'', JStr ''complete_task''), (''task'', JStr (tk_title task))])\<rparr>))"

definition ensureValidWorkflowItem :: "workflow_input \<Rightarrow> unit result" where
  "ensureValidWorkflowItem inp =
     (case wi_workflow_kind inp of
        Purchase_release \<Rightarrow> map_sum id (\<lambda>_. ()) (findRelease (wi_item_id inp))
      | Upgrade_membership \<Rightarrow> map_sum id (\<lambda>_. ()) (findMembership (wi_item_id inp))
      | Complete_task \<Rightarrow> map_sum id (\<lambda>_. ()) (findTask (wi_item_id inp)))"

subsection \<open>Execution\<close>

record workflow_result =
  wr_workflow_kind :: workflow_kind
  wr_item_id :: string
  wr_quote :: hub_quote
  wr_executed :: bool
  wr_needs_step_up :: bool
  wr_event_result :: "ingest_result option"
  wr_relation_result :: "upsert_result option"
  wr_export_snapshot :: wallet_graph

text \<open>The clock readings and random identifiers of one execution, in the order they are taken.\<close>

record workflow_clock =
  wc_quote :: quote_clock
  wc_quote_id :: string
  wc_quote_at :: int
  wc_event_id :: string
  wc_event_at :: int
  wc_relation_at :: int
  wc_export_at :: int

definition workflow_context :: "jsval \<Rightarrow> jsval" where
  "workflow_context metadata = JObj [(''channel'', JStr ''fan-pass-hub''),
     (''campaign_id'', JStr ''week-1-business-flow''), (''metadata'', metadata)]"

definition quoteRequest :: "workflow_input \<Rightarrow> string \<Rightarrow> hub_quote_request" where
  "quoteRequest inp amountLamports =
     \<lparr>hq_wallet = wi_wallet inp, hq_action_type = fst (actionAndEventForWorkflow (wi_workflow_kind inp)),
      hq_asset_id = wi_item_id inp,
      hq_context = Some \<lparr>dc_channel = Some ''fan-pass-hub'', dc_campaign_id = Some ''week-1-business-flow'',
        dc_amount_lamports = Some amountLamports, dc_metadata = None\<rparr>,
      hq_proofs = wi_proofs inp, hq_risk_signals = None\<rparr>"

definition workflowEvent :: "workflow_input \<Rightarrow> graph_event_type \<Rightarrow> hub_quote \<Rightarrow> jsval \<Rightarrow> graph_event_input" where
  "workflowEvent inp event_type quote metadata =
     \<lparr>gi_wallet = wi_wallet inp, gi_event_type = event_type, gi_asset_id = wi_item_id inp,
      gi_decision = Some (qr_decision quote), gi_value_lamports = Some (qr_final_price_lamports quote),
      gi_context = Some (workflow_context metadata), gi_occurred_at = None\<rparr>"

text \<open>After the quote: its event, and, when allowed, the event and the relation of the action.\<close>

definition recordWorkflow ::
  "hub_host \<Rightarrow> workflow_clock \<Rightarrow> workflow_input \<Rightarrow> hub_quote \<Rightarrow> hub_state \<Rightarrow> hub_state \<times> workflow_result result" where
  "recordWorkflow h clock inp quote hs =
     (let (actionType, eventType) = actionAndEventForWorkflow (wi_workflow_kind inp);
          (hs1, _) = ingestGraphEvent h (wc_quote_id clock) (wc_quote_at clock) (workflowEvent inp Ev_quote quote
            (JObj [(''action_type'', JStr (action_name actionType)), (''tier'', JStr (mode_name (qr_tier quote)))])) hs;
          needsStepUp = (qr_decision quote = Step_up);
          blocked = (qr_decision quote = Block) in
      if blocked \<or> needsStepUp then
        (let (hs2, export) = exportWalletGraph h (wc_export_at clock) (wi_wallet inp) hs1 in
         (hs2, Inr \<lparr>wr_workflow_kind = wi_workflow_kind inp, wr_item_id = wi_item_id inp, wr_quote = quote,
            wr_executed = False, wr_needs_step_up = needsStepUp, wr_event_result = None,
            wr_relation_result = None, wr_export_snapshot = export\<rparr>))
      else
        (let (hs2, eventResult) = ingestGraphEvent h (wc_event_id clock) (wc_event_at clock) (workflowEvent inp eventType quote
               (JObj [(''workflow_kind'', JStr (workflow_name (wi_workflow_kind inp)))])) hs1 in
         case relationUpdateForWorkflow inp of
           Inl e \<Rightarrow> (hs2, Inl e)
         | Inr relation \<Rightarrow>
           (let (hs3, relationResult) = upsertRelationEdge h (wc_relation_at clock) relation hs2;
                (hs4, export) = exportWalletGraph h (wc_export_at clock) (wi_wallet inp) hs3 in
            (hs4, Inr \<lparr>wr_workflow_kind = wi_workflow_kind inp, wr_item_id = wi_item_id inp, wr_quote = quote,
               wr_executed = True, wr_needs_step_up = False, wr_event_result = Some eventResult,
               wr_relation_result = Some relationResult, wr_export_snapshot = export\<rparr>))))"

definition executeFanPassWorkflow ::
  "hub_host \<Rightarrow> ('k, 'v) oracle_services \<Rightarrow> workflow_clock \<Rightarrow> workflow_input \<Rightarrow> ('k, 'v) hub_services \<Rightarrow>
   ('k, 'v) hub_services \<times> workflow_result result" where
  "executeFanPassWorkflow h sv clock inp st =
     (case rbind (ensureValidWorkflowItem inp) (\<lambda>_. amountLamportsForWorkflow inp) of
        Inl e \<Rightarrow> (st, Inl e)
      | Inr amountLamports \<Rightarrow>
        (case quoteHubDecision h sv (wc_quote clock) (quoteRequest inp amountLamports) st of
           (st1, Inl e) \<Rightarrow> (st1, Inl e)
         | (st1, Inr quote) \<Rightarrow>
             (let (hub', result) = recordWorkflow h clock inp quote (sv_hub st1)
              in (st1\<lparr>sv_hub := hub'\<rparr>, result))))"

subsection \<open>Effects on the graph\<close>

lemma valid_item_relation: "ensureValidWorkflowItem inp = Inr u \<Longrightarrow> \<exists>r. relationUpdateForWorkflow inp = Inr r"
  by (auto simp: ensureValidWorkflowItem_def relationUpdateForWorkflow_def map_sum_def js_simps
      split: workflow_kind.splits sum.splits)

text \<open>Counting events by asset is counting.\<close>

definition event_count :: "graph_event_type \<Rightarrow> string \<Rightarrow> graph_event list \<Rightarrow> int" where
  "event_count t a es = int (length (filter (\<lambda>e. ge_event_type e = t \<and> ge_asset_id e = a) es))"

lemma event_counts:
  "opt_or (map_get (foldl (\<lambda>counts e. if ge_event_type e \<noteq> t then counts
      else map_set (ge_asset_id e) (opt_or (map_get counts (ge_asset_id e)) 0 + 1) counts) [] es) a) 0 = event_count t a es"
  by (induction es rule: rev_induct) (auto simp: event_count_def)

text \<open>What one execution leaves in the graph.\<close>

lemma ingest_current:
  assumes "hs_graph hs' = Some g" "hg_loadedFromDisk g" "hg_storagePath g = resolveStoragePath (hh_env h)"
  shows "getState h hs' = g"
  using assms by (rule getState_current)

lemma ingest_graph:
  obtains e where "getState h (fst (ingestGraphEvent h uuid now inp hs)) =
      nextSnapshotVersion (getState h hs\<lparr>hg_events := map_set uuid e (hg_events (getState h hs))\<rparr>)"
    "ge_wallet e = gi_wallet inp" "ge_event_type e = gi_event_type inp" "ge_asset_id e = gi_asset_id inp"
    "ge_decision e = gi_decision inp"
proof
  let ?e = "\<lparr>ge_event_id = uuid, ge_wallet = gi_wallet inp, ge_event_type = gi_event_type inp,
        ge_asset_id = gi_asset_id inp, ge_decision = gi_decision inp, ge_value_lamports = gi_value_lamports inp,
        ge_context = gi_context inp, ge_occurred_at = opt_or (gi_occurred_at inp) now, ge_ingested_at = now\<rparr>"
  show "getState h (fst (ingestGraphEvent h uuid now inp hs)) =
      nextSnapshotVersion (getState h hs\<lparr>hg_events := map_set uuid ?e (hg_events (getState h hs))\<rparr>)"
    unfolding ingestGraphEvent_def Let_def fst_conv
    by (rule ingest_current) (simp_all add: writePersistedState_def nextSnapshotVersion_def)
qed simp_all

lemma upsert_graph:
  obtains r where "getState h (fst (upsertRelationEdge h now rel hs)) =
      nextSnapshotVersion (getState h hs\<lparr>hg_relations := map_set (re_edge_id r) r (hg_relations (getState h hs))\<rparr>)"
    "re_from_wallet r = ri_from_wallet rel" "re_to_id r = ri_to_id rel"
proof
  let ?r = "\<lparr>re_edge_id = edgeId h (ri_from_wallet rel) (ri_edge_type rel) (ri_to_id rel),
      re_from_wallet = ri_from_wallet rel, re_to_id = ri_to_id rel, re_edge_type = ri_edge_type rel,
      re_weight = clamp (js_round (ri_weight rel)) 0 100, re_metadata = ri_metadata rel, re_updated_at = now\<rparr>"
  show "getState h (fst (upsertRelationEdge h now rel hs)) =
      nextSnapshotVersion (getState h hs\<lparr>hg_relations := map_set (re_edge_id ?r) ?r (hg_relations (getState h hs))\<rparr>)"
    unfolding upsertRelationEdge_def Let_def fst_conv relation_edge.select_convs
    by (rule ingest_current) (simp_all add: writePersistedState_def nextSnapshotVersion_def)
qed simp_all

lemma export_graph: "getState h (fst (exportWalletGraph h now wallet hs)) = getState h hs"
  unfolding exportWalletGraph_def Let_def fst_conv by (rule getState_current) simp_all

lemma quote_graph: "getState h (sv_hub (fst (quoteHubDecision h sv clock inp st))) = getState h (sv_hub st)"
proof -
  have hub: "sv_hub (fst (quoteHubDecision h sv clock inp st)) = (sv_hub st)\<lparr>hs_graph := Some (getState h (sv_hub st))\<rparr>"
    by (auto simp: quoteHubDecision_def getReputationSnapshot_def Let_def split: option.splits prod.splits sum.splits)
  show ?thesis unfolding hub by (rule getState_current) simp_all
qed

lemma nextSnapshotVersion_simps [simp]:
  "hg_events (nextSnapshotVersion g) = hg_events g" "hg_relations (nextSnapshotVersion g) = hg_relations g"
  "hg_snapshotVersion (nextSnapshotVersion g) = hg_snapshotVersion g + 1"
  by (simp_all add: nextSnapshotVersion_def)

lemma recordWorkflow_effect:
  assumes "recordWorkflow h clock inp quote hs = (hs', Inr w)"
  obtains (stopped) e where "qr_decision quote \<noteq> Allow" "\<not> wr_executed w" "wr_needs_step_up w = (qr_decision quote = Step_up)"
      "hg_events (getState h hs') = map_set (wc_quote_id clock) e (hg_events (getState h hs))" "ge_event_type e = Ev_quote"
      "hg_relations (getState h hs') = hg_relations (getState h hs)"
      "hg_snapshotVersion (getState h hs') = hg_snapshotVersion (getState h hs) + 1"
    | (executed) e e' r where "qr_decision quote = Allow" "wr_executed w" "\<not> wr_needs_step_up w"
      "hg_events (getState h hs') = map_set (wc_event_id clock) e' (map_set (wc_quote_id clock) e (hg_events (getState h hs)))"
      "ge_event_type e = Ev_quote" "ge_event_type e' = snd (actionAndEventForWorkflow (wi_workflow_kind inp))"
      "ge_asset_id e' = wi_item_id inp" "ge_wallet e' = wi_wallet inp" "ge_decision e' = Some Allow"
      "hg_relations (getState h hs') = map_set (re_edge_id r) r (hg_relations (getState h hs))" "re_from_wallet r = wi_wallet inp"
      "hg_snapshotVersion (getState h hs') = hg_snapshotVersion (getState h hs) + 3"
proof -
  obtain act ty where a: "actionAndEventForWorkflow (wi_workflow_kind inp) = (act, ty)" by fastforce
  let ?m1 = "JObj [(''action_type'', JStr (action_name act)), (''tier'', JStr (mode_name (qr_tier quote)))]"
  let ?m2 = "JObj [(''workflow_kind'', JStr (workflow_name (wi_workflow_kind inp)))]"
  let ?hs1 = "fst (ingestGraphEvent h (wc_quote_id clock) (wc_quote_at clock) (workflowEvent inp Ev_quote quote ?m1) hs)"
  let ?hs2 = "fst (ingestGraphEvent h (wc_event_id clock) (wc_event_at clock) (workflowEvent inp ty quote ?m2) ?hs1)"
  obtain e where e: "getState h ?hs1 = nextSnapshotVersion (getState h hs\<lparr>hg_events :=
      map_set (wc_quote_id clock) e (hg_events (getState h hs))\<rparr>)" "ge_event_type e = Ev_quote"
    by (rule ingest_graph[of h "wc_quote_id clock" "wc_quote_at clock" "workflowEvent inp Ev_quote quote ?m1" hs])
       (simp add: workflowEvent_def)
  show thesis
  proof (cases "qr_decision quote = Allow")
    case False
    then have "qr_decision quote = Block \<or> qr_decision quote = Step_up" by (cases "qr_decision quote") simp_all
    then have "hs' = fst (exportWalletGraph h (wc_export_at clock) (wi_wallet inp) ?hs1)" "\<not> wr_executed w"
      "wr_needs_step_up w = (qr_decision quote = Step_up)"
      using assms by (auto simp: recordWorkflow_def a Let_def split: prod.splits)
    then show ?thesis using False e by (intro stopped[of e]) (simp_all add: export_graph)
  next
    case True
    obtain e' where e': "getState h ?hs2 = nextSnapshotVersion (getState h ?hs1\<lparr>hg_events :=
        map_set (wc_event_id clock) e' (hg_events (getState h ?hs1))\<rparr>)" "ge_event_type e' = ty"
        "ge_asset_id e' = wi_item_id inp" "ge_wallet e' = wi_wallet inp" "ge_decision e' = Some Allow"
      by (rule ingest_graph[of h "wc_event_id clock" "wc_event_at clock" "workflowEvent inp ty quote ?m2" ?hs1])
         (simp add: workflowEvent_def True)
    obtain rel where rel: "relationUpdateForWorkflow inp = Inr rel"
      and hs': "hs' = fst (exportWalletGraph h (wc_export_at clock) (wi_wallet inp)
        (fst (upsertRelationEdge h (wc_relation_at clock) rel ?hs2)))" "wr_executed w" "\<not> wr_needs_step_up w"
      using assms True by (auto simp: recordWorkflow_def a Let_def split: prod.splits sum.splits)
    obtain r where r: "getState h (fst (upsertRelationEdge h (wc_relation_at clock) rel ?hs2)) =
        nextSnapshotVersion (getState h ?hs2\<lparr>hg_relations := map_set (re_edge_id r) r (hg_relations (getState h ?hs2))\<rparr>)"
        "re_from_wallet r = ri_from_wallet rel"
      by (rule upsert_graph)
    have "ri_from_wallet rel = wi_wallet inp"
      using rel by (auto simp: relationUpdateForWorkflow_def js_simps split: workflow_kind.splits)
    then show ?thesis
      using True e e' r hs' by (intro executed[of e' e r]) (simp_all add: export_graph a)
  qed
qed

lemma execute_recorded:
  assumes "executeFanPassWorkflow h sv clock inp st = (st', Inr w)"
  obtains quote hs1 where "recordWorkflow h clock inp quote hs1 = (sv_hub st', Inr w)" "wr_quote w = quote"
    "getState h hs1 = getState h (sv_hub st)"
proof -
  obtain amount where am: "rbind (ensureValidWorkflowItem inp) (\<lambda>_. amountLamportsForWorkflow inp) = Inr amount"
    using assms by (auto simp: executeFanPassWorkflow_def split: sum.splits)
  obtain st1 q where q: "quoteHubDecision h sv (wc_quote clock) (quoteRequest inp amount) st = (st1, Inr q)"
    using assms am by (auto simp: executeFanPassWorkflow_def split: sum.splits prod.splits)
  have r: "recordWorkflow h clock inp q (sv_hub st1) = (sv_hub st', Inr w)"
    using assms am q by (auto simp: executeFanPassWorkflow_def split: prod.splits)
  have "wr_quote w = q"
    using r by (auto simp: recordWorkflow_def Let_def split: prod.splits if_splits sum.splits)
  moreover have "getState h (sv_hub st1) = getState h (sv_hub st)"
    using quote_graph[of h sv "wc_quote clock" "quoteRequest inp amount" st] by (simp add: q)
  ultimately show thesis using that[OF r] by simp
qed

subsection \<open>Properties\<close>

text \<open>
  C38. A workflow acts exactly when its quote allows it: then it leaves the event of the quote, an event of
  the action with the decision \<open>allow\<close> for the wallet and the item, and a relation of the wallet, in three
  versions; otherwise only the event of the quote, in one version, and no relation changes.
\<close>

theorem workflow_acts_iff_allowed:
  assumes "executeFanPassWorkflow h sv clock inp st = (st', Inr w)"
    and "before = getState h (sv_hub st)" and "after = getState h (sv_hub st')"
  shows "(wr_executed w \<longleftrightarrow> qr_decision (wr_quote w) = Allow) \<and> (wr_needs_step_up w \<longleftrightarrow> qr_decision (wr_quote w) = Step_up)
     \<and> (\<exists>e. ge_event_type e = Ev_quote \<and>
         (if wr_executed w
          then hg_snapshotVersion after = hg_snapshotVersion before + 3
            \<and> (\<exists>e' r. hg_events after = map_set (wc_event_id clock) e' (map_set (wc_quote_id clock) e (hg_events before))
                \<and> ge_event_type e' = snd (actionAndEventForWorkflow (wi_workflow_kind inp)) \<and> ge_asset_id e' = wi_item_id inp
                \<and> ge_wallet e' = wi_wallet inp \<and> ge_decision e' = Some Allow
                \<and> hg_relations after = map_set (re_edge_id r) r (hg_relations before) \<and> re_from_wallet r = wi_wallet inp)
          else hg_snapshotVersion after = hg_snapshotVersion before + 1
            \<and> hg_events after = map_set (wc_quote_id clock) e (hg_events before) \<and> hg_relations after = hg_relations before))"
  using assms(1)
proof (rule execute_recorded)
  fix quote hs1
  assume r: "recordWorkflow h clock inp quote hs1 = (sv_hub st', Inr w)" and q: "wr_quote w = quote"
    and g: "getState h hs1 = getState h (sv_hub st)"
  from r show ?thesis
    by (cases rule: recordWorkflow_effect) (auto simp: assms(2,3) g q)
qed

definition sample_workflow :: "workflow_kind \<Rightarrow> string \<Rightarrow> jsval list option \<Rightarrow> workflow_input" where
  "sample_workflow k i ps = \<lparr>wi_wallet = ''W1'', wi_workflow_kind = k, wi_item_id = i, wi_proofs = ps\<rparr>"

definition sample_workflow_clock :: workflow_clock where
  "sample_workflow_clock = \<lparr>wc_quote = sample_clock 1000000, wc_quote_id = ''u1'', wc_quote_at = 1000001,
     wc_event_id = ''u2'', wc_event_at = 1000002, wc_relation_at = 1000003, wc_export_at = 1000004\<rparr>"

theorem workflow_acts_iff_allowed_witness:
  "\<exists>st' w. executeFanPassWorkflow sample_host (sample_services 1000000) sample_workflow_clock
      (sample_workflow Purchase_release ''release:flame-rises-genesis-pass'' None) sample_services_state = (st', Inr w)
     \<and> wr_executed w \<and> hg_snapshotVersion (getState sample_host (sv_hub st')) = 4"
proof -
  let ?x = "executeFanPassWorkflow sample_host (sample_services 1000000) sample_workflow_clock
      (sample_workflow Purchase_release ''release:flame-rises-genesis-pass'' None) sample_services_state"
  have "map_sum (\<lambda>_. ()) wr_executed (snd ?x) = Inr True" by code_simp
  then obtain w where w: "snd ?x = Inr w" "wr_executed w" by (cases "snd ?x") auto
  have e: "?x = (fst ?x, Inr w)" by (simp flip: w(1))
  have "hg_snapshotVersion (getState sample_host (sv_hub sample_services_state)) = 1" by code_simp
  then have "hg_snapshotVersion (getState sample_host (sv_hub (fst ?x))) = 4"
    using workflow_acts_iff_allowed[OF e refl refl] w(2) by auto
  with e w(2) show ?thesis by blast
qed

text \<open>
  An item that is not in the catalog of its workflow changes nothing: the call throws before the quote,
  the oracle and the graph are asked.
\<close>

theorem unknown_item_changes_nothing:
  assumes "wi_item_id inp \<notin> (case wi_workflow_kind inp of Purchase_release \<Rightarrow> rl_id ` set RELEASES
       | Upgrade_membership \<Rightarrow> mt_id ` set MEMBERSHIPS | Complete_task \<Rightarrow> tk_id ` set TASKS)"
  shows "\<exists>m. executeFanPassWorkflow h sv clock inp st = (st, Inl (Thrown m))"
proof -
  have none: "f ` set xs \<inter> {k} = {} \<Longrightarrow> List.find (\<lambda>x. f x = k) xs = None" for f and k :: string and xs
    by (induction xs) auto
  show ?thesis
    using assms none[of rl_id RELEASES] none[of mt_id MEMBERSHIPS] none[of tk_id TASKS]
    by (cases "wi_workflow_kind inp")
       (simp_all add: executeFanPassWorkflow_def ensureValidWorkflowItem_def findRelease_def findMembership_def findTask_def)
qed

theorem unknown_item_changes_nothing_witness:
  "\<exists>m. executeFanPassWorkflow sample_host (sample_services 1000000) sample_workflow_clock
     (sample_workflow Purchase_release ''task:stream-party'' None) sample_services_state = (sample_services_state, Inl (Thrown m))"
  by (rule unknown_item_changes_nothing) (simp add: sample_workflow_def RELEASES_def)

text \<open>
  The sold counts of the catalog are the numbers of purchase events per item, and a purchase workflow
  that is executed under fresh identifiers raises its own count by one and no other.
\<close>

theorem sold_count_counts_purchases:
  assumes "executeFanPassWorkflow h sv clock inp st = (st', Inr w)" "wr_executed w" "wi_workflow_kind inp = Purchase_release"
    and "map_get (hg_events (getState h (sv_hub st))) (wc_quote_id clock) = None"
    and "map_get (hg_events (getState h (sv_hub st))) (wc_event_id clock) = None" "wc_quote_id clock \<noteq> wc_event_id clock"
    and "sold = (\<lambda>s item. opt_or (map_get (ct_release_sold_count_by_id (snd (getFanPassCatalog h (sv_hub s)))) item) 0)"
  shows "sold st item = event_count Ev_purchase item (map_values (hg_events (getState h (sv_hub st))))
     \<and> sold st' item = sold st item + (if item = wi_item_id inp then 1 else 0)"
proof -
  have s: "sold s a = event_count Ev_purchase a (map_values (hg_events (getState h (sv_hub s))))" for s a
    by (simp add: assms(7) getFanPassCatalog_def getAssetEventCountByType_def Let_def event_counts split: prod.split)
  have app: "map_values (map_set k e m) = map_values m @ [e]" if "map_get m k = None" for k e and m :: "(string, graph_event) jsmap"
    using that by (induction m) (auto simp: map_values_def split: if_splits)
  from assms(1) show ?thesis
  proof (rule execute_recorded)
    fix quote hs1
    assume r: "recordWorkflow h clock inp quote hs1 = (sv_hub st', Inr w)"
      and g: "getState h hs1 = getState h (sv_hub st)"
    from r show ?thesis
    proof (cases rule: recordWorkflow_effect)
      case (executed e e' r)
      then show ?thesis
        using assms(3-6) by (simp add: s g app event_count_def)
    qed (use assms(2) in simp)
  qed
qed

theorem sold_count_counts_purchases_witness:
  "\<exists>st'. opt_or (map_get (ct_release_sold_count_by_id (snd (getFanPassCatalog sample_host (sv_hub st'))))
      ''release:flame-rises-genesis-pass'') 0 = 1
     \<and> st' = fst (executeFanPassWorkflow sample_host (sample_services 1000000) sample_workflow_clock
      (sample_workflow Purchase_release ''release:flame-rises-genesis-pass'' None) sample_services_state)"
proof -
  let ?x = "executeFanPassWorkflow sample_host (sample_services 1000000) sample_workflow_clock
      (sample_workflow Purchase_release ''release:flame-rises-genesis-pass'' None) sample_services_state"
  have "map_sum (\<lambda>_. ()) wr_executed (snd ?x) = Inr True" by code_simp
  then obtain w where w: "snd ?x = Inr w" "wr_executed w" by (cases "snd ?x") auto
  have e: "?x = (fst ?x, Inr w)" by (simp flip: w(1))
  have n: "hg_events (getState sample_host (sv_hub sample_services_state)) = []" by code_simp
  have u: "wc_quote_id sample_workflow_clock \<noteq> wc_event_id sample_workflow_clock" by (simp add: sample_workflow_clock_def)
  have k: "wi_workflow_kind (sample_workflow Purchase_release ''release:flame-rises-genesis-pass'' None) = Purchase_release"
    "wi_item_id (sample_workflow Purchase_release ''release:flame-rises-genesis-pass'' None) = ''release:flame-rises-genesis-pass''"
    by (simp_all add: sample_workflow_def)
  show ?thesis
    using sold_count_counts_purchases[OF e w(2) k(1) _ _ u refl, of "''release:flame-rises-genesis-pass''"]
    by (simp add: n k(2) event_count_def map_values_def)
qed

end
