(* ===== verification/Lab_Types.thy ===== *)
theory Lab_Types
  imports Hub_Types
begin

section \<open>Types of the behaviour laboratory\<close>

text \<open>
  services/behavior-lab-engine/src/types.ts. A telemetry summary is parametrised by the type of its
  measured numbers: any number of the language (\<open>jsnum\<close>) as a client sends it, finite numbers (\<open>rat\<close>)
  once it is normalized. \<open>'n telemetry\<close> leaves out \<open>schema_version\<close>, which is always 1, and a field that is
  absent or undefined is \<open>None\<close>. Of the entries, titles and other display texts are left out.
\<close>

datatype lab_entry_type = Story | Case_file | Daily_log | Pressure_event

fun entry_type_name :: "lab_entry_type \<Rightarrow> string" where
  "entry_type_name Story = ''story''"
| "entry_type_name Case_file = ''case''"
| "entry_type_name Daily_log = ''daily_log''"
| "entry_type_name Pressure_event = ''pressure_event''"

datatype lab_scenario_type = Narrative | Pressure_sim | Live_shadow

fun scenario_name :: "lab_scenario_type \<Rightarrow> string" where
  "scenario_name Narrative = ''narrative''"
| "scenario_name Pressure_sim = ''pressure_sim''"
| "scenario_name Live_shadow = ''live_shadow''"

datatype lab_consent_mode = Diegetic_opt_in | Summary_only

fun consent_name :: "lab_consent_mode \<Rightarrow> string" where
  "consent_name Diegetic_opt_in = ''diegetic_opt_in''"
| "consent_name Summary_only = ''summary_only''"

record lab_manifest_entry =
  me_entry_type :: lab_entry_type
  me_id :: string
  me_slug :: string

record story_quiz =
  sq_correct_option_id :: rat
  sq_success_ending :: string
  sq_failure_ending :: string

record pressure_event_source =
  pe_click_window_good_ms :: rat

datatype lab_entry_payload = Story_entry story_quiz | Case_entry story_quiz
  | Daily_log_entry "story_quiz option" | Pressure_entry pressure_event_source

record 'n telemetry =
  tl_scenario_type :: lab_scenario_type
  tl_session_id :: string
  tl_story_id :: "string option"
  tl_case_id :: "string option"
  tl_event_id :: "string option"
  tl_reading_time_ms :: "'n option"
  tl_progress_ratio :: "'n option"
  tl_scroll_entropy :: "'n option"
  tl_focus_blur_count :: "'n option"
  tl_input_latency_ms :: "'n option"
  tl_retry_count :: "'n option"
  tl_queue_wait_ms :: "'n option"
  tl_countdown_to_click_ms :: "'n option"
  tl_quiz_correct :: "bool option"
  tl_quiz_answer_id :: "jsnum option"
  tl_consent_mode :: "lab_consent_mode option"
  tl_client_ts :: "jsnum option"
  tl_telemetry_hash :: "string option"

record model_layer_breakdown =
  ml_base_human_score :: int
  ml_pressure_behavior_score :: int
  ml_graph_risk_score :: int

record shadow_scoring_result =
  ss_local_decision :: hub_decision
  ss_human_confidence :: int
  ss_sample_eligible :: bool
  ss_reason_codes :: "string list"
  ss_risk_signals :: "risk_signal list"
  ss_model_layer_breakdown :: model_layer_breakdown

end
