(* ===== verification/Lab_Catalog.thy ===== *)
theory Lab_Catalog
  imports Lab_Types Js_Text
begin

section \<open>The catalog of the laboratory\<close>

text \<open>
  services/behavior-lab-engine/src/catalog.ts: the manifest of generated entries, cached by the
  modification time of its file, and the file of an entry. The files of the host are a parameter, read at
  the type their schema declares. A path is its segments joined by slashes, which names the same file as
  the path \<open>path.join\<close> gives. The lemmas show that the cache is transparent while a file keeps its
  content as long as it keeps its time.
\<close>

record lab_host =
  lh_cwd :: string
  lh_mtime :: "string \<Rightarrow> int result"
  lh_manifest :: "string \<Rightarrow> lab_manifest_entry list result"
  lh_payload :: "string \<Rightarrow> lab_entry_payload result"

record catalog_cache =
  cc_manifestMtimeMs :: int
  cc_manifest :: "lab_manifest_entry list option"

definition no_cache :: catalog_cache where
  "no_cache = \<lparr>cc_manifestMtimeMs = -1, cc_manifest = None\<rparr>"

definition generatedRoot :: "lab_host \<Rightarrow> string" where
  "generatedRoot h = join ''/'' [lh_cwd h, ''content-lab'', ''generated'']"

definition getLabManifest :: "lab_host \<Rightarrow> catalog_cache \<Rightarrow> catalog_cache \<times> lab_manifest_entry list result" where
  "getLabManifest h cache =
     (let filePath = join ''/'' [generatedRoot h, ''index.json''] in
      case lh_mtime h filePath of
        Inl e \<Rightarrow> (cache, Inl e)
      | Inr mtime \<Rightarrow>
        (case cc_manifest cache of
           Some m \<Rightarrow> if cc_manifestMtimeMs cache = mtime then (cache, Inr m)
             else (case lh_manifest h filePath of
                     Inl e \<Rightarrow> (cache, Inl e)
                   | Inr m' \<Rightarrow> (\<lparr>cc_manifestMtimeMs = mtime, cc_manifest = Some m'\<rparr>, Inr m'))
         | None \<Rightarrow> (case lh_manifest h filePath of
                     Inl e \<Rightarrow> (cache, Inl e)
                   | Inr m' \<Rightarrow> (\<lparr>cc_manifestMtimeMs = mtime, cc_manifest = Some m'\<rparr>, Inr m'))))"

definition find_entry ::
  "(lab_manifest_entry \<Rightarrow> bool) \<Rightarrow> lab_host \<Rightarrow> catalog_cache \<Rightarrow> catalog_cache \<times> lab_manifest_entry option result" where
  "find_entry p h cache = (let (cache', m) = getLabManifest h cache in (cache', map_sum id (List.find p) m))"

definition findLabEntryById ::
  "lab_host \<Rightarrow> lab_entry_type \<Rightarrow> string \<Rightarrow> catalog_cache \<Rightarrow> catalog_cache \<times> lab_manifest_entry option result" where
  "findLabEntryById h entryType entryId = find_entry (\<lambda>e. me_entry_type e = entryType \<and> me_id e = entryId) h"

definition findLabEntryBySlug ::
  "lab_host \<Rightarrow> lab_entry_type \<Rightarrow> string \<Rightarrow> catalog_cache \<Rightarrow> catalog_cache \<times> lab_manifest_entry option result" where
  "findLabEntryBySlug h entryType slug = find_entry (\<lambda>e. me_entry_type e = entryType \<and> me_slug e = slug) h"

subsection \<open>The file of an entry\<close>

text \<open>\<open>s.split(sep)\<close> for a separator that is not empty, the part before the next separator reversed.\<close>

fun split_on :: "string \<Rightarrow> string \<Rightarrow> nat \<Rightarrow> string \<Rightarrow> string list" where
  "split_on sep part skip [] = [rev part]"
| "split_on sep part (Suc skip) (c # cs) = split_on sep part skip cs"
| "split_on sep part 0 (c # cs) =
     (if starts_with (c # cs) sep then rev part # split_on sep [] (length sep - 1) cs
      else split_on sep (c # part) 0 cs)"

definition storyPathFromEntry :: "lab_host \<Rightarrow> lab_manifest_entry \<Rightarrow> string result" where
  "storyPathFromEntry h entry =
     (case split_on ''-ep-'' [] 0 (me_slug entry) of
        [seriesId, part] \<Rightarrow> Inr (join ''/'' [generatedRoot h, ''stories'', seriesId, ''ep-'' @ part @ ''.json''])
      | _ \<Rightarrow> Inl (Thrown (''invalid story slug mapping: '' @ me_slug entry)))"

definition pressurePathFromEntry :: "lab_host \<Rightarrow> lab_manifest_entry \<Rightarrow> string" where
  "pressurePathFromEntry h entry = join ''/'' [generatedRoot h, ''pressure-events'', me_slug entry @ ''.json'']"

definition casePathFromEntry :: "lab_host \<Rightarrow> lab_manifest_entry \<Rightarrow> string" where
  "casePathFromEntry h entry = join ''/'' [generatedRoot h, ''cases'', me_slug entry @ ''.json'']"

definition dailyLogPathFromEntry :: "lab_host \<Rightarrow> lab_manifest_entry \<Rightarrow> string" where
  "dailyLogPathFromEntry h entry = join ''/'' [generatedRoot h, ''daily-logs'', me_slug entry @ ''.json'']"

definition entryPath :: "lab_host \<Rightarrow> lab_manifest_entry \<Rightarrow> lab_entry_type \<Rightarrow> string result" where
  "entryPath h entry entryType =
     (case entryType of
        Story \<Rightarrow> storyPathFromEntry h entry
      | Pressure_event \<Rightarrow> Inr (pressurePathFromEntry h entry)
      | Case_file \<Rightarrow> Inr (casePathFromEntry h entry)
      | Daily_log \<Rightarrow> Inr (dailyLogPathFromEntry h entry))"

definition read_entry :: "lab_host \<Rightarrow> lab_entry_type \<Rightarrow> lab_manifest_entry option \<Rightarrow> lab_entry_payload option result" where
  "read_entry h entryType entry =
     (case entry of None \<Rightarrow> Inr None
      | Some e \<Rightarrow> rbind (entryPath h e entryType) (\<lambda>path. map_sum id Some (lh_payload h path)))"

text \<open>\<open>getStoryBySlug\<close>, \<open>getPressureEventBySlug\<close>, \<open>getCaseBySlug\<close> and \<open>getDailyLogBySlug\<close>.\<close>

definition getEntryBySlug ::
  "lab_host \<Rightarrow> lab_entry_type \<Rightarrow> string \<Rightarrow> catalog_cache \<Rightarrow> catalog_cache \<times> lab_entry_payload option result" where
  "getEntryBySlug h entryType slug cache =
     (let (cache', entry) = findLabEntryBySlug h entryType slug cache in (cache', rbind entry (read_entry h entryType)))"

definition getLabEntryPayload ::
  "lab_host \<Rightarrow> lab_entry_type \<Rightarrow> string \<Rightarrow> catalog_cache \<Rightarrow> catalog_cache \<times> lab_entry_payload option result" where
  "getLabEntryPayload h entryType entryId cache =
     (let (cache', entry) = findLabEntryById h entryType entryId cache in (cache', rbind entry (read_entry h entryType)))"

subsection \<open>The cache\<close>

text \<open>A cache is honest for a host when its manifest is the file's as long as the times agree.\<close>

definition honest_cache :: "lab_host \<Rightarrow> catalog_cache \<Rightarrow> bool" where
  "honest_cache h cache \<longleftrightarrow>
     (\<forall>m mt. cc_manifest cache = Some m \<longrightarrow> lh_mtime h (join ''/'' [generatedRoot h, ''index.json'']) = Inr mt \<longrightarrow>
        cc_manifestMtimeMs cache = mt \<longrightarrow> lh_manifest h (join ''/'' [generatedRoot h, ''index.json'']) = Inr m)"

lemma getLabManifest_honest:
  "honest_cache h cache \<Longrightarrow> honest_cache h (fst (getLabManifest h cache))
     \<and> snd (getLabManifest h cache) = snd (getLabManifest h no_cache)"
  by (auto simp: getLabManifest_def honest_cache_def no_cache_def Let_def split: sum.splits option.splits)

lemma getLabManifest_again:
  "snd (getLabManifest h cache) = Inr m \<Longrightarrow> getLabManifest h (fst (getLabManifest h cache)) = (fst (getLabManifest h cache), Inr m)"
  by (auto simp: getLabManifest_def Let_def split: sum.splits option.splits if_splits)

lemma getLabEntryPayload_type:
  "snd (getLabEntryPayload h entryType entryId cache) = Inr (Some p) \<Longrightarrow>
   \<exists>e path. snd (findLabEntryById h entryType entryId cache) = Inr (Some e) \<and> me_entry_type e = entryType \<and> me_id e = entryId
     \<and> entryPath h e entryType = Inr path \<and> lh_payload h path = Inr p"
  by (auto simp: getLabEntryPayload_def findLabEntryById_def find_entry_def read_entry_def Let_def map_sum_def js_simps
      split: prod.splits option.splits sum.splits dest: find_SomeD)

end
