(* ===== verification/Lab_Scoring.thy ===== *)
theory Lab_Scoring
  imports Lab_Types Hub_Decision
begin

section \<open>Shadow scoring of the laboratory\<close>

text \<open>
  services/behavior-lab-engine/src/scoring.ts: two scores, of the human and of the behaviour under
  pressure, are raised and lowered by what a telemetry summary shows, and their mean decides. The scores
  and the two lists the code pushes to are the record \<open>score_draft\<close>, passed from step to step. The
  lemmas bound the confidence of both scenarios, and compare the signals with those the hub reads off
  the same telemetry.
\<close>

record score_draft =
  sd_base :: int
  sd_pressure :: int
  sd_signals :: "risk_signal list"
  sd_codes :: "string list"

text \<open>\<open>base += d; reasonCodes.push(code)\<close>, and the same for the other score.\<close>

definition base_code :: "int \<Rightarrow> string \<Rightarrow> score_draft \<Rightarrow> score_draft" where
  "base_code d code s = s\<lparr>sd_base := sd_base s + d, sd_codes := sd_codes s @ [code]\<rparr>"

definition pressure_code :: "int \<Rightarrow> string \<Rightarrow> score_draft \<Rightarrow> score_draft" where
  "pressure_code d code s = s\<lparr>sd_pressure := sd_pressure s + d, sd_codes := sd_codes s @ [code]\<rparr>"

text \<open>Every call of \<open>pushSignal\<close> gives the source \<open>behavior\<close> and the name as the reason.\<close>

definition pushSignal :: "string \<Rightarrow> rat \<Rightarrow> score_draft \<Rightarrow> score_draft" where
  "pushSignal name weight s =
     s\<lparr>sd_signals := sd_signals s @ [\<lparr>sg_signal = name, sg_weight = weight, sg_source = ''behavior''\<rparr>],
       sd_codes := sd_codes s @ [name]\<rparr>"

definition base_signal :: "int \<Rightarrow> string \<Rightarrow> rat \<Rightarrow> score_draft \<Rightarrow> score_draft" where
  "base_signal d name weight s = pushSignal name weight (s\<lparr>sd_base := sd_base s + d\<rparr>)"

definition pressure_signal :: "int \<Rightarrow> string \<Rightarrow> rat \<Rightarrow> score_draft \<Rightarrow> score_draft" where
  "pressure_signal d name weight s = pushSignal name weight (s\<lparr>sd_pressure := sd_pressure s + d\<rparr>)"

definition finalizeShadowResult :: "score_draft \<Rightarrow> rat option \<Rightarrow> shadow_scoring_result" where
  "finalizeShadowResult s graphRisk =
     (let graphRiskScore = opt_or graphRisk 0;
          humanConfidence = clamp (js_round (fl (of_int (sd_base s + sd_pressure s) / 2
            - fl (graphRiskScore * fl (2 / 10))))) 0 100;
          localDecision = (if humanConfidence < 35 then Block else if humanConfidence < 50 then Step_up else Allow)
      in \<lparr>ss_local_decision = localDecision, ss_human_confidence = humanConfidence,
          ss_sample_eligible = (localDecision = Allow \<and> 80 \<le> humanConfidence),
          ss_reason_codes = sd_codes s, ss_risk_signals = sd_signals s,
          ss_model_layer_breakdown =
            \<lparr>ml_base_human_score = clamp (sd_base s) 0 100, ml_pressure_behavior_score = clamp (sd_pressure s) 0 100,
             ml_graph_risk_score = clamp (js_round graphRiskScore) 0 100\<rparr>\<rparr>)"

subsection \<open>A narrative\<close>

definition scoreReading :: "rat \<Rightarrow> score_draft \<Rightarrow> score_draft" where
  "scoreReading reading s =
     (if 180000 \<le> reading then base_code 18 ''narrative_dwell_strong'' s
      else if 90000 \<le> reading then base_code 10 ''narrative_dwell_ok'' s
      else if 0 < reading \<and> reading < 45000 then base_signal (-28) ''narrative_low_dwell'' 18 s
      else base_code (-8) ''narrative_dwell_missing_or_short'' s)"

definition scoreProgress :: "rat option \<Rightarrow> score_draft \<Rightarrow> score_draft" where
  "scoreProgress progress s =
     (case progress of None \<Rightarrow> s
      | Some p \<Rightarrow> if fl (85 / 100) \<le> p then base_code 10 ''narrative_progress_high'' s
                  else if p < 1 / 2 then base_code (-14) ''narrative_progress_low'' s else s)"

definition scoreEntropy :: "rat option \<Rightarrow> score_draft \<Rightarrow> score_draft" where
  "scoreEntropy entropy s =
     (case entropy of None \<Rightarrow> s
      | Some e \<Rightarrow> if fl (3 / 10) \<le> e \<and> e \<le> 8 then base_code 8 ''narrative_scroll_natural'' s
                  else base_signal (-12) ''narrative_scroll_anomaly'' 12 s)"

text \<open>\<open>n && n >= least\<close>, for a positive \<open>least\<close>.\<close>

definition scoreBlur :: "int \<Rightarrow> rat \<Rightarrow> rat option \<Rightarrow> score_draft \<Rightarrow> score_draft" where
  "scoreBlur d least blur s =
     (if opt_sat (\<lambda>n. n \<noteq> 0 \<and> least \<le> n) blur then base_signal d ''focus_instability'' 10 s else s)"

definition scoreAnswerLatency :: "rat \<Rightarrow> score_draft \<Rightarrow> score_draft" where
  "scoreAnswerLatency latency s =
     (if 600 \<le> latency \<and> latency \<le> 20000 then base_code 6 ''narrative_answer_latency_natural'' s
      else if 0 < latency \<and> latency < 180 then base_code (-10) ''narrative_answer_too_fast'' s
      else s)"

definition scoreQuiz :: "bool \<Rightarrow> score_draft \<Rightarrow> score_draft" where
  "scoreQuiz quizCorrect s =
     (if quizCorrect then base_code 20 ''narrative_quiz_correct'' (s\<lparr>sd_pressure := sd_pressure s + 5\<rparr>)
      else base_signal (-35) ''narrative_quiz_fail'' 24 (s\<lparr>sd_pressure := sd_pressure s - 10\<rparr>))"

text \<open>\<open>telemetry?.field\<close>\<close>

abbreviation field_of :: "('n telemetry \<Rightarrow> 'a option) \<Rightarrow> 'n telemetry option \<Rightarrow> 'a option" where
  "field_of f t \<equiv> Option.bind t f"

definition narrativeDraft :: "rat telemetry option \<Rightarrow> bool \<Rightarrow> score_draft" where
  "narrativeDraft telemetry quizCorrect =
     (scoreQuiz quizCorrect
      (scoreAnswerLatency (opt_or (field_of tl_input_latency_ms telemetry) 0)
       (scoreBlur (-10) 6 (field_of tl_focus_blur_count telemetry)
        (scoreEntropy (field_of tl_scroll_entropy telemetry)
         (scoreProgress (field_of tl_progress_ratio telemetry)
          (scoreReading (opt_or (field_of tl_reading_time_ms telemetry) 0)
           \<lparr>sd_base = 55, sd_pressure = 50, sd_signals = [], sd_codes = [''scenario_narrative_shadow'']\<rparr>))))))"

definition scoreNarrativeShadow :: "rat telemetry option \<Rightarrow> bool \<Rightarrow> shadow_scoring_result" where
  "scoreNarrativeShadow telemetry quizCorrect = finalizeShadowResult (narrativeDraft telemetry quizCorrect) None"

subsection \<open>An event under pressure\<close>

definition scoreClick :: "rat \<Rightarrow> rat option \<Rightarrow> score_draft \<Rightarrow> score_draft" where
  "scoreClick good clickDelta s =
     (case clickDelta of
        None \<Rightarrow> pressure_code (-12) ''pressure_click_timing_missing'' s
      | Some d \<Rightarrow>
          if 0 \<le> d \<and> d \<le> good then pressure_code 18 ''pressure_click_window_good'' s
          else if good * 4 < d \<or> d < -100 then pressure_signal (-22) ''pressure_countdown_click_outlier'' 18 s
          else pressure_code (-6) ''pressure_click_window_off'' s)"

definition scoreRetries :: "rat \<Rightarrow> score_draft \<Rightarrow> score_draft" where
  "scoreRetries retryCount s =
     (if retryCount \<le> 2 then pressure_code 8 ''pressure_retry_controlled'' s
      else if 5 \<le> retryCount then pressure_signal (-25) ''pressure_retry_burst'' 22 s
      else pressure_code (-8) ''pressure_retry_elevated'' s)"

definition scoreQueue :: "rat option \<Rightarrow> score_draft \<Rightarrow> score_draft" where
  "scoreQueue queueWait s =
     (case queueWait of None \<Rightarrow> s
      | Some q \<Rightarrow> if 300 \<le> q \<and> q \<le> 8000 then pressure_code 8 ''pressure_queue_wait_plausible'' s
                  else if q < 50 then pressure_signal (-10) ''pressure_queue_rejoin_anomaly'' 10 s
                  else s)"

definition scoreLatency :: "rat option \<Rightarrow> score_draft \<Rightarrow> score_draft" where
  "scoreLatency latency s =
     (case latency of None \<Rightarrow> s
      | Some l \<Rightarrow> if 80 \<le> l \<and> l \<le> 4000 then pressure_code 5 ''pressure_latency_plausible'' s
                  else pressure_signal (-10) ''pressure_latency_pattern_anomaly'' 12 s)"

definition pressureDraft :: "pressure_event_source \<Rightarrow> rat telemetry option \<Rightarrow> score_draft" where
  "pressureDraft event telemetry =
     (scoreLatency (field_of tl_input_latency_ms telemetry)
      (scoreBlur (-12) 4 (field_of tl_focus_blur_count telemetry)
       (scoreQueue (field_of tl_queue_wait_ms telemetry)
        (scoreRetries (opt_or (field_of tl_retry_count telemetry) 0)
         (scoreClick (pe_click_window_good_ms event) (field_of tl_countdown_to_click_ms telemetry)
          \<lparr>sd_base = 48, sd_pressure = 55, sd_signals = [], sd_codes = [''scenario_pressure_shadow'']\<rparr>)))))"

definition scorePressureShadow :: "pressure_event_source \<Rightarrow> rat telemetry option \<Rightarrow> shadow_scoring_result" where
  "scorePressureShadow event telemetry = finalizeShadowResult (pressureDraft event telemetry) None"

subsection \<open>Telemetry as a value\<close>

definition js_opt :: "('a \<Rightarrow> jsval) \<Rightarrow> 'a option \<Rightarrow> jsval" where
  "js_opt f x = (case x of None \<Rightarrow> JUndef | Some v \<Rightarrow> f v)"

lemma js_opt_simps [simp]: "js_opt f None = JUndef" "js_opt f (Some v) = f v"
  by (simp_all add: js_opt_def)

text \<open>The object a normalized summary is.\<close>

definition telemetry_value :: "rat telemetry \<Rightarrow> jsval" where
  "telemetry_value t = JObj
     [(''schema_version'', JNum (Fin 1)), (''scenario_type'', JStr (scenario_name (tl_scenario_type t))),
      (''session_id'', JStr (tl_session_id t)), (''story_id'', js_opt JStr (tl_story_id t)),
      (''case_id'', js_opt JStr (tl_case_id t)), (''event_id'', js_opt JStr (tl_event_id t)),
      (''reading_time_ms'', js_opt (JNum \<circ> Fin) (tl_reading_time_ms t)),
      (''progress_ratio'', js_opt (JNum \<circ> Fin) (tl_progress_ratio t)),
      (''scroll_entropy'', js_opt (JNum \<circ> Fin) (tl_scroll_entropy t)),
      (''focus_blur_count'', js_opt (JNum \<circ> Fin) (tl_focus_blur_count t)),
      (''input_latency_ms'', js_opt (JNum \<circ> Fin) (tl_input_latency_ms t)),
      (''retry_count'', js_opt (JNum \<circ> Fin) (tl_retry_count t)),
      (''queue_wait_ms'', js_opt (JNum \<circ> Fin) (tl_queue_wait_ms t)),
      (''countdown_to_click_ms'', js_opt (JNum \<circ> Fin) (tl_countdown_to_click_ms t)),
      (''quiz_correct'', js_opt JBool (tl_quiz_correct t)), (''quiz_answer_id'', js_opt JNum (tl_quiz_answer_id t)),
      (''consent_mode'', js_opt (JStr \<circ> consent_name) (tl_consent_mode t)),
      (''client_ts'', js_opt JNum (tl_client_ts t)), (''telemetry_hash'', js_opt JStr (tl_telemetry_hash t))]"

subsection \<open>Bounds of the scores\<close>

named_theorems draft_simps

lemma draft_codes [draft_simps]:
  "sd_base (base_code d c s) = sd_base s + d" "sd_pressure (base_code d c s) = sd_pressure s"
  "sd_base (pressure_code d c s) = sd_base s" "sd_pressure (pressure_code d c s) = sd_pressure s + d"
  "sd_signals (base_code d c s) = sd_signals s" "sd_signals (pressure_code d c s) = sd_signals s"
  by (simp_all add: base_code_def pressure_code_def)

lemma draft_signals [draft_simps]:
  "sd_base (base_signal d n w s) = sd_base s + d" "sd_pressure (base_signal d n w s) = sd_pressure s"
  "sd_base (pressure_signal d n w s) = sd_base s" "sd_pressure (pressure_signal d n w s) = sd_pressure s + d"
  "sd_signals (base_signal d n w s) = sd_signals s @ [\<lparr>sg_signal = n, sg_weight = w, sg_source = ''behavior''\<rparr>]"
  "sd_signals (pressure_signal d n w s) = sd_signals s @ [\<lparr>sg_signal = n, sg_weight = w, sg_source = ''behavior''\<rparr>]"
  by (simp_all add: base_signal_def pressure_signal_def pushSignal_def)

lemmas narrative_steps = scoreReading_def scoreProgress_def scoreEntropy_def scoreBlur_def scoreAnswerLatency_def
  scoreQuiz_def

lemmas pressure_steps = scoreClick_def scoreRetries_def scoreQueue_def scoreBlur_def scoreLatency_def

lemma narrative_step_bounds:
  "sd_base (scoreReading r s) \<in> {sd_base s - 28 .. sd_base s + 18}" "sd_pressure (scoreReading r s) = sd_pressure s"
  "sd_base (scoreProgress p s) \<in> {sd_base s - 14 .. sd_base s + 10}" "sd_pressure (scoreProgress p s) = sd_pressure s"
  "sd_base (scoreEntropy e s) \<in> {sd_base s - 12 .. sd_base s + 8}" "sd_pressure (scoreEntropy e s) = sd_pressure s"
  "sd_base (scoreAnswerLatency l s) \<in> {sd_base s - 10 .. sd_base s + 6}"
  "sd_pressure (scoreAnswerLatency l s) = sd_pressure s"
  by (auto simp: narrative_steps draft_simps split: option.split)

lemma blur_bounds:
  "d \<le> 0 \<Longrightarrow> sd_base (scoreBlur d n b s) \<in> {sd_base s + d .. sd_base s}" "sd_pressure (scoreBlur d n b s) = sd_pressure s"
  by (auto simp: scoreBlur_def draft_simps)

lemma pressure_step_bounds:
  "sd_pressure (scoreClick g c s) \<in> {sd_pressure s - 22 .. sd_pressure s + 18}" "sd_base (scoreClick g c s) = sd_base s"
  "sd_pressure (scoreRetries r s) \<in> {sd_pressure s - 25 .. sd_pressure s + 8}" "sd_base (scoreRetries r s) = sd_base s"
  "sd_pressure (scoreQueue q s) \<in> {sd_pressure s - 10 .. sd_pressure s + 8}" "sd_base (scoreQueue q s) = sd_base s"
  "sd_pressure (scoreLatency l s) \<in> {sd_pressure s - 10 .. sd_pressure s + 5}" "sd_base (scoreLatency l s) = sd_base s"
  by (auto simp: pressure_steps draft_simps split: option.split)

lemma narrativeDraft_bounds:
  "sd_pressure (narrativeDraft t q) = (if q then 55 else 40)"
  "sd_base (narrativeDraft t q) \<in> (if q then {1..117} else {-54..62})"
proof -
  define s0 :: score_draft where
    "s0 = \<lparr>sd_base = 55, sd_pressure = 50, sd_signals = [], sd_codes = [''scenario_narrative_shadow'']\<rparr>"
  define s1 where "s1 = scoreReading (opt_or (field_of tl_reading_time_ms t) 0) s0"
  define s2 where "s2 = scoreProgress (field_of tl_progress_ratio t) s1"
  define s3 where "s3 = scoreEntropy (field_of tl_scroll_entropy t) s2"
  define s4 where "s4 = scoreBlur (-10) 6 (field_of tl_focus_blur_count t) s3"
  define s5 where "s5 = scoreAnswerLatency (opt_or (field_of tl_input_latency_ms t) 0) s4"
  have p: "sd_pressure s5 = 50"
    by (simp add: s5_def s4_def s3_def s2_def s1_def narrative_step_bounds blur_bounds) (simp add: s0_def)
  have b: "sd_base s0 = 55" by (simp add: s0_def)
  have "sd_base s5 \<in> {-19..97}"
    using narrative_step_bounds(1)[of "opt_or (field_of tl_reading_time_ms t) 0" s0]
      narrative_step_bounds(3)[of "field_of tl_progress_ratio t" s1]
      narrative_step_bounds(5)[of "field_of tl_scroll_entropy t" s2]
      blur_bounds(1)[of "-10" 6 "field_of tl_focus_blur_count t" s3]
      narrative_step_bounds(7)[of "opt_or (field_of tl_input_latency_ms t) 0" s4] b
    by (simp flip: s1_def s2_def s3_def s4_def s5_def)
  moreover have d: "narrativeDraft t q = scoreQuiz q s5"
    by (simp add: narrativeDraft_def s5_def s4_def s3_def s2_def s1_def s0_def)
  ultimately show "sd_pressure (narrativeDraft t q) = (if q then 55 else 40)"
    "sd_base (narrativeDraft t q) \<in> (if q then {1..117} else {-54..62})"
    by (auto simp: d scoreQuiz_def draft_simps p)
qed

lemma pressureDraft_bounds:
  "sd_base (pressureDraft e t) \<in> {36..48}" "sd_pressure (pressureDraft e t) \<in> {-12..94}"
proof -
  define s0 :: score_draft where
    "s0 = \<lparr>sd_base = 48, sd_pressure = 55, sd_signals = [], sd_codes = [''scenario_pressure_shadow'']\<rparr>"
  define s1 where "s1 = scoreClick (pe_click_window_good_ms e) (field_of tl_countdown_to_click_ms t) s0"
  define s2 where "s2 = scoreRetries (opt_or (field_of tl_retry_count t) 0) s1"
  define s3 where "s3 = scoreQueue (field_of tl_queue_wait_ms t) s2"
  define s4 where "s4 = scoreBlur (-12) 4 (field_of tl_focus_blur_count t) s3"
  have d: "pressureDraft e t = scoreLatency (field_of tl_input_latency_ms t) s4"
    by (simp add: pressureDraft_def s4_def s3_def s2_def s1_def s0_def)
  have b: "sd_base s3 = 48"
    by (simp add: s3_def s2_def s1_def pressure_step_bounds) (simp add: s0_def)
  show "sd_base (pressureDraft e t) \<in> {36..48}"
    using blur_bounds(1)[of "-12" 4 "field_of tl_focus_blur_count t" s3] b
    by (simp add: d pressure_step_bounds s4_def)
  have "sd_pressure s4 = sd_pressure s3" "sd_pressure s0 = 55" by (simp_all add: s4_def blur_bounds s0_def)
  then show "sd_pressure (pressureDraft e t) \<in> {-12..94}"
    using pressure_step_bounds(1)[of "pe_click_window_good_ms e" "field_of tl_countdown_to_click_ms t" s0]
      pressure_step_bounds(3)[of "opt_or (field_of tl_retry_count t) 0" s1]
      pressure_step_bounds(5)[of "field_of tl_queue_wait_ms t" s2]
      pressure_step_bounds(7)[of "field_of tl_input_latency_ms t" s4]
    by (simp flip: s1_def s2_def s3_def d)
qed

lemma finalize_confidence:
  assumes "\<bar>sd_base s + sd_pressure s\<bar> \<le> 1000"
  shows "ss_human_confidence (finalizeShadowResult s None) = clamp ((sd_base s + sd_pressure s + 1) div 2) 0 100"
proof -
  let ?n = "sd_base s + sd_pressure s"
  have "fl (of_int ?n / 2) = (of_int ?n / 2 :: rat)"
    by (rule fl_dyadic[of _ ?n "-1"]) (use assms in \<open>simp_all add: power_int_minus\<close>)
  then have f: "fl (of_int ?n / 2 - fl (0 * fl (2 / 10))) = (of_int ?n / 2 :: rat)" by simp
  have j: "js_round (of_int ?n / 2) = (?n + 1) div 2"
  proof -
    have "(of_int ?n / 2 + 1 / 2 :: rat) = of_int (?n + 1) / of_int 2" by (simp add: add_divide_distrib)
    then show ?thesis by (simp only: js_round_def floor_divide_of_int_eq)
  qed
  show ?thesis
    unfolding finalizeShadowResult_def Let_def opt_or_simps f j by simp
qed

lemma finalize_fields:
  "ss_sample_eligible (finalizeShadowResult s g) \<longleftrightarrow> 80 \<le> ss_human_confidence (finalizeShadowResult s g)"
  "ss_risk_signals (finalizeShadowResult s g) = sd_signals s"
  by (auto simp: finalizeShadowResult_def Let_def)

lemma finalize_between:
  assumes "sd_base s \<in> {a..b}" "sd_pressure s \<in> {c..d}" "\<bar>a\<bar> \<le> 250" "\<bar>b\<bar> \<le> 250" "\<bar>c\<bar> \<le> 250" "\<bar>d\<bar> \<le> 250"
  shows "ss_human_confidence (finalizeShadowResult s None) \<in> {clamp ((a + c + 1) div 2) 0 100 .. clamp ((b + d + 1) div 2) 0 100}"
proof -
  have "\<bar>sd_base s + sd_pressure s\<bar> \<le> 1000" using assms by auto
  then show ?thesis
    using assms(1,2) by (simp add: finalize_confidence clamp_mono zdiv_mono1)
qed

lemma shadow_confidence:
  "ss_human_confidence (scorePressureShadow e t) \<in> {12..71}"
  "ss_human_confidence (scoreNarrativeShadow t True) \<in> {28..86}"
  "ss_human_confidence (scoreNarrativeShadow t False) \<in> {0..51}"
  using finalize_between[OF pressureDraft_bounds, of e t] narrativeDraft_bounds[of t True] narrativeDraft_bounds[of t False]
    finalize_between[of "narrativeDraft t True" 1 117 55 55] finalize_between[of "narrativeDraft t False" "-54" 62 40 40]
  by (simp_all add: scorePressureShadow_def scoreNarrativeShadow_def clamp_def)

subsection \<open>Signals of the hub and of the laboratory\<close>

lemma telemetry_value_props:
  "toFiniteNumber (js_prop_opt (telemetry_value t) ''reading_time_ms'') = tl_reading_time_ms t"
  "toFiniteNumber (js_prop_opt (telemetry_value t) ''scroll_entropy'') = tl_scroll_entropy t"
  "toFiniteNumber (js_prop_opt (telemetry_value t) ''focus_blur_count'') = tl_focus_blur_count t"
  "toFiniteNumber (js_prop_opt (telemetry_value t) ''input_latency_ms'') = tl_input_latency_ms t"
  "toFiniteNumber (js_prop_opt (telemetry_value t) ''retry_count'') = tl_retry_count t"
  "toFiniteNumber (js_prop_opt (telemetry_value t) ''queue_wait_ms'') = tl_queue_wait_ms t"
  "toFiniteNumber (js_prop_opt (telemetry_value t) ''countdown_to_click_ms'') = tl_countdown_to_click_ms t"
  "js_prop_opt (telemetry_value t) ''quiz_correct'' = JBool b \<longleftrightarrow> tl_quiz_correct t = Some b"
  by (simp_all add: telemetry_value_def js_opt_def split: option.split)

abbreviation behavior_signal :: "string \<Rightarrow> rat \<Rightarrow> risk_signal" where
  "behavior_signal n w \<equiv> \<lparr>sg_signal = n, sg_weight = w, sg_source = ''behavior''\<rparr>"

lemma upon_signals:
  "set (as_signals (upon c f a)) = (if c then set (as_signals (f a)) else set (as_signals a))"
  "as_signals (raise_step_up a) = as_signals a" "as_signals (as_decision_bias_update g a) = as_signals a"
  by (simp_all add: upon_def raise_step_up_def)

lemma lab_step_signals [draft_simps]:
  "set (sd_signals (scoreReading r s)) = set (sd_signals s) \<union>
     (if 0 < r \<and> r < 45000 then {behavior_signal ''narrative_low_dwell'' 18} else {})"
  "sd_signals (scoreProgress p s) = sd_signals s"
  "set (sd_signals (scoreEntropy e s)) = set (sd_signals s) \<union>
     (if opt_sat (\<lambda>x. x < fl (3 / 10) \<or> 8 < x) e then {behavior_signal ''narrative_scroll_anomaly'' 12} else {})"
  "sd_signals (scoreAnswerLatency l s) = sd_signals s"
  "set (sd_signals (scoreQuiz q s)) = set (sd_signals s) \<union> (if q then {} else {behavior_signal ''narrative_quiz_fail'' 24})"
  "set (sd_signals (scoreBlur d n b s)) = set (sd_signals s) \<union>
     (if opt_sat (\<lambda>x. x \<noteq> 0 \<and> n \<le> x) b then {behavior_signal ''focus_instability'' 10} else {})"
  "set (sd_signals (scoreClick g c s)) = set (sd_signals s) \<union>
     (if opt_sat (\<lambda>x. \<not> (0 \<le> x \<and> x \<le> g) \<and> (g * 4 < x \<or> x < -100)) c
      then {behavior_signal ''pressure_countdown_click_outlier'' 18} else {})"
  "set (sd_signals (scoreRetries k s)) = set (sd_signals s) \<union>
     (if 5 \<le> k then {behavior_signal ''pressure_retry_burst'' 22} else {})"
  "set (sd_signals (scoreQueue w s)) = set (sd_signals s) \<union>
     (if opt_sat (\<lambda>x. x < 50) w then {behavior_signal ''pressure_queue_rejoin_anomaly'' 10} else {})"
  "set (sd_signals (scoreLatency v s)) = set (sd_signals s) \<union>
     (if opt_sat (\<lambda>x. x < 80 \<or> 4000 < x) v then {behavior_signal ''pressure_latency_pattern_anomaly'' 12} else {})"
  by (auto simp: narrative_steps pressure_steps draft_simps opt_sat_def split: option.splits)

lemma narrative_signals_subset:
  assumes "tl_quiz_correct t = Some q" "as_signals r0 = []"
  shows "set (as_signals (assessNarrative (telemetry_value t) r0)) \<subseteq> set (sd_signals (narrativeDraft (Some t) q))"
proof -
  have "opt_sat (\<lambda>x. x < fl (2 / 10) \<or> 9 < x) e \<Longrightarrow> opt_sat (\<lambda>x. x < fl (3 / 10) \<or> 8 < x) e" for e
    using fl_mono[of "2 / 10" "3 / 10"] by (auto simp: opt_sat_def split: option.splits)
  moreover have "opt_sat (\<lambda>x. 6 \<le> x) b \<Longrightarrow> opt_sat (\<lambda>x. x \<noteq> 0 \<and> 6 \<le> x) b"
    "opt_sat (\<lambda>x. 0 < x \<and> x < 45000) b \<Longrightarrow> 0 < opt_or b 0 \<and> opt_or b 0 < 45000" for b :: "rat option"
    by (auto simp: opt_sat_def split: option.splits)
  ultimately show ?thesis
    using assms by (auto simp: assessNarrative_def Let_def telemetry_value_props narrativeDraft_def draft_simps
        upon_signals assess_simps)
qed

lemma pressure_signals_subset:
  assumes "0 \<le> pe_click_window_good_ms e" "pe_click_window_good_ms e \<le> 1000" "as_signals r0 = []"
  shows "set (as_signals (assessPressure (telemetry_value t) r0)) \<subseteq> set (sd_signals (pressureDraft e (Some t)))"
proof -
  have "opt_sat (\<lambda>x. x < -100 \<or> 4000 < x) c \<Longrightarrow>
      opt_sat (\<lambda>x. \<not> (0 \<le> x \<and> x \<le> pe_click_window_good_ms e) \<and> (pe_click_window_good_ms e * 4 < x \<or> x < -100)) c" for c
    using assms by (auto simp: opt_sat_def split: option.splits)
  moreover have "opt_sat (\<lambda>x. 4 \<le> x) b \<Longrightarrow> opt_sat (\<lambda>x. x \<noteq> 0 \<and> 4 \<le> x) b"
    "opt_sat (\<lambda>x. x < 80 \<or> 10000 < x) b \<Longrightarrow> opt_sat (\<lambda>x. x < 80 \<or> 4000 < x) b"
    "opt_sat (\<lambda>x. 5 \<le> x) b \<Longrightarrow> 5 \<le> opt_or b 0" for b :: "rat option"
    by (auto simp: opt_sat_def split: option.splits)
  ultimately show ?thesis
    using assms(3) by (auto simp: assessPressure_def Let_def telemetry_value_props pressureDraft_def draft_simps
        upon_signals assess_simps)
qed

subsection \<open>Properties\<close>

definition sample_telemetry :: "lab_scenario_type \<Rightarrow> 'n option \<Rightarrow> 'n option \<Rightarrow> 'n telemetry" where
  "sample_telemetry scenario reading click = \<lparr>tl_scenario_type = scenario, tl_session_id = ''lab-1'',
     tl_story_id = None, tl_case_id = None, tl_event_id = None, tl_reading_time_ms = reading,
     tl_progress_ratio = None, tl_scroll_entropy = None, tl_focus_blur_count = None, tl_input_latency_ms = None,
     tl_retry_count = None, tl_queue_wait_ms = None, tl_countdown_to_click_ms = click, tl_quiz_correct = None,
     tl_quiz_answer_id = None, tl_consent_mode = None, tl_client_ts = None, tl_telemetry_hash = None\<rparr>"

text \<open>
  The confidence of an event under pressure is between 12 and 71 and that of a narrative with a wrong
  answer at most 51, whatever the telemetry says, so neither is ever eligible as a sample; a right answer
  gives between 28 and 86. The three upper bounds are reached.
\<close>

theorem lab_confidence_bounds:
  "ss_human_confidence (scorePressureShadow e t) \<in> {12..71} \<and> \<not> ss_sample_eligible (scorePressureShadow e t)
   \<and> ss_human_confidence (scoreNarrativeShadow t False) \<in> {0..51} \<and> \<not> ss_sample_eligible (scoreNarrativeShadow t False)
   \<and> ss_human_confidence (scoreNarrativeShadow t True) \<in> {28..86}
   \<and> (\<exists>e t. ss_human_confidence (scorePressureShadow e t) = 71)
   \<and> (\<exists>t. ss_human_confidence (scoreNarrativeShadow t False) = 51 \<and> ss_local_decision (scoreNarrativeShadow t False) = Allow
        \<and> ss_human_confidence (scoreNarrativeShadow t True) = 86)"
proof -
  let ?p = "(sample_telemetry Pressure_sim None (Some 100))\<lparr>tl_queue_wait_ms := Some 1000, tl_input_latency_ms := Some 100\<rparr> :: rat telemetry"
  let ?n = "(sample_telemetry Narrative (Some 200000) None)\<lparr>tl_progress_ratio := Some 1, tl_scroll_entropy := Some 2,
    tl_input_latency_ms := Some 1000\<rparr> :: rat telemetry"
  have "ss_human_confidence (scorePressureShadow \<lparr>pe_click_window_good_ms = 250\<rparr> (Some ?p)) = 71" by code_simp
  moreover have "ss_human_confidence (scoreNarrativeShadow (Some ?n) False) = 51
      \<and> ss_local_decision (scoreNarrativeShadow (Some ?n) False) = Allow
      \<and> ss_human_confidence (scoreNarrativeShadow (Some ?n) True) = 86" by code_simp
  ultimately show ?thesis
    using shadow_confidence(1)[of e t] shadow_confidence(2,3)[of t]
    by (auto simp: scorePressureShadow_def scoreNarrativeShadow_def finalize_fields)
qed

end
