(* ===== verification/Lab_Session.thy ===== *)
theory Lab_Session
  imports Lab_Catalog Lab_Scoring
begin

section \<open>Sessions of the laboratory\<close>

text \<open>
  services/behavior-lab-engine/src/session_store.ts: sessions in memory, the telemetry they collect, and
  the submission of an answer, which is scored, sent to the hub for a quote, and recorded as a shadow
  decision that has no effect on the visitor. The submission waits for the hub, so it is modelled in the
  two parts before and after, between which other requests run. The lemmas give the invariant of
  every reachable state, the independence of the visitor's result from the hub, and what normalization
  guarantees.
\<close>

record lab_session =
  ls_session_id :: string
  ls_entry_type :: lab_entry_type
  ls_entry_id :: string
  ls_entry_slug :: string
  ls_scenario_type :: lab_scenario_type
  ls_wallet :: string
  ls_consent_mode :: lab_consent_mode
  ls_started_at :: int
  ls_updated_at :: int
  ls_telemetry_latest :: "rat telemetry option"
  ls_telemetry_history_count :: nat
  ls_challenge_submission_count :: nat

record session_internal = lab_session +
  si_telemetry_history :: "rat telemetry list"
  si_latest_shadow_record_id :: "string option"

datatype label_status = Label_unknown | Human_likely | Bot_likely

record lab_shadow_record =
  sr_record_id :: string
  sr_session_id :: string
  sr_entry_type :: lab_entry_type
  sr_entry_id :: string
  sr_scenario_type :: lab_scenario_type
  sr_decision_shadow :: hub_decision
  sr_would_block :: bool
  sr_would_step_up :: bool
  sr_human_confidence :: int
  sr_model_layer_breakdown :: model_layer_breakdown
  sr_reason_codes :: "string list"
  sr_sample_eligible :: bool
  sr_label_status :: label_status
  sr_telemetry_summary :: "rat telemetry option"
  sr_created_at :: int

record lab_state =
  lb_sessions :: "(string, session_internal) jsmap"
  lb_shadow_records :: "lab_shadow_record list"
  lb_cache :: catalog_cache

definition empty_lab :: lab_state where
  "empty_lab = \<lparr>lb_sessions = [], lb_shadow_records = [], lb_cache = no_cache\<rparr>"

definition toScenarioType :: "lab_entry_type \<Rightarrow> lab_scenario_type" where
  "toScenarioType entryType = (if entryType = Pressure_event then Pressure_sim else Narrative)"

definition publicSessionShape :: "session_internal \<Rightarrow> lab_session" where
  "publicSessionShape s =
     \<lparr>ls_session_id = ls_session_id s, ls_entry_type = ls_entry_type s, ls_entry_id = ls_entry_id s,
      ls_entry_slug = ls_entry_slug s, ls_scenario_type = ls_scenario_type s, ls_wallet = ls_wallet s,
      ls_consent_mode = ls_consent_mode s, ls_started_at = ls_started_at s, ls_updated_at = ls_updated_at s,
      ls_telemetry_latest = ls_telemetry_latest s, ls_telemetry_history_count = length (si_telemetry_history s),
      ls_challenge_submission_count = ls_challenge_submission_count s\<rparr>"

definition getSessionOrThrow :: "lab_state \<Rightarrow> string \<Rightarrow> session_internal result" where
  "getSessionOrThrow st sessionId =
     (case map_get (lb_sessions st) sessionId of None \<Rightarrow> Inl (Thrown ''lab session not found'') | Some s \<Rightarrow> Inr s)"

text \<open>The session object is shared: a change of it is a change of the map's entry.\<close>

definition put_session :: "session_internal \<Rightarrow> lab_state \<Rightarrow> lab_state" where
  "put_session s st = st\<lparr>lb_sessions := map_set (ls_session_id s) s (lb_sessions st)\<rparr>"

subsection \<open>Telemetry\<close>

text \<open>\<open>Math.max(0, v)\<close> of a finite number, rounded down first for a count.\<close>

definition nonNegative :: "jsnum option \<Rightarrow> rat option" where
  "nonNegative v = map_option (max 0) (Option.bind v finite_num)"

definition nonNegativeCount :: "jsnum option \<Rightarrow> rat option" where
  "nonNegativeCount v = map_option (\<lambda>x. max 0 (of_int \<lfloor>x\<rfloor>)) (Option.bind v finite_num)"

definition normalizeTelemetry :: "jsnum telemetry \<Rightarrow> string \<Rightarrow> rat telemetry" where
  "normalizeTelemetry t expectedSessionId =
     \<lparr>tl_scenario_type = tl_scenario_type t, tl_session_id = expectedSessionId,
      tl_story_id = tl_story_id t, tl_case_id = tl_case_id t, tl_event_id = tl_event_id t,
      tl_reading_time_ms = nonNegative (tl_reading_time_ms t),
      tl_progress_ratio = map_option (\<lambda>x. clamp x 0 1) (Option.bind (tl_progress_ratio t) finite_num),
      tl_scroll_entropy = nonNegative (tl_scroll_entropy t),
      tl_focus_blur_count = nonNegativeCount (tl_focus_blur_count t),
      tl_input_latency_ms = nonNegative (tl_input_latency_ms t),
      tl_retry_count = nonNegativeCount (tl_retry_count t),
      tl_queue_wait_ms = nonNegative (tl_queue_wait_ms t),
      tl_countdown_to_click_ms = Option.bind (tl_countdown_to_click_ms t) finite_num,
      tl_quiz_correct = tl_quiz_correct t, tl_quiz_answer_id = tl_quiz_answer_id t,
      tl_consent_mode = tl_consent_mode t, tl_client_ts = tl_client_ts t, tl_telemetry_hash = tl_telemetry_hash t\<rparr>"

text \<open>\<open>{...a, ...b}\<close> per field: what \<open>b\<close> has, else what \<open>a\<close> has.\<close>

definition over :: "'a option \<Rightarrow> 'a option \<Rightarrow> 'a option" where
  "over a b = (if b = None then a else b)"

definition mergeTelemetry :: "rat telemetry option \<Rightarrow> rat telemetry option \<Rightarrow> rat telemetry option" where
  "mergeTelemetry a b =
     (case (a, b) of
        (None, _) \<Rightarrow> b
      | (Some _, None) \<Rightarrow> a
      | (Some a, Some b) \<Rightarrow> Some
          \<lparr>tl_scenario_type = tl_scenario_type b,
           tl_session_id = (if tl_session_id b \<noteq> [] then tl_session_id b else tl_session_id a),
           tl_story_id = over (tl_story_id a) (tl_story_id b), tl_case_id = over (tl_case_id a) (tl_case_id b),
           tl_event_id = over (tl_event_id a) (tl_event_id b),
           tl_reading_time_ms = over (tl_reading_time_ms a) (tl_reading_time_ms b),
           tl_progress_ratio = over (tl_progress_ratio a) (tl_progress_ratio b),
           tl_scroll_entropy = over (tl_scroll_entropy a) (tl_scroll_entropy b),
           tl_focus_blur_count = over (tl_focus_blur_count a) (tl_focus_blur_count b),
           tl_input_latency_ms = over (tl_input_latency_ms a) (tl_input_latency_ms b),
           tl_retry_count = over (tl_retry_count a) (tl_retry_count b),
           tl_queue_wait_ms = over (tl_queue_wait_ms a) (tl_queue_wait_ms b),
           tl_countdown_to_click_ms = over (tl_countdown_to_click_ms a) (tl_countdown_to_click_ms b),
           tl_quiz_correct = over (tl_quiz_correct a) (tl_quiz_correct b),
           tl_quiz_answer_id = over (tl_quiz_answer_id a) (tl_quiz_answer_id b),
           tl_consent_mode = over (tl_consent_mode a) (tl_consent_mode b),
           tl_client_ts = over (tl_client_ts a) (tl_client_ts b),
           tl_telemetry_hash = over (tl_telemetry_hash a) (tl_telemetry_hash b)\<rparr>)"

subsection \<open>Start and telemetry\<close>

record start_lab_input =
  st_entry_type :: lab_entry_type
  st_entry_id :: string
  st_consent_mode :: lab_consent_mode
  st_wallet :: "string option"

text \<open>\<open>uuid\<close> and \<open>pseudo\<close> are the random identifier and the public key of a fresh pair.\<close>

definition startLabSession ::
  "lab_host \<Rightarrow> int \<Rightarrow> string \<Rightarrow> string \<Rightarrow> start_lab_input \<Rightarrow> lab_state \<Rightarrow>
   lab_state \<times> (lab_session \<times> lab_entry_payload) result" where
  "startLabSession h ts uuid pseudo inp st =
     (let (c1, entryMeta) = findLabEntryById h (st_entry_type inp) (st_entry_id inp) (lb_cache st);
          st1 = st\<lparr>lb_cache := c1\<rparr> in
      case entryMeta of
        Inl e \<Rightarrow> (st1, Inl e)
      | Inr None \<Rightarrow> (st1, Inl (Thrown ''lab entry not found''))
      | Inr (Some entry) \<Rightarrow>
        (let (c2, payload) = getLabEntryPayload h (st_entry_type inp) (st_entry_id inp) c1;
             st2 = st1\<lparr>lb_cache := c2\<rparr> in
         case payload of
           Inl e \<Rightarrow> (st2, Inl e)
         | Inr None \<Rightarrow> (st2, Inl (Thrown ''lab entry payload not found''))
         | Inr (Some p) \<Rightarrow>
           (let session = \<lparr>ls_session_id = ''lab-'' @ uuid, ls_entry_type = st_entry_type inp, ls_entry_id = st_entry_id inp,
                  ls_entry_slug = me_slug entry, ls_scenario_type = toScenarioType (st_entry_type inp),
                  ls_wallet = (if opt_or (st_wallet inp) [] \<noteq> [] then opt_or (st_wallet inp) [] else pseudo),
                  ls_consent_mode = st_consent_mode inp, ls_started_at = ts, ls_updated_at = ts,
                  ls_telemetry_latest = None, ls_telemetry_history_count = 0, ls_challenge_submission_count = 0,
                  si_telemetry_history = [], si_latest_shadow_record_id = None\<rparr>
            in (put_session session st2, Inr (publicSessionShape session, p)))))"

definition ingestLabTelemetry ::
  "int \<Rightarrow> string \<Rightarrow> jsnum telemetry \<Rightarrow> lab_state \<Rightarrow> lab_state \<times> (lab_session \<times> rat telemetry) result" where
  "ingestLabTelemetry now sessionId summary st =
     (case getSessionOrThrow st sessionId of
        Inl e \<Rightarrow> (st, Inl e)
      | Inr session \<Rightarrow>
        (let telemetry = normalizeTelemetry summary (ls_session_id session) in
         if tl_scenario_type telemetry \<noteq> ls_scenario_type session
         then (st, Inl (Thrown ''telemetry scenario_type does not match session''))
         else (let history = si_telemetry_history session @ [telemetry];
                   session' = session\<lparr>si_telemetry_history := history, ls_telemetry_latest := Some telemetry,
                     ls_telemetry_history_count := length history, ls_updated_at := now\<rparr>
               in (put_session session' st, Inr (publicSessionShape session', telemetry)))))"

subsection \<open>Unlocking\<close>

record lab_unlock =
  un_success :: bool
  un_correct :: "bool option"
  un_message :: string

record quiz_unlock =
  qu_correct :: bool
  qu_answerId :: "rat option"
  qu_result :: lab_unlock

text \<open>\<open>Number(answer?.option_id)\<close>\<close>

definition optionId :: "jsval option \<Rightarrow> rat option" where
  "optionId answer = finite_num (js_to_number (js_prop_opt (opt_or answer JUndef) ''option_id''))"

definition evaluateNarrativeQuizUnlock :: "rat \<Rightarrow> string \<Rightarrow> string \<Rightarrow> jsval option \<Rightarrow> quiz_unlock" where
  "evaluateNarrativeQuizUnlock correctOptionId successMessage failureMessage answer =
     (let correct = (optionId answer = Some correctOptionId) in
      \<lparr>qu_correct = correct, qu_answerId = optionId answer,
       qu_result = \<lparr>un_success = correct, un_correct = Some correct,
         un_message = (if correct then successMessage else failureMessage)\<rparr>\<rparr>)"

definition evaluateStoryUnlock :: "story_quiz \<Rightarrow> jsval option \<Rightarrow> quiz_unlock" where
  "evaluateStoryUnlock quiz answer =
     (let correct = (optionId answer = Some (sq_correct_option_id quiz)) in
      \<lparr>qu_correct = correct, qu_answerId = optionId answer,
       qu_result = \<lparr>un_success = correct, un_correct = Some correct,
         un_message = (if correct then sq_success_ending quiz else sq_failure_ending quiz)\<rparr>\<rparr>)"

definition evaluateCaseUnlock :: "story_quiz \<Rightarrow> jsval option \<Rightarrow> quiz_unlock" where
  "evaluateCaseUnlock quiz answer =
     evaluateNarrativeQuizUnlock (sq_correct_option_id quiz) (sq_success_ending quiz) (sq_failure_ending quiz) answer"

definition evaluateDailyLogUnlock :: "story_quiz option \<Rightarrow> jsval option \<Rightarrow> quiz_unlock" where
  "evaluateDailyLogUnlock quiz answer =
     (case quiz of
        None \<Rightarrow> \<lparr>qu_correct = True, qu_answerId = None,
          qu_result = \<lparr>un_success = True, un_correct = Some True,
            un_message = utf8 [230, 151, 165, 229, 191, 151, 229, 183, 178, 233, 152, 133, 232, 175, 187, 229, 185, 182, 232,
              174, 176, 229, 189, 149, 239, 188, 136] @ ''Shadow Mode'' @ utf8 [239, 188, 137, 227, 128, 130]\<rparr>\<rparr>
      | Some q \<Rightarrow>
          evaluateNarrativeQuizUnlock (sq_correct_option_id q) (sq_success_ending q) (sq_failure_ending q) answer)"

definition evaluatePressureUnlock :: "pressure_event_source \<Rightarrow> rat telemetry option \<Rightarrow> lab_unlock" where
  "evaluatePressureUnlock event telemetry =
     (let delta = field_of tl_countdown_to_click_ms telemetry;
          retryCount = opt_or (field_of tl_retry_count telemetry) 0;
          inGoodWindow = opt_sat (\<lambda>d. 0 \<le> d \<and> d \<le> pe_click_window_good_ms event) delta;
          success = (inGoodWindow \<and> retryCount \<le> 4)
      in \<lparr>un_success = success, un_correct = None, un_message =
            (if success
             then utf8 [229, 144, 141, 233, 162, 157, 231, 170, 151, 229, 143, 163, 229, 145, 189, 228, 184, 173, 239, 188, 136]
               @ ''Shadow Mode '' @ utf8 [232, 175, 132, 229, 136, 134, 229, 183, 178, 232, 174, 176, 229, 189, 149, 239, 188, 140,
                 230, 156, 170, 230, 137, 167, 232, 161, 140, 230, 139, 166, 230, 136, 170, 239, 188, 137, 227, 128, 130]
             else utf8 [228, 189, 160, 233, 148, 153, 232, 191, 135, 228, 186, 134, 228, 188, 152, 232, 180, 168, 231, 170, 151,
                 229, 143, 163, 239, 188, 140, 228, 189, 134]
               @ '' Shadow Mode '' @ utf8 [228, 187, 141, 232, 174, 176, 229, 189, 149, 228, 186, 134, 232, 191, 153, 230, 172, 161,
                 229, 176, 157, 232, 175, 149, 227, 128, 130])\<rparr>)"

subsection \<open>Submission\<close>

record lab_submit_input =
  su_session_id :: string
  su_entry_type :: lab_entry_type
  su_entry_id :: string
  su_answer :: "jsval option"
  su_telemetry_summary :: "jsnum telemetry option"

record lab_submit_result =
  sb_session :: lab_session
  sb_unlock_result :: lab_unlock
  sb_shadow_decision :: hub_decision
  sb_human_confidence :: int
  sb_reason_codes :: "string list"
  sb_would_step_up :: bool
  sb_would_block :: bool
  sb_sample_eligible :: bool
  sb_model_layer_breakdown :: model_layer_breakdown
  sb_hub_decision_snapshot :: "(hub_decision \<times> user_mode \<times> string list) option"

text \<open>The quiz of a narrative: what is unlocked, the score, and the telemetry with the answer.\<close>

definition scoreQuizEntry ::
  "quiz_unlock \<Rightarrow> rat telemetry option \<Rightarrow> lab_unlock \<times> shadow_scoring_result \<times> rat telemetry option" where
  "scoreQuizEntry unlock telemetry =
     (let telemetryWithQuiz = map_option (\<lambda>t. t\<lparr>tl_quiz_correct := Some (qu_correct unlock),
            tl_quiz_answer_id := map_option Fin (qu_answerId unlock)\<rparr>) telemetry
      in (qu_result unlock, scoreNarrativeShadow telemetryWithQuiz (qu_correct unlock), telemetryWithQuiz))"

text \<open>
  The branch of the entry's own type: the unlock, the score and \<open>telemetry_latest\<close> (\<open>latest\<close> is its value
  before). The four types are all the schema of an entry allows.
\<close>

definition evaluateEntry ::
  "lab_entry_payload \<Rightarrow> jsval option \<Rightarrow> rat telemetry option \<Rightarrow> rat telemetry option \<Rightarrow>
   lab_unlock \<times> shadow_scoring_result \<times> rat telemetry option" where
  "evaluateEntry payload answer telemetry latest =
     (case payload of
        Story_entry story \<Rightarrow> scoreQuizEntry (evaluateStoryUnlock story answer) telemetry
      | Case_entry entry \<Rightarrow> scoreQuizEntry (evaluateCaseUnlock entry answer) telemetry
      | Daily_log_entry entry \<Rightarrow> scoreQuizEntry (evaluateDailyLogUnlock entry answer) telemetry
      | Pressure_entry event \<Rightarrow> (evaluatePressureUnlock event telemetry, scorePressureShadow event telemetry, latest))"

definition labMetadata :: "session_internal \<Rightarrow> jsval" where
  "labMetadata s = JObj
     [(''scenario_type'', JStr (scenario_name (ls_scenario_type s))), (''scenario_id'', JStr (ls_entry_id s)),
      (''telemetry_schema_version'', JNum (Fin 1)),
      (''telemetry_summary'', case ls_telemetry_latest s of None \<Rightarrow> JNull | Some t \<Rightarrow> telemetry_value t),
      (''shadow_mode'', JBool True), (''content_label'', JStr (entry_type_name (ls_entry_type s)))]"

definition labQuoteRequest :: "session_internal \<Rightarrow> shadow_scoring_result \<Rightarrow> hub_quote_request" where
  "labQuoteRequest s localScore =
     \<lparr>hq_wallet = ls_wallet s, hq_action_type = Ac_task_complete, hq_asset_id = ls_entry_id s,
      hq_context = Some \<lparr>dc_channel = Some ''wanwan_lab'', dc_campaign_id = Some ''lab_mvp_shadow'',
        dc_amount_lamports = None, dc_metadata = Some (labMetadata s)\<rparr>,
      hq_proofs = Some [], hq_risk_signals = Some (ss_risk_signals localScore)\<rparr>"

text \<open>What the continuation of a submission holds while the hub is asked.\<close>

record pending_submit =
  pn_session_id :: string
  pn_unlock :: lab_unlock
  pn_score :: shadow_scoring_result
  pn_request :: hub_quote_request

definition submitBegin :: "lab_host \<Rightarrow> lab_submit_input \<Rightarrow> lab_state \<Rightarrow> lab_state \<times> pending_submit result" where
  "submitBegin h inp st =
     (case getSessionOrThrow st (su_session_id inp) of
        Inl e \<Rightarrow> (st, Inl e)
      | Inr session \<Rightarrow>
        if ls_entry_type session \<noteq> su_entry_type inp \<or> ls_entry_id session \<noteq> su_entry_id inp
        then (st, Inl (Thrown ''entry mismatch with session''))
        else
        (let (c1, payload) = getLabEntryPayload h (ls_entry_type session) (ls_entry_id session) (lb_cache st);
             st1 = st\<lparr>lb_cache := c1\<rparr> in
         case payload of
           Inl e \<Rightarrow> (st1, Inl e)
         | Inr None \<Rightarrow> (st1, Inl (Thrown ''lab entry payload not found''))
         | Inr (Some p) \<Rightarrow>
           (let normalizedTelemetry = map_option (\<lambda>t. normalizeTelemetry t (ls_session_id session)) (su_telemetry_summary inp);
                telemetry = mergeTelemetry (ls_telemetry_latest session) normalizedTelemetry;
                session1 = (case normalizedTelemetry of None \<Rightarrow> session
                  | Some t \<Rightarrow> session\<lparr>si_telemetry_history := si_telemetry_history session @ [t],
                      ls_telemetry_latest := telemetry,
                      ls_telemetry_history_count := length (si_telemetry_history session @ [t])\<rparr>);
                (unlock, localScore, latest) = evaluateEntry p (su_answer inp) telemetry (ls_telemetry_latest session1);
                session2 = session1\<lparr>ls_telemetry_latest := latest\<rparr>
            in (put_session session2 st1, Inr \<lparr>pn_session_id = ls_session_id session2, pn_unlock = unlock,
                  pn_score = localScore, pn_request = labQuoteRequest session2 localScore\<rparr>))))"

record lab_finish_clock =
  lf_updated_at :: int
  lf_record_id :: string
  lf_created_at :: int

definition label_of :: "int \<Rightarrow> label_status" where
  "label_of confidence = (if 80 \<le> confidence then Human_likely else if confidence < 35 then Bot_likely else Label_unknown)"

text \<open>The rest, once the hub has answered (or failed): \<open>session\<close> is the shared object as it is by then.\<close>

definition finishSession ::
  "lab_finish_clock \<Rightarrow> pending_submit \<Rightarrow> hub_quote option \<Rightarrow> session_internal \<Rightarrow> lab_state \<Rightarrow> lab_state \<times> lab_submit_result" where
  "finishSession clock pn hubQuote session st =
     (let localScore = pn_score pn;
          shadowDecision = opt_or (map_option qr_decision hubQuote) (ss_local_decision localScore);
          wouldBlock = (shadowDecision = Block);
          wouldStepUp = (shadowDecision = Step_up);
          recordId = ''shadow-'' @ lf_record_id clock;
          session1 = session\<lparr>ls_challenge_submission_count := ls_challenge_submission_count session + 1,
            ls_updated_at := lf_updated_at clock, si_latest_shadow_record_id := Some recordId\<rparr>;
          shadowRecord = \<lparr>sr_record_id = recordId, sr_session_id = ls_session_id session,
            sr_entry_type = ls_entry_type session, sr_entry_id = ls_entry_id session,
            sr_scenario_type = ls_scenario_type session, sr_decision_shadow = shadowDecision,
            sr_would_block = wouldBlock, sr_would_step_up = wouldStepUp,
            sr_human_confidence = ss_human_confidence localScore,
            sr_model_layer_breakdown = ss_model_layer_breakdown localScore,
            sr_reason_codes = dedup (ss_reason_codes localScore @ opt_or (map_option qr_reason_codes hubQuote) []),
            sr_sample_eligible = ss_sample_eligible localScore,
            sr_label_status = label_of (ss_human_confidence localScore),
            sr_telemetry_summary = ls_telemetry_latest session, sr_created_at = lf_created_at clock\<rparr>
      in ((put_session session1 st)\<lparr>lb_shadow_records := lb_shadow_records st @ [shadowRecord]\<rparr>,
          \<lparr>sb_session = publicSessionShape session1, sb_unlock_result = pn_unlock pn,
           sb_shadow_decision = shadowDecision, sb_human_confidence = ss_human_confidence localScore,
           sb_reason_codes = sr_reason_codes shadowRecord, sb_would_step_up = wouldStepUp, sb_would_block = wouldBlock,
           sb_sample_eligible = ss_sample_eligible localScore,
           sb_model_layer_breakdown = ss_model_layer_breakdown localScore,
           sb_hub_decision_snapshot = map_option (\<lambda>q. (qr_decision q, qr_tier q, qr_reason_codes q)) hubQuote\<rparr>))"

text \<open>No operation removes a session, so the one the continuation holds is the one in the map.\<close>

definition submitFinish ::
  "lab_finish_clock \<Rightarrow> pending_submit \<Rightarrow> hub_quote option \<Rightarrow> lab_state \<Rightarrow> lab_state \<times> lab_submit_result result" where
  "submitFinish clock pn hubQuote st =
     (case getSessionOrThrow st (pn_session_id pn) of
        Inl e \<Rightarrow> (st, Inl e)
      | Inr session \<Rightarrow> map_prod id Inr (finishSession clock pn hubQuote session st))"

definition ok_option :: "'a result \<Rightarrow> 'a option" where
  "ok_option r = (case r of Inl _ \<Rightarrow> None | Inr x \<Rightarrow> Some x)"

definition submitLabChallenge ::
  "lab_host \<Rightarrow> hub_host \<Rightarrow> ('k, 'v) oracle_services \<Rightarrow> quote_clock \<Rightarrow> lab_finish_clock \<Rightarrow> lab_submit_input \<Rightarrow>
   lab_state \<Rightarrow> ('k, 'v) hub_services \<Rightarrow> lab_state \<times> ('k, 'v) hub_services \<times> lab_submit_result result" where
  "submitLabChallenge h hh sv qclock fclock inp st hub =
     (case submitBegin h inp st of
        (st1, Inl e) \<Rightarrow> (st1, hub, Inl e)
      | (st1, Inr pn) \<Rightarrow>
        (let (hub', quote) = quoteHubDecision hh sv qclock (pn_request pn) hub;
             (st2, result) = submitFinish fclock pn (ok_option quote) st1
         in (st2, hub', result)))"

definition listShadowRecords :: "lab_state \<Rightarrow> lab_shadow_record list" where
  "listShadowRecords st = lb_shadow_records st"

subsection \<open>Reachable states\<close>

text \<open>
  States with the submissions that wait for the hub: requests in any order, hosts and hubs that change
  between them, identifiers of sessions that are fresh.
\<close>

inductive lab_reachable :: "lab_state \<Rightarrow> pending_submit list \<Rightarrow> bool" where
  lab_init: "lab_reachable empty_lab []"
| lab_start: "lab_reachable st ps \<Longrightarrow> map_get (lb_sessions st) (''lab-'' @ uuid) = None \<Longrightarrow>
    lab_reachable (fst (startLabSession h ts uuid pseudo inp st)) ps"
| lab_ingest: "lab_reachable st ps \<Longrightarrow> lab_reachable (fst (ingestLabTelemetry now sid t st)) ps"
| lab_begin: "lab_reachable st ps \<Longrightarrow> submitBegin h inp st = (st', Inr pn) \<Longrightarrow> lab_reachable st' (pn # ps)"
| lab_refused: "lab_reachable st ps \<Longrightarrow> submitBegin h inp st = (st', Inl e) \<Longrightarrow> lab_reachable st' ps"
| lab_finish: "lab_reachable st ps \<Longrightarrow> pn \<in> set ps \<Longrightarrow>
    lab_reachable (fst (submitFinish clock pn q st)) (remove1 pn ps)"

text \<open>What normalization guarantees of the measured numbers.\<close>

definition normal_telemetry :: "rat telemetry \<Rightarrow> bool" where
  "normal_telemetry t \<longleftrightarrow>
     list_all (pred_option (\<lambda>x. 0 \<le> x)) [tl_reading_time_ms t, tl_scroll_entropy t, tl_input_latency_ms t, tl_queue_wait_ms t]
     \<and> list_all (pred_option (\<lambda>x. 0 \<le> x \<and> x = of_int \<lfloor>x\<rfloor>)) [tl_focus_blur_count t, tl_retry_count t]
     \<and> pred_option (\<lambda>x. 0 \<le> x \<and> x \<le> 1) (tl_progress_ratio t)"

definition records_of :: "string \<Rightarrow> lab_shadow_record list \<Rightarrow> lab_shadow_record list" where
  "records_of k rs = filter (\<lambda>r. sr_session_id r = k) rs"

definition session_ok :: "lab_shadow_record list \<Rightarrow> string \<Rightarrow> session_internal \<Rightarrow> bool" where
  "session_ok rs k s \<longleftrightarrow>
     ls_session_id s = k \<and> ls_scenario_type s = toScenarioType (ls_entry_type s)
     \<and> ls_telemetry_history_count s = length (si_telemetry_history s)
     \<and> (ls_telemetry_latest s = None \<longleftrightarrow> si_telemetry_history s = [])
     \<and> (\<forall>t \<in> set (si_telemetry_history s) \<union> set_option (ls_telemetry_latest s). normal_telemetry t \<and> tl_session_id t = k)
     \<and> ls_challenge_submission_count s = length (records_of k rs)
     \<and> si_latest_shadow_record_id s =
         (if records_of k rs = [] then None else Some (sr_record_id (last (records_of k rs))))"

definition lab_inv :: "lab_state \<Rightarrow> pending_submit list \<Rightarrow> bool" where
  "lab_inv st ps \<longleftrightarrow>
     (\<forall>k s. map_get (lb_sessions st) k = Some s \<longrightarrow> session_ok (lb_shadow_records st) k s)
     \<and> sr_session_id ` set (lb_shadow_records st) \<subseteq> dom (map_get (lb_sessions st))
     \<and> pn_session_id ` set ps \<subseteq> dom (map_get (lb_sessions st))"

lemma normalize_normal: "normal_telemetry (normalizeTelemetry t sid)" "tl_session_id (normalizeTelemetry t sid) = sid"
  by (auto simp: normal_telemetry_def normalizeTelemetry_def nonNegative_def nonNegativeCount_def option.pred_set max_def)

lemma over_pred [intro]: "pred_option P a \<Longrightarrow> pred_option P b \<Longrightarrow> pred_option P (over a b)"
  by (simp add: over_def)

lemma merge_normal:
  assumes "pred_option normal_telemetry a" "pred_option normal_telemetry b"
  shows "pred_option normal_telemetry (mergeTelemetry a b)"
proof (cases "a = None \<or> b = None")
  case True
  then show ?thesis using assms by (auto simp: mergeTelemetry_def split: option.splits)
next
  case False
  then obtain x y where xy: "a = Some x" "b = Some y" by auto
  show ?thesis
    using assms unfolding xy mergeTelemetry_def
    by (simp add: normal_telemetry_def over_pred)
qed

lemma merge_session:
  assumes "pred_option (\<lambda>t. tl_session_id t = k) a" "pred_option (\<lambda>t. tl_session_id t = k) b"
  shows "pred_option (\<lambda>t. tl_session_id t = k) (mergeTelemetry a b)"
  using assms by (auto simp: mergeTelemetry_def split: option.splits)

lemma merge_None_iff: "mergeTelemetry a b = None \<longleftrightarrow> a = None \<and> b = None"
  by (auto simp: mergeTelemetry_def split: option.splits)

lemma put_session_simps [simp]:
  "lb_sessions (put_session s st) = map_set (ls_session_id s) s (lb_sessions st)"
  "lb_shadow_records (put_session s st) = lb_shadow_records st"
  by (simp_all add: put_session_def)

text \<open>A session that is changed and stays in order keeps the invariant, if no record is added.\<close>

lemma lab_inv_put:
  assumes "lab_inv st ps" "session_ok (lb_shadow_records st) (ls_session_id s) s"
    "lb_sessions st' = lb_sessions st" "lb_shadow_records st' = lb_shadow_records st"
    "pn_session_id ` set ps' \<subseteq> insert (ls_session_id s) (pn_session_id ` set ps)"
  shows "lab_inv (put_session s st') ps'"
proof -
  let ?m = "map_get (lb_sessions st)"
  have inv: "\<forall>k s. ?m k = Some s \<longrightarrow> session_ok (lb_shadow_records st) k s"
    "sr_session_id ` set (lb_shadow_records st) \<subseteq> dom ?m" "pn_session_id ` set ps \<subseteq> dom ?m"
    using assms(1) by (simp_all add: lab_inv_def)
  have "\<forall>k s'. (?m(ls_session_id s \<mapsto> s)) k = Some s' \<longrightarrow> session_ok (lb_shadow_records st) k s'"
    using inv(1) assms(2) by simp
  moreover have "sr_session_id ` set (lb_shadow_records st) \<subseteq> dom (?m(ls_session_id s \<mapsto> s))"
    using inv(2) by auto
  moreover have "pn_session_id ` set ps' \<subseteq> dom (?m(ls_session_id s \<mapsto> s))"
    using order_trans[OF assms(5) insert_mono[OF inv(3)]] by simp
  ultimately show ?thesis by (simp add: lab_inv_def assms(3,4))
qed

lemma start_cases:
  obtains (refused) c e where "startLabSession h ts uuid pseudo inp st = (st\<lparr>lb_cache := c\<rparr>, Inl e)"
    | (started) c s p where "startLabSession h ts uuid pseudo inp st = (put_session s (st\<lparr>lb_cache := c\<rparr>), Inr (publicSessionShape s, p))"
      "ls_session_id s = ''lab-'' @ uuid" "ls_scenario_type s = toScenarioType (ls_entry_type s)" "ls_telemetry_latest s = None"
      "ls_telemetry_history_count s = 0" "si_telemetry_history s = []" "ls_challenge_submission_count s = 0"
      "si_latest_shadow_record_id s = None"
proof -
  obtain c1 m where m: "findLabEntryById h (st_entry_type inp) (st_entry_id inp) (lb_cache st) = (c1, m)" by fastforce
  obtain c2 p where p: "getLabEntryPayload h (st_entry_type inp) (st_entry_id inp) c1 = (c2, p)" by fastforce
  show thesis
  proof (cases m)
    case (Inl e)
    then show thesis using m by (intro refused[of c1 e]) (simp add: startLabSession_def)
  next
    case (Inr entry)
    show thesis
    proof (cases entry)
      case None
      then show thesis using m Inr by (intro refused[of c1]) (simp add: startLabSession_def)
    next
      case (Some en)
      show thesis
      proof (cases p)
        case (Inl e)
        then show thesis using m p Inr Some by (intro refused[of c2 e]) (simp add: startLabSession_def)
      next
        case (Inr payload)
        show thesis
        proof (cases payload)
          case None
          then show thesis using m p Inr Some \<open>m = Inr entry\<close> by (intro refused[of c2]) (simp add: startLabSession_def)
        next
          case (Some pl)
          then show thesis
            using m p Inr \<open>entry = Some en\<close> \<open>m = Inr entry\<close>
            by (intro started[of _ c2 pl]) (auto simp: startLabSession_def Let_def)
        qed
      qed
    qed
  qed
qed

lemma lab_inv_cache: "lab_inv (st\<lparr>lb_cache := c\<rparr>) ps = lab_inv st ps"
  by (simp add: lab_inv_def)

lemma start_inv:
  assumes "lab_inv st ps" "map_get (lb_sessions st) (''lab-'' @ uuid) = None"
  shows "lab_inv (fst (startLabSession h ts uuid pseudo inp st)) ps"
proof (cases rule: start_cases[of h ts uuid pseudo inp st])
  case (refused c e)
  then show ?thesis using assms(1) by (simp add: lab_inv_cache)
next
  case (started c s p)
  have "records_of (''lab-'' @ uuid) (lb_shadow_records st) = []"
    using assms by (auto simp: lab_inv_def records_of_def filter_empty_conv)
  then have "session_ok (lb_shadow_records st) (ls_session_id s) s"
    using started by (simp add: session_ok_def)
  then have "lab_inv (put_session s (st\<lparr>lb_cache := c\<rparr>)) ps"
    by (rule lab_inv_put[OF assms(1)]) auto
  then show ?thesis by (simp add: started(1))
qed

lemma ingest_inv:
  assumes "lab_inv st ps" shows "lab_inv (fst (ingestLabTelemetry now sid t st)) ps"
proof (cases "map_get (lb_sessions st) sid")
  case None
  then show ?thesis using assms by (simp add: ingestLabTelemetry_def getSessionOrThrow_def)
next
  case (Some s)
  then have "session_ok (lb_shadow_records st) sid s" using assms by (simp add: lab_inv_def)
  then show ?thesis
    using assms Some normalize_normal[of t "ls_session_id s"]
    by (auto simp: ingestLabTelemetry_def getSessionOrThrow_def Let_def session_ok_def intro!: lab_inv_put)
qed

text \<open>A submission that is not refused, with the session before and after and the entry it read.\<close>

abbreviation normalized :: "lab_submit_input \<Rightarrow> session_internal \<Rightarrow> rat telemetry option" where
  "normalized inp s \<equiv> map_option (\<lambda>t. normalizeTelemetry t (ls_session_id s)) (su_telemetry_summary inp)"

lemma begin_cases:
  assumes "submitBegin h inp st = (st', r)"
  obtains (refused) c e where "r = Inl e" "st' = st\<lparr>lb_cache := c\<rparr>"
    | (begun) s p c history unlock score latest pn where "r = Inr pn" "map_get (lb_sessions st) (su_session_id inp) = Some s"
      "snd (getLabEntryPayload h (ls_entry_type s) (ls_entry_id s) (lb_cache st)) = Inr (Some p)"
      "evaluateEntry p (su_answer inp) (mergeTelemetry (ls_telemetry_latest s) (normalized inp s))
         (mergeTelemetry (ls_telemetry_latest s) (normalized inp s)) = (unlock, score, latest)"
      "history = si_telemetry_history s @ (case normalized inp s of None \<Rightarrow> [] | Some t \<Rightarrow> [t])"
      "st' = put_session (s\<lparr>si_telemetry_history := history,
         ls_telemetry_history_count := (case normalized inp s of None \<Rightarrow> ls_telemetry_history_count s | Some _ \<Rightarrow> length history),
         ls_telemetry_latest := latest\<rparr>)
         (st\<lparr>lb_cache := c\<rparr>)"
      "pn_session_id pn = ls_session_id s" "pn_unlock pn = unlock" "pn_score pn = score"
      "pn_request pn = labQuoteRequest (s\<lparr>ls_telemetry_latest := latest\<rparr>) score"
proof (cases "map_get (lb_sessions st) (su_session_id inp)")
  case None
  then show thesis using assms by (intro refused[of _ "lb_cache st"]) (auto simp: submitBegin_def getSessionOrThrow_def)
next
  case (Some s)
  show thesis
  proof (cases "ls_entry_type s \<noteq> su_entry_type inp \<or> ls_entry_id s \<noteq> su_entry_id inp")
    case True
    then show thesis
      using assms Some by (intro refused[of _ "lb_cache st"]) (auto simp: submitBegin_def getSessionOrThrow_def)
  next
    case match: False
    obtain c pl where p: "getLabEntryPayload h (ls_entry_type s) (ls_entry_id s) (lb_cache st) = (c, pl)" by fastforce
    let ?t = "mergeTelemetry (ls_telemetry_latest s) (normalized inp s)"
    have t: "normalized inp s = None \<Longrightarrow> ?t = ls_telemetry_latest s" by (simp add: mergeTelemetry_def split: option.split)
    consider e where "pl = Inl e" | "pl = Inr None" | q where "pl = Inr (Some q)"
      by (metis option.exhaust sum.exhaust)
    then show thesis
    proof cases
      case 3
      obtain u sc l where ev: "evaluateEntry q (su_answer inp) ?t ?t = (u, sc, l)" by (cases "evaluateEntry q (su_answer inp) ?t ?t")
      let ?s2 = "s\<lparr>si_telemetry_history := si_telemetry_history s @ (case normalized inp s of None \<Rightarrow> [] | Some t \<Rightarrow> [t]),
          ls_telemetry_history_count := (case normalized inp s of None \<Rightarrow> ls_telemetry_history_count s
            | Some _ \<Rightarrow> length (si_telemetry_history s @ (case normalized inp s of None \<Rightarrow> [] | Some t \<Rightarrow> [t]))),
          ls_telemetry_latest := l\<rparr>"
      let ?pn = "\<lparr>pn_session_id = ls_session_id s, pn_unlock = u, pn_score = sc,
          pn_request = labQuoteRequest (s\<lparr>ls_telemetry_latest := l\<rparr>) sc\<rparr>"
      have eq: "submitBegin h inp st = (put_session ?s2 (st\<lparr>lb_cache := c\<rparr>), Inr ?pn)"
      proof (cases "normalized inp s")
        case None
        then have "su_telemetry_summary inp = None" by simp
        then show ?thesis
          using Some match p 3 ev t by (simp add: submitBegin_def getSessionOrThrow_def Let_def)
      next
        case (Some x)
        then show ?thesis
          using \<open>map_get (lb_sessions st) (su_session_id inp) = Some s\<close> match p 3 ev
          by (simp add: submitBegin_def getSessionOrThrow_def labQuoteRequest_def labMetadata_def del: map_option_eq_Some)
      qed
      have r: "r = Inr ?pn" and st': "st' = put_session ?s2 (st\<lparr>lb_cache := c\<rparr>)"
        using eq unfolding assms by (simp_all only: prod.inject)
      show thesis by (rule begun[OF r Some _ ev refl st']) (simp_all add: p 3)
    qed (use assms Some match p in \<open>intro refused[of _ c]; auto simp: submitBegin_def getSessionOrThrow_def\<close>)+
  qed
qed

lemma evaluate_latest:
  assumes "evaluateEntry p answer telemetry telemetry = (unlock, score, latest)"
  shows "latest = None \<longleftrightarrow> telemetry = None"
    "pred_option normal_telemetry telemetry \<Longrightarrow> pred_option normal_telemetry latest"
    "pred_option (\<lambda>t. tl_session_id t = k) telemetry \<Longrightarrow> pred_option (\<lambda>t. tl_session_id t = k) latest"
  using assms
  by (cases p; cases telemetry; simp add: evaluateEntry_def scoreQuizEntry_def Let_def; fastforce simp: normal_telemetry_def)+

lemma session_ok_telemetry:
  assumes "session_ok rs k s" "latest = None \<longleftrightarrow> history = []" "n = length history"
    "\<forall>t \<in> set history \<union> set_option latest. normal_telemetry t \<and> tl_session_id t = k"
  shows "session_ok rs k (s\<lparr>si_telemetry_history := history, ls_telemetry_history_count := n, ls_telemetry_latest := latest\<rparr>)"
  using assms by (simp add: session_ok_def)

lemma begin_inv:
  assumes "lab_inv st ps" "submitBegin h inp st = (st', r)"
  shows "lab_inv st' (case r of Inl _ \<Rightarrow> ps | Inr pn \<Rightarrow> pn # ps)"
  using assms(2)
proof (cases rule: begin_cases)
  case (refused c e)
  then show ?thesis using assms(1) by (simp add: lab_inv_cache)
next
  case (begun s p c history unlock score latest pn)
  let ?k = "su_session_id inp"
  have ok: "session_ok (lb_shadow_records st) ?k s" using assms(1) begun(2) by (simp add: lab_inv_def)
  then have k: "ls_session_id s = ?k" by (simp add: session_ok_def)
  let ?t = "mergeTelemetry (ls_telemetry_latest s) (normalized inp s)"
  have n: "pred_option (\<lambda>t. normal_telemetry t \<and> tl_session_id t = ?k) (normalized inp s)"
    by (simp add: normalize_normal k option.pred_map option.pred_True comp_def)
  have l: "pred_option (\<lambda>t. normal_telemetry t \<and> tl_session_id t = ?k) (ls_telemetry_latest s)"
    using ok by (auto simp: session_ok_def option.pred_set)
  have "pred_option normal_telemetry ?t" "pred_option (\<lambda>t. tl_session_id t = ?k) ?t"
    using n l by (auto intro!: merge_normal merge_session elim: option.pred_mono_strong)
  then have lat: "pred_option normal_telemetry latest" "pred_option (\<lambda>t. tl_session_id t = ?k) latest"
    using evaluate_latest[OF begun(4)] by blast+
  have "latest = None \<longleftrightarrow> history = []"
    using evaluate_latest(1)[OF begun(4)] ok by (auto simp: begun(5) merge_None_iff session_ok_def split: option.splits)
  moreover have "\<forall>t \<in> set history \<union> set_option latest. normal_telemetry t \<and> tl_session_id t = ?k"
    using lat ok n by (auto simp: begun(5) session_ok_def option.pred_set k normalize_normal split: option.splits)
  moreover have "(case normalized inp s of None \<Rightarrow> ls_telemetry_history_count s | Some _ \<Rightarrow> length history) = length history"
    using ok by (auto simp: begun(5) session_ok_def split: option.split)
  ultimately have "session_ok (lb_shadow_records st) ?k (s\<lparr>si_telemetry_history := history,
      ls_telemetry_history_count := (case normalized inp s of None \<Rightarrow> ls_telemetry_history_count s | Some _ \<Rightarrow> length history),
      ls_telemetry_latest := latest\<rparr>)"
    by (intro session_ok_telemetry[OF ok]) auto
  then show ?thesis
    unfolding begun(1,6) by (intro lab_inv_put[OF assms(1)]) (auto simp: k begun(7))
qed

lemma records_of_snoc: "records_of k (rs @ [r]) = records_of k rs @ (if sr_session_id r = k then [r] else [])"
  by (simp add: records_of_def)

lemma finish_inv:
  assumes "lab_inv st ps" "pn \<in> set ps"
  shows "lab_inv (fst (submitFinish clock pn q st)) (remove1 pn ps)"
proof -
  let ?k = "pn_session_id pn"
  obtain s where s: "map_get (lb_sessions st) ?k = Some s" using assms by (auto simp: lab_inv_def)
  then have ok: "session_ok (lb_shadow_records st) ?k s" using assms(1) by (simp add: lab_inv_def)
  then have k: "ls_session_id s = ?k" by (simp add: session_ok_def)
  define st' where "st' = fst (submitFinish clock pn q st)"
  obtain r where rec: "lb_shadow_records st' = lb_shadow_records st @ [r]" "sr_session_id r = ?k"
      "sr_record_id r = ''shadow-'' @ lf_record_id clock"
    and m: "map_get (lb_sessions st') = (map_get (lb_sessions st))(?k \<mapsto> s\<lparr>ls_challenge_submission_count :=
       ls_challenge_submission_count s + 1, ls_updated_at := lf_updated_at clock,
       si_latest_shadow_record_id := Some (sr_record_id r)\<rparr>)"
    using s k by (auto simp: st'_def submitFinish_def getSessionOrThrow_def finishSession_def Let_def)
  have "session_ok (lb_shadow_records st') j s'" if "map_get (lb_sessions st') j = Some s'" for j s'
  proof (cases "j = ?k")
    case True
    then show ?thesis using that ok by (auto simp: m rec session_ok_def records_of_snoc)
  next
    case False
    then have "session_ok (lb_shadow_records st) j s'" using that assms(1) by (simp add: m lab_inv_def)
    then show ?thesis using False rec(2) by (simp add: session_ok_def rec(1) records_of_snoc)
  qed
  moreover have "sr_session_id ` set (lb_shadow_records st') \<subseteq> dom (map_get (lb_sessions st'))"
    using assms(1) rec by (auto simp: lab_inv_def m)
  moreover have "pn_session_id ` set (remove1 pn ps) \<subseteq> dom (map_get (lb_sessions st'))"
  proof -
    have "pn_session_id ` set (remove1 pn ps) \<subseteq> pn_session_id ` set ps" by (intro image_mono set_remove1_subset)
    also have "\<dots> \<subseteq> dom (map_get (lb_sessions st))" using assms(1) by (simp add: lab_inv_def)
    finally show ?thesis unfolding m by (simp add: subset_insertI2)
  qed
  ultimately show ?thesis by (simp add: lab_inv_def st'_def)
qed

lemma reachable_inv: "lab_reachable st ps \<Longrightarrow> lab_inv st ps"
proof (induction rule: lab_reachable.induct)
  case lab_init
  then show ?case by (simp add: lab_inv_def empty_lab_def)
next
  case (lab_begin st ps h inp st' pn)
  then show ?case using begin_inv[of st ps h inp st' "Inr pn"] by simp
next
  case (lab_refused st ps h inp st' e)
  then show ?case using begin_inv[of st ps h inp st' "Inl e"] by simp
qed (simp_all add: start_inv ingest_inv finish_inv)

subsection \<open>Properties\<close>

text \<open>
  C11. In every reachable state, whatever submissions are in flight, a session counts its telemetry and its
  shadow records right: the count of submissions is the number of its records, the latest record is the
  last of them, the scenario is that of the entry, and every summary it keeps is normalized and its own.
\<close>

theorem lab_sessions_consistent:
  assumes "lab_reachable st ps" "map_get (lb_sessions st) k = Some s"
  shows "ls_session_id s = k \<and> ls_scenario_type s = toScenarioType (ls_entry_type s)
     \<and> ls_telemetry_history_count (publicSessionShape s) = ls_telemetry_history_count s
     \<and> ls_telemetry_history_count s = length (si_telemetry_history s)
     \<and> ls_challenge_submission_count s = length (records_of k (listShadowRecords st))
     \<and> si_latest_shadow_record_id s =
         (if records_of k (listShadowRecords st) = [] then None else Some (sr_record_id (last (records_of k (listShadowRecords st)))))
     \<and> (\<forall>t \<in> set (si_telemetry_history s) \<union> set_option (ls_telemetry_latest s). normal_telemetry t \<and> tl_session_id t = k)"
  using reachable_inv[OF assms(1)] assms(2)
  by (simp add: lab_inv_def session_ok_def listShadowRecords_def publicSessionShape_def)

definition sample_lab_host :: lab_host where
  "sample_lab_host = \<lparr>lh_cwd = ''/app'', lh_mtime = (\<lambda>_. Inr 1),
     lh_manifest = (\<lambda>_. Inr [\<lparr>me_entry_type = Story, me_id = ''story-1'', me_slug = ''rogue-ep-0001''\<rparr>,
       \<lparr>me_entry_type = Pressure_event, me_id = ''evt-1'', me_slug = ''evt-1''\<rparr>]),
     lh_payload = (\<lambda>path. if path = ''/app/content-lab/generated/stories/rogue/ep-0001.json''
       then Inr (Story_entry \<lparr>sq_correct_option_id = 2, sq_success_ending = ''yes'', sq_failure_ending = ''no''\<rparr>)
       else Inr (Pressure_entry \<lparr>pe_click_window_good_ms = 250\<rparr>))\<rparr>"

definition sample_start :: "lab_entry_type \<Rightarrow> string \<Rightarrow> start_lab_input" where
  "sample_start t i = \<lparr>st_entry_type = t, st_entry_id = i, st_consent_mode = Diegetic_opt_in, st_wallet = Some ''W1''\<rparr>"

definition sample_lab :: lab_state where
  "sample_lab = fst (startLabSession sample_lab_host 1000 ''2'' ''P'' (sample_start Pressure_event ''evt-1'')
     (fst (startLabSession sample_lab_host 1000 ''1'' ''P'' (sample_start Story ''story-1'') empty_lab)))"

definition sample_submit :: "jsval option \<Rightarrow> jsnum option \<Rightarrow> lab_submit_input" where
  "sample_submit answer reading = \<lparr>su_session_id = ''lab-1'', su_entry_type = Story, su_entry_id = ''story-1'',
     su_answer = answer, su_telemetry_summary = Some (sample_telemetry Narrative reading None)\<rparr>"

definition sample_answer :: "jsval option" where
  "sample_answer = Some (JObj [(''option_id'', JStr ''2'')])"

definition sample_finish :: lab_finish_clock where
  "sample_finish = \<lparr>lf_updated_at = 2000, lf_record_id = ''1'', lf_created_at = 2001\<rparr>"

lemma sample_lab_reachable: "lab_reachable sample_lab []"
  unfolding sample_lab_def by (intro lab_start lab_init) code_simp+

text \<open>
  The laboratory only watches: the same submission against any two hubs, whatever their oracles, stores,
  caches and clocks, is refused with the same error or gives the visitor the same session, unlock,
  confidence and eligibility, also when a hub fails.
\<close>

theorem lab_result_independent_of_hub:
  "case (snd (snd (submitLabChallenge h hh sv qc fc inp st hub)), snd (snd (submitLabChallenge h hh' sv' qc' fc inp st hub'))) of
     (Inr r, Inr r') \<Rightarrow> sb_session r = sb_session r' \<and> sb_unlock_result r = sb_unlock_result r'
       \<and> sb_human_confidence r = sb_human_confidence r' \<and> sb_sample_eligible r = sb_sample_eligible r'
       \<and> sb_model_layer_breakdown r = sb_model_layer_breakdown r'
   | (Inl e, Inl e') \<Rightarrow> e = e'
   | _ \<Rightarrow> False"
proof (cases "submitBegin h inp st")
  case (Pair st1 r)
  show ?thesis
  proof (cases r)
    case (Inl e)
    then show ?thesis using Pair by (simp add: submitLabChallenge_def)
  next
    case (Inr pn)
    from Pair obtain s where "map_get (lb_sessions st1) (pn_session_id pn) = Some s"
      by (cases rule: begin_cases) (auto simp: Inr)
    then show ?thesis
      using Pair Inr by (simp add: submitLabChallenge_def submitFinish_def getSessionOrThrow_def finishSession_def Let_def
          split: prod.split)
  qed
qed

text \<open>A normalized summary as a client would send it.\<close>

definition raw_telemetry :: "rat telemetry \<Rightarrow> jsnum telemetry" where
  "raw_telemetry t =
     \<lparr>tl_scenario_type = tl_scenario_type t, tl_session_id = tl_session_id t, tl_story_id = tl_story_id t,
      tl_case_id = tl_case_id t, tl_event_id = tl_event_id t, tl_reading_time_ms = map_option Fin (tl_reading_time_ms t),
      tl_progress_ratio = map_option Fin (tl_progress_ratio t), tl_scroll_entropy = map_option Fin (tl_scroll_entropy t),
      tl_focus_blur_count = map_option Fin (tl_focus_blur_count t), tl_input_latency_ms = map_option Fin (tl_input_latency_ms t),
      tl_retry_count = map_option Fin (tl_retry_count t), tl_queue_wait_ms = map_option Fin (tl_queue_wait_ms t),
      tl_countdown_to_click_ms = map_option Fin (tl_countdown_to_click_ms t), tl_quiz_correct = tl_quiz_correct t,
      tl_quiz_answer_id = tl_quiz_answer_id t, tl_consent_mode = tl_consent_mode t, tl_client_ts = tl_client_ts t,
      tl_telemetry_hash = tl_telemetry_hash t\<rparr>"

text \<open>
  Normalization: whatever numbers a client sends, what is kept is finite, non-negative, whole where it
  is a count, and a ratio between 0 and 1; and a summary that is so already is kept as it is.
\<close>

theorem normalization_is_idempotent:
  "normal_telemetry (normalizeTelemetry t sid)
   \<and> normalizeTelemetry (raw_telemetry (normalizeTelemetry t sid)) sid = normalizeTelemetry t sid"
proof -
  have fin: "Option.bind (map_option Fin w) finite_num = w" for w :: "rat option"
    by (cases w) simp_all
  have "nonNegative (map_option Fin (nonNegative v)) = nonNegative v"
    "nonNegativeCount (map_option Fin (nonNegativeCount v)) = nonNegativeCount v" for v
    by (cases "Option.bind v finite_num"; simp add: nonNegative_def nonNegativeCount_def max_def)+
  moreover have "map_option (\<lambda>x. clamp x 0 1) (map_option (\<lambda>x. clamp x 0 1) w) = map_option (\<lambda>x. clamp x 0 1) w"
    for w :: "rat option"
    by (cases w) simp_all
  ultimately have "normalizeTelemetry (raw_telemetry (normalizeTelemetry t sid)) sid = normalizeTelemetry t sid"
    by (simp only: raw_telemetry_def normalizeTelemetry_def telemetry.simps fin simp_thms)
  with normalize_normal(1) show ?thesis by (rule conjI)
qed

theorem lab_sessions_consistent_witness:
  "\<exists>s. map_get (lb_sessions sample_lab) ''lab-1'' = Some s \<and> ls_scenario_type s = Narrative
     \<and> ls_challenge_submission_count s = length (records_of ''lab-1'' (listShadowRecords sample_lab))"
proof -
  have "map_option ls_entry_type (map_get (lb_sessions sample_lab) ''lab-1'') = Some Story" by code_simp
  then obtain s where s: "map_get (lb_sessions sample_lab) ''lab-1'' = Some s" "ls_entry_type s = Story" by auto
  then show ?thesis
    using lab_sessions_consistent[OF sample_lab_reachable s(1)] by (simp add: toScenarioType_def)
qed

end
