(* ===== verification/Lab_Quote.thy ===== *)
theory Lab_Quote
  imports Lab_Session
begin

section \<open>What the hub answers the laboratory\<close>

text \<open>
  The composition of services/behavior-lab-engine/src/session_store.ts with the hub's decisions and the
  oracle: a submission asks the hub for a quote of the action \<open>task_complete\<close> without proofs, so the oracle is
  asked as for a guest. The lemmas show what can come of it: an answer always, and a refusal in one case.
\<close>

lemma lab_request:
  "hq_action_type (labQuoteRequest s score) = Ac_task_complete" "hasProofs (labQuoteRequest s score) = False"
  "quoteMode (labQuoteRequest s score) rep = Guest" "hq_proofs (labQuoteRequest s score) = Some []"
  "hq_risk_signals (labQuoteRequest s score) = Some (ss_risk_signals score)"
  "Option.bind (hq_context (labQuoteRequest s score)) dc_amount_lamports = None"
  "Option.bind (hq_context (labQuoteRequest s score)) dc_metadata = Some (labMetadata s)"
  by (simp_all add: labQuoteRequest_def hasProofs_def quoteMode_def determineMode_def actionNeedsStepUp_def)

lemma guest_result:
  assumes "handleShieldScoreRequest sv r st body = (st', res)"
    and "parse_mode (js_nullish (js_prop_opt body ''mode'') (JStr ''verified'')) = Some Guest"
  shows "sr_status res = 400 \<or> sr_status res = 500 \<or> sr_status res = 200 \<and> (\<exists>i. sr_body res = Issued i)"
proof -
  have sign: "signScore sv st Bo Guest w d p bs u = (st', Inr res) \<Longrightarrow> sr_status res = 200 \<and> (\<exists>i. sr_body res = Issued i)"
    for st Bo w d p bs u st' res
    by (auto simp: signScore_def Let_def split: prod.splits sum.splits)
  have issue: "issueScore sv r st body Guest w u a = (st', Inr res) \<Longrightarrow> sr_status res = 200 \<and> (\<exists>i. sr_body res = Issued i)"
    for st w u a st' res
    by (auto simp: issueScore_def Let_def proof_reused_def dest: sign split: sum.splits)
  show ?thesis
    using assms
    by (auto simp: handleShieldScoreRequest_def shieldScoreBody_def fail_def dest: issue split: prod.splits sum.splits if_splits)
qed

lemma guest_issued_score:
  assumes "handleShieldScoreRequest sv r st (shieldBody inp Guest base) = (st', res)" "sr_body res = Issued i"
    and "hq_proofs inp = Some []"
  shows "25 \<le> pv_dignity_score (is_payload i)" "\<exists>n. pv_initial_price (is_payload i) = show_int n"
proof -
  from assms(1,2) obtain mode base58 user v t where
      "parse_mode (js_nullish (js_prop_opt (shieldBody inp Guest base) ''mode'') (JStr ''verified'')) = Some mode"
    and "issue_facts sv r (st\<lparr>verify_state := v\<rparr>) (shieldBody inp Guest base) mode base58 user
      (js_nullish (js_prop_opt (shieldBody inp Guest base) ''reclaim_attestations'') (JArr [])) st' i t"
    by (rule handle_Issued)
  then have f: "issue_facts sv r (st\<lparr>verify_state := v\<rparr>) (shieldBody inp Guest base) Guest base58 user (JArr []) st' i t"
    using assms(3) by (simp add: js_nullish_def parse_mode_def)
  have "is_payload i = viewPayload (shieldBody inp Guest base) base58 (it_payload t)"
    using f by (simp add: issue_facts_def Let_def)
  moreover have "computeDignityScoreForMode [] Guest = Inr (it_dignity t)"
    using issue_facts_score[OF f] by simp
  then have "25 \<le> totalScore (it_dignity t)" using guest_total by fastforce
  ultimately show "25 \<le> pv_dignity_score (is_payload i)" "\<exists>n. pv_initial_price (is_payload i) = show_int n"
    using buildPayload_fields[OF issue_facts_payload[OF f]] by (auto simp: viewPayload_def)
qed

lemma lab_fresh_quote:
  assumes "freshQuote sv clock (labQuoteRequest s score) rep orc = (orc', r)"
  shows "\<exists>q. r = Inr q \<and> qr_tier q = Guest
     \<and> (qr_decision q = Block \<longleftrightarrow> as_decision_bias (scenarioOf (labQuoteRequest s score)) = Bias_block)"
proof -
  let ?inp = "labQuoteRequest s score" and ?base = "1000000000 :: int"
  have b: "bigint_of_string ''1000000000'' = Inr ?base" by code_simp
  obtain o2 res where h: "handleShieldScoreRequest sv (qc_readings clock) orc (shieldBody ?inp Guest ?base) = (o2, res)" by fastforce
  have r: "r = (if sr_status res \<noteq> 200 then Inr (fallbackQuote ?inp rep ?base (sr_status res))
      else issuedQuote ?inp rep ?base (qc_now clock) (issued_of (sr_body res)))"
    using assms h by (auto simp: freshQuote_def lab_request b Let_def split: if_splits)
  consider "sr_status res \<in> {400, 500}" | i where "sr_body res = Issued i" "sr_status res = 200"
    using guest_result[OF h] by (auto simp: js_nullish_def parse_mode_def)
  then show ?thesis
  proof cases
    case 1
    then show ?thesis
      by (auto simp: r fallbackQuote_def lab_request decideFallback_def Let_def split: decision_bias.split)
  next
    case (2 i)
    obtain n where n: "pv_initial_price (is_payload i) = show_int n" and d: "25 \<le> pv_dignity_score (is_payload i)"
      using guest_issued_score[OF h 2(1)] by (auto simp: lab_request)
    show ?thesis
      using 2 d by (auto simp: r issuedQuote_def issued_of_def lab_request n decideIssued_def Let_def actionNeedsStepUp_def
          split: decision_bias.splits)
  qed
qed

lemma quote_uncached:
  assumes "map_get (sv_cache st) (quote_key h clock inp st) = None"
  shows "snd (quoteHubDecision h sv clock inp st) = snd (freshQuote sv clock inp (reputation_at h clock inp st) (sv_oracle st))"
  using assms by (auto simp: quoteHubDecision_def quote_key_def Let_def split: prod.splits sum.splits option.splits)

text \<open>What the hub makes of the telemetry of a session.\<close>

lemma scenario_name_simps [simp]:
  "scenario_name x = ''narrative'' \<longleftrightarrow> x = Narrative" "scenario_name x = ''pressure_sim'' \<longleftrightarrow> x = Pressure_sim"
  by (cases x; simp)+

lemma labMetadata_props [simp]:
  "js_prop_opt (labMetadata s) ''scenario_type'' = JStr (scenario_name (ls_scenario_type s))"
  "readTelemetrySummary (Some (labMetadata s)) = map_option telemetry_value (ls_telemetry_latest s)"
  by (simp_all add: labMetadata_def readTelemetrySummary_def telemetry_value_def split: option.split)

lemma lab_scenario:
  "scenarioOf (labQuoteRequest s score) =
     (let empty = \<lparr>as_signals = [], as_reason_codes = [], as_decision_bias = No_bias\<rparr> in
      case ls_telemetry_latest s of None \<Rightarrow> empty
      | Some t \<Rightarrow> if ls_scenario_type s = Narrative then assessNarrative (telemetry_value t) empty
                  else if ls_scenario_type s = Pressure_sim then assessPressure (telemetry_value t) empty else empty)"
  by (simp add: scenarioOf_def lab_request assessScenarioTelemetry_def Let_def split: option.split)

text \<open>The session a submission has left when it asks the hub.\<close>

lemma begin_session:
  assumes "submitBegin h inp st = (st', Inr pn)"
  obtains s where "map_get (lb_sessions st') (pn_session_id pn) = Some s" "pn_request pn = labQuoteRequest s (pn_score pn)"
  using assms
proof (cases rule: begin_cases)
  case (begun s p c history unlock score latest pn')
  let ?s = "s\<lparr>si_telemetry_history := history, ls_telemetry_history_count := (case normalized inp s of
      None \<Rightarrow> ls_telemetry_history_count s | Some _ \<Rightarrow> length history), ls_telemetry_latest := latest\<rparr>"
  have "map_get (lb_sessions st') (pn_session_id pn) = Some ?s" using begun(1,6,7) by simp
  moreover have "pn_request pn = labQuoteRequest ?s (pn_score pn)"
    using begun(1,9,10) by (simp add: labQuoteRequest_def labMetadata_def)
  ultimately show thesis by (rule that)
qed simp

subsection \<open>Properties\<close>

text \<open>
  The hub always answers a submission of the laboratory, as for a guest, and a fresh answer is a refusal
  exactly when the session is a narrative whose quiz was failed after less than a minute of reading: the
  confidence the laboratory computed plays no part.
\<close>

theorem lab_refused_only_for_failed_quiz:
  assumes "submitBegin h inp st = (st', Inr pn)" "map_get (lb_sessions st') (pn_session_id pn) = Some s"
    and "map_get (sv_cache hub) (quote_key hh clock (pn_request pn) hub) = None"
  shows "\<exists>q. snd (quoteHubDecision hh sv clock (pn_request pn) hub) = Inr q \<and> qr_tier q = Guest
     \<and> (qr_decision q = Block \<longleftrightarrow> ls_scenario_type s = Narrative \<and>
          (\<exists>t. ls_telemetry_latest s = Some t \<and> tl_quiz_correct t = Some False \<and> opt_sat (\<lambda>x. x < 60000) (tl_reading_time_ms t)))"
proof -
  have r: "pn_request pn = labQuoteRequest s (pn_score pn)"
    using begin_session[OF assms(1)] assms(2) by auto
  obtain q where q: "snd (quoteHubDecision hh sv clock (pn_request pn) hub) = Inr q" "qr_tier q = Guest"
      "qr_decision q = Block \<longleftrightarrow> as_decision_bias (scenarioOf (pn_request pn)) = Bias_block"
    using lab_fresh_quote[OF prod.collapse[symmetric], of sv clock s "pn_score pn"] quote_uncached[OF assms(3)]
    unfolding r by metis
  have "as_decision_bias (scenarioOf (pn_request pn)) = Bias_block \<longleftrightarrow> ls_scenario_type s = Narrative \<and>
      (\<exists>t. ls_telemetry_latest s = Some t \<and> tl_quiz_correct t = Some False \<and> opt_sat (\<lambda>x. x < 60000) (tl_reading_time_ms t))"
    by (auto simp: r lab_scenario assessNarrative_def assessPressure_def Let_def upon_def raise_step_up_def assess_simps
        telemetry_value_props split: option.splits)
  with q show ?thesis by blast
qed

text \<open>
  The hub sees no more than the laboratory: every risk signal the hub reads off the telemetry of a
  submission is among those the laboratory raised, with its weight, when the entry is of the session's
  scenario and the good click window of an event is at most a second.
\<close>

theorem hub_signals_are_lab_signals:
  assumes "submitBegin h inp st = (st', Inr pn)" "map_get (lb_sessions st) (su_session_id inp) = Some s"
    and "snd (getLabEntryPayload h (ls_entry_type s) (ls_entry_id s) (lb_cache st)) = Inr (Some p)"
    and "case p of Pressure_entry e \<Rightarrow> ls_scenario_type s = Pressure_sim \<and> pe_click_window_good_ms e \<in> {0..1000}
           | _ \<Rightarrow> ls_scenario_type s = Narrative"
  shows "set (as_signals (scenarioOf (pn_request pn))) \<subseteq> set (ss_risk_signals (pn_score pn))
     \<and> hq_risk_signals (pn_request pn) = Some (ss_risk_signals (pn_score pn))"
  using assms(1)
proof (cases rule: begin_cases)
  case (begun s' p' c history unlock score latest pn')
  then have eq: "s' = s" "p' = p" "pn' = pn" using assms(2,3) by auto
  show ?thesis
  proof (cases latest)
    case None
    then show ?thesis using begun(9,10) by (simp add: eq lab_scenario Let_def lab_request)
  next
    case (Some t)
    have n: "set (as_signals (assessNarrative (telemetry_value t) \<lparr>as_signals = [], as_reason_codes = [], as_decision_bias = No_bias\<rparr>))
        \<subseteq> set (ss_risk_signals (scoreNarrativeShadow (Some t) q))" if "tl_quiz_correct t = Some q" for q
      using narrative_signals_subset[OF that] by (simp add: scoreNarrativeShadow_def finalize_fields)
    have p: "set (as_signals (assessPressure (telemetry_value t) \<lparr>as_signals = [], as_reason_codes = [], as_decision_bias = No_bias\<rparr>))
        \<subseteq> set (ss_risk_signals (scorePressureShadow e (Some t)))" if "pe_click_window_good_ms e \<in> {0..1000}" for e
      using that pressure_signals_subset[of e] by (simp add: scorePressureShadow_def finalize_fields)
    have "set (as_signals (scenarioOf (pn_request pn))) \<subseteq> set (ss_risk_signals (pn_score pn))"
    proof (cases p)
      case (Pressure_entry e)
      then show ?thesis
        using begun(4,9,10) Some p[of e] assms(4) by (auto simp: eq lab_scenario Let_def evaluateEntry_def)
    qed (use begun(4,9,10) Some n assms(4) in \<open>auto simp: eq lab_scenario Let_def evaluateEntry_def scoreQuizEntry_def\<close>)
    then show ?thesis using begun(9,10) by (simp add: eq lab_request)
  qed
qed simp

text \<open>A visitor who reads for a second and answers wrongly.\<close>

definition sample_pending :: "lab_state \<times> pending_submit result" where
  "sample_pending = submitBegin sample_lab_host (sample_submit None (Some (Fin 1000))) sample_lab"

lemma sample_pending_ok:
  "\<exists>pn s. sample_pending = (fst sample_pending, Inr pn) \<and> map_get (lb_sessions (fst sample_pending)) (pn_session_id pn) = Some s
     \<and> ls_scenario_type s = Narrative \<and> (\<exists>t. ls_telemetry_latest s = Some t \<and> tl_quiz_correct t = Some False
         \<and> tl_reading_time_ms t = Some 1000)"
proof -
  have "map_sum (\<lambda>_. ()) (\<lambda>pn. map_option (\<lambda>s. (ls_scenario_type s, map_option (\<lambda>t. (tl_quiz_correct t, tl_reading_time_ms t))
      (ls_telemetry_latest s))) (map_get (lb_sessions (fst sample_pending)) (pn_session_id pn))) (snd sample_pending)
    = Inr (Some (Narrative, Some (Some False, Some 1000)))" by code_simp
  then show ?thesis
    by (cases "snd sample_pending") (auto simp: prod_eq_iff)
qed

theorem lab_refused_only_for_failed_quiz_witness:
  "\<exists>pn q. snd sample_pending = Inr pn \<and>
     snd (quoteHubDecision sample_host (sample_services 1000000) (sample_clock 1000000) (pn_request pn) sample_services_state) = Inr q
     \<and> qr_decision q = Block"
proof -
  obtain pn s where p: "submitBegin sample_lab_host (sample_submit None (Some (Fin 1000))) sample_lab = (fst sample_pending, Inr pn)"
      and s: "map_get (lb_sessions (fst sample_pending)) (pn_session_id pn) = Some s" "ls_scenario_type s = Narrative"
        "\<exists>t. ls_telemetry_latest s = Some t \<and> tl_quiz_correct t = Some False \<and> tl_reading_time_ms t = Some 1000"
    using sample_pending_ok unfolding sample_pending_def by blast
  have sp: "snd sample_pending = Inr pn" using arg_cong[OF p, of snd] by (simp flip: sample_pending_def)
  have c: "map_get (sv_cache sample_services_state) (quote_key sample_host (sample_clock 1000000) (pn_request pn) sample_services_state) = None"
    by (simp add: sample_services_state_def)
  obtain t where t: "ls_telemetry_latest s = Some t" "tl_quiz_correct t = Some False" "tl_reading_time_ms t = Some 1000"
    using s(3) by blast
  then have "opt_sat (\<lambda>x. x < 60000) (tl_reading_time_ms t)" by (simp add: opt_sat_def)
  then show ?thesis
    using lab_refused_only_for_failed_quiz[OF p s(1) c, of "sample_services 1000000"] s(2) t(1,2) sp by blast
qed

theorem hub_signals_are_lab_signals_witness:
  "\<exists>pn. snd sample_pending = Inr pn \<and> as_signals (scenarioOf (pn_request pn)) \<noteq> []
     \<and> set (as_signals (scenarioOf (pn_request pn))) \<subseteq> set (ss_risk_signals (pn_score pn))"
proof -
  obtain pn where p: "submitBegin sample_lab_host (sample_submit None (Some (Fin 1000))) sample_lab = (fst sample_pending, Inr pn)"
    using sample_pending_ok unfolding sample_pending_def by blast
  have sp: "snd sample_pending = Inr pn" using arg_cong[OF p, of snd] by (simp flip: sample_pending_def)
  have "map_option ls_scenario_type (map_get (lb_sessions sample_lab) ''lab-1'') = Some Narrative" by code_simp
  then obtain s where s: "map_get (lb_sessions sample_lab) (su_session_id (sample_submit None (Some (Fin 1000)))) = Some s"
      "ls_scenario_type s = Narrative"
    by (auto simp: sample_submit_def)
  have "map_option (\<lambda>s. snd (getLabEntryPayload sample_lab_host (ls_entry_type s) (ls_entry_id s) (lb_cache sample_lab)))
      (map_get (lb_sessions sample_lab) ''lab-1'')
    = Some (Inr (Some (Story_entry \<lparr>sq_correct_option_id = 2, sq_success_ending = ''yes'', sq_failure_ending = ''no''\<rparr>)))"
    by code_simp
  then have e: "snd (getLabEntryPayload sample_lab_host (ls_entry_type s) (ls_entry_id s) (lb_cache sample_lab))
      = Inr (Some (Story_entry \<lparr>sq_correct_option_id = 2, sq_success_ending = ''yes'', sq_failure_ending = ''no''\<rparr>))"
    using s(1) by (simp add: sample_submit_def)
  have "map_sum (\<lambda>_. ()) (\<lambda>pn. as_signals (scenarioOf (pn_request pn)) = []) (snd sample_pending) = Inr False" by code_simp
  then have "as_signals (scenarioOf (pn_request pn)) \<noteq> []" by (simp add: sp)
  moreover have "set (as_signals (scenarioOf (pn_request pn))) \<subseteq> set (ss_risk_signals (pn_score pn))"
    using hub_signals_are_lab_signals[OF p s(1) e] s(2) by simp
  ultimately show ?thesis using sp by blast
qed

end
