(* ===== verification/Hide_Sis_Rules.thy ===== *)
theory Hide_Sis_Rules
  imports Prelude
begin

section \<open>Rules and replay of Hide and Sis\<close>

text \<open>
  packages/universal-shield-sdk/src/hide_sis_types.ts: the codes of chapters, nodes, decisions and endings,
  the events of a session and the gates of the truth and of the endings; and
  services/hide-sis-engine/src/state_machine.ts: a session is replayed from its events. A code is a
  constructor, its number a function.
\<close>

datatype story_chapter = CH1_NIGHT_DINNER | CH2_MEMORY_TRADE | CH3_ROOFTOP_COLLAPSE

datatype node = C1_N1_OPENING_PROBE | C1_N2_PRIVATE_PROOF | C1_N3_LAST_CALL_PRESSURE
  | C2_N1_TERMS_EXCHANGE | C2_N2_FOOTPRINT_SWAP | C2_N3_KILLER_REVEAL_GATE | C2_N4_SECRET_PACT
  | C3_N1_SYSTEM_BREAKDOWN | C3_N2_FINAL_CHOICE | C3_N3_ENDING_RESOLVE

datatype decision_code = PACT_COMMIT | PACT_DELAY | PACT_BACKDOOR | END_BURY_TRUTH | END_DISCLOSE | END_DOUBLE_PLAY

datatype ending = SILK_BURIAL_TRUE | BROKEN_OATH | FRAMED_AND_JAILED

datatype user_mode_code = UM_BOT_SUSPECTED | UM_GUEST | UM_VERIFIED

fun chapter_code :: "story_chapter \<Rightarrow> int" where
  "chapter_code CH1_NIGHT_DINNER = 1"
| "chapter_code CH2_MEMORY_TRADE = 2"
| "chapter_code CH3_ROOFTOP_COLLAPSE = 3"

fun node_code :: "node \<Rightarrow> int" where
  "node_code C1_N1_OPENING_PROBE = 11"
| "node_code C1_N2_PRIVATE_PROOF = 12"
| "node_code C1_N3_LAST_CALL_PRESSURE = 13"
| "node_code C2_N1_TERMS_EXCHANGE = 21"
| "node_code C2_N2_FOOTPRINT_SWAP = 22"
| "node_code C2_N3_KILLER_REVEAL_GATE = 23"
| "node_code C2_N4_SECRET_PACT = 24"
| "node_code C3_N1_SYSTEM_BREAKDOWN = 31"
| "node_code C3_N2_FINAL_CHOICE = 32"
| "node_code C3_N3_ENDING_RESOLVE = 33"

fun decision_number :: "decision_code \<Rightarrow> int" where
  "decision_number PACT_COMMIT = 1"
| "decision_number PACT_DELAY = 2"
| "decision_number PACT_BACKDOOR = 3"
| "decision_number END_BURY_TRUTH = 11"
| "decision_number END_DISCLOSE = 12"
| "decision_number END_DOUBLE_PLAY = 13"

fun ending_code :: "ending \<Rightarrow> int" where
  "ending_code SILK_BURIAL_TRUE = 1"
| "ending_code BROKEN_OATH = 2"
| "ending_code FRAMED_AND_JAILED = 3"

fun user_mode_number :: "user_mode_code \<Rightarrow> int" where
  "user_mode_number UM_BOT_SUSPECTED = 0"
| "user_mode_number UM_GUEST = 1"
| "user_mode_number UM_VERIFIED = 2"

subsection \<open>Events\<close>

record turn_event =
  te_chapter :: story_chapter
  te_node_id :: node
  te_choice_id :: int
  te_suspicion_cost :: int
  te_budget_left_bps :: int
  te_relation_delta :: int
  te_pollution_flag :: bool

record decision_event =
  de_chapter :: story_chapter
  de_node_id :: node
  de_decision_code :: decision_code
  de_relation_after :: int
  de_truth_progress :: int

record finalized_event =
  fe_ending_code :: ending
  fe_final_dignity :: int
  fe_humanity_score :: int
  fe_relation_final :: int
  fe_truth_unlocked :: bool
  fe_framed_flag :: bool

subsection \<open>Gates\<close>

record truth_gate_input =
  tg_dignity_score :: int
  tg_relation_score :: int
  tg_pollution_flag :: bool
  tg_c2_n3_passed :: bool

record ending_gate_input =
  eg_final_decision_code :: decision_code
  eg_dignity_score :: int
  eg_relation_score :: int
  eg_pollution_flag :: bool

definition KILLER_REVEAL_NODE :: node where
  "KILLER_REVEAL_NODE = C2_N3_KILLER_REVEAL_GATE"

definition evaluateTruthUnlocked :: "truth_gate_input \<Rightarrow> bool" where
  "evaluateTruthUnlocked inp \<longleftrightarrow>
     70 \<le> tg_dignity_score inp \<and> 0 \<le> tg_relation_score inp \<and> \<not> tg_pollution_flag inp \<and> tg_c2_n3_passed inp"

definition isStableCooperationPath :: "ending_gate_input \<Rightarrow> bool" where
  "isStableCooperationPath inp \<longleftrightarrow>
     eg_final_decision_code inp = END_BURY_TRUTH \<and> 70 \<le> eg_dignity_score inp \<and> 2 \<le> eg_relation_score inp
     \<and> \<not> eg_pollution_flag inp"

definition evaluateEndingCode :: "ending_gate_input \<Rightarrow> ending" where
  "evaluateEndingCode inp =
     (if isStableCooperationPath inp then SILK_BURIAL_TRUE
      else if eg_pollution_flag inp \<or> eg_relation_score inp \<le> 0 then FRAMED_AND_JAILED
      else if eg_final_decision_code inp = END_DISCLOSE then BROKEN_OATH
      else BROKEN_OATH)"

subsection \<open>Replay\<close>

datatype replay_event = Turn turn_event | Decision decision_event | Finalize finalized_event

record replay_state =
  rs_dignity_score :: int
  rs_relation_score :: int
  rs_pollution_flag :: bool
  rs_c2_n3_passed :: bool
  rs_truth_progress :: int
  rs_truth_unlocked :: bool
  rs_ending_code :: "ending option"
  rs_finalized :: bool
  rs_last_chapter :: "story_chapter option"
  rs_seen_nodes :: "node list"
  rs_seen_decisions :: "decision_code list"

definition resolveTruthUnlocked :: "truth_gate_input \<Rightarrow> bool" where
  "resolveTruthUnlocked inp = evaluateTruthUnlocked inp"

definition resolveEndingCode :: "ending_gate_input \<Rightarrow> ending" where
  "resolveEndingCode inp = evaluateEndingCode inp"

definition replayStart :: "int \<Rightarrow> int option \<Rightarrow> replay_state" where
  "replayStart dignity relation =
     \<lparr>rs_dignity_score = dignity, rs_relation_score = opt_or relation 0, rs_pollution_flag = False,
      rs_c2_n3_passed = False, rs_truth_progress = 0, rs_truth_unlocked = False, rs_ending_code = None,
      rs_finalized = False, rs_last_chapter = None, rs_seen_nodes = [], rs_seen_decisions = []\<rparr>"

fun replayApply :: "replay_event \<Rightarrow> replay_state \<Rightarrow> replay_state" where
  "replayApply (Turn e) s =
     s\<lparr>rs_last_chapter := Some (te_chapter e), rs_seen_nodes := rs_seen_nodes s @ [te_node_id e],
       rs_relation_score := rs_relation_score s + te_relation_delta e,
       rs_pollution_flag := rs_pollution_flag s \<or> te_pollution_flag e,
       rs_c2_n3_passed := rs_c2_n3_passed s \<or> te_node_id e = KILLER_REVEAL_NODE \<and> 0 < te_choice_id e\<rparr>"
| "replayApply (Decision e) s =
     s\<lparr>rs_last_chapter := Some (de_chapter e), rs_seen_nodes := rs_seen_nodes s @ [de_node_id e],
       rs_seen_decisions := rs_seen_decisions s @ [de_decision_code e],
       rs_relation_score := de_relation_after e,
       rs_truth_progress := max (rs_truth_progress s) (de_truth_progress e),
       rs_c2_n3_passed := rs_c2_n3_passed s \<or> de_node_id e = KILLER_REVEAL_NODE\<rparr>"
| "replayApply (Finalize e) s =
     s\<lparr>rs_ending_code := Some (fe_ending_code e), rs_finalized := True, rs_dignity_score := fe_final_dignity e,
       rs_relation_score := fe_relation_final e, rs_truth_unlocked := fe_truth_unlocked e,
       rs_pollution_flag := rs_pollution_flag s \<or> fe_framed_flag e\<rparr>"

definition replayStep :: "replay_state \<Rightarrow> replay_event \<Rightarrow> replay_state" where
  "replayStep s e =
     (let s1 = replayApply e s in
      s1\<lparr>rs_truth_unlocked := rs_truth_unlocked s1 \<or> resolveTruthUnlocked
        \<lparr>tg_dignity_score = rs_dignity_score s1, tg_relation_score = rs_relation_score s1,
         tg_pollution_flag = rs_pollution_flag s1, tg_c2_n3_passed = rs_c2_n3_passed s1\<rparr>\<rparr>)"

definition replayEnding :: "replay_state \<Rightarrow> replay_state" where
  "replayEnding s =
     (if rs_ending_code s = None \<and> rs_seen_decisions s \<noteq> [] then
        (let finalDecision = last (rs_seen_decisions s);
             fallbackDecision = (if finalDecision \<in> {END_BURY_TRUTH, END_DISCLOSE, END_DOUBLE_PLAY}
               then finalDecision else END_DOUBLE_PLAY)
         in s\<lparr>rs_ending_code := Some (resolveEndingCode
              \<lparr>eg_final_decision_code = fallbackDecision, eg_dignity_score = rs_dignity_score s,
               eg_relation_score = rs_relation_score s, eg_pollution_flag = rs_pollution_flag s\<rparr>)\<rparr>)
      else s)"

definition replaySession :: "int \<Rightarrow> int option \<Rightarrow> replay_event list \<Rightarrow> replay_state" where
  "replaySession dignity relation events = replayEnding (foldl replayStep (replayStart dignity relation) events)"

end
