(* ===== verification/Hide_Sis_Session.thy ===== *)
theory Hide_Sis_Session
  imports Hide_Sis_Rules Js_Number
begin

section \<open>Sessions of Hide and Sis\<close>

text \<open>
  services/hide-sis-engine/src/session_store.ts: a session walks through ten nodes, every commit of a choice
  changing its scores and budgets, and is finalized with an ending. The store of sessions is the map
  \<open>hs_store\<close>; the clock and the random identifiers are arguments. Titles, prompts and labels are left out,
  and so is the repair of sessions that an older version left without a pollution score. \<open>Math.pow\<close> is
  taken as correctly rounded; Hide\_Sis\_Play shows that its exponent is always 0.
\<close>

record node_choice =
  ch_id :: int
  ch_relationDelta :: int
  ch_pollutionRisk :: bool
  ch_dignityDelta :: "int option"
  ch_decisionCode :: "decision_code option"
  ch_markRevealPassed :: bool

record node_spec =
  ns_id :: node
  ns_chapter :: story_chapter
  ns_interrogative :: bool
  ns_choices :: "node_choice list"

record quote_result =
  qt_blocked :: bool
  qt_suspicion_cost :: int
  qt_budget_cost_bps :: int
  qt_budget_left_bps_after :: int

record ending_breakdown =
  eb_d_ok :: bool
  eb_t_ok :: bool
  eb_pollution_ok :: bool
  eb_reveal_ok :: bool
  eb_decision_code :: decision_code
  eb_stable_path_ok :: bool
  eb_framed_triggered :: bool
  eb_reason_codes :: "string list"
  eb_hint_en :: string

record hs_session =
  hs_sessionId :: string
  hs_wallet :: string
  hs_userMode :: user_mode_code
  hs_dignityScore :: int
  hs_relationScore :: int
  hs_pollutionScore :: int
  hs_pollutionFlag :: bool
  hs_c2n3Passed :: bool
  hs_truthUnlocked :: bool
  hs_currentNodeId :: node
  hs_completed :: bool
  hs_finalDecisionCode :: "decision_code option"
  hs_endingCode :: "ending option"
  hs_chapterBudgetBps :: "(story_chapter, int) jsmap"
  hs_nodeAttemptCounter :: "(node, int) jsmap"
  hs_verifiedFootprints :: "(string, bool) jsmap"
  hs_turnEvents :: "turn_event list"
  hs_decisionEvents :: "decision_event list"
  hs_finalizedEvent :: "finalized_event option"
  hs_finalizedBreakdown :: "ending_breakdown option"
  hs_startedAt :: int
  hs_updatedAt :: int

type_synonym hs_store = "(string, hs_session) jsmap"

subsection \<open>The story\<close>

fun nodeFlow :: "node \<Rightarrow> node option" where
  "nodeFlow C1_N1_OPENING_PROBE = Some C1_N2_PRIVATE_PROOF"
| "nodeFlow C1_N2_PRIVATE_PROOF = Some C1_N3_LAST_CALL_PRESSURE"
| "nodeFlow C1_N3_LAST_CALL_PRESSURE = Some C2_N1_TERMS_EXCHANGE"
| "nodeFlow C2_N1_TERMS_EXCHANGE = Some C2_N2_FOOTPRINT_SWAP"
| "nodeFlow C2_N2_FOOTPRINT_SWAP = Some C2_N3_KILLER_REVEAL_GATE"
| "nodeFlow C2_N3_KILLER_REVEAL_GATE = Some C2_N4_SECRET_PACT"
| "nodeFlow C2_N4_SECRET_PACT = Some C3_N1_SYSTEM_BREAKDOWN"
| "nodeFlow C3_N1_SYSTEM_BREAKDOWN = Some C3_N2_FINAL_CHOICE"
| "nodeFlow C3_N2_FINAL_CHOICE = Some C3_N3_ENDING_RESOLVE"
| "nodeFlow C3_N3_ENDING_RESOLVE = None"

text \<open>The forms of choice the story has: plain, with dignity, with a decision, and passing the reveal.\<close>

definition plain :: "int \<Rightarrow> int \<Rightarrow> bool \<Rightarrow> node_choice" where
  "plain i d p = \<lparr>ch_id = i, ch_relationDelta = d, ch_pollutionRisk = p, ch_dignityDelta = None,
     ch_decisionCode = None, ch_markRevealPassed = False\<rparr>"

definition dignified :: "int \<Rightarrow> int \<Rightarrow> bool \<Rightarrow> int \<Rightarrow> node_choice" where
  "dignified i d p x = (plain i d p)\<lparr>ch_dignityDelta := Some x\<rparr>"

definition deciding :: "int \<Rightarrow> int \<Rightarrow> bool \<Rightarrow> decision_code \<Rightarrow> node_choice" where
  "deciding i d p c = (plain i d p)\<lparr>ch_decisionCode := Some c\<rparr>"

definition revealing :: "int \<Rightarrow> int \<Rightarrow> bool \<Rightarrow> node_choice" where
  "revealing i d p = (plain i d p)\<lparr>ch_markRevealPassed := True\<rparr>"

definition node_at :: "node \<Rightarrow> story_chapter \<Rightarrow> bool \<Rightarrow> node_choice list \<Rightarrow> node_spec" where
  "node_at n c interrogative choices =
     \<lparr>ns_id = n, ns_chapter = c, ns_interrogative = interrogative, ns_choices = choices\<rparr>"

fun story :: "node \<Rightarrow> node_spec" where
  "story C1_N1_OPENING_PROBE = node_at C1_N1_OPENING_PROBE CH1_NIGHT_DINNER True
     [plain 1 (-1) True, plain 2 1 False, plain 3 0 False]"
| "story C1_N2_PRIVATE_PROOF = node_at C1_N2_PRIVATE_PROOF CH1_NIGHT_DINNER True
     [dignified 1 1 False 4, dignified 2 (-1) True (-3)]"
| "story C1_N3_LAST_CALL_PRESSURE = node_at C1_N3_LAST_CALL_PRESSURE CH1_NIGHT_DINNER True
     [plain 1 0 False, plain 2 (-1) True, plain 3 1 False]"
| "story C2_N1_TERMS_EXCHANGE = node_at C2_N1_TERMS_EXCHANGE CH2_MEMORY_TRADE True
     [plain 1 1 False, plain 2 0 False, plain 3 (-1) True]"
| "story C2_N2_FOOTPRINT_SWAP = node_at C2_N2_FOOTPRINT_SWAP CH2_MEMORY_TRADE True
     [dignified 1 0 False 3, dignified 2 0 False 4, dignified 3 0 False 3]"
| "story C2_N3_KILLER_REVEAL_GATE = node_at C2_N3_KILLER_REVEAL_GATE CH2_MEMORY_TRADE True
     [revealing 1 1 False, plain 2 (-1) True, revealing 3 0 False]"
| "story C2_N4_SECRET_PACT = node_at C2_N4_SECRET_PACT CH2_MEMORY_TRADE False
     [deciding 1 1 False PACT_COMMIT, deciding 2 0 False PACT_DELAY, deciding 3 (-1) True PACT_BACKDOOR]"
| "story C3_N1_SYSTEM_BREAKDOWN = node_at C3_N1_SYSTEM_BREAKDOWN CH3_ROOFTOP_COLLAPSE True
     [plain 1 1 False, plain 2 0 True, plain 3 (-1) True]"
| "story C3_N2_FINAL_CHOICE = node_at C3_N2_FINAL_CHOICE CH3_ROOFTOP_COLLAPSE False
     [deciding 1 1 False END_BURY_TRUTH, deciding 2 (-1) False END_DISCLOSE, deciding 3 (-1) True END_DOUBLE_PLAY]"
| "story C3_N3_ENDING_RESOLVE = node_at C3_N3_ENDING_RESOLVE CH3_ROOFTOP_COLLAPSE False [plain 1 0 False]"

definition normalizeMode :: "user_mode_code option \<Rightarrow> user_mode_code" where
  "normalizeMode mode =
     (case mode of Some UM_GUEST \<Rightarrow> UM_GUEST | Some UM_BOT_SUSPECTED \<Rightarrow> UM_BOT_SUSPECTED | _ \<Rightarrow> UM_VERIFIED)"

definition defaultDignityByMode :: "user_mode_code \<Rightarrow> int" where
  "defaultDignityByMode mode = (if mode = UM_BOT_SUSPECTED then 20 else if mode = UM_GUEST then 50 else 72)"

definition currentNode :: "hs_session \<Rightarrow> node_spec" where
  "currentNode s = story (hs_currentNodeId s)"

subsection \<open>The quote of a turn\<close>

definition chapterHeat :: "story_chapter \<Rightarrow> rat" where
  "chapterHeat c = (if c = CH1_NIGHT_DINNER then 1 else if c = CH2_MEMORY_TRADE then fl (12 / 10) else fl (145 / 100))"

definition dignityHeatFactor :: "int \<Rightarrow> rat" where
  "dignityHeatFactor dignity = fl (1 + fl (of_int (100 - dignity) / 140))"

definition rawCost :: "story_chapter \<Rightarrow> int \<Rightarrow> int \<Rightarrow> int" where
  "rawCost c dignity attempts =
     js_round (fl (fl (fl (650 * chapterHeat c) * dignityHeatFactor dignity) * fl (fl (145 / 100) ^ nat (attempts - 1))))"

definition quoteNode :: "hs_session \<Rightarrow> quote_result" where
  "quoteNode s =
     (let node = currentNode s;
          chapterBudget = opt_or (map_get (hs_chapterBudgetBps s) (ns_chapter node)) 0;
          attempts = opt_or (map_get (hs_nodeAttemptCounter s) (ns_id node)) 0 + 1 in
      if \<not> ns_interrogative node
      then \<lparr>qt_blocked = False, qt_suspicion_cost = 80000, qt_budget_cost_bps = 200,
             qt_budget_left_bps_after = clamp (chapterBudget - 200) 0 10000\<rparr>
      else (let raw = rawCost (ns_chapter node) (hs_dignityScore s) attempts;
                budgetCostBps = clamp (js_round (fl (of_int raw * fl (135 / 100)))) 300 7500;
                budgetLeftAfter = chapterBudget - budgetCostBps
            in \<lparr>qt_blocked = (budgetLeftAfter \<le> 0), qt_suspicion_cost = raw * 1000, qt_budget_cost_bps = budgetCostBps,
                qt_budget_left_bps_after = clamp budgetLeftAfter 0 10000\<rparr>))"

subsection \<open>The effect of a choice\<close>

text \<open>The dignity of a choice, and the footprints with the one it uses up.\<close>

definition applyFootprintDignity ::
  "hs_session \<Rightarrow> node_spec \<Rightarrow> node_choice \<Rightarrow> (string, bool) jsmap \<times> int" where
  "applyFootprintDignity s node choice =
     (if ns_id node \<noteq> C2_N2_FOOTPRINT_SWAP then (hs_verifiedFootprints s, opt_or (ch_dignityDelta choice) 0)
      else (let key = (if ch_id choice = 1 then ''spotify'' else if ch_id choice = 2 then ''github'' else ''twitter'') in
            if opt_or (map_get (hs_verifiedFootprints s) key) False then (hs_verifiedFootprints s, 0)
            else (map_set key True (hs_verifiedFootprints s), opt_or (ch_dignityDelta choice) 0)))"

definition computePollutionDelta :: "bool \<Rightarrow> node_choice \<Rightarrow> int \<Rightarrow> int" where
  "computePollutionDelta quoteBlocked choice dignityDelta =
     (let delta = (if quoteBlocked then 2 else 0) + (if ch_pollutionRisk choice then 1 else 0);
          strongCleanse = (ch_markRevealPassed choice \<or> ch_decisionCode choice = Some PACT_COMMIT
            \<or> ch_decisionCode choice = Some END_BURY_TRUTH);
          restorative = (\<not> ch_pollutionRisk choice \<and>
            (0 \<le> ch_relationDelta choice \<or> 0 < dignityDelta \<or> strongCleanse))
      in if restorative then delta - (if strongCleanse then 3 else 1) else delta)"

definition computeTruthUnlocked :: "hs_session \<Rightarrow> bool" where
  "computeTruthUnlocked s = evaluateTruthUnlocked
     \<lparr>tg_dignity_score = hs_dignityScore s, tg_relation_score = hs_relationScore s,
      tg_pollution_flag = hs_pollutionFlag s, tg_c2_n3_passed = hs_c2n3Passed s\<rparr>"

definition ending_gate :: "hs_session \<Rightarrow> decision_code \<Rightarrow> ending_gate_input" where
  "ending_gate s d = \<lparr>eg_final_decision_code = d, eg_dignity_score = hs_dignityScore s,
     eg_relation_score = hs_relationScore s, eg_pollution_flag = hs_pollutionFlag s\<rparr>"

definition buildEndingBreakdown :: "hs_session \<Rightarrow> ending \<Rightarrow> decision_code \<Rightarrow> ending_breakdown" where
  "buildEndingBreakdown s e decisionCode =
     (let d_ok = (70 \<le> hs_dignityScore s); t_ok = (0 \<le> hs_relationScore s);
          pollution_ok = (\<not> hs_pollutionFlag s); reveal_ok = hs_c2n3Passed s
      in \<lparr>eb_d_ok = d_ok, eb_t_ok = t_ok, eb_pollution_ok = pollution_ok, eb_reveal_ok = reveal_ok,
          eb_decision_code = decisionCode,
          eb_stable_path_ok = isStableCooperationPath (ending_gate s decisionCode),
          eb_framed_triggered = (e = FRAMED_AND_JAILED),
          eb_reason_codes = (if d_ok then [] else [''DIGNITY_LOW'']) @ (if t_ok then [] else [''RELATION_LOW''])
            @ (if pollution_ok then [] else [''POLLUTION_LOCKED'']) @ (if reveal_ok then [] else [''REVEAL_MISSED''])
            @ (if e = FRAMED_AND_JAILED then [''FRAMED_AND_JAILED''] else [])
            @ (if e = BROKEN_OATH then [''OATH_BROKEN''] else [])
            @ (if e = SILK_BURIAL_TRUE then [''SILK_BURIAL_TRUE''] else []),
          eb_hint_en =
            (if \<not> reveal_ok then ''Pass the reveal gate in Chapter 2: choose the soft probe in C2-N3.''
             else if \<not> pollution_ok then ''Avoid high-risk choices; pollution strongly pushes toward the bad ending.''
             else if \<not> t_ok then ''Pick trust/co-op choices and push relation above 0.''
             else if \<not> d_ok then ''Complete footprint checks and private proof to reach dignity 70.''
             else ''Keep relation and a clean path to unlock the stable conspiracy ending.'')\<rparr>)"

subsection \<open>Operations on a session\<close>

definition newSession :: "string \<Rightarrow> string \<Rightarrow> int \<Rightarrow> user_mode_code \<Rightarrow> hs_session" where
  "newSession sid wallet now mode =
     \<lparr>hs_sessionId = sid, hs_wallet = wallet, hs_userMode = mode, hs_dignityScore = defaultDignityByMode mode,
      hs_relationScore = 0, hs_pollutionScore = 0, hs_pollutionFlag = False, hs_c2n3Passed = False,
      hs_truthUnlocked = False, hs_currentNodeId = C1_N1_OPENING_PROBE, hs_completed = False,
      hs_finalDecisionCode = None, hs_endingCode = None,
      hs_chapterBudgetBps = [(CH1_NIGHT_DINNER, 10000), (CH2_MEMORY_TRADE, 10000), (CH3_ROOFTOP_COLLAPSE, 10000)],
      hs_nodeAttemptCounter = [], hs_verifiedFootprints = [], hs_turnEvents = [], hs_decisionEvents = [],
      hs_finalizedEvent = None, hs_finalizedBreakdown = None, hs_startedAt = now, hs_updatedAt = now\<rparr>"

definition truthProgress :: "hs_session \<Rightarrow> int" where
  "truthProgress s =
     (if hs_truthUnlocked s then 100
      else clamp (js_round (fl (of_int (hs_dignityScore s + (hs_relationScore s + 3) * 8) / fl (16 / 10)))) 0 99)"

text \<open>The counter, budget and scores after a choice.\<close>

definition applyChoice :: "node_spec \<Rightarrow> node_choice \<Rightarrow> quote_result \<Rightarrow> hs_session \<Rightarrow> hs_session" where
  "applyChoice node choice quote s =
     (let (footprints, dignityDelta) = applyFootprintDignity s node choice;
          pollutionScore = clamp (hs_pollutionScore s + computePollutionDelta (qt_blocked quote) choice dignityDelta) 0 3
      in s\<lparr>hs_nodeAttemptCounter :=
             map_set (ns_id node) (opt_or (map_get (hs_nodeAttemptCounter s) (ns_id node)) 0 + 1) (hs_nodeAttemptCounter s),
           hs_chapterBudgetBps := map_set (ns_chapter node) (qt_budget_left_bps_after quote) (hs_chapterBudgetBps s),
           hs_relationScore := clamp (hs_relationScore s + ch_relationDelta choice) (-3) 3,
           hs_verifiedFootprints := footprints,
           hs_dignityScore := clamp (hs_dignityScore s + dignityDelta) 0 100,
           hs_pollutionScore := pollutionScore, hs_pollutionFlag := (2 \<le> pollutionScore),
           hs_c2n3Passed := hs_c2n3Passed s \<or> ch_markRevealPassed choice
             \<or> ns_id node = C2_N3_KILLER_REVEAL_GATE \<and> ch_id choice = 2 \<and> 3 \<le> hs_relationScore s\<rparr>)"

definition turnEvent :: "node_spec \<Rightarrow> node_choice \<Rightarrow> quote_result \<Rightarrow> hs_session \<Rightarrow> turn_event" where
  "turnEvent node choice quote s =
     \<lparr>te_chapter = ns_chapter node, te_node_id = ns_id node, te_choice_id = ch_id choice,
      te_suspicion_cost = qt_suspicion_cost quote, te_budget_left_bps = qt_budget_left_bps_after quote,
      te_relation_delta = ch_relationDelta choice,
      te_pollution_flag = (0 < computePollutionDelta (qt_blocked quote) choice (snd (applyFootprintDignity s node choice)))\<rparr>"

definition recordDecision :: "node_spec \<Rightarrow> node_choice \<Rightarrow> hs_session \<Rightarrow> hs_session" where
  "recordDecision node choice s =
     (case ch_decisionCode choice of
        None \<Rightarrow> s
      | Some code \<Rightarrow>
          s\<lparr>hs_decisionEvents := hs_decisionEvents s @
               [\<lparr>de_chapter = ns_chapter node, de_node_id = ns_id node, de_decision_code = code,
                 de_relation_after = hs_relationScore s, de_truth_progress = truthProgress s\<rparr>],
            hs_finalDecisionCode := (if code \<in> {END_BURY_TRUTH, END_DISCLOSE, END_DOUBLE_PLAY} then Some code
               else hs_finalDecisionCode s)\<rparr>)"

definition advance :: "int \<Rightarrow> hs_session \<Rightarrow> hs_session" where
  "advance now s =
     s\<lparr>hs_truthUnlocked := computeTruthUnlocked s,
       hs_currentNodeId := opt_or (nodeFlow (hs_currentNodeId s)) (hs_currentNodeId s), hs_updatedAt := now\<rparr>"

definition commitChoice :: "int \<Rightarrow> node_choice \<Rightarrow> hs_session \<Rightarrow> hs_session" where
  "commitChoice now choice s =
     (let node = currentNode s;
          quote = quoteNode s;
          s1 = applyChoice node choice quote s;
          s2 = s1\<lparr>hs_turnEvents := hs_turnEvents s1 @ [turnEvent node choice quote s]\<rparr>
      in advance now (recordDecision node choice s2))"

definition humanityScore :: "hs_session \<Rightarrow> bool \<Rightarrow> int" where
  "humanityScore s framedFlag =
     clamp (50 + hs_relationScore s * 8 + (if hs_truthUnlocked s then 10 else 0)
       - (if hs_pollutionFlag s then 18 else 0) - (if framedFlag then 8 else 0)) 0 100"

definition finishGame :: "int \<Rightarrow> decision_code \<Rightarrow> hs_session \<Rightarrow> hs_session" where
  "finishGame now decision s =
     (let e = evaluateEndingCode (ending_gate s decision);
          breakdown = buildEndingBreakdown s e decision;
          s1 = s\<lparr>hs_endingCode := Some e, hs_truthUnlocked := computeTruthUnlocked s\<rparr>;
          framedFlag = (e = FRAMED_AND_JAILED)
      in s1\<lparr>hs_finalizedEvent := Some
              \<lparr>fe_ending_code = e, fe_final_dignity = hs_dignityScore s1, fe_humanity_score = humanityScore s1 framedFlag,
               fe_relation_final = hs_relationScore s1, fe_truth_unlocked = hs_truthUnlocked s1, fe_framed_flag = framedFlag\<rparr>,
            hs_finalizedBreakdown := Some breakdown, hs_completed := True, hs_updatedAt := now\<rparr>)"

subsection \<open>Operations on the store\<close>

text \<open>What a response shows of a session: all of it but the counters, footprints, budget keys and times.\<close>

record session_view =
  sw_session_id :: string
  sw_wallet :: string
  sw_user_mode :: user_mode_code
  sw_dignity_score :: int
  sw_relation_score :: int
  sw_pollution_score :: int
  sw_pollution_flag :: bool
  sw_c2_n3_passed :: bool
  sw_truth_unlocked :: bool
  sw_completed :: bool
  sw_chapter_budget_bps :: "(story_chapter, int) jsmap"
  sw_current_node :: "node \<times> story_chapter \<times> int list"
  sw_final_decision_code :: "decision_code option"
  sw_ending_code :: "ending option"
  sw_turn_events :: "turn_event list"
  sw_decision_events :: "decision_event list"
  sw_finalized_event :: "finalized_event option"
  sw_ending_breakdown :: "ending_breakdown option"

definition serializeSession :: "hs_session \<Rightarrow> session_view" where
  "serializeSession s =
     (let node = currentNode s in
      \<lparr>sw_session_id = hs_sessionId s, sw_wallet = hs_wallet s, sw_user_mode = hs_userMode s,
       sw_dignity_score = hs_dignityScore s, sw_relation_score = hs_relationScore s,
       sw_pollution_score = hs_pollutionScore s, sw_pollution_flag = hs_pollutionFlag s,
       sw_c2_n3_passed = hs_c2n3Passed s, sw_truth_unlocked = hs_truthUnlocked s, sw_completed = hs_completed s,
       sw_chapter_budget_bps = hs_chapterBudgetBps s,
       sw_current_node = (ns_id node, ns_chapter node, map ch_id (ns_choices node)),
       sw_final_decision_code = hs_finalDecisionCode s, sw_ending_code = hs_endingCode s,
       sw_turn_events = hs_turnEvents s, sw_decision_events = hs_decisionEvents s,
       sw_finalized_event = hs_finalizedEvent s, sw_ending_breakdown = hs_finalizedBreakdown s\<rparr>)"

definition startSession ::
  "string \<Rightarrow> string \<Rightarrow> int \<Rightarrow> string option \<Rightarrow> user_mode_code option \<Rightarrow> hs_store \<Rightarrow> hs_store \<times> session_view" where
  "startSession sid guest now wallet mode store =
     (let s = newSession sid (opt_or wallet (''guest-'' @ guest)) now (normalizeMode mode)
      in (map_set sid s store, serializeSession s))"

definition getSession :: "string \<Rightarrow> hs_store \<Rightarrow> hs_session result" where
  "getSession sid store = (case map_get store sid of None \<Rightarrow> Inl (Thrown ''session not found'') | Some s \<Rightarrow> Inr s)"

definition open_session :: "string \<Rightarrow> hs_store \<Rightarrow> hs_session result" where
  "open_session sid store =
     rbind (getSession sid store) (\<lambda>s. if hs_completed s then Inl (Thrown ''session already finalized'') else Inr s)"

definition quoteTurn :: "string \<Rightarrow> hs_store \<Rightarrow> (string \<times> story_chapter \<times> node \<times> quote_result) result" where
  "quoteTurn sid store =
     rbind (open_session sid store) (\<lambda>s.
       Inr (hs_sessionId s, ns_chapter (currentNode s), ns_id (currentNode s), quoteNode s))"

definition commitTurn ::
  "int \<Rightarrow> string \<Rightarrow> int \<Rightarrow> hs_store \<Rightarrow> hs_store \<times> (quote_result \<times> session_view \<times> bool) result" where
  "commitTurn now sid choiceId store =
     (case open_session sid store of
        Inl e \<Rightarrow> (store, Inl e)
      | Inr s \<Rightarrow>
        (case List.find (\<lambda>c. ch_id c = choiceId) (ns_choices (currentNode s)) of
           None \<Rightarrow> (store, Inl (Thrown ''invalid choice id for current node''))
         | Some choice \<Rightarrow>
           (let s' = commitChoice now choice s
            in (map_set sid s' store,
                Inr (quoteNode s, serializeSession s',
                     hs_currentNodeId s' = C3_N3_ENDING_RESOLVE \<and> hs_finalDecisionCode s' \<noteq> None)))))"

definition finalizeSession ::
  "int \<Rightarrow> string \<Rightarrow> hs_store \<Rightarrow> hs_store \<times> (session_view \<times> finalized_event option \<times> ending_breakdown option) result" where
  "finalizeSession now sid store =
     (case getSession sid store of
        Inl e \<Rightarrow> (store, Inl e)
      | Inr s \<Rightarrow>
        if hs_completed s \<and> hs_finalizedEvent s \<noteq> None \<and> hs_finalizedBreakdown s \<noteq> None
        then (store, Inr (serializeSession s, hs_finalizedEvent s, hs_finalizedBreakdown s))
        else (case hs_finalDecisionCode s of
                None \<Rightarrow> (store, Inl (Thrown ''final decision not committed''))
              | Some decision \<Rightarrow>
                  (let s' = finishGame now decision s
                   in (map_set sid s' store, Inr (serializeSession s', hs_finalizedEvent s', hs_finalizedBreakdown s')))))"

end
