(* ===== verification/Hide_Sis_Play.thy ===== *)
theory Hide_Sis_Play
  imports Hide_Sis_Session
begin

section \<open>How a game of Hide and Sis can go\<close>

text \<open>
  The sessions that commits and finalizations reach, by the number of commits, and what holds of all of
  them: the node is a function of the number, the scores keep their ranges, a choice is never blocked
  by its budget, and the ending and the truth depend on the mode the session was started in.
\<close>

inductive played :: "user_mode_code \<Rightarrow> nat \<Rightarrow> hs_session \<Rightarrow> bool" for mode where
  played_start: "played mode 0 (newSession sid wallet now mode)"
| played_commit: "played mode n s \<Longrightarrow> \<not> hs_completed s \<Longrightarrow> choice \<in> set (ns_choices (currentNode s)) \<Longrightarrow>
    played mode (Suc n) (commitChoice now choice s)"
| played_finish: "played mode n s \<Longrightarrow> hs_finalDecisionCode s = Some d \<Longrightarrow>
    \<not> (hs_completed s \<and> hs_finalizedEvent s \<noteq> None \<and> hs_finalizedBreakdown s \<noteq> None) \<Longrightarrow>
    played mode n (finishGame now d s)"

inductive hs_reachable :: "hs_store \<Rightarrow> bool" where
  hs_empty: "hs_reachable []"
| hs_start: "hs_reachable st \<Longrightarrow> hs_reachable (fst (startSession sid guest now wallet mode st))"
| hs_commit: "hs_reachable st \<Longrightarrow> hs_reachable (fst (commitTurn now sid choiceId st))"
| hs_finish: "hs_reachable st \<Longrightarrow> hs_reachable (fst (finalizeSession now sid st))"

lemma reachable_played: "hs_reachable st \<Longrightarrow> map_get st k = Some s \<Longrightarrow> \<exists>mode n. played mode n s"
proof (induction arbitrary: k s rule: hs_reachable.induct)
  case (hs_start st sid guest now wallet mode)
  then show ?case by (auto simp: startSession_def Let_def intro: played_start split: if_splits)
next
  case (hs_commit st now sid choiceId)
  then show ?case
    by (auto simp: commitTurn_def open_session_def getSession_def Let_def js_simps dest!: find_SomeD
        split: sum.splits option.splits if_splits) (meson played_commit)
next
  case (hs_finish st now sid)
  then show ?case
    by (auto simp: finalizeSession_def getSession_def Let_def split: sum.splits option.splits if_splits)
       (meson played_finish)+
qed simp

subsection \<open>Places and choices\<close>

fun node_index :: "node \<Rightarrow> nat" where
  "node_index C1_N1_OPENING_PROBE = 0"
| "node_index C1_N2_PRIVATE_PROOF = 1"
| "node_index C1_N3_LAST_CALL_PRESSURE = 2"
| "node_index C2_N1_TERMS_EXCHANGE = 3"
| "node_index C2_N2_FOOTPRINT_SWAP = 4"
| "node_index C2_N3_KILLER_REVEAL_GATE = 5"
| "node_index C2_N4_SECRET_PACT = 6"
| "node_index C3_N1_SYSTEM_BREAKDOWN = 7"
| "node_index C3_N2_FINAL_CHOICE = 8"
| "node_index C3_N3_ENDING_RESOLVE = 9"

lemma node_index_inject: "node_index m = node_index k \<Longrightarrow> m = k"
  by (cases m; cases k; simp)

lemma node_index_le: "node_index m \<le> 9"
  by (cases m) simp_all

lemma nodeFlow_index: "node_index (opt_or (nodeFlow m) m) = min (Suc (node_index m)) 9"
  by (cases m) simp_all

lemma node_9: "node_index m = 9 \<longleftrightarrow> m = C3_N3_ENDING_RESOLVE"
  by (cases m) simp_all

lemma story_id [simp]: "ns_id (story m) = m"
  by (cases m) (simp_all add: node_at_def)

lemmas choice_defs = plain_def dignified_def deciding_def revealing_def node_at_def

text \<open>The facts of the story's table.\<close>

lemma story_choice:
  assumes "c \<in> set (ns_choices (story m))"
  shows "ch_relationDelta c \<in> {-1, 0, 1}" "opt_or (ch_dignityDelta c) 0 \<in> {-3..4}"
    "ch_decisionCode c \<noteq> None \<longleftrightarrow> m = C2_N4_SECRET_PACT \<or> m = C3_N2_FINAL_CHOICE"
    "m = C3_N2_FINAL_CHOICE \<Longrightarrow> the (ch_decisionCode c) \<in> {END_BURY_TRUTH, END_DISCLOSE, END_DOUBLE_PLAY}"
    "m = C2_N4_SECRET_PACT \<Longrightarrow> the (ch_decisionCode c) \<notin> {END_BURY_TRUTH, END_DISCLOSE, END_DOUBLE_PLAY}"
    "m \<noteq> C1_N2_PRIVATE_PROOF \<Longrightarrow> m \<noteq> C2_N2_FOOTPRINT_SWAP \<Longrightarrow> ch_dignityDelta c = None"
    "ch_markRevealPassed c \<longleftrightarrow> m = C2_N3_KILLER_REVEAL_GATE \<and> ch_id c \<noteq> 2"
    "m = C2_N3_KILLER_REVEAL_GATE \<Longrightarrow> ch_id c = 2 \<Longrightarrow> ch_pollutionRisk c" "0 < ch_id c"
  using assms by (cases m; auto simp: choice_defs)+

lemma footprint_delta: "snd (applyFootprintDignity s node c) \<in> {0, opt_or (ch_dignityDelta c) 0}"
  by (auto simp: applyFootprintDignity_def Let_def)

subsection \<open>One commit\<close>

definition dignityGain :: "hs_session \<Rightarrow> node_choice \<Rightarrow> int" where
  "dignityGain s c = snd (applyFootprintDignity s (currentNode s) c)"

definition pollutionGain :: "hs_session \<Rightarrow> node_choice \<Rightarrow> int" where
  "pollutionGain s c = computePollutionDelta (qt_blocked (quoteNode s)) c (dignityGain s c)"

lemma commit_fields:
  "hs_currentNodeId (commitChoice now c s) = opt_or (nodeFlow (hs_currentNodeId s)) (hs_currentNodeId s)"
  "hs_userMode (commitChoice now c s) = hs_userMode s"
  "hs_relationScore (commitChoice now c s) = clamp (hs_relationScore s + ch_relationDelta c) (-3) 3"
  "hs_dignityScore (commitChoice now c s) = clamp (hs_dignityScore s + dignityGain s c) 0 100"
  "hs_pollutionScore (commitChoice now c s) = clamp (hs_pollutionScore s + pollutionGain s c) 0 3"
  "hs_pollutionFlag (commitChoice now c s) = (2 \<le> hs_pollutionScore (commitChoice now c s))"
  "hs_truthUnlocked (commitChoice now c s) = computeTruthUnlocked (commitChoice now c s)"
  "hs_completed (commitChoice now c s) = hs_completed s"
  "hs_finalizedEvent (commitChoice now c s) = hs_finalizedEvent s"
  "hs_finalizedBreakdown (commitChoice now c s) = hs_finalizedBreakdown s"
  "hs_endingCode (commitChoice now c s) = hs_endingCode s"
  "hs_chapterBudgetBps (commitChoice now c s) =
     map_set (ns_chapter (currentNode s)) (qt_budget_left_bps_after (quoteNode s)) (hs_chapterBudgetBps s)"
  "hs_nodeAttemptCounter (commitChoice now c s) = map_set (hs_currentNodeId s)
     (opt_or (map_get (hs_nodeAttemptCounter s) (hs_currentNodeId s)) 0 + 1) (hs_nodeAttemptCounter s)"
  "hs_turnEvents (commitChoice now c s) = hs_turnEvents s @ [turnEvent (currentNode s) c (quoteNode s) s]"
  by (simp_all add: commitChoice_def advance_def recordDecision_def applyChoice_def computeTruthUnlocked_def currentNode_def
      pollutionGain_def dignityGain_def Let_def split: option.split prod.split)

lemma commit_passed:
  "c \<in> set (ns_choices (currentNode s)) \<Longrightarrow> hs_c2n3Passed (commitChoice now c s) \<longleftrightarrow> hs_c2n3Passed s
     \<or> hs_currentNodeId s = C2_N3_KILLER_REVEAL_GATE \<and> (ch_id c \<noteq> 2 \<or> 3 \<le> hs_relationScore s)"
  using story_choice(7)[of c "hs_currentNodeId s"]
  by (auto simp: commitChoice_def advance_def recordDecision_def applyChoice_def currentNode_def Let_def
      split: option.split prod.split)

lemma commit_decision:
  assumes "c \<in> set (ns_choices (currentNode s))"
  shows "hs_finalDecisionCode (commitChoice now c s) =
     (if hs_currentNodeId s = C3_N2_FINAL_CHOICE then ch_decisionCode c else hs_finalDecisionCode s)"
proof (cases "ch_decisionCode c")
  case None
  then show ?thesis
    using story_choice(3)[of c "hs_currentNodeId s"] assms
    by (auto simp: commitChoice_def advance_def recordDecision_def applyChoice_def currentNode_def Let_def split: prod.split)
next
  case (Some d)
  then show ?thesis
    using story_choice(3-5)[of c "hs_currentNodeId s"] assms
    by (auto simp: commitChoice_def advance_def recordDecision_def applyChoice_def currentNode_def Let_def split: prod.split)
qed

lemma finish_fields:
  "hs_currentNodeId (finishGame now d s) = hs_currentNodeId s" "hs_userMode (finishGame now d s) = hs_userMode s"
  "hs_relationScore (finishGame now d s) = hs_relationScore s" "hs_dignityScore (finishGame now d s) = hs_dignityScore s"
  "hs_pollutionScore (finishGame now d s) = hs_pollutionScore s" "hs_pollutionFlag (finishGame now d s) = hs_pollutionFlag s"
  "hs_truthUnlocked (finishGame now d s) = computeTruthUnlocked s" "hs_completed (finishGame now d s)"
  "hs_c2n3Passed (finishGame now d s) = hs_c2n3Passed s" "hs_finalDecisionCode (finishGame now d s) = hs_finalDecisionCode s"
  "hs_chapterBudgetBps (finishGame now d s) = hs_chapterBudgetBps s" "hs_turnEvents (finishGame now d s) = hs_turnEvents s"
  "hs_nodeAttemptCounter (finishGame now d s) = hs_nodeAttemptCounter s"
  "hs_decisionEvents (finishGame now d s) = hs_decisionEvents s"
  "hs_endingCode (finishGame now d s) = Some (evaluateEndingCode (ending_gate s d))"
  "hs_finalizedBreakdown (finishGame now d s) \<noteq> None"
  "computeTruthUnlocked (finishGame now d s) = computeTruthUnlocked s"
  by (simp_all add: finishGame_def computeTruthUnlocked_def Let_def)

lemma finish_event:
  "\<exists>h. hs_finalizedEvent (finishGame now d s) = Some \<lparr>fe_ending_code = evaluateEndingCode (ending_gate s d),
     fe_final_dignity = hs_dignityScore s, fe_humanity_score = h, fe_relation_final = hs_relationScore s,
     fe_truth_unlocked = computeTruthUnlocked s, fe_framed_flag = (evaluateEndingCode (ending_gate s d) = FRAMED_AND_JAILED)\<rparr>"
  by (simp add: finishGame_def Let_def)

subsection \<open>The invariant of a game\<close>

definition dignity_bound :: "user_mode_code \<Rightarrow> nat \<Rightarrow> int" where
  "dignity_bound mode n = defaultDignityByMode mode + (if 1 < n then 4 else 0) + (if 4 < n then 4 else 0)"

definition hs_inv :: "user_mode_code \<Rightarrow> nat \<Rightarrow> hs_session \<Rightarrow> bool" where
  "hs_inv mode n s \<longleftrightarrow>
     hs_userMode s = mode \<and> node_index (hs_currentNodeId s) = min n 9
     \<and> hs_relationScore s \<in> {-3..3} \<and> hs_dignityScore s \<in> {0..dignity_bound mode n}
     \<and> hs_pollutionScore s \<in> {0..3} \<and> (hs_pollutionFlag s \<longleftrightarrow> 2 \<le> hs_pollutionScore s)
     \<and> hs_truthUnlocked s = computeTruthUnlocked s \<and> length (hs_turnEvents s) = n
     \<and> (hs_c2n3Passed s \<longrightarrow> 5 < n) \<and> (hs_finalDecisionCode s \<noteq> None \<longleftrightarrow> 9 \<le> n)
     \<and> hs_finalDecisionCode s \<in> {None, Some END_BURY_TRUTH, Some END_DISCLOSE, Some END_DOUBLE_PLAY}
     \<and> (hs_completed s \<longleftrightarrow> hs_finalizedEvent s \<noteq> None) \<and> (hs_completed s \<longleftrightarrow> hs_finalizedBreakdown s \<noteq> None)
     \<and> (hs_completed s \<longrightarrow> 9 \<le> n)"

lemma inv_start: "hs_inv mode 0 (newSession sid wallet now mode)"
  by (simp add: hs_inv_def newSession_def dignity_bound_def defaultDignityByMode_def computeTruthUnlocked_def
      evaluateTruthUnlocked_def)

lemma dignity_step:
  assumes "c \<in> set (ns_choices (currentNode s))" "hs_dignityScore s \<in> {0..dignity_bound mode n}"
    "node_index (hs_currentNodeId s) = min n 9"
  shows "clamp (hs_dignityScore s + dignityGain s c) 0 100 \<in> {0..dignity_bound mode (Suc n)}"
proof -
  let ?m = "hs_currentNodeId s"
  have c: "c \<in> set (ns_choices (story ?m))" using assms(1) by (simp add: currentNode_def)
  have g: "dignityGain s c \<in> {0, opt_or (ch_dignityDelta c) 0}" unfolding dignityGain_def by (rule footprint_delta)
  have le: "dignityGain s c \<le> 4" using g story_choice(2)[OF c] by auto
  have zero: "dignityGain s c = 0" if "?m \<noteq> C1_N2_PRIVATE_PROOF" "?m \<noteq> C2_N2_FOOTPRINT_SWAP"
    using g story_choice(6)[OF c that] by simp
  have d: "hs_dignityScore s + dignityGain s c \<le> dignity_bound mode (Suc n)"
  proof (cases "?m = C1_N2_PRIVATE_PROOF \<or> ?m = C2_N2_FOOTPRINT_SWAP")
    case True
    then have "n = 1 \<or> n = 4" using assms(3) by auto
    then show ?thesis using assms(2) le by (auto simp: dignity_bound_def)
  next
    case False
    then show ?thesis using zero assms(2) by (auto simp: dignity_bound_def split: if_splits)
  qed
  have "0 \<le> dignity_bound mode (Suc n)" by (simp add: dignity_bound_def defaultDignityByMode_def)
  with d show ?thesis by (auto simp: clamp_def)
qed

lemma inv_commit:
  assumes inv: "hs_inv mode n s" and c: "c \<in> set (ns_choices (currentNode s))" and o: "\<not> hs_completed s"
  shows "hs_inv mode (Suc n) (commitChoice now c s)"
proof -
  let ?s = "commitChoice now c s" and ?m = "hs_currentNodeId s"
  have idx: "node_index ?m = min n 9" using inv by (simp add: hs_inv_def)
  have m: "?m = C2_N3_KILLER_REVEAL_GATE \<Longrightarrow> n = 5" "?m = C3_N2_FINAL_CHOICE \<longleftrightarrow> n = 8"
    using idx by (cases ?m; auto simp: min_def split: if_splits)+
  have cs: "c \<in> set (ns_choices (story ?m))" using c by (simp add: currentNode_def)
  have old: "hs_c2n3Passed s \<Longrightarrow> 5 < n" "hs_finalDecisionCode s \<noteq> None \<longleftrightarrow> 9 \<le> n"
      "hs_finalDecisionCode s \<in> {None, Some END_BURY_TRUTH, Some END_DISCLOSE, Some END_DOUBLE_PLAY}"
    using inv by (simp_all add: hs_inv_def)
  have passed: "hs_c2n3Passed ?s \<longrightarrow> 5 < Suc n"
    using commit_passed[OF c, of now] m(1) old(1) by auto
  have "node_index (hs_currentNodeId ?s) = min (Suc n) 9"
    by (simp add: commit_fields nodeFlow_index idx)
  moreover have "hs_dignityScore ?s \<in> {0..dignity_bound mode (Suc n)}"
    using dignity_step[OF c, of mode n] inv idx by (simp add: commit_fields hs_inv_def)
  moreover note passed
  moreover have "hs_finalDecisionCode ?s \<noteq> None \<longleftrightarrow> 9 \<le> Suc n"
    using commit_decision[OF c, of now] m(2) old(2) story_choice(3)[OF cs] by auto
  moreover have "hs_finalDecisionCode ?s \<in> {None, Some END_BURY_TRUTH, Some END_DISCLOSE, Some END_DOUBLE_PLAY}"
    using commit_decision[OF c, of now] old(3) story_choice(4)[OF cs]
    by (cases "ch_decisionCode c") auto
  ultimately show ?thesis
    using inv o by (simp add: hs_inv_def commit_fields)
qed

lemma inv_finish:
  assumes "hs_inv mode n s" "hs_finalDecisionCode s = Some d"
  shows "hs_inv mode n (finishGame now d s)"
  using assms finish_event[of now d s] by (auto simp: hs_inv_def finish_fields)

lemma played_inv: "played mode n s \<Longrightarrow> hs_inv mode n s"
  by (induction rule: played.induct) (simp_all add: inv_start inv_commit inv_finish)

lemma dignity_bound_le: "dignity_bound mode n \<le> 80" "mode \<noteq> UM_VERIFIED \<Longrightarrow> dignity_bound mode n \<le> 58"
  by (cases mode; simp add: dignity_bound_def defaultDignityByMode_def)+

subsection \<open>Budgets\<close>

lemma chapterHeat_bounds: "0 \<le> chapterHeat c" "chapterHeat c \<le> fl (145 / 100)"
proof -
  have "0 \<le> fl (12 / 10)" "fl (12 / 10) \<le> fl (145 / 100)" "1 \<le> fl (145 / 100)"
    using fl_mono[of 0 "12 / 10"] fl_ge_int[of 1 "145 / 100"] by (simp_all add: fl_mono)
  then show "0 \<le> chapterHeat c" "chapterHeat c \<le> fl (145 / 100)" by (auto simp: chapterHeat_def)
qed

lemma dignityHeat_bounds:
  assumes "d \<in> {0..100}"
  shows "0 \<le> dignityHeatFactor d" "dignityHeatFactor d \<le> dignityHeatFactor 0"
proof -
  have "(0::rat) \<le> of_int (100 - d) / 140" "(of_int (100 - d) / 140 :: rat) \<le> of_int (100 - 0) / 140" using assms by simp_all
  from fl_mono[OF this(1)] fl_mono[OF this(2)]
  have q: "0 \<le> fl (of_int (100 - d) / 140)" "fl (of_int (100 - d) / 140) \<le> fl (of_int (100 - 0) / 140)"
    by (simp_all only: fl_0)
  show "0 \<le> dignityHeatFactor d" using q(1) fl_mono[of 0 "1 + fl (of_int (100 - d) / 140)"] by (simp add: dignityHeatFactor_def)
  show "dignityHeatFactor d \<le> dignityHeatFactor 0" unfolding dignityHeatFactor_def by (rule fl_mono[OF add_left_mono[OF q(2)]])
qed

lemma fl_mult_mono: "0 \<le> a \<Longrightarrow> a \<le> a' \<Longrightarrow> 0 \<le> b \<Longrightarrow> b \<le> b' \<Longrightarrow> 0 \<le> fl (a * b) \<and> fl (a * b) \<le> fl (a' * b')"
  using fl_mono[of 0 "a * b"] fl_mono[of "a * b" "a' * b'"] mult_mono[of a a' b b'] by simp

text \<open>The dearest first attempt: the last chapter, without any dignity.\<close>

lemma rawCost_first:
  assumes "d \<in> {0..100}"
  shows "0 \<le> rawCost c d 1" "rawCost c d 1 \<le> 1616"
proof -
  define x where "x = fl (fl (650 * chapterHeat c) * dignityHeatFactor d)"
  define y where "y = fl (fl (650 * fl (145 / 100)) * dignityHeatFactor 0)"
  have "0 \<le> fl (650 * chapterHeat c) \<and> fl (650 * chapterHeat c) \<le> fl (650 * fl (145 / 100))"
    by (intro fl_mult_mono chapterHeat_bounds) simp_all
  then have x: "0 \<le> x \<and> x \<le> y"
    unfolding x_def y_def by (intro fl_mult_mono dignityHeat_bounds assms) auto
  have one: "fl (1::rat) = 1" using fl_of_int[of 1] by simp
  have r: "rawCost c d 1 = js_round (fl (x * 1))" by (simp add: rawCost_def x_def one)
  have "js_round (fl (y * 1)) = 1616" unfolding y_def by code_simp
  then show "rawCost c d 1 \<le> 1616" using x js_round_mono[OF fl_mono[of "x * 1" "y * 1"]] by (simp add: r)
  have "0 \<le> fl (x * 1)" using x fl_mono[of 0 "x * 1"] by simp
  then show "0 \<le> rawCost c d 1" using js_round_ge[of 0 "fl (x * 1)"] by (simp add: r)
qed

lemma quote_first:
  assumes "hs_dignityScore s \<in> {0..100}" "map_get (hs_nodeAttemptCounter s) (hs_currentNodeId s) = None"
    "map_get (hs_chapterBudgetBps s) (ns_chapter (currentNode s)) = Some b"
  shows "\<exists>cost \<in> {200..2182}. qt_budget_cost_bps (quoteNode s) = cost
      \<and> qt_budget_left_bps_after (quoteNode s) = clamp (b - cost) 0 10000
      \<and> (qt_blocked (quoteNode s) \<longleftrightarrow> ns_interrogative (currentNode s) \<and> b \<le> cost)"
proof (cases "ns_interrogative (currentNode s)")
  case False
  then show ?thesis using assms(3) by (intro bexI[of _ 200]) (simp_all add: quoteNode_def Let_def)
next
  case True
  let ?r = "rawCost (ns_chapter (currentNode s)) (hs_dignityScore s) 1"
  let ?cost = "clamp (js_round (fl (of_int ?r * fl (135 / 100)))) 300 7500"
  have f: "0 \<le> fl (135 / 100)" using fl_mono[of 0 "135 / 100"] by simp
  have "of_int ?r * fl (135 / 100) \<le> of_int 1616 * fl (135 / 100)"
    using rawCost_first[OF assms(1)] f by (intro mult_right_mono) (simp_all only: of_int_le_iff)
  then have "js_round (fl (of_int ?r * fl (135 / 100))) \<le> js_round (fl (of_int 1616 * fl (135 / 100)))"
    by (intro js_round_mono fl_mono)
  also have "\<dots> = 2182" by code_simp
  finally have "?cost \<in> {200..2182}" by (simp add: clamp_def)
  moreover have "ns_id (currentNode s) = hs_currentNodeId s" by (simp add: currentNode_def)
  ultimately show ?thesis
    using True assms(2,3) by (intro bexI[of _ ?cost]) (auto simp: quoteNode_def Let_def)
qed

definition spent :: "story_chapter \<Rightarrow> nat \<Rightarrow> nat" where
  "spent c n = (case c of CH1_NIGHT_DINNER \<Rightarrow> min n 3 | CH2_MEMORY_TRADE \<Rightarrow> min (n - 3) 4 | CH3_ROOFTOP_COLLAPSE \<Rightarrow> min (n - 7) 2)"

definition budget_inv :: "nat \<Rightarrow> hs_session \<Rightarrow> bool" where
  "budget_inv n s \<longleftrightarrow> (n \<le> 9 \<longrightarrow>
     (\<forall>c. \<exists>b. map_get (hs_chapterBudgetBps s) c = Some b \<and> 10000 - 2182 * int (spent c n) \<le> b \<and> b \<le> 10000)
     \<and> (\<forall>m. n \<le> node_index m \<longrightarrow> map_get (hs_nodeAttemptCounter s) m = None))"

lemma spent_step: "node_index m < 9 \<Longrightarrow> spent c (Suc (node_index m)) = spent c (node_index m) + (if c = ns_chapter (story m) then 1 else 0)"
  by (cases m; cases c; simp add: spent_def node_at_def)

lemma spent_interrogative: "ns_interrogative (story m) \<Longrightarrow> node_index m < 9 \<and> spent (ns_chapter (story m)) (node_index m) \<le> 2"
  by (cases m) (simp_all add: spent_def node_at_def)

lemma played_budget: "played mode n s \<Longrightarrow> budget_inv n s"
proof (induction rule: played.induct)
  case (played_start sid wallet now)
  then show ?case
    by (auto simp: budget_inv_def newSession_def spent_def intro: story_chapter.exhaust split: story_chapter.split)
next
  case (played_commit n s choice now)
  show ?case
  proof (cases "n < 9")
    case False
    then show ?thesis by (simp add: budget_inv_def)
  next
    case True
    let ?m = "hs_currentNodeId s" and ?c = "ns_chapter (currentNode s)" and ?s = "commitChoice now choice s"
    have inv: "hs_inv mode n s" using played_commit.hyps(1) by (rule played_inv)
    then have m: "node_index ?m = n" using True by (simp add: hs_inv_def)
    have b: "\<exists>b. map_get (hs_chapterBudgetBps s) c = Some b \<and> 10000 - 2182 * int (spent c n) \<le> b \<and> b \<le> 10000" for c
      using played_commit.IH True by (simp add: budget_inv_def)
    have cnt: "n \<le> node_index k \<Longrightarrow> map_get (hs_nodeAttemptCounter s) k = None" for k
      using played_commit.IH True by (simp add: budget_inv_def)
    obtain b0 where b0: "map_get (hs_chapterBudgetBps s) ?c = Some b0" "10000 - 2182 * int (spent ?c n) \<le> b0" "b0 \<le> 10000"
      using b by blast
    have d: "hs_dignityScore s \<in> {0..100}" using inv dignity_bound_le(1)[of mode n] by (auto simp: hs_inv_def)
    obtain cost where cost: "cost \<in> {200..2182}" "qt_budget_left_bps_after (quoteNode s) = clamp (b0 - cost) 0 10000"
      using quote_first[OF d cnt b0(1)] m by auto
    have sp: "spent c (Suc n) = spent c n + (if c = ?c then 1 else 0)" for c
      using spent_step[of ?m c] m True by (simp add: currentNode_def)
    have "\<exists>b. map_get (hs_chapterBudgetBps ?s) c = Some b \<and> 10000 - 2182 * int (spent c (Suc n)) \<le> b \<and> b \<le> 10000" for c
      using b[of c] b0 cost by (auto simp: commit_fields sp clamp_def)
    moreover have "map_get (hs_nodeAttemptCounter ?s) k = None" if "Suc n \<le> node_index k" for k
      using that cnt[of k] m by (auto simp: commit_fields)
    ultimately show ?thesis by (simp add: budget_inv_def)
  qed
qed (simp add: budget_inv_def finish_fields)

lemma played_not_blocked:
  assumes "played mode n s" "\<not> hs_completed s"
  shows "\<not> qt_blocked (quoteNode s)"
proof (cases "ns_interrogative (currentNode s)")
  case False
  then show ?thesis by (simp add: quoteNode_def Let_def)
next
  case True
  let ?c = "ns_chapter (currentNode s)"
  have inv: "hs_inv mode n s" using assms(1) by (rule played_inv)
  have i: "node_index (hs_currentNodeId s) < 9" "spent ?c (node_index (hs_currentNodeId s)) \<le> 2"
    using spent_interrogative[of "hs_currentNodeId s"] True by (simp_all add: currentNode_def)
  then have n: "node_index (hs_currentNodeId s) = n" "n < 9" using inv by (simp_all add: hs_inv_def min_def split: if_splits)
  have bi: "budget_inv n s" using assms(1) by (rule played_budget)
  then obtain b where b: "map_get (hs_chapterBudgetBps s) ?c = Some b" "10000 - 2182 * int (spent ?c n) \<le> b"
    using n(2) by (auto simp: budget_inv_def)
  have "map_get (hs_nodeAttemptCounter s) (hs_currentNodeId s) = None" using bi n by (simp add: budget_inv_def)
  moreover have "hs_dignityScore s \<in> {0..100}" using inv dignity_bound_le(1)[of mode n] by (auto simp: hs_inv_def)
  ultimately show ?thesis using quote_first[OF _ _ b(1)] b(2) i(2) n(1) by fastforce
qed

text \<open>What a finalized session has recorded is what its scores give.\<close>

definition final_inv :: "hs_session \<Rightarrow> bool" where
  "final_inv s \<longleftrightarrow>
     (if hs_completed s
      then \<exists>d h. hs_finalDecisionCode s = Some d \<and> hs_endingCode s = Some (evaluateEndingCode (ending_gate s d))
        \<and> hs_finalizedEvent s = Some \<lparr>fe_ending_code = evaluateEndingCode (ending_gate s d),
            fe_final_dignity = hs_dignityScore s, fe_humanity_score = h, fe_relation_final = hs_relationScore s,
            fe_truth_unlocked = computeTruthUnlocked s,
            fe_framed_flag = (evaluateEndingCode (ending_gate s d) = FRAMED_AND_JAILED)\<rparr>
      else hs_endingCode s = None)"

lemma ending_gate_finish: "ending_gate (finishGame now d s) e = ending_gate s e"
  by (simp add: ending_gate_def finish_fields)

lemma played_final: "played mode n s \<Longrightarrow> final_inv s"
proof (induction rule: played.induct)
  case (played_finish n s d now)
  then show ?case
    using finish_event[of now d s] by (simp add: final_inv_def finish_fields ending_gate_finish)
qed (simp_all add: final_inv_def newSession_def commit_fields)

lemma stored_inv:
  assumes "hs_reachable st" "map_get st k = Some s"
  obtains mode n where "played mode n s" "hs_inv mode n s" "n = length (hs_turnEvents s)" "mode = hs_userMode s" "final_inv s"
proof -
  obtain mode n where p: "played mode n s" using reachable_played[OF assms] by blast
  then have inv: "hs_inv mode n s" by (rule played_inv)
  then have "n = length (hs_turnEvents s)" "mode = hs_userMode s" by (simp_all add: hs_inv_def)
  then show thesis using that p inv played_final[OF p] by blast
qed

subsection \<open>The game without its budgets\<close>

text \<open>What decides an ending: the node and the four scores, with no budgets, counters, costs and events.\<close>

record game =
  g_node :: node
  g_relation :: int
  g_dignity :: int
  g_pollution :: int
  g_passed :: bool
  g_decision :: "decision_code option"

definition abs_game :: "hs_session \<Rightarrow> game" where
  "abs_game s = \<lparr>g_node = hs_currentNodeId s, g_relation = hs_relationScore s, g_dignity = hs_dignityScore s,
     g_pollution = hs_pollutionScore s, g_passed = hs_c2n3Passed s, g_decision = hs_finalDecisionCode s\<rparr>"

definition game_step :: "node_choice \<Rightarrow> game \<Rightarrow> game" where
  "game_step c g =
     (let d = opt_or (ch_dignityDelta c) 0 in
      \<lparr>g_node = opt_or (nodeFlow (g_node g)) (g_node g),
       g_relation = clamp (g_relation g + ch_relationDelta c) (-3) 3, g_dignity = clamp (g_dignity g + d) 0 100,
       g_pollution = clamp (g_pollution g + computePollutionDelta False c d) 0 3,
       g_passed = g_passed g \<or> g_node g = C2_N3_KILLER_REVEAL_GATE \<and> (ch_id c \<noteq> 2 \<or> 3 \<le> g_relation g),
       g_decision = (if g_node g = C3_N2_FINAL_CHOICE then ch_decisionCode c else g_decision g)\<rparr>)"

definition game_ending :: "game \<Rightarrow> ending option" where
  "game_ending g = map_option (\<lambda>d. evaluateEndingCode \<lparr>eg_final_decision_code = d, eg_dignity_score = g_dignity g,
     eg_relation_score = g_relation g, eg_pollution_flag = (2 \<le> g_pollution g)\<rparr>) (g_decision g)"

lemma game_simps [simp]:
  "g_node (abs_game s) = hs_currentNodeId s" "g_relation (abs_game s) = hs_relationScore s"
  "g_dignity (abs_game s) = hs_dignityScore s" "g_pollution (abs_game s) = hs_pollutionScore s"
  "g_passed (abs_game s) = hs_c2n3Passed s" "g_decision (abs_game s) = hs_finalDecisionCode s"
  by (simp_all add: abs_game_def)

lemma commit_footprints:
  "hs_verifiedFootprints (commitChoice now c s) = fst (applyFootprintDignity s (currentNode s) c)"
  by (simp add: commitChoice_def advance_def recordDecision_def applyChoice_def Let_def split: option.split prod.split)

lemma played_footprints: "played mode n s \<Longrightarrow> n \<le> 4 \<longrightarrow> hs_verifiedFootprints s = []"
proof (induction rule: played.induct)
  case (played_commit n s choice now)
  have "hs_inv mode n s" using played_commit.hyps(1) by (rule played_inv)
  then have "n < 4 \<Longrightarrow> hs_currentNodeId s \<noteq> C2_N2_FOOTPRINT_SWAP" by (auto simp: hs_inv_def)
  then show ?case using played_commit.IH by (auto simp: commit_footprints applyFootprintDignity_def currentNode_def)
qed (simp_all add: newSession_def finishGame_def Let_def)

lemma played_dignityGain: "played mode n s \<Longrightarrow> dignityGain s c = opt_or (ch_dignityDelta c) 0"
proof -
  assume p: "played mode n s"
  show ?thesis
  proof (cases "hs_currentNodeId s = C2_N2_FOOTPRINT_SWAP")
    case True
    then have "n = 4" using played_inv[OF p] by (auto simp: hs_inv_def min_def split: if_splits)
    then show ?thesis using played_footprints[OF p] by (simp add: dignityGain_def applyFootprintDignity_def Let_def)
  qed (simp add: dignityGain_def applyFootprintDignity_def currentNode_def)
qed

lemma abs_commit:
  assumes "played mode n s" "\<not> hs_completed s" "c \<in> set (ns_choices (currentNode s))"
  shows "abs_game (commitChoice now c s) = game_step c (abs_game s)"
  using played_not_blocked[OF assms(1,2)] played_dignityGain[OF assms(1), of c]
  by (simp add: abs_game_def game_step_def commit_fields commit_passed[OF assms(3)] commit_decision[OF assms(3)]
      pollutionGain_def Let_def)

text \<open>A run of choices by their identifiers, on the game and on a store.\<close>

fun game_run :: "int list \<Rightarrow> game \<Rightarrow> game option" where
  "game_run [] g = Some g"
| "game_run (i # is) g =
     Option.bind (List.find (\<lambda>c. ch_id c = i) (ns_choices (story (g_node g)))) (\<lambda>c. game_run is (game_step c g))"

definition play_choices :: "string \<Rightarrow> int list \<Rightarrow> hs_store \<Rightarrow> hs_store" where
  "play_choices sid choices st = foldl (\<lambda>st c. fst (commitTurn 2000 sid c st)) st choices"

lemma play_run:
  assumes "hs_reachable st" "map_get st sid = Some s" "\<not> hs_completed s" "game_run is (abs_game s) = Some g"
  shows "\<exists>s'. map_get (play_choices sid is st) sid = Some s' \<and> \<not> hs_completed s' \<and> abs_game s' = g
     \<and> hs_userMode s' = hs_userMode s \<and> hs_reachable (play_choices sid is st)"
  using assms
proof (induction "is" arbitrary: st s)
  case Nil
  then show ?case by (simp add: play_choices_def)
next
  case (Cons i "is")
  from Cons.prems(4) obtain c where c: "List.find (\<lambda>c. ch_id c = i) (ns_choices (currentNode s)) = Some c"
      "game_run is (game_step c (abs_game s)) = Some g"
    by (auto simp: currentNode_def bind_eq_Some_conv)
  obtain mode n where p: "played mode n s" using stored_inv[OF Cons.prems(1,2)] by metis
  have "c \<in> set (ns_choices (currentNode s))" using find_SomeD[OF c(1)] by simp
  then have a: "abs_game (commitChoice 2000 c s) = game_step c (abs_game s)" by (rule abs_commit[OF p Cons.prems(3)])
  let ?st = "fst (commitTurn 2000 sid i st)"
  have st: "map_get ?st sid = Some (commitChoice 2000 c s)"
    using Cons.prems(2,3) c(1) by (simp add: commitTurn_def open_session_def getSession_def Let_def)
  show ?case
    using Cons.IH[OF hs_commit[OF Cons.prems(1)] st] Cons.prems(3) c(2)
    by (simp add: commit_fields a play_choices_def)
qed

definition sample_store :: "user_mode_code \<Rightarrow> hs_store" where
  "sample_store mode = fst (startSession ''s1'' ''g'' 1000 (Some ''W1'') (Some mode) [])"

lemma sample_store_facts:
  "hs_reachable (sample_store mode)"
  "map_get (sample_store mode) ''s1'' = Some (newSession ''s1'' ''W1'' 1000 mode)"
  unfolding sample_store_def
  by (rule hs_start, rule hs_empty) (cases mode; simp add: startSession_def Let_def normalizeMode_def)

lemma newSession_open: "\<not> hs_completed (newSession sid wallet now mode)"
  by (simp add: newSession_def)

lemma sample_play:
  assumes "game_run is (abs_game (newSession ''s1'' ''W1'' 1000 mode)) = Some g"
  shows "\<exists>s. map_get (play_choices ''s1'' is (sample_store mode)) ''s1'' = Some s \<and> \<not> hs_completed s \<and> abs_game s = g
     \<and> hs_userMode s = mode \<and> hs_reachable (play_choices ''s1'' is (sample_store mode))"
  using play_run[OF sample_store_facts newSession_open assms] by (simp add: newSession_def)

subsection \<open>Properties\<close>

text \<open>
  C13. A game always gets on and always ends: the number of commits decides the node, at every node before
  the end choice 1 is accepted and exactly the listed choices are, and a session can be finalized exactly
  from its ninth commit on.
\<close>

theorem game_ends_after_nine_choices:
  assumes "hs_reachable st" "map_get st sid = Some s"
  shows "node_index (hs_currentNodeId s) = min (length (hs_turnEvents s)) 9
     \<and> ((\<exists>r. snd (finalizeSession now sid st) = Inr r) \<longleftrightarrow> 9 \<le> length (hs_turnEvents s))
     \<and> ((\<exists>r. snd (commitTurn now sid choiceId st) = Inr r) \<longleftrightarrow>
          \<not> hs_completed s \<and> choiceId \<in> ch_id ` set (ns_choices (currentNode s)))
     \<and> 1 \<in> ch_id ` set (ns_choices (currentNode s))"
proof -
  obtain mode n where inv: "hs_inv mode n s" "n = length (hs_turnEvents s)" using stored_inv[OF assms] by metis
  have "(\<exists>r. snd (finalizeSession now sid st) = Inr r) \<longleftrightarrow> hs_finalDecisionCode s \<noteq> None"
  proof -
    have "hs_completed s \<longrightarrow> hs_finalDecisionCode s \<noteq> None" using inv(1) by (simp add: hs_inv_def)
    then show ?thesis using assms(2)
      by (cases "hs_finalDecisionCode s") (simp_all add: finalizeSession_def getSession_def Let_def)
  qed
  moreover have "(\<exists>r. snd (commitTurn now sid choiceId st) = Inr r) \<longleftrightarrow>
      \<not> hs_completed s \<and> choiceId \<in> ch_id ` set (ns_choices (currentNode s))"
    using assms(2)
    by (auto simp: commitTurn_def open_session_def getSession_def Let_def find_None_iff dest: find_SomeD split: option.split)
  moreover have "1 \<in> ch_id ` set (ns_choices (currentNode s))"
    unfolding currentNode_def by (cases "hs_currentNodeId s") (simp_all add: choice_defs)
  ultimately show ?thesis using inv by (simp add: hs_inv_def)
qed

theorem game_ends_after_nine_choices_witness:
  "\<exists>r. snd (finalizeSession 3000 ''s1'' (play_choices ''s1'' [2, 1, 3, 1, 2, 1, 1, 1, 1] (sample_store UM_VERIFIED))) = Inr r"
proof -
  let ?cs = "[2, 1, 3, 1, 2, 1, 1, 1, 1] :: int list"
  have "map_option g_node (game_run ?cs (abs_game (newSession ''s1'' ''W1'' 1000 UM_VERIFIED))) = Some C3_N3_ENDING_RESOLVE"
    by code_simp
  then obtain g where g: "game_run ?cs (abs_game (newSession ''s1'' ''W1'' 1000 UM_VERIFIED)) = Some g" "g_node g = C3_N3_ENDING_RESOLVE"
    by auto
  obtain s where s: "map_get (play_choices ''s1'' ?cs (sample_store UM_VERIFIED)) ''s1'' = Some s" "abs_game s = g"
      "hs_reachable (play_choices ''s1'' ?cs (sample_store UM_VERIFIED))"
    using sample_play[OF g(1)] by blast
  have "hs_currentNodeId s = C3_N3_ENDING_RESOLVE" using s(2) g(2) by auto
  then have "min (length (hs_turnEvents s)) 9 = 9"
    using conjunct1[OF game_ends_after_nine_choices[OF s(3,1), of 3000 1]] by simp
  then have "9 \<le> length (hs_turnEvents s)" by (simp add: min_def split: if_splits)
  then show ?thesis using game_ends_after_nine_choices[OF s(3,1), of 3000 1] by blast
qed

text \<open>
  The budget of suspicion never matters: at every node of every game the quote is not blocked and costs
  at most 2182 basis points, less than a quarter of a chapter's budget, because no node is tried twice.
\<close>

theorem budget_never_blocks:
  assumes "hs_reachable st" "quoteTurn sid st = Inr (i, c, m, q)"
  shows "\<not> qt_blocked q \<and> qt_budget_cost_bps q \<le> 2182"
proof -
  obtain s where s: "map_get st sid = Some s" "\<not> hs_completed s" "q = quoteNode s"
    using assms(2) by (auto simp: quoteTurn_def open_session_def getSession_def js_simps split: option.splits if_splits)
  obtain mode n where p: "played mode n s" "hs_inv mode n s" using stored_inv[OF assms(1) s(1)] by metis
  have "qt_budget_cost_bps (quoteNode s) \<le> 2182"
  proof (cases "n < 9")
    case True
    then have n: "node_index (hs_currentNodeId s) = n" using p(2) by (simp add: hs_inv_def)
    have bi: "budget_inv n s" using p(1) by (rule played_budget)
    then obtain b where "map_get (hs_chapterBudgetBps s) (ns_chapter (currentNode s)) = Some b"
      using True by (auto simp: budget_inv_def)
    moreover have "map_get (hs_nodeAttemptCounter s) (hs_currentNodeId s) = None" using bi n True by (simp add: budget_inv_def)
    moreover have "hs_dignityScore s \<in> {0..100}" using p(2) dignity_bound_le(1)[of mode n] by (auto simp: hs_inv_def)
    ultimately show ?thesis using quote_first[of s b] by auto
  next
    case False
    then have "hs_currentNodeId s = C3_N3_ENDING_RESOLVE" using p(2) by (simp add: hs_inv_def flip: node_9)
    then show ?thesis by (simp add: quoteNode_def currentNode_def node_at_def Let_def)
  qed
  then show ?thesis using played_not_blocked[OF p(1) s(2)] s(3) by simp
qed

theorem budget_never_blocks_witness:
  "\<exists>i c m q. quoteTurn ''s1'' (sample_store UM_BOT_SUSPECTED) = Inr (i, c, m, q) \<and> \<not> qt_blocked q"
proof -
  have "\<exists>i c m q. quoteTurn ''s1'' (sample_store UM_BOT_SUSPECTED) = Inr (i, c, m, q)"
    using sample_store_facts(2)[of UM_BOT_SUSPECTED]
    by (simp add: quoteTurn_def open_session_def getSession_def newSession_open)
  then show ?thesis using budget_never_blocks[OF sample_store_facts(1)] by blast
qed

text \<open>
  C15. Only a verified session can reach the truth: for a guest or a suspected bot the dignity stays at 58 at
  most, so the truth is never unlocked and the game never ends with \<open>SILK_BURIAL_TRUE\<close>.
\<close>

theorem only_verified_reach_truth:
  assumes "hs_reachable st" "map_get st sid = Some s" "hs_userMode s \<noteq> UM_VERIFIED"
  shows "hs_dignityScore s \<le> 58 \<and> \<not> hs_truthUnlocked s \<and> hs_endingCode s \<noteq> Some SILK_BURIAL_TRUE"
proof -
  obtain mode n where p: "hs_inv mode n s" "mode = hs_userMode s" "final_inv s" using stored_inv[OF assms(1,2)] by metis
  have d: "hs_dignityScore s \<le> 58" using p(1,2) dignity_bound_le(2)[of mode n] assms(3) by (auto simp: hs_inv_def)
  moreover have "\<not> hs_truthUnlocked s" using p(1) d by (simp add: hs_inv_def computeTruthUnlocked_def evaluateTruthUnlocked_def)
  moreover have "hs_endingCode s \<noteq> Some SILK_BURIAL_TRUE"
    using p(3) d by (auto simp: final_inv_def evaluateEndingCode_def isStableCooperationPath_def ending_gate_def split: if_splits)
  ultimately show ?thesis by simp
qed

theorem only_verified_reach_truth_witness:
  "\<exists>s. map_get (play_choices ''s1'' [2, 1, 3, 1, 2, 1, 1, 1, 1] (sample_store UM_GUEST)) ''s1'' = Some s
     \<and> hs_dignityScore s = 58 \<and> hs_relationScore s = 3 \<and> hs_c2n3Passed s \<and> \<not> hs_truthUnlocked s"
proof -
  let ?cs = "[2, 1, 3, 1, 2, 1, 1, 1, 1] :: int list"
  have "map_option (\<lambda>g. (g_dignity g, g_relation g, g_passed g)) (game_run ?cs (abs_game (newSession ''s1'' ''W1'' 1000 UM_GUEST)))
      = Some (58, 3, True)" by code_simp
  then obtain g where g: "game_run ?cs (abs_game (newSession ''s1'' ''W1'' 1000 UM_GUEST)) = Some g"
      "g_dignity g = 58" "g_relation g = 3" "g_passed g" by auto
  obtain s where s: "map_get (play_choices ''s1'' ?cs (sample_store UM_GUEST)) ''s1'' = Some s" "abs_game s = g"
      "hs_reachable (play_choices ''s1'' ?cs (sample_store UM_GUEST))" "hs_userMode s = UM_GUEST"
    using sample_play[OF g(1)] by blast
  have "hs_dignityScore s = 58" "hs_relationScore s = 3" "hs_c2n3Passed s" using s(2) g(2-4) by auto
  moreover have "\<not> hs_truthUnlocked s" using only_verified_reach_truth[OF s(3,1)] s(4) by simp
  ultimately show ?thesis using s(1) by blast
qed

text \<open>
  C12. The budgets, costs and counters do not matter: on the node and the scores a commit acts as a step of
  the game without them, and the ending a session is finalized with is that of the game.
\<close>

theorem game_refines_abstract:
  assumes "hs_reachable st" "map_get st sid = Some s" "\<not> hs_completed s"
    and "List.find (\<lambda>c. ch_id c = i) (ns_choices (story (hs_currentNodeId s))) = Some c"
  shows "\<exists>s'. map_get (fst (commitTurn now sid i st)) sid = Some s' \<and> abs_game s' = game_step c (abs_game s)
     \<and> (9 \<le> length (hs_turnEvents s') \<longrightarrow>
         (\<exists>f. map_get (fst (finalizeSession now sid (fst (commitTurn now sid i st)))) sid = Some f
            \<and> hs_endingCode f = game_ending (game_step c (abs_game s))))"
proof -
  let ?s = "commitChoice now c s" and ?st = "fst (commitTurn now sid i st)"
  obtain mode n where p: "played mode n s" "hs_inv mode n s" using stored_inv[OF assms(1,2)] by metis
  have f: "List.find (\<lambda>c. ch_id c = i) (ns_choices (currentNode s)) = Some c" using assms(4) by (simp add: currentNode_def)
  have c: "c \<in> set (ns_choices (currentNode s))" using find_SomeD[OF f] by simp
  have st: "map_get ?st sid = Some ?s"
    using assms(2,3) f by (simp add: commitTurn_def open_session_def getSession_def Let_def)
  have a: "abs_game ?s = game_step c (abs_game s)" by (rule abs_commit[OF p(1) assms(3) c])
  have inv: "hs_inv mode (Suc n) ?s" by (rule inv_commit[OF p(2) c assms(3)])
  have "\<exists>f. map_get (fst (finalizeSession now sid ?st)) sid = Some f \<and> hs_endingCode f = game_ending (abs_game ?s)"
    if "9 \<le> length (hs_turnEvents ?s)"
  proof -
    have "length (hs_turnEvents ?s) = Suc n" "hs_finalDecisionCode ?s \<noteq> None \<longleftrightarrow> 9 \<le> Suc n"
      using inv unfolding hs_inv_def by blast+
    then obtain d where d: "hs_finalDecisionCode ?s = Some d" using \<open>9 \<le> length (hs_turnEvents ?s)\<close> by auto
    have "map_get (fst (finalizeSession now sid ?st)) sid = Some (finishGame now d ?s)"
      using st d assms(3) by (simp add: finalizeSession_def getSession_def commit_fields Let_def)
    moreover have "hs_endingCode (finishGame now d ?s) = game_ending (abs_game ?s)"
      using d by (simp add: finish_fields game_ending_def ending_gate_def commit_fields(6))
    ultimately show ?thesis by blast
  qed
  then show ?thesis using st a by auto
qed

theorem game_refines_abstract_witness:
  "\<exists>s'. map_get (fst (commitTurn 5 ''s1'' 1 (sample_store UM_GUEST))) ''s1'' = Some s'
     \<and> abs_game s' = \<lparr>g_node = C1_N2_PRIVATE_PROOF, g_relation = -1, g_dignity = 50, g_pollution = 1, g_passed = False,
          g_decision = None\<rparr>"
proof -
  let ?s = "newSession ''s1'' ''W1'' 1000 UM_GUEST"
  have f: "List.find (\<lambda>c. ch_id c = 1) (ns_choices (story (hs_currentNodeId ?s))) = Some (plain 1 (-1) True)"
    by (simp add: newSession_def choice_defs)
  have "game_step (plain 1 (-1) True) (abs_game ?s) = \<lparr>g_node = C1_N2_PRIVATE_PROOF, g_relation = -1, g_dignity = 50,
      g_pollution = 1, g_passed = False, g_decision = None\<rparr>" by code_simp
  then show ?thesis using game_refines_abstract[OF sample_store_facts newSession_open f] by metis
qed

text \<open>
  Pollution can be washed away at the end: once the last decision is made, committing the one choice of
  the ending node twice more clears the flag, with the relation, the dignity and the decision unchanged, so
  a game whose pollution alone would end it with \<open>FRAMED_AND_JAILED\<close> ends otherwise.
\<close>

theorem ending_commits_wash_pollution:
  assumes "hs_reachable st" "map_get st sid = Some s" "\<not> hs_completed s" "hs_currentNodeId s = C3_N3_ENDING_RESOLVE"
  shows "\<exists>s'. map_get (play_choices sid [1, 1] st) sid = Some s' \<and> \<not> hs_pollutionFlag s'
     \<and> hs_relationScore s' = hs_relationScore s \<and> hs_dignityScore s' = hs_dignityScore s
     \<and> hs_finalDecisionCode s' = hs_finalDecisionCode s
     \<and> (game_ending (abs_game s') = Some FRAMED_AND_JAILED \<longleftrightarrow> hs_relationScore s \<le> 0)"
proof -
  let ?g = "\<lparr>g_node = C3_N3_ENDING_RESOLVE, g_relation = hs_relationScore s, g_dignity = hs_dignityScore s,
     g_pollution = max 0 (hs_pollutionScore s - 2), g_passed = hs_c2n3Passed s, g_decision = hs_finalDecisionCode s\<rparr>"
  obtain mode n where inv: "hs_inv mode n s" using stored_inv[OF assms(1,2)] by metis
  then have r: "hs_relationScore s \<in> {-3..3}" "hs_dignityScore s \<in> {0..100}" "hs_pollutionScore s \<in> {0..3}"
    using dignity_bound_le(1)[of mode n] by (auto simp: hs_inv_def)
  have n: "9 \<le> n" using inv assms(4) by (simp add: hs_inv_def min_def split: if_splits)
  have "game_run [1, 1] (abs_game s) = Some ?g"
    using r assms(4) by (simp add: abs_game_def choice_defs game_step_def computePollutionDelta_def Let_def)
       (auto simp: clamp_def)
  then obtain s' where s': "map_get (play_choices sid [1, 1] st) sid = Some s'" "abs_game s' = ?g"
      "hs_reachable (play_choices sid [1, 1] st)"
    using play_run[OF assms(1-3)] by blast
  obtain mode' n' where inv': "hs_inv mode' n' s'" using stored_inv[OF s'(3,1)] by metis
  have e: "hs_relationScore s' = hs_relationScore s" "hs_dignityScore s' = hs_dignityScore s"
    "hs_finalDecisionCode s' = hs_finalDecisionCode s" "hs_pollutionScore s' = max 0 (hs_pollutionScore s - 2)"
    using s'(2) by (simp_all add: abs_game_def)
  obtain d where d: "hs_finalDecisionCode s = Some d" using inv n by (auto simp: hs_inv_def)
  have p: "\<not> 2 \<le> max 0 (hs_pollutionScore s - 2)" using r(3) by (auto simp: max_def)
  have "\<not> hs_pollutionFlag s'" using inv' e(4) p by (simp add: hs_inv_def)
  moreover have "game_ending (abs_game s') = Some FRAMED_AND_JAILED \<longleftrightarrow> hs_relationScore s \<le> 0"
    using d p by (auto simp: s'(2) game_ending_def evaluateEndingCode_def isStableCooperationPath_def)
  ultimately show ?thesis using s'(1) e by blast
qed

text \<open>A game whose pollution alone frames the player, and what two more commits make of it.\<close>

theorem ending_commits_wash_pollution_witness:
  "\<exists>s s'. map_get (play_choices ''s1'' [2, 1, 3, 1, 2, 1, 1, 2, 3] (sample_store UM_VERIFIED)) ''s1'' = Some s
     \<and> game_ending (abs_game s) = Some FRAMED_AND_JAILED
     \<and> map_get (play_choices ''s1'' [1, 1] (play_choices ''s1'' [2, 1, 3, 1, 2, 1, 1, 2, 3] (sample_store UM_VERIFIED))) ''s1'' = Some s'
     \<and> game_ending (abs_game s') \<noteq> Some FRAMED_AND_JAILED"
proof -
  let ?cs = "[2, 1, 3, 1, 2, 1, 1, 2, 3] :: int list" and ?s0 = "newSession ''s1'' ''W1'' 1000 UM_VERIFIED"
  have "map_option (\<lambda>g. (g_node g, g_relation g, game_ending g)) (game_run ?cs (abs_game ?s0))
      = Some (C3_N3_ENDING_RESOLVE, 2, Some FRAMED_AND_JAILED)" by code_simp
  then obtain g where g: "game_run ?cs (abs_game ?s0) = Some g" "g_node g = C3_N3_ENDING_RESOLVE" "g_relation g = 2"
      "game_ending g = Some FRAMED_AND_JAILED" by auto
  obtain s where s: "map_get (play_choices ''s1'' ?cs (sample_store UM_VERIFIED)) ''s1'' = Some s" "\<not> hs_completed s" "abs_game s = g"
      "hs_reachable (play_choices ''s1'' ?cs (sample_store UM_VERIFIED))"
    using sample_play[OF g(1)] by blast
  have n: "hs_currentNodeId s = C3_N3_ENDING_RESOLVE" "\<not> hs_relationScore s \<le> 0" using s(3) g(2,3) by auto
  show ?thesis
    using ending_commits_wash_pollution[OF s(4,1,2) n(1)] n(2) s(1,3) g(4) by blast
qed

end
