(* ===== verification/Hide_Sis_Replay.thy ===== *)
theory Hide_Sis_Replay
  imports Hide_Sis_Play
begin

section \<open>Sessions and their replay\<close>

text \<open>
  services/hide-sis-engine/src/state_machine.ts against services/hide-sis-engine/src/session_store.ts: what a
  replay makes of the events a session has recorded. Finalized sessions are replayed right, in whatever
  order the events before the last one come; before that the replay passes every session through the gate.
\<close>

text \<open>The events of a session before its finalization, in some order.\<close>

definition records_session :: "replay_event list \<Rightarrow> hs_session \<Rightarrow> bool" where
  "records_session evs s \<longleftrightarrow>
     {t. Turn t \<in> set evs} = set (hs_turnEvents s) \<and> {d. Decision d \<in> set evs} = set (hs_decisionEvents s)
     \<and> (\<forall>f. Finalize f \<notin> set evs)"

subsection \<open>What the events of a session tell\<close>

lemma risk_pollutes: "ch_pollutionRisk c \<Longrightarrow> 0 < computePollutionDelta b c d"
  by (simp add: computePollutionDelta_def Let_def)

lemma turnEvent_fields:
  "te_pollution_flag (turnEvent (currentNode s) c (quoteNode s) s) \<longleftrightarrow> 0 < pollutionGain s c"
  "te_node_id (turnEvent (currentNode s) c (quoteNode s) s) = hs_currentNodeId s"
  "te_choice_id (turnEvent (currentNode s) c (quoteNode s) s) = ch_id c"
  by (simp_all add: turnEvent_def pollutionGain_def dignityGain_def currentNode_def)

definition polluted :: "hs_session \<Rightarrow> bool" where
  "polluted s \<longleftrightarrow> (\<exists>t \<in> set (hs_turnEvents s). te_pollution_flag t)"

definition gate_turn :: "hs_session \<Rightarrow> bool" where
  "gate_turn s \<longleftrightarrow> (\<exists>t \<in> set (hs_turnEvents s). te_node_id t = KILLER_REVEAL_NODE \<and> 0 < te_choice_id t)"

lemma played_events:
  "played mode n s \<Longrightarrow> (0 < hs_pollutionScore s \<longrightarrow> polluted s) \<and> (5 < n \<longrightarrow> gate_turn s \<and> (hs_c2n3Passed s \<or> polluted s))"
proof (induction rule: played.induct)
  case (played_start sid wallet now)
  then show ?case by (simp add: newSession_def)
next
  case (played_commit n s c now)
  let ?s = "commitChoice now c s" and ?t = "turnEvent (currentNode s) c (quoteNode s) s"
  have inv: "hs_inv mode n s" using played_commit.hyps(1) by (rule played_inv)
  have cs: "c \<in> set (ns_choices (story (hs_currentNodeId s)))" using played_commit.hyps(3) by (simp add: currentNode_def)
  have ev: "polluted ?s \<longleftrightarrow> polluted s \<or> 0 < pollutionGain s c"
    by (auto simp: polluted_def commit_fields turnEvent_fields)
  have gt: "gate_turn ?s \<longleftrightarrow> gate_turn s \<or> hs_currentNodeId s = C2_N3_KILLER_REVEAL_GATE"
    using story_choice(9)[OF cs] by (auto simp: gate_turn_def commit_fields turnEvent_fields KILLER_REVEAL_NODE_def)
  have pol: "0 < hs_pollutionScore ?s \<longrightarrow> 0 < hs_pollutionScore s \<or> 0 < pollutionGain s c"
    by (auto simp: commit_fields clamp_def max_def min_def split: if_splits)
  show ?case
  proof (cases "n = 5")
    case True
    then have m: "hs_currentNodeId s = C2_N3_KILLER_REVEAL_GATE"
      using inv by (intro node_index_inject) (simp add: hs_inv_def)
    have "hs_c2n3Passed ?s \<or> 0 < pollutionGain s c"
      using commit_passed[OF played_commit.hyps(3), of now] story_choice(8)[OF cs] m
      by (auto simp: pollutionGain_def risk_pollutes)
    then show ?thesis using played_commit.IH pol m by (auto simp: ev gt)
  next
    case False
    have "hs_c2n3Passed s \<Longrightarrow> hs_c2n3Passed ?s" using commit_passed[OF played_commit.hyps(3), of now] by simp
    then show ?thesis using played_commit.IH pol False by (auto simp: ev gt)
  qed
qed (simp add: finish_fields polluted_def gate_turn_def)

subsection \<open>What a replay makes of them\<close>

lemma replayStep_fields:
  "rs_pollution_flag (replayStep s e) = (rs_pollution_flag s \<or> (case e of Turn t \<Rightarrow> te_pollution_flag t
     | Decision _ \<Rightarrow> False | Finalize f \<Rightarrow> fe_framed_flag f))"
  "rs_c2_n3_passed (replayStep s e) = (rs_c2_n3_passed s \<or> (case e of
       Turn t \<Rightarrow> te_node_id t = KILLER_REVEAL_NODE \<and> 0 < te_choice_id t
     | Decision d \<Rightarrow> de_node_id d = KILLER_REVEAL_NODE | Finalize _ \<Rightarrow> False))"
  by (cases e; simp add: replayStep_def Let_def)+

lemma replay_flags:
  "rs_pollution_flag (foldl replayStep s evs) = (rs_pollution_flag s \<or>
     (\<exists>e \<in> set evs. case e of Turn t \<Rightarrow> te_pollution_flag t | Decision _ \<Rightarrow> False | Finalize f \<Rightarrow> fe_framed_flag f))"
  "rs_c2_n3_passed (foldl replayStep s evs) = (rs_c2_n3_passed s \<or> (\<exists>e \<in> set evs. case e of
       Turn t \<Rightarrow> te_node_id t = KILLER_REVEAL_NODE \<and> 0 < te_choice_id t
     | Decision d \<Rightarrow> de_node_id d = KILLER_REVEAL_NODE | Finalize _ \<Rightarrow> False))"
  by (induction evs arbitrary: s) (auto simp: replayStep_fields)

lemma replay_polluted:
  assumes "records_session evs s" "polluted s"
  shows "rs_pollution_flag (foldl replayStep r evs)"
proof -
  obtain t where t: "t \<in> set (hs_turnEvents s)" "te_pollution_flag t" using assms(2) by (auto simp: polluted_def)
  then have "Turn t \<in> set evs" using assms(1) by (auto simp: records_session_def)
  with t(2) show ?thesis unfolding replay_flags by (intro disjI2 bexI[of _ "Turn t"]) simp_all
qed

lemma replay_gate:
  assumes "records_session evs s" "gate_turn s"
  shows "rs_c2_n3_passed (foldl replayStep r evs)"
proof -
  obtain t where t: "t \<in> set (hs_turnEvents s)" "te_node_id t = KILLER_REVEAL_NODE" "0 < te_choice_id t"
    using assms(2) by (auto simp: gate_turn_def)
  then have "Turn t \<in> set evs" using assms(1) by (auto simp: records_session_def)
  with t(2,3) show ?thesis unfolding replay_flags by (intro disjI2 bexI[of _ "Turn t"]) simp_all
qed

lemma replayEnding_fields:
  "rs_dignity_score (replayEnding s) = rs_dignity_score s" "rs_relation_score (replayEnding s) = rs_relation_score s"
  "rs_truth_unlocked (replayEnding s) = rs_truth_unlocked s" "rs_finalized (replayEnding s) = rs_finalized s"
  "rs_pollution_flag (replayEnding s) = rs_pollution_flag s" "rs_c2_n3_passed (replayEnding s) = rs_c2_n3_passed s"
  "rs_ending_code s = Some e \<Longrightarrow> rs_ending_code (replayEnding s) = Some e"
  by (simp_all add: replayEnding_def Let_def)

subsection \<open>Properties\<close>

text \<open>
  C14. A finalized session is replayed right: from its turns and decisions in any order, followed by the finalization as
  the last event, whatever scores the replay starts with, the replay finds the session's ending, dignity, relation
  and truth, and sees pollution whenever the session does.
\<close>

theorem replay_agrees_on_finalized:
  assumes "hs_reachable st" "map_get st sid = Some s" "hs_finalizedEvent s = Some f" "records_session evs s"
    and "r = replaySession dignity relation (evs @ [Finalize f])"
  shows "rs_ending_code r = hs_endingCode s \<and> rs_dignity_score r = hs_dignityScore s
     \<and> rs_relation_score r = hs_relationScore s \<and> rs_truth_unlocked r = hs_truthUnlocked s \<and> rs_finalized r
     \<and> (hs_pollutionFlag s \<longrightarrow> rs_pollution_flag r)"
proof -
  obtain mode n where p: "played mode n s" "hs_inv mode n s" "final_inv s" using stored_inv[OF assms(1,2)] by metis
  have n: "hs_completed s" "9 \<le> n" "hs_truthUnlocked s = computeTruthUnlocked s" "hs_pollutionFlag s \<longleftrightarrow> 2 \<le> hs_pollutionScore s"
    using p(2) assms(3) by (simp_all add: hs_inv_def)
  obtain d h where f: "hs_endingCode s = Some (evaluateEndingCode (ending_gate s d))"
      "f = \<lparr>fe_ending_code = evaluateEndingCode (ending_gate s d), fe_final_dignity = hs_dignityScore s, fe_humanity_score = h,
        fe_relation_final = hs_relationScore s, fe_truth_unlocked = computeTruthUnlocked s,
        fe_framed_flag = (evaluateEndingCode (ending_gate s d) = FRAMED_AND_JAILED)\<rparr>"
    using p(3) n(1) assms(3) by (auto simp: final_inv_def)
  let ?r0 = "foldl replayStep (replayStart dignity relation) evs"
  have ev: "0 < hs_pollutionScore s \<longrightarrow> polluted s" "hs_c2n3Passed s \<or> polluted s"
    using played_events[OF p(1)] n(2) by auto
  have pol: "polluted s \<Longrightarrow> rs_pollution_flag ?r0" using replay_polluted[OF assms(4)] by blast
  have r: "r = replayEnding (replayStep ?r0 (Finalize f))" by (simp add: assms(5) replaySession_def)
  have "evaluateTruthUnlocked \<lparr>tg_dignity_score = hs_dignityScore s, tg_relation_score = hs_relationScore s,
      tg_pollution_flag = rs_pollution_flag ?r0 \<or> fe_framed_flag f, tg_c2_n3_passed = rs_c2_n3_passed ?r0\<rparr>
    \<Longrightarrow> computeTruthUnlocked s"
    using ev pol n(4) by (auto simp: evaluateTruthUnlocked_def computeTruthUnlocked_def)
  then have "rs_truth_unlocked r = hs_truthUnlocked s"
    using n(3) by (auto simp: r replayEnding_fields replayStep_def Let_def resolveTruthUnlocked_def f(2))
  moreover have "rs_ending_code r = hs_endingCode s"
    unfolding r f(1) by (rule replayEnding_fields(7)) (simp add: replayStep_def Let_def f(2))
  moreover have "hs_pollutionFlag s \<longrightarrow> rs_pollution_flag r"
    using n(4) ev(1) pol by (auto simp: r replayEnding_fields replayStep_fields)
  moreover have "rs_dignity_score r = hs_dignityScore s" "rs_relation_score r = hs_relationScore s" "rs_finalized r"
    by (simp_all add: r replayEnding_fields replayStep_def Let_def f(2))
  ultimately show ?thesis by blast
qed

text \<open>The events of a session in the order of its two lists.\<close>

lemma records_lists: "records_session (map Turn (hs_turnEvents s) @ map Decision (hs_decisionEvents s)) s"
  by (auto simp: records_session_def)

text \<open>A guest's game that misses the gate.\<close>

definition sample_choices :: "int list" where
  "sample_choices = [3, 1, 1, 1, 2, 2, 1, 1, 1]"

lemma sample_game:
  "\<exists>s. map_get (play_choices ''s1'' sample_choices (sample_store UM_GUEST)) ''s1'' = Some s \<and> \<not> hs_completed s
     \<and> hs_currentNodeId s = C3_N3_ENDING_RESOLVE \<and> \<not> hs_c2n3Passed s \<and> hs_finalDecisionCode s = Some END_BURY_TRUTH
     \<and> hs_reachable (play_choices ''s1'' sample_choices (sample_store UM_GUEST)) \<and> 5 < length (hs_turnEvents s)"
proof -
  have "map_option (\<lambda>g. (g_node g, g_passed g, g_decision g))
      (game_run sample_choices (abs_game (newSession ''s1'' ''W1'' 1000 UM_GUEST)))
    = Some (C3_N3_ENDING_RESOLVE, False, Some END_BURY_TRUTH)" by code_simp
  then obtain g where g: "game_run sample_choices (abs_game (newSession ''s1'' ''W1'' 1000 UM_GUEST)) = Some g"
      "g_node g = C3_N3_ENDING_RESOLVE" "\<not> g_passed g" "g_decision g = Some END_BURY_TRUTH" by auto
  obtain s where s: "map_get (play_choices ''s1'' sample_choices (sample_store UM_GUEST)) ''s1'' = Some s" "\<not> hs_completed s"
      "abs_game s = g" "hs_reachable (play_choices ''s1'' sample_choices (sample_store UM_GUEST))"
    using sample_play[OF g(1)] by blast
  have c: "hs_currentNodeId s = C3_N3_ENDING_RESOLVE" "\<not> hs_c2n3Passed s" "hs_finalDecisionCode s = Some END_BURY_TRUTH"
    using s(3) g(2-4) by auto
  obtain mode n where "hs_inv mode n s" "n = length (hs_turnEvents s)" using stored_inv[OF s(4,1)] by metis
  then have "min (length (hs_turnEvents s)) 9 = 9" using c(1) by (simp add: hs_inv_def)
  then have "5 < length (hs_turnEvents s)" by (simp add: min_def split: if_splits)
  with s c show ?thesis by blast
qed

theorem replay_agrees_on_finalized_witness:
  "\<exists>(s :: hs_session) f. hs_finalizedEvent s = Some f \<and> rs_ending_code (replaySession 0 None
      ((map Turn (hs_turnEvents s) @ map Decision (hs_decisionEvents s)) @ [Finalize f])) = hs_endingCode s"
proof -
  let ?st = "play_choices ''s1'' sample_choices (sample_store UM_GUEST)"
  obtain s where s: "map_get ?st ''s1'' = Some s" "\<not> hs_completed s" "hs_finalDecisionCode s = Some END_BURY_TRUTH" "hs_reachable ?st"
    using sample_game by blast
  let ?f = "finishGame 3000 END_BURY_TRUTH s"
  have m: "map_get (fst (finalizeSession 3000 ''s1'' ?st)) ''s1'' = Some ?f"
    using s(1-3) by (simp add: finalizeSession_def getSession_def Let_def)
  obtain f where f: "hs_finalizedEvent ?f = Some f" using finish_event by blast
  show ?thesis
    using conjunct1[OF replay_agrees_on_finalized[OF hs_finish[OF s(4)] m f records_lists refl, of 0 None]] f by blast
qed

text \<open>
  Before that, the replay lets everybody through the reveal gate: once a session is past its node the
  replay says that the gate was passed, whether it was or not.
\<close>

theorem replay_passes_every_gate:
  assumes "hs_reachable st" "map_get st sid = Some s" "5 < length (hs_turnEvents s)" "records_session evs s"
  shows "rs_c2_n3_passed (replaySession dignity relation evs)"
proof -
  obtain mode where p: "played mode (length (hs_turnEvents s)) s" using stored_inv[OF assms(1,2)] by metis
  have "gate_turn s" using played_events[OF p] assms(3) by blast
  then show ?thesis using replay_gate[OF assms(4)] by (simp add: replaySession_def replayEnding_fields)
qed

theorem replay_passes_every_gate_witness:
  "\<exists>s. map_get (play_choices ''s1'' sample_choices (sample_store UM_GUEST)) ''s1'' = Some s \<and> \<not> hs_c2n3Passed s
     \<and> rs_c2_n3_passed (replaySession 50 None (map Turn (hs_turnEvents s) @ map Decision (hs_decisionEvents s)))"
proof -
  let ?st = "play_choices ''s1'' sample_choices (sample_store UM_GUEST)"
  obtain s where s: "map_get ?st ''s1'' = Some s" "\<not> hs_c2n3Passed s" "hs_reachable ?st" "5 < length (hs_turnEvents s)"
    using sample_game by blast
  show ?thesis using replay_passes_every_gate[OF s(3,1,4) records_lists] s(1,2) by blast
qed

text \<open>
  Finalizing is final: a session that has been finalized is frozen, further commits throw, and
  finalizing again gives the same answer and changes nothing.
\<close>

theorem finalize_is_idempotent:
  assumes "hs_reachable st" "finalizeSession now sid st = (st', Inr r)"
  shows "finalizeSession later sid st' = (st', Inr r)
     \<and> commitTurn later sid choiceId st' = (st', Inl (Thrown ''session already finalized''))"
proof -
  obtain s where s: "map_get st' sid = Some s" "hs_completed s" "r = (serializeSession s, hs_finalizedEvent s, hs_finalizedBreakdown s)"
    using assms(2)
    by (auto simp: finalizeSession_def getSession_def Let_def finish_fields split: option.splits if_splits)
  have "hs_reachable st'" using hs_finish[OF assms(1), of now sid] assms(2) by simp
  then obtain mode n where "hs_inv mode n s" using stored_inv[OF _ s(1)] by metis
  then have "hs_finalizedEvent s \<noteq> None" "hs_finalizedBreakdown s \<noteq> None" using s(2) by (simp_all add: hs_inv_def)
  then show ?thesis
    using s by (simp add: finalizeSession_def getSession_def commitTurn_def open_session_def)
qed

theorem finalize_is_idempotent_witness:
  "\<exists>st' r. finalizeSession 3000 ''s1'' (play_choices ''s1'' sample_choices (sample_store UM_GUEST)) = (st', Inr r)
     \<and> finalizeSession 4000 ''s1'' st' = (st', Inr r)"
proof -
  let ?st = "play_choices ''s1'' sample_choices (sample_store UM_GUEST)"
  obtain s where s: "map_get ?st ''s1'' = Some s" "\<not> hs_completed s" "hs_finalDecisionCode s = Some END_BURY_TRUTH" "hs_reachable ?st"
    using sample_game by blast
  then obtain st' r where "finalizeSession 3000 ''s1'' ?st = (st', Inr r)"
    by (simp add: finalizeSession_def getSession_def Let_def)
  with finalize_is_idempotent[OF s(4) this] show ?thesis by blast
qed

end
