(* ===== verification/Openworld_World.thy ===== *)
theory Openworld_World
  imports Js_Value
begin

section \<open>The open world: types and the world's start\<close>

text \<open>
  packages/universal-shield-sdk/src/hide_sis_openworld_types.ts and the world of
  services/hide-sis-engine/src/openworld_engine.ts: places, persons and clues built from a theme, the player,
  the clock with its three phases, the keys that count repeated actions, and their novelty. Texts that are
  not ASCII are given by their UTF-8 bytes. Records of the source with string keys are association lists
  of their own keys. The truth of a player is a number that may end in .5, all other scores are integers.
\<close>

subsection \<open>Types\<close>

record world_seed =
  wd_world_id :: string
  wd_theme_prompt :: string
  wd_genre_tags :: "string list"
  wd_constraints :: "string list"

record ow_location =
  lo_id :: string
  lo_name :: string
  lo_tags :: "string list"
  lo_danger :: int

record ow_npc =
  np_id :: string
  np_name :: string
  np_role :: string
  np_secret :: string
  np_relation :: int

record ow_clue =
  cl_id :: string
  cl_label :: string
  cl_truth_value :: int
  cl_pollution_risk :: int

text \<open>A relation is a number, or \<open>None\<close> where the code has stored a NaN.\<close>

record player_state =
  pl_current_location :: string
  pl_dignity :: int
  pl_relation_map :: "(string, int option) jsmap"
  pl_pollution_score :: int
  pl_truth_progress :: rat
  pl_inventory :: "ow_clue list"
  pl_journal :: "string list"

record world_state =
  ws_time_tick :: int
  ws_locations :: "ow_location list"
  ws_npcs :: "ow_npc list"
  ws_clues :: "ow_clue list"
  ws_heat :: int
  ws_budget_bps :: int

datatype ow_action = MOVE string | INTERROGATE string | SEARCH "string option" | USE_CLUE string string
  | LIE string | ALLY string | REST

datatype session_phase = INVESTIGATION | CORROBORATION | RESOLUTION

record session_clock =
  ck_time_budget :: int
  ck_time_spent :: int
  ck_time_left :: int
  ck_phase :: session_phase

datatype grade = Grade_S | Grade_A | Grade_B | Grade_C | Grade_D

record score_breakdown =
  so_truth :: int
  so_purity :: int
  so_relation :: int
  so_humanity :: int
  so_composite :: int
  so_grade :: grade

record ow_effect =
  ef_relation_delta :: "int option"
  ef_pollution_delta :: "int option"
  ef_truth_delta :: "rat option"
  ef_heat_delta :: "int option"

record start_input =
  st_theme_prompt :: string
  st_genre_tags :: "string list option"
  st_constraints :: "string list option"

subsection \<open>Building the world\<close>

definition TIME_BUDGET :: int where
  "TIME_BUDGET = 100"

fun ACTION_TIME_COST :: "ow_action \<Rightarrow> int" where
  "ACTION_TIME_COST (MOVE _) = 12"
| "ACTION_TIME_COST (INTERROGATE _) = 14"
| "ACTION_TIME_COST (SEARCH _) = 10"
| "ACTION_TIME_COST (USE_CLUE _ _) = 16"
| "ACTION_TIME_COST (LIE _) = 8"
| "ACTION_TIME_COST (ALLY _) = 12"
| "ACTION_TIME_COST REST = 9"

definition BASE_LOCATIONS :: "(string \<times> string list) list" where
  "BASE_LOCATIONS =
     [((utf8 [230, 151, 167, 229, 174, 133, 230, 173, 163, 229, 142, 133]), [''manor'', ''ritual'']),
      ((utf8 [230, 161, 163, 230, 161, 136, 229, 134, 183, 229, 186, 147]), [''memory'', ''records'']),
      ((utf8 [233, 163, 142, 230, 154, 180, 229, 164, 169, 229, 143, 176]), [''rooftop'', ''collapse'']),
      ((utf8 [228, 190, 167, 229, 142, 133, 232, 138, 177, 229, 155, 173]), [''garden'', ''whisper'']),
      ((utf8 [229, 174, 162, 230, 136, 191, 232, 181, 176, 229, 187, 138]), [''corridor'', ''echo''])]"

definition BASE_NPCS :: "(string \<times> string) list" where
  "BASE_NPCS =
     [(''Picha'', (utf8 [231, 172, 172, 228, 184, 137, 229, 166, 185])), (''Baibua'', (utf8 [229, 164, 167, 229, 167,
       144])),
      (''Archivist'', (utf8 [229, 174, 136, 230, 161, 163, 232, 128, 133])), (''Witness'', (utf8 [231, 155, 174, 229,
        135, 187, 232, 128, 133]))]"

definition BASE_CLUES :: "(string \<times> int \<times> int) list" where
  "BASE_CLUES =
     [((utf8 [231, 160, 180, 230, 141, 159, 231, 154, 132, 230, 136, 146, 230, 140, 135]), 14, 1),
      ((utf8 [230, 150, 173, 231, 148, 181, 232, 174, 176, 229, 189, 149]), 12, 0),
      ((utf8 [229, 175, 134, 229, 176, 129, 231, 159, 173, 228, 191, 161]), 16, 1),
      ((utf8 [230, 137, 139, 229, 134, 153, 233, 129, 151, 229, 152, 177]), 18, 0),
      ((utf8 [232, 161, 128, 232, 137, 178, 232, 138, 177, 231, 147, 163]), 20, 1)]"

text \<open>\<open>xs.map((x, idx) => f(idx, x))\<close>\<close>

definition map_index :: "(nat \<Rightarrow> 'a \<Rightarrow> 'b) \<Rightarrow> 'a list \<Rightarrow> 'b list" where
  "map_index f xs = map (\<lambda>(i, x). f i x) (zip [0..<length xs] xs)"

definition normalized_words :: "string list \<Rightarrow> string list" where
  "normalized_words xs = filter (\<lambda>w. w \<noteq> []) (map (\<lambda>w. to_lower (trim w)) xs)"

definition normalizeTags :: "string list option \<Rightarrow> string list" where
  "normalizeTags input =
     (case input of Some (t # ts) \<Rightarrow> normalized_words (t # ts) | _ \<Rightarrow> [''mystery'', ''family'', ''thriller''])"

definition normalizeConstraints :: "string list option \<Rightarrow> string list" where
  "normalizeConstraints input =
     (case input of Some (c # cs) \<Rightarrow> normalized_words (c # cs)
      | _ \<Rightarrow> [''no-explicit-era'', ''emotional-tension'', ''open-investigation''])"

definition buildWorldSeed :: "string \<Rightarrow> start_input \<Rightarrow> world_seed" where
  "buildWorldSeed uuid inp =
     \<lparr>wd_world_id = ''world-'' @ uuid,
      wd_theme_prompt = (let theme = trim (st_theme_prompt inp) in
        if theme = [] then (utf8 [229, 174, 182, 230, 151, 143, 232, 191, 183, 229, 177, 128]) else theme),
      wd_genre_tags = normalizeTags (st_genre_tags inp), wd_constraints = normalizeConstraints (st_constraints inp)\<rparr>"

definition buildLocations :: "world_seed \<Rightarrow> ow_location list" where
  "buildLocations seed = map_index (\<lambda>idx (name, tags).
     \<lparr>lo_id = ''loc-'' @ show_nat (idx + 1), lo_name = name, lo_tags = tags @ take 2 (wd_genre_tags seed),
      lo_danger = clamp (2 + int idx) 1 5\<rparr>) BASE_LOCATIONS"

definition buildNPCs :: "world_seed \<Rightarrow> ow_npc list" where
  "buildNPCs seed = map_index (\<lambda>idx (name, role).
     \<lparr>np_id = ''npc-'' @ show_nat (idx + 1), np_name = name, np_role = role,
      np_secret = name @ ('' '' @ utf8 [228, 184, 142] @ '' '') @ wd_theme_prompt seed @ ('' '' @ utf8 [230, 156, 137,
        230, 156, 170, 229, 133, 172, 229, 188, 128, 231, 154, 132, 231, 137, 181, 232, 191, 158, 227, 128, 130]),
      np_relation = (if idx = 0 then 1 else 0)\<rparr>) BASE_NPCS"

definition buildClues :: "world_seed \<Rightarrow> ow_clue list" where
  "buildClues seed = map_index (\<lambda>idx (label, truth, pollution).
     \<lparr>cl_id = ''clue-'' @ show_nat (idx + 1), cl_label = label @ (utf8 [239, 188, 136]) @ wd_theme_prompt seed
       @ (utf8 [239, 188, 137]),
      cl_truth_value = truth, cl_pollution_risk = pollution\<rparr>) BASE_CLUES"

definition buildWorldState :: "world_seed \<Rightarrow> world_state" where
  "buildWorldState seed =
     \<lparr>ws_time_tick = 0, ws_locations = buildLocations seed, ws_npcs = buildNPCs seed, ws_clues = buildClues seed,
      ws_heat = 0, ws_budget_bps = 10000\<rparr>"

definition buildPlayerState :: "world_state \<Rightarrow> player_state" where
  "buildPlayerState world =
     \<lparr>pl_current_location = (case ws_locations world of [] \<Rightarrow> ''loc-1'' | l # _ \<Rightarrow> lo_id l), pl_dignity = 70,
      pl_relation_map = foldl (\<lambda>m npc. map_set (np_id npc) (Some (np_relation npc)) m) [] (ws_npcs world),
      pl_pollution_score = 0, pl_truth_progress = 0, pl_inventory = [],
      pl_journal =
        [(utf8 [228, 189, 160, 232, 184, 143, 229, 133, 165, 232, 191, 153, 229, 186, 167, 228, 184, 150, 231, 149,
          140, 239, 188, 140, 231, 172, 172, 228, 184, 128, 231, 188, 149, 231, 186, 191, 231, 180, 162, 229, 156,
          168, 230, 154, 151, 229, 164, 132, 229, 145, 188, 229, 144, 184, 227, 128, 130]),
         (utf8 [232, 191, 153, 228, 184, 141, 230, 152, 175, 230, 140, 137, 230, 140, 137, 233, 146, 174, 231, 154,
           132, 230, 184, 184, 230, 136, 143, 239, 188, 140, 230, 175, 143, 228, 184, 128, 230, 173, 165, 233, 131,
           189, 228, 188, 154, 230, 148, 185, 229, 143, 152, 228, 189, 160, 231, 154, 132, 232, 175, 132, 229, 136,
           134, 229, 145, 189, 232, 191, 144, 227, 128, 130])]\<rparr>"

subsection \<open>The session\<close>

text \<open>\<open>'f\<close> is the type of the final payload and \<open>'c\<close> of a scene, which this theory does not look into.\<close>

record ('f, 'c) ow_session =
  os_worldSeed :: world_seed
  os_worldState :: world_state
  os_playerState :: player_state
  os_completed :: bool
  os_finalized :: "'f option"
  os_lastScene :: "'c option"
  os_updatedAt :: int
  os_timeSpent :: int
  os_actionCountByKey :: "(string, int) jsmap"
  os_actionTrace :: "string list"
  os_usedClueByNpc :: "(string, int) jsmap"
  os_usedClueAny :: bool
  os_resolutionConfirmed :: bool
  os_lieCount :: int
  os_allyCount :: int
  os_restCount :: int

definition newOpenWorld :: "world_seed \<Rightarrow> int \<Rightarrow> ('f, 'c) ow_session" where
  "newOpenWorld seed now =
     (let world = buildWorldState seed in
      \<lparr>os_worldSeed = seed, os_worldState = world, os_playerState = buildPlayerState world, os_completed = False,
       os_finalized = None, os_lastScene = None, os_updatedAt = now, os_timeSpent = 0, os_actionCountByKey = [],
       os_actionTrace = [], os_usedClueByNpc = [], os_usedClueAny = False, os_resolutionConfirmed = False,
       os_lieCount = 0, os_allyCount = 0, os_restCount = 0\<rparr>)"

subsection \<open>Clock, keys and novelty\<close>

definition phaseOf :: "int \<Rightarrow> session_phase" where
  "phaseOf timeSpent = (if timeSpent < 40 then INVESTIGATION else if timeSpent < 75 then CORROBORATION else RESOLUTION)"

definition buildClock :: "('f, 'c) ow_session \<Rightarrow> session_clock" where
  "buildClock s =
     \<lparr>ck_time_budget = TIME_BUDGET, ck_time_spent = os_timeSpent s,
      ck_time_left = clamp (TIME_BUDGET - os_timeSpent s) 0 TIME_BUDGET, ck_phase = phaseOf (os_timeSpent s)\<rparr>"

fun buildActionKey :: "ow_action \<Rightarrow> player_state \<Rightarrow> string" where
  "buildActionKey (MOVE t) p = ''MOVE:'' @ t"
| "buildActionKey (INTERROGATE t) p = ''INTERROGATE:'' @ t"
| "buildActionKey (SEARCH _) p = ''SEARCH:'' @ pl_current_location p"
| "buildActionKey (USE_CLUE t c) p = ''USE_CLUE:'' @ t @ '':'' @ c"
| "buildActionKey (LIE t) p = ''LIE:'' @ t"
| "buildActionKey (ALLY t) p = ''ALLY:'' @ t"
| "buildActionKey REST p = ''REST''"

definition noveltyMultiplier :: "('f, 'c) ow_session \<Rightarrow> string \<Rightarrow> rat" where
  "noveltyMultiplier s actionKey =
     (let repeat = opt_or (map_get (os_actionCountByKey s) actionKey) 0
      in fl (1 / fl (1 + fl (of_int repeat * fl (6 / 10)))))"

definition traceLine :: "ow_action \<Rightarrow> string" where
  "traceLine action =
     (case action of
        MOVE t \<Rightarrow> ''MOVE:'' @ t | INTERROGATE t \<Rightarrow> ''INTERROGATE:'' @ t
      | SEARCH target \<Rightarrow> ''SEARCH'' @ (case target of None \<Rightarrow> [] | Some t \<Rightarrow> '':'' @ t)
      | USE_CLUE t _ \<Rightarrow> ''USE_CLUE:'' @ t | LIE t \<Rightarrow> ''LIE:'' @ t | ALLY t \<Rightarrow> ''ALLY:'' @ t | REST \<Rightarrow> ''REST'')"

definition registerAction :: "ow_action \<Rightarrow> string \<Rightarrow> ('f, 'c) ow_session \<Rightarrow> ('f, 'c) ow_session" where
  "registerAction action actionKey s =
     (let trace = os_actionTrace s @ [traceLine action] in
      s\<lparr>os_actionCountByKey := map_set actionKey (opt_or (map_get (os_actionCountByKey s) actionKey) 0 + 1) (os_actionCountByKey s),
        os_actionTrace := (if 120 < length trace then drop (length trace - 120) trace else trace),
        os_lieCount := os_lieCount s + (case action of LIE _ \<Rightarrow> 1 | _ \<Rightarrow> 0),
        os_allyCount := os_allyCount s + (case action of ALLY _ \<Rightarrow> 1 | _ \<Rightarrow> 0),
        os_restCount := os_restCount s + (case action of REST \<Rightarrow> 1 | _ \<Rightarrow> 0)\<rparr>)"

definition nextClue :: "world_state \<Rightarrow> player_state \<Rightarrow> ow_clue option" where
  "nextClue world player = List.find (\<lambda>c. cl_id c \<notin> cl_id ` set (pl_inventory player)) (ws_clues world)"

definition findNpc :: "world_state \<Rightarrow> string \<Rightarrow> ow_npc option" where
  "findNpc world name = List.find (\<lambda>n. str_includes (to_lower (np_name n)) (to_lower name)) (ws_npcs world)"

definition findNpcById :: "world_state \<Rightarrow> string \<Rightarrow> ow_npc option" where
  "findNpcById world i = List.find (\<lambda>n. np_id n = i) (ws_npcs world)"

text \<open>
  \<open>player.relation_map[id] ?? 0\<close>, read as a number. The map is a plain object, so a name that it does not have itself
  may be one it inherits; what it inherits is no number, in comparisons and sums like a NaN.
\<close>

definition inheritedNames :: "string list" where
  "inheritedNames = [''constructor'', ''__proto__'', ''hasOwnProperty'', ''isPrototypeOf'', ''propertyIsEnumerable'',
     ''toLocaleString'', ''toString'', ''valueOf'', ''__defineGetter__'', ''__defineSetter__'', ''__lookupGetter__'',
     ''__lookupSetter__'']"

definition relationOf :: "player_state \<Rightarrow> string \<Rightarrow> int option" where
  "relationOf p i = (case map_get (pl_relation_map p) i of
     Some v \<Rightarrow> v
   | None \<Rightarrow> if i \<in> set inheritedNames then None else Some 0)"

text \<open>\<open>v >= k\<close>\<close>

definition atLeast_num :: "int \<Rightarrow> int option \<Rightarrow> bool" where
  "atLeast_num k v = (case v of Some r \<Rightarrow> k \<le> r | None \<Rightarrow> False)"

text \<open>
  A sum with what is no number is a text, of which \<open>clamp\<close> makes a NaN. An assignment to \<open>__proto__\<close> that is no object does
  nothing.
\<close>

definition updateRelation :: "string \<Rightarrow> int \<Rightarrow> player_state \<Rightarrow> player_state" where
  "updateRelation npcId delta p =
     (if npcId = ''__proto__'' then p
      else p\<lparr>pl_relation_map :=
        map_set npcId (map_option (\<lambda>r. clamp (r + delta) (-3) 3) (relationOf p npcId)) (pl_relation_map p)\<rparr>)"

end
