(* ===== verification/Openworld_Action.thy ===== *)
theory Openworld_Action
  imports Openworld_World
begin

section \<open>The open world: one action\<close>

text \<open>
  \<open>applyAction\<close> of services/hide-sis-engine/src/openworld_engine.ts: the clock and budget, the seven kinds
  of action with the gate that a phase puts on the gain of truth, the counters, and the dignity at the end.
  A branch is a function of the session that gives the session, the effects, the clues found and the
  reason codes.
\<close>

type_synonym ('f, 'c) action_result = "('f, 'c) ow_session \<times> ow_effect list \<times> ow_clue list \<times> string list"

subsection \<open>Changes of world and player\<close>

definition addHeat :: "int \<Rightarrow> ('f, 'c) ow_session \<Rightarrow> ('f, 'c) ow_session" where
  "addHeat d s = s\<lparr>os_worldState := (os_worldState s)\<lparr>ws_heat := clamp (ws_heat (os_worldState s) + d) 0 120\<rparr>\<rparr>"

definition onPlayer :: "(player_state \<Rightarrow> player_state) \<Rightarrow> ('f, 'c) ow_session \<Rightarrow> ('f, 'c) ow_session" where
  "onPlayer f s = s\<lparr>os_playerState := f (os_playerState s)\<rparr>"

definition addPollution :: "int \<Rightarrow> player_state \<Rightarrow> player_state" where
  "addPollution d p = p\<lparr>pl_pollution_score := clamp (pl_pollution_score p + d) 0 12\<rparr>"

definition addTruth :: "rat \<Rightarrow> player_state \<Rightarrow> player_state" where
  "addTruth d p = p\<lparr>pl_truth_progress := clamp (fl (pl_truth_progress p + d)) 0 120\<rparr>"

definition addDignity :: "int \<Rightarrow> player_state \<Rightarrow> player_state" where
  "addDignity d p = p\<lparr>pl_dignity := clamp (pl_dignity p + d) 0 100\<rparr>"

definition addJournal :: "string \<Rightarrow> player_state \<Rightarrow> player_state" where
  "addJournal line p = p\<lparr>pl_journal := pl_journal p @ [line]\<rparr>"

definition no_effect :: ow_effect where
  "no_effect = \<lparr>ef_relation_delta = None, ef_pollution_delta = None, ef_truth_delta = None, ef_heat_delta = None\<rparr>"

definition spendTime :: "ow_action \<Rightarrow> ('f, 'c) ow_session \<Rightarrow> ('f, 'c) ow_session" where
  "spendTime action s =
     (let world = os_worldState s; timeCost = ACTION_TIME_COST action in
      s\<lparr>os_worldState := world\<lparr>ws_time_tick := ws_time_tick world + 1,
            ws_budget_bps := clamp (ws_budget_bps world - timeCost * 14) 0 10000\<rparr>,
        os_timeSpent := clamp (os_timeSpent s + timeCost) 0 TIME_BUDGET\<rparr>)"

subsection \<open>The gate of a phase\<close>

definition usedClue :: "('f, 'c) ow_session \<Rightarrow> string \<Rightarrow> int" where
  "usedClue s npcId = opt_or (map_get (os_usedClueByNpc s) npcId) 0"

definition coreIds :: "world_state \<Rightarrow> string list" where
  "coreIds world = filter (\<lambda>i. i \<noteq> []) (map np_id
     (List.map_filter id [findNpc world ''picha'', findNpc world ''baibua'']))"

text \<open>The session comes back with \<open>resolutionConfirmed\<close> set when the gate of the last phase opens.\<close>

definition truthGainAfterPhaseGate ::
  "('f, 'c) ow_session \<Rightarrow> ow_action \<Rightarrow> rat \<Rightarrow> ('f, 'c) ow_session \<times> rat \<times> string option" where
  "truthGainAfterPhaseGate s action proposed =
     (case phaseOf (os_timeSpent s) of
        INVESTIGATION \<Rightarrow> (s, proposed, None)
      | CORROBORATION \<Rightarrow>
          (case action of
             SEARCH _ \<Rightarrow> (s, fl (proposed * (1 / 2)), None)
           | INTERROGATE target \<Rightarrow>
               if usedClue s target \<le> 0 then (s, min proposed 2, Some ''CORROBORATION_NEEDS_CLUE'')
               else (s, proposed, None)
           | _ \<Rightarrow> (s, proposed, None))
      | RESOLUTION \<Rightarrow>
          (case action of
             INTERROGATE target \<Rightarrow>
               if target \<in> set (coreIds (os_worldState s)) \<and> os_usedClueAny s \<and> 0 < usedClue s target
               then (s\<lparr>os_resolutionConfirmed := True\<rparr>, proposed, None)
               else (s, 0, Some ''RESOLUTION_GATE_LOCKED'')
           | _ \<Rightarrow> (s, 0, Some ''RESOLUTION_GATE_LOCKED'')))"

definition gateCodes :: "string option \<Rightarrow> string list" where
  "gateCodes code = (case code of None \<Rightarrow> [] | Some c \<Rightarrow> [c])"

subsection \<open>The seven actions\<close>

definition applyMove :: "string \<Rightarrow> ('f, 'c) ow_session \<Rightarrow> ('f, 'c) action_result" where
  "applyMove targetId s =
     (case List.find (\<lambda>l. lo_id l = targetId) (ws_locations (os_worldState s)) of
        None \<Rightarrow> (s, [], [], [])
      | Some target \<Rightarrow>
          (onPlayer (\<lambda>p. addJournal ((utf8 [228, 189, 160, 232, 189, 172, 231, 167, 187, 229, 136, 176] @
            '' '') @ lo_name target @ (utf8 [239, 188, 140, 232, 132, 154, 230, 173, 165, 229, 163, 176, 229, 156,
            168, 232, 181, 176, 229, 187, 138, 233, 135, 140, 229, 155, 158, 229, 147, 141, 227, 128, 130]))
             (p\<lparr>pl_current_location := lo_id target\<rparr>)) (addHeat 2 s),
           [no_effect\<lparr>ef_heat_delta := Some 2\<rparr>], [], []))"

definition applySearch :: "ow_action \<Rightarrow> rat \<Rightarrow> ('f, 'c) ow_session \<Rightarrow> ('f, 'c) action_result" where
  "applySearch action novelty s0 =
     (let s = addHeat 2 s0 in
      case nextClue (os_worldState s0) (os_playerState s0) of
        None \<Rightarrow> (onPlayer (addJournal (utf8 [228, 189, 160, 231, 191, 187, 233, 129, 141, 232, 167, 146,
          232, 144, 189, 239, 188, 140, 229, 141, 180, 229, 143, 170, 230, 145, 184, 229, 136, 176, 230, 151, 167,
          231, 129, 176, 229, 176, 152, 227, 128, 130])) s, [], [], [''SEARCH_DEPLETED''])
      | Some clue \<Rightarrow>
          (let proposed = js_round (fl (of_int (cl_truth_value clue) * novelty));
               (s1, truthGain, code) = truthGainAfterPhaseGate s action (of_int proposed)
           in (onPlayer (\<lambda>p. addJournal ((utf8 [228, 189, 160, 229, 156, 168] @ '' '') @ pl_current_location p
             @ ('' '' @ utf8 [230, 137, 190, 229, 136, 176, 231, 186, 191, 231, 180, 162, 239, 188, 154]) @ cl_label
             clue @ (utf8 [227, 128, 130]))
                 (addPollution (cl_pollution_risk clue) (addTruth truthGain
                    (p\<lparr>pl_inventory := pl_inventory p @ [clue]\<rparr>)))) s1,
               [no_effect\<lparr>ef_pollution_delta := Some (cl_pollution_risk clue), ef_truth_delta := Some truthGain, ef_heat_delta := Some 2\<rparr>],
               [clue], gateCodes code)))"

definition applyInterrogate :: "ow_action \<Rightarrow> string \<Rightarrow> rat \<Rightarrow> ('f, 'c) ow_session \<Rightarrow> ('f, 'c) action_result" where
  "applyInterrogate action targetId novelty s =
     (case findNpcById (os_worldState s) targetId of
        None \<Rightarrow> (s, [], [], [])
      | Some npc \<Rightarrow>
          (let relationBefore = relationOf (os_playerState s) (np_id npc);
               relationDelta = (if atLeast_num 0 relationBefore then 1 else - 1);
               baseTruth = (if atLeast_num 1 relationBefore then 8 else 5);
               proposed = js_round (fl (baseTruth * novelty));
               (s1, truthGain, code) = truthGainAfterPhaseGate (onPlayer (updateRelation (np_id npc) relationDelta) s)
                 action (of_int proposed)
           in (onPlayer (addJournal ((utf8 [228, 189, 160, 229, 175, 185] @ '' '') @ np_name npc @ ('' '' @ utf8 [230,
             150, 189, 229, 142, 139, 239, 188, 140, 232, 175, 149, 229, 155, 190, 233, 128, 188, 229, 135, 186, 231,
             188, 186, 229, 164, 177, 231, 154, 132, 232, 175, 129, 232, 175, 141, 227, 128, 130])))
                 (addHeat 4 (onPlayer (addTruth truthGain) s1)),
               [no_effect\<lparr>ef_relation_delta := Some relationDelta, ef_truth_delta := Some truthGain, ef_heat_delta := Some 4\<rparr>],
               [], gateCodes code)))"

definition applyUseClue :: "ow_action \<Rightarrow> string \<Rightarrow> string \<Rightarrow> rat \<Rightarrow> ('f, 'c) ow_session \<Rightarrow> ('f, 'c) action_result" where
  "applyUseClue action targetId clueId novelty s =
     (case (findNpcById (os_worldState s) targetId, List.find (\<lambda>c. cl_id c = clueId) (pl_inventory (os_playerState s))) of
        (Some npc, Some clue) \<Rightarrow>
          (let s1 = s\<lparr>os_usedClueByNpc := map_set (np_id npc) (usedClue s (np_id npc) + 1) (os_usedClueByNpc s),
                 os_usedClueAny := True\<rparr>;
               proposed = js_round (fl (fl (of_int (cl_truth_value clue) * fl (55 / 100)) * novelty));
               (s2, truthGain, code) = truthGainAfterPhaseGate s1 action (of_int proposed)
           in (onPlayer (addJournal ((utf8 [228, 189, 160, 231, 148, 168] @ '' '') @ cl_label clue @ ('' '' @ utf8
             [230, 146, 172, 229, 188, 128, 228, 186, 134] @ '' '') @ np_name npc @ ('' '' @ utf8 [231, 154, 132, 233,
             152, 178, 231, 186, 191, 227, 128, 130])))
                 (addHeat 1 (onPlayer (\<lambda>p. addPollution (- 1) (addTruth truthGain (updateRelation (np_id npc) 1 p))) s2)),
               [\<lparr>ef_relation_delta = Some 1, ef_pollution_delta = Some (- 1), ef_truth_delta = Some truthGain, ef_heat_delta = Some 1\<rparr>],
               [], gateCodes code))
      | _ \<Rightarrow> (s, [], [], [''INVALID_CLUE_USE'']))"

definition applyLie :: "string \<Rightarrow> ('f, 'c) ow_session \<Rightarrow> ('f, 'c) action_result" where
  "applyLie targetId s =
     (onPlayer (addJournal (utf8 [228, 189, 160, 233, 128, 137, 230, 139, 169, 228, 186, 134, 232, 176, 142, 232, 168,
       128, 239, 188, 140, 229, 177, 128, 229, 138, 191, 231, 159, 173, 230, 154, 130, 230, 156, 137, 229, 136, 169,
       239, 188, 140, 228, 189, 134, 228, 187, 163, 228, 187, 183, 230, 155, 180, 233, 135, 141, 227, 128, 130]))
        (addHeat 4 (onPlayer (\<lambda>p. addPollution 2 (updateRelation targetId (- 1) p)) s)),
      [no_effect\<lparr>ef_relation_delta := Some (- 1), ef_pollution_delta := Some 2, ef_heat_delta := Some 4\<rparr>], [], [''LIE_USED''])"

definition applyAlly :: "string \<Rightarrow> ('f, 'c) ow_session \<Rightarrow> ('f, 'c) action_result" where
  "applyAlly targetId s =
     (let current = relationOf (os_playerState s) targetId;
          delta = (if atLeast_num 0 current then 1 else 0);
          cleansed = (if 0 < delta then 1 else 0)
      in (onPlayer (addJournal (if 0 < delta then (utf8 [231, 155, 159, 231, 186, 166, 232, 190, 190, 230, 136, 144,
        239, 188, 140, 229, 177, 128, 229, 138, 191, 230, 154, 130, 231, 168, 179, 227, 128, 130]) else (utf8 [229,
        175, 185, 230, 150, 185, 228, 191, 157, 230, 140, 129, 230, 178, 137, 233, 187, 152, 239, 188, 140, 231, 155,
        159, 231, 186, 166, 230, 156, 170, 230, 136, 144, 227, 128, 130])))
            (addHeat 1 (onPlayer (\<lambda>p. addPollution (- cleansed) (updateRelation targetId delta p)) s)),
          [no_effect\<lparr>ef_relation_delta := Some delta, ef_pollution_delta := Some (- cleansed), ef_heat_delta := Some 1\<rparr>], [], []))"

definition applyRest :: "('f, 'c) ow_session \<Rightarrow> ('f, 'c) action_result" where
  "applyRest s =
     (onPlayer (\<lambda>p. addJournal (utf8 [228, 189, 160, 229, 129, 156, 228, 184, 139, 230, 157, 165, 230, 149,
       180, 231, 144, 134, 232, 175, 129, 230, 141, 174, 239, 188, 140, 233, 129, 191, 229, 133, 141, 232, 174, 169,
       232, 135, 170, 229, 183, 177, 232, 162, 171, 229, 153, 170, 233, 159, 179, 229, 144, 158, 230, 178, 161, 227,
       128, 130]) (addPollution (- 1) p)) (addHeat (- 10) s),
      [no_effect\<lparr>ef_pollution_delta := Some (- 1), ef_heat_delta := Some (- 10)\<rparr>], [], [])"

definition actionBody :: "ow_action \<Rightarrow> rat \<Rightarrow> ('f, 'c) ow_session \<Rightarrow> ('f, 'c) action_result" where
  "actionBody action novelty s =
     (case action of
        MOVE t \<Rightarrow> applyMove t s
      | SEARCH _ \<Rightarrow> applySearch action novelty s
      | INTERROGATE t \<Rightarrow> applyInterrogate action t novelty s
      | USE_CLUE t c \<Rightarrow> applyUseClue action t c novelty s
      | LIE t \<Rightarrow> applyLie t s
      | ALLY t \<Rightarrow> applyAlly t s
      | REST \<Rightarrow> applyRest s)"

definition someRelation :: "(int \<Rightarrow> bool) \<Rightarrow> ow_effect list \<Rightarrow> bool" where
  "someRelation P effects \<longleftrightarrow> (\<exists>e \<in> set effects. P (opt_or (ef_relation_delta e) 0))"

definition settleDignity :: "ow_effect list \<Rightarrow> player_state \<Rightarrow> player_state" where
  "settleDignity effects p =
     (let p1 = (if someRelation (\<lambda>d. 0 < d) effects then addDignity 1 p else p)
      in if someRelation (\<lambda>d. d < 0) effects then addDignity (- 1) p1 else p1)"

definition applyAction :: "ow_action \<Rightarrow> ('f, 'c) ow_session \<Rightarrow> ('f, 'c) action_result" where
  "applyAction action s =
     (let actionKey = buildActionKey action (os_playerState s);
          novelty = noveltyMultiplier s actionKey;
          (s1, effects, newClues, reasonCodes) = actionBody action novelty (spendTime action s)
      in (onPlayer (settleDignity effects) (registerAction action actionKey s1), effects, newClues, reasonCodes))"

end
