(* ===== verification/Openworld_Score.thy ===== *)
theory Openworld_Score
  imports Openworld_Action
begin

section \<open>The open world: scores and grades\<close>

text \<open>
  \<open>computeScore\<close> and the adjustment by the model's answer, of services/hide-sis-engine/src/openworld_engine.ts.
  The lemmas bound every score by 0 and 100, and show what the adjustment can change.
\<close>

subsection \<open>Scores\<close>

definition relationToScore :: "int \<Rightarrow> int" where
  "relationToScore v = clamp (js_round (fl (fl (of_int (v + 3) / 6) * 100))) 0 100"

definition gradeOf :: "int \<Rightarrow> grade" where
  "gradeOf composite =
     (if 88 \<le> composite then Grade_S else if 78 \<le> composite then Grade_A else if 66 \<le> composite then Grade_B
      else if 52 \<le> composite then Grade_C else Grade_D)"

fun gradeRank :: "grade \<Rightarrow> int" where
  "gradeRank Grade_S = 5" | "gradeRank Grade_A = 4" | "gradeRank Grade_B = 3" | "gradeRank Grade_C = 2"
| "gradeRank Grade_D = 1"

fun grade_name :: "grade \<Rightarrow> string" where
  "grade_name Grade_S = ''S''" | "grade_name Grade_A = ''A''" | "grade_name Grade_B = ''B''" | "grade_name Grade_C = ''C''"
| "grade_name Grade_D = ''D''"

definition gradeDistance :: "grade \<Rightarrow> grade \<Rightarrow> int" where
  "gradeDistance a b = \<bar>gradeRank a - gradeRank b\<bar>"

text \<open>\<open>Math.round(truth * 0.35 + purity * 0.25 + relation * 0.2 + humanity * 0.2)\<close>, clamped.\<close>

definition compositeOf :: "int \<Rightarrow> int \<Rightarrow> int \<Rightarrow> int \<Rightarrow> int" where
  "compositeOf truth purity relation humanity =
     clamp (js_round (fl (fl (fl (fl (of_int truth * fl (35 / 100)) + fl (of_int purity * (1 / 4)))
       + fl (of_int relation * fl (2 / 10))) + fl (of_int humanity * fl (2 / 10))))) 0 100"

definition npcIdOf :: "ow_npc option \<Rightarrow> string" where
  "npcIdOf n = opt_or (map_option np_id n) []"

definition averageOf :: "int list \<Rightarrow> rat" where
  "averageOf xs = (if xs = [] then 50 else fl (of_int (sum_list xs) / of_nat (length xs)))"

definition truthPart :: "('f, 'c) ow_session \<Rightarrow> int \<times> string list" where
  "truthPart s =
     (let world = os_worldState s;
          pichaId = npcIdOf (findNpc world ''picha''); baibuaId = npcIdOf (findNpc world ''baibua'');
          t0 = clamp (js_round (pl_truth_progress (os_playerState s))) 0 100;
          (t1, c1) = (if \<not> os_usedClueAny s then (clamp (t0 - 12) 0 100, [''NO_CLUE_CORROBORATION'']) else (t0, []));
          coreClueUsed = (0 < usedClue s pichaId \<or> 0 < usedClue s baibuaId);
          (t2, c2) = (if \<not> coreClueUsed then (clamp (t1 - 16) 0 100, c1 @ [''CORE_TESTIMONY_UNPROVEN'']) else (t1, c1))
      in if \<not> os_resolutionConfirmed s then (clamp (t2 - 20) 0 100, c2 @ [''RESOLUTION_NOT_CONFIRMED'']) else (t2, c2))"

definition purityPart :: "('f, 'c) ow_session \<Rightarrow> int" where
  "purityPart s = clamp (100 - clamp (pl_pollution_score (os_playerState s) * 11) 0 100) 0 100"

text \<open>The relations read here are those of persons of the world, which are numbers (\<open>player_ok\<close> of \<open>Openworld_Play\<close>).\<close>

definition relationPart :: "('f, 'c) ow_session \<Rightarrow> int" where
  "relationPart s =
     (let world = os_worldState s; player = os_playerState s;
          pichaId = npcIdOf (findNpc world ''picha''); baibuaId = npcIdOf (findNpc world ''baibua'');
          score = (\<lambda>i. relationToScore (opt_or (relationOf player i) 0));
          coreRelations = map score (filter (\<lambda>i. i \<noteq> []) [pichaId, baibuaId]);
          otherRelations = map (\<lambda>n. score (np_id n)) (filter (\<lambda>n. np_id n \<noteq> pichaId \<and> np_id n \<noteq> baibuaId) (ws_npcs world))
      in clamp (js_round (fl (fl (averageOf coreRelations * fl (8 / 10)) + fl (averageOf otherRelations * fl (2 / 10))))) 0 100)"

definition humanityPart :: "('f, 'c) ow_session \<Rightarrow> int" where
  "humanityPart s =
     (let h = 56 + os_allyCount s * 6 + os_restCount s * 3 - os_lieCount s * 11;
          heated = fl (of_int h - fl (of_int (max 0 (ws_heat (os_worldState s) - 65)) * fl (6 / 10)))
      in clamp (js_round (fl (heated - of_int (max 0 (pl_pollution_score (os_playerState s) - 4) * 3)))) 0 100)"

definition engineSummary :: "('f, 'c) ow_session \<Rightarrow> int \<Rightarrow> int \<Rightarrow> int \<Rightarrow> int \<Rightarrow> string list" where
  "engineSummary s truth purity relation humanity =
     [(utf8 [231, 156, 159, 231, 155, 184, 229, 136, 134] @ '' '') @ show_int truth @ (utf8 [239, 188, 154]) @
        (if os_resolutionConfirmed s then (utf8 [229, 133, 179, 233, 148, 174, 232, 175, 129, 232, 175, 141, 229, 183,
          178, 233, 148, 129, 229, 174, 154]) else (utf8 [229, 133, 179, 233, 148, 174, 232, 175, 129, 232, 175, 141,
          230, 156, 170, 233, 151, 173, 231, 142, 175])),
      (utf8 [231, 186, 175, 229, 135, 128, 229, 136, 134] @ '' '') @ show_int purity @ (utf8 [239, 188, 154, 230, 177,
        161, 230, 159, 147, 230, 140, 135, 230, 149, 176] @ '' '') @ show_int (pl_pollution_score (os_playerState s))
        @ (utf8 [239, 188, 140, 231, 131, 173, 229, 186, 166] @ '' '') @
        show_int (ws_heat (os_worldState s)),
      (utf8 [229, 133, 179, 231, 179, 187, 229, 136, 134] @ '' '') @ show_int relation @ ('' / '' @ utf8 [228, 186,
        186, 230, 128, 167, 229, 136, 134] @ '' '') @ show_int humanity @ (utf8 [239, 188, 154, 232, 176, 142, 232,
        168, 128] @ '' '') @ show_int (os_lieCount s) @
        ('' '' @ utf8 [230, 172, 161, 239, 188, 140, 231, 155, 159, 231, 186, 166] @ '' '') @ show_int (os_allyCount
          s) @ ('' '' @ utf8 [230, 172, 161])]"

definition computeScore :: "('f, 'c) ow_session \<Rightarrow> score_breakdown \<times> string list \<times> string list" where
  "computeScore s =
     (let heat = ws_heat (os_worldState s);
          (truth, truthCodes) = truthPart s;
          purity = purityPart s;
          overheated = (85 \<le> heat);
          relation = (if overheated then clamp (relationPart s - 10) 0 100 else relationPart s);
          humanity = (if overheated then clamp (humanityPart s - 8) 0 100 else humanityPart s);
          reasonCodes = truthCodes
            @ (if 6 \<le> pl_pollution_score (os_playerState s) then [''HIGH_POLLUTION''] else [])
            @ (if overheated then [''HEAT_OVERLOAD''] else [])
            @ (if relation < 45 then [''RELATION_COLLAPSED''] else [])
            @ (if humanity < 45 then [''HUMANITY_COMPROMISED''] else []);
          composite = compositeOf truth purity relation humanity
      in (\<lparr>so_truth = truth, so_purity = purity, so_relation = relation, so_humanity = humanity,
           so_composite = composite, so_grade = gradeOf composite\<rparr>,
          dedup reasonCodes, engineSummary s truth purity relation humanity))"

abbreviation scoreOf :: "('f, 'c) ow_session \<Rightarrow> score_breakdown" where
  "scoreOf s \<equiv> fst (computeScore s)"

subsection \<open>The adjustment by the model's answer\<close>

record score_delta =
  dl_truth :: int
  dl_purity :: int
  dl_relation :: int
  dl_humanity :: int

definition applyLlmAdjustment :: "score_breakdown \<Rightarrow> score_delta \<Rightarrow> score_breakdown" where
  "applyLlmAdjustment rawScore delta =
     (let truth = clamp (so_truth rawScore + dl_truth delta) 0 100;
          purity = clamp (so_purity rawScore + dl_purity delta) 0 100;
          relation = clamp (so_relation rawScore + dl_relation delta) 0 100;
          humanity = clamp (so_humanity rawScore + dl_humanity delta) 0 100;
          composite = compositeOf truth purity relation humanity;
          adjusted = \<lparr>so_truth = truth, so_purity = purity, so_relation = relation, so_humanity = humanity,
            so_composite = composite, so_grade = gradeOf composite\<rparr>
      in if 1 < gradeDistance (so_grade adjusted) (so_grade rawScore) then rawScore else adjusted)"

text \<open>\<open>safeNumber(value, 0)\<close> and \<open>normalizeScoreDelta\<close> of openworld_llm.ts.\<close>

definition safeNumber :: "jsval \<Rightarrow> rat \<Rightarrow> rat" where
  "safeNumber v fallback = (case v of JNum x \<Rightarrow> opt_or (finite_num x) fallback | _ \<Rightarrow> fallback)"

definition deltaOf :: "jsval \<Rightarrow> string \<Rightarrow> int" where
  "deltaOf raw key = clamp (js_round (safeNumber (js_prop_opt raw key) 0)) (- 3) 3"

definition scaledDelta :: "rat \<Rightarrow> int \<Rightarrow> int" where
  "scaledDelta factor d = js_round (fl (of_int d * factor))"

definition normalizeScoreDelta :: "jsval \<Rightarrow> score_delta" where
  "normalizeScoreDelta raw =
     (let truth = deltaOf raw ''truth''; purity = deltaOf raw ''purity'';
          relation = deltaOf raw ''relation''; humanity = deltaOf raw ''humanity'';
          total = \<bar>truth\<bar> + \<bar>purity\<bar> + \<bar>relation\<bar> + \<bar>humanity\<bar>
      in if 6 < total \<and> 0 < total
         then (let factor = fl (6 / of_int total) in
               \<lparr>dl_truth = scaledDelta factor truth, dl_purity = scaledDelta factor purity,
                dl_relation = scaledDelta factor relation, dl_humanity = scaledDelta factor humanity\<rparr>)
         else \<lparr>dl_truth = truth, dl_purity = purity, dl_relation = relation, dl_humanity = humanity\<rparr>)"

end
