(* ===== verification/Openworld_Llm.thy ===== *)
theory Openworld_Llm
  imports Openworld_Score
begin

section \<open>The open world: scenes and endings from a language model\<close>

text \<open>
  services/hide-sis-engine/src/openworld_llm.ts. The request to the model's service is a parameter, a host
  with the key, the answer of \<open>fetch\<close> to a prompt and a temperature (a failure, or whether the status was
  good together with the body as JSON, which may fail too), and \<open>JSON.parse\<close>. Everything that is made of
  an answer is modelled: what is kept of it, and what takes its place. \<open>half_text\<close> is the text of a number
  that is a multiple of one half, as the truth of a player is.
\<close>

subsection \<open>Types\<close>

record scene_beat =
  sb_speaker :: string
  sb_cn :: string
  sb_en :: string
  sb_emotion :: string
  sb_sfx :: "string option"

record scene_choice =
  sk_id :: string
  sk_cn :: string
  sk_en :: string
  sk_effect_tag :: string

record scene_payload =
  sp_beats :: "scene_beat list"
  sp_choices :: "scene_choice list"
  sp_effects :: "ow_effect list"

record personalized_ending =
  pe_title_cn :: string
  pe_title_en :: string
  pe_epilogue_cn :: string
  pe_epilogue_en :: string
  pe_ending_tags :: "string list"
  pe_future_hook_cn :: string
  pe_future_hook_en :: string

record llm_explainer =
  lx_summary_cn :: string
  lx_summary_en :: string
  lx_score_delta :: score_delta

record finalize_payload =
  fp_score :: score_breakdown
  fp_engine_summary :: "string list"
  fp_reason_codes :: "string list"
  fp_personalized_ending :: personalized_ending
  fp_llm_explainer :: llm_explainer

record scene_input =
  sn_worldSeed :: world_seed
  sn_worldState :: world_state
  sn_playerState :: player_state
  sn_action :: ow_action
  sn_choices :: "scene_choice list"
  sn_effects :: "ow_effect list"
  sn_opening :: bool

record ending_input =
  ei_worldSeed :: world_seed
  ei_worldState :: world_state
  ei_score :: score_breakdown
  ei_engineSummary :: "string list"
  ei_reasonCodes :: "string list"
  ei_actionTrace :: "string list"

record llm_host =
  lm_api_key :: "string option"
  lm_fetch :: "string \<Rightarrow> rat \<Rightarrow> (bool \<times> jsval result) result"
  lm_json_parse :: "string \<Rightarrow> jsval option"

subsection \<open>Reading an answer\<close>

definition isNonEmptyString :: "jsval \<Rightarrow> bool" where
  "isNonEmptyString v = (case v of JStr s \<Rightarrow> trim s \<noteq> [] | _ \<Rightarrow> False)"

text \<open>\<open>isNonEmptyString(v) ? v : fallback\<close>\<close>

definition textOr :: "jsval \<Rightarrow> string \<Rightarrow> string" where
  "textOr v fallback = (case v of JStr s \<Rightarrow> if trim s \<noteq> [] then s else fallback | _ \<Rightarrow> fallback)"

definition readBeat :: "jsval \<Rightarrow> scene_beat" where
  "readBeat beat =
     \<lparr>sb_speaker = textOr (js_prop_opt beat ''speaker'') ''Narrator'', sb_cn = textOr (js_prop_opt beat ''cn'') [],
      sb_en = textOr (js_prop_opt beat ''en'') [], sb_emotion = textOr (js_prop_opt beat ''emotion'') ''calm'',
      sb_sfx = (if isNonEmptyString (js_prop_opt beat ''sfx'') then js_string (js_prop_opt beat ''sfx'') else None)\<rparr>"

definition normalizeBeats :: "jsval \<Rightarrow> scene_beat list option" where
  "normalizeBeats raw =
     (case raw of
        JArr items \<Rightarrow>
          (let beats = filter (\<lambda>b. sb_cn b \<noteq> [] \<and> sb_en b \<noteq> []) (map readBeat items)
           in if beats \<noteq> [] then Some (take 6 beats) else None)
      | _ \<Rightarrow> None)"

text \<open>\<open>v?.[0]\<close>; the first character of a string has none of the properties read next.\<close>

definition js_first :: "jsval \<Rightarrow> jsval" where
  "js_first v = (case v of JArr (x # _) \<Rightarrow> x | _ \<Rightarrow> JUndef)"

definition callOpenAI :: "llm_host \<Rightarrow> string \<Rightarrow> rat \<Rightarrow> jsval result" where
  "callOpenAI host prompt temperature =
     (if opt_or (lm_api_key host) [] = [] then Inr JNull
      else rbind (lm_fetch host prompt temperature) (\<lambda>(ok, body).
        if \<not> ok then Inr JNull
        else rbind body (\<lambda>data.
          case js_prop_opt (js_prop_opt (js_first (js_prop_opt data ''choices'')) ''message'') ''content'' of
            JStr text \<Rightarrow> Inr (if trim text \<noteq> [] then opt_or (lm_json_parse host text) JNull else JNull)
          | _ \<Rightarrow> Inr JNull)))"

subsection \<open>Prompts\<close>

definition toActionLine :: "ow_action \<Rightarrow> string" where
  "toActionLine action =
     (case action of
        MOVE t \<Rightarrow> ''MOVE -> '' @ t | INTERROGATE t \<Rightarrow> ''INTERROGATE -> '' @ t | SEARCH _ \<Rightarrow> ''SEARCH''
      | USE_CLUE t c \<Rightarrow> ''USE_CLUE '' @ c @ '' -> '' @ t | LIE t \<Rightarrow> ''LIE -> '' @ t | ALLY t \<Rightarrow> ''ALLY -> '' @ t
      | REST \<Rightarrow> ''REST'')"

definition half_text :: "rat \<Rightarrow> string" where
  "half_text x = show_int \<lfloor>x\<rfloor> @ (if x = of_int \<lfloor>x\<rfloor> then [] else ''.5'')"

definition text_lines :: "string list \<Rightarrow> string" where
  "text_lines = join [char_of (10::nat)]"

definition quoted :: "string \<Rightarrow> string" where
  "quoted s = [char_of (34::nat)] @ s @ [char_of (34::nat)]"

definition typed_keys :: "string \<Rightarrow> string list \<Rightarrow> string list" where
  "typed_keys t keys = map (\<lambda>k. quoted k @ t) keys"

definition buildScenePrompt :: "scene_input \<Rightarrow> string" where
  "buildScenePrompt inp =
     (let world = sn_worldState inp; player = sn_playerState inp; seed = sn_worldSeed inp;
          locations = join '', '' (map (\<lambda>l. lo_id l @ '':'' @ lo_name l) (ws_locations world));
          npcs = join '', '' (map (\<lambda>n. np_id n @ '':'' @ np_name n @ ''('' @ np_role n @ '')'') (ws_npcs world));
          labels = join '' / '' (map cl_label (pl_inventory player));
          inventory = (if labels = [] then ''none'' else labels);
          openingLine = (if sn_opening inp
            then ''Opening scene: include a strong hook with a three-minute countdown, partial confession, and immediate threat. Mention Picha and Baibua.''
            else [])
      in text_lines
        [''Return JSON only. Use this JSON schema:'', ''{'',
         ''  '' @ quoted ''beats'' @ '': [{'' @ quoted ''speaker'' @ '':string, ''
           @ join '', '' (typed_keys '':string'' [''cn'', ''en'', ''emotion'']) @ '', '' @ quoted ''sfx'' @ ''?:string}]'',
         ''}'', [],
         ''World theme: '' @ wd_theme_prompt seed, ''Genre: '' @ join '', '' (wd_genre_tags seed),
         ''Constraints: '' @ join '', '' (wd_constraints seed), ''Locations: '' @ locations, ''NPCs: '' @ npcs,
         ''Inventory: '' @ inventory, ''Current location: '' @ pl_current_location player,
         ''Dignity: '' @ show_int (pl_dignity player), ''Pollution: '' @ show_int (pl_pollution_score player),
         ''Truth: '' @ half_text (pl_truth_progress player), ''Heat: '' @ show_int (ws_heat world),
         ''Action: '' @ toActionLine (sn_action inp), openingLine, [],
         ''Voice rules: Picha is sharp and teasing. Baibua is cold and precise. Keep PG-13.'',
         ''Generate 3-5 beats. CN primary, EN secondary.''])"

definition buildEndingPrompt :: "ending_input \<Rightarrow> string" where
  "buildEndingPrompt inp =
     (let score = ei_score inp; trace = ei_actionTrace inp in
      text_lines
        [''Return JSON only with schema:'', ''{'',
         ''  '' @ quoted ''personalized_ending'' @ '': {'',
         ''    '' @ quoted ''title_cn'' @ '': string,'', ''    '' @ quoted ''title_en'' @ '': string,'',
         ''    '' @ quoted ''epilogue_cn'' @ '': string,'', ''    '' @ quoted ''epilogue_en'' @ '': string,'',
         ''    '' @ quoted ''ending_tags'' @ '': string[],'', ''    '' @ quoted ''future_hook_cn'' @ '': string,'',
         ''    '' @ quoted ''future_hook_en'' @ '': string'', ''  },'',
         ''  '' @ quoted ''llm_explainer'' @ '': {'',
         ''    '' @ quoted ''summary_cn'' @ '': string,'', ''    '' @ quoted ''summary_en'' @ '': string,'',
         ''    '' @ quoted ''score_delta'' @ '': {''
           @ join '', '' (typed_keys '': number'' [''truth'', ''purity'', ''relation'', ''humanity'']) @ ''}'',
         ''  }'', ''}'', [],
         ''Theme: '' @ wd_theme_prompt (ei_worldSeed inp),
         ''Score: truth='' @ show_int (so_truth score) @ '', purity='' @ show_int (so_purity score) @ '', relation=''
           @ show_int (so_relation score) @ '', humanity='' @ show_int (so_humanity score) @ '', composite=''
           @ show_int (so_composite score) @ '', grade='' @ grade_name (so_grade score),
         ''Engine summary: '' @ join '' | '' (ei_engineSummary inp), ''Reason codes: '' @ join '', '' (ei_reasonCodes inp),
         ''Action trace: '' @ join '' -> '' (drop (length trace - 10) trace), [],
         ''Constraints:'', ''- Keep PG-13.'', ''- Make the ending specific to this player's trajectory.'',
         ''- score_delta per dimension must stay small: between -3 and +3.'',
         ''- The tone should feel like a thriller epilogue, not fantasy.''])"

subsection \<open>Scenes\<close>

definition targetOf :: "ow_action \<Rightarrow> string option" where
  "targetOf action =
     (case action of MOVE t \<Rightarrow> Some t | INTERROGATE t \<Rightarrow> Some t | SEARCH target \<Rightarrow> target | USE_CLUE t _ \<Rightarrow> Some t
      | LIE t \<Rightarrow> Some t | ALLY t \<Rightarrow> Some t | REST \<Rightarrow> None)"

definition resolveNpcName :: "scene_input \<Rightarrow> string option" where
  "resolveNpcName inp =
     (case targetOf (sn_action inp) of
        None \<Rightarrow> None
      | Some t \<Rightarrow> if t = [] then None else map_option np_name (findNpcById (sn_worldState inp) t))"

definition beat :: "string \<Rightarrow> string \<Rightarrow> string \<Rightarrow> string \<Rightarrow> scene_beat" where
  "beat speaker cn en emotion = \<lparr>sb_speaker = speaker, sb_cn = cn, sb_en = en, sb_emotion = emotion, sb_sfx = None\<rparr>"

definition npcVoiceBeat :: "string \<Rightarrow> scene_beat" where
  "npcVoiceBeat name =
     (let lower = to_lower name in
      if str_includes lower ''picha'' then
        beat name (utf8 [228, 189, 160, 229, 143, 136, 230, 157, 165, 232, 175, 149, 230, 142, 162, 230, 136, 145,
          239, 188, 159, 231, 172, 145, 229, 174, 185, 233, 135, 140, 229, 131, 143, 232, 151, 143, 231, 157, 128,
          229, 136, 128, 227, 128, 130]) ''Probing again? Your smile hides a blade.'' ''teasing''
      else if str_includes lower ''baibua'' then
        beat name (utf8 [229, 136, 171, 230, 138, 138, 230, 131, 133, 231, 187, 170, 229, 189, 147, 228, 189, 156,
          231, 173, 185, 231, 160, 129, 239, 188, 140, 230, 136, 145, 229, 143, 170, 231, 156, 139, 232, 175, 129,
          230, 141, 174, 227, 128, 130]) ''Don't trade in emotions. I only read evidence.'' ''cold''
      else if str_includes lower ''archivist'' then
        beat name (utf8 [230, 161, 163, 230, 161, 136, 228, 184, 141, 228, 188, 154, 232, 175, 180, 232, 176, 142,
          239, 188, 140, 232, 176, 142, 232, 168, 128, 229, 143, 170, 230, 152, 175, 228, 186, 186, 231, 154, 132,
          228, 185, 160, 230, 131, 175, 227, 128, 130]) ''Records do not lie; only people do.'' ''formal''
      else beat name (utf8 [228, 189, 160, 233, 128, 188, 232, 191, 145, 228, 186, 134, 228, 184, 128, 230, 173, 165,
        239, 188, 140, 228, 189, 134, 228, 187, 163, 228, 187, 183, 230, 156, 170, 229, 191, 133, 229, 143, 175, 232,
        167, 129, 227, 128, 130]) ''You step closer, but the price is unseen.'' ''guarded'')"

definition openingBeats :: "scene_beat list" where
  "openingBeats =
     [beat ''Narrator'' (utf8 [232, 173, 166, 230, 138, 165, 229, 156, 168, 232, 128, 129, 229, 174, 133, 228, 184,
       138, 231, 169, 186, 230, 139, 137, 229, 147, 141, 239, 188, 140, 228, 189, 160, 229, 143, 170, 230, 156, 137,
       228, 184, 137, 229, 136, 134, 233, 146, 159, 227, 128, 130])
       ''The alarm cuts through the manor. You have three minutes.'' ''tense'',
      beat ''Picha'' (utf8 [229, 136, 171, 231, 156, 139, 230, 136, 145, 239, 188, 140, 230, 136, 145, 229, 143, 170,
        228, 188, 154, 231, 187, 153, 228, 189, 160, 228, 184, 128, 229, 141, 138, 231, 156, 159, 231, 155, 184, 227,
        128, 130]) ''Don't look at me. I only give you half the truth.'' ''teasing'',
      beat ''Baibua'' (utf8 [230, 181, 170, 232, 180, 185, 230, 175, 143, 228, 184, 128, 230, 173, 165, 239, 188, 140,
        233, 131, 189, 228, 188, 154, 229, 143, 152, 230, 136, 144, 228, 189, 160, 231, 154, 132, 229, 136, 164, 232,
        175, 141, 227, 128, 130]) ''Every wasted step becomes your verdict.'' ''cold'']"

definition actionBeats :: "scene_input \<Rightarrow> scene_beat list" where
  "actionBeats inp =
     (let actionLine = toActionLine (sn_action inp) in
      [beat ''Narrator'' ((utf8 [228, 189, 160, 230, 137, 167, 232, 161, 140, 228, 186, 134, 232, 161, 140, 229, 138,
        168, 239, 188, 154]) @ actionLine @ (utf8 [227, 128, 130])) (''You executed: '' @ actionLine @ ''.'')
        ''calm'']
      @ (case resolveNpcName inp of None \<Rightarrow> [] | Some name \<Rightarrow> [npcVoiceBeat name])
      @ [beat ''Narrator'' (utf8 [230, 136, 191, 233, 151, 180, 233, 135, 140, 231, 154, 132, 231, 169, 186, 230, 176,
        148, 230, 155, 180, 231, 180, 167, 228, 186, 134, 239, 188, 140, 228, 189, 160, 229, 191, 133, 233, 161, 187,
        230, 155, 180, 232, 176, 168, 230, 133, 142, 227, 128, 130])
        ''The room tightens. You must become deliberate.'' ''resolute''])"

definition buildFallbackScene :: "scene_input \<Rightarrow> scene_payload" where
  "buildFallbackScene inp =
     \<lparr>sp_beats = (if sn_opening inp then openingBeats else actionBeats inp),
      sp_choices = sn_choices inp, sp_effects = sn_effects inp\<rparr>"

text \<open>The scene made of an answer, and \<open>generateScenePayload\<close> with the request.\<close>

definition sceneOf :: "scene_input \<Rightarrow> jsval \<Rightarrow> scene_payload" where
  "sceneOf inp parsed =
     (case normalizeBeats (js_prop_opt parsed ''beats'') of
        None \<Rightarrow> buildFallbackScene inp
      | Some beats \<Rightarrow> \<lparr>sp_beats = beats, sp_choices = sn_choices inp, sp_effects = sn_effects inp\<rparr>)"

definition generateScenePayload :: "llm_host \<Rightarrow> scene_input \<Rightarrow> scene_payload result" where
  "generateScenePayload host inp =
     rbind (callOpenAI host (buildScenePrompt inp) (fl (8 / 10))) (\<lambda>parsed. Inr (sceneOf inp parsed))"

subsection \<open>Endings\<close>

definition fallbackTags :: "ending_input \<Rightarrow> string list" where
  "fallbackTags inp =
     take 6 (dedup (ei_reasonCodes inp
       @ (if so_grade (ei_score inp) = Grade_S \<or> so_grade (ei_score inp) = Grade_A then [''clean-finish''] else [])
       @ (if so_purity (ei_score inp) < 60 then [''contaminated''] else [])
       @ (if 70 \<le> ws_heat (ei_worldState inp) then [''chaotic''] else [])))"

definition fallbackEnding :: "ending_input \<Rightarrow> finalize_payload" where
  "fallbackEnding inp =
     \<lparr>fp_score = ei_score inp, fp_engine_summary = ei_engineSummary inp, fp_reason_codes = ei_reasonCodes inp,
      fp_personalized_ending =
        \<lparr>pe_title_cn = (utf8 [231, 187, 147, 231, 174, 151, 231, 173, 137, 231, 186, 167] @ '' '') @ grade_name
          (so_grade (ei_score inp)) @ (utf8 [239, 188, 154, 231, 167, 152, 229, 175, 134, 228, 187, 141, 229, 156,
          168, 229, 145, 188, 229, 144, 184]),
         pe_title_en = ''Grade '' @ grade_name (so_grade (ei_score inp)) @ '': Secrets Still Breathing'',
         pe_epilogue_cn = (utf8 [228, 189, 160, 231, 166, 187, 229, 188, 128, 228, 186, 134, 232, 128, 129, 229, 174,
           133, 239, 188, 140, 229, 184, 166, 232, 181, 176, 228, 186, 134, 228, 184, 128, 228, 187, 189, 232, 162,
           171, 228, 189, 160, 228, 186, 178, 230, 137, 139, 228, 191, 174, 230, 173, 163, 232, 191, 135, 231, 154,
           132, 231, 156, 159, 231, 155, 184, 227, 128, 130, 229, 164, 156, 232, 137, 178, 230, 178, 161, 230, 156,
           137, 231, 187, 153, 229, 135, 186, 231, 173, 148, 230, 161, 136, 239, 188, 140, 229, 143, 170, 231, 187,
           153, 229, 135, 186, 228, 186, 134, 228, 187, 163, 228, 187, 183, 227, 128, 130]),
         pe_epilogue_en = ''You leave the manor with a truth rewritten by your own hands. The night gives no answers, only costs.'',
         pe_ending_tags = fallbackTags inp,
         pe_future_hook_cn = (utf8 [228, 184, 139, 228, 184, 128, 230, 172, 161, 239, 188, 140, 232, 176, 129, 228,
           188, 154, 229, 133, 136, 229, 188, 128, 229, 143, 163, 239, 188, 154, 228, 189, 160, 227, 128, 129] @
           ''Picha'' @ utf8 [239, 188, 140, 232, 191, 152, 230, 152, 175] @ '' Baibua'' @ utf8 [239, 188, 159]),
         pe_future_hook_en = ''Next time, who speaks first: you, Picha, or Baibua?''\<rparr>,
      fp_llm_explainer =
        \<lparr>lx_summary_cn = (utf8 [231, 179, 187, 231, 187, 159, 230, 140, 137, 229, 155, 155, 231, 187, 180, 232,
          175, 132, 229, 136, 134, 229, 190, 151, 229, 135, 186, 231, 187, 147, 230, 158, 156, 239, 188, 140, 228,
          184, 170, 230, 128, 167, 229, 140, 150, 231, 187, 136, 231, 171, 160, 229, 183, 178, 230, 160, 185, 230,
          141, 174, 228, 189, 160, 231, 154, 132, 232, 161, 140, 229, 138, 168, 232, 189, 168, 232, 191, 185, 231,
          148, 159, 230, 136, 144, 227, 128, 130]),
         lx_summary_en = ''The result follows four-axis scoring, with an epilogue personalized from your action trace.'',
         lx_score_delta = \<lparr>dl_truth = 0, dl_purity = 0, dl_relation = 0, dl_humanity = 0\<rparr>\<rparr>\<rparr>"

text \<open>\<open>typeof v === "object"\<close> of a value that is truthy.\<close>

definition js_objectlike :: "jsval \<Rightarrow> bool" where
  "js_objectlike v = (case v of JObj _ \<Rightarrow> True | JArr _ \<Rightarrow> True | _ \<Rightarrow> False)"

definition keptTags :: "ending_input \<Rightarrow> jsval \<Rightarrow> string list" where
  "keptTags inp tags =
     (case tags of JArr items \<Rightarrow> take 8 (List.map_filter js_string (filter isNonEmptyString items)) | _ \<Rightarrow> fallbackTags inp)"

definition endingOf :: "ending_input \<Rightarrow> jsval \<Rightarrow> finalize_payload" where
  "endingOf inp parsed =
     (let fallback = fallbackEnding inp; ending = js_prop_opt parsed ''personalized_ending'';
          explainer = js_prop_opt parsed ''llm_explainer'';
          keep = (\<lambda>key f. textOr (js_prop_opt ending key) (f (fp_personalized_ending fallback)))
      in if \<not> js_objectlike parsed \<or> \<not> js_truthy ending \<or> \<not> isNonEmptyString (js_prop_opt ending ''title_cn'')
             \<or> \<not> isNonEmptyString (js_prop_opt ending ''title_en'')
         then fallback
         else \<lparr>fp_score = ei_score inp, fp_engine_summary = ei_engineSummary inp, fp_reason_codes = ei_reasonCodes inp,
           fp_personalized_ending =
             \<lparr>pe_title_cn = keep ''title_cn'' pe_title_cn, pe_title_en = keep ''title_en'' pe_title_en,
              pe_epilogue_cn = keep ''epilogue_cn'' pe_epilogue_cn, pe_epilogue_en = keep ''epilogue_en'' pe_epilogue_en,
              pe_ending_tags = keptTags inp (js_prop_opt ending ''ending_tags''),
              pe_future_hook_cn = keep ''future_hook_cn'' pe_future_hook_cn,
              pe_future_hook_en = keep ''future_hook_en'' pe_future_hook_en\<rparr>,
           fp_llm_explainer =
             \<lparr>lx_summary_cn = textOr (js_prop_opt explainer ''summary_cn'') (''LLM '' @ utf8 [229, 183, 178,
               229, 143, 130, 228, 184, 142, 232, 175, 132, 229, 136, 134, 232, 167, 163, 233, 135, 138, 229, 185,
               182, 231, 148, 159, 230, 136, 144, 228, 184, 170, 230, 128, 167, 229, 140, 150, 231, 187, 136, 231,
               171, 160, 227, 128, 130]),
              lx_summary_en = textOr (js_prop_opt explainer ''summary_en'')
                ''The LLM contributed score interpretation and generated a personalized epilogue.'',
              lx_score_delta = normalizeScoreDelta (js_prop_opt explainer ''score_delta'')\<rparr>\<rparr>)"

definition generatePersonalizedEnding :: "llm_host \<Rightarrow> ending_input \<Rightarrow> finalize_payload result" where
  "generatePersonalizedEnding host inp =
     rbind (callOpenAI host (buildEndingPrompt inp) (fl (7 / 10))) (\<lambda>parsed. Inr (endingOf inp parsed))"

end
