(* ===== verification/Openworld_View.thy ===== *)
theory Openworld_View
  imports Openworld_Llm
begin

section \<open>The open world: what a response shows\<close>

text \<open>
  The choices, the guidance, the previews of the next actions and the payloads of
  services/hide-sis-engine/src/openworld_engine.ts: functions of the session that change nothing.
\<close>

type_synonym ow = "(finalize_payload, scene_payload) ow_session"

record expected_gain =
  xg_truth :: "int option"
  xg_purity :: "int option"
  xg_relation :: "int option"
  xg_humanity :: "int option"

record action_preview =
  ap_action_id :: string
  ap_time_cost :: int
  ap_expected :: expected_gain

record guidance =
  gd_objective_cn :: string
  gd_objective_en :: string
  gd_next_cn :: string
  gd_next_en :: string
  gd_reason_cn :: string
  gd_reason_en :: string
  gd_action_suggested :: ow_action

definition RULEBOOK :: "string list" where
  "RULEBOOK =
     [(utf8 [230, 175, 143, 230, 172, 161, 232, 161, 140, 229, 138, 168, 233, 131, 189, 228, 188, 154, 230, 182, 136,
       232, 128, 151, 230, 151, 182, 233, 151, 180, 239, 188, 140, 230, 151, 182, 233, 151, 180, 232, 128, 151, 229,
       176, 189, 232, 135, 170, 229, 138, 168, 231, 187, 147, 231, 174, 151, 227, 128, 130]),
      (utf8 [229, 144, 140, 231, 155, 174, 230, 160, 135, 233, 135, 141, 229, 164, 141, 232, 161, 140, 229, 138, 168,
        228, 188, 154, 232, 161, 176, 229, 135, 143, 230, 148, 182, 231, 155, 138, 239, 188, 140, 228, 185, 177, 231,
        130, 185, 228, 188, 154, 230, 152, 142, 230, 152, 190, 230, 142, 137, 229, 136, 134, 227, 128, 130]),
      (utf8 [228, 184, 173, 229, 144, 142, 230, 156, 159, 229, 191, 133, 233, 161, 187, 231, 148, 168, 231, 186, 191,
        231, 180, 162, 228, 189, 144, 232, 175, 129, 230, 160, 184, 229, 191, 131, 232, 175, 129, 232, 175, 141, 239,
        188, 140, 229, 144, 166, 229, 136, 153, 231, 156, 159, 231, 155, 184, 229, 136, 134, 228, 188, 154, 229, 141,
        161, 228, 189, 143, 227, 128, 130])]"

definition moveTargets :: "world_state \<Rightarrow> player_state \<Rightarrow> ow_location list" where
  "moveTargets world player = take 3 (filter (\<lambda>l. lo_id l \<noteq> pl_current_location player) (ws_locations world))"

definition buildChoiceList :: "world_state \<Rightarrow> player_state \<Rightarrow> scene_choice list" where
  "buildChoiceList world player =
     map (\<lambda>l. \<lparr>sk_id = ''MOVE:'' @ lo_id l, sk_cn = (utf8 [229, 137, 141, 229, 190, 128] @ '' '') @
       lo_name l, sk_en = ''Move to '' @ lo_name l, sk_effect_tag = ''move''\<rparr>)
       (moveTargets world player)
     @ map (\<lambda>n. \<lparr>sk_id = ''INTERROGATE:'' @ np_id n, sk_cn = (utf8 [229, 174, 161, 233, 151, 174] @
       '' '') @ np_name n, sk_en = ''Interrogate '' @ np_name n,
         sk_effect_tag = ''interrogate''\<rparr>) (ws_npcs world)
     @ [\<lparr>sk_id = ''SEARCH'', sk_cn = (utf8 [230, 144, 156, 231, 180, 162, 229, 189, 147, 229, 137, 141, 229,
       156, 176, 231, 130, 185]), sk_en = ''Search here'', sk_effect_tag = ''search''\<rparr>,
        \<lparr>sk_id = ''REST'', sk_cn = (utf8 [231, 159, 173, 230, 154, 130, 228, 188, 145, 230, 149, 180]), sk_en =
          ''Rest'', sk_effect_tag = ''rest''\<rparr>]"

subsection \<open>Guidance\<close>

definition nth_opt :: "'a list \<Rightarrow> nat \<Rightarrow> 'a option" where
  "nth_opt xs i = (if i < length xs then Some (xs ! i) else None)"

definition or_else :: "'a option \<Rightarrow> 'a option \<Rightarrow> 'a option" where
  "or_else a b = (case a of None \<Rightarrow> b | Some _ \<Rightarrow> a)"

definition buildGuidance :: "ow \<Rightarrow> guidance" where
  "buildGuidance s =
     (let timeLeft = show_int (clamp (TIME_BUDGET - os_timeSpent s) 0 TIME_BUDGET);
          player = os_playerState s; world = os_worldState s; grade = grade_name (so_grade (scoreOf s)) in
      case phaseOf (os_timeSpent s) of
        INVESTIGATION \<Rightarrow>
          \<lparr>gd_objective_cn = (utf8 [229, 133, 136, 233, 147, 186, 231, 186, 191, 231, 180, 162, 239, 188, 140,
            229, 134, 141, 233, 151, 174, 228, 186, 186, 239, 188, 140, 233, 129, 191, 229, 133, 141, 230, 151, 169,
            230, 156, 159, 228, 185, 177, 231, 130, 185, 227, 128, 130]),
           gd_objective_en = ''Collect clues first, then interrogate. Avoid random clicking.'',
           gd_next_cn = (utf8 [230, 144, 156, 231, 180, 162, 229, 189, 147, 229, 137, 141, 229, 156, 176, 231, 130,
             185, 230, 136, 150, 231, 167, 187, 229, 138, 168, 229, 136, 176, 233, 171, 152, 229, 141, 177, 229, 140,
             186]),
           gd_next_en = ''Search current location or move to a high-risk zone'',
           gd_reason_cn = (utf8 [232, 176, 131, 230, 159, 165, 230, 156, 159, 229, 137, 169, 228, 189, 153] @ '' '') @
             timeLeft @ (utf8 [227, 128, 130, 229, 187, 186, 232, 174, 174, 232, 135, 179, 229, 176, 145, 230, 139,
             191, 229, 136, 176] @ '' 2 '' @ utf8 [230, 157, 161, 231, 186, 191, 231, 180, 162, 227, 128, 130]),
           gd_reason_en = timeLeft @ '' time left in investigation. Aim for at least 2 clues.'',
           gd_action_suggested = SEARCH None\<rparr>
      | CORROBORATION \<Rightarrow>
          (let core = or_else (findNpc world ''picha'') (nth_opt (ws_npcs world) 0) in
           \<lparr>gd_objective_cn = (utf8 [231, 148, 168, 231, 186, 191, 231, 180, 162, 228, 189, 144, 232, 175, 129,
             229, 133, 179, 233, 148, 174, 232, 175, 129, 232, 175, 141, 239, 188, 140, 229, 144, 166, 229, 136, 153,
             231, 156, 159, 231, 155, 184, 229, 136, 134, 228, 188, 154, 232, 162, 171, 229, 141, 161, 228, 189, 143,
             227, 128, 130]),
            gd_objective_en = ''Corroborate testimony with clues or truth score will stall.'',
            gd_next_cn = (utf8 [229, 175, 185] @ '' '') @ opt_or (map_option np_name core) (utf8 [231, 155, 174, 230,
              160, 135]) @ ('' '' @ utf8 [228, 189, 191, 231, 148, 168, 231, 186, 191, 231, 180, 162]),
            gd_next_en = ''Use a clue on '' @ opt_or (map_option np_name core) ''target'',
            gd_reason_cn = (utf8 [233, 162, 132, 232, 174, 161, 231, 173, 137, 231, 186, 167] @ '' '') @ grade @ (utf8
              [239, 188, 140, 228, 184, 173, 230, 156, 159, 229, 191, 133, 233, 161, 187, 229, 174, 140, 230, 136,
              144, 231, 186, 191, 231, 180, 162, 229, 175, 185, 232, 175, 129, 227, 128, 130]),
            gd_reason_en = ''Projected grade '' @ grade @ ''. Corroboration is mandatory now.'',
            gd_action_suggested =
              (case (core, pl_inventory player) of
                 (Some n, c # _) \<Rightarrow> USE_CLUE (np_id n) (cl_id c)
               | _ \<Rightarrow> SEARCH None)\<rparr>)
      | RESOLUTION \<Rightarrow>
          (let baibua = or_else (findNpc world ''baibua'') (nth_opt (ws_npcs world) 1) in
           \<lparr>gd_objective_cn = (utf8 [231, 187, 136, 229, 177, 128, 233, 152, 182, 230, 174, 181, 239, 188, 154,
             233, 148, 129, 229, 174, 154, 230, 160, 184, 229, 191, 131, 232, 175, 129, 232, 175, 141, 229, 185, 182,
             229, 135, 134, 229, 164, 135, 231, 187, 147, 231, 174, 151, 227, 128, 130]),
            gd_objective_en = ''Resolution phase: lock core testimony and prepare to finalize.'',
            gd_next_cn = (utf8 [229, 174, 161, 233, 151, 174] @ '' '') @ opt_or (map_option np_name baibua) (utf8
              [230, 160, 184, 229, 191, 131, 232, 167, 146, 232, 137, 178]),
            gd_next_en = ''Interrogate '' @ opt_or (map_option np_name baibua) ''core target'',
            gd_reason_cn = (utf8 [229, 137, 169, 228, 189, 153, 230, 151, 182, 233, 151, 180] @ '' '') @ timeLeft @
              (utf8 [227, 128, 130, 232, 139, 165, 230, 157, 161, 228, 187, 182, 233, 189, 144, 229, 164, 135, 229,
              143, 175, 231, 171, 139, 229, 141, 179, 231, 187, 147, 231, 174, 151, 227, 128, 130]),
            gd_reason_en = timeLeft @ '' time left. Finalize early if conditions are met.'',
            gd_action_suggested = (case baibua of Some n \<Rightarrow> INTERROGATE (np_id n) | None \<Rightarrow> SEARCH None)\<rparr>))"

subsection \<open>Previews\<close>

definition no_gain :: expected_gain where
  "no_gain = \<lparr>xg_truth = None, xg_purity = None, xg_relation = None, xg_humanity = None\<rparr>"

definition coreOption :: "world_state \<Rightarrow> string \<Rightarrow> bool" where
  "coreOption world i \<longleftrightarrow> Some i \<in> {map_option np_id (findNpc world ''picha''), map_option np_id (findNpc world ''baibua'')}"

definition previewSearch :: "session_phase \<Rightarrow> rat \<Rightarrow> expected_gain" where
  "previewSearch phase novelty =
     (let truth = js_round (fl (12 * novelty));
          truth' = (if phase = CORROBORATION then js_round (of_int truth * (1 / 2)) else if phase = RESOLUTION then 0 else truth)
      in no_gain\<lparr>xg_truth := Some truth', xg_purity := Some (- 1)\<rparr>)"

definition previewInterrogate :: "ow \<Rightarrow> string \<Rightarrow> session_phase \<Rightarrow> rat \<Rightarrow> expected_gain" where
  "previewInterrogate s target phase novelty =
     (let truth = js_round (fl (7 * novelty));
          truth' = (if phase = CORROBORATION \<and> usedClue s target \<le> 0 then min truth 2 else truth);
          truth'' = (if phase = RESOLUTION \<and> (\<not> coreOption (os_worldState s) target \<or> usedClue s target \<le> 0) then 0 else truth')
      in no_gain\<lparr>xg_truth := Some truth'', xg_relation := Some 1\<rparr>)"

definition estimateAction :: "ow \<Rightarrow> ow_action \<Rightarrow> action_preview" where
  "estimateAction s action =
     (let key = buildActionKey action (os_playerState s); novelty = noveltyMultiplier s key; phase = phaseOf (os_timeSpent s) in
      \<lparr>ap_action_id = key, ap_time_cost = ACTION_TIME_COST action,
       ap_expected =
         (case action of
            SEARCH _ \<Rightarrow> previewSearch phase novelty
          | INTERROGATE target \<Rightarrow> previewInterrogate s target phase novelty
          | USE_CLUE _ _ \<Rightarrow> no_gain\<lparr>xg_truth := Some (js_round (fl (6 * novelty))), xg_purity := Some 1, xg_relation := Some 1\<rparr>
          | ALLY _ \<Rightarrow> no_gain\<lparr>xg_relation := Some 1, xg_humanity := Some 4\<rparr>
          | LIE _ \<Rightarrow> \<lparr>xg_truth = None, xg_purity = Some (- 2), xg_relation = Some (- 1), xg_humanity = Some (- 8)\<rparr>
          | REST \<Rightarrow> no_gain\<lparr>xg_purity := Some 1, xg_humanity := Some 2\<rparr>
          | MOVE _ \<Rightarrow> no_gain)\<rparr>)"

definition nextActions :: "ow \<Rightarrow> ow_action list" where
  "nextActions s =
     (let world = os_worldState s; player = os_playerState s in
      [SEARCH None, REST]
      @ concat (map (\<lambda>n. [INTERROGATE (np_id n), ALLY (np_id n), LIE (np_id n)]) (ws_npcs world))
      @ map (\<lambda>l. MOVE (lo_id l)) (moveTargets world player)
      @ (case pl_inventory player of [] \<Rightarrow> [] | c # _ \<Rightarrow> map (\<lambda>n. USE_CLUE (np_id n) (cl_id c)) (ws_npcs world)))"

definition buildActionPreviewNext :: "ow \<Rightarrow> action_preview list" where
  "buildActionPreviewNext s = map (estimateAction s) (nextActions s)"

subsection \<open>Payloads\<close>

record view_payload =
  vp_world_seed :: world_seed
  vp_world_state :: world_state
  vp_player_state :: player_state
  vp_scene :: scene_payload
  vp_guidance :: guidance
  vp_clock :: session_clock
  vp_score_preview :: score_breakdown
  vp_action_preview_next :: "action_preview list"

record start_payload = view_payload +
  vp_rulebook :: "string list"

record action_payload = view_payload +
  vp_new_clues :: "ow_clue list"
  vp_reason_codes :: "string list"
  vp_finalized :: "finalize_payload option"

definition buildStartPayload :: "ow \<Rightarrow> scene_payload \<Rightarrow> start_payload" where
  "buildStartPayload s scene =
     \<lparr>vp_world_seed = os_worldSeed s, vp_world_state = os_worldState s, vp_player_state = os_playerState s, vp_scene = scene,
      vp_guidance = buildGuidance s, vp_clock = buildClock s, vp_score_preview = scoreOf s,
      vp_action_preview_next = buildActionPreviewNext s, vp_rulebook = RULEBOOK\<rparr>"

definition buildActionPayload ::
  "ow \<Rightarrow> scene_payload \<Rightarrow> ow_clue list \<Rightarrow> string list \<Rightarrow> finalize_payload option \<Rightarrow> action_payload" where
  "buildActionPayload s scene newClues reasonCodes finalized =
     \<lparr>vp_world_seed = os_worldSeed s, vp_world_state = os_worldState s, vp_player_state = os_playerState s, vp_scene = scene,
      vp_guidance = buildGuidance s, vp_clock = buildClock s, vp_score_preview = scoreOf s,
      vp_action_preview_next = buildActionPreviewNext s, vp_new_clues = newClues, vp_reason_codes = reasonCodes,
      vp_finalized = finalized\<rparr>"

end
