(* ===== verification/Openworld_Session.thy ===== *)
theory Openworld_Session
  imports Openworld_View
begin

section \<open>The open world: sessions and operations\<close>

text \<open>
  The session map and the exported operations of services/hide-sis-engine/src/openworld_engine.ts. An
  operation that waits for the model is cut where it waits: it leaves a task, and \<open>resume\<close> goes on with it
  when the model answers or fails, on the session as it is by then. So other requests can come between; an
  undisturbed operation is \<open>settle\<close>d at once. The worlds' identifiers are fresh, and no operation removes one.
\<close>

type_synonym ow_store = "(string, ow) jsmap"

datatype ow_task =
    Scene_task string scene_input "ow_clue list" "string list"
  | Ending_task string ending_input "(scene_payload \<times> ow_clue list \<times> string list) option"

datatype ow_reply = Action_reply action_payload | Final_reply finalize_payload

datatype ow_outcome = Replied ow_reply | Waiting ow_task | Threw js_error

subsection \<open>Start\<close>

definition openingInput :: "ow \<Rightarrow> scene_input" where
  "openingInput s =
     \<lparr>sn_worldSeed = os_worldSeed s, sn_worldState = os_worldState s, sn_playerState = os_playerState s, sn_action = REST,
      sn_choices = buildChoiceList (os_worldState s) (os_playerState s),
      sn_effects = [no_effect\<lparr>ef_heat_delta := Some 0\<rparr>], sn_opening = True\<rparr>"

definition startOpenWorld ::
  "llm_host \<Rightarrow> string \<Rightarrow> int \<Rightarrow> start_input \<Rightarrow> ow_store \<Rightarrow> ow_store \<times> start_payload result" where
  "startOpenWorld host uuid now inp st =
     (let s = newOpenWorld (buildWorldSeed uuid inp) now in
      case generateScenePayload host (openingInput s) of
        Inl e \<Rightarrow> (st, Inl e)
      | Inr scene \<Rightarrow>
          (let s' = s\<lparr>os_lastScene := Some scene\<rparr>
           in (map_set (wd_world_id (os_worldSeed s)) s' st, Inr (buildStartPayload s' scene))))"

subsection \<open>Finalization\<close>

definition ensureSession :: "string \<Rightarrow> ow_store \<Rightarrow> ow result" where
  "ensureSession wid st =
     (case map_get st wid of None \<Rightarrow> Inl (Thrown ''openworld session not found'') | Some s \<Rightarrow> Inr s)"

definition toFinalizePayload :: "finalize_payload \<Rightarrow> score_breakdown \<Rightarrow> finalize_payload" where
  "toFinalizePayload payload adjustedScore = payload\<lparr>fp_score := adjustedScore\<rparr>"

text \<open>What is answered when the final payload is there: the context is that of an action, if one finalizes.\<close>

definition finalReply :: "ow \<Rightarrow> (scene_payload \<times> ow_clue list \<times> string list) option \<Rightarrow> finalize_payload \<Rightarrow> ow_reply" where
  "finalReply s ctx f =
     (case ctx of
        None \<Rightarrow> Final_reply f
      | Some (scene, newClues, reasonCodes) \<Rightarrow>
          Action_reply (buildActionPayload s scene newClues (reasonCodes @ [''TIME_BUDGET_EXHAUSTED'']) (Some f)))"

definition finalBegin :: "string \<Rightarrow> (scene_payload \<times> ow_clue list \<times> string list) option \<Rightarrow> ow \<Rightarrow> ow_outcome" where
  "finalBegin wid ctx s =
     (case os_finalized s of
        Some f \<Rightarrow> Replied (finalReply s ctx f)
      | None \<Rightarrow>
          (let (score, reasonCodes, summary) = computeScore s
           in Waiting (Ending_task wid
                \<lparr>ei_worldSeed = os_worldSeed s, ei_worldState = os_worldState s, ei_score = score, ei_engineSummary = summary,
                 ei_reasonCodes = reasonCodes, ei_actionTrace = os_actionTrace s\<rparr> ctx)))"

text \<open>The world of the input is the shared object: its heat is read when the answer is there.\<close>

definition finalFinish :: "int \<Rightarrow> ending_input \<Rightarrow> jsval \<Rightarrow> ow \<Rightarrow> ow \<times> finalize_payload" where
  "finalFinish now inp parsed s =
     (let generated = endingOf (inp\<lparr>ei_worldState := os_worldState s\<rparr>) parsed;
          adjustedScore = applyLlmAdjustment (ei_score inp) (lx_score_delta (fp_llm_explainer generated));
          f = toFinalizePayload generated adjustedScore
      in (s\<lparr>os_finalized := Some f, os_completed := True, os_updatedAt := now\<rparr>, f))"

subsection \<open>Actions\<close>

definition sceneInput :: "ow_action \<Rightarrow> ow_effect list \<Rightarrow> ow \<Rightarrow> scene_input" where
  "sceneInput action effects s =
     \<lparr>sn_worldSeed = os_worldSeed s, sn_worldState = os_worldState s, sn_playerState = os_playerState s, sn_action = action,
      sn_choices = buildChoiceList (os_worldState s) (os_playerState s), sn_effects = effects, sn_opening = False\<rparr>"

definition actBegin :: "string \<Rightarrow> ow_action \<Rightarrow> ow_store \<Rightarrow> ow_store \<times> ow_outcome" where
  "actBegin wid action st =
     (case ensureSession wid st of
        Inl e \<Rightarrow> (st, Threw e)
      | Inr s \<Rightarrow>
        if os_completed s
        then (let frozenScene = opt_or (os_lastScene s) (buildFallbackScene (sceneInput action [] s))
              in (st, Replied (Action_reply
                    (buildActionPayload s frozenScene [] [''SESSION_ALREADY_FINALIZED''] (os_finalized s)))))
        else (let (s', effects, newClues, reasonCodes) = applyAction action s
              in (map_set wid s' st, Waiting (Scene_task wid (sceneInput action effects s') newClues reasonCodes))))"

definition sceneFinish ::
  "int \<Rightarrow> string \<Rightarrow> scene_payload \<Rightarrow> ow_clue list \<Rightarrow> string list \<Rightarrow> ow \<Rightarrow> ow \<times> ow_outcome" where
  "sceneFinish now wid scene newClues reasonCodes s =
     (let s' = s\<lparr>os_lastScene := Some scene, os_updatedAt := now\<rparr> in
      (s', if TIME_BUDGET \<le> os_timeSpent s' then finalBegin wid (Some (scene, newClues, reasonCodes)) s'
           else Replied (Action_reply (buildActionPayload s' scene newClues reasonCodes None))))"

definition beginFinalize :: "string \<Rightarrow> ow_store \<Rightarrow> ow_store \<times> ow_outcome" where
  "beginFinalize wid st =
     (case ensureSession wid st of Inl e \<Rightarrow> (st, Threw e) | Inr s \<Rightarrow> (st, finalBegin wid None s))"

subsection \<open>Going on after an answer\<close>

text \<open>The request was made with the prompt of the time the task began.\<close>

definition answerTo :: "llm_host \<Rightarrow> ow_task \<Rightarrow> jsval result" where
  "answerTo host t =
     (case t of
        Scene_task _ inp _ _ \<Rightarrow> callOpenAI host (buildScenePrompt inp) (fl (8 / 10))
      | Ending_task _ inp _ \<Rightarrow> callOpenAI host (buildEndingPrompt inp) (fl (7 / 10)))"

fun worldOf :: "ow_task \<Rightarrow> string" where
  "worldOf (Scene_task wid _ _ _) = wid"
| "worldOf (Ending_task wid _ _) = wid"

definition resumeTask :: "int \<Rightarrow> ow_task \<Rightarrow> jsval \<Rightarrow> ow \<Rightarrow> ow \<times> ow_outcome" where
  "resumeTask now t parsed s =
     (case t of
        Scene_task wid inp newClues reasonCodes \<Rightarrow> sceneFinish now wid (sceneOf inp parsed) newClues reasonCodes s
      | Ending_task wid inp ctx \<Rightarrow>
          (let (s', f) = finalFinish now inp parsed s in (s', Replied (finalReply s' ctx f))))"

definition resume :: "llm_host \<Rightarrow> int \<Rightarrow> ow_task \<Rightarrow> ow_store \<Rightarrow> ow_store \<times> ow_outcome" where
  "resume host now t st =
     (case (answerTo host t, ensureSession (worldOf t) st) of
        (Inl e, _) \<Rightarrow> (st, Threw e)
      | (_, Inl e) \<Rightarrow> (st, Threw e)
      | (Inr parsed, Inr s) \<Rightarrow>
          (let (s', out) = resumeTask now t parsed s in (map_set (worldOf t) s' st, out)))"

subsection \<open>Undisturbed operations\<close>

definition settle :: "llm_host \<Rightarrow> int \<Rightarrow> ow_store \<times> ow_outcome \<Rightarrow> ow_store \<times> ow_outcome" where
  "settle host now r = (case r of (st, Waiting t) \<Rightarrow> resume host now t st | _ \<Rightarrow> r)"

text \<open>An action waits at most twice, a finalization once.\<close>

definition applyOpenWorldAction ::
  "llm_host \<Rightarrow> int \<Rightarrow> string \<Rightarrow> ow_action \<Rightarrow> ow_store \<Rightarrow> ow_store \<times> ow_outcome" where
  "applyOpenWorldAction host now wid action st = settle host now (settle host now (actBegin wid action st))"

definition finalizeOpenWorldSession :: "llm_host \<Rightarrow> int \<Rightarrow> string \<Rightarrow> ow_store \<Rightarrow> ow_store \<times> ow_outcome" where
  "finalizeOpenWorldSession host now wid st = settle host now (beginFinalize wid st)"

end
