(* ===== verification/Openworld_Play.thy ===== *)
theory Openworld_Play
  imports Openworld_Session
begin

section \<open>The open world: reachable sessions\<close>

text \<open>
  The stores that requests reach, with the tasks that wait for the model's answers in any order, and an
  invariant of all of them: the world stays the one that was built, every score keeps its range, the
  clues come in their order, and the evidence a resolution needs is there.
\<close>

fun tasksOf :: "ow_outcome \<Rightarrow> ow_task list" where
  "tasksOf (Waiting t) = [t]"
| "tasksOf _ = []"

inductive ow_reachable :: "ow_store \<Rightarrow> ow_task list \<Rightarrow> bool" where
  ow_empty: "ow_reachable [] []"
| ow_start: "ow_reachable st ts \<Longrightarrow> map_get st (''world-'' @ uuid) = None \<Longrightarrow>
    ow_reachable (fst (startOpenWorld host uuid now inp st)) ts"
| ow_act: "ow_reachable st ts \<Longrightarrow> actBegin wid action st = (st', out) \<Longrightarrow> ow_reachable st' (tasksOf out @ ts)"
| ow_final: "ow_reachable st ts \<Longrightarrow> beginFinalize wid st = (st', out) \<Longrightarrow> ow_reachable st' (tasksOf out @ ts)"
| ow_resume: "ow_reachable st ts \<Longrightarrow> t \<in> set ts \<Longrightarrow> resume host now t st = (st', out) \<Longrightarrow>
    ow_reachable st' (tasksOf out @ remove1 t ts)"

subsection \<open>The world that is built\<close>

lemma map_index_simps: "map_index f [] = []" "map_index f (x # xs) = f 0 x # map_index (\<lambda>i. f (Suc i)) xs"
proof -
  show "map_index f (x # xs) = f 0 x # map_index (\<lambda>i. f (Suc i)) xs"
    unfolding map_index_def length_Cons upt_conv_Cons[OF zero_less_Suc] zip_Cons_Cons list.map map_Suc_upt[symmetric] zip_map1
    by (simp add: case_prod_beta comp_def)
qed (simp add: map_index_def)

lemma digits:
  "show_nat (Suc 0) = ''1''" "show_nat (Suc (Suc 0)) = ''2''" "show_nat (Suc (Suc (Suc 0))) = ''3''"
  "show_nat (Suc (Suc (Suc (Suc 0)))) = ''4''" "show_nat (Suc (Suc (Suc (Suc (Suc 0))))) = ''5''"
  by code_simp+

lemma npc_ids: "map np_id (buildNPCs seed) = [''npc-1'', ''npc-2'', ''npc-3'', ''npc-4'']"
  and npc_names: "map np_name (buildNPCs seed) = [''Picha'', ''Baibua'', ''Archivist'', ''Witness'']"
  and npc_relations: "map np_relation (buildNPCs seed) = [1, 0, 0, 0]"
  by (simp_all add: buildNPCs_def BASE_NPCS_def map_index_simps digits)

lemma location_ids: "map lo_id (buildLocations seed) = [''loc-1'', ''loc-2'', ''loc-3'', ''loc-4'', ''loc-5'']"
  by (simp add: buildLocations_def BASE_LOCATIONS_def map_index_simps digits)

lemma clue_ids: "map cl_id (buildClues seed) = [''clue-1'', ''clue-2'', ''clue-3'', ''clue-4'', ''clue-5'']"
  and clue_truths: "map cl_truth_value (buildClues seed) = [14, 12, 16, 18, 20]"
  and clue_risks: "map cl_pollution_risk (buildClues seed) = [1, 0, 1, 0, 1]"
  by (simp_all add: buildClues_def BASE_CLUES_def map_index_simps digits)

lemma clue_count: "length (buildClues seed) = 5"
  by (simp add: buildClues_def BASE_CLUES_def map_index_simps)

lemma find_npcs:
  assumes "ws_npcs w = buildNPCs seed"
  shows "map_option np_id (findNpc w ''picha'') = Some ''npc-1''" "map_option np_id (findNpc w ''baibua'') = Some ''npc-2''"
proof -
  have i: "str_includes (to_lower ''Picha'') (to_lower ''picha'')" "\<not> str_includes (to_lower ''Picha'') (to_lower ''baibua'')"
    "str_includes (to_lower ''Baibua'') (to_lower ''baibua'')" by code_simp+
  obtain a b c d where n: "buildNPCs seed = [a, b, c, d]" "np_name a = ''Picha''" "np_name b = ''Baibua''"
      "np_id a = ''npc-1''" "np_id b = ''npc-2''"
    using npc_names[of seed] npc_ids[of seed] by (auto simp: map_eq_Cons_conv)
  show "map_option np_id (findNpc w ''picha'') = Some ''npc-1''" "map_option np_id (findNpc w ''baibua'') = Some ''npc-2''"
    using i by (simp_all add: findNpc_def assms n)
qed

lemma core_ids: "ws_npcs w = buildNPCs seed \<Longrightarrow> coreIds w = [''npc-1'', ''npc-2'']"
  using find_npcs[of w seed] by (auto simp: coreIds_def List.map_filter_def)

subsection \<open>The invariant\<close>

definition world_ok :: "world_seed \<Rightarrow> world_state \<Rightarrow> bool" where
  "world_ok seed w \<longleftrightarrow> ws_locations w = buildLocations seed \<and> ws_npcs w = buildNPCs seed \<and> ws_clues w = buildClues seed
     \<and> ws_heat w \<in> {0..120} \<and> ws_budget_bps w \<in> {0..10000}"

text \<open>A relation is in its range, or a NaN under a name every object inherits.\<close>

definition relation_entry_ok :: "string \<Rightarrow> int option \<Rightarrow> bool" where
  "relation_entry_ok i v \<longleftrightarrow> (case v of Some r \<Rightarrow> r \<in> {-3..3} | None \<Rightarrow> i \<in> set inheritedNames)"

definition player_ok :: "world_seed \<Rightarrow> player_state \<Rightarrow> bool" where
  "player_ok seed p \<longleftrightarrow> pl_dignity p \<in> {0..100} \<and> pl_pollution_score p \<in> {0..12} \<and> pl_truth_progress p \<in> {0..120}
     \<and> (\<forall>i v. map_get (pl_relation_map p) i = Some v \<longrightarrow> relation_entry_ok i v)
     \<and> (\<forall>i \<in> set (map np_id (buildNPCs seed)). \<exists>r. map_get (pl_relation_map p) i = Some (Some r))
     \<and> pl_inventory p = take (length (pl_inventory p)) (buildClues seed)
     \<and> pl_current_location p \<in> set (map lo_id (buildLocations seed))"

definition evidence_ok :: "('f, 'c) ow_session \<Rightarrow> bool" where
  "evidence_ok s \<longleftrightarrow> (os_usedClueAny s \<longleftrightarrow> os_usedClueByNpc s \<noteq> [])
     \<and> (os_usedClueAny s \<longrightarrow> pl_inventory (os_playerState s) \<noteq> [])
     \<and> (\<forall>i v. map_get (os_usedClueByNpc s) i = Some v \<longrightarrow> 0 < v)
     \<and> (os_resolutionConfirmed s \<longrightarrow> 75 \<le> os_timeSpent s \<and> (0 < usedClue s ''npc-1'' \<or> 0 < usedClue s ''npc-2''))"

definition clock_ok :: "('f, 'c) ow_session \<Rightarrow> bool" where
  "clock_ok s \<longleftrightarrow> os_timeSpent s \<in> {0..100} \<and> 0 \<le> ws_time_tick (os_worldState s)
     \<and> min 100 (8 * ws_time_tick (os_worldState s)) \<le> os_timeSpent s
     \<and> 0 \<le> os_lieCount s \<and> 0 \<le> os_allyCount s \<and> 0 \<le> os_restCount s \<and> length (os_actionTrace s) \<le> 120"

definition ow_inv :: "('f, 'c) ow_session \<Rightarrow> bool" where
  "ow_inv s \<longleftrightarrow> world_ok (os_worldSeed s) (os_worldState s) \<and> player_ok (os_worldSeed s) (os_playerState s)
     \<and> evidence_ok s \<and> clock_ok s \<and> (os_completed s \<longleftrightarrow> os_finalized s \<noteq> None)"

lemma inv_built: "ow_inv (newOpenWorld seed now)"
proof -
  have "map_get (pl_relation_map (buildPlayerState (buildWorldState seed))) i = Some v \<Longrightarrow> relation_entry_ok i v" for i v
    using npc_ids[of seed] npc_relations[of seed]
    by (auto simp: buildPlayerState_def buildWorldState_def relation_entry_ok_def map_eq_Cons_conv split: if_splits)
  moreover have "i \<in> set (map np_id (buildNPCs seed)) \<Longrightarrow>
      \<exists>r. map_get (pl_relation_map (buildPlayerState (buildWorldState seed))) i = Some (Some r)" for i
    using npc_ids[of seed]
    by (auto simp: buildPlayerState_def buildWorldState_def map_eq_Cons_conv)
  moreover have "pl_current_location (buildPlayerState (buildWorldState seed)) \<in> set (map lo_id (buildLocations seed))"
    using location_ids[of seed]
    by (cases "buildLocations seed") (auto simp: buildPlayerState_def buildWorldState_def)
  ultimately show ?thesis
    by (simp add: ow_inv_def newOpenWorld_def Let_def world_ok_def player_ok_def evidence_ok_def clock_ok_def
      buildWorldState_def buildPlayerState_def)
qed

subsection \<open>What keeps the invariant\<close>

text \<open>Changes of the player that keep its ranges and lose no clue.\<close>

definition keeps :: "world_seed \<Rightarrow> (player_state \<Rightarrow> player_state) \<Rightarrow> bool" where
  "keeps seed f \<longleftrightarrow> (\<forall>p. player_ok seed p \<longrightarrow> player_ok seed (f p) \<and> (pl_inventory p \<noteq> [] \<longrightarrow> pl_inventory (f p) \<noteq> []))"

lemma keeps_comp: "keeps seed f \<Longrightarrow> keeps seed g \<Longrightarrow> keeps seed (\<lambda>p. f (g p))"
  by (simp add: keeps_def)

lemma keeps_basic:
  "keeps seed (addPollution d)" "keeps seed (addTruth t)" "keeps seed (addDignity d)" "keeps seed (addJournal l)"
  "keeps seed (\<lambda>p. p)"
  by (simp_all add: keeps_def player_ok_def addPollution_def addTruth_def addDignity_def addJournal_def)

lemma keeps_relation: "keeps seed (updateRelation i d)"
proof -
  have "relation_entry_ok k v"
    if "map_get (pl_relation_map (updateRelation i d p)) k = Some v" "\<forall>i v. map_get (pl_relation_map p) i = Some v \<longrightarrow> relation_entry_ok i v" for p k v
  proof (cases "i = ''__proto__'' \<or> k \<noteq> i")
    case True
    then have "map_get (pl_relation_map p) k = Some v" using that(1) by (auto simp: updateRelation_def split: if_splits)
    then show ?thesis using that(2) by blast
  next
    case False
    then have v: "v = map_option (\<lambda>r. clamp (r + d) (-3) 3) (relationOf p i)" "k = i" using that(1) by (simp_all add: updateRelation_def)
    show ?thesis
    proof (cases "relationOf p i")
      case None
      then have "i \<in> set inheritedNames \<or> map_get (pl_relation_map p) i = Some None"
        by (auto simp: relationOf_def split: if_splits option.splits)
      moreover have "map_get (pl_relation_map p) i = Some None \<Longrightarrow> relation_entry_ok i None" using that(2) by blast
      ultimately show ?thesis using None by (auto simp: v relation_entry_ok_def)
    qed (simp add: v relation_entry_ok_def)
  qed
  moreover have "\<exists>r. map_get (pl_relation_map (updateRelation i d p)) k = Some (Some r)"
    if "\<exists>r. map_get (pl_relation_map p) k = Some (Some r)" for p k
    using that by (auto simp: updateRelation_def relationOf_def)
  ultimately show ?thesis
    unfolding keeps_def player_ok_def by (auto simp: updateRelation_def)
qed

lemma keeps_journal_of: "keeps seed f \<Longrightarrow> keeps seed (\<lambda>p. addJournal (line p) (f p))"
  using keeps_basic(4)[of seed] unfolding keeps_def by blast

lemma keeps_dignity: "keeps seed (settleDignity effects)"
  using keeps_basic(3)[of seed 1] keeps_basic(3)[of seed "- 1"]
  by (simp add: keeps_def settleDignity_def Let_def)

lemma keeps_move: "l \<in> set (map lo_id (buildLocations seed)) \<Longrightarrow> keeps seed (\<lambda>p. p\<lparr>pl_current_location := l\<rparr>)"
  by (simp add: keeps_def player_ok_def)

lemma inv_player: "ow_inv s \<Longrightarrow> keeps (os_worldSeed s) f \<Longrightarrow> ow_inv (onPlayer f s)"
  by (simp add: ow_inv_def onPlayer_def keeps_def evidence_ok_def clock_ok_def usedClue_def)

lemma inv_heat: "ow_inv s \<Longrightarrow> ow_inv (addHeat d s)"
  by (simp add: ow_inv_def addHeat_def world_ok_def evidence_ok_def clock_ok_def usedClue_def)

lemma same_seed [simp]: "os_worldSeed (onPlayer f s) = os_worldSeed s" "os_worldSeed (addHeat d s) = os_worldSeed s"
  by (simp_all add: onPlayer_def addHeat_def)

lemma inv_gate:
  assumes "ow_inv s"
  shows "ow_inv (fst (truthGainAfterPhaseGate s action g))" "os_worldSeed (fst (truthGainAfterPhaseGate s action g)) = os_worldSeed s"
proof -
  have "75 \<le> os_timeSpent s" if "phaseOf (os_timeSpent s) = RESOLUTION"
    using that by (simp add: phaseOf_def split: if_splits)
  moreover have "coreIds (os_worldState s) = [''npc-1'', ''npc-2'']"
    using assms by (simp add: ow_inv_def world_ok_def core_ids)
  ultimately show "ow_inv (fst (truthGainAfterPhaseGate s action g))"
    using assms
    by (auto simp: truthGainAfterPhaseGate_def ow_inv_def evidence_ok_def clock_ok_def usedClue_def
        split: session_phase.split ow_action.split)
  show "os_worldSeed (fst (truthGainAfterPhaseGate s action g)) = os_worldSeed s"
    by (simp add: truthGainAfterPhaseGate_def split: session_phase.split ow_action.split)
qed

lemma inv_spend: "ow_inv s \<Longrightarrow> ow_inv (spendTime action s)" "os_worldSeed (spendTime action s) = os_worldSeed s"
proof -
  assume inv: "ow_inv s"
  have c: "8 \<le> ACTION_TIME_COST action" by (cases action) simp_all
  have "min 100 (8 * (k + 1)) \<le> clamp (t + d) 0 100" if "min 100 (8 * k) \<le> t" "0 \<le> t" "8 \<le> d" for k t d :: int
    using that by (cases "100 \<le> 8 * k") (auto simp: clamp_def)
  then have min8: "min 100 (8 * (ws_time_tick (os_worldState s) + 1)) \<le> clamp (os_timeSpent s + ACTION_TIME_COST action) 0 100"
    using inv c by (simp add: ow_inv_def clock_ok_def)
  moreover have "75 \<le> os_timeSpent s \<longrightarrow> 75 \<le> clamp (os_timeSpent s + ACTION_TIME_COST action) 0 100"
    using c by (auto simp: clamp_def)
  ultimately show "ow_inv (spendTime action s)" using inv
    by (simp add: ow_inv_def spendTime_def Let_def world_ok_def evidence_ok_def clock_ok_def usedClue_def TIME_BUDGET_def)
qed (simp add: spendTime_def Let_def)

lemma inv_register: "ow_inv s \<Longrightarrow> ow_inv (registerAction action key s)" "os_worldSeed (registerAction action key s) = os_worldSeed s"
  by (simp_all add: ow_inv_def registerAction_def Let_def evidence_ok_def clock_ok_def usedClue_def split: ow_action.split)

subsection \<open>Actions keep it\<close>

lemma find_skip: "(\<forall>x \<in> set xs. \<not> P x) \<Longrightarrow> List.find P (xs @ ys) = List.find P ys"
  by (induction xs) auto

lemma find_next:
  assumes "distinct (map f cs)"
  shows "List.find (\<lambda>c. f c \<notin> f ` set (take n cs)) cs = (if n < length cs then Some (cs ! n) else None)"
proof (cases "n < length cs")
  case True
  have "List.find (\<lambda>c. f c \<notin> f ` set (take n cs)) (take n cs @ drop n cs) = List.find (\<lambda>c. f c \<notin> f ` set (take n cs)) (drop n cs)"
    by (rule find_skip) auto
  moreover have "drop n cs = cs ! n # drop (Suc n) cs" using True by (rule Cons_nth_drop_Suc[symmetric])
  moreover have "f (cs ! n) \<notin> f ` set (take n cs)"
  proof
    assume "f (cs ! n) \<in> f ` set (take n cs)"
    then obtain k where "k < n" "f (cs ! k) = f (cs ! n)" using True by (auto simp: in_set_conv_nth)
    then show False using assms True by (auto simp: distinct_conv_nth)
  qed
  ultimately show ?thesis using True unfolding append_take_drop_id by simp
next
  case False
  then show ?thesis by (auto simp: find_None_iff)
qed

lemma next_clue:
  assumes "ws_clues w = buildClues seed" "pl_inventory p = take (length (pl_inventory p)) (buildClues seed)"
  shows "nextClue w p = (if length (pl_inventory p) < 5 then Some (buildClues seed ! length (pl_inventory p)) else None)"
proof -
  have "distinct (map cl_id (buildClues seed))" by (simp add: clue_ids)
  then show ?thesis
    using find_next[of cl_id "buildClues seed" "length (pl_inventory p)"] assms by (simp add: nextClue_def clue_count)
qed

lemma keeps_clue:
  assumes "nextClue w p = Some clue" "ws_clues w = buildClues seed" "player_ok seed p"
  shows "player_ok seed (p\<lparr>pl_inventory := pl_inventory p @ [clue]\<rparr>)"
proof -
  let ?n = "length (pl_inventory p)"
  have i: "pl_inventory p = take ?n (buildClues seed)" using assms(3) by (simp add: player_ok_def)
  have n: "?n < 5" "clue = buildClues seed ! ?n"
    using assms(1) next_clue[OF assms(2) i] by (simp_all split: if_splits)
  have "pl_inventory p @ [clue] = take (Suc ?n) (buildClues seed)"
    using n i by (simp add: take_Suc_conv_app_nth clue_count)
  then show ?thesis using assms(3) n(1) by (simp add: player_ok_def clue_count min_def)
qed

lemma inv_gate_eq:
  assumes "truthGainAfterPhaseGate s action g = (s1, t, code)" "ow_inv s"
  shows "ow_inv s1" "os_worldSeed s1 = os_worldSeed s"
  using inv_gate[OF assms(2), of action g] assms(1) by simp_all

lemma inv_move: "ow_inv s \<Longrightarrow> ow_inv (fst (applyMove t s))"
proof -
  assume inv: "ow_inv s"
  have "keeps (os_worldSeed s) (\<lambda>p. addJournal line (p\<lparr>pl_current_location := lo_id l\<rparr>))"
    if "List.find (\<lambda>l. lo_id l = t) (ws_locations (os_worldState s)) = Some l" for l line
  proof (rule keeps_comp[OF keeps_basic(4) keeps_move])
    have "l \<in> set (buildLocations (os_worldSeed s))"
      using that inv by (auto simp: find_Some_iff ow_inv_def world_ok_def)
    then show "lo_id l \<in> set (map lo_id (buildLocations (os_worldSeed s)))" by simp
  qed
  then show ?thesis using inv by (auto simp: applyMove_def inv_player inv_heat split: option.split)
qed

lemma gate_player: "os_playerState (fst (truthGainAfterPhaseGate s action g)) = os_playerState s"
  "os_worldState (fst (truthGainAfterPhaseGate s action g)) = os_worldState s"
  "os_timeSpent (fst (truthGainAfterPhaseGate s action g)) = os_timeSpent s"
  "os_completed (fst (truthGainAfterPhaseGate s action g)) = os_completed s"
  by (simp_all add: truthGainAfterPhaseGate_def split: session_phase.split ow_action.split)

lemma inv_search: "ow_inv s \<Longrightarrow> ow_inv (fst (applySearch action n s))"
proof -
  assume inv: "ow_inv s"
  show ?thesis
  proof (cases "nextClue (os_worldState s) (os_playerState s)")
    case None
    then show ?thesis using inv by (simp add: applySearch_def Let_def inv_player inv_heat keeps_basic)
  next
    case (Some clue)
    let ?s = "addHeat 2 s" and ?g = "of_int (js_round (fl (of_int (cl_truth_value clue) * n))) :: rat"
    obtain s1 t code where g: "truthGainAfterPhaseGate ?s action ?g = (s1, t, code)" by (metis prod_cases3)
    have s1: "ow_inv s1" "os_worldSeed s1 = os_worldSeed s" "os_playerState s1 = os_playerState s"
      using inv_gate_eq[OF g] inv_heat[OF inv] gate_player(1)[of ?s action ?g] g by (simp_all add: addHeat_def)
    let ?p = "os_playerState s"
    let ?q = "addPollution (cl_pollution_risk clue) (addTruth t (?p\<lparr>pl_inventory := pl_inventory ?p @ [clue]\<rparr>))"
    have "player_ok (os_worldSeed s) (?p\<lparr>pl_inventory := pl_inventory ?p @ [clue]\<rparr>)"
      using keeps_clue[OF Some] inv by (simp add: ow_inv_def world_ok_def)
    then have "player_ok (os_worldSeed s) (addJournal line ?q)" for line
      using keeps_basic[of "os_worldSeed s"] unfolding keeps_def by blast
    moreover have "pl_inventory (addJournal line ?q) \<noteq> []" for line
      by (simp add: addJournal_def addPollution_def addTruth_def)
    ultimately show ?thesis using s1
      by (simp add: applySearch_def Let_def Some g ow_inv_def onPlayer_def evidence_ok_def clock_ok_def usedClue_def)
  qed
qed

lemma inv_interrogate: "ow_inv s \<Longrightarrow> ow_inv (fst (applyInterrogate action t n s))"
proof -
  assume inv: "ow_inv s"
  have "ow_inv (onPlayer (updateRelation i d) s)" for i d by (rule inv_player[OF inv keeps_relation])
  then have "truthGainAfterPhaseGate (onPlayer (updateRelation i d) s) action g = (s1, x, code) \<Longrightarrow> ow_inv s1" for i d g s1 x code
    by (blast dest: inv_gate_eq(1))
  then show ?thesis using inv
    by (auto simp: applyInterrogate_def Let_def split: option.split prod.split
        intro!: inv_player[OF _ keeps_basic(4)] inv_heat inv_player[OF _ keeps_basic(2)])
qed

lemma inv_used:
  assumes "ow_inv s" "pl_inventory (os_playerState s) \<noteq> []" "0 \<le> usedClue s i"
  shows "ow_inv (s\<lparr>os_usedClueByNpc := map_set i (usedClue s i + 1) (os_usedClueByNpc s), os_usedClueAny := True\<rparr>)"
  using assms by (auto simp: ow_inv_def evidence_ok_def clock_ok_def usedClue_def update_nonempty)

lemma used_nonneg: "ow_inv s \<Longrightarrow> 0 \<le> usedClue s i"
  by (cases "map_get (os_usedClueByNpc s) i") (auto simp: ow_inv_def evidence_ok_def usedClue_def intro: less_imp_le)

lemma keeps_effects:
  "keeps seed (\<lambda>p. addPollution d (addTruth g (updateRelation i e p)))"
  "keeps seed (\<lambda>p. addPollution d (updateRelation i e p))"
  "keeps seed (\<lambda>p. addJournal l (addPollution d p))"
  by (rule keeps_comp[OF keeps_basic(1) keeps_comp[OF keeps_basic(2) keeps_relation]],
      rule keeps_comp[OF keeps_basic(1) keeps_relation], rule keeps_comp[OF keeps_basic(4) keeps_basic(1)])

lemma inv_use: "ow_inv s \<Longrightarrow> ow_inv (fst (applyUseClue action t c n s))"
proof -
  assume inv: "ow_inv s"
  show ?thesis
  proof (cases "findNpcById (os_worldState s) t";
      cases "List.find (\<lambda>x. cl_id x = c) (pl_inventory (os_playerState s))")
    fix npc clue
    assume f: "findNpcById (os_worldState s) t = Some npc"
      "List.find (\<lambda>x. cl_id x = c) (pl_inventory (os_playerState s)) = Some clue"
    let ?s = "s\<lparr>os_usedClueByNpc := map_set (np_id npc) (usedClue s (np_id npc) + 1) (os_usedClueByNpc s),
      os_usedClueAny := True\<rparr>"
    have "ow_inv ?s" using f(2) by (intro inv_used[OF inv] used_nonneg[OF inv]) auto
    then have "truthGainAfterPhaseGate ?s action g = (s1, x, code) \<Longrightarrow> ow_inv s1" for g s1 x code
      by (blast dest: inv_gate_eq(1))
    then show ?thesis using f
      by (auto simp: applyUseClue_def Let_def split: prod.split
          intro!: inv_player[OF _ keeps_basic(4)] inv_heat inv_player[OF _ keeps_effects(1)])
  qed (simp_all add: applyUseClue_def inv)
qed

lemma inv_body: "ow_inv s \<Longrightarrow> ow_inv (fst (actionBody action n s))"
proof -
  assume inv: "ow_inv s"
  have "ow_inv (fst (applyLie t s))" for t using inv by (simp add: applyLie_def inv_player inv_heat keeps_effects keeps_basic)
  moreover have "ow_inv (fst (applyAlly t s))" for t using inv by (simp add: applyAlly_def Let_def inv_player inv_heat keeps_effects keeps_basic)
  moreover have "ow_inv (fst (applyRest s))" using inv by (simp add: applyRest_def inv_player inv_heat keeps_effects)
  ultimately show ?thesis using inv
    by (simp add: actionBody_def inv_move inv_search inv_interrogate inv_use split: ow_action.split)
qed

lemma inv_action: "ow_inv s \<Longrightarrow> ow_inv (fst (applyAction action s))"
proof -
  assume inv: "ow_inv s"
  have "ow_inv (fst (actionBody action n (spendTime action s)))" for n by (rule inv_body[OF inv_spend(1)[OF inv]])
  then show ?thesis
    by (auto simp: applyAction_def Let_def split: prod.split intro!: inv_player keeps_dignity inv_register(1))
       (metis fst_conv)
qed

end
