(* ===== verification/Openworld_Bounds.thy ===== *)
theory Openworld_Bounds
  imports Openworld_Llm
begin

section \<open>The open world: what an answer can change of a score\<close>

text \<open>
  Every score is between 0 and 100, whatever the session. The deltas read from an answer are at most 3 each
  and 8 together, and the adjusted composite is within 4 of the engine's, so an adjustment crosses one
  grade at most.
\<close>

subsection \<open>Ranges\<close>

lemma part_ranges:
  "purityPart s \<in> {0..100}" "relationPart s \<in> {0..100}" "humanityPart s \<in> {0..100}" "compositeOf t p r h \<in> {0..100}"
  by (simp_all add: purityPart_def relationPart_def humanityPart_def compositeOf_def Let_def)

lemma truth_range: "fst (truthPart s) \<in> {0..100}"
  by (simp add: truthPart_def Let_def split: prod.split)

definition score_ok :: "score_breakdown \<Rightarrow> bool" where
  "score_ok b \<longleftrightarrow> so_truth b \<in> {0..100} \<and> so_purity b \<in> {0..100} \<and> so_relation b \<in> {0..100} \<and> so_humanity b \<in> {0..100}
     \<and> so_composite b = compositeOf (so_truth b) (so_purity b) (so_relation b) (so_humanity b) \<and> so_grade b = gradeOf (so_composite b)"

lemma score_range: "score_ok (scoreOf s)"
proof -
  obtain t codes where t: "truthPart s = (t, codes)" by fastforce
  then have r: "t \<in> {0..100}" using truth_range[of s] by simp
  define p where "p = purityPart s"
  define l where "l = (if 85 \<le> ws_heat (os_worldState s) then clamp (relationPart s - 10) 0 100 else relationPart s)"
  define h where "h = (if 85 \<le> ws_heat (os_worldState s) then clamp (humanityPart s - 8) 0 100 else humanityPart s)"
  have plh: "p \<in> {0..100}" "l \<in> {0..100}" "h \<in> {0..100}"
    using part_ranges(1-3)[of s] by (simp_all add: p_def l_def h_def)
  have "scoreOf s = \<lparr>so_truth = t, so_purity = p, so_relation = l, so_humanity = h, so_composite = compositeOf t p l h,
      so_grade = gradeOf (compositeOf t p l h)\<rparr>"
    unfolding computeScore_def Let_def t p_def l_def h_def by (simp only: prod.case fst_conv)
  then show ?thesis using r plh by (simp add: score_ok_def)
qed

subsection \<open>The composite\<close>

definition exactComposite :: "int \<Rightarrow> int \<Rightarrow> int \<Rightarrow> int \<Rightarrow> rat" where
  "exactComposite t p r h = of_int t * (35 / 100) + of_int p * (1 / 4) + of_int r * (2 / 10) + of_int h * (2 / 10)"

lemma fl_quarters: "fl (1 / 4) = (1 / 4)" "fl (3 / 4) = (3 / 4)" "fl (9 / 4) = (9 / 4)" "fl (1 / 2) = 1 / 2" "fl (3 / 2) = 3 / 2"
  by (rule fl_dyadic[where k = "- 2" and m = 1] fl_dyadic[where k = "- 2" and m = 3] fl_dyadic[where k = "- 2" and m = 9]
      fl_dyadic[where k = "- 1" and m = 1] fl_dyadic[where k = "- 1" and m = 3]; simp add: power_int_minus)+

lemma fl_near: "\<bar>x - y\<bar> \<le> e \<Longrightarrow> \<bar>y\<bar> + e \<le> 200 \<Longrightarrow> \<bar>fl x - y\<bar> \<le> e + 1 / 1000"
proof -
  assume a: "\<bar>x - y\<bar> \<le> e" "\<bar>y\<bar> + e \<le> 200"
  have "\<bar>x\<bar> \<le> 200" using a by linarith
  then have "\<bar>x\<bar> / 2 ^ 53 \<le> 1 / 1000" by simp
  then have "\<bar>fl x - x\<bar> \<le> 1 / 1000" using fl_error[of x] by (rule order_trans[rotated])
  then show ?thesis using a by linarith
qed

lemma product_near: "\<bar>fl (of_int n * fl w) - of_int n * w\<bar> \<le> 1 / 500" if n: "n \<in> {0..100}" and w: "0 \<le> w" "w \<le> 1" for n :: int and w :: rat
proof -
  have "\<bar>w\<bar> / 2 ^ 53 \<le> 1 / 2 ^ 53" using w by (intro divide_right_mono) simp_all
  then have "\<bar>fl w - w\<bar> \<le> 1 / 2 ^ 53" using fl_error[of w] by (rule order_trans[rotated])
  then have "\<bar>of_int n\<bar> * \<bar>fl w - w\<bar> \<le> 100 * (1 / 2 ^ 53)" using n by (intro mult_mono) simp_all
  then have "\<bar>of_int n * fl w - of_int n * w\<bar> \<le> 1 / 1000"
    by (simp add: abs_mult[symmetric] right_diff_distrib)
  moreover have "\<bar>of_int n * w\<bar> \<le> 100" using n w mult_mono[of "of_int n" 100 w 1] by simp
  ultimately show ?thesis using fl_near[of "of_int n * fl w" "of_int n * w" "1 / 1000"] by simp
qed

lemma composite_near:
  assumes "t \<in> {0..100}" "p \<in> {0..100}" "r \<in> {0..100}" "h \<in> {0..100}"
  shows "\<bar>fl (fl (fl (fl (of_int t * fl (35 / 100)) + fl (of_int p * (1 / 4))) + fl (of_int r * fl (2 / 10))) + fl (of_int h * fl (2 / 10)))
     - exactComposite t p r h\<bar> \<le> 1 / 50"
proof -
  define a :: rat where "a = of_int t * (35 / 100)"
  define b :: rat where "b = of_int p * (1 / 4)"
  define c :: rat where "c = of_int r * (2 / 10)"
  define d :: rat where "d = of_int h * (2 / 10)"
  note defs = a_def b_def c_def d_def
  define A where "A = fl (of_int t * fl (35 / 100))"
  define B where "B = fl (of_int p * (1 / 4))"
  define C where "C = fl (of_int r * fl (2 / 10))"
  define D where "D = fl (of_int h * fl (2 / 10))"
  have q: "fl (1 / 4) = (1 / 4 :: rat)" by (rule fl_quarters(1))
  have near: "\<bar>A - a\<bar> \<le> 1 / 500" "\<bar>B - b\<bar> \<le> 1 / 500" "\<bar>C - c\<bar> \<le> 1 / 500" "\<bar>D - d\<bar> \<le> 1 / 500"
    unfolding A_def B_def C_def D_def defs
    using product_near[OF assms(1), of "35 / 100"] product_near[OF assms(2), of "1 / 4"]
      product_near[OF assms(3), of "2 / 10"] product_near[OF assms(4), of "2 / 10"] by (simp_all add: q)
  have small: "0 \<le> a" "a \<le> 35" "0 \<le> b" "b \<le> 25" "0 \<le> c" "c \<le> 20" "0 \<le> d" "d \<le> 20"
    using assms by (simp_all add: defs)
  have 1: "\<bar>fl (A + B) - (a + b)\<bar> \<le> 4 / 1000 + 1 / 1000"
    by (rule fl_near) (use near(1,2) small in linarith)+
  have 2: "\<bar>fl (fl (A + B) + C) - (a + b + c)\<bar> \<le> 7 / 1000 + 1 / 1000"
    by (rule fl_near) (use 1 near(3) small in linarith)+
  have "\<bar>fl (fl (fl (A + B) + C) + D) - (a + b + c + d)\<bar> \<le> 10 / 1000 + 1 / 1000"
    by (rule fl_near) (use 2 near(4) small in linarith)+
  then show ?thesis unfolding A_def B_def C_def D_def exactComposite_def defs by simp
qed

lemma round_near: "\<bar>x - y\<bar> \<le> of_int k + 1 / 2 \<Longrightarrow> \<bar>js_round x - js_round y\<bar> \<le> k + 1"
  unfolding js_round_def by linarith

lemma composite_moves:
  assumes "t \<in> {0..100}" "p \<in> {0..100}" "r \<in> {0..100}" "h \<in> {0..100}"
    and "t' \<in> {0..100}" "p' \<in> {0..100}" "r' \<in> {0..100}" "h' \<in> {0..100}"
    and "\<bar>t' - t\<bar> \<le> 3" "\<bar>p' - p\<bar> \<le> 3" "\<bar>r' - r\<bar> \<le> 3" "\<bar>h' - h\<bar> \<le> 3"
  shows "\<bar>compositeOf t' p' r' h' - compositeOf t p r h\<bar> \<le> 4"
proof -
  have d: "\<bar>of_int t' - of_int t :: rat\<bar> \<le> 3" "\<bar>of_int p' - of_int p :: rat\<bar> \<le> 3" "\<bar>of_int r' - of_int r :: rat\<bar> \<le> 3"
    "\<bar>of_int h' - of_int h :: rat\<bar> \<le> 3"
    using assms(9-12) by (simp_all only: of_int_diff[symmetric] of_int_abs[symmetric] of_int_le_numeral_iff)
  have "\<bar>exactComposite t' p' r' h' - exactComposite t p r h\<bar> \<le> 3"
    using d unfolding exactComposite_def abs_le_iff by linarith
  note bound = round_near[of _ _ 3, OF order_trans[OF _ order_refl]]
  let ?f = "\<lambda>t p r h. fl (fl (fl (fl (of_int t * fl (35 / 100)) + fl (of_int p * (1 / 4))) + fl (of_int r * fl (2 / 10)))
     + fl (of_int h * fl (2 / 10)))"
  have "\<bar>?f t' p' r' h' - ?f t p r h\<bar> \<le> of_int 3 + 1 / 2"
    using composite_near[OF assms(1-4)] composite_near[OF assms(5-8)] \<open>\<bar>exactComposite t' p' r' h' - exactComposite t p r h\<bar> \<le> 3\<close>
    unfolding abs_le_iff by linarith
  then have "\<bar>js_round (?f t' p' r' h') - js_round (?f t p r h)\<bar> \<le> 4" using round_near[of "?f t' p' r' h'" "?f t p r h" 3] by simp
  then show ?thesis unfolding compositeOf_def clamp_def by linarith
qed

lemma grade_moves: "\<bar>x - y\<bar> \<le> 4 \<Longrightarrow> gradeDistance (gradeOf x) (gradeOf y) \<le> 1"
  by (auto simp: gradeDistance_def gradeOf_def abs_le_iff)

subsection \<open>The deltas\<close>

lemma delta_range: "deltaOf raw key \<in> {-3..3}"
  by (simp add: deltaOf_def)

lemma small_cases: "d \<in> {-3..3} \<Longrightarrow> d = -3 \<or> d = -2 \<or> d = -1 \<or> d = 0 \<or> d = 1 \<or> d = 2 \<or> d = (3::int)"
  by auto

definition delta_size :: "score_delta \<Rightarrow> int" where
  "delta_size d = \<bar>dl_truth d\<bar> + \<bar>dl_purity d\<bar> + \<bar>dl_relation d\<bar> + \<bar>dl_humanity d\<bar>"

lemma scaled_bound:
  assumes "d \<in> {-3..3}" "7 \<le> whole"
  shows "\<bar>scaledDelta (fl (6 / of_int whole)) d\<bar> \<le> \<bar>d\<bar>"
    and "8 \<le> whole \<Longrightarrow> \<bar>scaledDelta (fl (6 / of_int whole)) d\<bar> \<le> 2"
proof -
  let ?f = "fl (6 / of_int whole)"
  have "(6::rat) / of_int whole \<le> 1" using assms(2) by simp
  then have f: "0 \<le> ?f" "?f \<le> 1" using fl_mono[of 0 "6 / of_int whole"] fl_mono[of "6 / of_int whole" 1] fl_of_int[of 1] assms(2) by simp_all
  have "\<bar>of_int d * ?f\<bar> \<le> of_int \<bar>d\<bar>" using f by (simp add: abs_mult mult_left_le)
  then have "of_int d * ?f \<le> of_int \<bar>d\<bar>" "of_int (- \<bar>d\<bar>) \<le> of_int d * ?f" by (simp_all add: abs_le_iff)
  moreover have "\<bar>\<bar>d\<bar>\<bar> \<le> 2 ^ 53" "\<bar>- \<bar>d\<bar>\<bar> \<le> 2 ^ 53" using assms(1) by auto
  ultimately have "fl (of_int d * ?f) \<le> of_int \<bar>d\<bar>" "of_int (- \<bar>d\<bar>) \<le> fl (of_int d * ?f)"
    by (blast intro: fl_le_int fl_ge_int)+
  then show "\<bar>scaledDelta ?f d\<bar> \<le> \<bar>d\<bar>"
    using js_round_le[of "fl (of_int d * ?f)" "\<bar>d\<bar>"] js_round_ge[of "- \<bar>d\<bar>" "fl (of_int d * ?f)"]
    unfolding scaledDelta_def by linarith
  assume "8 \<le> whole"
  then have "(6::rat) / of_int whole \<le> 3 / 4" by (simp add: divide_le_eq)
  then have f': "?f \<le> 3 / 4" using fl_mono[of "6 / of_int whole" "3 / 4"] fl_quarters(2) by simp
  have "\<bar>of_int d * ?f\<bar> \<le> 3 * (3 / 4)" unfolding abs_mult using f f' assms(1) by (intro mult_mono) (auto simp: abs_le_iff)
  then have "fl (of_int d * ?f) \<le> 9 / 4" "- (9 / 4) \<le> fl (of_int d * ?f)"
    using fl_mono[of "of_int d * ?f" "9 / 4"] fl_mono[of "- (9 / 4)" "of_int d * ?f"] fl_quarters(3) by (simp_all add: abs_le_iff)
  then show "\<bar>scaledDelta ?f d\<bar> \<le> 2" unfolding scaledDelta_def js_round_def by linarith
qed

lemma normalized_delta:
  "dl_truth (normalizeScoreDelta raw) \<in> {-3..3}" "dl_purity (normalizeScoreDelta raw) \<in> {-3..3}"
  "dl_relation (normalizeScoreDelta raw) \<in> {-3..3}" "dl_humanity (normalizeScoreDelta raw) \<in> {-3..3}"
  "delta_size (normalizeScoreDelta raw) \<le> 8"
proof -
  define t where "t = deltaOf raw ''truth''"
  define p where "p = deltaOf raw ''purity''"
  define r where "r = deltaOf raw ''relation''"
  define h where "h = deltaOf raw ''humanity''"
  note defs = t_def p_def r_def h_def
  define whole where "whole = \<bar>t\<bar> + \<bar>p\<bar> + \<bar>r\<bar> + \<bar>h\<bar>"
  have range: "t \<in> {-3..3}" "p \<in> {-3..3}" "r \<in> {-3..3}" "h \<in> {-3..3}" unfolding defs by (rule delta_range)+
  let ?n = "normalizeScoreDelta raw"
  have small: "whole \<le> 6 \<Longrightarrow> ?n = \<lparr>dl_truth = t, dl_purity = p, dl_relation = r, dl_humanity = h\<rparr>"
    by (simp add: normalizeScoreDelta_def Let_def whole_def defs)
  define f where "f = scaledDelta (fl (6 / of_int whole))"
  have large: "6 < whole \<Longrightarrow> ?n = \<lparr>dl_truth = f t, dl_purity = f p, dl_relation = f r, dl_humanity = f h\<rparr>"
    by (simp add: normalizeScoreDelta_def Let_def whole_def defs f_def)
  have "\<bar>f d\<bar> \<le> \<bar>d\<bar>" "8 \<le> whole \<Longrightarrow> \<bar>f d\<bar> \<le> 2" if "6 < whole" "d \<in> {-3..3}" for d
    unfolding f_def using that scaled_bound[of d whole] by auto
  then have b: "6 < whole \<Longrightarrow> \<bar>f t\<bar> \<le> \<bar>t\<bar> \<and> \<bar>f p\<bar> \<le> \<bar>p\<bar> \<and> \<bar>f r\<bar> \<le> \<bar>r\<bar> \<and> \<bar>f h\<bar> \<le> \<bar>h\<bar>"
    and b2: "8 \<le> whole \<Longrightarrow> \<bar>f t\<bar> \<le> 2 \<and> \<bar>f p\<bar> \<le> 2 \<and> \<bar>f r\<bar> \<le> 2 \<and> \<bar>f h\<bar> \<le> 2"
    using range by auto
  have abs: "\<bar>t\<bar> \<le> 3" "\<bar>p\<bar> \<le> 3" "\<bar>r\<bar> \<le> 3" "\<bar>h\<bar> \<le> 3" using range by auto
  show "dl_truth ?n \<in> {-3..3}" "dl_purity ?n \<in> {-3..3}" "dl_relation ?n \<in> {-3..3}" "dl_humanity ?n \<in> {-3..3}"
    using small large b abs by (cases "6 < whole"; force simp: abs_le_iff)+
  show "delta_size ?n \<le> 8"
    using small large b b2 abs unfolding delta_size_def whole_def
    by (cases "6 < whole"; cases "8 \<le> whole") (auto simp: whole_def)
qed

subsection \<open>Properties\<close>

lemma clamp_moves: "x \<in> {0..100} \<Longrightarrow> d \<in> {-3..3} \<Longrightarrow> clamp (x + d) 0 100 \<in> {0..100} \<and> \<bar>clamp (x + d) 0 100 - x\<bar> \<le> (3::int)"
  by (auto simp: clamp_def abs_le_iff)

lemma adjusted:
  assumes b: "score_ok b" and d: "dl_truth d \<in> {-3..3}" "dl_purity d \<in> {-3..3}" "dl_relation d \<in> {-3..3}" "dl_humanity d \<in> {-3..3}"
  defines "t \<equiv> clamp (so_truth b + dl_truth d) 0 100" and "p \<equiv> clamp (so_purity b + dl_purity d) 0 100"
    and "r \<equiv> clamp (so_relation b + dl_relation d) 0 100" and "h \<equiv> clamp (so_humanity b + dl_humanity d) 0 100"
  shows "applyLlmAdjustment b d = \<lparr>so_truth = t, so_purity = p, so_relation = r, so_humanity = h,
      so_composite = compositeOf t p r h, so_grade = gradeOf (compositeOf t p r h)\<rparr>"
    and "t \<in> {0..100} \<and> \<bar>t - so_truth b\<bar> \<le> 3" "p \<in> {0..100} \<and> \<bar>p - so_purity b\<bar> \<le> 3"
    and "r \<in> {0..100} \<and> \<bar>r - so_relation b\<bar> \<le> 3" "h \<in> {0..100} \<and> \<bar>h - so_humanity b\<bar> \<le> 3"
    and "\<bar>compositeOf t p r h - so_composite b\<bar> \<le> 4"
    and "gradeDistance (gradeOf (compositeOf t p r h)) (so_grade b) \<le> 1"
proof -
  show m: "t \<in> {0..100} \<and> \<bar>t - so_truth b\<bar> \<le> 3" "p \<in> {0..100} \<and> \<bar>p - so_purity b\<bar> \<le> 3"
    "r \<in> {0..100} \<and> \<bar>r - so_relation b\<bar> \<le> 3" "h \<in> {0..100} \<and> \<bar>h - so_humanity b\<bar> \<le> 3"
    unfolding t_def p_def r_def h_def using b d by (simp_all only: score_ok_def clamp_moves)
  show c: "\<bar>compositeOf t p r h - so_composite b\<bar> \<le> 4"
    using b m by (auto simp: score_ok_def intro!: composite_moves)
  then show g: "gradeDistance (gradeOf (compositeOf t p r h)) (so_grade b) \<le> 1"
    using b grade_moves by (simp add: score_ok_def)
  then show "applyLlmAdjustment b d = \<lparr>so_truth = t, so_purity = p, so_relation = r, so_humanity = h,
      so_composite = compositeOf t p r h, so_grade = gradeOf (compositeOf t p r h)\<rparr>"
    by (simp add: applyLlmAdjustment_def Let_def t_def p_def r_def h_def)
qed

text \<open>
  The model has little say: whatever JSON its answer holds, the adjusted score moves each of the four
  parts by at most 3 and the composite by at most 4, stays a score with its own composite and grade, and
  is one grade away at most, so the check that would discard an adjustment of two grades never does.
\<close>

theorem llm_moves_score_little:
  "let b = scoreOf s; d = normalizeScoreDelta raw; b' = applyLlmAdjustment b d in
     so_truth b' = clamp (so_truth b + dl_truth d) 0 100 \<and> so_purity b' = clamp (so_purity b + dl_purity d) 0 100
     \<and> so_relation b' = clamp (so_relation b + dl_relation d) 0 100 \<and> so_humanity b' = clamp (so_humanity b + dl_humanity d) 0 100
     \<and> \<bar>so_truth b' - so_truth b\<bar> \<le> 3 \<and> \<bar>so_purity b' - so_purity b\<bar> \<le> 3 \<and> \<bar>so_relation b' - so_relation b\<bar> \<le> 3
     \<and> \<bar>so_humanity b' - so_humanity b\<bar> \<le> 3 \<and> \<bar>so_composite b' - so_composite b\<bar> \<le> 4
     \<and> gradeDistance (so_grade b') (so_grade b) \<le> 1 \<and> score_ok b'"
proof -
  note a = adjusted[OF score_range[of s] normalized_delta(1-4)[of raw]]
  show ?thesis unfolding Let_def a(1) using a(2-) by (simp add: score_ok_def)
qed

text \<open>
  The deltas of an answer are each between -3 and 3. Their sum is meant to be at most 6 but is at most 8,
  for the scaling rounds each of them up: four deltas of 3 are scaled to 2 each.
\<close>

theorem deltas_exceed_their_budget:
  "dl_truth (normalizeScoreDelta raw) \<in> {-3..3} \<and> dl_purity (normalizeScoreDelta raw) \<in> {-3..3}
   \<and> dl_relation (normalizeScoreDelta raw) \<in> {-3..3} \<and> dl_humanity (normalizeScoreDelta raw) \<in> {-3..3}
   \<and> delta_size (normalizeScoreDelta raw) \<le> 8 \<and> (\<exists>raw. delta_size (normalizeScoreDelta raw) = 8)"
proof -
  define x where "x = JObj (map (\<lambda>k. (k, JNum (Fin 3))) [''truth'', ''purity'', ''relation'', ''humanity''])"
  have three: "deltaOf x ''truth'' = 3" "deltaOf x ''purity'' = 3" "deltaOf x ''relation'' = 3" "deltaOf x ''humanity'' = 3"
    using js_round_of_int[of 3] by (simp_all add: x_def deltaOf_def js_prop_opt_def safeNumber_def)
  have "scaledDelta (fl (1 / 2)) 3 = 2"
    by (simp add: scaledDelta_def fl_quarters js_round_def floor_eq_iff)
  then have "delta_size (normalizeScoreDelta x) = 8"
    unfolding normalizeScoreDelta_def Let_def by (simp add: three delta_size_def)
  then show ?thesis using normalized_delta[of raw] by blast
qed

end
