(* ===== verification/Openworld_Ends.thy ===== *)
theory Openworld_Ends
  imports Openworld_Play Openworld_Bounds
begin

section \<open>The open world: how sessions go on and end\<close>

text \<open>
  The invariant on every reachable store, whatever tasks wait and in whatever order they are answered, and
  what follows for undisturbed operations: a world ends by its thirteenth action if the model answers, an
  action whose answer fails is kept all the same, and a finished world is frozen unless a second
  finalization was under way.
\<close>

subsection \<open>Fields of an action\<close>

lemma gate_fields:
  "os_finalized (fst (truthGainAfterPhaseGate s action g)) = os_finalized s"
  "os_completed (fst (truthGainAfterPhaseGate s action g)) = os_completed s"
  "os_timeSpent (fst (truthGainAfterPhaseGate s action g)) = os_timeSpent s"
  "os_worldSeed (fst (truthGainAfterPhaseGate s action g)) = os_worldSeed s"
  by (simp_all add: truthGainAfterPhaseGate_def split: session_phase.split ow_action.split)

lemma gate_fields_eq:
  assumes "truthGainAfterPhaseGate s action g = (s1, x, code)"
  shows "os_finalized s1 = os_finalized s" "os_completed s1 = os_completed s" "os_timeSpent s1 = os_timeSpent s"
    "os_worldSeed s1 = os_worldSeed s"
  using gate_fields[of s action g] assms by simp_all

lemma step_fields [simp]:
  "os_finalized (onPlayer f s) = os_finalized s" "os_completed (onPlayer f s) = os_completed s" "os_timeSpent (onPlayer f s) = os_timeSpent s"
  "os_finalized (addHeat d s) = os_finalized s" "os_completed (addHeat d s) = os_completed s" "os_timeSpent (addHeat d s) = os_timeSpent s"
  "os_finalized (registerAction a k s) = os_finalized s" "os_completed (registerAction a k s) = os_completed s"
  "os_timeSpent (registerAction a k s) = os_timeSpent s"
  "os_worldSeed (registerAction a k s) = os_worldSeed s" "os_worldSeed (spendTime a s) = os_worldSeed s"
  "os_finalized (spendTime a s) = os_finalized s" "os_completed (spendTime a s) = os_completed s"
  by (simp_all add: onPlayer_def addHeat_def registerAction_def spendTime_def Let_def)

lemma body_fields:
  "os_finalized (fst (actionBody action n s)) = os_finalized s" "os_completed (fst (actionBody action n s)) = os_completed s"
  "os_timeSpent (fst (actionBody action n s)) = os_timeSpent s" "os_worldSeed (fst (actionBody action n s)) = os_worldSeed s"
  by (auto simp: actionBody_def applyMove_def applySearch_def applyInterrogate_def applyUseClue_def applyLie_def applyAlly_def
      applyRest_def Let_def split: ow_action.split option.split prod.split dest: gate_fields_eq)

lemma action_fields:
  "os_finalized (fst (applyAction action s)) = os_finalized s" "os_completed (fst (applyAction action s)) = os_completed s"
  "os_worldSeed (fst (applyAction action s)) = os_worldSeed s"
  "os_timeSpent (fst (applyAction action s)) = clamp (os_timeSpent s + ACTION_TIME_COST action) 0 100"
proof -
  let ?r = "actionBody action (noveltyMultiplier s (buildActionKey action (os_playerState s))) (spendTime action s)"
  obtain s1 e c r where r: "?r = (s1, e, c, r)" by (metis prod_cases4)
  have a: "fst (applyAction action s) = onPlayer (settleDignity e) (registerAction action (buildActionKey action (os_playerState s)) s1)"
    by (simp add: applyAction_def Let_def r)
  have s1: "os_finalized s1 = os_finalized s" "os_completed s1 = os_completed s" "os_timeSpent s1 = os_timeSpent (spendTime action s)"
      "os_worldSeed s1 = os_worldSeed s"
    using body_fields[of action "noveltyMultiplier s (buildActionKey action (os_playerState s))" "spendTime action s"] r by simp_all
  show "os_finalized (fst (applyAction action s)) = os_finalized s" "os_completed (fst (applyAction action s)) = os_completed s"
    "os_worldSeed (fst (applyAction action s)) = os_worldSeed s"
    by (simp_all add: a s1)
  show "os_timeSpent (fst (applyAction action s)) = clamp (os_timeSpent s + ACTION_TIME_COST action) 0 100"
    by (simp add: a s1 spendTime_def Let_def TIME_BUDGET_def)
qed

subsection \<open>The invariant of the store\<close>

definition store_ok :: "ow_store \<Rightarrow> ow_task list \<Rightarrow> bool" where
  "store_ok st ts \<longleftrightarrow> (\<forall>wid s. map_get st wid = Some s \<longrightarrow> ow_inv s \<and> wd_world_id (os_worldSeed s) = wid)
     \<and> (\<forall>t \<in> set ts. map_get st (worldOf t) \<noteq> None)"

lemma inv_scene: "ow_inv s \<Longrightarrow> ow_inv (s\<lparr>os_lastScene := x, os_updatedAt := now\<rparr>)"
  by (simp add: ow_inv_def evidence_ok_def clock_ok_def usedClue_def)

lemma inv_first: "ow_inv s \<Longrightarrow> ow_inv (s\<lparr>os_lastScene := x\<rparr>)"
  by (simp add: ow_inv_def evidence_ok_def clock_ok_def usedClue_def)

lemma inv_final: "ow_inv s \<Longrightarrow> ow_inv (s\<lparr>os_finalized := Some f, os_completed := True, os_updatedAt := now\<rparr>)"
  by (simp add: ow_inv_def evidence_ok_def clock_ok_def usedClue_def)

lemma resume_inv:
  assumes "resumeTask now t parsed s = (s', out)" "ow_inv s"
  shows "ow_inv s'" "os_worldSeed s' = os_worldSeed s" "\<forall>u \<in> set (tasksOf out). worldOf u = worldOf t"
proof -
  show "ow_inv s'" "os_worldSeed s' = os_worldSeed s"
    using assms by (auto simp: resumeTask_def sceneFinish_def finalFinish_def Let_def inv_scene inv_final split: ow_task.splits)
  show "\<forall>u \<in> set (tasksOf out). worldOf u = worldOf t"
    using assms(1) by (auto simp: resumeTask_def sceneFinish_def finalFinish_def finalBegin_def Let_def
        split: ow_task.splits option.splits prod.splits if_splits)
qed

lemma store_ok_put:
  assumes "store_ok st ts" "ow_inv s" "wd_world_id (os_worldSeed s) = wid"
    and "\<forall>t \<in> set us. worldOf t = wid \<or> t \<in> set ts"
  shows "store_ok (map_set wid s st) us"
  using assms unfolding store_ok_def by (auto split: if_splits)

lemma reachable_ok: "ow_reachable st ts \<Longrightarrow> store_ok st ts"
proof (induction rule: ow_reachable.induct)
  case ow_empty
  show ?case by (simp add: store_ok_def)
next
  case (ow_start st ts uuid host now inp)
  let ?s = "newOpenWorld (buildWorldSeed uuid inp) now :: ow"
  have "store_ok (map_set (wd_world_id (os_worldSeed ?s)) (?s\<lparr>os_lastScene := x\<rparr>) st) ts" for x
    by (rule store_ok_put[OF ow_start.IH inv_first[OF inv_built]]) simp_all
  then show ?case using ow_start.IH
    by (simp add: startOpenWorld_def Let_def split: sum.split)
next
  case (ow_act st ts wid action st' out)
  show ?case
  proof (cases "map_get st wid")
    case None
    then show ?thesis using ow_act by (auto simp: actBegin_def ensureSession_def)
  next
    case (Some s)
    then have inv: "ow_inv s" "wd_world_id (os_worldSeed s) = wid" using ow_act.IH by (simp_all add: store_ok_def)
    obtain s1 e c r where a: "applyAction action s = (s1, e, c, r)" by (metis prod_cases4)
    have "ow_inv s1" "os_worldSeed s1 = os_worldSeed s" using inv_action[OF inv(1), of action] action_fields(3)[of action s] a by simp_all
    then have "store_ok (map_set wid s1 st) (Scene_task wid i c r # ts)" for i
      by (intro store_ok_put[OF ow_act.IH]) (simp_all add: inv(2))
    then show ?thesis using ow_act Some a by (auto simp: actBegin_def ensureSession_def Let_def split: if_splits)
  qed
next
  case (ow_final st ts wid st' out)
  then show ?case
    by (auto simp: beginFinalize_def ensureSession_def finalBegin_def store_ok_def split: option.splits prod.splits)
next
  case (ow_resume st ts t host now st' out)
  show ?case
  proof (cases "answerTo host t")
    case (Inl e)
    then show ?thesis using ow_resume by (auto simp: resume_def store_ok_def dest: notin_set_remove1 set_mp[OF set_remove1_subset])
  next
    case (Inr parsed)
    obtain s where s: "map_get st (worldOf t) = Some s" using ow_resume by (auto simp: store_ok_def)
    then have inv: "ow_inv s" "wd_world_id (os_worldSeed s) = worldOf t" using ow_resume.IH by (simp_all add: store_ok_def)
    obtain s1 out1 where r: "resumeTask now t parsed s = (s1, out1)" by fastforce
    then have e: "st' = map_set (worldOf t) s1 st" "out1 = out"
      using ow_resume.hyps(3) Inr s by (simp_all add: resume_def ensureSession_def)
    show ?thesis unfolding e(1)
      using resume_inv[OF r inv(1)] inv(2) e(2)
      by (intro store_ok_put[OF ow_resume.IH]) (auto dest: set_mp[OF set_remove1_subset])
  qed
qed

lemma stored_ok: "ow_reachable st ts \<Longrightarrow> map_get st wid = Some s \<Longrightarrow> ow_inv s"
  using reachable_ok by (auto simp: store_ok_def)

subsection \<open>Undisturbed actions\<close>

definition answers :: "llm_host \<Rightarrow> bool" where
  "answers host \<longleftrightarrow> (\<forall>prompt temperature. \<exists>v. callOpenAI host prompt temperature = Inr v)"

lemma answers_task: "answers host \<Longrightarrow> \<exists>v. answerTo host t = Inr v"
  by (auto simp: answers_def answerTo_def split: ow_task.split)

lemma settle_replied [simp]: "settle host now (st, Replied r) = (st, Replied r)" "settle host now (st, Threw e) = (st, Threw e)"
  "settle host now (st, Waiting t) = resume host now t st"
  by (simp_all add: settle_def)

lemma resume_ok:
  assumes "answerTo host t = Inr parsed" "map_get st (worldOf t) = Some s" "resumeTask now t parsed s = (s', out)"
  shows "resume host now t st = (map_set (worldOf t) s' st, out)"
  using assms by (simp add: resume_def ensureSession_def)

lemma payload_fields [simp]:
  "vp_finalized (buildActionPayload s scene newClues reasonCodes f) = f" "vp_reason_codes (buildActionPayload s scene newClues reasonCodes f) = reasonCodes"
  "vp_player_state (buildActionPayload s scene newClues reasonCodes f) = os_playerState s"
  by (simp_all add: buildActionPayload_def)

lemma act_closed:
  assumes "map_get st wid = Some s" "os_completed s"
  shows "\<exists>p. applyOpenWorldAction host now wid action st = (st, Replied (Action_reply p))
     \<and> vp_reason_codes p = [''SESSION_ALREADY_FINALIZED''] \<and> vp_finalized p = os_finalized s \<and> vp_player_state p = os_playerState s"
  using assms by (simp add: applyOpenWorldAction_def actBegin_def ensureSession_def Let_def)

lemma act_open:
  assumes s: "map_get st wid = Some s" "\<not> os_completed s" "os_finalized s = None" and h: "answers host"
  obtains s' p where "map_get (fst (applyOpenWorldAction host now wid action st)) wid = Some s'"
    "snd (applyOpenWorldAction host now wid action st) = Replied (Action_reply p)"
    "os_timeSpent s' = clamp (os_timeSpent s + ACTION_TIME_COST action) 0 100"
    "os_completed s' \<longleftrightarrow> os_timeSpent s' = 100" "vp_finalized p = os_finalized s'" "os_completed s' \<longleftrightarrow> os_finalized s' \<noteq> None"
proof -
  obtain s1 e c r where a: "applyAction action s = (s1, e, c, r)" by (metis prod_cases4)
  let ?t = "Scene_task wid (sceneInput action e s1) c r"
  have start: "actBegin wid action st = (map_set wid s1 st, Waiting ?t)" using s by (simp add: actBegin_def ensureSession_def a)
  obtain v where v: "answerTo host ?t = Inr v" using answers_task[OF h] by blast
  define scene where "scene = sceneOf (sceneInput action e s1) v"
  define s2 where "s2 = s1\<lparr>os_lastScene := Some scene, os_updatedAt := now\<rparr>"
  have f: "os_finalized s1 = None" "\<not> os_completed s1" "os_timeSpent s1 = clamp (os_timeSpent s + ACTION_TIME_COST action) 0 100"
    using action_fields[of action s] a s by simp_all
  show thesis
  proof (cases "os_timeSpent s1 = 100")
    case False
    then have lt: "\<not> TIME_BUDGET \<le> os_timeSpent s1" using f(3) by (simp add: TIME_BUDGET_def clamp_def split: if_splits)
    then have "resumeTask now ?t v s1 = (s2, Replied (Action_reply (buildActionPayload s2 scene c r None)))"
      by (simp add: resumeTask_def sceneFinish_def Let_def scene_def s2_def)
    then have "applyOpenWorldAction host now wid action st = (map_set wid s2 (map_set wid s1 st), Replied (Action_reply (buildActionPayload s2 scene c r None)))"
      using resume_ok[OF v, of "map_set wid s1 st" s1] by (simp add: applyOpenWorldAction_def start)
    then show thesis using f False by (intro that[of s2 "buildActionPayload s2 scene c r None"]) (simp_all add: s2_def)
  next
    case True
    obtain score codes summary where sc: "computeScore s2 = (score, codes, summary)" by (metis prod_cases3)
    define inp where "inp = \<lparr>ei_worldSeed = os_worldSeed s2, ei_worldState = os_worldState s2, ei_score = score,
      ei_engineSummary = summary, ei_reasonCodes = codes, ei_actionTrace = os_actionTrace s2\<rparr>"
    let ?u = "Ending_task wid inp (Some (scene, c, r))"
    have fin: "os_finalized s2 = None" "os_timeSpent s2 = os_timeSpent s1" using f by (simp_all add: s2_def)
    have b: "finalBegin wid (Some (scene, c, r)) s2 = Waiting ?u" by (simp add: finalBegin_def fin sc inp_def)
    have "sceneFinish now wid scene c r s1 = (s2, finalBegin wid (Some (scene, c, r)) s2)"
      unfolding sceneFinish_def Let_def s2_def[symmetric] using True fin by (simp add: TIME_BUDGET_def)
    then have "resumeTask now ?t v s1 = (s2, Waiting ?u)" by (simp add: resumeTask_def b flip: scene_def)
    then have one: "settle host now (actBegin wid action st) = (map_set wid s2 (map_set wid s1 st), Waiting ?u)"
      using resume_ok[OF v, of "map_set wid s1 st" s1] by (simp add: start)
    obtain w where w: "answerTo host ?u = Inr w" using answers_task[OF h] by blast
    obtain s3 g where g: "finalFinish now inp w s2 = (s3, g)" by fastforce
    then have s3: "os_finalized s3 = Some g" "os_completed s3" "os_timeSpent s3 = os_timeSpent s1"
      using fin by (auto simp: finalFinish_def Let_def)
    have "resumeTask now ?u w s2 = (s3, Replied (finalReply s3 (Some (scene, c, r)) g))" by (simp add: resumeTask_def g)
    then have "applyOpenWorldAction host now wid action st
        = (map_set wid s3 (map_set wid s2 (map_set wid s1 st)), Replied (finalReply s3 (Some (scene, c, r)) g))"
      using resume_ok[OF w, of "map_set wid s2 (map_set wid s1 st)" s2] one by (simp add: applyOpenWorldAction_def)
    then show thesis using f(3) s3 True
      by (intro that[of s3 "buildActionPayload s3 scene c (r @ [''TIME_BUDGET_EXHAUSTED'']) (Some g)"])
         (simp_all add: finalReply_def)
  qed
qed

definition play :: "llm_host \<Rightarrow> int \<Rightarrow> string \<Rightarrow> ow_action list \<Rightarrow> ow_store \<Rightarrow> ow_store" where
  "play host now wid actions st = foldl (\<lambda>st action. fst (applyOpenWorldAction host now wid action st)) st actions"

lemma play_snoc: "play host now wid (as @ [a]) st = fst (applyOpenWorldAction host now wid a (play host now wid as st))"
  by (simp add: play_def)

lemma action_cost: "8 \<le> ACTION_TIME_COST action"
  by (cases action) simp_all

lemma play_progress:
  assumes "map_get st wid = Some s" "os_completed s \<longleftrightarrow> os_finalized s \<noteq> None" "0 \<le> os_timeSpent s" "answers host"
  shows "\<exists>s'. map_get (play host now wid as st) wid = Some s' \<and> (os_completed s' \<longleftrightarrow> os_finalized s' \<noteq> None)
     \<and> (os_completed s' \<or> min 100 (8 * int (length as)) \<le> os_timeSpent s' \<and> (as = [] \<or> os_timeSpent s' < 100))"
proof (induction as rule: rev_induct)
  case Nil
  then show ?case using assms by (simp add: play_def)
next
  case (snoc a as)
  let ?st = "play host now wid as st"
  obtain s1 where s1: "map_get ?st wid = Some s1" "os_completed s1 \<longleftrightarrow> os_finalized s1 \<noteq> None"
    "os_completed s1 \<or> min 100 (8 * int (length as)) \<le> os_timeSpent s1" using snoc.IH by auto
  show ?case
  proof (cases "os_completed s1")
    case True
    then have "play host now wid (as @ [a]) st = ?st" using act_closed[OF s1(1)] unfolding play_snoc by (metis fst_conv)
    then show ?thesis using s1 True by auto
  next
    case False
    obtain s2 where s2: "map_get (play host now wid (as @ [a]) st) wid = Some s2"
      "os_timeSpent s2 = clamp (os_timeSpent s1 + ACTION_TIME_COST a) 0 100"
      "os_completed s2 \<longleftrightarrow> os_timeSpent s2 = 100" "os_completed s2 \<longleftrightarrow> os_finalized s2 \<noteq> None"
      using act_open[OF s1(1) False _ assms(4), of now a] s1(2) False unfolding play_snoc by metis
    have "min 100 (8 * int (length (as @ [a]))) \<le> os_timeSpent s2"
      using s1(3) False action_cost[of a] by (cases "100 \<le> 8 * int (length as)") (auto simp: s2(2) clamp_def)
    then show ?thesis using s2 by (auto simp: clamp_def)
  qed
qed

lemma begin_open:
  assumes "map_get st wid = Some s" "os_finalized s = None"
  shows "\<exists>inp. beginFinalize wid st = (st, Waiting (Ending_task wid inp None)) \<and> ei_worldState inp = os_worldState s"
  using assms by (cases "computeScore s") (simp add: beginFinalize_def ensureSession_def finalBegin_def)

lemma play_closed:
  assumes "map_get st wid = Some s" "os_completed s"
  shows "play host now wid as st = st"
proof (induction as rule: rev_induct)
  case (snoc a as)
  then show ?case using act_closed[OF assms, of host now a] unfolding play_snoc by (metis fst_conv)
qed (simp add: play_def)

subsection \<open>Examples\<close>

definition silent_host :: llm_host where
  "silent_host = \<lparr>lm_api_key = None, lm_fetch = (\<lambda>_ _. Inl TypeError), lm_json_parse = (\<lambda>_. None)\<rparr>"

definition broken_host :: llm_host where
  "broken_host = silent_host\<lparr>lm_api_key := Some ''key''\<rparr>"

definition sample_seed :: world_seed where
  "sample_seed = buildWorldSeed ''w1'' \<lparr>st_theme_prompt = ''theme'', st_genre_tags = None, st_constraints = None\<rparr>"

definition sample_world :: ow where
  "sample_world = (newOpenWorld sample_seed 1000)\<lparr>os_lastScene := Some (sceneOf (openingInput (newOpenWorld sample_seed 1000)) JNull)\<rparr>"

definition sample_worlds :: ow_store where
  "sample_worlds = fst (startOpenWorld silent_host ''w1'' 1000
     \<lparr>st_theme_prompt = ''theme'', st_genre_tags = None, st_constraints = None\<rparr> [])"

lemma silent_answers: "callOpenAI silent_host prompt temperature = Inr JNull"
  by (simp add: callOpenAI_def silent_host_def)

lemma broken_fails: "callOpenAI broken_host prompt temperature = Inl TypeError"
  by (simp add: callOpenAI_def broken_host_def silent_host_def)

lemma sample_worlds_eq: "sample_worlds = [(''world-w1'', sample_world)]"
  by (simp add: sample_worlds_def startOpenWorld_def Let_def generateScenePayload_def silent_answers sample_world_def
      sample_seed_def newOpenWorld_def buildWorldSeed_def)

lemma sample_worlds_ok: "ow_reachable sample_worlds []" "map_get sample_worlds ''world-w1'' = Some sample_world"
  "os_completed sample_world = False" "os_finalized sample_world = None"
proof -
  show "ow_reachable sample_worlds []" unfolding sample_worlds_def by (rule ow_start[OF ow_empty]) simp
  show "map_get sample_worlds ''world-w1'' = Some sample_world" unfolding sample_worlds_eq by simp
  show "os_completed sample_world = False" "os_finalized sample_world = None"
    by (simp_all add: sample_world_def newOpenWorld_def Let_def)
qed

subsection \<open>Properties\<close>

text \<open>
  C31. The state of every session in every reachable store, whatever operations are waiting: the places, persons and
  clues are those that were built from its seed, every number keeps its range, every person of the world has a relation in
  its range, any other entry of the relations has one too or is a NaN under a name that every object inherits, the
  clues found are the first ones of the world in their order, a resolution is confirmed only late and with a clue
  used on one of the two core persons, the score is a score, and a session is completed exactly when its final
  payload is there.
\<close>

theorem openworld_keeps_its_ranges:
  assumes "ow_reachable st ts" "map_get st wid = Some s"
  shows "wd_world_id (os_worldSeed s) = wid \<and> ws_locations (os_worldState s) = buildLocations (os_worldSeed s)
     \<and> ws_npcs (os_worldState s) = buildNPCs (os_worldSeed s) \<and> ws_clues (os_worldState s) = buildClues (os_worldSeed s)
     \<and> pl_current_location (os_playerState s) \<in> set (map lo_id (ws_locations (os_worldState s)))
     \<and> pl_dignity (os_playerState s) \<in> {0..100} \<and> pl_pollution_score (os_playerState s) \<in> {0..12}
     \<and> pl_truth_progress (os_playerState s) \<in> {0..120} \<and> ws_heat (os_worldState s) \<in> {0..120}
     \<and> ws_budget_bps (os_worldState s) \<in> {0..10000} \<and> os_timeSpent s \<in> {0..100}
     \<and> (\<forall>npc \<in> set (ws_npcs (os_worldState s)). \<exists>r. map_get (pl_relation_map (os_playerState s)) (np_id npc) = Some (Some r) \<and> r \<in> {-3..3})
     \<and> (\<forall>i v. map_get (pl_relation_map (os_playerState s)) i = Some v \<longrightarrow>
          (\<exists>r. v = Some r \<and> r \<in> {-3..3}) \<or> (v = None \<and> i \<in> set inheritedNames))
     \<and> pl_inventory (os_playerState s) = take (length (pl_inventory (os_playerState s))) (buildClues (os_worldSeed s))
     \<and> (os_resolutionConfirmed s \<longrightarrow> 75 \<le> os_timeSpent s \<and> (0 < usedClue s ''npc-1'' \<or> 0 < usedClue s ''npc-2''))
     \<and> score_ok (scoreOf s) \<and> (os_completed s \<longleftrightarrow> os_finalized s \<noteq> None)"
proof -
  have inv: "ow_inv s" and w: "wd_world_id (os_worldSeed s) = wid" using reachable_ok[OF assms(1)] assms(2) by (auto simp: store_ok_def)
  have rel: "(\<exists>r. v = Some r \<and> r \<in> {-3..3}) \<or> (v = None \<and> i \<in> set inheritedNames)"
    if "map_get (pl_relation_map (os_playerState s)) i = Some v" for i v
  proof -
    have "relation_entry_ok i v" using inv that unfolding ow_inv_def player_ok_def by blast
    then show ?thesis by (cases v) (simp_all add: relation_entry_ok_def)
  qed
  have npcs: "ws_npcs (os_worldState s) = buildNPCs (os_worldSeed s)" using inv by (simp add: ow_inv_def world_ok_def)
  have person: "\<exists>r. map_get (pl_relation_map (os_playerState s)) (np_id npc) = Some (Some r) \<and> r \<in> {-3..3}"
    if "npc \<in> set (ws_npcs (os_worldState s))" for npc
  proof -
    have "np_id npc \<in> set (map np_id (buildNPCs (os_worldSeed s)))" using that npcs by simp
    then obtain r where "map_get (pl_relation_map (os_playerState s)) (np_id npc) = Some (Some r)"
      using inv unfolding ow_inv_def player_ok_def by blast
    with rel[OF this] show ?thesis by simp
  qed
  have world: "ws_locations (os_worldState s) = buildLocations (os_worldSeed s)" "ws_clues (os_worldState s) = buildClues (os_worldSeed s)"
      "ws_heat (os_worldState s) \<in> {0..120}" "ws_budget_bps (os_worldState s) \<in> {0..10000}"
    using inv by (simp_all add: ow_inv_def world_ok_def)
  have player: "pl_current_location (os_playerState s) \<in> set (map lo_id (ws_locations (os_worldState s)))"
      "pl_dignity (os_playerState s) \<in> {0..100}" "pl_pollution_score (os_playerState s) \<in> {0..12}"
      "pl_truth_progress (os_playerState s) \<in> {0..120}"
      "pl_inventory (os_playerState s) = take (length (pl_inventory (os_playerState s))) (buildClues (os_worldSeed s))"
    unfolding world(1) using inv unfolding ow_inv_def player_ok_def by blast+
  have clock: "os_timeSpent s \<in> {0..100}" "os_completed s \<longleftrightarrow> os_finalized s \<noteq> None"
      "os_resolutionConfirmed s \<longrightarrow> 75 \<le> os_timeSpent s \<and> (0 < usedClue s ''npc-1'' \<or> 0 < usedClue s ''npc-2'')"
    using inv unfolding ow_inv_def evidence_ok_def clock_ok_def by blast+
  show ?thesis
    by (intro conjI w npcs world player clock ballI allI impI person rel score_range)
qed

theorem openworld_keeps_its_ranges_witness:
  "pl_truth_progress (os_playerState sample_world) \<in> {0..120} \<and> score_ok (scoreOf sample_world)"
  using openworld_keeps_its_ranges[OF sample_worlds_ok(1,2)] by blast

text \<open>
  A lie about, or an alliance with, someone of the name \<open>constructor\<close> stores a NaN among the relations, where it stays.
\<close>

theorem inherited_relation_is_nan:
  "relationOf (buildPlayerState (buildWorldState seed)) ''constructor'' = None
   \<and> (relationOf p ''constructor'' = None \<longrightarrow>
        map_get (pl_relation_map (updateRelation ''constructor'' delta p)) ''constructor'' = Some None
        \<and> relationOf (updateRelation ''constructor'' delta p) ''constructor'' = None)"
proof -
  have "map_get (pl_relation_map (buildPlayerState (buildWorldState seed))) ''constructor'' = None"
    using npc_ids[of seed] by (auto simp: buildPlayerState_def buildWorldState_def map_eq_Cons_conv)
  then show ?thesis by (simp add: relationOf_def updateRelation_def inheritedNames_def)
qed

theorem inherited_relation_is_nan_witness:
  "map_get (pl_relation_map (updateRelation ''constructor'' (- 1) (buildPlayerState (buildWorldState sample_seed)))) ''constructor'' = Some None"
  using inherited_relation_is_nan by blast

text \<open>
  C32. A world ends: if the model's service answers, any thirteen actions bring a session to its end, with the
  final payload stored, and asking for the final payload then gives that one.
\<close>

theorem openworld_ends:
  assumes "ow_reachable st ts" "map_get st wid = Some s" "answers host" "13 \<le> length as"
  shows "\<exists>s' f. map_get (play host now wid as st) wid = Some s' \<and> os_completed s' \<and> os_finalized s' = Some f
     \<and> finalizeOpenWorldSession host' now' wid (play host now wid as st) = (play host now wid as st, Replied (Final_reply f))"
proof -
  have inv: "ow_inv s" by (rule stored_ok[OF assms(1,2)])
  then obtain s' where s': "map_get (play host now wid as st) wid = Some s'" "os_completed s' \<longleftrightarrow> os_finalized s' \<noteq> None"
      "os_completed s' \<or> min 100 (8 * int (length as)) \<le> os_timeSpent s' \<and> (as = [] \<or> os_timeSpent s' < 100)"
    using play_progress[OF assms(2) _ _ assms(3), of now as] by (auto simp: ow_inv_def clock_ok_def)
  moreover have "min 100 (8 * int (length as)) = 100" "as \<noteq> []" using assms(4) by auto
  ultimately have "os_completed s'" by linarith
  then show ?thesis using s'(1,2)
    by (auto simp: finalizeOpenWorldSession_def beginFinalize_def ensureSession_def finalBegin_def finalReply_def)
qed

theorem openworld_ends_witness:
  "\<exists>s'. map_get (play silent_host 2000 ''world-w1'' (replicate 13 REST) sample_worlds) ''world-w1'' = Some s' \<and> os_completed s'"
  using openworld_ends[OF sample_worlds_ok(1,2), of silent_host "replicate 13 REST" 2000 silent_host 3000]
  by (auto simp: answers_def silent_answers)

text \<open>
  C35. An outage is not noticed by the game: while every answer of the service fails, each action throws but
  has been applied all the same, and no number of actions ends the session, also when its time is over.
\<close>

theorem outage_keeps_actions:
  assumes "map_get st wid = Some s" "\<not> os_completed s" "\<forall>prompt temperature. callOpenAI host prompt temperature = Inl e"
  shows "map_get (play host now wid as st) wid = Some (foldl (\<lambda>s action. fst (applyAction action s)) s as)
     \<and> \<not> os_completed (foldl (\<lambda>s action. fst (applyAction action s)) s as)
     \<and> snd (applyOpenWorldAction host now wid action (play host now wid as st)) = Threw e"
proof -
  have step: "map_get (fst (applyOpenWorldAction host now wid a st')) wid = Some (fst (applyAction a s'))
      \<and> snd (applyOpenWorldAction host now wid a st') = Threw e"
    if "map_get st' wid = Some s'" "\<not> os_completed s'" for a st' s'
  proof -
    obtain s1 x c r where a: "applyAction a s' = (s1, x, c, r)" by (metis prod_cases4)
    have "answerTo host t = Inl e" for t using assms(3) by (simp add: answerTo_def split: ow_task.split)
    then show ?thesis using that
      by (simp add: applyOpenWorldAction_def actBegin_def ensureSession_def a resume_def)
  qed
  have inv: "map_get (play host now wid as st) wid = Some (foldl (\<lambda>s action. fst (applyAction action s)) s as)
     \<and> \<not> os_completed (foldl (\<lambda>s action. fst (applyAction action s)) s as)"
  proof (induction as rule: rev_induct)
    case Nil
    then show ?case using assms(1,2) by (simp add: play_def)
  next
    case (snoc a as)
    then show ?case using step[of "play host now wid as st" _ a] by (simp add: play_snoc action_fields)
  qed
  then show ?thesis using step by blast
qed

theorem outage_keeps_actions_witness:
  "\<exists>s'. map_get (play broken_host 2000 ''world-w1'' (replicate 20 REST) sample_worlds) ''world-w1'' = Some s' \<and> \<not> os_completed s'"
  using outage_keeps_actions[OF sample_worlds_ok(2), of broken_host TypeError 2000 "replicate 20 REST" REST]
  by (simp add: sample_worlds_ok broken_fails)

text \<open>
  C36. A finished world plays no more: an undisturbed action changes nothing and shows the final payload and the state of
  the player, an undisturbed finalization gives that payload again, and neither moves anything. What still waits for the
  model changes little: a scene of this world that was asked for before sets the last scene and the time of the
  update, a finalization of it that was asked for before sets the final payload and that time, and everything else
  leaves the world as it is.
\<close>

theorem finished_world_is_frozen:
  assumes "ow_reachable st ts" "map_get st wid = Some s" "os_completed s"
  shows "\<exists>f p. os_finalized s = Some f \<and> play host now wid as st = st
     \<and> applyOpenWorldAction host now wid action st = (st, Replied (Action_reply p)) \<and> vp_finalized p = Some f
     \<and> vp_player_state p = os_playerState s
     \<and> finalizeOpenWorldSession host now wid st = (st, Replied (Final_reply f))
     \<and> (\<forall>t \<in> set ts. \<exists>s'. map_get (fst (resume host now t st)) wid = Some s'
          \<and> (s' = s
            \<or> (\<exists>inp clues codes scene. t = Scene_task wid inp clues codes \<and> s' = s\<lparr>os_lastScene := Some scene, os_updatedAt := now\<rparr>)
            \<or> (\<exists>inp ctx f'. t = Ending_task wid inp ctx \<and> s' = s\<lparr>os_finalized := Some f', os_updatedAt := now\<rparr>)))"
proof -
  obtain f where f: "os_finalized s = Some f" using stored_ok[OF assms(1,2)] assms(3) by (auto simp: ow_inv_def)
  have "\<exists>s'. map_get (fst (resume host now t st)) wid = Some s'
      \<and> (s' = s
        \<or> (\<exists>inp clues codes scene. t = Scene_task wid inp clues codes \<and> s' = s\<lparr>os_lastScene := Some scene, os_updatedAt := now\<rparr>)
        \<or> (\<exists>inp ctx f'. t = Ending_task wid inp ctx \<and> s' = s\<lparr>os_finalized := Some f', os_updatedAt := now\<rparr>))" for t
  proof (cases t)
    case (Scene_task w inp clues codes)
    then show ?thesis using assms(2)
      by (cases "answerTo host t"; cases "w = wid")
        (auto simp: resume_def ensureSession_def resumeTask_def sceneFinish_def Let_def split: sum.split option.split)
  next
    case (Ending_task w inp ctx)
    have "s\<lparr>os_finalized := Some x, os_completed := True, os_updatedAt := now\<rparr> = s\<lparr>os_finalized := Some x, os_updatedAt := now\<rparr>" for x
      using assms(3) by (cases s) simp
    with Ending_task show ?thesis using assms(2)
      by (cases "answerTo host t"; cases "w = wid")
        (auto simp: resume_def ensureSession_def resumeTask_def finalFinish_def Let_def split: sum.split option.split)
  qed
  moreover have "finalizeOpenWorldSession host now wid st = (st, Replied (Final_reply f))"
    using assms(2) f by (simp add: finalizeOpenWorldSession_def beginFinalize_def ensureSession_def finalBegin_def finalReply_def)
  ultimately show ?thesis using f play_closed[OF assms(2,3)] act_closed[OF assms(2,3), of host now action] by metis
qed

theorem finished_world_is_frozen_witness:
  "\<exists>st f. finalizeOpenWorldSession silent_host 3000 ''world-w1'' st = (st, Replied (Final_reply f))"
proof -
  obtain inp where t: "beginFinalize ''world-w1'' sample_worlds = (sample_worlds, Waiting (Ending_task ''world-w1'' inp None))"
    using begin_open[OF sample_worlds_ok(2,4)] by blast
  let ?t = "Ending_task ''world-w1'' inp None"
  have ans: "answerTo silent_host ?t = Inr JNull" by (simp add: answerTo_def silent_answers)
  obtain s1 f where f: "finalFinish 2000 inp JNull sample_world = (s1, f)" by fastforce
  then have s1: "os_completed s1" by (auto simp: finalFinish_def Let_def)
  have r: "resume silent_host 2000 ?t sample_worlds = (map_set ''world-w1'' s1 sample_worlds, Replied (finalReply s1 None f))"
    using resume_ok[OF ans, of sample_worlds sample_world] f sample_worlds_ok(2) by (simp add: resumeTask_def)
  have reach: "ow_reachable (map_set ''world-w1'' s1 sample_worlds)
      (tasksOf (Replied (finalReply s1 None f)) @ remove1 ?t (tasksOf (Waiting ?t) @ []))"
    by (rule ow_resume[OF ow_final[OF sample_worlds_ok(1) t] _ r]) simp
  show ?thesis
    using finished_world_is_frozen[OF reach, of "''world-w1''" s1 silent_host 3000 "[]" REST] s1 by auto
qed

text \<open>
  Two finalizations that overlap disagree: both are answered, each with the ending made of its own answer,
  and the second overwrites the payload the first has given out as final.
\<close>

theorem second_finalization_overwrites:
  assumes "map_get st wid = Some s" "beginFinalize wid st = (st0, Waiting t)" "answerTo host1 t = Inr v1" "answerTo host2 t = Inr v2"
  shows "\<exists>inp f1 f2 st1 st2 s2. t = Ending_task wid inp None
     \<and> resume host1 now1 t st0 = (st1, Replied (Final_reply f1)) \<and> fp_personalized_ending f1 = fp_personalized_ending (endingOf inp v1)
     \<and> resume host2 now2 t st1 = (st2, Replied (Final_reply f2)) \<and> fp_personalized_ending f2 = fp_personalized_ending (endingOf inp v2)
     \<and> map_get st2 wid = Some s2 \<and> os_finalized s2 = Some f2"
proof -
  obtain inp where inp: "t = Ending_task wid inp None" "ei_worldState inp = os_worldState s" "st0 = st"
    using assms(1,2) by (auto simp: beginFinalize_def ensureSession_def finalBegin_def split: option.splits prod.splits)
  then have same: "inp\<lparr>ei_worldState := os_worldState s\<rparr> = inp" by simp
  show ?thesis using assms(1,3,4) inp
    by (simp add: resume_def ensureSession_def resumeTask_def finalFinish_def Let_def finalReply_def toFinalizePayload_def same)
qed

text \<open>A service that answers with an ending of its own, and one that is silent.\<close>

definition telling_llm :: llm_host where
  "telling_llm = \<lparr>lm_api_key = Some ''key'',
     lm_fetch = (\<lambda>_ _. Inr (True, Inr (JObj [(''choices'', JArr [JObj [(''message'', JObj [(''content'', JStr ''text'')])]])]))),
     lm_json_parse = (\<lambda>_. Some (JObj [(''personalized_ending'', JObj [(''title_cn'', JStr ''T''), (''title_en'', JStr ''T'')])]))\<rparr>"

lemma telling_answers:
  "callOpenAI telling_llm p d = Inr (JObj [(''personalized_ending'', JObj [(''title_cn'', JStr ''T''), (''title_en'', JStr ''T'')])])"
  by (simp add: callOpenAI_def telling_llm_def js_prop_opt_def js_first_def trim_plain plain_def is_ws_def)

theorem second_finalization_overwrites_witness:
  "\<exists>t f1 f2 st1 s2. resume telling_llm 2000 t sample_worlds = (st1, Replied (Final_reply f1))
     \<and> map_get (fst (resume silent_host 3000 t st1)) ''world-w1'' = Some s2 \<and> os_finalized s2 = Some f2
     \<and> pe_title_en (fp_personalized_ending f1) = ''T'' \<and> pe_title_en (fp_personalized_ending f2) \<noteq> ''T''"
proof -
  obtain inp where t: "beginFinalize ''world-w1'' sample_worlds = (sample_worlds, Waiting (Ending_task ''world-w1'' inp None))"
    using begin_open[OF sample_worlds_ok(2,4)] by blast
  let ?t = "Ending_task ''world-w1'' inp None"
  have a: "answerTo telling_llm ?t = Inr (JObj [(''personalized_ending'', JObj [(''title_cn'', JStr ''T''), (''title_en'', JStr ''T'')])])"
    "answerTo silent_host ?t = Inr JNull" by (simp_all add: answerTo_def telling_answers silent_answers)
  have one: "pe_title_en (fp_personalized_ending (endingOf i
      (JObj [(''personalized_ending'', JObj [(''title_cn'', JStr ''T''), (''title_en'', JStr ''T'')])]))) = ''T''" for i
    by (simp add: endingOf_def Let_def js_prop_opt_def js_objectlike_def isNonEmptyString_def textOr_def trim_plain plain_def is_ws_def)
  have two: "pe_title_en (fp_personalized_ending (endingOf i JNull)) \<noteq> ''T''" for i
    by (simp add: endingOf_def Let_def js_objectlike_def fallbackEnding_def)
  show ?thesis
    using second_finalization_overwrites[OF sample_worlds_ok(2) t a, of 2000 3000] one two by (metis fst_conv)
qed

end
