(* ===== verification/Openworld_Truth.thy ===== *)
theory Openworld_Truth
  imports Openworld_Ends
begin

section \<open>The open world: how truth is gained\<close>

text \<open>
  The truth of a player is a multiple of one half and never falls; an action adds 20 at most, and in the
  last phase nothing but the questioning of a core person who was confronted with a clue. Without clues the
  score of truth stays low and the best grade is out of reach.
\<close>

subsection \<open>An induction over reachable sessions\<close>

lemma reachable_session:
  assumes start: "\<And>seed now x. P ((newOpenWorld seed now)\<lparr>os_lastScene := x\<rparr> :: ow)"
    and act: "\<And>s action. P s \<Longrightarrow> P (fst (applyAction action s))"
    and scene: "\<And>s x now. P s \<Longrightarrow> P (s\<lparr>os_lastScene := x, os_updatedAt := now\<rparr>)"
    and final: "\<And>s f now. P s \<Longrightarrow> P (s\<lparr>os_finalized := Some f, os_completed := True, os_updatedAt := now\<rparr>)"
  shows "ow_reachable st ts \<Longrightarrow> map_get st wid = Some s \<Longrightarrow> P s"
proof (induction arbitrary: wid s rule: ow_reachable.induct)
  case (ow_start st ts uuid host now inp)
  then show ?case using start by (auto simp: startOpenWorld_def Let_def split: sum.splits if_splits)
next
  case (ow_act st ts w action st' out)
  have "P (fst (applyAction action s'))" if "map_get st w = Some s'" for s' using ow_act.IH[OF that] by (rule act)
  then show ?case using ow_act by (fastforce simp: actBegin_def ensureSession_def Let_def split: option.splits if_splits prod.splits)
next
  case (ow_final st ts w st' out)
  then show ?case by (auto simp: beginFinalize_def ensureSession_def split: option.splits)
next
  case (ow_resume st ts t host now st' out)
  have "P s2" if "map_get st (worldOf t) = Some s1" "resumeTask now t v s1 = (s2, o')" for v s1 s2 o'
    using ow_resume.IH[OF that(1)] that(2) scene final
    by (cases t) (auto simp: resumeTask_def sceneFinish_def finalFinish_def Let_def)
  then show ?case using ow_resume
    by (fastforce simp: resume_def ensureSession_def split: option.splits sum.splits prod.splits if_splits)
qed simp

subsection \<open>Halves\<close>

definition half :: "rat \<Rightarrow> bool" where
  "half x \<longleftrightarrow> (\<exists>k :: int. x = of_int k / 2 \<and> \<bar>k\<bar> \<le> 1000)"

lemma half_fl: "half x \<Longrightarrow> fl x = x"
proof -
  assume "half x"
  then obtain k :: int where "x = of_int k * 2 powi (- 1)" "\<bar>k\<bar> < 2 ^ 53" by (auto simp: half_def power_int_minus)
  then show ?thesis by (rule fl_dyadic)
qed

lemma half_of_int: "\<bar>n\<bar> \<le> 500 \<Longrightarrow> half (of_int n)"
  unfolding half_def by (intro exI[of _ "2 * n"]) auto

definition gain_ok :: "rat \<Rightarrow> bool" where
  "gain_ok g \<longleftrightarrow> half g \<and> 0 \<le> g \<and> g \<le> 20"

lemma gate_gain:
  assumes "truthGainAfterPhaseGate s action (of_int n) = (s1, g, code)" "n \<in> {0..20}"
  shows "gain_ok g" "phaseOf (os_timeSpent s) = RESOLUTION \<Longrightarrow> g \<noteq> 0 \<Longrightarrow>
     \<exists>target. action = INTERROGATE target \<and> target \<in> set (coreIds (os_worldState s)) \<and> 0 < usedClue s target"
proof -
  have n: "gain_ok (of_int n)" using assms(2) half_of_int[of n] by (simp add: gain_ok_def)
  have "half (of_int n * (1 / 2))" unfolding half_def using assms(2) by (intro exI[of _ n]) auto
  then have h: "gain_ok (fl (of_int n * (1 / 2)))" using assms(2) half_fl by (auto simp: gain_ok_def)
  have "half 2" "half 0" using half_of_int[of 2] half_of_int[of 0] by simp_all
  then have m: "gain_ok (min (of_int n) 2)" "gain_ok 0" using n by (simp_all add: gain_ok_def min_def)
  show "gain_ok g" using assms(1) n h m
    by (auto simp: truthGainAfterPhaseGate_def split: session_phase.splits ow_action.splits if_splits)
  show "phaseOf (os_timeSpent s) = RESOLUTION \<Longrightarrow> g \<noteq> 0 \<Longrightarrow>
     \<exists>target. action = INTERROGATE target \<and> target \<in> set (coreIds (os_worldState s)) \<and> 0 < usedClue s target"
    using assms(1) by (auto simp: truthGainAfterPhaseGate_def split: ow_action.splits if_splits)
qed

lemma truth_of_add:
  assumes "half (pl_truth_progress p)" "pl_truth_progress p \<in> {0..120}" "gain_ok g"
  shows "pl_truth_progress (addTruth g p) = min 120 (pl_truth_progress p + g)" "half (pl_truth_progress (addTruth g p))"
proof -
  obtain k m :: int where "pl_truth_progress p = of_int k / 2" "g = of_int m / 2" using assms by (auto simp: half_def gain_ok_def)
  then have km: "pl_truth_progress p + g = of_int (k + m) / 2" by (simp add: add_divide_distrib)
  moreover have "\<bar>k + m\<bar> \<le> 1000"
  proof -
    have "\<bar>of_int (k + m) / (2::rat)\<bar> \<le> 140" using assms(2,3) unfolding km[symmetric] by (simp add: gain_ok_def abs_le_iff)
    then have "\<bar>of_int (k + m)\<bar> \<le> (280 :: rat)" by simp
    then show ?thesis by linarith
  qed
  ultimately have "half (pl_truth_progress p + g)" unfolding half_def by blast
  then show "pl_truth_progress (addTruth g p) = min 120 (pl_truth_progress p + g)"
    using assms by (simp add: addTruth_def half_fl gain_ok_def clamp_def)
  then show "half (pl_truth_progress (addTruth g p))"
    using \<open>half (pl_truth_progress p + g)\<close> half_of_int[of 120] by (simp add: min_def)
qed

subsection \<open>Novelty and proposals\<close>

definition counts_ok :: "('f, 'c) ow_session \<Rightarrow> bool" where
  "counts_ok s \<longleftrightarrow> (\<forall>i v. map_get (os_actionCountByKey s) i = Some v \<longrightarrow> 0 < v)"

lemma novelty_range:
  assumes "counts_ok s"
  shows "0 \<le> noveltyMultiplier s key" "noveltyMultiplier s key \<le> 1"
proof -
  define n where "n = opt_or (map_get (os_actionCountByKey s) key) 0"
  have n: "0 \<le> n" using assms by (cases "map_get (os_actionCountByKey s) key") (auto simp: n_def counts_ok_def intro: less_imp_le)
  have "0 \<le> fl (6 / 10)" using fl_mono[of 0 "6 / 10"] by simp
  then have "0 \<le> fl (of_int n * fl (6 / 10))" using n fl_mono[of 0 "of_int n * fl (6 / 10)"] by simp
  then have d: "1 \<le> fl (1 + fl (of_int n * fl (6 / 10)))" using fl_ge_int[of 1 "1 + fl (of_int n * fl (6 / 10))"] by simp
  let ?d = "fl (1 + fl (of_int n * fl (6 / 10)))"
  have "0 \<le> 1 / ?d" "1 / ?d \<le> 1" using d by simp_all
  then show "0 \<le> noveltyMultiplier s key" "noveltyMultiplier s key \<le> 1"
    using fl_mono[of 0 "1 / ?d"] fl_le_int[of "1 / ?d" 1] by (simp_all add: noveltyMultiplier_def Let_def flip: n_def)
qed

lemma scaled_range:
  assumes "0 \<le> x" "x \<le> of_int m" "0 \<le> v" "v \<le> 1" "0 \<le> m" "m \<le> 20"
  shows "0 \<le> fl (x * v) \<and> fl (x * v) \<le> of_int m \<and> js_round (fl (x * v)) \<in> {0..m}"
proof -
  have "0 \<le> x * v" "x * v \<le> of_int m * 1" using assms by (simp, intro mult_mono) simp_all
  then have "0 \<le> fl (x * v)" "fl (x * v) \<le> of_int m"
    using fl_mono[of 0 "x * v"] fl_le_int[of "x * v" m] assms(5,6) by simp_all
  then show ?thesis using js_round_ge[of 0] js_round_le[of _ m] by simp
qed

lemma clue_truth: "c \<in> set (buildClues seed) \<Longrightarrow> cl_truth_value c \<in> {0..20}"
proof -
  assume "c \<in> set (buildClues seed)"
  then have "cl_truth_value c \<in> set (map cl_truth_value (buildClues seed))" by simp
  then show ?thesis unfolding clue_truths by auto
qed

subsection \<open>The gain of an action\<close>

abbreviation truth :: "('f, 'c) ow_session \<Rightarrow> rat" where
  "truth s \<equiv> pl_truth_progress (os_playerState s)"

definition confronted :: "('f, 'c) ow_session \<Rightarrow> ow_action \<Rightarrow> bool" where
  "confronted s action \<longleftrightarrow> (\<exists>target \<in> {''npc-1'', ''npc-2''}. action = INTERROGATE target \<and> 0 < usedClue s target)"

definition truth_step :: "ow_action \<Rightarrow> ('f, 'c) ow_session \<Rightarrow> ('f, 'c) ow_session \<Rightarrow> bool" where
  "truth_step action s s' \<longleftrightarrow> half (truth s')
     \<and> (\<exists>g. gain_ok g \<and> truth s' = min 120 (truth s + g) \<and> (phaseOf (os_timeSpent s) = RESOLUTION \<longrightarrow> g \<noteq> 0 \<longrightarrow> confronted s action))"

lemma truth_fields [simp]:
  "pl_truth_progress (addPollution d p) = pl_truth_progress p" "pl_truth_progress (addDignity d p) = pl_truth_progress p"
  "pl_truth_progress (addJournal l p) = pl_truth_progress p" "pl_truth_progress (updateRelation i d p) = pl_truth_progress p"
  "pl_truth_progress (settleDignity e p) = pl_truth_progress p"
  by (simp_all add: addPollution_def addDignity_def addJournal_def updateRelation_def settleDignity_def Let_def)

lemma player_fields [simp]: "os_playerState (onPlayer f s) = f (os_playerState s)" "os_playerState (addHeat d s) = os_playerState s"
  by (simp_all add: onPlayer_def addHeat_def)

lemma inv_truth: "ow_inv s \<Longrightarrow> 0 \<le> truth s \<and> truth s \<le> 120"
  by (simp add: ow_inv_def player_ok_def)

lemma truth_still: "ow_inv s \<Longrightarrow> half (truth s) \<Longrightarrow> truth s' = truth s \<Longrightarrow> truth_step action s s'"
  using inv_truth[of s] half_of_int[of 0] unfolding truth_step_def gain_ok_def by (intro conjI exI[of _ 0]) auto

lemma truth_gained:
  assumes inv: "ow_inv s" "half (truth s)"
    and g: "truthGainAfterPhaseGate s0 action (of_int n) = (s1, g, code)" "n \<in> {0..20}"
    and s0: "os_timeSpent s0 = os_timeSpent s" "os_worldState s0 = os_worldState s"
      "\<And>t. action = INTERROGATE t \<Longrightarrow> usedClue s0 t = usedClue s t"
    and p: "pl_truth_progress p = truth s" "truth s' = pl_truth_progress (addTruth g p)"
  shows "truth_step action s s'"
proof -
  note gain = gate_gain[OF g]
  have "coreIds (os_worldState s) = [''npc-1'', ''npc-2'']" using inv(1) by (simp add: ow_inv_def world_ok_def core_ids)
  then have c: "phaseOf (os_timeSpent s) = RESOLUTION \<longrightarrow> g \<noteq> 0 \<longrightarrow> confronted s action"
    using gain(2) s0 by (auto simp: confronted_def)
  have "half (pl_truth_progress p)" "pl_truth_progress p \<in> {0..120}" using inv inv_truth[OF inv(1)] p(1) by simp_all
  note add = truth_of_add[OF this gain(1)]
  show ?thesis unfolding truth_step_def p(2) using add p(1) gain(1) c by auto
qed

lemma clue_of_world: "ow_inv s \<Longrightarrow> nextClue (os_worldState s) p = Some clue \<Longrightarrow> cl_truth_value clue \<in> {0..20}"
  by (intro clue_truth[of _ "os_worldSeed s"]) (auto simp: nextClue_def find_Some_iff ow_inv_def world_ok_def)

lemma clue_of_player: "ow_inv s \<Longrightarrow> clue \<in> set (pl_inventory (os_playerState s)) \<Longrightarrow> cl_truth_value clue \<in> {0..20}"
proof -
  assume "ow_inv s" "clue \<in> set (pl_inventory (os_playerState s))"
  then have "clue \<in> set (buildClues (os_worldSeed s))"
    by (metis ow_inv_def player_ok_def set_take_subset subsetD)
  then show ?thesis by (rule clue_truth)
qed

lemma search_truth:
  assumes "ow_inv s" "half (truth s)" "0 \<le> n" "n \<le> 1"
  shows "truth_step (SEARCH t) s (fst (applySearch (SEARCH t) n s))"
proof (cases "nextClue (os_worldState s) (os_playerState s)")
  case None
  then show ?thesis using assms(1,2) by (intro truth_still) (simp_all add: applySearch_def Let_def)
next
  case (Some clue)
  let ?k = "js_round (fl (of_int (cl_truth_value clue) * n))"
  have k: "?k \<in> {0..20}" using scaled_range[of "of_int (cl_truth_value clue)" 20 n] clue_of_world[OF assms(1) Some] assms(3,4) by simp
  obtain s1 g code where g: "truthGainAfterPhaseGate (addHeat 2 s) (SEARCH t) (of_int ?k) = (s1, g, code)" by (metis prod_cases3)
  have same: "os_playerState s1 = os_playerState s" using gate_player(1)[of "addHeat 2 s" "SEARCH t" "of_int ?k"] g by simp
  have "of_int ?k = (of_int ?k :: rat)" ..
  have w: "truth_step (SEARCH t) (addHeat 2 s) (fst (applySearch (SEARCH t) n s))"
    by (rule truth_gained[OF inv_heat[OF assms(1)] _ g k, where p = "(os_playerState s)\<lparr>pl_inventory := pl_inventory (os_playerState s) @ [clue]\<rparr>"])
       (simp_all add: assms applySearch_def Let_def Some g same)
  then show ?thesis by (simp add: truth_step_def confronted_def)
qed

lemma interrogate_truth:
  assumes "ow_inv s" "half (truth s)" "0 \<le> n" "n \<le> 1"
  shows "truth_step (INTERROGATE t) s (fst (applyInterrogate (INTERROGATE t) t n s))"
proof (cases "findNpcById (os_worldState s) t")
  case None
  then show ?thesis using assms(1,2) by (intro truth_still) (simp_all add: applyInterrogate_def)
next
  case (Some npc)
  define before where "before = relationOf (os_playerState s) (np_id npc)"
  define k where "k = js_round (fl ((if atLeast_num 1 before then 8 else 5) * n))"
  define s0 where "s0 = onPlayer (updateRelation (np_id npc) (if atLeast_num 0 before then 1 else - 1)) s"
  have "k \<in> {0..8}" unfolding k_def using scaled_range[of "if atLeast_num 1 before then 8 else 5" 8 n] assms(3,4) by simp
  then have k: "k \<in> {0..20}" by simp
  obtain s1 g code where g: "truthGainAfterPhaseGate s0 (INTERROGATE t) (of_int k) = (s1, g, code)" by (metis prod_cases3)
  have same: "os_playerState s1 = os_playerState s0" using gate_player(1)[of s0 "INTERROGATE t" "of_int k"] g by simp
  have r: "fst (applyInterrogate (INTERROGATE t) t n s)
      = onPlayer (addJournal ((utf8 [228, 189, 160, 229, 175, 185] @ '' '') @ np_name npc @ ('' '' @ utf8 [230, 150,
        189, 229, 142, 139, 239, 188, 140, 232, 175, 149, 229, 155, 190, 233, 128, 188, 229, 135, 186, 231, 188, 186,
        229, 164, 177, 231, 154, 132, 232, 175, 129, 232, 175, 141, 227, 128, 130]))) (addHeat 4 (onPlayer (addTruth
        g) s1))"
    unfolding applyInterrogate_def Let_def Some option.case before_def[symmetric] k_def[symmetric] s0_def[symmetric] g prod.case fst_conv
    by simp
  show ?thesis
    by (rule truth_gained[OF assms(1,2) g k, where p = "os_playerState s0"])
       (simp_all add: r same s0_def usedClue_def onPlayer_def[of "updateRelation i d" for i d])
qed

lemma use_truth:
  assumes "ow_inv s" "half (truth s)" "0 \<le> n" "n \<le> 1"
  shows "truth_step (USE_CLUE t c) s (fst (applyUseClue (USE_CLUE t c) t c n s))"
proof (cases "findNpcById (os_worldState s) t"; cases "List.find (\<lambda>x. cl_id x = c) (pl_inventory (os_playerState s))")
  fix npc clue
  assume f: "findNpcById (os_worldState s) t = Some npc" "List.find (\<lambda>x. cl_id x = c) (pl_inventory (os_playerState s)) = Some clue"
  have "clue \<in> set (pl_inventory (os_playerState s))" using f(2) by (auto simp: find_Some_iff)
  then have v: "cl_truth_value clue \<in> {0..20}" by (rule clue_of_player[OF assms(1)])
  define w where "w = fl (of_int (cl_truth_value clue) * fl (55 / 100))"
  have w55: "0 \<le> fl (55 / 100)" "fl (55 / 100) \<le> 1" using fl_mono[of 0 "55 / 100"] fl_le_int[of "55 / 100" 1] by simp_all
  have w: "0 \<le> w" "w \<le> of_int 20" unfolding w_def using scaled_range[of "of_int (cl_truth_value clue)" 20, OF _ _ w55] v by simp_all
  define k where "k = js_round (fl (w * n))"
  have k: "k \<in> {0..20}" unfolding k_def using scaled_range[of w 20 n] w assms(3,4) by simp
  define s0 where "s0 = s\<lparr>os_usedClueByNpc := map_set (np_id npc) (usedClue s (np_id npc) + 1) (os_usedClueByNpc s), os_usedClueAny := True\<rparr>"
  obtain s1 g code where g: "truthGainAfterPhaseGate s0 (USE_CLUE t c) (of_int k) = (s1, g, code)" by (metis prod_cases3)
  have same: "os_playerState s1 = os_playerState s0" using gate_player(1)[of s0 "USE_CLUE t c" "of_int k"] g by simp
  have "truth (fst (applyUseClue (USE_CLUE t c) t c n s)) = pl_truth_progress (addTruth g (updateRelation (np_id npc) 1 (os_playerState s)))"
    unfolding applyUseClue_def Let_def f option.case prod.case w_def[symmetric] k_def[symmetric] s0_def[symmetric] g fst_conv
    by (simp add: same s0_def)
  then show ?thesis
    by (intro truth_gained[OF assms(1,2) g k, where p = "updateRelation (np_id npc) 1 (os_playerState s)"]) (simp_all add: s0_def)
qed (use assms(1,2) in \<open>auto intro: truth_still simp: applyUseClue_def\<close>)

lemma body_truth:
  assumes "ow_inv s" "half (truth s)" "0 \<le> n" "n \<le> 1"
  shows "truth_step action s (fst (actionBody action n s))"
proof (cases action)
  case (MOVE t)
  then show ?thesis using assms(1,2) by (intro truth_still) (simp_all add: actionBody_def applyMove_def split: option.split)
next
  case (LIE t)
  then show ?thesis using assms(1,2) by (intro truth_still) (simp_all add: actionBody_def applyLie_def)
next
  case (ALLY t)
  then show ?thesis using assms(1,2) by (intro truth_still) (simp_all add: actionBody_def applyAlly_def Let_def)
next
  case REST
  then show ?thesis using assms(1,2) by (intro truth_still) (simp_all add: actionBody_def applyRest_def)
qed (use assms in \<open>simp_all add: actionBody_def search_truth interrogate_truth use_truth\<close>)

lemma body_counts: "os_actionCountByKey (fst (actionBody action n s)) = os_actionCountByKey s"
proof -
  have "os_actionCountByKey (fst (truthGainAfterPhaseGate s a g)) = os_actionCountByKey s" for s :: "('a, 'b) ow_session" and a g
    by (simp add: truthGainAfterPhaseGate_def split: session_phase.split ow_action.split)
  then have "truthGainAfterPhaseGate s a g = (s1, x, c) \<Longrightarrow> os_actionCountByKey s1 = os_actionCountByKey s" for s s1 :: "('a, 'b) ow_session" and a g x c
    by (metis fst_conv)
  then show ?thesis
    by (auto simp: actionBody_def applyMove_def applySearch_def applyInterrogate_def applyUseClue_def applyLie_def applyAlly_def
      applyRest_def Let_def onPlayer_def addHeat_def split: ow_action.split option.split prod.split)
qed

definition truth_ok :: "('f, 'c) ow_session \<Rightarrow> bool" where
  "truth_ok s \<longleftrightarrow> ow_inv s \<and> half (truth s) \<and> counts_ok s"

lemma action_truth:
  assumes "truth_ok s"
  shows "truth_ok (fst (applyAction action s))" "truth_step action (spendTime action s) (fst (applyAction action s))"
proof -
  define n where "n = noveltyMultiplier s (buildActionKey action (os_playerState s))"
  define s0 where "s0 = spendTime action s"
  have s0: "ow_inv s0" "os_playerState s0 = os_playerState s" "os_actionCountByKey s0 = os_actionCountByKey s"
    using assms by (simp_all add: s0_def truth_ok_def inv_spend(1)) (simp_all add: spendTime_def Let_def)
  have c: "counts_ok s" using assms by (simp add: truth_ok_def)
  have n: "0 \<le> n" "n \<le> 1" unfolding n_def by (rule novelty_range[OF c])+
  obtain s1 e c r where b: "actionBody action n s0 = (s1, e, c, r)" by (metis prod_cases4)
  have t: "truth_step action s0 s1" using body_truth[OF s0(1) _ n, of action] b s0(2) assms by (simp add: truth_ok_def)
  have k: "os_actionCountByKey s1 = os_actionCountByKey s" using body_counts[of action n s0] b s0(3) by simp
  let ?s = "fst (applyAction action s)" and ?key = "buildActionKey action (os_playerState s)"
  have e: "?s = onPlayer (settleDignity e) (registerAction action ?key s1)"
    by (simp add: applyAction_def Let_def b flip: n_def s0_def)
  have p: "os_playerState (registerAction action ?key s1) = os_playerState s1" by (simp add: registerAction_def Let_def)
  then have tr: "truth ?s = truth s1" by (simp add: e)
  then show "truth_step action (spendTime action s) ?s" using t by (simp add: truth_step_def flip: s0_def)
  have old: "0 \<le> opt_or (map_get (os_actionCountByKey s) ?key) 0"
    using assms by (cases "map_get (os_actionCountByKey s) ?key") (auto simp: truth_ok_def counts_ok_def intro: less_imp_le)
  then have "counts_ok ?s" using assms
    by (auto simp: counts_ok_def truth_ok_def e onPlayer_def registerAction_def Let_def k)
  then show "truth_ok ?s" using t tr assms inv_action[of s action] by (simp add: truth_ok_def truth_step_def)
qed

lemma truth_scene: "truth_ok s \<Longrightarrow> truth_ok (s\<lparr>os_lastScene := x, os_updatedAt := now\<rparr>)"
  by (simp add: truth_ok_def inv_scene counts_ok_def)

lemma truth_final:
  "truth_ok s \<Longrightarrow> truth_ok (s\<lparr>os_finalized := Some f, os_completed := True, os_updatedAt := now\<rparr>)"
  by (simp add: truth_ok_def inv_final counts_ok_def)

lemma truth_start: "truth_ok ((newOpenWorld seed now)\<lparr>os_lastScene := x\<rparr> :: ow)"
proof -
  have "half 0" using half_of_int[of 0] by simp
  then show ?thesis
    unfolding truth_ok_def by (simp add: inv_first inv_built) (simp add: newOpenWorld_def Let_def buildPlayerState_def counts_ok_def)
qed

lemma reachable_truth: "ow_reachable st ts \<Longrightarrow> map_get st wid = Some s \<Longrightarrow> truth_ok s"
  by (rule reachable_session[where P = truth_ok, OF truth_start action_truth(1) truth_scene truth_final])

subsection \<open>Without evidence\<close>

lemma no_clue_truth:
  assumes "ow_inv s" "\<not> os_usedClueAny s"
  shows "fst (truthPart s) \<le> 52"
proof -
  have u: "usedClue s i = 0" for i using assms by (simp add: ow_inv_def evidence_ok_def usedClue_def)
  then have "\<not> os_resolutionConfirmed s" using assms(1) by (auto simp: ow_inv_def evidence_ok_def)
  then show ?thesis using assms(2) u by (simp add: truthPart_def Let_def clamp_def)
qed

lemma unconfirmed_truth: "\<not> os_resolutionConfirmed s \<Longrightarrow> fst (truthPart s) \<le> 80"
  by (simp add: truthPart_def Let_def clamp_def min_le_iff_disj split: prod.split)

lemma truth_of_score: "so_truth (scoreOf s) = fst (truthPart s)"
  by (simp add: computeScore_def Let_def split: prod.split)

lemma composite_bound:
  assumes "t \<in> {0..100}" "p \<in> {0..100}" "r \<in> {0..100}" "h \<in> {0..100}" "t \<le> 55"
  shows "compositeOf t p r h < 88"
proof -
  have "exactComposite t p r h \<le> 55 * (35 / 100) + 100 * (1 / 4) + 100 * (2 / 10) + 100 * (2 / 10)"
    unfolding exactComposite_def using assms by (intro add_mono mult_right_mono) simp_all
  then have "fl (fl (fl (fl (of_int t * fl (35 / 100)) + fl (of_int p * (1 / 4))) + fl (of_int r * fl (2 / 10))) + fl (of_int h * fl (2 / 10)))
      \<le> 85"
    using composite_near[OF assms(1-4)] unfolding abs_le_iff by linarith
  then have "js_round (fl (fl (fl (fl (of_int t * fl (35 / 100)) + fl (of_int p * (1 / 4))) + fl (of_int r * fl (2 / 10)))
      + fl (of_int h * fl (2 / 10)))) \<le> 85" by (intro js_round_le) simp
  then show ?thesis unfolding compositeOf_def clamp_def by linarith
qed

subsection \<open>Properties\<close>

text \<open>
  C33. Truth is earned: in every reachable session its amount is a whole number of halves, an action never takes
  any away and adds 20 at most; and once the time spent reaches the last phase, only the questioning of one of
  the two core persons, confronted with a clue before, adds any.
\<close>

theorem truth_is_earned:
  assumes "ow_reachable st ts" "map_get st wid = Some s" "applyAction action s = (s', result)"
  shows "\<exists>g. pl_truth_progress (os_playerState s') = min 120 (pl_truth_progress (os_playerState s) + g) \<and> 0 \<le> g \<and> g \<le> 20
     \<and> (\<exists>k :: int. pl_truth_progress (os_playerState s) = of_int k / 2)
     \<and> (phaseOf (os_timeSpent s') = RESOLUTION \<and> g \<noteq> 0 \<longrightarrow>
          (\<exists>target \<in> {''npc-1'', ''npc-2''}. action = INTERROGATE target \<and> 0 < usedClue s target))"
proof -
  note ok = reachable_truth[OF assms(1,2)]
  have "truth_step action (spendTime action s) s'" using action_truth(2)[OF ok, of action] assms(3) by simp
  moreover have "os_timeSpent s' = os_timeSpent (spendTime action s)"
    using action_fields(4)[of action s] assms(3) by (simp add: spendTime_def Let_def TIME_BUDGET_def)
  moreover have "os_playerState (spendTime action s) = os_playerState s" "usedClue (spendTime action s) = usedClue s"
    by (simp_all add: spendTime_def Let_def usedClue_def fun_eq_iff)
  moreover have "\<exists>k :: int. truth s = of_int k / 2" using ok by (auto simp: truth_ok_def half_def)
  ultimately show ?thesis by (auto simp: truth_step_def gain_ok_def confronted_def)
qed

theorem truth_is_earned_witness:
  "\<exists>g. pl_truth_progress (os_playerState (fst (applyAction (SEARCH None) sample_world)))
     = min 120 (pl_truth_progress (os_playerState sample_world) + g) \<and> 0 \<le> g \<and> g \<le> 20"
  using truth_is_earned[OF sample_worlds_ok(1,2), of "SEARCH None"] by (metis prod.collapse)

text \<open>
  C34. Without evidence there is no best ending: in every reachable session in which no clue was ever used on
  anyone the score of truth is at most 52, and no answer of the model lifts the grade of the final score to S;
  without a confirmed resolution the score of truth is at most 80.
\<close>

theorem no_evidence_no_best_grade:
  assumes "ow_reachable st ts" "map_get st wid = Some s"
  shows "(\<not> os_resolutionConfirmed s \<longrightarrow> so_truth (scoreOf s) \<le> 80)
     \<and> (\<not> os_usedClueAny s \<longrightarrow> so_truth (scoreOf s) \<le> 52
          \<and> so_grade (scoreOf s) \<noteq> Grade_S \<and> so_grade (applyLlmAdjustment (scoreOf s) (normalizeScoreDelta raw)) \<noteq> Grade_S)"
proof (intro conjI impI)
  note inv = stored_ok[OF assms] and b = score_range[of s]
  show "so_truth (scoreOf s) \<le> 80" if "\<not> os_resolutionConfirmed s"
    unfolding truth_of_score by (rule unconfirmed_truth[OF that])
  assume "\<not> os_usedClueAny s"
  then show t: "so_truth (scoreOf s) \<le> 52" unfolding truth_of_score by (rule no_clue_truth[OF inv])
  have S: "gradeOf c \<noteq> Grade_S" if "c < 88" for c using that by (simp add: gradeOf_def)
  show "so_grade (scoreOf s) \<noteq> Grade_S"
    using b t by (auto simp: score_ok_def intro!: S composite_bound)
  note a = adjusted[OF b normalized_delta(1-4)[of raw]]
  show "so_grade (applyLlmAdjustment (scoreOf s) (normalizeScoreDelta raw)) \<noteq> Grade_S"
    unfolding a(1) score_breakdown.select_convs by (rule S, rule composite_bound) (use a(2-5) t in linarith)+
qed

theorem no_evidence_no_best_grade_witness:
  "so_truth (scoreOf sample_world) \<le> 52 \<and> so_grade (scoreOf sample_world) \<noteq> Grade_S"
  using no_evidence_no_best_grade[OF sample_worlds_ok(1,2), of JNull]
  by (simp add: sample_world_def newOpenWorld_def Let_def)

end
