(* ===== verification/Openworld_Scenes.thy ===== *)
theory Openworld_Scenes
  imports Openworld_Bounds
begin

section \<open>The open world: what the model's answers become\<close>

text \<open>
  Whatever value the model's answer parses to, a scene has one to six beats with texts in both languages and
  the choices and effects of the engine, and an ending keeps the score and the reasons of the engine. Only
  texts, tags and small deltas are taken from the answer.
\<close>

subsection \<open>Texts that are not blank\<close>

definition told :: "string \<Rightarrow> bool" where
  "told s \<longleftrightarrow> trim s \<noteq> []"

lemma told_front: "s \<noteq> [] \<Longrightarrow> front_ok s \<Longrightarrow> told s"
  using drop_ws_same[of s] by (simp add: told_def trim_empty)

lemma told_head: "plain c \<Longrightarrow> told (c # s)"
  by (simp add: told_def trim_empty drop_ws_plain)

text \<open>A text beyond ASCII, by the numbers of its first three bytes.\<close>

lemma told_utf8:
  assumes "33 \<le> a" "a < 256" "b < 256" "c < 256" "\<not> (a = 194 \<and> b = 160)"
    "\<not> (a = 225 \<and> b = 154 \<and> c = 128)" "\<not> (a = 226 \<and> b \<in> {128, 129})"
    "\<not> (a = 227 \<and> b = 128 \<and> c = 128)" "\<not> (a = 239 \<and> b = 187 \<and> c = 191)"
  shows "told (utf8 (a # b # c # bs))" "told (utf8 (a # b # c # bs) @ s)"
proof -
  have "front_ok (char_of a # char_of b # char_of c # t)" for t
    using assms by (auto simp: front_ok_def is_ws_def is_ws2_def is_ws3_def Let_def)
  then show "told (utf8 (a # b # c # bs))" "told (utf8 (a # b # c # bs) @ s)"
    by (simp_all add: utf8_def told_front)
qed

lemmas telling = told_head told_utf8 plain_def is_ws_def[of "Char a b c d e f g h" for a b c d e f g h]

lemma told_textOr: "told fallback \<Longrightarrow> told (textOr v fallback)"
  by (cases v) (simp_all add: textOr_def told_def)

lemma textOr_empty: "textOr v [] \<noteq> [] \<Longrightarrow> told (textOr v [])"
  by (cases v) (simp_all add: textOr_def told_def split: if_splits)

subsection \<open>Scenes\<close>

definition beat_ok :: "scene_beat \<Rightarrow> bool" where
  "beat_ok b \<longleftrightarrow> told (sb_cn b) \<and> told (sb_en b) \<and> told (sb_emotion b) \<and> (case sb_sfx b of None \<Rightarrow> True | Some x \<Rightarrow> told x)"

lemma read_ok: "sb_cn (readBeat v) \<noteq> [] \<Longrightarrow> sb_en (readBeat v) \<noteq> [] \<Longrightarrow> beat_ok (readBeat v)"
proof -
  assume a: "sb_cn (readBeat v) \<noteq> []" "sb_en (readBeat v) \<noteq> []"
  have sfx: "isNonEmptyString w \<Longrightarrow> case js_string w of None \<Rightarrow> True | Some x \<Rightarrow> told x" for w
    by (cases w) (simp_all add: isNonEmptyString_def told_def)
  show ?thesis using a
    by (simp add: beat_ok_def readBeat_def textOr_empty sfx) (intro told_textOr, simp add: telling)
qed

lemma beats_ok: "normalizeBeats raw = Some beats \<Longrightarrow> beats \<noteq> [] \<and> length beats \<le> 6 \<and> (\<forall>b \<in> set beats. beat_ok b)"
  by (auto simp: normalizeBeats_def Let_def read_ok dest!: in_set_takeD split: jsval.splits if_splits)

lemma voice_ok: "beat_ok (npcVoiceBeat name)"
  by (simp add: npcVoiceBeat_def beat_def beat_ok_def Let_def telling)

lemma opening_ok: "b \<in> set openingBeats \<Longrightarrow> beat_ok b"
  by (auto simp: openingBeats_def beat_def beat_ok_def telling)

lemma actions_ok: "b \<in> set (actionBeats inp) \<Longrightarrow> beat_ok b"
  by (auto simp: actionBeats_def Let_def voice_ok split: option.splits)
     (simp_all add: beat_def beat_ok_def telling)

lemma action_beats: "length (actionBeats inp) \<in> {2..3}"
  by (simp add: actionBeats_def Let_def split: option.split)

subsection \<open>Endings\<close>

definition ending_ok :: "personalized_ending \<Rightarrow> bool" where
  "ending_ok e \<longleftrightarrow> told (pe_title_cn e) \<and> told (pe_title_en e) \<and> told (pe_epilogue_cn e) \<and> told (pe_epilogue_en e)
     \<and> told (pe_future_hook_cn e) \<and> told (pe_future_hook_en e) \<and> length (pe_ending_tags e) \<le> 8"

lemma fallback_ok: "ending_ok (fp_personalized_ending (fallbackEnding inp))"
  by (simp add: fallbackEnding_def ending_ok_def fallbackTags_def telling)

lemma kept_few: "length (keptTags inp v) \<le> 8"
  by (cases v) (simp_all add: keptTags_def fallbackTags_def)

subsection \<open>Properties\<close>

text \<open>
  A scene is well formed whatever the answer is: it has one to six beats, each with a text in both languages
  and an emotion that are not blank, and the choices and effects are the ones the engine has computed.
\<close>

theorem scene_is_well_formed:
  "let scene = sceneOf inp parsed in
     sp_choices scene = sn_choices inp \<and> sp_effects scene = sn_effects inp
     \<and> length (sp_beats scene) \<in> {1..6} \<and> list_all beat_ok (sp_beats scene)"
proof (cases "normalizeBeats (js_prop_opt parsed ''beats'')")
  case None
  then show ?thesis using action_beats[of inp] opening_ok actions_ok[of _ inp]
    by (auto simp: sceneOf_def buildFallbackScene_def openingBeats_def list_all_iff)
next
  case (Some beats)
  then show ?thesis using beats_ok[OF Some] by (cases beats) (auto simp: sceneOf_def list_all_iff)
qed

text \<open>
  An ending keeps what the engine has decided, whatever the answer is: score, summary and reasons are those
  of the engine, no text is blank, there are eight tags at most, and each delta it asks for lies between -3
  and 3. An answer without both titles is not used at all and asks for no change of the score.
\<close>

theorem ending_is_well_formed:
  "let f = endingOf inp parsed; titles = js_prop_opt parsed ''personalized_ending''; d = lx_score_delta (fp_llm_explainer f) in
     fp_score f = ei_score inp \<and> fp_engine_summary f = ei_engineSummary inp \<and> fp_reason_codes f = ei_reasonCodes inp
     \<and> ending_ok (fp_personalized_ending f)
     \<and> told (lx_summary_cn (fp_llm_explainer f)) \<and> told (lx_summary_en (fp_llm_explainer f))
     \<and> dl_truth d \<in> {-3..3} \<and> dl_purity d \<in> {-3..3} \<and> dl_relation d \<in> {-3..3} \<and> dl_humanity d \<in> {-3..3}
     \<and> (isNonEmptyString (js_prop_opt titles ''title_cn'') \<and> isNonEmptyString (js_prop_opt titles ''title_en'')
        \<or> f = fallbackEnding inp \<and> d = \<lparr>dl_truth = 0, dl_purity = 0, dl_relation = 0, dl_humanity = 0\<rparr>)"
proof -
  let ?e = "fp_personalized_ending (fallbackEnding inp)"
  let ?used = "js_objectlike parsed \<and> js_truthy (js_prop_opt parsed ''personalized_ending'')
    \<and> isNonEmptyString (js_prop_opt (js_prop_opt parsed ''personalized_ending'') ''title_cn'')
    \<and> isNonEmptyString (js_prop_opt (js_prop_opt parsed ''personalized_ending'') ''title_en'')"
  show ?thesis
  proof (cases ?used)
    case True
    have texts: "told (textOr v (pe_title_cn ?e))" "told (textOr v (pe_title_en ?e))" "told (textOr v (pe_epilogue_cn ?e))"
      "told (textOr v (pe_epilogue_en ?e))" "told (textOr v (pe_future_hook_cn ?e))" "told (textOr v (pe_future_hook_en ?e))" for v
      using fallback_ok[of inp] by (auto simp: ending_ok_def intro: told_textOr)
    have "told (textOr v ((''LLM '' @ utf8 [229, 183, 178, 229, 143, 130, 228, 184, 142, 232, 175, 132, 229, 136, 134,
      232, 167, 163, 233, 135, 138, 229, 185, 182, 231, 148, 159, 230, 136, 144, 228, 184, 170, 230, 128, 167, 229,
      140, 150, 231, 187, 136, 231, 171, 160, 227, 128, 130])))"
      "told (textOr v ''The LLM contributed score interpretation and generated a personalized epilogue.'')" for v
      by (auto simp: telling intro: told_textOr)
    then show ?thesis using True texts kept_few normalized_delta(1-4)
      by (simp add: endingOf_def Let_def ending_ok_def)
  next
    case False
    then have "endingOf inp parsed = fallbackEnding inp" by (auto simp: endingOf_def Let_def)
    then show ?thesis using fallback_ok[of inp] by (simp add: fallbackEnding_def telling)
  qed
qed

end
