(* ===== verification/Api_Input.thy ===== *)
theory Api_Input
  imports Hub_Types
begin

section \<open>Reading request bodies\<close>

text \<open>
  What the four parsers app/api/hub/dto.ts, graph/dto.ts, fan-pass/dto.ts and lab/dto.ts share: they define
  \<open>asObject\<close>, \<open>asString\<close>, \<open>asOptionalString\<close> and \<open>parseWallet\<close> with the same text. A parser ends with a value, with
  an \<open>InputValidationError\<close> (or \<open>LabInputValidationError\<close>) and its message, or with another error of the language.
  \<open>new PublicKey(w).toBase58()\<close> is a parameter, \<open>None\<close> where the constructor throws.
\<close>

datatype input_error = Invalid string | Broken js_error

type_synonym 'a parsed = "input_error + 'a"

type_synonym base58 = "string \<Rightarrow> string option"

text \<open>A response: the status, and the text of \<open>error\<close> or the body.\<close>

record 'a http =
  ht_status :: int
  ht_body :: "string + 'a"

definition ok_response :: "'a \<Rightarrow> 'a http" where
  "ok_response x = \<lparr>ht_status = 200, ht_body = Inr x\<rparr>"

definition error_response :: "int \<Rightarrow> string \<Rightarrow> 'a http" where
  "error_response status message = \<lparr>ht_status = status, ht_body = Inl message\<rparr>"

text \<open>\<open>await req.json()\<close>: \<open>None\<close> is a text that is no JSON.\<close>

definition readJson :: "jsval option \<Rightarrow> jsval parsed" where
  "readJson body = (case body of None \<Rightarrow> Inl (Broken SyntaxError) | Some b \<Rightarrow> Inr b)"

text \<open>\<open>error instanceof Error ? error.message : ...\<close>: the texts of the language's own errors are a parameter.\<close>

definition messageOf :: "(js_error \<Rightarrow> string) \<Rightarrow> js_error \<Rightarrow> string" where
  "messageOf text e = (case e of Thrown s \<Rightarrow> s | _ \<Rightarrow> text e)"

subsection \<open>Values\<close>

definition asObject :: "jsval \<Rightarrow> string \<Rightarrow> jsval parsed" where
  "asObject inp name = (if js_is_object inp then Inr inp else Inl (Invalid (name @ '' must be an object'')))"

definition asString :: "jsval \<Rightarrow> string \<Rightarrow> string parsed" where
  "asString inp name =
     (case inp of
        JStr s \<Rightarrow> if trim s = [] then Inl (Invalid (name @ '' must be a non-empty string'')) else Inr (trim s)
      | _ \<Rightarrow> Inl (Invalid (name @ '' must be a non-empty string'')))"

definition asOptionalString :: "jsval \<Rightarrow> string option" where
  "asOptionalString inp = (case inp of JStr s \<Rightarrow> if trim s = [] then None else Some (trim s) | _ \<Rightarrow> None)"

definition nullish :: "jsval \<Rightarrow> bool" where
  "nullish v \<longleftrightarrow> v = JUndef \<or> v = JNull"

definition objectOr :: "jsval \<Rightarrow> jsval option" where
  "objectOr v = (if js_is_object v then Some v else None)"

text \<open>
  \<open>Number(v)\<close> throws for an object with a property \<open>toString\<close> of its own, which in JSON is no function, and
  for an array with such an element.
\<close>

fun no_text :: "jsval \<Rightarrow> bool" where
  "no_text (JObj ps) \<longleftrightarrow> map_of ps ''toString'' \<noteq> None"
| "no_text (JArr xs) \<longleftrightarrow> list_ex no_text xs"
| "no_text _ \<longleftrightarrow> False"

definition toNumber :: "jsval \<Rightarrow> jsnum parsed" where
  "toNumber v = (if no_text v then Inl (Broken TypeError) else Inr (js_to_number v))"

definition weightOf :: "jsval \<Rightarrow> string \<Rightarrow> rat parsed" where
  "weightOf v name =
     rbind (toNumber v) (\<lambda>n. case finite_num n of
        Some w \<Rightarrow> if 0 \<le> w \<and> w \<le> 100 then Inr w else Inl (Invalid (name @ '' must be between 0 and 100''))
      | None \<Rightarrow> Inl (Invalid (name @ '' must be between 0 and 100'')))"

text \<open>\<open>if (!VALUES.includes(v)) throw ...\<close>: the value of that name.\<close>

definition oneOf :: "('a \<Rightarrow> string) \<Rightarrow> 'a list \<Rightarrow> string \<Rightarrow> string \<Rightarrow> 'a parsed" where
  "oneOf name values field v =
     (case List.find (\<lambda>x. name x = v) values of
        Some x \<Rightarrow> Inr x
      | None \<Rightarrow> Inl (Invalid (field @ '' must be one of: '' @ join '', '' (map name values))))"

definition optionally :: "('a \<Rightarrow> 'e + 'b) \<Rightarrow> 'a option \<Rightarrow> 'e + 'b option" where
  "optionally f v = (case v of None \<Rightarrow> Inr None | Some x \<Rightarrow> rbind (f x) (\<lambda>y. Inr (Some y)))"

text \<open>\<open>input.map((raw, index) => ...)\<close> of an array, where null and undefined stand for no array at all.\<close>

definition mapItems :: "(jsval \<Rightarrow> nat \<Rightarrow> 'a parsed) \<Rightarrow> string \<Rightarrow> jsval \<Rightarrow> 'a list option parsed" where
  "mapItems f name inp =
     (if nullish inp then Inr None
      else case inp of
        JArr items \<Rightarrow> rbind (rmap_list (\<lambda>(raw, index). f raw index) (zip items [0..<length items])) (\<lambda>ys. Inr (Some ys))
      | _ \<Rightarrow> Inl (Invalid (name @ '' must be an array'')))"

definition item_name :: "string \<Rightarrow> nat \<Rightarrow> string" where
  "item_name name index = name @ ''['' @ show_nat index @ '']''"

definition parseWallet :: "base58 \<Rightarrow> jsval \<Rightarrow> string \<Rightarrow> string parsed" where
  "parseWallet key inp name =
     rbind (asString inp name) (\<lambda>wallet. case key wallet of
        Some w \<Rightarrow> Inr w
      | None \<Rightarrow> Inl (Invalid (name @ '' must be a valid Solana public key'')))"

definition parseProofs :: "jsval \<Rightarrow> jsval list option parsed" where
  "parseProofs = mapItems (\<lambda>raw index. asObject raw (item_name ''proofs'' index)) ''proofs''"

subsection \<open>What the parsers let through\<close>

definition text_ok :: "string \<Rightarrow> bool" where
  "text_ok s \<longleftrightarrow> s \<noteq> [] \<and> trim s = s"

lemma asString_ok: "asString v name = Inr s \<Longrightarrow> text_ok s"
  by (auto simp: asString_def text_ok_def split: jsval.splits if_splits)

lemma asOptionalString_ok: "asOptionalString v = Some s \<Longrightarrow> text_ok s"
  by (auto simp: asOptionalString_def text_ok_def split: jsval.splits if_splits)

lemma parseWallet_ok: "parseWallet key v name = Inr w \<Longrightarrow> \<exists>s. key s = Some w"
  by (auto simp: parseWallet_def js_simps split: option.splits)

lemma weightOf_ok: "weightOf v name = Inr w \<Longrightarrow> 0 \<le> w \<and> w \<le> 100"
  by (auto simp: weightOf_def js_simps split: option.splits if_splits)

lemma oneOf_ok: "oneOf name values field v = Inr x \<Longrightarrow> x \<in> set values \<and> name x = v"
  by (auto simp: oneOf_def find_Some_iff split: option.splits)

lemma find_member: "List.find P xs = Some x \<Longrightarrow> x \<in> set xs"
  by (auto simp: find_Some_iff)

lemma mapItems_ok:
  assumes "mapItems f name inp = Inr (Some ys)" "y \<in> set ys"
  shows "\<exists>raw index. f raw index = Inr y"
proof -
  obtain items where "rmap_list (\<lambda>(raw, index). f raw index) (zip items [0..<length items]) = Inr ys"
    using assms(1) by (auto simp: mapItems_def js_simps split: if_splits jsval.splits)
  then have "list_all2 (\<lambda>x y. (case x of (raw, index) \<Rightarrow> f raw index) = Inr y) (zip items [0..<length items]) ys"
    by (simp add: rmap_list_Inr_iff)
  then show ?thesis using assms(2) by (metis (mono_tags, lifting) case_prod_beta in_set_conv_nth list_all2_conv_all_nth)
qed

lemma parseProofs_ok: "parseProofs v = Inr (Some ps) \<Longrightarrow> list_all js_is_object ps"
  by (auto simp: parseProofs_def list_all_iff asObject_def dest!: mapItems_ok split: if_splits)

end
