(* ===== verification/Api_Hub.thy ===== *)
theory Api_Hub
  imports Api_Input Hub_Workflow
begin

section \<open>The routes of the hub\<close>

text \<open>
  app/api/hub/dto.ts, app/api/graph/dto.ts and app/api/fan-pass/dto.ts with the routes under app/api/hub,
  app/api/graph and app/api/fan-pass. A route reads the body, parses it, runs one operation of the hub and
  turns errors into a status; logging is left out.
\<close>

subsection \<open>The request of a quote\<close>

definition parseRiskSignal :: "jsval \<Rightarrow> nat \<Rightarrow> risk_signal parsed" where
  "parseRiskSignal raw index =
     (let name = item_name ''risk_signals'' index in
      rbind (asObject raw name) (\<lambda>item.
      rbind (asString (js_prop_opt item ''signal'') (name @ ''.signal'')) (\<lambda>signal.
      rbind (asString (js_prop_opt item ''source'') (name @ ''.source'')) (\<lambda>source.
      rbind (weightOf (js_prop_opt item ''weight'') (name @ ''.weight'')) (\<lambda>weight.
        Inr \<lparr>sg_signal = signal, sg_weight = weight, sg_source = source\<rparr>)))))"

definition parseRiskSignals :: "jsval \<Rightarrow> risk_signal list option parsed" where
  "parseRiskSignals = mapItems parseRiskSignal ''risk_signals''"

definition decimalString :: "string \<Rightarrow> string option \<Rightarrow> string option parsed" where
  "decimalString name raw =
     (case raw of
        None \<Rightarrow> Inr None
      | Some s \<Rightarrow> if all_digits 10 s then Inr raw else Inl (Invalid (name @ '' must be a decimal string'')))"

definition parseContext :: "jsval \<Rightarrow> decision_context option parsed" where
  "parseContext inp =
     (if nullish inp then Inr None
      else rbind (asObject inp ''context'') (\<lambda>obj.
        rbind (decimalString ''context.amount_lamports'' (asOptionalString (js_prop_opt obj ''amount_lamports''))) (\<lambda>amount.
          Inr (Some \<lparr>dc_channel = asOptionalString (js_prop_opt obj ''channel''),
            dc_campaign_id = asOptionalString (js_prop_opt obj ''campaign_id''), dc_amount_lamports = amount,
            dc_metadata = objectOr (js_prop_opt obj ''metadata'')\<rparr>))))"

definition HUB_ACTION_TYPES :: "hub_action_type list" where
  "HUB_ACTION_TYPES = [Ac_view, Ac_verify, Ac_purchase, Ac_resale, Ac_task_complete, Ac_membership_upgrade, Ac_claim]"

definition parseHubDecisionQuoteBody :: "base58 \<Rightarrow> jsval \<Rightarrow> hub_quote_request parsed" where
  "parseHubDecisionQuoteBody key body =
     rbind (asObject body ''body'') (\<lambda>obj.
     rbind (asString (js_prop_opt obj ''action_type'') ''action_type'') (\<lambda>t.
     rbind (oneOf action_name HUB_ACTION_TYPES ''action_type'' t) (\<lambda>actionType.
     rbind (parseWallet key (js_prop_opt obj ''wallet'') ''wallet'') (\<lambda>wallet.
     rbind (asString (js_prop_opt obj ''asset_id'') ''asset_id'') (\<lambda>assetId.
     rbind (parseContext (js_prop_opt obj ''context'')) (\<lambda>context.
     rbind (parseProofs (js_prop_opt obj ''proofs'')) (\<lambda>proofs.
     rbind (parseRiskSignals (js_prop_opt obj ''risk_signals'')) (\<lambda>signals.
       Inr \<lparr>hq_wallet = wallet, hq_action_type = actionType, hq_asset_id = assetId, hq_context = context,
         hq_proofs = proofs, hq_risk_signals = signals\<rparr>))))))))"

subsection \<open>Events, relations and workflows\<close>

definition GRAPH_EVENT_TYPES :: "graph_event_type list" where
  "GRAPH_EVENT_TYPES = [Ev_view, Ev_verify, Ev_purchase, Ev_resale, Ev_task_complete, Ev_membership_upgrade, Ev_claim, Ev_quote]"

definition HUB_DECISIONS :: "hub_decision list" where
  "HUB_DECISIONS = [Allow, Block, Step_up]"

definition RELATION_EDGE_TYPES :: "relation_edge_type list" where
  "RELATION_EDGE_TYPES = [User_creator, User_community, User_asset]"

definition FAN_PASS_WORKFLOW_KINDS :: "workflow_kind list" where
  "FAN_PASS_WORKFLOW_KINDS = [Purchase_release, Upgrade_membership, Complete_task]"

text \<open>\<open>typeof v === 'number' && Number.isFinite(v) ? Math.floor(v) : undefined\<close>\<close>

definition floorOr :: "jsval \<Rightarrow> int option" where
  "floorOr v = (case v of JNum x \<Rightarrow> map_option floor (finite_num x) | _ \<Rightarrow> None)"

definition parseMetadata :: "jsval \<Rightarrow> jsval option parsed" where
  "parseMetadata inp =
     (if nullish inp then Inr None
      else if js_is_object inp then Inr (Some inp) else Inl (Invalid ''metadata must be an object''))"

definition parseValueLamports :: "jsval \<Rightarrow> string option parsed" where
  "parseValueLamports v = decimalString ''value_lamports'' (asOptionalString v)"

definition parseGraphEventIngestBody :: "base58 \<Rightarrow> jsval \<Rightarrow> graph_event_input parsed" where
  "parseGraphEventIngestBody key body =
     rbind (asObject body ''body'') (\<lambda>obj.
     rbind (asString (js_prop_opt obj ''event_type'') ''event_type'') (\<lambda>t.
     rbind (oneOf event_type_name GRAPH_EVENT_TYPES ''event_type'' t) (\<lambda>eventType.
     rbind (optionally (oneOf decision_name HUB_DECISIONS ''decision'') (asOptionalString (js_prop_opt obj ''decision''))) (\<lambda>decision.
     rbind (parseWallet key (js_prop_opt obj ''wallet'') ''wallet'') (\<lambda>wallet.
     rbind (asString (js_prop_opt obj ''asset_id'') ''asset_id'') (\<lambda>assetId.
     rbind (parseValueLamports (js_prop_opt obj ''value_lamports'')) (\<lambda>lamports.
       Inr \<lparr>gi_wallet = wallet, gi_event_type = eventType, gi_asset_id = assetId, gi_decision = decision,
         gi_value_lamports = lamports, gi_context = objectOr (js_prop_opt obj ''context''),
         gi_occurred_at = floorOr (js_prop_opt obj ''occurred_at'')\<rparr>)))))))"

definition parseRelationUpsertBody :: "base58 \<Rightarrow> jsval \<Rightarrow> relation_input parsed" where
  "parseRelationUpsertBody key body =
     rbind (asObject body ''body'') (\<lambda>obj.
     rbind (asString (js_prop_opt obj ''edge_type'') ''edge_type'') (\<lambda>t.
     rbind (oneOf edge_type_name RELATION_EDGE_TYPES ''edge_type'' t) (\<lambda>edgeType.
     rbind (weightOf (js_prop_opt obj ''weight'') ''weight'') (\<lambda>weight.
     rbind (parseWallet key (js_prop_opt obj ''from_wallet'') ''from_wallet'') (\<lambda>wallet.
     rbind (asString (js_prop_opt obj ''to_id'') ''to_id'') (\<lambda>toId.
     rbind (parseMetadata (js_prop_opt obj ''metadata'')) (\<lambda>metadata.
       Inr \<lparr>ri_from_wallet = wallet, ri_to_id = toId, ri_edge_type = edgeType, ri_weight = weight,
         ri_metadata = metadata\<rparr>)))))))"

definition parseExecuteFanPassWorkflowBody :: "base58 \<Rightarrow> jsval \<Rightarrow> workflow_input parsed" where
  "parseExecuteFanPassWorkflowBody key body =
     rbind (asObject body ''body'') (\<lambda>obj.
     rbind (asString (js_prop_opt obj ''workflow_kind'') ''workflow_kind'') (\<lambda>t.
     rbind (oneOf workflow_name FAN_PASS_WORKFLOW_KINDS ''workflow_kind'' t) (\<lambda>workflowKind.
     rbind (parseWallet key (js_prop_opt obj ''wallet'') ''wallet'') (\<lambda>wallet.
     rbind (asString (js_prop_opt obj ''item_id'') ''item_id'') (\<lambda>itemId.
     rbind (parseProofs (js_prop_opt obj ''proofs'')) (\<lambda>proofs.
       Inr \<lparr>wi_wallet = wallet, wi_workflow_kind = workflowKind, wi_item_id = itemId, wi_proofs = proofs\<rparr>))))))"

subsection \<open>Routes\<close>

text \<open>\<open>POST /api/hub/decision/quote\<close>\<close>

definition postQuote ::
  "hub_host \<Rightarrow> ('k, 'v) oracle_services \<Rightarrow> quote_clock \<Rightarrow> base58 \<Rightarrow> jsval option \<Rightarrow> ('k, 'v) hub_services \<Rightarrow>
   ('k, 'v) hub_services \<times> hub_quote http" where
  "postQuote h sv clock key body st =
     (case rbind (readJson body) (parseHubDecisionQuoteBody key) of
        Inl (Invalid m) \<Rightarrow> (st, error_response 400 m)
      | Inl (Broken _) \<Rightarrow> (st, error_response 500 ''Failed to quote hub decision'')
      | Inr inp \<Rightarrow>
          (case quoteHubDecision h sv clock inp st of
             (st', Inl _) \<Rightarrow> (st', error_response 500 ''Failed to quote hub decision'')
           | (st', Inr quote) \<Rightarrow> (st', ok_response quote)))"

text \<open>\<open>POST /api/graph/events/ingest\<close> and \<open>POST /api/graph/relations/upsert\<close>\<close>

definition postIngest ::
  "hub_host \<Rightarrow> string \<Rightarrow> int \<Rightarrow> base58 \<Rightarrow> jsval option \<Rightarrow> hub_state \<Rightarrow> hub_state \<times> ingest_result http" where
  "postIngest h uuid now key body hs =
     (case rbind (readJson body) (parseGraphEventIngestBody key) of
        Inl (Invalid m) \<Rightarrow> (hs, error_response 400 m)
      | Inl (Broken _) \<Rightarrow> (hs, error_response 500 ''Failed to ingest graph event'')
      | Inr inp \<Rightarrow> map_prod id ok_response (ingestGraphEvent h uuid now inp hs))"

definition postUpsert ::
  "hub_host \<Rightarrow> int \<Rightarrow> base58 \<Rightarrow> jsval option \<Rightarrow> hub_state \<Rightarrow> hub_state \<times> upsert_result http" where
  "postUpsert h now key body hs =
     (case rbind (readJson body) (parseRelationUpsertBody key) of
        Inl (Invalid m) \<Rightarrow> (hs, error_response 400 m)
      | Inl (Broken _) \<Rightarrow> (hs, error_response 500 ''Failed to upsert relation edge'')
      | Inr inp \<Rightarrow> map_prod id ok_response (upsertRelationEdge h now inp hs))"

text \<open>\<open>GET /api/graph/export\<close>: the parameter is trimmed only to see whether it is empty.\<close>

definition exportWallet :: "base58 \<Rightarrow> string option \<Rightarrow> string result" where
  "exportWallet key v =
     (case v of
        None \<Rightarrow> Inl (Thrown ''wallet query is required'')
      | Some s \<Rightarrow> if trim s = [] then Inl (Thrown ''wallet query is required'')
          else case key s of None \<Rightarrow> Inl (Thrown ''wallet must be a valid Solana public key'') | Some w \<Rightarrow> Inr w)"

definition getExport ::
  "(js_error \<Rightarrow> string) \<Rightarrow> hub_host \<Rightarrow> int \<Rightarrow> base58 \<Rightarrow> string option \<Rightarrow> hub_state \<Rightarrow> hub_state \<times> wallet_graph http" where
  "getExport text h now key wallet hs =
     (case exportWallet key wallet of
        Inl e \<Rightarrow> (let message = messageOf text e in
          (hs, error_response (if str_includes message ''wallet'' then 400 else 500) message))
      | Inr w \<Rightarrow> map_prod id ok_response (exportWalletGraph h now w hs))"

text \<open>\<open>POST /api/graph/snapshots/anchor\<close>, and the same behind a token, \<open>POST /api/graph/snapshots/anchor/daily\<close>.\<close>

definition postAnchor ::
  "(js_error \<Rightarrow> string) \<Rightarrow> hub_host \<Rightarrow> int \<Rightarrow> (anchor_request \<Rightarrow> anchor_receipt result) \<Rightarrow> hub_state \<Rightarrow>
   hub_state \<times> anchor_receipt http" where
  "postAnchor text h now anchor hs =
     (case anchorCurrentSnapshot h now anchor hs of
        (hs', Inl e) \<Rightarrow> (hs', error_response 500 (messageOf text e))
      | (hs', Inr receipt) \<Rightarrow> (hs', ok_response receipt))"

text \<open>\<open>auth.match(/^Bearer\s+(.+)$/i)?.[1]?.trim() ?? null\<close>, for a header value, which has no line breaks.\<close>

definition extractBearerToken :: "string option \<Rightarrow> string option" where
  "extractBearerToken auth =
     (case auth of
        None \<Rightarrow> None
      | Some a \<Rightarrow>
          if to_lower (take 6 a) = ''bearer'' \<and> 2 \<le> length (drop 6 a) \<and> drop_ws (drop 6 a) \<noteq> drop 6 a
          then Some (trim (drop 6 a)) else None)"

definition postDailyAnchor ::
  "(js_error \<Rightarrow> string) \<Rightarrow> hub_host \<Rightarrow> int \<Rightarrow> (anchor_request \<Rightarrow> anchor_receipt result) \<Rightarrow> string option \<Rightarrow> hub_state \<Rightarrow>
   hub_state \<times> anchor_receipt http" where
  "postDailyAnchor text h now anchor auth hs =
     (let expectedToken = trim (opt_or (hh_env h ''HUB_DAILY_ANCHOR_TOKEN'') []);
          providedToken = opt_or (extractBearerToken auth) [] in
      if expectedToken = [] then (hs, error_response 503 ''HUB_DAILY_ANCHOR_TOKEN is not configured'')
      else if providedToken = [] \<or> providedToken \<noteq> expectedToken then (hs, error_response 401 ''Unauthorized'')
      else postAnchor text h now anchor hs)"

text \<open>\<open>GET /api/fan-pass/catalog\<close> and \<open>POST /api/fan-pass/workflow/execute\<close>\<close>

definition getCatalog :: "hub_host \<Rightarrow> hub_state \<Rightarrow> hub_state \<times> fan_pass_catalog http" where
  "getCatalog h hs = map_prod id ok_response (getFanPassCatalog h hs)"

definition postWorkflow ::
  "(js_error \<Rightarrow> string) \<Rightarrow> hub_host \<Rightarrow> ('k, 'v) oracle_services \<Rightarrow> workflow_clock \<Rightarrow> base58 \<Rightarrow> jsval option \<Rightarrow>
   ('k, 'v) hub_services \<Rightarrow> ('k, 'v) hub_services \<times> workflow_result http" where
  "postWorkflow text h sv clock key body st =
     (let failed = (\<lambda>e. error_response (if str_includes (messageOf text e) ''not found'' then 404 else 500) (messageOf text e)) in
      case rbind (readJson body) (parseExecuteFanPassWorkflowBody key) of
        Inl (Invalid m) \<Rightarrow> (st, error_response 400 m)
      | Inl (Broken e) \<Rightarrow> (st, failed e)
      | Inr inp \<Rightarrow>
          (case executeFanPassWorkflow h sv clock inp st of
             (st', Inl e) \<Rightarrow> (st', failed e)
           | (st', Inr result) \<Rightarrow> (st', ok_response result)))"

end
