(* ===== verification/Api_Graph.thy ===== *)
theory Api_Graph
  imports Api_Hub
begin

section \<open>What requests can do to the hub\<close>

text \<open>
  A contract between the routes and the graph, as a locale: whatever the graph's operations keep for inputs
  that a parser lets through, every route keeps. It is interpreted on the invariant of the store together with the
  validity of what is stored, which holds in every state that requests reach.
\<close>

subsection \<open>The contract\<close>

locale graph_contract =
  fixes h :: hub_host and key :: base58
    and anchor :: "int \<Rightarrow> anchor_request \<Rightarrow> anchor_receipt result"
    and keep :: "hub_state \<Rightarrow> bool"
    and event_in :: "graph_event_input \<Rightarrow> bool"
    and relation_in :: "relation_input \<Rightarrow> bool"
  assumes keep_read: "keep hs \<Longrightarrow> keep (hs\<lparr>hs_graph := Some (getState h hs)\<rparr>)"
    and keep_ingest: "keep hs \<Longrightarrow> event_in inp \<Longrightarrow> keep (fst (ingestGraphEvent h uuid now inp hs))"
    and keep_upsert: "keep hs \<Longrightarrow> relation_in rel \<Longrightarrow> keep (fst (upsertRelationEdge h now rel hs))"
    and keep_anchor: "keep hs \<Longrightarrow> keep (fst (anchorCurrentSnapshot h now (anchor at_ms) hs))"
    and parsed_event: "parseGraphEventIngestBody key body = Inr inp \<Longrightarrow> event_in inp"
    and parsed_relation: "parseRelationUpsertBody key body = Inr rel \<Longrightarrow> relation_in rel"
    and parsed_workflow: "parseExecuteFanPassWorkflowBody key body = Inr wi \<Longrightarrow> event_in (workflowEvent wi ty quote md)"
      "parseExecuteFanPassWorkflowBody key body = Inr wi \<Longrightarrow> relationUpdateForWorkflow wi = Inr rel \<Longrightarrow> relation_in rel"
begin

lemma keep_export: "keep hs \<Longrightarrow> keep (fst (exportWalletGraph h now wallet hs))"
  by (simp add: exportWalletGraph_def Let_def keep_read)

lemma keep_quote: "keep (sv_hub st) \<Longrightarrow> keep (sv_hub (fst (quoteHubDecision h sv clock inp st)))"
proof -
  assume "keep (sv_hub st)"
  moreover have "sv_hub (fst (quoteHubDecision h sv clock inp st)) = (sv_hub st)\<lparr>hs_graph := Some (getState h (sv_hub st))\<rparr>"
    by (auto simp: quoteHubDecision_def getReputationSnapshot_def Let_def split: option.splits prod.splits sum.splits)
  ultimately show ?thesis by (simp add: keep_read)
qed

lemma keep_record:
  assumes wi: "parseExecuteFanPassWorkflowBody key body = Inr wi" and hs: "keep hs"
  shows "keep (fst (recordWorkflow h clock wi quote hs))"
proof -
  obtain act ty where a: "actionAndEventForWorkflow (wi_workflow_kind wi) = (act, ty)" by fastforce
  note ingest = keep_ingest[OF _ parsed_workflow(1)[OF wi]]
  have "keep (fst (upsertRelationEdge h now rel hs'))" if "relationUpdateForWorkflow wi = Inr rel" "keep hs'" for now rel hs'
    using that parsed_workflow(2)[OF wi] keep_upsert by blast
  then show ?thesis
    by (auto simp: recordWorkflow_def a Let_def case_prod_beta hs ingest keep_export split: sum.split)
qed

lemma keep_workflow:
  assumes "parseExecuteFanPassWorkflowBody key body = Inr wi" "keep (sv_hub st)"
  shows "keep (sv_hub (fst (executeFanPassWorkflow h sv clock wi st)))"
proof -
  have "keep (sv_hub (fst (quoteHubDecision h sv c q st)))" for c q by (rule keep_quote[OF assms(2)])
  then show ?thesis
    using keep_record[OF assms(1)] assms(2)
    by (simp add: executeFanPassWorkflow_def Let_def case_prod_beta split: sum.split)
qed

lemma route_ingest: "keep hs \<Longrightarrow> keep (fst (postIngest h uuid now key body hs))"
  by (auto simp: postIngest_def js_simps split: sum.split input_error.split intro: keep_ingest parsed_event)

lemma route_upsert: "keep hs \<Longrightarrow> keep (fst (postUpsert h now key body hs))"
  by (auto simp: postUpsert_def js_simps split: sum.split input_error.split intro: keep_upsert parsed_relation)

lemma route_export: "keep hs \<Longrightarrow> keep (fst (getExport text h now key wallet hs))"
  by (simp add: getExport_def Let_def keep_export split: sum.split)

lemma route_anchor: "keep hs \<Longrightarrow> keep (fst (postAnchor text h now (anchor at_ms) hs))"
  using keep_anchor[of hs now at_ms] by (auto simp: postAnchor_def split: prod.split sum.split)

lemma route_daily: "keep hs \<Longrightarrow> keep (fst (postDailyAnchor text h now (anchor at_ms) auth hs))"
  by (simp add: postDailyAnchor_def Let_def route_anchor)

lemma route_catalog: "keep hs \<Longrightarrow> keep (fst (getCatalog h hs))"
  by (simp add: getCatalog_def getFanPassCatalog_def getAssetEventCountByType_def Let_def keep_read)

lemma route_quote: "keep (sv_hub st) \<Longrightarrow> keep (sv_hub (fst (postQuote h sv clock key body st)))"
  using keep_quote[of st sv clock] by (auto simp: postQuote_def split: sum.split input_error.split prod.split) (metis fst_conv)+

lemma route_workflow: "keep (sv_hub st) \<Longrightarrow> keep (sv_hub (fst (postWorkflow text h sv clock key body st)))"
  using keep_workflow[of _ _ st sv clock]
  by (auto simp: postWorkflow_def Let_def js_simps split: sum.split input_error.split prod.split) (metis fst_conv)+

end

subsection \<open>Requests\<close>

text \<open>
  The states that requests lead to, a process that stops and starts again included: then only the file is
  left. Readings of the clock, random identifiers, host errors and the chain are as they come.
\<close>

inductive served ::
  "hub_host \<Rightarrow> base58 \<Rightarrow> (int \<Rightarrow> anchor_request \<Rightarrow> anchor_receipt result) \<Rightarrow> ('k, 'v) oracle_services \<Rightarrow> ('k, 'v) hub_services \<Rightarrow> bool"
  for h key anchor sv where
  served_start: "served h key anchor sv \<lparr>sv_hub = hub_init, sv_oracle = orc, sv_cache = []\<rparr>"
| served_ingest: "served h key anchor sv st \<Longrightarrow>
    served h key anchor sv (st\<lparr>sv_hub := fst (postIngest h uuid now key body (sv_hub st))\<rparr>)"
| served_upsert: "served h key anchor sv st \<Longrightarrow>
    served h key anchor sv (st\<lparr>sv_hub := fst (postUpsert h now key body (sv_hub st))\<rparr>)"
| served_export: "served h key anchor sv st \<Longrightarrow>
    served h key anchor sv (st\<lparr>sv_hub := fst (getExport text h now key wallet (sv_hub st))\<rparr>)"
| served_anchor: "served h key anchor sv st \<Longrightarrow>
    served h key anchor sv (st\<lparr>sv_hub := fst (postAnchor text h now (anchor at_ms) (sv_hub st))\<rparr>)"
| served_daily: "served h key anchor sv st \<Longrightarrow>
    served h key anchor sv (st\<lparr>sv_hub := fst (postDailyAnchor text h now (anchor at_ms) auth (sv_hub st))\<rparr>)"
| served_catalog: "served h key anchor sv st \<Longrightarrow>
    served h key anchor sv (st\<lparr>sv_hub := fst (getCatalog h (sv_hub st))\<rparr>)"
| served_quote: "served h key anchor sv st \<Longrightarrow> served h key anchor sv (fst (postQuote h sv clock key body st))"
| served_workflow: "served h key anchor sv st \<Longrightarrow> served h key anchor sv (fst (postWorkflow text h sv wclock key body st))"
| served_restart: "served h key anchor sv st \<Longrightarrow>
    served h key anchor sv \<lparr>sv_hub = restart (sv_hub st), sv_oracle = orc, sv_cache = []\<rparr>"

context graph_contract
begin

lemma keep_served:
  assumes "keep hub_init" "\<And>hs. keep hs \<Longrightarrow> keep (restart hs)"
  shows "served h key anchor sv st \<Longrightarrow> keep (sv_hub st)"
  by (induction rule: served.induct)
     (simp_all add: assms route_ingest route_upsert route_export route_anchor route_daily route_catalog route_quote route_workflow)

end

subsection \<open>What is stored is valid\<close>

definition event_ok :: "base58 \<Rightarrow> graph_event_input \<Rightarrow> bool" where
  "event_ok key inp \<longleftrightarrow> (\<exists>w. key w = Some (gi_wallet inp)) \<and> text_ok (gi_asset_id inp)"

definition relation_ok :: "base58 \<Rightarrow> relation_input \<Rightarrow> bool" where
  "relation_ok key rel \<longleftrightarrow> (\<exists>w. key w = Some (ri_from_wallet rel)) \<and> text_ok (ri_to_id rel)"

definition graph_ok :: "base58 \<Rightarrow> hub_graph \<Rightarrow> bool" where
  "graph_ok key g \<longleftrightarrow>
     (\<forall>e \<in> set (map_values (hg_events g)). (\<exists>w. key w = Some (ge_wallet e)) \<and> text_ok (ge_asset_id e))
     \<and> (\<forall>r \<in> set (map_values (hg_relations g)). (\<exists>w. key w = Some (re_from_wallet r)) \<and> text_ok (re_to_id r))"

lemma graph_ok_same: "same_graph a b \<Longrightarrow> graph_ok key a \<Longrightarrow> graph_ok key b"
proof -
  assume "same_graph a b"
  then have "set (hg_events a) = set (hg_events b)" "set (hg_relations a) = set (hg_relations b)"
    by (metis same_graph_def set_mset_mset)+
  then have "set (map_values (hg_events a)) = set (map_values (hg_events b))"
    "set (map_values (hg_relations a)) = set (map_values (hg_relations b))"
    by (simp_all add: map_values_def)
  then show "graph_ok key a \<Longrightarrow> graph_ok key b" by (simp add: graph_ok_def)
qed

lemma parsed_event_ok: "parseGraphEventIngestBody key body = Inr inp \<Longrightarrow> event_ok key inp"
  by (auto simp: parseGraphEventIngestBody_def js_simps event_ok_def dest: parseWallet_ok asString_ok)

lemma parsed_relation_ok: "parseRelationUpsertBody key body = Inr rel \<Longrightarrow> relation_ok key rel"
  by (auto simp: parseRelationUpsertBody_def js_simps relation_ok_def dest: parseWallet_ok asString_ok)

lemma parsed_workflow_ok:
  assumes "parseExecuteFanPassWorkflowBody key body = Inr wi"
  shows "(\<exists>w. key w = Some (wi_wallet wi)) \<and> text_ok (wi_item_id wi)"
  using assms by (auto simp: parseExecuteFanPassWorkflowBody_def js_simps dest: parseWallet_ok asString_ok)

lemma catalog_texts:
  "release \<in> set RELEASES \<Longrightarrow> text_ok (rl_id release)" "tier \<in> set MEMBERSHIPS \<Longrightarrow> text_ok (mt_community_id tier)"
  "task \<in> set TASKS \<Longrightarrow> text_ok (tk_creator_id task)"
proof -
  have "list_all (\<lambda>r. text_ok (rl_id r)) RELEASES" "list_all (\<lambda>t. text_ok (mt_community_id t)) MEMBERSHIPS"
    "list_all (\<lambda>t. text_ok (tk_creator_id t)) TASKS" by code_simp+
  then show "release \<in> set RELEASES \<Longrightarrow> text_ok (rl_id release)" "tier \<in> set MEMBERSHIPS \<Longrightarrow> text_ok (mt_community_id tier)"
    "task \<in> set TASKS \<Longrightarrow> text_ok (tk_creator_id task)"
    by (simp_all add: list_all_iff)
qed

lemma found_texts:
  "findRelease k = Inr release \<Longrightarrow> text_ok (rl_id release)" "findMembership k = Inr tier \<Longrightarrow> text_ok (mt_community_id tier)"
  "findTask k = Inr task \<Longrightarrow> text_ok (tk_creator_id task)"
  by (auto simp: findRelease_def findMembership_def findTask_def catalog_texts dest!: find_member split: option.splits)

lemma workflow_relation_ok:
  assumes "relationUpdateForWorkflow wi = Inr rel" "\<exists>w. key w = Some (wi_wallet wi)"
  shows "relation_ok key rel"
  using assms
  by (auto simp: relationUpdateForWorkflow_def relation_ok_def js_simps found_texts split: workflow_kind.splits)

lemma ingest_ok: "graph_ok key (getState h hs) \<Longrightarrow> event_ok key inp \<Longrightarrow> graph_ok key (getState h (fst (ingestGraphEvent h uuid now inp hs)))"
  by (rule ingest_graph[of h uuid now inp hs]) (auto simp: graph_ok_def event_ok_def dest!: set_values_update)

lemma upsert_ok: "graph_ok key (getState h hs) \<Longrightarrow> relation_ok key rel \<Longrightarrow> graph_ok key (getState h (fst (upsertRelationEdge h now rel hs)))"
  by (rule upsert_graph[of h now rel hs]) (auto simp: graph_ok_def relation_ok_def dest!: set_values_update)

lemma anchor_graph: "graph_ok key (getState h (fst (anchorCurrentSnapshot h now anchor hs))) \<longleftrightarrow> graph_ok key (getState h hs)"
proof (cases "anchor \<lparr>aq_snapshot_hash_hex = currentSnapshotHashHex h (getState h hs),
      aq_snapshot_version = hg_snapshotVersion (getState h hs), aq_generated_at = now\<rparr>")
  case (Inl e)
  then show ?thesis
    by (simp add: anchorCurrentSnapshot_def anchorBegin_def Let_def getState_current)
next
  case (Inr a)
  have "getState h (fst (anchorCurrentSnapshot h now anchor hs)) = getState h hs\<lparr>hg_anchors :=
      map_set (hg_snapshotVersion (getState h hs)) a (hg_anchors (getState h hs))\<rparr>"
    using Inr by (simp add: anchorCurrentSnapshot_def anchorBegin_def anchorFinish_def Let_def writePersistedState_def getState_current)
  then show ?thesis by (simp add: graph_ok_def)
qed

interpretation requests: graph_contract h key "anchorSnapshot h ad signer sendMemo"
    "\<lambda>hs. synced h hs \<and> graph_ok key (getState h hs)" "event_ok key" "relation_ok key"
    for h key ad and signer :: "'k option" and sendMemo
proof (unfold_locales, goal_cases)
  case (1 hs)
  then show ?case using read_synced[of h hs] by (simp add: getState_current)
next
  case (2 hs inp uuid now)
  then show ?case by (simp add: ingest_synced ingest_ok)
next
  case (3 hs rel now)
  then show ?case by (simp add: upsert_synced upsert_ok)
next
  case (4 hs now at_ms)
  then show ?case by (simp add: solana.anchor_synced anchor_graph)
next
  case (5 body inp)
  then show ?case by (rule parsed_event_ok)
next
  case (6 body rel)
  then show ?case by (rule parsed_relation_ok)
next
  case (7 body wi ty quote md)
  then show ?case using parsed_workflow_ok[OF 7] by (simp add: event_ok_def workflowEvent_def)
next
  case (8 body wi rel)
  then show ?case using parsed_workflow_ok[OF 8(1)] by (auto intro: workflow_relation_ok)
qed

lemma served_ok:
  assumes "served h key (anchorSnapshot h ad signer sendMemo) sv st"
  shows "synced h (sv_hub st) \<and> graph_ok key (getState h (sv_hub st))"
proof (rule requests.keep_served[OF _ _ assms])
  have "getState h hub_init = hydrateStateIfNeeded (\<lambda>_. None) (defaultState (hh_env h))"
    by (simp add: getState_fresh hub_init_def)
  then show "synced h hub_init \<and> graph_ok key (getState h hub_init)"
    by (simp add: init_synced graph_ok_def hydrateStateIfNeeded_def readPersistedState_def defaultState_def map_values_def)
next
  fix hs assume a: "synced h hs \<and> graph_ok key (getState h hs)"
  then show "synced h (restart hs) \<and> graph_ok key (getState h (restart hs))"
    using graph_ok_same[of "getState h hs" "getState h (restart hs)" key] by (simp add: restart_synced) (simp add: synced_def)
qed

subsection \<open>Properties\<close>


definition sample_key :: base58 where
  "sample_key s = (if s = ''W1'' then Some ''W1'' else None)"

definition sample_event_body :: jsval where
  "sample_event_body = JObj [(''event_type'', JStr ''purchase''), (''wallet'', JStr '' W1 ''), (''asset_id'', JStr ''a1'')]"


text \<open>
  C30. A quote request that passes the parser is safe to decide on: the wallet is a public key, the asset a text that
  is not blank, an amount is decimal, every proof is an object and every risk signal has a weight between 0 and
  100; so the signals of a caller never raise a reputation, as negative weights would.
\<close>

theorem quote_requests_are_safe:
  assumes "parseHubDecisionQuoteBody key body = Inr inp"
  shows "(\<exists>w. key w = Some (hq_wallet inp)) \<and> text_ok (hq_asset_id inp)
     \<and> (\<forall>c amount. hq_context inp = Some c \<and> dc_amount_lamports c = Some amount \<longrightarrow> all_digits 10 amount)
     \<and> (\<forall>ps. hq_proofs inp = Some ps \<longrightarrow> list_all js_is_object ps)
     \<and> (\<forall>ss. hq_risk_signals inp = Some ss \<longrightarrow> list_all (\<lambda>s. text_ok (sg_signal s) \<and> 0 \<le> sg_weight s \<and> sg_weight s \<le> 100) ss)
     \<and> rp_score (snd (getReputationSnapshot h now (hq_wallet inp) (hq_risk_signals inp) hs))
         \<le> rp_score (snd (getReputationSnapshot h now (hq_wallet inp) None hs))"
proof -
  have signal: "text_ok (sg_signal s) \<and> 0 \<le> sg_weight s \<and> sg_weight s \<le> 100" if "parseRiskSignal raw i = Inr s" for raw i s
    using that by (auto simp: parseRiskSignal_def Let_def js_simps dest: asString_ok weightOf_ok)
  have signals: "list_all (\<lambda>s. text_ok (sg_signal s) \<and> 0 \<le> sg_weight s \<and> sg_weight s \<le> 100) ss"
    if "parseRiskSignals v = Inr (Some ss)" for v ss
    using that signal by (fastforce simp: parseRiskSignals_def list_all_iff dest: mapItems_ok)
  have amount: "all_digits 10 amount" if "parseContext v = Inr (Some c)" "dc_amount_lamports c = Some amount" for v c amount
    using that by (auto simp: parseContext_def js_simps decimalString_def split: if_splits option.splits)
  have "(\<exists>w. key w = Some (hq_wallet inp)) \<and> text_ok (hq_asset_id inp) \<and> (\<exists>c. parseContext c = Inr (hq_context inp))
      \<and> (\<exists>ps. parseProofs ps = Inr (hq_proofs inp)) \<and> (\<exists>v. parseRiskSignals v = Inr (hq_risk_signals inp))"
    using assms by (auto simp: parseHubDecisionQuoteBody_def js_simps dest: parseWallet_ok asString_ok)
  then obtain v c ps where p: "\<exists>w. key w = Some (hq_wallet inp)" "text_ok (hq_asset_id inp)" "parseContext c = Inr (hq_context inp)"
      "parseProofs ps = Inr (hq_proofs inp)" "parseRiskSignals v = Inr (hq_risk_signals inp)" by blast
  have "rp_score (snd (getReputationSnapshot h now (hq_wallet inp) (hq_risk_signals inp) hs))
      \<le> rp_score (snd (getReputationSnapshot h now (hq_wallet inp) None hs))"
  proof (cases "hq_risk_signals inp")
    case (Some ss)
    then have "\<forall>s \<in> set ss. 0 \<le> sg_weight s" using p(5) signals[of v ss] by (auto simp: list_all_iff)
    then show ?thesis unfolding Some using extra_signals_never_raise_score by blast
  qed simp
  then show ?thesis using p signals[of v] amount[of c] parseProofs_ok[of ps] by simp
qed

definition sample_quote_body :: jsval where
  "sample_quote_body = JObj [(''action_type'', JStr ''purchase''), (''wallet'', JStr ''W1''), (''asset_id'', JStr ''a1''),
     (''risk_signals'', JArr [JObj [(''signal'', JStr ''operator_flag''), (''source'', JStr ''operator''), (''weight'', JNum (Fin 40))]])]"

theorem quote_requests_are_safe_witness:
  "\<exists>inp. parseHubDecisionQuoteBody sample_key sample_quote_body = Inr inp
     \<and> rp_score (snd (getReputationSnapshot sample_host 30 (hq_wallet inp) (hq_risk_signals inp) sample_hub))
         \<le> rp_score (snd (getReputationSnapshot sample_host 30 (hq_wallet inp) None sample_hub))"
proof -
  have "map_sum (\<lambda>_. ()) hq_wallet (parseHubDecisionQuoteBody sample_key sample_quote_body) = Inr ''W1''" by code_simp
  then obtain inp where inp: "parseHubDecisionQuoteBody sample_key sample_quote_body = Inr inp"
    by (cases "parseHubDecisionQuoteBody sample_key sample_quote_body") auto
  then show ?thesis using quote_requests_are_safe[OF inp, of sample_host 30 sample_hub] by blast
qed

text \<open>
  The daily anchor needs its token: without one in the environment the route answers 503, and to a request whose
  header does not carry exactly this token 401, and neither changes anything; otherwise it is the anchor itself.
\<close>

theorem daily_anchor_needs_token:
  "(let r = postDailyAnchor text h now anchor auth hs; token = trim (opt_or (hh_env h ''HUB_DAILY_ANCHOR_TOKEN'') []) in
     (if token = [] then r = (hs, error_response 503 ''HUB_DAILY_ANCHOR_TOKEN is not configured'')
      else if extractBearerToken auth = Some token then r = postAnchor text h now anchor hs
      else r = (hs, error_response 401 ''Unauthorized'')))
   \<and> (extractBearerToken auth = Some token \<longrightarrow> (\<exists>scheme sep. auth = Some (scheme @ sep) \<and> to_lower scheme = ''bearer'' \<and> trim sep = token))"
proof -
  have "extractBearerToken auth = Some token \<longrightarrow> (\<exists>scheme sep. auth = Some (scheme @ sep) \<and> to_lower scheme = ''bearer'' \<and> trim sep = token)"
    unfolding extractBearerToken_def by (auto split: option.split) (metis append_take_drop_id)
  then show ?thesis by (auto simp: postDailyAnchor_def Let_def opt_or_def split: option.splits)
qed

theorem daily_anchor_needs_token_witness:
  "let h = sample_host\<lparr>hh_env := (\<lambda>n. if n = ''HUB_DAILY_ANCHOR_TOKEN'' then Some '' tok '' else None)\<rparr> in
     postDailyAnchor (\<lambda>_. []) h 30 anchor (Some ''bearer  tok'') sample_hub = postAnchor (\<lambda>_. []) h 30 anchor sample_hub
     \<and> postDailyAnchor (\<lambda>_. []) h 30 anchor (Some ''Basic tok'') sample_hub = (sample_hub, error_response 401 ''Unauthorized'')"
proof -
  let ?h = "sample_host\<lparr>hh_env := (\<lambda>n. if n = ''HUB_DAILY_ANCHOR_TOKEN'' then Some '' tok '' else None)\<rparr>"
  have "trim (opt_or (hh_env ?h ''HUB_DAILY_ANCHOR_TOKEN'') []) = ''tok'' \<and> extractBearerToken (Some ''bearer  tok'') = Some ''tok''
      \<and> extractBearerToken (Some ''Basic tok'') = None" by code_simp
  then show ?thesis
    using daily_anchor_needs_token[of "\<lambda>_. []" ?h 30 anchor "Some ''bearer  tok''" sample_hub]
      daily_anchor_needs_token[of "\<lambda>_. []" ?h 30 anchor "Some ''Basic tok''" sample_hub] by (simp add: Let_def)
qed

end
