(* ===== verification/Api_Lab.thy ===== *)
theory Api_Lab
  imports Api_Input Lab_Session
begin

section \<open>The routes of the laboratory\<close>

text \<open>
  app/api/lab/dto.ts and the routes under app/api/lab. \<open>schema_version\<close> and \<open>shadow_mode_enabled\<close>, which every
  answer of these routes has, are constants and left out.
\<close>

subsection \<open>Parsers\<close>

definition asFiniteNumber :: "jsval \<Rightarrow> string \<Rightarrow> jsnum option parsed" where
  "asFiniteNumber inp name =
     (if nullish inp then Inr None
      else rbind (toNumber inp) (\<lambda>v. case finite_num v of
        Some x \<Rightarrow> Inr (Some (Fin x)) | None \<Rightarrow> Inl (Invalid (name @ '' must be a finite number''))))"

definition asOptionalBoolean :: "jsval \<Rightarrow> string \<Rightarrow> bool option parsed" where
  "asOptionalBoolean inp name =
     (if nullish inp then Inr None
      else case inp of JBool b \<Rightarrow> Inr (Some b) | _ \<Rightarrow> Inl (Invalid (name @ '' must be a boolean'')))"

definition LAB_ENTRY_TYPES :: "lab_entry_type list" where
  "LAB_ENTRY_TYPES = [Story, Case_file, Daily_log, Pressure_event]"

definition CONSENT_MODES :: "lab_consent_mode list" where
  "CONSENT_MODES = [Diegetic_opt_in, Summary_only]"

definition SCENARIO_TYPES :: "lab_scenario_type list" where
  "SCENARIO_TYPES = [Narrative, Pressure_sim, Live_shadow]"

definition parseWalletOptional :: "base58 \<Rightarrow> jsval \<Rightarrow> string option parsed" where
  "parseWalletOptional key inp =
     (case asOptionalString inp of
        None \<Rightarrow> Inr None
      | Some wallet \<Rightarrow>
          (case key wallet of
             Some w \<Rightarrow> Inr (Some w) | None \<Rightarrow> Inl (Invalid ''wallet must be a valid Solana public key'')))"

definition parseLabSessionStartBody :: "base58 \<Rightarrow> jsval \<Rightarrow> start_lab_input parsed" where
  "parseLabSessionStartBody key body =
     rbind (asObject body ''body'') (\<lambda>obj.
     rbind (asString (js_prop_opt obj ''entry_type'') ''entry_type'') (\<lambda>t.
     rbind (oneOf entry_type_name LAB_ENTRY_TYPES ''entry_type'' t) (\<lambda>entryType.
     rbind (oneOf consent_name CONSENT_MODES ''consent_mode''
       (opt_or (asOptionalString (js_prop_opt obj ''consent_mode'')) ''diegetic_opt_in'')) (\<lambda>consentMode.
     rbind (asString (js_prop_opt obj ''entry_id'') ''entry_id'') (\<lambda>entryId.
     rbind (parseWalletOptional key (js_prop_opt obj ''wallet'')) (\<lambda>wallet.
       Inr \<lparr>st_entry_type = entryType, st_entry_id = entryId, st_consent_mode = consentMode, st_wallet = wallet\<rparr>))))))"

abbreviation summary_name :: "string \<Rightarrow> string" where
  "summary_name field \<equiv> ''telemetry_summary.'' @ field"

definition parseTelemetrySummary :: "jsval \<Rightarrow> jsnum telemetry parsed" where
  "parseTelemetrySummary inp =
     (let number = (\<lambda>obj k. asFiniteNumber (js_prop_opt obj k) (summary_name k)) in
      rbind (asObject inp ''telemetry_summary'') (\<lambda>obj.
      rbind (toNumber (js_prop_opt obj ''schema_version'')) (\<lambda>schemaVersion.
      rbind (ensure (schemaVersion = Fin 1) (Invalid ''telemetry_summary.schema_version must be 1'')) (\<lambda>_.
      rbind (asString (js_prop_opt obj ''scenario_type'') (summary_name ''scenario_type'')) (\<lambda>t.
      rbind (oneOf scenario_name SCENARIO_TYPES (summary_name ''scenario_type'') t) (\<lambda>scenarioType.
      rbind (optionally (oneOf consent_name CONSENT_MODES (summary_name ''consent_mode''))
        (asOptionalString (js_prop_opt obj ''consent_mode''))) (\<lambda>consentMode.
      rbind (asString (js_prop_opt obj ''session_id'') (summary_name ''session_id'')) (\<lambda>sessionId.
      rbind (number obj ''reading_time_ms'') (\<lambda>readingTime.
      rbind (number obj ''progress_ratio'') (\<lambda>progressRatio.
      rbind (number obj ''scroll_entropy'') (\<lambda>scrollEntropy.
      rbind (number obj ''focus_blur_count'') (\<lambda>blurCount.
      rbind (number obj ''input_latency_ms'') (\<lambda>inputLatency.
      rbind (number obj ''retry_count'') (\<lambda>retryCount.
      rbind (number obj ''queue_wait_ms'') (\<lambda>queueWait.
      rbind (number obj ''countdown_to_click_ms'') (\<lambda>countdown.
      rbind (asOptionalBoolean (js_prop_opt obj ''quiz_correct'') (summary_name ''quiz_correct'')) (\<lambda>quizCorrect.
      rbind (number obj ''quiz_answer_id'') (\<lambda>quizAnswer.
      rbind (number obj ''client_ts'') (\<lambda>clientTs.
        Inr \<lparr>tl_scenario_type = scenarioType, tl_session_id = sessionId,
          tl_story_id = asOptionalString (js_prop_opt obj ''story_id''), tl_case_id = asOptionalString (js_prop_opt obj ''case_id''),
          tl_event_id = asOptionalString (js_prop_opt obj ''event_id''), tl_reading_time_ms = readingTime,
          tl_progress_ratio = progressRatio, tl_scroll_entropy = scrollEntropy, tl_focus_blur_count = blurCount,
          tl_input_latency_ms = inputLatency, tl_retry_count = retryCount, tl_queue_wait_ms = queueWait,
          tl_countdown_to_click_ms = countdown, tl_quiz_correct = quizCorrect, tl_quiz_answer_id = quizAnswer,
          tl_consent_mode = consentMode, tl_client_ts = clientTs,
          tl_telemetry_hash = asOptionalString (js_prop_opt obj ''telemetry_hash'')\<rparr>)))))))))))))))))))"

definition parseLabTelemetryIngestBody :: "jsval \<Rightarrow> (string \<times> jsnum telemetry) parsed" where
  "parseLabTelemetryIngestBody body =
     rbind (asObject body ''body'') (\<lambda>obj.
     rbind (parseTelemetrySummary (js_prop_opt obj ''telemetry_summary'')) (\<lambda>telemetry.
     rbind (asString (js_prop_opt obj ''session_id'') ''session_id'') (\<lambda>sessionId.
     rbind (ensure (tl_session_id telemetry = sessionId) (Invalid ''session_id must match telemetry_summary.session_id'')) (\<lambda>_.
       Inr (sessionId, telemetry)))))"

definition parseLabChallengeSubmitBody :: "jsval \<Rightarrow> lab_submit_input parsed" where
  "parseLabChallengeSubmitBody body =
     rbind (asObject body ''body'') (\<lambda>obj.
     rbind (asString (js_prop_opt obj ''entry_type'') ''entry_type'') (\<lambda>t.
     rbind (oneOf entry_type_name LAB_ENTRY_TYPES ''entry_type'' t) (\<lambda>entryType.
     rbind (if js_truthy (js_prop_opt obj ''telemetry_summary'')
            then rbind (parseTelemetrySummary (js_prop_opt obj ''telemetry_summary'')) (\<lambda>x. Inr (Some x)) else Inr None) (\<lambda>telemetry.
     rbind (asString (js_prop_opt obj ''session_id'') ''session_id'') (\<lambda>sessionId.
     rbind (asString (js_prop_opt obj ''entry_id'') ''entry_id'') (\<lambda>entryId.
       Inr \<lparr>su_session_id = sessionId, su_entry_type = entryType, su_entry_id = entryId,
         su_answer = objectOr (js_prop_opt obj ''answer''), su_telemetry_summary = telemetry\<rparr>))))))"

subsection \<open>Routes\<close>

definition inputFailure :: "(js_error \<Rightarrow> string) \<Rightarrow> int \<Rightarrow> input_error \<Rightarrow> 'a http" where
  "inputFailure text status e =
     (case e of Invalid m \<Rightarrow> error_response 400 m | Broken x \<Rightarrow> error_response status (messageOf text x))"

text \<open>\<open>POST /api/lab/session/start\<close>, \<open>POST /api/lab/telemetry/ingest\<close> and \<open>POST /api/lab/challenge/submit\<close>\<close>

definition postLabStart ::
  "(js_error \<Rightarrow> string) \<Rightarrow> lab_host \<Rightarrow> int \<Rightarrow> string \<Rightarrow> string \<Rightarrow> base58 \<Rightarrow> jsval option \<Rightarrow> lab_state \<Rightarrow>
   lab_state \<times> (lab_session \<times> lab_entry_payload) http" where
  "postLabStart text h ts uuid pseudo key body st =
     (case rbind (readJson body) (parseLabSessionStartBody key) of
        Inl e \<Rightarrow> (st, inputFailure text 400 e)
      | Inr inp \<Rightarrow>
          (case startLabSession h ts uuid pseudo inp st of
             (st', Inl e) \<Rightarrow> (st', error_response 400 (messageOf text e))
           | (st', Inr result) \<Rightarrow> (st', ok_response result)))"

definition postLabIngest ::
  "(js_error \<Rightarrow> string) \<Rightarrow> int \<Rightarrow> jsval option \<Rightarrow> lab_state \<Rightarrow> lab_state \<times> (lab_session \<times> rat telemetry) http" where
  "postLabIngest text now body st =
     (case rbind (readJson body) parseLabTelemetryIngestBody of
        Inl e \<Rightarrow> (st, inputFailure text 400 e)
      | Inr (sessionId, telemetry) \<Rightarrow>
          (case ingestLabTelemetry now sessionId telemetry st of
             (st', Inl e) \<Rightarrow> (st', error_response 400 (messageOf text e))
           | (st', Inr result) \<Rightarrow> (st', ok_response result)))"

definition postLabSubmit ::
  "(js_error \<Rightarrow> string) \<Rightarrow> lab_host \<Rightarrow> hub_host \<Rightarrow> ('k, 'v) oracle_services \<Rightarrow> quote_clock \<Rightarrow> lab_finish_clock \<Rightarrow> jsval option \<Rightarrow>
   lab_state \<Rightarrow> ('k, 'v) hub_services \<Rightarrow> lab_state \<times> ('k, 'v) hub_services \<times> lab_submit_result http" where
  "postLabSubmit text h hh sv qclock fclock body st hub =
     (case rbind (readJson body) parseLabChallengeSubmitBody of
        Inl e \<Rightarrow> (st, hub, inputFailure text 500 e)
      | Inr inp \<Rightarrow>
          (case submitLabChallenge h hh sv qclock fclock inp st hub of
             (st', hub', Inl e) \<Rightarrow> (st', hub', error_response 500 (messageOf text e))
           | (st', hub', Inr result) \<Rightarrow> (st', hub', ok_response result)))"

text \<open>\<open>GET /api/lab/shadow/records\<close>, with the three parameters of the query.\<close>

record records_page =
  pg_count :: nat
  pg_total :: nat
  pg_records :: "lab_shadow_record list"

definition limitOf :: "string option \<Rightarrow> nat" where
  "limitOf v =
     (case finite_num (number_of_string (opt_or v ''50'')) of
        Some x \<Rightarrow> nat (max 1 (min 500 \<lfloor>x\<rfloor>)) | None \<Rightarrow> 50)"

definition matching :: "string option \<Rightarrow> string option \<Rightarrow> lab_shadow_record \<Rightarrow> bool" where
  "matching entryType scenarioType r \<longleftrightarrow>
     (case List.find (\<lambda>t. Some (entry_type_name t) = entryType) LAB_ENTRY_TYPES of None \<Rightarrow> True | Some t \<Rightarrow> sr_entry_type r = t)
     \<and> (case List.find (\<lambda>t. Some (scenario_name t) = scenarioType) SCENARIO_TYPES of None \<Rightarrow> True | Some t \<Rightarrow> sr_scenario_type r = t)"

definition getRecords :: "string option \<Rightarrow> string option \<Rightarrow> string option \<Rightarrow> lab_state \<Rightarrow> records_page" where
  "getRecords limit entryType scenarioType st =
     (let records = filter (matching entryType scenarioType) (listShadowRecords st);
          sorted_records = take (limitOf limit) (sort_key (\<lambda>r. - sr_created_at r) records)
      in \<lparr>pg_count = length sorted_records, pg_total = length records, pg_records = sorted_records\<rparr>)"

subsection \<open>What the parsers let through\<close>

lemma telemetry_text: "parseTelemetrySummary v = Inr t \<Longrightarrow> text_ok (tl_session_id t)"
  by (auto simp: parseTelemetrySummary_def Let_def js_simps dest: asString_ok)

lemma asFiniteNumber_ok: "asFiniteNumber v name = Inr (Some x) \<Longrightarrow> \<exists>r. x = Fin r"
  by (auto simp: asFiniteNumber_def js_simps split: if_splits option.splits)

lemma ingest_body_ok: "parseLabTelemetryIngestBody body = Inr (sid, t) \<Longrightarrow> tl_session_id t = sid \<and> text_ok sid"
  by (auto simp: parseLabTelemetryIngestBody_def js_simps telemetry_text)

lemma ingest_ok_result:
  assumes "ingestLabTelemetry now sid t st = (st', Inr (s, n))"
  shows "\<exists>old. map_get (lb_sessions st) sid = Some old \<and> tl_scenario_type t = ls_scenario_type old
     \<and> n = normalizeTelemetry t (ls_session_id old)"
  using assms
  by (auto simp: ingestLabTelemetry_def getSessionOrThrow_def Let_def normalizeTelemetry_def split: option.splits if_splits)

lemma ingest_failed: "ingestLabTelemetry now sid t st = (st', Inl e) \<Longrightarrow> st' = st"
  by (auto simp: ingestLabTelemetry_def getSessionOrThrow_def Let_def split: option.splits if_splits)

lemma no_such_name: "\<forall>t. v \<noteq> Some (f t) \<Longrightarrow> List.find (\<lambda>t. Some (f t) = v) xs = None"
  by (induction xs) auto

subsection \<open>Properties\<close>

text \<open>
  Telemetry reaches only a session that fits. An accepted request names the session its summary names, a
  session that exists and has the scenario of the summary; what is answered is the normalized summary; and any
  request that is not accepted is answered 400 and changes nothing.
\<close>

theorem ingest_route_checks:
  assumes "postLabIngest text now body st = (st', r)"
  shows "ht_status r = 200 \<and> (\<exists>s n b telemetry old. ht_body r = Inr (s, n) \<and> body = Some b
         \<and> parseLabTelemetryIngestBody b = Inr (tl_session_id telemetry, telemetry)
         \<and> map_get (lb_sessions st) (tl_session_id telemetry) = Some old \<and> tl_scenario_type telemetry = ls_scenario_type old
         \<and> n = normalizeTelemetry telemetry (ls_session_id old) \<and> normal_telemetry n)
     \<or> ht_status r = 400 \<and> st' = st \<and> (\<exists>m. ht_body r = Inl m)"
proof (cases "rbind (readJson body) parseLabTelemetryIngestBody")
  case (Inl e)
  then show ?thesis using assms
    by (auto simp: postLabIngest_def inputFailure_def error_response_def split: input_error.splits)
next
  case (Inr p)
  then obtain b sid t where p: "p = (sid, t)" "body = Some b" "parseLabTelemetryIngestBody b = Inr (sid, t)"
    by (cases p) (auto simp: js_simps readJson_def split: option.splits)
  have own: "tl_session_id t = sid" using ingest_body_ok[OF p(3)] by simp
  obtain st1 x where x: "ingestLabTelemetry now sid t st = (st1, x)" by fastforce
  show ?thesis
  proof (cases x)
    case (Inl e)
    then show ?thesis using assms Inr p x ingest_failed[of now sid t st st1 e]
      by (auto simp: postLabIngest_def error_response_def)
  next
    case R: (Inr y)
    then obtain s n where y: "y = (s, n)" by fastforce
    then show ?thesis using assms Inr p x R own ingest_ok_result[of now sid t st st1 s n] normalize_normal(1)
      by (auto simp: postLabIngest_def ok_response_def)
  qed
qed

definition sample_ingest_body :: jsval where
  "sample_ingest_body = JObj [(''session_id'', JStr ''lab-1''), (''telemetry_summary'', JObj [(''schema_version'', JNum (Fin 1)),
     (''scenario_type'', JStr ''narrative''), (''session_id'', JStr '' lab-1''), (''reading_time_ms'', JStr ''-5'')])]"

theorem ingest_route_checks_witness:
  "\<exists>s n. ht_body (snd (postLabIngest (\<lambda>_. []) 2000 (Some sample_ingest_body) sample_lab)) = Inr (s, n) \<and> normal_telemetry n
     \<and> ht_status (snd (postLabIngest (\<lambda>_. []) 2000 (Some (JObj [])) sample_lab)) = 400"
proof -
  let ?p = "postLabIngest (\<lambda>_. []) 2000 (Some sample_ingest_body) sample_lab"
  let ?q = "postLabIngest (\<lambda>_. []) 2000 (Some (JObj [])) sample_lab"
  have p: "?p = (fst ?p, snd ?p)" "?q = (fst ?q, snd ?q)" by simp_all
  have "ht_status (snd ?p) = 200" "ht_status (snd ?q) = 400" by code_simp+
  then show ?thesis using ingest_route_checks[OF p(1)] by auto
qed

text \<open>
  The records route answers with the newest records first: never more than its limit, which is between 1 and 500,
  and than there are, all of them matching the known filters, each at least as new as any matching record it leaves
  out; a filter whose value is unknown filters nothing.
\<close>

theorem records_newest_first:
  "let page = getRecords limit entryType scenarioType st; all = filter (matching entryType scenarioType) (listShadowRecords st) in
     pg_total page = length all \<and> pg_count page = min (limitOf limit) (length all) \<and> length (pg_records page) = pg_count page
     \<and> limitOf limit \<in> {1..500}
     \<and> sorted_wrt (\<lambda>a b. sr_created_at b \<le> sr_created_at a) (pg_records page)
     \<and> (\<exists>rest. mset all = mset (pg_records page @ rest)
          \<and> (\<forall>a \<in> set (pg_records page). \<forall>b \<in> set rest. sr_created_at b \<le> sr_created_at a))
     \<and> ((\<forall>t. entryType \<noteq> Some (entry_type_name t)) \<longrightarrow> (\<forall>t. scenarioType \<noteq> Some (scenario_name t)) \<longrightarrow> all = listShadowRecords st)"
proof -
  define all where "all = filter (matching entryType scenarioType) (listShadowRecords st)"
  define s where "s = sort_key (\<lambda>r. - sr_created_at r) all"
  define n where "n = limitOf limit"
  have page: "getRecords limit entryType scenarioType st = \<lparr>pg_count = length (take n s), pg_total = length all, pg_records = take n s\<rparr>"
    by (simp add: getRecords_def Let_def all_def s_def n_def)
  have n: "n \<in> {1..500}" by (auto simp: n_def limitOf_def split: option.split)
  have "sorted (map (\<lambda>r. - sr_created_at r) s)" unfolding s_def by (rule sorted_sort_key)
  then have desc: "sorted_wrt (\<lambda>a b. sr_created_at b \<le> sr_created_at a) s" by (simp add: sorted_map)
  then have "sorted_wrt (\<lambda>a b. sr_created_at b \<le> sr_created_at a) (take n s @ drop n s)" by simp
  then have d: "sorted_wrt (\<lambda>a b. sr_created_at b \<le> sr_created_at a) (take n s)"
    "\<forall>a \<in> set (take n s). \<forall>b \<in> set (drop n s). sr_created_at b \<le> sr_created_at a"
    unfolding sorted_wrt_append by blast+
  have "mset all = mset (take n s @ drop n s)" unfolding append_take_drop_id by (simp add: s_def)
  then have rest: "\<exists>rest. mset all = mset (take n s @ rest) \<and> (\<forall>a \<in> set (take n s). \<forall>b \<in> set rest. sr_created_at b \<le> sr_created_at a)"
    using d(2) by blast
  have "all = listShadowRecords st" if "\<forall>t. entryType \<noteq> Some (entry_type_name t)" "\<forall>t. scenarioType \<noteq> Some (scenario_name t)"
    using that by (simp add: all_def matching_def no_such_name)
  moreover have "length s = length all" by (simp add: s_def)
  ultimately show ?thesis using n d(1) rest by (simp add: page Let_def min.commute flip: all_def n_def)
qed

definition sample_records :: lab_state where
  "sample_records =
     (case submitBegin sample_lab_host (sample_submit sample_answer None) sample_lab of
        (st, Inl e) \<Rightarrow> st
      | (st, Inr pn) \<Rightarrow> fst (submitFinish (sample_finish\<lparr>lf_created_at := 3001\<rparr>) pn None (fst (submitFinish sample_finish pn None st))))"

theorem records_newest_first_witness:
  "pg_count (getRecords (Some ''1'') (Some ''unknown'') None sample_records) = 1
   \<and> pg_total (getRecords (Some ''1'') (Some ''unknown'') None sample_records) = 2
   \<and> map sr_created_at (pg_records (getRecords (Some ''1'') (Some ''unknown'') None sample_records)) = [3001]"
proof -
  let ?p = "getRecords (Some ''1'') (Some ''unknown'') None sample_records"
  have "map sr_created_at (listShadowRecords sample_records) = [2001, 3001] \<and> limitOf (Some ''1'') = 1
      \<and> map sr_created_at (pg_records ?p) = [3001]" by code_simp
  then have "length (listShadowRecords sample_records) = 2" "limitOf (Some ''1'') = 1" "map sr_created_at (pg_records ?p) = [3001]"
    by (auto dest: arg_cong[where f = length])
  moreover have "\<forall>t. Some ''unknown'' \<noteq> Some (entry_type_name t)" by (intro allI, case_tac t) simp_all
  ultimately show ?thesis using records_newest_first[of "Some ''1''" "Some ''unknown''" None sample_records]
    by (simp add: Let_def)
qed

end
