(* ===== verification/Api_Sign.thy ===== *)
theory Api_Sign
  imports Api_Input Shield_Route
begin

section \<open>The other routes that use the oracle's key\<close>

text \<open>
  app/api/sign-alpha/route.ts, app/api/demo/quote-fixture/route.ts, app/api/oracle-pubkey/route.ts and
  app/api/shield-config/route.ts with the two getters of the oracle's handler.ts. The first two sign with the
  key of the oracle, the last two show it. \<open>verifyProof\<close> of the Reclaim SDK is a parameter, \<open>None\<close> where its promise is
  rejected; of the oracle's services the key, the signature, \<open>new PublicKey\<close>, SHA-256 and \<open>JSON.stringify\<close> are used.
\<close>

subsection \<open>Tier authorizations (sign-alpha)\<close>

text \<open>\<open>v && typeof v === 'object'\<close>\<close>

definition typeofObject :: "jsval \<Rightarrow> bool" where
  "typeofObject v = (case v of JObj _ \<Rightarrow> True | JArr _ \<Rightarrow> True | _ \<Rightarrow> False)"

definition isProofCandidate :: "jsval \<Rightarrow> bool" where
  "isProofCandidate inp \<longleftrightarrow> typeofObject inp \<and> typeofObject (js_prop_opt inp ''claimData'')
     \<and> (case js_prop_opt inp ''signatures'' of JArr sigs \<Rightarrow> sigs \<noteq> [] | _ \<Rightarrow> False)"

definition normalizeProofs :: "jsval \<Rightarrow> jsval list" where
  "normalizeProofs inp =
     (if \<not> js_truthy inp then [] else filter isProofCandidate (case inp of JArr xs \<Rightarrow> xs | _ \<Rightarrow> [inp]))"

definition extractProofOwners :: "jsval list \<Rightarrow> string list" where
  "extractProofOwners proofs =
     filter (\<lambda>owner. owner \<noteq> []) (List.map_filter (\<lambda>proof. js_string (js_prop_opt (js_prop_opt proof ''claimData'') ''owner'')) proofs)"

record tier_resolution =
  tr_tierLevel :: int
  tr_error :: "(string \<times> int) option"

definition resolveTierLevel :: "env \<Rightarrow> (jsval list \<Rightarrow> bool option) \<Rightarrow> string \<Rightarrow> jsval \<Rightarrow> tier_resolution" where
  "resolveTierLevel env verifyProof wallet proof =
     (let proofs = normalizeProofs proof;
          allowInsecureDevProof = (env_is env ''ALLOW_INSECURE_DEV_PROOF'' ''1'' \<and> \<not> env_is env ''NODE_ENV'' ''production'');
          refused = (\<lambda>e. \<lparr>tr_tierLevel = 2, tr_error = (if allowInsecureDevProof then None else Some e)\<rparr>);
          verified = opt_or (verifyProof proofs) False;
          owners = extractProofOwners proofs in
      if proofs = [] then \<lparr>tr_tierLevel = 2, tr_error = None\<rparr>
      else if \<not> verified then refused (''Invalid Reclaim proof signature'', 401)
      else if \<not> (owners \<noteq> [] \<and> list_all (\<lambda>owner. owner = wallet) owners)
        then refused (''Proof owner does not match wallet'', 403)
      else \<lparr>tr_tierLevel = 1, tr_error = None\<rparr>)"

text \<open>
  \<open>[user_wallet 32][event_id 32][tier_level 1][expiry 8][nonce 8]\<close>: the copies stay within the buffer; the two
  writes of 64 bits throw a RangeError out of range.
\<close>

definition alphaMessage :: "bytes \<Rightarrow> bytes \<Rightarrow> int \<Rightarrow> int \<Rightarrow> int \<Rightarrow> bytes result" where
  "alphaMessage user event tierLevel expiry nonceVal =
     rbind (set_bytes (replicate 81 0) 0 (take 32 user)) (\<lambda>m.
     rbind (set_bytes m 32 (take 32 event)) (\<lambda>m.
     rbind (set_u8 m 64 tierLevel) (\<lambda>m.
     rbind (ensure (i64_range expiry) RangeError) (\<lambda>_.
     rbind (set_bytes m 65 (encodeI64LE expiry)) (\<lambda>m.
     rbind (ensure (u64_range nonceVal) RangeError) (\<lambda>_.
       set_bytes m 73 (encodeU64LE nonceVal)))))))"

record alpha_authorization =
  aa_tierLevel :: int
  aa_eventId :: string
  aa_expiry :: int
  aa_nonce :: string
  aa_signature :: bytes
  aa_oraclePubkey :: string
  aa_messageHex :: string

definition DEFAULT_EVENT :: string where
  "DEFAULT_EVENT = ''7cVF3X3PvNLTNHd9EqvWHsrtHkeJXwRzBcRuoHoTThVT''"

text \<open>The readings are \<open>Date.now()\<close> twice and \<open>Math.random()\<close>; the state is the key of the module.\<close>

definition signAlpha ::
  "env \<Rightarrow> (jsval list \<Rightarrow> bool option) \<Rightarrow> ('k, 'v) oracle_services \<Rightarrow> readings \<Rightarrow> jsval \<Rightarrow> 'k option \<Rightarrow>
   'k option \<times> alpha_authorization http result" where
  "signAlpha env verifyProof sv r body oracle =
     (case js_prop body ''wallet'' of
        Inl e \<Rightarrow> (oracle, Inl e)
      | Inr wallet \<Rightarrow>
        if \<not> js_truthy wallet then (oracle, Inr (error_response 400 ''Missing wallet''))
        else
          (let eventId = js_prop_opt body ''eventId'' in
           case rbind (sv_pubkey sv wallet) (\<lambda>u. rbind (sv_pubkey sv (if js_truthy eventId then eventId else JStr DEFAULT_EVENT)) (\<lambda>e. Inr (u, e))) of
             Inl e \<Rightarrow> (oracle, Inl e)
           | Inr ((userText, user), (eventText, event)) \<Rightarrow>
             (let tier = resolveTierLevel env verifyProof userText (js_prop_opt body ''proof'');
                  expiry = rd_now1 r div 1000 + 60;
                  nonceVal = rd_now2 r * 1000 + \<lfloor>fl (rd_random r * 1000)\<rfloor> in
              case tr_error tier of
                Some (message, status) \<Rightarrow> (oracle, Inr (error_response status message))
              | None \<Rightarrow>
                (case alphaMessage user event (tr_tierLevel tier) expiry nonceVal of
                   Inl e \<Rightarrow> (oracle, Inl e)
                 | Inr message \<Rightarrow>
                   (case sv_keypair sv oracle of
                      (oracle', Inl e) \<Rightarrow> (oracle', Inl e)
                    | (oracle', Inr k) \<Rightarrow>
                        (oracle', Inr (ok_response
                          \<lparr>aa_tierLevel = tr_tierLevel tier, aa_eventId = eventText, aa_expiry = expiry, aa_nonce = show_int nonceVal,
                           aa_signature = sv_sign sv message k, aa_oraclePubkey = sv_key_base58 sv k,
                           aa_messageHex = to_hex message\<rparr>)))))))"

definition postSignAlpha ::
  "env \<Rightarrow> (jsval list \<Rightarrow> bool option) \<Rightarrow> ('k, 'v) oracle_services \<Rightarrow> readings \<Rightarrow> jsval option \<Rightarrow> 'k option \<Rightarrow>
   'k option \<times> alpha_authorization http" where
  "postSignAlpha env verifyProof sv r body oracle =
     (case body of
        None \<Rightarrow> (oracle, error_response 500 ''Signing failed'')
      | Some b \<Rightarrow>
          (case signAlpha env verifyProof sv r b oracle of
             (oracle', Inl _) \<Rightarrow> (oracle', error_response 500 ''Signing failed'')
           | (oracle', Inr response) \<Rightarrow> (oracle', response)))"

subsection \<open>The demo fixture\<close>

definition fixtureWallet :: "jsval \<Rightarrow> string option" where
  "fixtureWallet body =
     (case js_prop_opt body ''wallet'' of JStr s \<Rightarrow> if s \<noteq> [] then Some s else None | _ \<Rightarrow> None)"

definition parseBigIntField :: "jsval \<Rightarrow> string \<Rightarrow> int \<Rightarrow> int result" where
  "parseBigIntField body key fallback =
     (case js_prop_opt body key of
        JStr s \<Rightarrow> if s \<noteq> [] then bigint_of_string s else Inr fallback
      | JNum x \<Rightarrow> Inr (if finite_num x = None then fallback else num_trunc x)
      | _ \<Rightarrow> Inr fallback)"

definition fixturePayload :: "('k, 'v) oracle_services \<Rightarrow> readings \<Rightarrow> jsval \<Rightarrow> bytes \<Rightarrow> payload_raw result" where
  "fixturePayload sv r body user =
     (let now = rd_now1 r div 1000 in
      rbind (parseBigIntField body ''initial_price'' DEFAULT_INITIAL_PRICE) (\<lambda>price.
      rbind (parseBigIntField body ''sales_velocity_bps'' DEFAULT_SALES_VELOCITY_BPS) (\<lambda>velocity.
      rbind (parseBigIntField body ''time_elapsed'' DEFAULT_TIME_ELAPSED) (\<lambda>elapsed.
        Inr \<lparr>policy_version = DEFAULT_POLICY_VERSION, user_pubkey = user, initial_price = price,
          sales_velocity_bps = velocity, time_elapsed = elapsed, dignity_score = 25, adapter_mask = 0,
          user_mode = modeToCode Guest, zk_provider = DEFAULT_ZK_PROVIDER,
          zk_proof_hash = sv_sha256 sv (sv_json_stringify sv (JArr [])), scoring_model_hash = sv_model_hash sv,
          attestation_expiry = now + PROOF_TTL_SECONDS, nonce = now * 1000 + \<lfloor>fl (rd_random r * 1000)\<rfloor>\<rparr>))))"

record fixture_quote =
  fq_dignity_score :: int
  fq_payload :: payload_view
  fq_payload_hex :: string
  fq_oracle_signature_hex :: string
  fq_oracle_pubkey :: string
  fq_scoring_model_hash_hex :: string

text \<open>The error of a failure has a text and a reason.\<close>

definition fixtureFailure :: "(js_error \<Rightarrow> string) \<Rightarrow> js_error \<Rightarrow> int \<times> string \<times> string" where
  "fixtureFailure text e =
     (let msg = messageOf text e in
      if str_includes msg ''Oracle'' \<or> str_includes msg ''ORACLE'' \<or> str_includes msg ''key''
      then (503, msg, ''oracle_config_required'') else (500, msg, ''internal_error''))"

definition quoteFixture ::
  "('k, 'v) oracle_services \<Rightarrow> readings \<Rightarrow> string \<Rightarrow> jsval \<Rightarrow> 'k option \<Rightarrow> 'k option \<times> fixture_quote result" where
  "quoteFixture sv r wallet body oracle =
     (case rbind (sv_pubkey sv (JStr wallet)) (\<lambda>(_, user).
           rbind (fixturePayload sv r body user) (\<lambda>payload.
           rbind (serializeShieldPayloadV0 payload) (\<lambda>bytes. Inr (payload, bytes)))) of
        Inl e \<Rightarrow> (oracle, Inl e)
      | Inr (payload, payloadBytes) \<Rightarrow>
        (case sv_keypair sv oracle of
           (oracle', Inl e) \<Rightarrow> (oracle', Inl e)
         | (oracle', Inr k) \<Rightarrow>
             (oracle', Inr \<lparr>fq_dignity_score = 25, fq_payload = viewPayload JNull wallet payload,
                fq_payload_hex = to_hex payloadBytes, fq_oracle_signature_hex = to_hex (sv_sign sv payloadBytes k),
                fq_oracle_pubkey = sv_key_base58 sv k, fq_scoring_model_hash_hex = to_hex (sv_model_hash sv)\<rparr>)))"

text \<open>The response: the status, and either the error with its reason or the quote.\<close>

definition postFixture ::
  "(js_error \<Rightarrow> string) \<Rightarrow> ('k, 'v) oracle_services \<Rightarrow> readings \<Rightarrow> jsval option \<Rightarrow> 'k option \<Rightarrow>
   'k option \<times> int \<times> (string \<times> string + fixture_quote)" where
  "postFixture text sv r body oracle =
     (let failed = (\<lambda>e. case fixtureFailure text e of (status, msg, reason) \<Rightarrow> (status, Inl (msg, reason))) in
      case body of
        None \<Rightarrow> (oracle, failed SyntaxError)
      | Some b \<Rightarrow>
        (case fixtureWallet b of
           None \<Rightarrow> (oracle, 400, Inl (''Missing wallet'', ''missing_wallet''))
         | Some wallet \<Rightarrow>
           (case quoteFixture sv r wallet b oracle of
              (oracle', Inl e) \<Rightarrow> (oracle', failed e)
            | (oracle', Inr quote) \<Rightarrow> (oracle', 200, Inr quote))))"

subsection \<open>Showing the key\<close>

definition getOraclePubkeyPayload :: "('k, 'v) oracle_services \<Rightarrow> 'k option \<Rightarrow> 'k option \<times> string result" where
  "getOraclePubkeyPayload sv oracle = map_prod id (map_sum id (sv_key_base58 sv)) (sv_keypair sv oracle)"

definition getShieldRuntimeConfigPayload :: "('k, 'v) oracle_services \<Rightarrow> 'k option \<Rightarrow> 'k option \<times> (string \<times> string) result" where
  "getShieldRuntimeConfigPayload sv oracle =
     map_prod id (map_sum id (\<lambda>k. (sv_key_base58 sv k, to_hex (sv_model_hash sv)))) (sv_keypair sv oracle)"

definition keyResponse :: "(js_error \<Rightarrow> string) \<Rightarrow> 'a result \<Rightarrow> 'a http" where
  "keyResponse text r =
     (case r of
        Inl e \<Rightarrow> error_response (if str_includes (messageOf text e) ''Static Oracle key required'' then 503 else 500) (messageOf text e)
      | Inr x \<Rightarrow> ok_response x)"

definition getOraclePubkey :: "(js_error \<Rightarrow> string) \<Rightarrow> ('k, 'v) oracle_services \<Rightarrow> 'k option \<Rightarrow> 'k option \<times> string http" where
  "getOraclePubkey text sv oracle = map_prod id (keyResponse text) (getOraclePubkeyPayload sv oracle)"

definition getShieldConfig :: "(js_error \<Rightarrow> string) \<Rightarrow> ('k, 'v) oracle_services \<Rightarrow> 'k option \<Rightarrow> 'k option \<times> (string \<times> string) http" where
  "getShieldConfig text sv oracle = map_prod id (keyResponse text) (getShieldRuntimeConfigPayload sv oracle)"

subsection \<open>The signed messages\<close>

lemma alpha_layout:
  assumes "alphaMessage user event tier expiry nonceVal = Inr m" "length user = 32" "length event = 32"
  shows "m = user @ event @ [word_of_int tier] @ encodeI64LE expiry @ encodeU64LE nonceVal"
    and "i64_range expiry" "u64_range nonceVal"
proof -
  have r: "i64_range expiry" "u64_range nonceVal" using assms(1) by (auto simp: alphaMessage_def js_simps)
  then show "i64_range expiry" "u64_range nonceVal" .
  have full: "take 32 user = user" "take 32 event = event" using assms(2,3) by simp_all
  have 1: "set_bytes (replicate 81 0) 0 user = Inr (user @ replicate 49 0)"
    using assms(2) by (simp add: set_bytes_def)
  have 2: "set_bytes (user @ replicate 49 0) 32 event = Inr ((user @ event) @ replicate 17 0)"
    using assms(2,3) by (simp add: set_bytes_next)
  have 3: "set_u8 ((user @ event) @ replicate 17 0) 64 tier = Inr ((user @ event @ [word_of_int tier]) @ replicate 16 0)"
    using assms(2,3) by (subst set_u8_next) simp_all
  have 4: "set_bytes ((user @ event @ [word_of_int tier]) @ replicate 16 0) 65 (encodeI64LE expiry)
      = Inr ((user @ event @ [word_of_int tier] @ encodeI64LE expiry) @ replicate 8 0)"
    using assms(2,3) by (subst set_bytes_next) simp_all
  have 5: "set_bytes ((user @ event @ [word_of_int tier] @ encodeI64LE expiry) @ replicate 8 0) 73 (encodeU64LE nonceVal)
      = Inr (user @ event @ [word_of_int tier] @ encodeI64LE expiry @ encodeU64LE nonceVal)"
    using assms(2,3) by (subst set_bytes_next) simp_all
  have "alphaMessage user event tier expiry nonceVal
      = Inr (user @ event @ [word_of_int tier] @ encodeI64LE expiry @ encodeU64LE nonceVal)"
    unfolding alphaMessage_def full 1 rbind.simps 2 3 using r by (simp only: ensure_def if_True rbind.simps 4 5)
  then show "m = user @ event @ [word_of_int tier] @ encodeI64LE expiry @ encodeU64LE nonceVal" using assms(1) by simp
qed

lemma tier_one:
  "tr_tierLevel (resolveTierLevel env verifyProof wallet proof) = 1 \<Longrightarrow>
     verifyProof (normalizeProofs proof) = Some True \<and> normalizeProofs proof \<noteq> []
     \<and> extractProofOwners (normalizeProofs proof) \<noteq> [] \<and> (\<forall>owner \<in> set (extractProofOwners (normalizeProofs proof)). owner = wallet)"
  by (auto simp: resolveTierLevel_def Let_def list_all_iff opt_or_def split: if_splits option.splits)

lemma tier_levels: "tr_tierLevel (resolveTierLevel env verifyProof wallet proof) \<in> {1, 2}"
  by (simp add: resolveTierLevel_def Let_def)

text \<open>The parts an authorization was made of.\<close>

lemma alpha_issued:
  assumes "postSignAlpha env verifyProof sv r (Some body) oracle = (oracle', \<lparr>ht_status = 200, ht_body = Inr a\<rparr>)"
  obtains walletText user event k m num where "sv_pubkey sv (js_prop_opt body ''wallet'') = Inr (walletText, user)"
    "sv_pubkey sv (if js_truthy (js_prop_opt body ''eventId'') then js_prop_opt body ''eventId'' else JStr DEFAULT_EVENT) = Inr (aa_eventId a, event)"
    "sv_keypair sv oracle = (oracle', Inr k)" "alphaMessage user event (aa_tierLevel a) (aa_expiry a) num = Inr m"
    "aa_tierLevel a = tr_tierLevel (resolveTierLevel env verifyProof walletText (js_prop_opt body ''proof''))"
    "aa_nonce a = show_int num" "aa_signature a = sv_sign sv m k" "aa_messageHex a = to_hex m" "aa_oraclePubkey a = sv_key_base58 sv k"
proof -
  define expiry where "expiry = rd_now1 r div 1000 + 60"
  define num where "num = rd_now2 r * 1000 + \<lfloor>fl (rd_random r * 1000)\<rfloor>"
  define ev where "ev = (if js_truthy (js_prop_opt body ''eventId'') then js_prop_opt body ''eventId'' else JStr DEFAULT_EVENT)"
  have wallet: "js_prop body ''wallet'' = Inr w \<Longrightarrow> w = js_prop_opt body ''wallet''" for w
    by (auto simp: js_prop_def js_prop_opt_def split: if_splits)
  show ?thesis
    using assms that[of _ _ _ _ num, folded ev_def]
    by (auto simp: postSignAlpha_def signAlpha_def error_response_def ok_response_def Let_def js_simps dest!: wallet
        simp flip: expiry_def num_def ev_def split: sum.splits if_splits option.splits prod.splits)
qed

lemma alpha_parts:
  assumes "alphaMessage user event t expiry num = Inr m" "length user = 32" "length event = 32" "t \<in> {1, 2}"
  shows "length m = 81" "Byte_Codec.slice m 0 32 = user" "Byte_Codec.slice m 32 64 = event" "byte_at m 64 = t"
    "readI64LE m 65 = expiry" "readU64LE m 73 = num"
proof -
  note lay = alpha_layout[OF assms(1-3)] and len = assms(2,3)
  have "readI64LE ((user @ event @ [word_of_int t]) @ encodeI64LE expiry @ encodeU64LE num) 65 = expiry"
    using lay(2) len by (intro i64.get_at) (simp_all add: i64_range_def)
  moreover have "readU64LE ((user @ event @ [word_of_int t] @ encodeI64LE expiry) @ encodeU64LE num @ []) 73 = num"
    using lay(3) len by (intro u64.get_at) (simp_all add: u64_range_def)
  ultimately show "readI64LE m 65 = expiry" "readU64LE m 73 = num" by (simp_all add: lay(1))
  show "length m = 81" "Byte_Codec.slice m 0 32 = user" "Byte_Codec.slice m 32 64 = event" "byte_at m 64 = t"
    using len assms(4) by (auto simp: lay(1) slice_def byte_at_def nth_append uint_word_of_int)
qed

subsection \<open>Properties\<close>

text \<open>
  An authorization is what it says: the signed bytes are wallet, event, tier, expiry and nonce, each of which
  reads back from its place; the wallet and the event are those of the request; and tier 1 is signed only when
  the proofs verify and every owner they name, and at least one, is the wallet. Without proofs anyone gets tier 2.
\<close>

theorem alpha_authorization_is_bound:
  assumes "postSignAlpha env verifyProof sv r (Some body) oracle = (oracle', \<lparr>ht_status = 200, ht_body = Inr a\<rparr>)"
    and "\<forall>v text bytes. sv_pubkey sv v = Inr (text, bytes) \<longrightarrow> length bytes = 32"
  shows "\<exists>walletText user event k m. sv_pubkey sv (js_prop_opt body ''wallet'') = Inr (walletText, user)
     \<and> (\<exists>v. sv_pubkey sv v = Inr (aa_eventId a, event) \<and> v \<in> {js_prop_opt body ''eventId'', JStr DEFAULT_EVENT})
     \<and> sv_keypair sv oracle = (oracle', Inr k) \<and> aa_signature a = sv_sign sv m k \<and> aa_messageHex a = to_hex m
     \<and> length m = 81 \<and> slice m 0 32 = user \<and> slice m 32 64 = event \<and> byte_at m 64 = aa_tierLevel a
     \<and> readI64LE m 65 = aa_expiry a \<and> show_int (readU64LE m 73) = aa_nonce a
     \<and> aa_tierLevel a \<in> {1, 2}
     \<and> (aa_tierLevel a = 1 \<longrightarrow> (let proofs = normalizeProofs (js_prop_opt body ''proof'') in
          verifyProof proofs = Some True \<and> extractProofOwners proofs \<noteq> [] \<and> (\<forall>owner \<in> set (extractProofOwners proofs). owner = walletText)))"
proof -
  define ev where "ev = (if js_truthy (js_prop_opt body ''eventId'') then js_prop_opt body ''eventId'' else JStr DEFAULT_EVENT)"
  obtain walletText user event k m num where p: "sv_pubkey sv (js_prop_opt body ''wallet'') = Inr (walletText, user)"
      "sv_pubkey sv ev = Inr (aa_eventId a, event)" "sv_keypair sv oracle = (oracle', Inr k)"
      "alphaMessage user event (aa_tierLevel a) (aa_expiry a) num = Inr m"
      "aa_tierLevel a = tr_tierLevel (resolveTierLevel env verifyProof walletText (js_prop_opt body ''proof''))" "aa_nonce a = show_int num"
      "aa_signature a = sv_sign sv m k" "aa_messageHex a = to_hex m"
    by (rule alpha_issued[OF assms(1), folded ev_def]) blast
  note len = assms(2)[rule_format, OF p(1)] assms(2)[rule_format, OF p(2)]
  have t: "aa_tierLevel a \<in> {1, 2}" unfolding p(5) by (rule tier_levels)
  note parts = alpha_parts[OF p(4) len t]
  have "ev \<in> {js_prop_opt body ''eventId'', JStr DEFAULT_EVENT}" by (simp add: ev_def)
  moreover have "aa_tierLevel a = 1 \<longrightarrow> (let proofs = normalizeProofs (js_prop_opt body ''proof'') in
      verifyProof proofs = Some True \<and> extractProofOwners proofs \<noteq> [] \<and> (\<forall>owner \<in> set (extractProofOwners proofs). owner = walletText))"
    using tier_one unfolding p(5) Let_def by blast
  ultimately show ?thesis using p parts t
    by (intro exI[of _ walletText] exI[of _ user] exI[of _ event] exI[of _ k] exI[of _ m]) (simp, blast)
qed

definition sample_alpha :: jsval where
  "sample_alpha = JObj [(''wallet'', JStr ''W1''), (''eventId'', JStr ''W1''), (''proof'', JObj
     [(''claimData'', JObj [(''owner'', JStr ''W1'')]), (''signatures'', JArr [JStr ''s''])])]"

theorem alpha_authorization_is_bound_witness:
  "\<exists>a m. postSignAlpha (\<lambda>_. None) (\<lambda>_. Some True) (sample_services 0) (sample_readings 5000) (Some sample_alpha) None
       = (Some 5, \<lparr>ht_status = 200, ht_body = Inr a\<rparr>)
     \<and> aa_tierLevel a = 1 \<and> aa_messageHex a = to_hex m \<and> Byte_Codec.slice m 0 32 = replicate 32 7 \<and> readI64LE m 65 = 65"
proof -
  let ?h = "postSignAlpha (\<lambda>_. None) (\<lambda>_. Some True) (sample_services 0) (sample_readings 5000) (Some sample_alpha) None"
  have c: "fst ?h = Some 5 \<and> ht_status (snd ?h) = 200 \<and> (case ht_body (snd ?h) of Inr a \<Rightarrow> aa_tierLevel a = 1 \<and> aa_expiry a = 65 | _ \<Rightarrow> False)"
    by code_simp
  then obtain a where a: "ht_body (snd ?h) = Inr a" "aa_tierLevel a = 1" "aa_expiry a = 65" by (auto split: sum.splits)
  have h: "?h = (Some 5, \<lparr>ht_status = 200, ht_body = Inr a\<rparr>)" using c a(1) by (cases ?h) (simp add: http.equality)
  have len: "\<forall>v t bytes. sv_pubkey (sample_services 0) v = Inr (t, bytes) \<longrightarrow> length bytes = 32"
    by (auto simp: sample_services_def split: if_splits)
  have w: "sv_pubkey (sample_services 0) (js_prop_opt sample_alpha ''wallet'') = Inr (''W1'', replicate 32 7)" by code_simp
  from alpha_authorization_is_bound[OF h len, unfolded w] a h show ?thesis by auto
qed

text \<open>
  What the demo route signs is a guest's quote for the caller's wallet and nothing more: score 25, no adapter,
  no proof, five minutes; price, velocity and time are the caller's where it gives them. No freeze and no limit is
  among the arguments of the route: it signs with the oracle's key where the route of the oracle refuses.
\<close>

theorem fixture_signs_guest_quotes:
  assumes "postFixture text sv r (Some body) oracle = (oracle', status, Inr q)"
  shows "\<exists>wallet t user p bytes k. status = 200 \<and> fixtureWallet body = Some wallet \<and> sv_pubkey sv (JStr wallet) = Inr (t, user)
     \<and> serializeShieldPayloadV0 p = Inr bytes \<and> sv_keypair sv oracle = (oracle', Inr k)
     \<and> fq_payload_hex q = to_hex bytes \<and> fq_oracle_signature_hex q = to_hex (sv_sign sv bytes k)
     \<and> user_pubkey p = user \<and> dignity_score p = 25 \<and> adapter_mask p = 0 \<and> user_mode p = modeToCode Guest
     \<and> attestation_expiry p = rd_now1 r div 1000 + 300
     \<and> parseBigIntField body ''initial_price'' DEFAULT_INITIAL_PRICE = Inr (initial_price p)"
proof -
  obtain wallet t user p bytes k where w: "status = 200" "fixtureWallet body = Some wallet" "sv_pubkey sv (JStr wallet) = Inr (t, user)"
      and p: "fixturePayload sv r body user = Inr p" and b: "serializeShieldPayloadV0 p = Inr bytes" "sv_keypair sv oracle = (oracle', Inr k)"
      "fq_payload_hex q = to_hex bytes" "fq_oracle_signature_hex q = to_hex (sv_sign sv bytes k)"
    using assms
    by (auto simp: postFixture_def quoteFixture_def Let_def js_simps split: option.splits sum.splits prod.splits)
  have "user_pubkey p = user \<and> dignity_score p = 25 \<and> adapter_mask p = 0 \<and> user_mode p = modeToCode Guest
     \<and> attestation_expiry p = rd_now1 r div 1000 + 300
     \<and> parseBigIntField body ''initial_price'' DEFAULT_INITIAL_PRICE = Inr (initial_price p)"
    using p by (auto simp: fixturePayload_def Let_def PROOF_TTL_SECONDS_def js_simps)
  with w b show ?thesis by blast
qed

theorem fixture_signs_guest_quotes_witness:
  "\<exists>q p bytes. postFixture (\<lambda>_. []) (sample_services 0) (sample_readings 5000) (Some (JObj [(''wallet'', JStr ''W1''), (''initial_price'', JStr ''7'')])) None
       = (Some 5, 200, Inr q)
     \<and> serializeShieldPayloadV0 p = Inr bytes \<and> fq_payload_hex q = to_hex bytes \<and> initial_price p = 7 \<and> dignity_score p = 25"
proof -
  let ?b = "JObj [(''wallet'', JStr ''W1''), (''initial_price'', JStr ''7'')]"
  let ?h = "postFixture (\<lambda>_. []) (sample_services 0) (sample_readings 5000) (Some ?b) None"
  have "fst ?h = Some 5 \<and> fst (snd ?h) = 200 \<and> (case snd (snd ?h) of Inr _ \<Rightarrow> True | _ \<Rightarrow> False)" by code_simp
  then obtain q where h: "?h = (Some 5, 200, Inr q)" by (cases ?h) (auto split: sum.splits)
  have b: "parseBigIntField ?b ''initial_price'' DEFAULT_INITIAL_PRICE = Inr 7" by code_simp
  from fixture_signs_guest_quotes[OF h, unfolded b] h show ?thesis by auto
qed

text \<open>
  The two routes that show the key answer 503 in the one case of a static key that is required and not
  there, without making up a key; in every other case both answer 200 with one key, which the process then keeps.
\<close>

theorem key_routes_show_one_key:
  assumes "sv_keypair sv = oracleKeypair env read_file parse_key fresh"
  shows "if oracle = None \<and> loadedKey env read_file parse_key = None \<and> requireStaticKey env
     then fst (getOraclePubkey text sv oracle) = None \<and> ht_status (snd (getOraclePubkey text sv oracle)) = 503
        \<and> fst (getShieldConfig text sv oracle) = None \<and> ht_status (snd (getShieldConfig text sv oracle)) = 503
     else (\<exists>k. getOraclePubkey text sv oracle = (Some k, ok_response (sv_key_base58 sv k))
        \<and> getShieldConfig text sv oracle = (Some k, ok_response (sv_key_base58 sv k, to_hex (sv_model_hash sv)))
        \<and> getOraclePubkey text sv (Some k) = (Some k, ok_response (sv_key_base58 sv k)))"
proof -
  let ?m = "''Static Oracle key required: set ORACLE_PRIVATE_KEY or ORACLE_KEYPAIR_PATH (or ORACLE_ALLOW_EPHEMERAL_IN_PRODUCTION=1 only for non-production fallback).''"
  have "str_includes ?m ''Static Oracle key required''" by code_simp
  then show ?thesis
    unfolding getOraclePubkey_def getShieldConfig_def getOraclePubkeyPayload_def getShieldRuntimeConfigPayload_def assms
    by (cases "oracle") (auto simp: oracleKeypair_def keyResponse_def error_response_def messageOf_def split: option.splits)
qed

theorem key_routes_show_one_key_witness:
  "ht_status (snd (getOraclePubkey (\<lambda>_. []) (sample_services 0\<lparr>sv_keypair := oracleKeypair
     (\<lambda>n. if n = ''NODE_ENV'' then Some ''production'' else None) (\<lambda>_. None) (\<lambda>_. None) 9\<rparr>) None)) = 503"
proof -
  let ?env = "\<lambda>n. if n = ''NODE_ENV'' then Some ''production'' else None"
  let ?sv = "sample_services 0\<lparr>sv_keypair := oracleKeypair ?env (\<lambda>_. None) (\<lambda>_. None) 9\<rparr>"
  have k: "sv_keypair ?sv = oracleKeypair ?env (\<lambda>_. None) (\<lambda>_. None) 9" by simp
  have "requireStaticKey ?env \<and> loadedKey ?env (\<lambda>_. None) (\<lambda>_. None :: nat option) = None" by code_simp
  with key_routes_show_one_key[OF k, of None "\<lambda>_. []"] show ?thesis by simp
qed

end
