(* ===== verification/Api_Story.thy ===== *)
theory Api_Story
  imports Api_Input Hide_Sis_Play Openworld_Session
begin

section \<open>Routes and schema of the stories\<close>

text \<open>
  app/api/hide-sis/dto.ts with its three assertions on events, the routes turn/quote, turn/commit and
  session/finalize under app/api/hide-sis, and openworld/start and openworld/finalize there. The bodies are arbitrary JSON.
  A field of an event object is a number of the language in the assertions, which take it as it comes.
\<close>

subsection \<open>The schema of events\<close>

text \<open>\<open>Number.isInteger\<close>, as the integer.\<close>

definition isInteger :: "jsnum \<Rightarrow> int option" where
  "isInteger v = (case v of Fin x \<Rightarrow> if of_int \<lfloor>x\<rfloor> = x then Some \<lfloor>x\<rfloor> else None | _ \<Rightarrow> None)"

definition assertInt :: "int \<Rightarrow> int \<Rightarrow> string \<Rightarrow> jsnum \<Rightarrow> unit result" where
  "assertInt lo hi message v =
     (case isInteger v of None \<Rightarrow> Inl (Thrown message) | Some n \<Rightarrow> ensure (lo \<le> n \<and> n \<le> hi) (Thrown message))"

definition assertU8 :: "string \<Rightarrow> jsnum \<Rightarrow> unit result" where
  "assertU8 name v = assertInt 0 255 (name @ '' must be u8'') v"

definition assertI8 :: "string \<Rightarrow> jsnum \<Rightarrow> unit result" where
  "assertI8 name v = assertInt (-128) 127 (name @ '' must be i8'') v"

definition assertU16 :: "string \<Rightarrow> jsnum \<Rightarrow> unit result" where
  "assertU16 name v = assertInt 0 65535 (name @ '' must be u16'') v"

definition num :: "int \<Rightarrow> jsnum" where
  "num n = Fin (of_int n)"

definition isChapterCode :: "jsnum \<Rightarrow> bool" where
  "isChapterCode v \<longleftrightarrow> v \<in> set (map (num \<circ> chapter_code) [CH1_NIGHT_DINNER, CH2_MEMORY_TRADE, CH3_ROOFTOP_COLLAPSE])"

definition isNodeCode :: "jsnum \<Rightarrow> bool" where
  "isNodeCode v \<longleftrightarrow> v \<in> set (map (num \<circ> node_code) [C1_N1_OPENING_PROBE, C1_N2_PRIVATE_PROOF, C1_N3_LAST_CALL_PRESSURE,
     C2_N1_TERMS_EXCHANGE, C2_N2_FOOTPRINT_SWAP, C2_N3_KILLER_REVEAL_GATE, C2_N4_SECRET_PACT,
     C3_N1_SYSTEM_BREAKDOWN, C3_N2_FINAL_CHOICE, C3_N3_ENDING_RESOLVE])"

definition isDecisionCode :: "jsnum \<Rightarrow> bool" where
  "isDecisionCode v \<longleftrightarrow> v \<in> set (map (num \<circ> decision_number)
     [PACT_COMMIT, PACT_DELAY, PACT_BACKDOOR, END_BURY_TRUTH, END_DISCLOSE, END_DOUBLE_PLAY])"

definition isEndingCode :: "jsnum \<Rightarrow> bool" where
  "isEndingCode v \<longleftrightarrow> v \<in> set (map (num \<circ> ending_code) [SILK_BURIAL_TRUE, BROKEN_OATH, FRAMED_AND_JAILED])"

record turn_dto =
  td_chapter :: jsnum
  td_node_id :: jsnum
  td_choice_id :: jsnum
  td_suspicion_cost :: string
  td_budget_left_bps :: jsnum
  td_relation_delta :: jsnum
  td_pollution_flag :: bool

record decision_dto =
  dd_chapter :: jsnum
  dd_node_id :: jsnum
  dd_decision_code :: jsnum
  dd_relation_after :: jsnum
  dd_truth_progress :: jsnum

record finalized_dto =
  fd_ending_code :: jsnum
  fd_final_dignity :: jsnum
  fd_humanity_score :: jsnum
  fd_relation_final :: jsnum
  fd_truth_unlocked :: bool
  fd_framed_flag :: bool

definition assertInterrogationTurnCommittedEventDTO :: "turn_dto \<Rightarrow> unit result" where
  "assertInterrogationTurnCommittedEventDTO inp =
     rbind (ensure (isChapterCode (td_chapter inp)) (Thrown ''chapter must be a valid Chapter code'')) (\<lambda>_.
     rbind (ensure (isNodeCode (td_node_id inp)) (Thrown ''node_id must be a valid Node code'')) (\<lambda>_.
     rbind (assertU8 ''choice_id'' (td_choice_id inp)) (\<lambda>_.
     rbind (ensure (all_digits 10 (td_suspicion_cost inp)) (Thrown ''suspicion_cost must be u64 decimal string'')) (\<lambda>_.
     rbind (assertU16 ''budget_left_bps'' (td_budget_left_bps inp)) (\<lambda>_.
       assertI8 ''relation_delta'' (td_relation_delta inp))))))"

definition assertChapterDecisionCommittedEventDTO :: "decision_dto \<Rightarrow> unit result" where
  "assertChapterDecisionCommittedEventDTO inp =
     rbind (ensure (isChapterCode (dd_chapter inp)) (Thrown ''chapter must be a valid Chapter code'')) (\<lambda>_.
     rbind (ensure (isNodeCode (dd_node_id inp)) (Thrown ''node_id must be a valid Node code'')) (\<lambda>_.
     rbind (ensure (isDecisionCode (dd_decision_code inp)) (Thrown ''decision_code must be a valid Decision code'')) (\<lambda>_.
     rbind (assertI8 ''relation_after'' (dd_relation_after inp)) (\<lambda>_.
       assertU8 ''truth_progress'' (dd_truth_progress inp)))))"

definition assertSessionFinalizedEventDTO :: "finalized_dto \<Rightarrow> unit result" where
  "assertSessionFinalizedEventDTO inp =
     rbind (ensure (isEndingCode (fd_ending_code inp)) (Thrown ''ending_code must be a valid Ending code'')) (\<lambda>_.
     rbind (assertU8 ''final_dignity'' (fd_final_dignity inp)) (\<lambda>_.
     rbind (assertU8 ''humanity_score'' (fd_humanity_score inp)) (\<lambda>_.
       assertI8 ''relation_final'' (fd_relation_final inp))))"

text \<open>The events of a session as these objects; a cost is written as a decimal string.\<close>

definition turnDto :: "turn_event \<Rightarrow> turn_dto" where
  "turnDto e = \<lparr>td_chapter = num (chapter_code (te_chapter e)), td_node_id = num (node_code (te_node_id e)),
     td_choice_id = num (te_choice_id e), td_suspicion_cost = show_int (te_suspicion_cost e),
     td_budget_left_bps = num (te_budget_left_bps e), td_relation_delta = num (te_relation_delta e),
     td_pollution_flag = te_pollution_flag e\<rparr>"

definition decisionDto :: "decision_event \<Rightarrow> decision_dto" where
  "decisionDto e = \<lparr>dd_chapter = num (chapter_code (de_chapter e)), dd_node_id = num (node_code (de_node_id e)),
     dd_decision_code = num (decision_number (de_decision_code e)), dd_relation_after = num (de_relation_after e),
     dd_truth_progress = num (de_truth_progress e)\<rparr>"

definition finalizedDto :: "finalized_event \<Rightarrow> finalized_dto" where
  "finalizedDto e = \<lparr>fd_ending_code = num (ending_code (fe_ending_code e)), fd_final_dignity = num (fe_final_dignity e),
     fd_humanity_score = num (fe_humanity_score e), fd_relation_final = num (fe_relation_final e),
     fd_truth_unlocked = fe_truth_unlocked e, fd_framed_flag = fe_framed_flag e\<rparr>"

subsection \<open>Routes of Hide and Sis\<close>

definition answer :: "(js_error \<Rightarrow> string) \<Rightarrow> 'a result \<Rightarrow> 'a http" where
  "answer text r = (case r of Inl e \<Rightarrow> error_response 400 (messageOf text e) | Inr x \<Rightarrow> ok_response x)"

text \<open>\<open>sessions.get\<close> of a value that is no string finds nothing.\<close>

definition byId :: "jsval \<Rightarrow> (string \<Rightarrow> 'a result) \<Rightarrow> 'a result" where
  "byId sid f = (case sid of JStr s \<Rightarrow> f s | _ \<Rightarrow> Inl (Thrown ''session not found''))"

definition postTurnQuote ::
  "(js_error \<Rightarrow> string) \<Rightarrow> jsval option \<Rightarrow> hs_store \<Rightarrow> (string \<times> story_chapter \<times> node \<times> quote_result) http" where
  "postTurnQuote text body st =
     (case body of
        None \<Rightarrow> error_response 400 (messageOf text SyntaxError)
      | Some b \<Rightarrow>
          (let sid = js_prop_opt b ''session_id'' in
           if \<not> js_truthy sid then error_response 400 ''session_id is required''
           else answer text (byId sid (\<lambda>s. quoteTurn s st))))"

text \<open>\<open>item.id === input.choiceId\<close>: a number that is no integer is the id of no choice.\<close>

definition commitNumber ::
  "int \<Rightarrow> string \<Rightarrow> jsnum \<Rightarrow> hs_store \<Rightarrow> hs_store \<times> (quote_result \<times> session_view \<times> bool) result" where
  "commitNumber now sid choiceId st =
     (case isInteger choiceId of
        Some i \<Rightarrow> commitTurn now sid i st
      | None \<Rightarrow> (st, rbind (open_session sid st) (\<lambda>_. Inl (Thrown ''invalid choice id for current node''))))"

definition postTurnCommit ::
  "(js_error \<Rightarrow> string) \<Rightarrow> int \<Rightarrow> jsval option \<Rightarrow> hs_store \<Rightarrow> hs_store \<times> (quote_result \<times> session_view \<times> bool) http" where
  "postTurnCommit text now body st =
     (case body of
        None \<Rightarrow> (st, error_response 400 (messageOf text SyntaxError))
      | Some b \<Rightarrow>
          (let sid = js_prop_opt b ''session_id'' in
           if \<not> js_truthy sid then (st, error_response 400 ''session_id is required'')
           else (case js_prop_opt b ''choice_id'' of
                   JNum choiceId \<Rightarrow>
                     (case sid of
                        JStr s \<Rightarrow> map_prod id (answer text) (commitNumber now s choiceId st)
                      | _ \<Rightarrow> (st, answer text (Inl (Thrown ''session not found''))))
                 | _ \<Rightarrow> (st, error_response 400 ''choice_id is required''))))"

definition postSessionFinalize ::
  "(js_error \<Rightarrow> string) \<Rightarrow> int \<Rightarrow> jsval option \<Rightarrow> hs_store \<Rightarrow>
   hs_store \<times> (session_view \<times> finalized_event option \<times> ending_breakdown option) http" where
  "postSessionFinalize text now body st =
     (case body of
        None \<Rightarrow> (st, error_response 400 (messageOf text SyntaxError))
      | Some b \<Rightarrow>
          (let sid = js_prop_opt b ''session_id'' in
           if \<not> js_truthy sid then (st, error_response 400 ''session_id is required'')
           else (case sid of
                   JStr s \<Rightarrow> map_prod id (answer text) (finalizeSession now s st)
                 | _ \<Rightarrow> (st, answer text (Inl (Thrown ''session not found''))))))"

subsection \<open>Routes of the open world\<close>

text \<open>\<open>Array.isArray(v) ? v : undefined\<close>; \<open>trim\<close> of an element that is no string is a TypeError.\<close>

definition textsOf :: "jsval \<Rightarrow> string list option result" where
  "textsOf v =
     (case v of
        JArr xs \<Rightarrow> rbind (rmap_list (\<lambda>x. case x of JStr s \<Rightarrow> Inr s | _ \<Rightarrow> Inl TypeError) xs) (\<lambda>ys. Inr (Some ys))
      | _ \<Rightarrow> Inr None)"

definition textField :: "jsval \<Rightarrow> string \<Rightarrow> string option" where
  "textField b name = (case js_prop_opt b name of JStr s \<Rightarrow> if s \<noteq> [] then Some s else None | _ \<Rightarrow> None)"

definition postWorldStart ::
  "(js_error \<Rightarrow> string) \<Rightarrow> llm_host \<Rightarrow> string \<Rightarrow> int \<Rightarrow> jsval option \<Rightarrow> ow_store \<Rightarrow> ow_store \<times> start_payload http" where
  "postWorldStart text host uuid now body st =
     (case body of
        None \<Rightarrow> (st, error_response 400 (messageOf text SyntaxError))
      | Some b \<Rightarrow>
        (case textField b ''theme_prompt'' of
           None \<Rightarrow> (st, error_response 400 ''theme_prompt is required'')
         | Some theme \<Rightarrow>
           (case rbind (textsOf (js_prop_opt b ''genre_tags'')) (\<lambda>tags.
                 rbind (textsOf (js_prop_opt b ''constraints'')) (\<lambda>constraints.
                   Inr \<lparr>st_theme_prompt = theme, st_genre_tags = tags, st_constraints = constraints\<rparr>)) of
              Inl e \<Rightarrow> (st, answer text (Inl e))
            | Inr inp \<Rightarrow> map_prod id (answer text) (startOpenWorld host uuid now inp st))))"

text \<open>\<open>None\<close> while the operation waits.\<close>

definition worldResponse :: "(js_error \<Rightarrow> string) \<Rightarrow> ow_outcome \<Rightarrow> ow_reply http option" where
  "worldResponse text out =
     (case out of
        Replied r \<Rightarrow> Some (ok_response r)
      | Waiting _ \<Rightarrow> None
      | Threw e \<Rightarrow> Some (error_response 400 (messageOf text e)))"

definition postWorldFinalize ::
  "(js_error \<Rightarrow> string) \<Rightarrow> llm_host \<Rightarrow> int \<Rightarrow> jsval option \<Rightarrow> ow_store \<Rightarrow> ow_store \<times> ow_reply http option" where
  "postWorldFinalize text host now body st =
     (case body of
        None \<Rightarrow> (st, Some (error_response 400 (messageOf text SyntaxError)))
      | Some b \<Rightarrow>
        (case textField b ''world_id'' of
           None \<Rightarrow> (st, Some (error_response 400 ''world_id is required''))
         | Some wid \<Rightarrow> map_prod id (worldResponse text) (finalizeOpenWorldSession host now wid st)))"

subsection \<open>The events of a game\<close>

lemma isInteger_num [simp]: "isInteger (num n) = Some n"
  by (simp add: isInteger_def num_def)

lemma isInteger_Some: "isInteger v = Some n \<Longrightarrow> v = num n"
  by (auto simp: isInteger_def num_def split: jsnum.splits if_splits)

lemma assert_num [simp]:
  "assertU8 name (num n) = Inr () \<longleftrightarrow> n \<in> {0..255}" "assertI8 name (num n) = Inr () \<longleftrightarrow> n \<in> {-128..127}"
  "assertU16 name (num n) = Inr () \<longleftrightarrow> n \<in> {0..65535}"
  by (simp_all add: assertU8_def assertI8_def assertU16_def assertInt_def ensure_def)

lemma codes_known [simp]:
  "isChapterCode (num (chapter_code c))" "isNodeCode (num (node_code m))" "isDecisionCode (num (decision_number d))"
  "isEndingCode (num (ending_code e))"
proof -
  show "isChapterCode (num (chapter_code c))" by (cases c) (simp_all add: isChapterCode_def)
  show "isNodeCode (num (node_code m))" by (cases m) (simp_all add: isNodeCode_def)
  show "isDecisionCode (num (decision_number d))" by (cases d) (simp_all add: isDecisionCode_def)
  show "isEndingCode (num (ending_code e))" by (cases e) (simp_all add: isEndingCode_def)
qed

lemma show_int_digits: "0 \<le> n \<Longrightarrow> all_digits 10 (show_int n)"
  by (simp add: show_int_def show_nat_digits)

lemma rbind_unit: "rbind r (\<lambda>_. f) = Inr () \<longleftrightarrow> r = Inr () \<and> f = Inr ()" for r :: "unit result"
  by (cases r) auto

lemma story_ids: "c \<in> set (ns_choices (story m)) \<Longrightarrow> ch_id c \<in> {1..4}"
  by (cases m) (auto simp: choice_defs)

definition events_fit :: "hs_session \<Rightarrow> bool" where
  "events_fit s \<longleftrightarrow>
     (\<forall>e \<in> set (hs_turnEvents s). te_choice_id e \<in> {0..255} \<and> 0 \<le> te_suspicion_cost e
        \<and> te_budget_left_bps e \<in> {0..10000} \<and> te_relation_delta e \<in> {-1..1})
     \<and> (\<forall>e \<in> set (hs_decisionEvents s). de_relation_after e \<in> {-3..3} \<and> de_truth_progress e \<in> {0..100})
     \<and> (\<forall>e. hs_finalizedEvent s = Some e \<longrightarrow> fe_final_dignity e \<in> {0..80} \<and> fe_humanity_score e \<in> {0..100}
          \<and> fe_relation_final e \<in> {-3..3})"

lemma events_fit_extend:
  assumes "events_fit s" "hs_turnEvents s' = hs_turnEvents s @ [e]" "hs_decisionEvents s' = hs_decisionEvents s @ es"
    and "hs_finalizedEvent s' = hs_finalizedEvent s"
    and "te_choice_id e \<in> {0..255} \<and> 0 \<le> te_suspicion_cost e \<and> te_budget_left_bps e \<in> {0..10000} \<and> te_relation_delta e \<in> {-1..1}"
    and "\<forall>d \<in> set es. de_relation_after d \<in> {-3..3} \<and> de_truth_progress d \<in> {0..100}"
  shows "events_fit s'"
  using assms(1,5,6) unfolding events_fit_def assms(2,3,4)
  by (simp only: set_append ball_Un list.set ball_simps simp_thms) (intro conjI; elim conjE; assumption)

lemma humanity_range: "humanityScore s framed \<in> {0..100}"
  by (simp add: humanityScore_def clamp_def)

lemma quote_ranges:
  assumes "hs_dignityScore s \<in> {0..100}"
  shows "0 \<le> qt_suspicion_cost (quoteNode s)" "qt_budget_left_bps_after (quoteNode s) \<in> {0..10000}"
proof -
  have raw: "0 \<le> rawCost c (hs_dignityScore s) n" for c n
  proof -
    have a: "0 \<le> fl (650 * chapterHeat c)" using fl_mono[of 0 "650 * chapterHeat c"] chapterHeat_bounds(1) by simp
    have b: "0 \<le> fl (fl (650 * chapterHeat c) * dignityHeatFactor (hs_dignityScore s))"
      using fl_mono[of 0] a dignityHeat_bounds(1)[OF assms] by (metis fl_0 mult_nonneg_nonneg)
    have p: "0 \<le> fl (fl (145 / 100) ^ k)" for k using fl_mono[of 0] fl_mono[of 0 "145 / 100"] by (metis fl_0 zero_le_power divide_nonneg_nonneg zero_le_numeral)
    have "0 \<le> fl (fl (fl (650 * chapterHeat c) * dignityHeatFactor (hs_dignityScore s)) * fl (fl (145 / 100) ^ k))" for k
      using fl_mono[of 0] b p[of k] by (metis fl_0 mult_nonneg_nonneg)
    then show ?thesis unfolding rawCost_def by (metis js_round_ge of_int_0)
  qed
  then show "0 \<le> qt_suspicion_cost (quoteNode s)" by (simp add: quoteNode_def Let_def)
  show "qt_budget_left_bps_after (quoteNode s) \<in> {0..10000}" by (simp add: quoteNode_def Let_def clamp_def)
qed

lemma commit_decisionEvents:
  "\<exists>es. hs_decisionEvents (commitChoice now c s) = hs_decisionEvents s @ es
     \<and> (\<forall>e \<in> set es. de_relation_after e = hs_relationScore (commitChoice now c s) \<and> de_truth_progress e \<in> {0..100})"
  by (auto simp: commitChoice_def advance_def recordDecision_def applyChoice_def truthProgress_def clamp_def Let_def
      split: option.split prod.split)

lemma played_events_fit: "played mode n s \<Longrightarrow> events_fit s"
proof (induction rule: played.induct)
  case (played_start sid wallet now)
  then show ?case by (simp add: events_fit_def newSession_def)
next
  case (played_commit n s choice now)
  have inv: "hs_inv mode n s" "hs_inv mode (Suc n) (commitChoice now choice s)"
    using played_inv played.played_commit[OF played_commit.hyps] played_commit.hyps(1) by blast+
  have "hs_dignityScore s \<in> {0..100}" using inv(1) dignity_bound_le(1)[of mode n] by (auto simp: hs_inv_def)
  note q = quote_ranges[OF this]
  have c: "choice \<in> set (ns_choices (story (hs_currentNodeId s)))" using played_commit.hyps by (simp add: currentNode_def)
  have "ch_id choice \<in> {0..255}" using story_ids[OF c] by simp
  then have turn: "te_choice_id e \<in> {0..255} \<and> 0 \<le> te_suspicion_cost e \<and> te_budget_left_bps e \<in> {0..10000} \<and> te_relation_delta e \<in> {-1..1}"
    if "e = turnEvent (currentNode s) choice (quoteNode s) s" for e
    using q \<open>ch_id choice \<in> {0..255}\<close> story_choice(1)[OF c] unfolding that turnEvent_def by (simp, linarith?)
  obtain es where es: "hs_decisionEvents (commitChoice now choice s) = hs_decisionEvents s @ es"
    "\<forall>e \<in> set es. de_relation_after e = hs_relationScore (commitChoice now choice s) \<and> de_truth_progress e \<in> {0..100}"
    using commit_decisionEvents by blast
  have "hs_relationScore (commitChoice now choice s) \<in> {-3..3}" using inv(2) unfolding hs_inv_def by blast
  with es(2) have "\<forall>e \<in> set es. de_relation_after e \<in> {-3..3} \<and> de_truth_progress e \<in> {0..100}" by metis
  from events_fit_extend[OF played_commit.IH commit_fields(14) es(1) commit_fields(9) turn[OF refl] this] show ?case .
next
  case (played_finish n s d now)
  have inv: "hs_inv mode n s" using played_commit played_finish.hyps(1) by (simp add: played_inv)
  have "hs_dignityScore s \<in> {0..80}" using inv dignity_bound_le(1)[of mode n] by (auto simp: hs_inv_def)
  moreover have "hs_relationScore s \<in> {-3..3}" using inv unfolding hs_inv_def by blast
  moreover have "fe_final_dignity e = hs_dignityScore s \<and> fe_humanity_score e \<in> {0..100} \<and> fe_relation_final e = hs_relationScore s"
    if "hs_finalizedEvent (finishGame now d s) = Some e" for e
    using that humanity_range by (auto simp: finishGame_def Let_def simp del: atLeastAtMost_iff)
  ultimately have "fe_final_dignity e \<in> {0..80} \<and> fe_humanity_score e \<in> {0..100} \<and> fe_relation_final e \<in> {-3..3}"
    if "hs_finalizedEvent (finishGame now d s) = Some e" for e
    using that by metis
  then show ?case using played_finish.IH unfolding events_fit_def finish_fields by blast
qed

subsection \<open>Properties\<close>

text \<open>
  Every event that a game of Hide and Sis records has the schema of the interface: the three assertions hold
  for all turns, decisions and endings of every session that requests can lead to, whatever was chosen.
\<close>

theorem events_have_their_schema:
  assumes "hs_reachable st" "map_get st sid = Some s"
  shows "(\<forall>e \<in> set (hs_turnEvents s). assertInterrogationTurnCommittedEventDTO (turnDto e) = Inr ())
     \<and> (\<forall>e \<in> set (hs_decisionEvents s). assertChapterDecisionCommittedEventDTO (decisionDto e) = Inr ())
     \<and> (\<forall>e. hs_finalizedEvent s = Some e \<longrightarrow> assertSessionFinalizedEventDTO (finalizedDto e) = Inr ())"
proof -
  have "events_fit s" using reachable_played[OF assms] played_events_fit by blast
  then show ?thesis
    by (fastforce simp: events_fit_def assertInterrogationTurnCommittedEventDTO_def turnDto_def rbind_unit ensure_def show_int_digits
        assertChapterDecisionCommittedEventDTO_def decisionDto_def assertSessionFinalizedEventDTO_def finalizedDto_def)
qed

theorem events_have_their_schema_witness:
  "\<exists>s e. map_get (play_choices ''s1'' [1, 1] (sample_store UM_GUEST)) ''s1'' = Some s \<and> e \<in> set (hs_turnEvents s)
     \<and> assertInterrogationTurnCommittedEventDTO (turnDto e) = Inr ()"
proof -
  let ?g = "abs_game (newSession ''s1'' ''W1'' 1000 UM_GUEST)"
  have "game_run [1, 1] ?g \<noteq> None" by code_simp
  then obtain g where "game_run [1, 1] ?g = Some g" by auto
  from sample_play[OF this] obtain s where s: "map_get (play_choices ''s1'' [1, 1] (sample_store UM_GUEST)) ''s1'' = Some s"
    "hs_reachable (play_choices ''s1'' [1, 1] (sample_store UM_GUEST))" by blast
  have "map_option (length \<circ> hs_turnEvents) (map_get (play_choices ''s1'' [1, 1] (sample_store UM_GUEST)) ''s1'') = Some 2" by code_simp
  then have "length (hs_turnEvents s) = 2" using s(1) by simp
  then have "hs_turnEvents s ! 0 \<in> set (hs_turnEvents s)" by (intro nth_mem) simp
  then show ?thesis using events_have_their_schema[OF s(2,1)] s(1) by blast
qed

text \<open>
  The commit route changes a game only by a choice its node offers: status 200 means a session of this
  identifier that is not finished, a choice that is listed at its node, and the commit of just this choice; any
  other body, malformed ones included, is answered 400 and changes nothing.
\<close>

theorem commit_route_checks:
  assumes "postTurnCommit text now body st = (st', r)"
  shows "ht_status r = 200 \<and> (\<exists>b sid s c. body = Some b \<and> js_prop_opt b ''session_id'' = JStr sid \<and> map_get st sid = Some s
         \<and> \<not> hs_completed s \<and> c \<in> set (ns_choices (currentNode s)) \<and> js_prop_opt b ''choice_id'' = JNum (num (ch_id c))
         \<and> st' = map_set sid (commitChoice now c s) st
         \<and> ht_body r = Inr (quoteNode s, serializeSession (commitChoice now c s),
             hs_currentNodeId (commitChoice now c s) = C3_N3_ENDING_RESOLVE \<and> hs_finalDecisionCode (commitChoice now c s) \<noteq> None))
     \<or> ht_status r = 400 \<and> st' = st \<and> (\<exists>m. ht_body r = Inl m)"
proof -
  have step: "(case out of (st', r) \<Rightarrow> (case r of Inl _ \<Rightarrow> st' = st
      | Inr x \<Rightarrow> \<exists>s c. map_get st sid = Some s \<and> \<not> hs_completed s \<and> c \<in> set (ns_choices (currentNode s)) \<and> choiceId = num (ch_id c)
          \<and> st' = map_set sid (commitChoice now c s) st
          \<and> x = (quoteNode s, serializeSession (commitChoice now c s),
               hs_currentNodeId (commitChoice now c s) = C3_N3_ENDING_RESOLVE \<and> hs_finalDecisionCode (commitChoice now c s) \<noteq> None)))"
    if "out = commitNumber now sid choiceId st" for sid choiceId out
    using that
    by (auto simp: commitNumber_def commitTurn_def open_session_def getSession_def Let_def js_simps
        dest!: find_SomeD isInteger_Some split: option.splits sum.splits if_splits)
  show ?thesis
  proof (cases "\<exists>b sid choiceId. body = Some b \<and> js_prop_opt b ''session_id'' = JStr sid \<and> sid \<noteq> [] \<and> js_prop_opt b ''choice_id'' = JNum choiceId")
    case True
    then obtain b sid choiceId where b: "body = Some b" "js_prop_opt b ''session_id'' = JStr sid" "sid \<noteq> []"
      "js_prop_opt b ''choice_id'' = JNum choiceId" by blast
    obtain st1 x where x: "commitNumber now sid choiceId st = (st1, x)" by fastforce
    then have r: "r = answer text x" "st' = st1" using assms b by (auto simp: postTurnCommit_def)
    show ?thesis using step[OF x[symmetric]] b r
      by (cases x) (auto simp: answer_def ok_response_def error_response_def)
  next
    case False
    then show ?thesis using assms
      by (auto simp: postTurnCommit_def answer_def error_response_def Let_def split: option.splits if_splits jsval.splits)
  qed
qed

theorem commit_route_checks_witness:
  "\<exists>s. map_get (sample_store UM_GUEST) ''s1'' = Some s
     \<and> fst (postTurnCommit (\<lambda>_. []) 2000 (Some (JObj [(''session_id'', JStr ''s1''), (''choice_id'', JNum (Fin (1/2)))])) (sample_store UM_GUEST))
         = sample_store UM_GUEST"
proof -
  let ?p = "postTurnCommit (\<lambda>_. []) 2000 (Some (JObj [(''session_id'', JStr ''s1''), (''choice_id'', JNum (Fin (1/2)))])) (sample_store UM_GUEST)"
  have p: "?p = (fst ?p, snd ?p)" by simp
  have "ht_status (snd ?p) = 400" by code_simp
  then show ?thesis using commit_route_checks[OF p] sample_store_facts(2)[of UM_GUEST] by auto
qed

text \<open>The finalization of a world is always answered, and so is its start; a failed start leaves nothing behind.\<close>

lemma world_routes_answer:
  "snd (postWorldFinalize text host now body st) \<noteq> None"
  "ht_status (snd (postWorldStart text host uuid now body st)) \<noteq> 200 \<Longrightarrow> fst (postWorldStart text host uuid now body st) = st"
proof -
  have "snd (finalizeOpenWorldSession host now wid st) \<noteq> Waiting t" for wid t
    by (auto simp: finalizeOpenWorldSession_def beginFinalize_def settle_def finalBegin_def resume_def resumeTask_def ensureSession_def
        split: sum.splits option.splits prod.splits)
  then show "snd (postWorldFinalize text host now body st) \<noteq> None"
    by (auto simp: postWorldFinalize_def worldResponse_def split: option.splits ow_outcome.splits)
  show "ht_status (snd (postWorldStart text host uuid now body st)) \<noteq> 200 \<Longrightarrow> fst (postWorldStart text host uuid now body st) = st"
    by (auto simp: postWorldStart_def startOpenWorld_def Let_def answer_def ok_response_def split: option.splits sum.splits)
qed

end
