(* ===== verification/Vrgda.thy ===== *)
theory Vrgda
  imports Js_Number
begin

section \<open>Price previews\<close>

text \<open>
  app/utils/vrgda.ts and \<open>computeVrgdaPrice\<close> of hooks/useVrgdaPrice.ts: the prices that the pages show. They are
  computed with doubles; \<open>Math.pow\<close> is taken as correctly rounded. The large integers of bn.js and of the language
  are integers, and numbers are finite.
\<close>

subsection \<open>Multipliers (app/utils/vrgda.ts)\<close>

definition BPS :: int where "BPS = 10000"
definition GUEST_SALES_DIVISOR :: rat where "GUEST_SALES_DIVISOR = 5000"
definition SCALPER_SALES_DIVISOR :: rat where "SCALPER_SALES_DIVISOR = 3000"
definition GUEST_CAP_SOL :: rat where "GUEST_CAP_SOL = 10"
definition SCALPER_CAP_SOL :: rat where "SCALPER_CAP_SOL = 1000"
definition TARGET_RATE_DEMO_PER_HOUR :: rat where "TARGET_RATE_DEMO_PER_HOUR = 1000"
definition DECAY_DIVISOR :: rat where "DECAY_DIVISOR = 5000"
definition MIN_DECAY :: rat where "MIN_DECAY = fl (1 / 10)"

lemmas vrgda_constants = BPS_def GUEST_SALES_DIVISOR_def SCALPER_SALES_DIVISOR_def GUEST_CAP_SOL_def SCALPER_CAP_SOL_def
  TARGET_RATE_DEMO_PER_HOUR_def DECAY_DIVISOR_def MIN_DECAY_def

definition salesAhead :: "rat \<Rightarrow> rat" where
  "salesAhead salesDifference = max 0 salesDifference"

definition decayFactor :: "rat \<Rightarrow> rat" where
  "decayFactor salesDifference =
     (if salesDifference \<le> 0 then max MIN_DECAY (fl (1 - fl (\<bar>salesDifference\<bar> / DECAY_DIVISOR))) else 1)"

definition guestMultiplier :: "rat \<Rightarrow> rat" where
  "guestMultiplier d = fl (1 + fl (salesAhead d / GUEST_SALES_DIVISOR))"

definition scalperMultiplier :: "rat \<Rightarrow> rat" where
  "scalperMultiplier d = fl (1 + fl (fl (salesAhead d / SCALPER_SALES_DIVISOR) ^ 2))"

text \<open>The price of a guest and of a scalper, between floor and cap; the source has it in both functions.\<close>

definition guestPrice :: "rat \<Rightarrow> rat \<Rightarrow> rat" where
  "guestPrice basePriceSol d =
     (let rawMultiplier = fl (guestMultiplier d * decayFactor d);
          finalPrice = fl (basePriceSol * max 1 rawMultiplier)
      in max basePriceSol (min GUEST_CAP_SOL finalPrice))"

definition scalperPrice :: "rat \<Rightarrow> rat \<Rightarrow> rat" where
  "scalperPrice basePriceSol d =
     (let rawMultiplier = fl (scalperMultiplier d * decayFactor d);
          finalPrice = fl (fl (basePriceSol * max 1 rawMultiplier) * 10)
      in max (fl (basePriceSol * 10)) (min SCALPER_CAP_SOL finalPrice))"

definition computeVrgdaFinalPriceSol :: "rat \<Rightarrow> rat \<Rightarrow> rat \<Rightarrow> int option \<Rightarrow> rat" where
  "computeVrgdaFinalPriceSol basePriceSol sales target tierLevel =
     (let salesDifference = fl (sales - target) in
      if tierLevel = Some 1 then max (fl (1 / 100)) basePriceSol
      else if tierLevel = Some 3 then max (fl (1 / 100)) (scalperPrice basePriceSol salesDifference)
      else max (fl (1 / 100)) (guestPrice basePriceSol salesDifference))"

subsection \<open>The quote\<close>

datatype sold_override = Sold_BN int | Sold_number rat

text \<open>\<open>BigInt(value)\<close> of a number that is no integer is a RangeError.\<close>

fun toBigInt :: "sold_override \<Rightarrow> int result" where
  "toBigInt (Sold_BN n) = Inr n"
| "toBigInt (Sold_number x) = (if of_int \<lfloor>x\<rfloor> = x then Inr \<lfloor>x\<rfloor> else Inl RangeError)"

fun soldNumber :: "sold_override \<Rightarrow> rat" where
  "soldNumber (Sold_BN n) = fl (of_int n)"
| "soldNumber (Sold_number x) = x"

record vrgda_inputs =
  vi_basePrice :: int
  vi_targetRateBps :: int
  vi_startTime :: int
  vi_itemsSold :: int
  vi_now :: "int option"
  vi_tierLevel :: "int option"
  vi_customSold :: "sold_override option"
  vi_customTimeElapsedHours :: "rat option"

record vrgda_quote =
  vq_vrgdaPrice :: int
  vq_finalPrice :: int
  vq_deposit :: int

definition salesDifferenceOf :: "int \<Rightarrow> vrgda_inputs \<Rightarrow> rat" where
  "salesDifferenceOf clockMs inp =
     (let nowSec = opt_or (vi_now inp) (clockMs div 1000);
          elapsed = (if vi_startTime inp < nowSec then nowSec - vi_startTime inp else 0);
          isSimulation = (vi_customSold inp \<noteq> None \<or> vi_customTimeElapsedHours inp \<noteq> None);
          elapsedHours = (case vi_customTimeElapsedHours inp of Some hours \<Rightarrow> max 0 hours | None \<Rightarrow> fl (fl (of_int elapsed) / 3600));
          targetSold = (if isSimulation then fl (elapsedHours * TARGET_RATE_DEMO_PER_HOUR)
             else fl (of_int (let p = elapsed * vi_targetRateBps inp in if p < 0 then - (- p div BPS) else p div BPS)));
          currentSold = (case vi_customSold inp of Some c \<Rightarrow> soldNumber c | None \<Rightarrow> fl (of_int (vi_itemsSold inp)))
      in fl (currentSold - targetSold))"

definition lamportsOf :: "rat \<Rightarrow> int" where
  "lamportsOf sol = max 1 (js_round (fl (sol * 1000000000)))"

definition calculateVrgdaPrice :: "int \<Rightarrow> vrgda_inputs \<Rightarrow> vrgda_quote result" where
  "calculateVrgdaPrice clockMs inp =
     rbind (case vi_customSold inp of Some c \<Rightarrow> toBigInt c | None \<Rightarrow> Inr (vi_itemsSold inp)) (\<lambda>_.
       let tierLevel = opt_or (vi_tierLevel inp) 2;
           d = salesDifferenceOf clockMs inp;
           basePriceSol = fl (fl (of_int (vi_basePrice inp)) / 1000000000);
           finalPriceSol = (if tierLevel = 3 then scalperPrice basePriceSol d
             else if tierLevel = 2 then guestPrice basePriceSol d else basePriceSol);
           finalLamports = lamportsOf finalPriceSol
       in Inr \<lparr>vq_vrgdaPrice = finalLamports, vq_finalPrice = finalLamports,
            vq_deposit = (if vi_basePrice inp \<le> finalLamports then finalLamports - vi_basePrice inp else 0)\<rparr>)"

subsection \<open>The hook's price (hooks/useVrgdaPrice.ts)\<close>

definition tierToAlphaBps :: "int \<Rightarrow> rat" where
  "tierToAlphaBps tierLevel = (if tierLevel = 1 then 10000 else if tierLevel = 2 then 5000 else max 2500 500)"

definition computeVrgdaPrice :: "rat \<Rightarrow> rat \<Rightarrow> rat \<Rightarrow> rat \<Rightarrow> int \<Rightarrow> rat \<Rightarrow> int" where
  "computeVrgdaPrice basePrice targetRateBps itemsSold startTime tierLevel now =
     (let safeAlpha = max (tierToAlphaBps tierLevel) 500;
          duration = max 0 (fl (now - startTime));
          targetSold = fl (fl (duration * targetRateBps) / 10000);
          salesDifference = fl (itemsSold - targetSold);
          priceModifierBps = max (- 5000) (min 5000 (js_round (fl (salesDifference * 100))));
          numerator = of_int (10000 + priceModifierBps);
          vrgdaPrice = fl (fl (basePrice * numerator) / 10000);
          finalPrice = fl (fl (vrgdaPrice * 10000) / safeAlpha)
      in \<lfloor>finalPrice\<rfloor>)"

subsection \<open>Rounding\<close>

lemma fl_one [simp]: "fl 1 = 1"
  using fl_of_int[of 1] by simp

lemma fl_nonneg: "0 \<le> x \<Longrightarrow> 0 \<le> fl x"
  using fl_mono[of 0 x] by simp

lemma decay_range: "d \<le> 0 \<Longrightarrow> 0 \<le> decayFactor d \<and> decayFactor d \<le> 1"
proof -
  assume d: "d \<le> 0"
  have "fl (1 - fl (\<bar>d\<bar> / DECAY_DIVISOR)) \<le> fl 1"
    by (intro fl_mono) (simp add: fl_nonneg vrgda_constants)
  moreover have "fl (1 / 10) \<le> fl 1" "0 \<le> fl (1 / 10)" by (intro fl_mono fl_nonneg; simp)+
  ultimately show ?thesis using d by (simp add: decayFactor_def vrgda_constants le_max_iff_disj)
qed

text \<open>A multiplier of a sale that is not ahead is 1, and one times a decay is at most 1.\<close>

lemma effective:
  assumes "m d = fl (m d)" "d \<le> 0 \<Longrightarrow> m d = 1" "1 \<le> m d"
  shows "max 1 (fl (m d * decayFactor d)) = m d"
proof (cases "d \<le> 0")
  case True
  then have "fl (m d * decayFactor d) \<le> fl 1" using decay_range assms(2) by (intro fl_mono) simp
  then show ?thesis using True assms(2) by simp
next
  case False
  then show ?thesis using assms(1,3) by (simp add: decayFactor_def)
qed

lemma guest_effective: "max 1 (fl (guestMultiplier d * decayFactor d)) = guestMultiplier d"
  using fl_mono[of 1 "1 + fl (salesAhead d / GUEST_SALES_DIVISOR)"]
  by (intro effective) (simp_all add: guestMultiplier_def salesAhead_def vrgda_constants fl_nonneg)

lemma scalper_effective: "max 1 (fl (scalperMultiplier d * decayFactor d)) = scalperMultiplier d"
  using fl_mono[of 1 "1 + fl (fl (salesAhead d / SCALPER_SALES_DIVISOR) ^ 2)"]
  by (intro effective) (simp_all add: scalperMultiplier_def salesAhead_def vrgda_constants fl_nonneg)

lemma price_forms:
  "guestPrice b d = max b (min GUEST_CAP_SOL (fl (b * guestMultiplier d)))"
  "scalperPrice b d = max (fl (b * 10)) (min SCALPER_CAP_SOL (fl (fl (b * scalperMultiplier d) * 10)))"
  by (simp_all add: guestPrice_def scalperPrice_def guest_effective scalper_effective Let_def)

lemma multipliers_mono: "d \<le> e \<Longrightarrow> guestMultiplier d \<le> guestMultiplier e" "d \<le> e \<Longrightarrow> scalperMultiplier d \<le> scalperMultiplier e"
proof -
  assume "d \<le> e"
  then have a: "salesAhead d \<le> salesAhead e" by (auto simp: salesAhead_def)
  show "guestMultiplier d \<le> guestMultiplier e" unfolding guestMultiplier_def
    using a by (intro fl_mono add_left_mono divide_right_mono) (simp_all add: vrgda_constants)
  have x: "fl (salesAhead d / SCALPER_SALES_DIVISOR) \<le> fl (salesAhead e / SCALPER_SALES_DIVISOR)" "0 \<le> fl (salesAhead d / SCALPER_SALES_DIVISOR)"
    using a by (intro fl_mono fl_nonneg divide_right_mono; simp add: vrgda_constants salesAhead_def)+
  from fl_mono[OF add_left_mono[OF fl_mono[OF power_mono[OF x, of 2]]], of 1]
  show "scalperMultiplier d \<le> scalperMultiplier e" by (simp only: scalperMultiplier_def)
qed

lemma prices_mono:
  assumes "0 \<le> b" "d \<le> e"
  shows "guestPrice b d \<le> guestPrice b e" "scalperPrice b d \<le> scalperPrice b e"
proof -
  have "fl (b * guestMultiplier d) \<le> fl (b * guestMultiplier e)"
    "fl (fl (b * scalperMultiplier d) * 10) \<le> fl (fl (b * scalperMultiplier e) * 10)"
    using assms multipliers_mono[OF assms(2)] by (intro fl_mono mult_left_mono mult_right_mono; simp)+
  then show "guestPrice b d \<le> guestPrice b e" "scalperPrice b d \<le> scalperPrice b e"
    unfolding price_forms by (auto simp: max_def min_def)
qed

lemma lamports_mono: "x \<le> y \<Longrightarrow> lamportsOf x \<le> lamportsOf y"
  using js_round_mono[OF fl_mono[of "x * 1000000000" "y * 1000000000"]] by (simp add: lamportsOf_def max.coboundedI2 max.mono)

text \<open>Each operation adds at most two units of \<open>2^-53\<close> to a small relative error.\<close>

lemma fl_close:
  assumes "0 \<le> y" "\<bar>x - y\<bar> \<le> k / 2 ^ 53 * y" "0 \<le> k" "k \<le> 2 ^ 20"
  shows "\<bar>fl x - y\<bar> \<le> (k + 2) / 2 ^ 53 * y"
proof -
  have "k / 2 ^ 53 * y \<le> 1 * y" using assms by (intro mult_right_mono) simp_all
  then have "\<bar>x\<bar> \<le> 2 * y" using assms(2) by linarith
  then have "\<bar>x\<bar> / 2 ^ 53 \<le> 2 / 2 ^ 53 * y" by simp
  then have "\<bar>fl x - x\<bar> \<le> 2 / 2 ^ 53 * y" using fl_error[of x] by linarith
  moreover have "(k + 2) / 2 ^ 53 * y = k / 2 ^ 53 * y + 2 / 2 ^ 53 * y" by (simp add: field_simps)
  ultimately show ?thesis using assms(2) by linarith
qed

lemma js_round_near: "\<bar>x - of_int n\<bar> < 1 / 2 \<Longrightarrow> js_round x = n"
  unfolding js_round_def by (rule floor_unique) linarith+

lemma scaled: "0 < c \<Longrightarrow> \<bar>x - y\<bar> \<le> k * y \<Longrightarrow> \<bar>x * c - y * c\<bar> \<le> k * (y * c)" for x :: rat
  using mult_right_mono[of "\<bar>x - y\<bar>" "k * y" c] by (simp add: abs_mult mult.assoc flip: left_diff_distrib)

lemma sol_near: "0 \<le> y \<Longrightarrow> \<bar>fl (y / 1000000000) - y / 1000000000\<bar> \<le> 2 / 2 ^ 53 * (y / 1000000000)"
  using fl_close[of "y / 1000000000" "y / 1000000000" 0] by simp

lemma less_half: "n < 2 ^ 50 \<Longrightarrow> 4 / 2 ^ 53 * of_int n < (1 / 2 :: rat)" "n < 2 ^ 49 \<Longrightarrow> 0 \<le> n \<Longrightarrow> 6 / 2 ^ 53 * of_int n < (1 / 2 :: rat)"
proof -
  have "n < 2 ^ 50 \<Longrightarrow> (of_int n :: rat) < of_int (2 ^ 50)" "n < 2 ^ 49 \<Longrightarrow> (of_int n :: rat) < of_int (2 ^ 49)"
    by (simp_all only: of_int_less_iff)
  then show "n < 2 ^ 50 \<Longrightarrow> 4 / 2 ^ 53 * of_int n < (1 / 2 :: rat)" "n < 2 ^ 49 \<Longrightarrow> 0 \<le> n \<Longrightarrow> 6 / 2 ^ 53 * of_int n < (1 / 2 :: rat)"
    by simp_all
qed

lemma sol_roundtrip:
  assumes "0 \<le> n" "n < 2 ^ 50"
  shows "js_round (fl (fl (of_int n / 1000000000) * 1000000000)) = n"
proof -
  let ?y = "of_int n :: rat"
  have "\<bar>fl (?y / 1000000000) * 1000000000 - ?y\<bar> \<le> 2 / 2 ^ 53 * ?y"
    using scaled[OF _ sol_near, of 1000000000 ?y] assms(1) by simp
  then have "\<bar>fl (fl (?y / 1000000000) * 1000000000) - ?y\<bar> \<le> (2 + 2) / 2 ^ 53 * ?y"
    using assms(1) by (intro fl_close) simp_all
  then show ?thesis using less_half(1)[OF assms(2)] by (intro js_round_near) simp
qed

lemma sol_roundtrip10:
  assumes "0 \<le> n" "10 * n < 2 ^ 49"
  shows "js_round (fl (fl (fl (of_int n / 1000000000) * 10) * 1000000000)) = 10 * n"
proof -
  let ?y = "of_int n :: rat"
  have "\<bar>fl (?y / 1000000000) * 10 - ?y / 1000000000 * 10\<bar> \<le> 2 / 2 ^ 53 * (?y / 1000000000 * 10)"
    using assms(1) by (intro scaled sol_near) simp_all
  then have "\<bar>fl (fl (?y / 1000000000) * 10) - ?y / 1000000000 * 10\<bar> \<le> (2 + 2) / 2 ^ 53 * (?y / 1000000000 * 10)"
    using assms(1) by (intro fl_close) simp_all
  then have "\<bar>fl (fl (?y / 1000000000) * 10) * 1000000000 - ?y / 1000000000 * 10 * 1000000000\<bar>
      \<le> (2 + 2) / 2 ^ 53 * (?y / 1000000000 * 10 * 1000000000)"
    by (intro scaled) simp_all
  then have "\<bar>fl (fl (?y / 1000000000) * 10) * 1000000000 - of_int (10 * n)\<bar> \<le> (2 + 2) / 2 ^ 53 * of_int (10 * n)"
    by (simp add: mult.commute)
  then have "\<bar>fl (fl (fl (?y / 1000000000) * 10) * 1000000000) - of_int (10 * n)\<bar> \<le> (2 + 2 + 2) / 2 ^ 53 * of_int (10 * n)"
    using assms(1) by (intro fl_close) simp_all
  then show ?thesis using less_half(2)[OF assms(2)] assms(1) by (intro js_round_near) simp
qed

lemma lamports_max: "lamportsOf (max x y) = max (lamportsOf x) (lamportsOf y)"
  by (cases "x \<le> y") (simp_all add: lamports_mono max_absorb1 max_absorb2)

subsection \<open>Properties\<close>

text \<open>
  A quote stays between its floor and its cap. For a base price of at most a million SOL the rounding of the doubles
  does not show: a guest pays at least the base price and never more than 10 SOL or the base price, a scalper at
  least ten times the base price and never more than 1000 SOL or that, everyone else exactly the base price; and
  the deposit is what is paid over the base price.
\<close>

theorem vrgda_quote_in_range:
  assumes "calculateVrgdaPrice clockMs inp = Inr q" "0 < vi_basePrice inp" "10 * vi_basePrice inp < 2 ^ 49"
  shows "vq_deposit q = vq_finalPrice q - vi_basePrice inp
     \<and> (if opt_or (vi_tierLevel inp) 2 = 2 then vi_basePrice inp \<le> vq_finalPrice q \<and> vq_finalPrice q \<le> max (vi_basePrice inp) (10 * 10 ^ 9)
        else if opt_or (vi_tierLevel inp) 2 = 3
        then 10 * vi_basePrice inp \<le> vq_finalPrice q \<and> vq_finalPrice q \<le> max (10 * vi_basePrice inp) (1000 * 10 ^ 9)
        else vq_finalPrice q = vi_basePrice inp)"
proof -
  define b where "b = vi_basePrice inp"
  define sol :: rat where "sol = fl (of_int b / 1000000000)"
  define d where "d = salesDifferenceOf clockMs inp"
  have b: "0 < b" "10 * b < 2 ^ 49" using assms(2,3) by (simp_all add: b_def)
  then have exact: "fl (of_int b) = of_int b" by simp
  have base: "lamportsOf sol = b" using sol_roundtrip[of b] b by (simp add: lamportsOf_def sol_def)
  have ten: "lamportsOf (fl (sol * 10)) = 10 * b" using sol_roundtrip10[of b] b by (simp add: lamportsOf_def sol_def)
  have caps: "lamportsOf GUEST_CAP_SOL = 10 * 10 ^ 9" "lamportsOf SCALPER_CAP_SOL = 1000 * 10 ^ 9" by code_simp+
  have guest: "b \<le> lamportsOf (guestPrice sol d)" "lamportsOf (guestPrice sol d) \<le> max b (10 * 10 ^ 9)"
    using lamports_mono[of sol "guestPrice sol d"] lamports_mono[of "guestPrice sol d" "max sol GUEST_CAP_SOL"]
    by (simp_all add: lamports_max base caps price_forms(1) min.coboundedI1 max.coboundedI2)
  have scalper: "10 * b \<le> lamportsOf (scalperPrice sol d)" "lamportsOf (scalperPrice sol d) \<le> max (10 * b) (1000 * 10 ^ 9)"
    using lamports_mono[of "fl (sol * 10)" "scalperPrice sol d"]
      lamports_mono[of "scalperPrice sol d" "max (fl (sol * 10)) SCALPER_CAP_SOL"]
    by (simp_all add: lamports_max ten caps price_forms(2) min.coboundedI1 max.coboundedI2)
  define final where "final = lamportsOf (if opt_or (vi_tierLevel inp) 2 = 3 then scalperPrice sol d
             else if opt_or (vi_tierLevel inp) 2 = 2 then guestPrice sol d else sol)"
  have q: "vq_finalPrice q = final" "vq_deposit q = (if b \<le> final then final - b else 0)"
    using assms(1) exact
    by (auto simp: calculateVrgdaPrice_def Let_def js_simps final_def sol_def d_def b_def)
  then show ?thesis using guest scalper base b(1) unfolding b_def[symmetric] final_def by auto
qed

definition sample_vrgda :: vrgda_inputs where
  "sample_vrgda = \<lparr>vi_basePrice = 1500000000, vi_targetRateBps = 100, vi_startTime = 1000, vi_itemsSold = 2600, vi_now = Some 11000,
     vi_tierLevel = None, vi_customSold = None, vi_customTimeElapsedHours = None\<rparr>"

theorem vrgda_quote_in_range_witness:
  "\<exists>q. calculateVrgdaPrice 0 sample_vrgda = Inr q \<and> vq_finalPrice q = 2250000000 \<and> vq_deposit q = 750000000"
proof -
  have "map_sum id vq_finalPrice (calculateVrgdaPrice 0 sample_vrgda) = Inr 2250000000" by code_simp
  then obtain q where q: "calculateVrgdaPrice 0 sample_vrgda = Inr q" "vq_finalPrice q = 2250000000"
    by (cases "calculateVrgdaPrice 0 sample_vrgda") auto
  have "vi_basePrice sample_vrgda = 1500000000" by (simp add: sample_vrgda_def)
  then show ?thesis using vrgda_quote_in_range[OF q(1)] q by simp
qed

text \<open>
  The decay never lowers a price: with any factor of at most 1 in its place, 1 or the least included, both functions
  give the same, because it only applies where the multiplier is 1, and a multiplier below 1 is raised to 1.
\<close>

theorem decay_is_idle:
  "guestPrice b d = max b (min 10 (fl (b * fl (1 + fl (max 0 d / 5000)))))
   \<and> scalperPrice b d = max (fl (b * 10)) (min 1000 (fl (fl (b * fl (1 + fl (fl (max 0 d / 3000) ^ 2))) * 10)))
   \<and> (d \<le> 0 \<longrightarrow> 0 \<le> b \<longrightarrow> b = fl b \<longrightarrow> guestPrice b d = max b (min 10 b) \<and> decayFactor d \<le> 1)"
  using decay_range[of d]
  by (auto simp: price_forms guestMultiplier_def scalperMultiplier_def salesAhead_def vrgda_constants)

theorem decay_is_idle_witness: "decayFactor (- 4000) < 1 \<and> guestPrice 2 (- 4000) = 2"
proof -
  have "decayFactor (- 4000) < 1" by code_simp
  moreover have "fl 2 = (2::rat)" using fl_of_int[of 2] by simp
  ultimately show ?thesis using decay_is_idle[of 2 "- 4000"] by simp
qed

text \<open>
  The hook's price moves the way it should: it does not fall when more is sold, does not rise as time passes, and a
  worse tier never pays less than a better one.
\<close>

theorem hook_price_is_monotone:
  assumes "0 \<le> basePrice" "0 \<le> rate" "sold \<le> sold'" "now' \<le> now"
  shows "computeVrgdaPrice basePrice rate sold start tier now \<le> computeVrgdaPrice basePrice rate sold' start tier now'
     \<and> computeVrgdaPrice basePrice rate sold start 1 now \<le> computeVrgdaPrice basePrice rate sold start 2 now
     \<and> computeVrgdaPrice basePrice rate sold start 2 now \<le> computeVrgdaPrice basePrice rate sold start 3 now
     \<and> 0 \<le> computeVrgdaPrice basePrice rate sold start tier now"
proof -
  define m where "m = (\<lambda>sold now. max (- 5000) (min 5000 (js_round (fl (fl (sold - fl (fl (max 0 (fl (now - start)) * rate) / 10000)) * 100)))))"
  define p where "p = (\<lambda>k. fl (fl (fl (basePrice * of_int (10000 + k)) / 10000) * 10000))"
  have price: "computeVrgdaPrice basePrice rate s start t n = \<lfloor>fl (p (m s n) / max (tierToAlphaBps t) 500)\<rfloor>" for s t n
    by (simp add: computeVrgdaPrice_def Let_def p_def m_def)
  have p_mono: "p k \<le> p l" if "k \<le> l" for k l
    unfolding p_def using that assms(1) by (intro fl_mono mult_right_mono divide_right_mono mult_left_mono) simp_all
  have p_nonneg: "0 \<le> p k" if "- 10000 \<le> k" for k
    unfolding p_def using that assms(1) by (intro fl_nonneg mult_nonneg_nonneg divide_nonneg_nonneg) simp_all
  have m_low: "- 5000 \<le> m s n" for s n by (simp add: m_def)
  have "max 0 (fl (now' - start)) \<le> max 0 (fl (now - start))" using assms(4) fl_mono[of "now' - start" "now - start"] by (auto simp: max_def)
  then have "fl (fl (max 0 (fl (now' - start)) * rate) / 10000) \<le> fl (fl (max 0 (fl (now - start)) * rate) / 10000)"
    using assms(2) by (intro fl_mono divide_right_mono mult_right_mono) simp_all
  then have "js_round (fl (fl (sold - fl (fl (max 0 (fl (now - start)) * rate) / 10000)) * 100))
      \<le> js_round (fl (fl (sold' - fl (fl (max 0 (fl (now' - start)) * rate) / 10000)) * 100))"
    using assms(3) by (intro js_round_mono fl_mono mult_right_mono) simp_all
  then have "m sold now \<le> m sold' now'" by (auto simp: m_def)
  note mm = p_mono[OF this]
  have t: "0 < max (tierToAlphaBps t) 500" for t by (simp add: less_max_iff_disj)
  have "\<lfloor>fl (p (m sold now) / max (tierToAlphaBps tier) 500)\<rfloor> \<le> \<lfloor>fl (p (m sold' now') / max (tierToAlphaBps tier) 500)\<rfloor>"
    using mm t[of tier] by (intro floor_mono fl_mono divide_right_mono) simp_all
  moreover have n: "0 \<le> p (m sold now)" using p_nonneg m_low[of sold now] by simp
  then have "\<lfloor>fl (p (m sold now) / 10000)\<rfloor> \<le> \<lfloor>fl (p (m sold now) / 5000)\<rfloor>"
    "\<lfloor>fl (p (m sold now) / 5000)\<rfloor> \<le> \<lfloor>fl (p (m sold now) / 2500)\<rfloor>"
    by (intro floor_mono fl_mono divide_left_mono; simp)+
  moreover have "0 \<le> fl (p (m sold now) / max (tierToAlphaBps tier) 500)" using n t[of tier] by (intro fl_nonneg divide_nonneg_nonneg) simp_all
  ultimately show ?thesis unfolding price by (simp add: tierToAlphaBps_def)
qed

theorem hook_price_is_monotone_witness:
  "computeVrgdaPrice 1000 100 5 0 2 1000 = 1900 \<and> 1900 \<le> computeVrgdaPrice 1000 100 7 0 2 900"
proof -
  have "computeVrgdaPrice 1000 100 5 0 2 1000 = 1900" by code_simp
  then show ?thesis using hook_price_is_monotone[of 1000 100 5 7 900 1000 0 2] by simp
qed

end
