(* ===== verification/Redis_Client.thy ===== *)
theory Redis_Client
  imports Rate_Limit Replay_Store "HOL-Library.Multiset"
begin

section \<open>The connection to Redis (getRedisClient in rate_limit.ts and proof_replay_store.ts)\<close>

text \<open>
  Both modules of services/shield-oracle/src hold a client and the promise of a connection in flight, with the
  same function around them; each has its own copy of the state below. A client is any value; creating one, its
  \<open>isOpen\<close> and the outcome of \<open>connect()\<close> are events of the environment. Callers are numbers. The
  relation \<open>redis_history\<close> holds the states that events lead to, with a log of what happened.
\<close>

subsection \<open>State\<close>

text \<open>
  The promise in \<open>redisConnectInFlight\<close>: pending, with the client that is being connected, or settled with a
  value. \<open>awaiting\<close> are the calls that await it.
\<close>

datatype 'c in_flight = Connecting 'c | Settled "'c option"

record 'c connection =
  redisClient :: "'c option"
  redisConnectInFlight :: "'c in_flight option"
  awaiting :: "nat list"

definition no_connection :: "'c connection" where
  "no_connection = \<lparr>redisClient = None, redisConnectInFlight = None, awaiting = []\<rparr>"

subsection \<open>Operations\<close>

definition redisUrl :: "env \<Rightarrow> string option" where
  "redisUrl env = (if opt_or (env ''REDIS_URL'') [] = [] then None else env ''REDIS_URL'')"

definition openClient :: "('c \<Rightarrow> bool) \<Rightarrow> 'c option \<Rightarrow> 'c option" where
  "openClient isOpen client = (case client of Some c \<Rightarrow> if isOpen c then Some c else None | None \<Rightarrow> None)"

text \<open>
  A call up to its first pause. \<open>created\<close> is what \<open>createClient\<close> makes of the address, \<open>None\<close> when it
  throws: then \<open>finally\<close> clears the variable before the assignment stores the promise, which is settled with
  \<open>null\<close>. The result is the answer, or \<open>None\<close> while the caller awaits the connection.
\<close>

definition getRedisClient ::
  "env \<Rightarrow> ('c \<Rightarrow> bool) \<Rightarrow> (string \<Rightarrow> 'c option) \<Rightarrow> nat \<Rightarrow> 'c connection \<Rightarrow> 'c connection \<times> 'c option option" where
  "getRedisClient env isOpen createClient caller st =
     (case openClient isOpen (redisClient st) of
        Some c \<Rightarrow> (st, Some (Some c))
      | None \<Rightarrow>
        (case redisConnectInFlight st of
           Some (Settled v) \<Rightarrow> (st, Some v)
         | Some (Connecting c) \<Rightarrow> (st\<lparr>awaiting := awaiting st @ [caller]\<rparr>, None)
         | None \<Rightarrow>
           (case redisUrl env of
              None \<Rightarrow> (st, Some None)
            | Some url \<Rightarrow>
              (case createClient url of
                 Some client \<Rightarrow>
                   (st\<lparr>redisConnectInFlight := Some (Connecting client), awaiting := awaiting st @ [caller]\<rparr>, None)
               | None \<Rightarrow> (st\<lparr>redisConnectInFlight := Some (Settled None)\<rparr>, Some None)))))"

text \<open>The rest of the attempt when \<open>client.connect()\<close> has settled: the answer of every call that awaits it.\<close>

definition connectSettled :: "bool \<Rightarrow> 'c connection \<Rightarrow> 'c connection \<times> (nat \<times> 'c option) list" where
  "connectSettled ok st =
     (case redisConnectInFlight st of
        Some (Connecting client) \<Rightarrow>
          (let v = (if ok then Some client else None) in
           (\<lparr>redisClient = (if ok then Some client else redisClient st), redisConnectInFlight = None, awaiting = []\<rparr>,
            map (\<lambda>caller. (caller, v)) (awaiting st)))
      | _ \<Rightarrow> (st, []))"

text \<open>What the two modules do with the answer: the client is used while it is open, by the operation they need.\<close>

definition usable :: "('c \<Rightarrow> bool) \<Rightarrow> ('c \<Rightarrow> 'f) \<Rightarrow> 'c option \<Rightarrow> 'f option" where
  "usable isOpen operation answer = map_option operation (openClient isOpen answer)"

definition rateLimitWith ::
  "env \<Rightarrow> ('c \<Rightarrow> bool) \<Rightarrow> ('c \<Rightarrow> string \<Rightarrow> int \<Rightarrow> redis_reply) \<Rightarrow> 'c option \<Rightarrow> int \<Rightarrow> string \<Rightarrow> string option \<Rightarrow> rate_state \<Rightarrow>
   rate_state \<times> rate_decision" where
  "rateLimitWith env isOpen evalScript answer now ip wallet st =
     evaluateShieldRateLimit env (usable isOpen evalScript answer) now ip wallet st"

definition replayClaimWith ::
  "env \<Rightarrow> ('c \<Rightarrow> bool) \<Rightarrow> ('c \<Rightarrow> string \<Rightarrow> int \<Rightarrow> redis_set_reply) \<Rightarrow> 'c option \<Rightarrow> int \<Rightarrow> int \<Rightarrow> replay_store \<Rightarrow> string \<Rightarrow>
   replay_store \<times> replay_claim_result" where
  "replayClaimWith env isOpen setNx answer now ttlSecs m identifier =
     claimProofIdentifierForReplayProtection env (usable isOpen setNx answer) now ttlSecs m identifier"

subsection \<open>Histories\<close>

datatype 'c redis_log = Asked nat | Created 'c | Attempt_over 'c bool | Answered nat "'c option"

fun asked_by :: "'c redis_log \<Rightarrow> nat option" where
  "asked_by (Asked n) = Some n"
| "asked_by _ = None"

fun answered_to :: "'c redis_log \<Rightarrow> nat option" where
  "answered_to (Answered n v) = Some n"
| "answered_to _ = None"

text \<open>The attempts of a log that are not over, as a list of clients.\<close>

fun open_attempts :: "'c redis_log list \<Rightarrow> 'c list" where
  "open_attempts [] = []"
| "open_attempts (Created c # hist) = c # open_attempts hist"
| "open_attempts (Attempt_over c ok # hist) = remove1 c (open_attempts hist)"
| "open_attempts (_ # hist) = open_attempts hist"

definition attempt_log :: "'c connection \<Rightarrow> 'c connection \<Rightarrow> 'c redis_log list" where
  "attempt_log st st' =
     (case (redisConnectInFlight st, redisConnectInFlight st') of
        (None, Some (Connecting c)) \<Rightarrow> [Created c]
      | _ \<Rightarrow> [])"

text \<open>A log has its newest entry first.\<close>

inductive redis_history :: "env \<Rightarrow> 'c connection \<Rightarrow> 'c redis_log list \<Rightarrow> bool" for env :: env where
  history_start: "redis_history env no_connection []"
| history_answer: "redis_history env st hist \<Longrightarrow> getRedisClient env isOpen createClient n st = (st', Some v) \<Longrightarrow>
     redis_history env st' (Answered n v # Asked n # hist)"
| history_wait: "redis_history env st hist \<Longrightarrow> getRedisClient env isOpen createClient n st = (st', None) \<Longrightarrow>
     redis_history env st' (attempt_log st st' @ Asked n # hist)"
| history_settle: "redis_history env st hist \<Longrightarrow> redisConnectInFlight st = Some (Connecting c) \<Longrightarrow>
     connectSettled ok st = (st', answers) \<Longrightarrow>
     redis_history env st' (map (\<lambda>(n, v). Answered n v) answers @ Attempt_over c ok # hist)"

inductive_cases redis_historyE: "redis_history env st hist"

definition asked :: "'c redis_log list \<Rightarrow> nat multiset" where
  "asked hist = mset (List.map_filter asked_by hist)"

definition answered :: "'c redis_log list \<Rightarrow> nat multiset" where
  "answered hist = mset (List.map_filter answered_to hist)"

lemma log_simps [simp]:
  "asked [] = {#}" "asked (Asked n # hist) = add_mset n (asked hist)" "asked (Created c # hist) = asked hist"
  "asked (Attempt_over c ok # hist) = asked hist" "asked (Answered n v # hist) = asked hist"
  "answered [] = {#}" "answered (Asked n # hist) = answered hist" "answered (Created c # hist) = answered hist"
  "answered (Attempt_over c ok # hist) = answered hist" "answered (Answered n v # hist) = add_mset n (answered hist)"
  by (simp_all add: asked_def answered_def List.map_filter_simps)

lemma image_fst_pairs [simp]: "image_mset fst {#(x, v). x \<in># M#} = M"
  by (induction M) simp_all

lemma log_answers [simp]:
  "asked (map (\<lambda>(n, v). Answered n v) answers @ hist) = asked hist"
  "answered (map (\<lambda>(n, v). Answered n v) answers @ hist) = mset (map fst answers) + answered hist"
  "open_attempts (map (\<lambda>(n, v). Answered n v) answers @ hist) = open_attempts hist"
  by (induction answers) auto

text \<open>What every history keeps.\<close>

definition connection_inv :: "'c connection \<Rightarrow> 'c redis_log list \<Rightarrow> bool" where
  "connection_inv st hist \<longleftrightarrow>
     open_attempts hist = (case redisConnectInFlight st of Some (Connecting c) \<Rightarrow> [c] | _ \<Rightarrow> [])
     \<and> asked hist = answered hist + mset (awaiting st)
     \<and> (awaiting st \<noteq> [] \<longleftrightarrow> (\<exists>c. redisConnectInFlight st = Some (Connecting c)))
     \<and> (\<forall>c. redisClient st = Some c \<longrightarrow> Attempt_over c True \<in> set hist)
     \<and> (\<forall>n c. Answered n (Some c) \<in> set hist \<longrightarrow> Attempt_over c True \<in> set hist)
     \<and> (\<forall>v. redisConnectInFlight st = Some (Settled v) \<longrightarrow> v = None)"

lemma openClient_SomeD: "openClient isOpen client = Some c \<Longrightarrow> client = Some c \<and> isOpen c"
  by (cases client) (auto simp: openClient_def split: if_splits)

lemma getRedisClient_answer:
  assumes "getRedisClient env isOpen createClient n st = (st', Some v)"
  obtains c where "st' = st" "v = Some c" "redisClient st = Some c"
  | w where "st' = st" "redisConnectInFlight st = Some (Settled w)" "v = w"
  | "st' = st" "v = None"
  | "redisConnectInFlight st = None" "st' = st\<lparr>redisConnectInFlight := Some (Settled None)\<rparr>" "v = None"
proof (cases "openClient isOpen (redisClient st)")
  case None
  then show ?thesis using assms that(2,3,4)
    by (simp add: getRedisClient_def split: option.splits in_flight.splits)
next
  case (Some c)
  with assms have "st' = st" "v = Some c" by (simp_all add: getRedisClient_def)
  then show ?thesis using that(1) openClient_SomeD[OF Some] by blast
qed

lemma getRedisClient_wait:
  assumes "getRedisClient env isOpen createClient n st = (st', None)"
  obtains c where "redisConnectInFlight st = Some (Connecting c)" "st' = st\<lparr>awaiting := awaiting st @ [n]\<rparr>"
  | c where "redisConnectInFlight st = None"
      "st' = st\<lparr>redisConnectInFlight := Some (Connecting c), awaiting := awaiting st @ [n]\<rparr>"
proof (cases "openClient isOpen (redisClient st)")
  case None
  then show ?thesis using assms that
    by (simp add: getRedisClient_def split: option.splits in_flight.splits) (metis | blast)+
next
  case (Some c)
  then show ?thesis using assms by (simp add: getRedisClient_def)
qed

lemma connection_inv_history: "redis_history env st hist \<Longrightarrow> connection_inv st hist"
proof (induction rule: redis_history.induct)
  case history_start
  then show ?case by (simp add: connection_inv_def no_connection_def)
next
  case (history_answer st hist isOpen createClient n st' v)
  from history_answer(2,3) show ?case
    by (elim getRedisClient_answer) (auto simp: connection_inv_def)
next
  case (history_wait st hist isOpen createClient n st')
  from history_wait(2,3) show ?case
    by (elim getRedisClient_wait) (auto simp: connection_inv_def attempt_log_def)
next
  case (history_settle st hist c ok st' answers)
  then show ?case
    by (auto simp: connection_inv_def connectSettled_def Let_def comp_def image_def split: if_splits)
qed

subsection \<open>Properties\<close>

text \<open>
  C19. Calls share one connection attempt: whatever the order of calls and outcomes, at most one attempt is pending,
  calls wait exactly while one is, each call has been answered once or is waiting, and a client that was handed out
  had connected. So when no attempt is pending every call has its answer.
\<close>

theorem redis_attempts_are_shared:
  assumes "redis_history env st hist"
  shows "length (open_attempts hist) \<le> 1
     \<and> (awaiting st \<noteq> [] \<longleftrightarrow> open_attempts hist \<noteq> [])
     \<and> asked hist = answered hist + mset (awaiting st)
     \<and> (open_attempts hist = [] \<longrightarrow> asked hist = answered hist)
     \<and> (\<forall>n c. Answered n (Some c) \<in> set hist \<longrightarrow> Attempt_over c True \<in> set hist)"
proof -
  have inv: "connection_inv st hist" by (rule connection_inv_history[OF assms])
  then show ?thesis
    by (cases "redisConnectInFlight st") (auto simp: connection_inv_def split: in_flight.splits)
qed

definition sample_url :: env where
  "sample_url name = (if name = ''REDIS_URL'' then Some ''redis://h'' else if name = ''NODE_ENV'' then Some ''production'' else None)"

theorem redis_attempts_are_shared_witness:
  "\<exists>st hist. redis_history sample_url st hist \<and> asked hist = {#1, 2, 3#} \<and> answered hist = {#1, 2, 3#}
     \<and> Answered 2 (Some 7) \<in> set hist \<and> Attempt_over (7 :: nat) True \<in> set hist"
proof -
  let ?c = "\<lambda>_. Some 7" and ?s = "\<lambda>cl fl ws. \<lparr>redisClient = cl, redisConnectInFlight = fl, awaiting = ws\<rparr> :: nat connection"
  note ev = Let_def getRedisClient_def redisUrl_def sample_url_def connectSettled_def openClient_def attempt_log_def no_connection_def
  have 1: "redis_history sample_url (?s None (Some (Connecting 7)) [1]) [Created 7, Asked 1]"
    using history_wait[OF history_start, where isOpen="\<lambda>_. True" and createClient="?c" and n=1 and env=sample_url] by (simp add: ev)
  have 2: "redis_history sample_url (?s None (Some (Connecting 7)) [1, 2]) [Asked 2, Created 7, Asked 1]"
    using history_wait[OF 1, of "\<lambda>_. True" ?c 2] by (simp add: ev)
  have 3: "redis_history sample_url (?s (Some 7) None []) [Answered 1 (Some 7), Answered 2 (Some 7), Attempt_over 7 True, Asked 2, Created 7, Asked 1]"
    using history_settle[OF 2, of 7 True] by (simp add: ev)
  have 4: "redis_history sample_url (?s (Some 7) None []) [Answered 3 (Some 7), Asked 3, Answered 1 (Some 7), Answered 2 (Some 7), Attempt_over 7 True, Asked 2, Created 7, Asked 1]"
    using history_answer[OF 3, of "\<lambda>_. True" ?c 3] by (simp add: ev)
  from redis_attempts_are_shared[OF 4] 4 show ?thesis by (intro exI conjI) (assumption, simp_all add: add_mset_commute)
qed

text \<open>No client and a promise settled with \<open>null\<close>: no call leaves this state, whatever the address is by then.\<close>

definition never_connects :: "'c connection \<Rightarrow> bool" where
  "never_connects st \<longleftrightarrow> redisClient st = None \<and> awaiting st = [] \<and> redisConnectInFlight st = Some (Settled None)"

lemma never_connects_call:
  "never_connects st \<Longrightarrow> getRedisClient env isOpen createClient n st = (st, Some None)"
  by (auto simp: never_connects_def getRedisClient_def openClient_def)

lemma never_connects_settle: "never_connects st \<Longrightarrow> connectSettled ok st = (st, [])"
  by (auto simp: never_connects_def connectSettled_def)

lemma no_address_call:
  "redisUrl env = None \<Longrightarrow> getRedisClient env isOpen createClient n no_connection = (no_connection, Some None)"
  "connectSettled ok no_connection = (no_connection, [])"
  by (simp_all add: no_connection_def getRedisClient_def openClient_def connectSettled_def)


definition moved_url :: env where
  "moved_url name = (if name = ''REDIS_URL'' then Some ''redis://k'' else if name = ''NODE_ENV'' then Some ''production'' else None)"


end
