(* ===== verification/Wallet_Flow.thy ===== *)
theory Wallet_Flow
  imports Client_Instructions Api_Input
begin

section \<open>Flows of the pages (hooks/)\<close>

text \<open>
  What the three hooks that send transactions share. A flow is an \<open>async\<close> function of a hook: it keeps the state
  of the hook, throws, catches, and asks the network and the wallet. The calls it makes are kept in order, and
  what the network answers may depend on all of them. \<open>flow_keeps\<close> is a small calculus of what a flow returns
  and which transactions it may have signed, \<open>flow_count\<close> one of how many it signs. Other handlers may run while a flow waits; a flow reads the state
  of the hook only as its argument, the values of the render it was made in.
\<close>

subsection \<open>Transactions and calls\<close>

text \<open>
  The instructions of the pages; those of the ticket program of the first version are made by Anchor from its
  method and arguments.
\<close>

datatype instruction = Compute_unit_limit int | Ed25519_verify ed25519_args | Invoke transaction_instruction
  | Buy_ticket int pubkey int int int "(string \<times> pubkey) list"

record transaction =
  tx_instructions :: "instruction list"
  tx_recentBlockhash :: string
  tx_feePayer :: pubkey

datatype call = Fetched string jsval | Read_account pubkey | Read_programs | Asked_blockhash | Signed transaction
  | Sent bytes | Confirmed string | Read_logs string

text \<open>
  An answer of \<open>fetch\<close>: none, with the message of its error; a text that is no JSON; a failed status with its
  body; or a body of the shape that the route answers with.
\<close>

datatype 'a reply = No_answer js_error | Not_json int string | Refused int jsval | Replied 'a

record 'a network =
  nw_fetch :: "call list \<Rightarrow> string \<Rightarrow> jsval \<Rightarrow> 'a reply"
  nw_account :: "call list \<Rightarrow> pubkey \<Rightarrow> bytes option result"
  nw_programs :: "call list \<Rightarrow> (pubkey \<times> bytes) list result"
  nw_blockhash :: "call list \<Rightarrow> string result"
  nw_sign :: "call list \<Rightarrow> transaction \<Rightarrow> bytes result"
  nw_send :: "call list \<Rightarrow> bytes \<Rightarrow> string result"
  nw_confirm :: "call list \<Rightarrow> string \<Rightarrow> string option result"
  nw_logs :: "call list \<Rightarrow> string \<Rightarrow> string list result"

text \<open>The wallet of the page: the key it is connected with, and whether it has \<open>signTransaction\<close>.\<close>

record wallet =
  wl_publicKey :: "pubkey option"
  wl_canSign :: bool

text \<open>What a hook finds around it: environment, path, chain, program, wallet, key codec, texts of errors.\<close>

record page =
  pg_env :: env
  pg_path :: "string option"
  pg_chain :: chain
  pg_programId :: "pubkey option"
  pg_wallet :: wallet
  pg_base58 :: "pubkey \<Rightarrow> string"
  pg_pubkey :: "string \<Rightarrow> pubkey result"
  pg_text :: "js_error \<Rightarrow> string"

subsection \<open>Flows\<close>

type_synonym ('h, 'a) flow = "call list \<Rightarrow> 'h \<Rightarrow> call list \<times> 'h \<times> 'a result"

definition lift :: "'a result \<Rightarrow> ('h, 'a) flow" where
  "lift r cs h = (cs, h, r)"

definition bind :: "('h, 'a) flow \<Rightarrow> ('a \<Rightarrow> ('h, 'b) flow) \<Rightarrow> ('h, 'b) flow" where
  "bind f g cs h = (case f cs h of (cs', h', Inl e) \<Rightarrow> (cs', h', Inl e) | (cs', h', Inr x) \<Rightarrow> g x cs' h')"

definition ask :: "call \<Rightarrow> (call list \<Rightarrow> 'a result) \<Rightarrow> ('h, 'a) flow" where
  "ask c answer cs h = (cs @ [c], h, answer cs)"

definition update :: "('h \<Rightarrow> 'h) \<Rightarrow> ('h, unit) flow" where
  "update f cs h = (cs, f h, Inr ())"

text \<open>\<open>try { f } catch (error) { handler }\<close>\<close>

definition catching :: "('h, 'a) flow \<Rightarrow> (js_error \<Rightarrow> ('h, 'a) flow) \<Rightarrow> ('h, 'a) flow" where
  "catching f handler cs h = (case f cs h of (cs', h', Inl e) \<Rightarrow> handler e cs' h' | (cs', h', Inr x) \<Rightarrow> (cs', h', Inr x))"

abbreviation andThen :: "('h, unit) flow \<Rightarrow> ('h, 'b) flow \<Rightarrow> ('h, 'b) flow" where
  "andThen f g \<equiv> bind f (\<lambda>_. g)"

text \<open>\<open>try { f } finally { setLoading(false) }\<close>, where the body of the \<open>try\<close> and its \<open>catch\<close> do not throw.\<close>

definition finishing :: "('h, 'a) flow \<Rightarrow> ('h \<Rightarrow> 'h) \<Rightarrow> ('h, 'a) flow" where
  "finishing f g cs h = (case f cs h of (cs', h', r) \<Rightarrow> (cs', g h', r))"

text \<open>The transactions that were signed.\<close>

definition signed_in :: "call list \<Rightarrow> transaction list" where
  "signed_in calls = List.map_filter (\<lambda>c. case c of Signed tx \<Rightarrow> Some tx | _ \<Rightarrow> None) calls"

lemma signed_in_hd:
  assumes "length (signed_in calls) = 1"
  shows "Signed (hd (signed_in calls)) \<in> set calls"
proof -
  have "hd (signed_in calls) \<in> set (signed_in calls)" using assms by (cases "signed_in calls") auto
  then show ?thesis by (auto simp: signed_in_def List.map_filter_def split: call.splits)
qed

named_theorems flow_simps

lemmas [flow_simps] = lift_def bind_def ask_def update_def catching_def finishing_def

subsection \<open>What a flow returns and has signed\<close>

text \<open>
  Run in any state after any calls, the flow only adds calls, of which every signed transaction satisfies
  \<open>P\<close>; and if it returns, the value satisfies \<open>Q\<close> (which may look at the calls).
\<close>

definition flow_keeps :: "(transaction \<Rightarrow> bool) \<Rightarrow> ('h, 'a) flow \<Rightarrow> ('a \<Rightarrow> bool) \<Rightarrow> bool" where
  "flow_keeps P f Q \<longleftrightarrow> (\<forall>cs h cs' h' r. f cs h = (cs', h', r) \<longrightarrow>
     (\<exists>new. cs' = cs @ new \<and> (\<forall>tx. Signed tx \<in> set new \<longrightarrow> P tx)) \<and> (\<forall>x. r = Inr x \<longrightarrow> Q x))"

lemma keepsD:
  assumes "flow_keeps P f Q" "f cs h = (cs', h', r)"
  shows "\<exists>new. cs' = cs @ new \<and> (\<forall>tx. Signed tx \<in> set new \<longrightarrow> P tx)" "r = Inr x \<Longrightarrow> Q x"
  using assms by (simp_all add: flow_keeps_def)

lemma keeps_signed:
  assumes "flow_keeps P f Q" "f cs h = (cs', h', r)" "Signed tx \<in> set cs'" "Signed tx \<notin> set cs"
  shows "P tx"
  using keepsD(1)[OF assms(1,2)] assms(3,4) by auto

lemma keeps_weaken: "flow_keeps P f Q \<Longrightarrow> (\<And>x. Q x \<Longrightarrow> Q' x) \<Longrightarrow> flow_keeps P f Q'"
  unfolding flow_keeps_def by blast

lemma keeps_True: "flow_keeps P f Q \<Longrightarrow> flow_keeps P f (\<lambda>_. True)"
  by (rule keeps_weaken) simp_all

lemma keeps_lift [simp]: "flow_keeps P (lift r) Q \<longleftrightarrow> (\<forall>x. r = Inr x \<longrightarrow> Q x)"
  by (simp add: flow_keeps_def lift_def)

lemma keeps_update [simp]: "flow_keeps P (update f) (\<lambda>_. True)"
  by (simp add: flow_keeps_def update_def)

lemma keeps_call:
  assumes "\<And>tx. c = Signed tx \<Longrightarrow> P tx" "\<And>cs x. answer cs = Inr x \<Longrightarrow> Q x"
  shows "flow_keeps P (ask c answer) Q"
  using assms unfolding flow_keeps_def ask_def by auto

lemma keeps_bind:
  assumes "flow_keeps P f Q" "\<And>x. Q x \<Longrightarrow> flow_keeps P (g x) R"
  shows "flow_keeps P (bind f g) R"
  unfolding flow_keeps_def
proof (intro allI impI)
  fix cs h cs' h' r
  assume run: "bind f g cs h = (cs', h', r)"
  obtain c1 h1 r1 where f: "f cs h = (c1, h1, r1)" by (cases "f cs h")
  obtain new where new: "c1 = cs @ new" "\<forall>tx. Signed tx \<in> set new \<longrightarrow> P tx" using keepsD(1)[OF assms(1) f] by blast
  show "(\<exists>new. cs' = cs @ new \<and> (\<forall>tx. Signed tx \<in> set new \<longrightarrow> P tx)) \<and> (\<forall>x. r = Inr x \<longrightarrow> R x)"
  proof (cases r1)
    case (Inl e)
    then show ?thesis using run f new by (auto simp: bind_def)
  next
    case (Inr x)
    then have g: "g x c1 h1 = (cs', h', r)" using run f by (simp add: bind_def)
    have k: "flow_keeps P (g x) R" using assms(2) keepsD(2)[OF assms(1) f] Inr by blast
    from keepsD(1)[OF k g] new keepsD(2)[OF k g] show ?thesis by (metis (no_types, lifting) Un_iff append.assoc set_append)
  qed
qed

lemma keeps_catching:
  assumes "flow_keeps P f Q" "\<And>e. flow_keeps P (handler e) Q"
  shows "flow_keeps P (catching f handler) Q"
  unfolding flow_keeps_def
proof (intro allI impI)
  fix cs h cs' h' r
  assume run: "catching f handler cs h = (cs', h', r)"
  obtain c1 h1 r1 where f: "f cs h = (c1, h1, r1)" by (cases "f cs h")
  obtain new where new: "c1 = cs @ new" "\<forall>tx. Signed tx \<in> set new \<longrightarrow> P tx" using keepsD(1)[OF assms(1) f] by blast
  show "(\<exists>new. cs' = cs @ new \<and> (\<forall>tx. Signed tx \<in> set new \<longrightarrow> P tx)) \<and> (\<forall>x. r = Inr x \<longrightarrow> Q x)"
  proof (cases r1)
    case (Inr x)
    then show ?thesis using run f new keepsD(2)[OF assms(1) f] by (auto simp: catching_def)
  next
    case (Inl e)
    then have g: "handler e c1 h1 = (cs', h', r)" using run f by (simp add: catching_def)
    from keepsD(1)[OF assms(2) g] new keepsD(2)[OF assms(2) g] show ?thesis
      by (metis (no_types, lifting) Un_iff append.assoc set_append)
  qed
qed

lemma keeps_andThen: "flow_keeps P g R \<Longrightarrow> flow_keeps P (andThen (update f) g) R"
  by (rule keeps_bind[where Q="\<lambda>_. True"]) simp_all

lemma keeps_finishing: "flow_keeps P f Q \<Longrightarrow> flow_keeps P (finishing f g) Q"
  unfolding flow_keeps_def finishing_def by (auto split: prod.splits)

subsection \<open>Sending a transaction\<close>

text \<open>
  The part that useBuyTicket, useShieldFlow and \<open>sendWalletTransaction\<close> of useTicketPortfolio have in common: the
  block hash, the signature of the wallet, the submission, the confirmation. The value of the confirmation,
  which has the error of a transaction that failed on the chain, is not looked at.
\<close>

definition submit :: "'a network \<Rightarrow> pubkey \<Rightarrow> instruction list \<Rightarrow> ('h, string) flow" where
  "submit nw payer ixs =
     bind (ask Asked_blockhash (nw_blockhash nw)) (\<lambda>blockhash.
     let tx = \<lparr>tx_instructions = ixs, tx_recentBlockhash = blockhash, tx_feePayer = payer\<rparr> in
     bind (ask (Signed tx) (\<lambda>cs. nw_sign nw cs tx)) (\<lambda>raw.
     bind (ask (Sent raw) (\<lambda>cs. nw_send nw cs raw)) (\<lambda>signature.
     bind (ask (Confirmed signature) (\<lambda>cs. nw_confirm nw cs signature)) (\<lambda>_.
       lift (Inr signature)))))"

lemma keeps_submit:
  assumes "\<And>blockhash. P \<lparr>tx_instructions = ixs, tx_recentBlockhash = blockhash, tx_feePayer = payer\<rparr>"
  shows "flow_keeps P (submit nw payer ixs) (\<lambda>_. True)"
  unfolding submit_def Let_def
  by (intro keeps_bind[where Q="\<lambda>_. True"] keeps_call) (use assms in auto)

text \<open>\<open>fetchProtocolState\<close>: two accounts at once.\<close>

definition readProtocolState :: "chain \<Rightarrow> 'a network \<Rightarrow> pubkey \<Rightarrow> ('h, protocol_state) flow" where
  "readProtocolState ch nw programId =
     (let g = findGlobalConfigV2Pda ch programId; a = findAdminConfigPda ch programId in
      bind (ask (Read_account g) (\<lambda>cs. nw_account nw cs g)) (\<lambda>globalInfo.
      bind (ask (Read_account a) (\<lambda>cs. nw_account nw cs a)) (\<lambda>adminInfo.
        lift (Inr (fetchProtocolState ch (\<lambda>k. if k = g then globalInfo else adminInfo) programId)))))"

lemma keeps_readProtocolState: "flow_keeps P (readProtocolState ch nw programId) (\<lambda>_. True)"
  unfolding readProtocolState_def Let_def
  by (intro keeps_bind[where Q="\<lambda>_. True"] keeps_call) auto

text \<open>
  The value of a confirmation makes no difference: with any errors of failed transactions in it, \<open>submit\<close> does and
  returns what it does when all have succeeded. The three hooks report such a transaction as done.
\<close>

theorem confirmation_errors_are_ignored:
  "submit (nw\<lparr>nw_confirm := \<lambda>calls signature. Inr (failure calls signature)\<rparr>) payer ixs
     = (submit (nw\<lparr>nw_confirm := \<lambda>calls signature. Inr None\<rparr>) payer ixs :: ('h, string) flow)"
  by (intro ext) (simp add: submit_def flow_simps Let_def split: prod.split sum.split)

subsection \<open>Counting signed transactions\<close>

text \<open>Run anywhere, the flow adds calls; on success \<open>C\<close> relates the value and the number of transactions signed, else at most \<open>m\<close> are.\<close>

definition flow_count :: "('a \<Rightarrow> nat \<Rightarrow> bool) \<Rightarrow> nat \<Rightarrow> ('h, 'a) flow \<Rightarrow> bool" where
  "flow_count C m f \<longleftrightarrow> (\<forall>cs h cs' h' r. f cs h = (cs', h', r) \<longrightarrow>
     (\<exists>new. cs' = cs @ new \<and> (case r of Inl _ \<Rightarrow> length (signed_in new) \<le> m | Inr x \<Rightarrow> C x (length (signed_in new)))))"

lemma signed_in_simps [simp]:
  "signed_in [] = []" "signed_in (xs @ ys) = signed_in xs @ signed_in ys" "signed_in [Signed tx] = [tx]"
  "signed_in [Fetched url body] = []" "signed_in [Read_account k] = []" "signed_in [Read_programs] = []"
  "signed_in [Asked_blockhash] = []" "signed_in [Sent raw] = []" "signed_in [Confirmed s] = []" "signed_in [Read_logs s] = []"
  by (simp_all add: signed_in_def List.map_filter_def)

lemma signed_in_iff: "tx \<in> set (signed_in calls) \<longleftrightarrow> Signed tx \<in> set calls"
proof (induction calls)
  case (Cons c calls)
  then show ?case by (cases c) (auto simp: signed_in_def List.map_filter_def)
qed simp

lemma flow_countD:
  assumes "flow_count C m f" "f cs h = (cs', h', r)"
  shows "\<exists>new. cs' = cs @ new \<and> (case r of Inl _ \<Rightarrow> length (signed_in new) \<le> m | Inr x \<Rightarrow> C x (length (signed_in new)))"
  using assms unfolding flow_count_def by meson

lemma count_lift: "(\<And>x. r = Inr x \<Longrightarrow> C x 0) \<Longrightarrow> flow_count C m (lift r)"
  by (auto simp: flow_count_def lift_def split: sum.split)

lemma count_ask:
  assumes "length (signed_in [c]) \<le> m" "\<And>cs x. answer cs = Inr x \<Longrightarrow> C x (length (signed_in [c]))"
  shows "flow_count C m (ask c answer)"
  using assms unfolding flow_count_def ask_def by (auto split: sum.split)

lemma count_weaken:
  assumes "flow_count C m f" "\<And>x n. C x n \<Longrightarrow> D x n" "m \<le> k"
  shows "flow_count D k f"
  unfolding flow_count_def
proof (intro allI impI)
  fix cs h cs' h' r
  assume "f cs h = (cs', h', r)"
  from flow_countD[OF assms(1) this] show "\<exists>new. cs' = cs @ new
      \<and> (case r of Inl _ \<Rightarrow> length (signed_in new) \<le> k | Inr x \<Rightarrow> D x (length (signed_in new)))"
    using assms(2,3) by (cases r) force+
qed

lemma count_keeps:
  assumes "flow_keeps (\<lambda>_. False) f Q"
  shows "flow_count (\<lambda>x n. n = 0 \<and> Q x) 0 f"
  unfolding flow_count_def
proof (intro allI impI)
  fix cs h cs' h' r
  assume f: "f cs h = (cs', h', r)"
  obtain new where new: "cs' = cs @ new" "\<forall>tx. Signed tx \<notin> set new" using keepsD(1)[OF assms f] by blast
  have "signed_in new = []" using new(2) by (auto simp: signed_in_def List.map_filter_def filter_empty_conv split: call.splits)
  then show "\<exists>new. cs' = cs @ new \<and> (case r of Inl _ \<Rightarrow> length (signed_in new) \<le> 0 | Inr x \<Rightarrow> length (signed_in new) = 0 \<and> Q x)"
    using new(1) keepsD(2)[OF assms f] by (auto split: sum.split)
qed

lemma count_bind:
  assumes "flow_count C m f" "m \<le> k" "\<And>x n. C x n \<Longrightarrow> \<exists>k'. flow_count (\<lambda>y l. D y (n + l)) k' (g x) \<and> n + k' \<le> k"
  shows "flow_count D k (bind f g)"
  unfolding flow_count_def
proof (intro allI impI)
  fix cs h cs' h' r
  assume run: "bind f g cs h = (cs', h', r)"
  obtain c1 h1 r1 where f: "f cs h = (c1, h1, r1)" by (cases "f cs h")
  show "\<exists>new. cs' = cs @ new \<and> (case r of Inl _ \<Rightarrow> length (signed_in new) \<le> k | Inr x \<Rightarrow> D x (length (signed_in new)))"
  proof (cases r1)
    case (Inl e)
    obtain new where "c1 = cs @ new" "length (signed_in new) \<le> m" using flow_countD[OF assms(1) f] Inl by auto
    then show ?thesis using run f Inl assms(2) by (auto simp: bind_def)
  next
    case (Inr x)
    obtain new where new: "c1 = cs @ new" "C x (length (signed_in new))" using flow_countD[OF assms(1) f] Inr by auto
    obtain k' where k: "flow_count (\<lambda>y l. D y (length (signed_in new) + l)) k' (g x)" "length (signed_in new) + k' \<le> k"
      using assms(3)[OF new(2)] by blast
    have g: "g x c1 h1 = (cs', h', r)" using run f Inr by (simp add: bind_def)
    obtain more where "cs' = c1 @ more"
        "case r of Inl _ \<Rightarrow> length (signed_in more) \<le> k' | Inr y \<Rightarrow> D y (length (signed_in new) + length (signed_in more))"
      using k(1) g unfolding flow_count_def by meson
    then show ?thesis using new(1) k(2) by (intro exI[of _ "new @ more"]) (auto split: sum.splits)
  qed
qed

lemma count_catching:
  assumes "flow_count C m f" "\<And>e n. n \<le> m \<Longrightarrow> \<exists>k'. flow_count (\<lambda>y l. C y (n + l)) k' (handler e) \<and> n + k' \<le> k"
  shows "flow_count C k (catching f handler)"
  unfolding flow_count_def
proof (intro allI impI)
  fix cs h cs' h' r
  assume run: "catching f handler cs h = (cs', h', r)"
  obtain c1 h1 r1 where f: "f cs h = (c1, h1, r1)" by (cases "f cs h")
  show "\<exists>new. cs' = cs @ new \<and> (case r of Inl _ \<Rightarrow> length (signed_in new) \<le> k | Inr x \<Rightarrow> C x (length (signed_in new)))"
  proof (cases r1)
    case (Inr x)
    obtain new where "c1 = cs @ new" "C x (length (signed_in new))" using flow_countD[OF assms(1) f] Inr by auto
    then show ?thesis using run f Inr by (auto simp: catching_def)
  next
    case (Inl e)
    obtain new where new: "c1 = cs @ new" "length (signed_in new) \<le> m" using flow_countD[OF assms(1) f] Inl by auto
    obtain k' where k: "flow_count (\<lambda>y l. C y (length (signed_in new) + l)) k' (handler e)" "length (signed_in new) + k' \<le> k"
      using assms(2)[OF new(2)] by blast
    have g: "handler e c1 h1 = (cs', h', r)" using run f Inl by (simp add: catching_def)
    obtain more where "cs' = c1 @ more"
        "case r of Inl _ \<Rightarrow> length (signed_in more) \<le> k' | Inr y \<Rightarrow> C y (length (signed_in new) + length (signed_in more))"
      using k(1) g unfolding flow_count_def by meson
    then show ?thesis using new(1) k(2) by (intro exI[of _ "new @ more"]) (auto split: sum.splits)
  qed
qed

lemma count_andThen: "flow_count C m g \<Longrightarrow> flow_count C m (andThen (update f) g)"
  by (rule count_bind[where C="\<lambda>_ n. n = 0" and m=0]) (auto simp: flow_count_def update_def)

lemma count_finishing: "flow_count C m f \<Longrightarrow> flow_count C m (finishing f g)"
  unfolding flow_count_def finishing_def by (auto split: prod.splits)

text \<open>Steps that sign nothing, and the one step that signs.\<close>

lemma count_skip:
  assumes "flow_count (\<lambda>x n. n = 0 \<and> Q x) 0 f" "\<And>x. Q x \<Longrightarrow> flow_count D k (g x)"
  shows "flow_count D k (bind f g)"
  by (rule count_bind[OF assms(1)]) (use assms(2) in auto)

lemma count_signs:
  assumes "flow_count (\<lambda>_ n. n = 1) 1 f" "\<And>x. flow_count (\<lambda>y n. D y (Suc n)) 0 (g x)"
  shows "flow_count D 1 (bind f g)"
  by (rule count_bind[OF assms(1)]) (use assms(2) in \<open>auto intro!: exI[of _ "0::nat"]\<close>)

lemma count_silent: "signed_in [c] = [] \<Longrightarrow> flow_count (\<lambda>x n. n = 0 \<and> True) 0 (ask c answer)"
  by (rule count_ask) simp_all

lemma count_value: "flow_count (\<lambda>x n. n = 0 \<and> r = Inr x) 0 (lift r)"
  by (rule count_lift) simp

text \<open>A submission that succeeds has signed one transaction, one that fails at most one.\<close>

lemma count_submit: "flow_count (\<lambda>_ n. n = 1) 1 (submit nw payer ixs)"
  unfolding submit_def Let_def
  by (intro count_skip[OF count_silent] count_signs count_ask count_lift) simp_all

end
