(* ===== verification/Shield_Flow.thy ===== *)
theory Shield_Flow
  imports Wallet_Flow Shield_Route Hub_Decision
begin

section \<open>Quoting and executing on the page (hooks/useShieldFlow.ts)\<close>

text \<open>
  The hook asks the oracle's route for a quote, falls back to the guest's mode, and executes: a transaction with
  the signed payload. Its state is the record \<open>shield_hook\<close>; \<open>executeShield\<close> sees the quote and the protocol
  state of the render it was made in as arguments. Answers with a good status have the shape of the route's
  answer (\<open>issued_score\<close>). The chain, the key codec and the texts of the language's errors are parameters.
\<close>

subsection \<open>The state of the hook\<close>

record shield_hook =
  sh_quote :: "shield_quote option"
  sh_quoteLoading :: bool
  sh_executeLoading :: bool
  sh_error :: "string option"
  sh_verificationWarning :: "string option"
  sh_lastTxSignature :: "string option"
  sh_lastExecutionEvent :: "execution_event option"
  sh_protocolState :: "protocol_state option"

subsection \<open>Requesting a quote\<close>

definition formatFetchError :: "int \<Rightarrow> jsval \<Rightarrow> string" where
  "formatFetchError status body =
     (case js_string (js_prop_opt body ''error'') of
        Some err \<Rightarrow>
          if err \<noteq> [] then
            (case js_string (js_prop_opt body ''reason'') of
               Some reason \<Rightarrow> if reason \<noteq> [] then err @ '' ('' @ reason @ '')'' else err
             | None \<Rightarrow> err)
          else ''shield-score failed ('' @ show_int status @ '')''
      | None \<Rightarrow> ''shield-score failed ('' @ show_int status @ '')'')"

definition DEMO_QUOTE_MODE :: "env \<Rightarrow> string" where
  "DEMO_QUOTE_MODE env = (case env ''NEXT_PUBLIC_DEMO_QUOTE_MODE'' of Some s \<Rightarrow> to_lower s | None \<Rightarrow> ''live'')"

definition USE_FIXTURE_QUOTE :: "env \<Rightarrow> bool" where
  "USE_FIXTURE_QUOTE env \<longleftrightarrow> DEMO_QUOTE_MODE env = ''fixture''"

definition DEMO_INITIAL_PRICE_LAMPORTS :: string where "DEMO_INITIAL_PRICE_LAMPORTS = ''200000000''"
definition DEMO_SALES_VELOCITY_BPS :: string where "DEMO_SALES_VELOCITY_BPS = ''500''"
definition DEMO_TIME_ELAPSED_SECS :: string where "DEMO_TIME_ELAPSED_SECS = ''1''"
definition GUARDED_CLAIM_DEMO_PATH :: string where "GUARDED_CLAIM_DEMO_PATH = ''/demo/guarded-claim''"
definition GUARDED_CLAIM_PRICE_CAP_LAMPORTS :: int where "GUARDED_CLAIM_PRICE_CAP_LAMPORTS = 500000000"

definition isGuardedClaimDemo :: "page \<Rightarrow> bool" where
  "isGuardedClaimDemo pg \<longleftrightarrow> pg_path pg = Some GUARDED_CLAIM_DEMO_PATH"

definition quoteUrl :: "page \<Rightarrow> string" where
  "quoteUrl pg = (if USE_FIXTURE_QUOTE (pg_env pg) then ''/api/demo/quote-fixture'' else ''/api/shield-score'')"

definition demoFields :: "page \<Rightarrow> (string \<times> jsval) list" where
  "demoFields pg =
     (if isGuardedClaimDemo pg
      then [(''initial_price'', JStr DEMO_INITIAL_PRICE_LAMPORTS), (''sales_velocity_bps'', JStr DEMO_SALES_VELOCITY_BPS),
            (''time_elapsed'', JStr DEMO_TIME_ELAPSED_SECS)]
      else [])"

definition quoteBody :: "page \<Rightarrow> string \<Rightarrow> jsval list \<Rightarrow> user_mode \<Rightarrow> jsval" where
  "quoteBody pg walletBase58 signedProofs mode =
     (if USE_FIXTURE_QUOTE (pg_env pg) then JObj ((''wallet'', JStr walletBase58) # demoFields pg)
      else JObj ([(''wallet'', JStr walletBase58), (''mode'', JStr (mode_name mode)),
          (''reclaim_attestations'', JArr (if mode = Verified then signedProofs else []))] @ demoFields pg))"

definition readReply :: "string \<Rightarrow> 'a reply \<Rightarrow> 'a result" where
  "readReply url reply =
     (case reply of
        No_answer e \<Rightarrow> Inl e
      | Not_json status raw \<Rightarrow> Inl (Thrown (url @ '' returned non-JSON: '' @ take 160 raw))
      | Refused status body \<Rightarrow> Inl (Thrown (formatFetchError status body))
      | Replied x \<Rightarrow> Inr x)"

definition cap_error :: "int \<Rightarrow> js_error" where
  "cap_error price = Thrown (''Guarded-claim demo quote exceeds temporary cap: '' @ show_int price @ '' lamports (> 0.5 SOL)'')"

definition attempt ::
  "page \<Rightarrow> issued_score network \<Rightarrow> string \<Rightarrow> jsval list \<Rightarrow> user_mode \<Rightarrow> ('h, shield_quote) flow" where
  "attempt pg nw walletBase58 signedProofs mode =
     (let url = quoteUrl pg; body = quoteBody pg walletBase58 signedProofs mode in
      bind (ask (Fetched url body) (\<lambda>cs. readReply url (nw_fetch nw cs url body))) (\<lambda>response.
      bind (lift (shieldQuoteFromApiResponse response mode)) (\<lambda>quote.
        lift (if isGuardedClaimDemo pg \<and> GUARDED_CLAIM_PRICE_CAP_LAMPORTS < finalPriceLamports (sq_quote quote)
              then Inl (cap_error (finalPriceLamports (sq_quote quote))) else Inr quote))))"

definition fallback_warning :: "string \<Rightarrow> string" where
  "fallback_warning message = ''Verified quote unavailable, fell back to guest mode: '' @ message"

definition requestShieldQuote ::
  "page \<Rightarrow> issued_score network \<Rightarrow> string \<Rightarrow> user_mode \<Rightarrow> jsval \<Rightarrow> ('h, shield_quote \<times> string option) flow" where
  "requestShieldQuote pg nw walletBase58 desiredMode proof =
     (let signedProofs = normalizeSignedProofPayload proof;
          attempted = (\<lambda>mode warning. bind (attempt pg nw walletBase58 signedProofs mode) (\<lambda>quote. lift (Inr (quote, warning)))) in
      if USE_FIXTURE_QUOTE (pg_env pg) then attempted Guest None
      else if desiredMode = Verified then
        catching (attempted Verified None) (\<lambda>e. attempted Guest (Some (fallback_warning (messageOf (pg_text pg) e))))
      else attempted desiredMode None)"

subsection \<open>The hook\<close>

definition refreshProtocolState :: "page \<Rightarrow> issued_score network \<Rightarrow> (shield_hook, protocol_state option) flow" where
  "refreshProtocolState pg nw =
     (case pg_programId pg of
        None \<Rightarrow> andThen (update (\<lambda>h. h\<lparr>sh_protocolState := None\<rparr>)) (lift (Inr None))
      | Some programId \<Rightarrow>
          bind (readProtocolState (pg_chain pg) nw programId) (\<lambda>nextState.
          andThen (update (\<lambda>h. h\<lparr>sh_protocolState := Some nextState\<rparr>)) (lift (Inr (Some nextState)))))"

definition refreshQuote ::
  "page \<Rightarrow> issued_score network \<Rightarrow> user_mode \<Rightarrow> jsval \<Rightarrow> (shield_hook, shield_quote option) flow" where
  "refreshQuote pg nw desiredMode proof =
     (case wl_publicKey (pg_wallet pg) of
        None \<Rightarrow> andThen (update (\<lambda>h. h\<lparr>sh_quote := None, sh_verificationWarning := None, sh_error := None\<rparr>)) (lift (Inr None))
      | Some publicKey \<Rightarrow>
          andThen (update (\<lambda>h. h\<lparr>sh_quoteLoading := True, sh_error := None\<rparr>))
          (finishing
            (catching
              (bind (requestShieldQuote pg nw (pg_base58 pg publicKey) desiredMode proof) (\<lambda>(quote, warning).
               andThen (update (\<lambda>h. h\<lparr>sh_quote := Some quote, sh_verificationWarning := warning\<rparr>))
               (bind (refreshProtocolState pg nw) (\<lambda>_. lift (Inr (Some quote))))))
              (\<lambda>e. andThen (update (\<lambda>h. h\<lparr>sh_quote := None, sh_verificationWarning := None,
                     sh_error := Some (messageOf (pg_text pg) e)\<rparr>))
                   (lift (Inr None))))
            (\<lambda>h. h\<lparr>sh_quoteLoading := False\<rparr>)))"

datatype execute_result = Executed string "execution_event option" string | Not_executed string

definition lengths_error :: "bytes \<Rightarrow> bytes \<Rightarrow> js_error" where
  "lengths_error payload signature = Thrown (''Quote payload/signature length mismatch: payload='' @ show_int (int (length payload))
     @ '' (expected 141), signature='' @ show_int (int (length signature))
     @ '' (expected 64). This can cause on-chain Access violation.'')"

text \<open>The instructions of a quote: its checks, and the arguments they are built from.\<close>

definition executeInstructionsOf ::
  "page \<Rightarrow> pubkey \<Rightarrow> pubkey \<Rightarrow> protocol_state option \<Rightarrow> shield_quote \<Rightarrow> execute_instructions result" where
  "executeInstructionsOf pg programId publicKey state quote =
     rbind (ensure (case state of Some s \<Rightarrow> ps_adminConfigExists s | None \<Rightarrow> False)
       (Thrown ''Admin config is missing on this cluster. Run v2 initialization first.'')) (\<lambda>_.
     rbind (case Option.bind state ps_globalAuthority of Some authority \<Rightarrow> Inr authority
        | None \<Rightarrow> Inl (Thrown ''Global config is missing on this cluster. Run v2 initialization first.'')) (\<lambda>authority.
     rbind (hexToBytes (sq_payloadHex quote)) (\<lambda>payloadBytes.
     rbind (hexToBytes (sq_oracleSignatureHex quote)) (\<lambda>oracleSignatureBytes.
     rbind (ensure (length payloadBytes = 141 \<and> length oracleSignatureBytes = 64) (lengths_error payloadBytes oracleSignatureBytes)) (\<lambda>_.
     rbind (pg_pubkey pg (sq_oraclePubkey quote)) (\<lambda>oraclePubkeyBytes.
       buildExecuteInstructions (pg_chain pg) \<lparr>ei_programId = programId, ei_userPubkey = publicKey,
         ei_treasuryPubkey = authority, ei_payloadBytes = payloadBytes, ei_oracleSignatureBytes = oracleSignatureBytes,
         ei_oraclePubkeyBytes = oraclePubkeyBytes\<rparr>))))))"

text \<open>The body of the \<open>try\<close> of \<open>executeShield\<close>, after the fresh quote.\<close>

definition executeQuote ::
  "page \<Rightarrow> issued_score network \<Rightarrow> pubkey \<Rightarrow> pubkey \<Rightarrow> protocol_state option \<Rightarrow> shield_quote option \<Rightarrow> (shield_hook, execute_result) flow" where
  "executeQuote pg nw programId publicKey protocolState active =
     bind (lift (case active of Some q \<Rightarrow> Inr q | None \<Rightarrow> Inl (Thrown ''Shield quote unavailable''))) (\<lambda>activeQuote.
     bind (lift (ensure (\<not> cq_blocked (sq_quote activeQuote))
       (Thrown ''Shield policy blocked this execution for the current mode''))) (\<lambda>_.
     bind (refreshProtocolState pg nw) (\<lambda>refreshed.
     bind (lift (executeInstructionsOf pg programId publicKey
       (case refreshed of Some s \<Rightarrow> Some s | None \<Rightarrow> protocolState) activeQuote)) (\<lambda>ixs.
     bind (submit nw publicKey [Compute_unit_limit 900000, Ed25519_verify (xi_ed25519Ix ixs), Invoke (xi_executeIx ixs)]) (\<lambda>txSignature.
     bind (ask (Read_logs txSignature) (\<lambda>cs. nw_logs nw cs txSignature)) (\<lambda>logMessages.
     let event = parseExecutionEventFromLogs (ch_sha256 (pg_chain pg)) logMessages in
     andThen (update (\<lambda>h. h\<lparr>sh_lastTxSignature := Some txSignature, sh_lastExecutionEvent := event\<rparr>))
       (lift (Inr (Executed txSignature event (pg_base58 pg (xi_ticketMintPda ixs)))))))))))"

definition executeShield ::
  "page \<Rightarrow> issued_score network \<Rightarrow> shield_quote option \<Rightarrow> protocol_state option \<Rightarrow> user_mode \<Rightarrow> jsval \<Rightarrow>
   (shield_hook, execute_result) flow" where
  "executeShield pg nw quote protocolState desiredMode proof =
     (let failed = (\<lambda>message. andThen (update (\<lambda>h. h\<lparr>sh_error := Some message\<rparr>)) (lift (Inr (Not_executed message)))) in
      case (wl_publicKey (pg_wallet pg), wl_canSign (pg_wallet pg), pg_programId pg) of
        (Some publicKey, True, Some programId) \<Rightarrow>
          andThen (update (\<lambda>h. h\<lparr>sh_executeLoading := True, sh_error := None\<rparr>))
            (finishing
              (catching
                (bind (refreshQuote pg nw desiredMode proof) (\<lambda>fresh.
                   executeQuote pg nw programId publicKey protocolState (case fresh of Some q \<Rightarrow> Some q | None \<Rightarrow> quote)))
                (\<lambda>e. failed (messageOf (pg_text pg) e)))
              (\<lambda>h. h\<lparr>sh_executeLoading := False\<rparr>))
      | (Some _, True, None) \<Rightarrow> failed ''Program ID not configured''
      | _ \<Rightarrow> failed ''Wallet not connected'')"

subsection \<open>What the flows return and have signed\<close>

text \<open>A quote of the network: computed from an answer to a request for the wallet of the page, under the cap.\<close>

definition answeredQuote :: "page \<Rightarrow> issued_score network \<Rightarrow> pubkey \<Rightarrow> jsval list \<Rightarrow> shield_quote \<Rightarrow> bool" where
  "answeredQuote pg nw publicKey proofs q \<longleftrightarrow>
     (\<exists>cs response mode. nw_fetch nw cs (quoteUrl pg) (quoteBody pg (pg_base58 pg publicKey) proofs mode) = Replied response
        \<and> shieldQuoteFromApiResponse response mode = Inr q
        \<and> (isGuardedClaimDemo pg \<longrightarrow> finalPriceLamports (sq_quote q) \<le> GUARDED_CLAIM_PRICE_CAP_LAMPORTS))"

lemma readReply_Inr: "readReply url reply = Inr x \<longleftrightarrow> reply = Replied x"
  by (cases reply) (simp_all add: readReply_def)

lemma quote_mode: "shieldQuoteFromApiResponse response mode = Inr q \<Longrightarrow> sq_mode q = mode"
  by (auto simp: shieldQuoteFromApiResponse_def Let_def js_simps)

lemma keeps_attempt:
  "flow_keeps P (attempt pg nw (pg_base58 pg publicKey) proofs mode) (\<lambda>q. answeredQuote pg nw publicKey proofs q \<and> sq_mode q = mode)"
  unfolding attempt_def Let_def
proof (rule keeps_bind[where Q="\<lambda>response. \<exists>cs. nw_fetch nw cs (quoteUrl pg) (quoteBody pg (pg_base58 pg publicKey) proofs mode) = Replied response"])
  fix response
  assume r: "\<exists>cs. nw_fetch nw cs (quoteUrl pg) (quoteBody pg (pg_base58 pg publicKey) proofs mode) = Replied response"
  show "flow_keeps P (bind (lift (shieldQuoteFromApiResponse response mode)) (\<lambda>quote. lift
      (if isGuardedClaimDemo pg \<and> GUARDED_CLAIM_PRICE_CAP_LAMPORTS < finalPriceLamports (sq_quote quote)
       then Inl (cap_error (finalPriceLamports (sq_quote quote))) else Inr quote)))
     (\<lambda>q. answeredQuote pg nw publicKey proofs q \<and> sq_mode q = mode)"
  proof (rule keeps_bind[where Q="\<lambda>q. shieldQuoteFromApiResponse response mode = Inr q"])
    fix q
    assume q: "shieldQuoteFromApiResponse response mode = Inr q"
    have "isGuardedClaimDemo pg \<longrightarrow> finalPriceLamports (sq_quote q) \<le> GUARDED_CLAIM_PRICE_CAP_LAMPORTS
        \<Longrightarrow> answeredQuote pg nw publicKey proofs q"
      unfolding answeredQuote_def using r q by blast
    then show "flow_keeps P (lift (if isGuardedClaimDemo pg \<and> GUARDED_CLAIM_PRICE_CAP_LAMPORTS < finalPriceLamports (sq_quote q)
       then Inl (cap_error (finalPriceLamports (sq_quote q))) else Inr q))
       (\<lambda>q. answeredQuote pg nw publicKey proofs q \<and> sq_mode q = mode)"
      using quote_mode[OF q] by auto
  qed simp
qed (rule keeps_call, auto simp: readReply_Inr)

text \<open>What the page announces: the mode of the quote is the one asked for, or the guest's with a warning.\<close>

definition announced :: "page \<Rightarrow> user_mode \<Rightarrow> user_mode \<Rightarrow> string option \<Rightarrow> bool" where
  "announced pg desired mode warning \<longleftrightarrow>
     (if USE_FIXTURE_QUOTE (pg_env pg) then mode = Guest \<and> warning = None
      else mode = desired \<and> warning = None
        \<or> desired = Verified \<and> mode = Guest \<and> (\<exists>message. warning = Some (fallback_warning message)))"

lemma keeps_requestShieldQuote:
  "flow_keeps P (requestShieldQuote pg nw (pg_base58 pg publicKey) desired proof)
     (\<lambda>(q, w). answeredQuote pg nw publicKey (normalizeSignedProofPayload proof) q \<and> announced pg desired (sq_mode q) w)"
proof -
  let ?a = "\<lambda>mode w. bind (attempt pg nw (pg_base58 pg publicKey) (normalizeSignedProofPayload proof) mode) (\<lambda>quote. lift (Inr (quote, w)))"
  have a: "flow_keeps P (?a mode w) (\<lambda>(q, w'). answeredQuote pg nw publicKey (normalizeSignedProofPayload proof) q \<and> announced pg desired (sq_mode q) w')"
    if "announced pg desired mode w" for mode w
    using that by (intro keeps_bind[OF keeps_attempt]) auto
  show ?thesis
  proof (cases "USE_FIXTURE_QUOTE (pg_env pg)")
    case True
    then have "announced pg desired Guest None" by (simp add: announced_def)
    with True show ?thesis by (simp add: requestShieldQuote_def Let_def a)
  next
    case False
    then have d: "announced pg desired desired None" "desired = Verified \<Longrightarrow> announced pg desired Guest (Some (fallback_warning m))" for m
      by (auto simp: announced_def)
    show ?thesis
    proof (cases "desired = Verified")
      case True
      have "flow_keeps P (catching (?a desired None) (\<lambda>e. ?a Guest (Some (fallback_warning (messageOf (pg_text pg) e)))))
          (\<lambda>(q, w). answeredQuote pg nw publicKey (normalizeSignedProofPayload proof) q \<and> announced pg desired (sq_mode q) w)"
        by (intro keeps_catching a d True)
      with True \<open>\<not> USE_FIXTURE_QUOTE (pg_env pg)\<close> show ?thesis by (simp add: requestShieldQuote_def Let_def)
    qed (use a[OF d(1)] \<open>\<not> USE_FIXTURE_QUOTE (pg_env pg)\<close> in \<open>simp add: requestShieldQuote_def Let_def\<close>)
  qed
qed

lemma keeps_refreshProtocolState: "flow_keeps P (refreshProtocolState pg nw) (\<lambda>_. True)"
  by (auto simp: refreshProtocolState_def intro!: keeps_andThen keeps_bind[OF keeps_readProtocolState] split: option.split)

definition answeredFor :: "page \<Rightarrow> issued_score network \<Rightarrow> jsval \<Rightarrow> shield_quote \<Rightarrow> bool" where
  "answeredFor pg nw proof q \<longleftrightarrow>
     (\<exists>publicKey. wl_publicKey (pg_wallet pg) = Some publicKey \<and> answeredQuote pg nw publicKey (normalizeSignedProofPayload proof) q)"

lemma keeps_refreshQuote: "flow_keeps P (refreshQuote pg nw desired proof) (\<lambda>r. \<forall>q. r = Some q \<longrightarrow> answeredFor pg nw proof q)"
proof (cases "wl_publicKey (pg_wallet pg)")
  case None
  then show ?thesis by (auto simp: refreshQuote_def intro!: keeps_andThen)
next
  case (Some publicKey)
  have "flow_keeps P (bind (requestShieldQuote pg nw (pg_base58 pg publicKey) desired proof) (\<lambda>(quote, warning).
      andThen (update (\<lambda>h. h\<lparr>sh_quote := Some quote, sh_verificationWarning := warning\<rparr>))
      (bind (refreshProtocolState pg nw) (\<lambda>_. lift (Inr (Some quote))))))
     (\<lambda>r. \<forall>q. r = Some q \<longrightarrow> answeredFor pg nw proof q)"
    by (rule keeps_bind[OF keeps_requestShieldQuote])
      (auto simp: answeredFor_def Some intro!: keeps_andThen keeps_bind[OF keeps_refreshProtocolState])
  then show ?thesis
    by (auto simp: refreshQuote_def Some intro!: keeps_andThen keeps_finishing keeps_catching)
qed

text \<open>
  A transaction as \<open>executeShield\<close> may build it from a quote: not blocked, made of the 141 bytes the quote has and
  the 64 of its signature, for the wallet of the page, with the treasury a protocol state names.
\<close>

definition transactionOf :: "page \<Rightarrow> shield_quote \<Rightarrow> transaction \<Rightarrow> bool" where
  "transactionOf pg q tx \<longleftrightarrow> \<not> cq_blocked (sq_quote q)
     \<and> (\<exists>programId user state ixs. pg_programId pg = Some programId \<and> wl_publicKey (pg_wallet pg) = Some user
         \<and> executeInstructionsOf pg programId user state q = Inr ixs
         \<and> tx_instructions tx = [Compute_unit_limit 900000, Ed25519_verify (xi_ed25519Ix ixs), Invoke (xi_executeIx ixs)]
         \<and> tx_feePayer tx = user)"

lemma keeps_executeQuote:
  assumes "pg_programId pg = Some programId" "wl_publicKey (pg_wallet pg) = Some user" "\<And>q. active = Some q \<Longrightarrow> S q"
  shows "flow_keeps (\<lambda>tx. \<exists>q. S q \<and> transactionOf pg q tx) (executeQuote pg nw programId user state active) (\<lambda>_. True)"
  unfolding executeQuote_def Let_def
proof (rule keeps_bind[where Q="\<lambda>q. active = Some q"], goal_cases)
  case (2 q)
  show ?case
  proof (rule keeps_bind[where Q="\<lambda>_. \<not> cq_blocked (sq_quote q)"], goal_cases)
    case 2
    show ?case
    proof (rule keeps_bind[OF keeps_refreshProtocolState], rule keeps_bind[where Q="\<lambda>ixs. \<exists>st. executeInstructionsOf pg programId user st q = Inr ixs"], goal_cases)
      case (2 refreshed ixs)
      then show ?case
        using assms \<open>active = Some q\<close> \<open>\<not> cq_blocked (sq_quote q)\<close>
        by (intro keeps_bind[where Q="\<lambda>_. True"] keeps_submit keeps_call) (auto simp: transactionOf_def)
    qed auto
  qed (auto simp: js_simps)
qed (auto split: option.splits)

lemma keeps_executeShield:
  "flow_keeps (\<lambda>tx. \<exists>q. (answeredFor pg nw proof q \<or> quote = Some q) \<and> transactionOf pg q tx)
     (executeShield pg nw quote state desired proof) (\<lambda>_. True)"
proof (cases "wl_canSign (pg_wallet pg) \<and> wl_publicKey (pg_wallet pg) \<noteq> None \<and> pg_programId pg \<noteq> None")
  case True
  then obtain user programId where k: "wl_publicKey (pg_wallet pg) = Some user" "pg_programId pg = Some programId" by auto
  have "flow_keeps (\<lambda>tx. \<exists>q. (answeredFor pg nw proof q \<or> quote = Some q) \<and> transactionOf pg q tx)
      (bind (refreshQuote pg nw desired proof) (\<lambda>fresh.
         executeQuote pg nw programId user state (case fresh of Some q \<Rightarrow> Some q | None \<Rightarrow> quote))) (\<lambda>_. True)"
    by (rule keeps_bind[OF keeps_refreshQuote], rule keeps_executeQuote[OF k(2,1)]) (auto split: option.splits)
  then show ?thesis
    using True k by (auto simp: executeShield_def Let_def intro!: keeps_andThen keeps_finishing keeps_catching)
next
  case False
  then show ?thesis by (auto simp: executeShield_def Let_def intro!: keeps_andThen split: option.split bool.split)
qed

text \<open>
  A condition on the state of the hook that every update of a flow keeps. No flow reads the state it is given,
  so the values it sets do not depend on what other handlers do while it waits.
\<close>

definition flow_invar :: "('h \<Rightarrow> bool) \<Rightarrow> ('h, 'a) flow \<Rightarrow> bool" where
  "flow_invar J f \<longleftrightarrow> (\<forall>cs h. J h \<longrightarrow> J (fst (snd (f cs h))))"

lemma invarD: "flow_invar J f \<Longrightarrow> f cs h = (cs', h', r) \<Longrightarrow> J h \<Longrightarrow> J h'"
  unfolding flow_invar_def by (metis fst_conv snd_conv)

lemma invar_basic [simp]:
  "flow_invar J (lift r)" "flow_invar J (ask c answer)" "flow_invar J (update u) \<longleftrightarrow> (\<forall>h. J h \<longrightarrow> J (u h))"
  by (auto simp: flow_invar_def lift_def ask_def update_def)

lemma invar_bind_value:
  assumes "flow_keeps P f Q" "flow_invar J f" "\<And>x. Q x \<Longrightarrow> flow_invar J (g x)"
  shows "flow_invar J (bind f g)"
  unfolding flow_invar_def
proof (intro allI impI)
  fix cs h
  assume J: "J h"
  obtain c1 h1 r1 where f: "f cs h = (c1, h1, r1)" by (cases "f cs h")
  then have "J h1" using J assms(2) unfolding flow_invar_def by (metis fst_conv snd_conv)
  moreover have "r1 = Inr x \<Longrightarrow> Q x" for x by (rule keepsD(2)[OF assms(1) f])
  ultimately show "J (fst (snd (bind f g cs h)))"
    using f assms(3) by (cases r1) (auto simp: bind_def flow_invar_def)
qed

lemma invar_bind:
  assumes "flow_invar J f" "\<And>x. flow_invar J (g x)"
  shows "flow_invar J (bind f g)"
  unfolding flow_invar_def
proof (intro allI impI)
  fix cs h
  assume J: "J h"
  obtain c1 h1 r1 where f: "f cs h = (c1, h1, r1)" by (cases "f cs h")
  then have "J h1" using J assms(1) unfolding flow_invar_def by (metis fst_conv snd_conv)
  then show "J (fst (snd (bind f g cs h)))"
    using f assms(2) by (cases r1) (auto simp: bind_def flow_invar_def)
qed

lemma invar_catching: "flow_invar J f \<Longrightarrow> (\<And>e. flow_invar J (g e)) \<Longrightarrow> flow_invar J (catching f g)"
  by (auto simp: flow_invar_def catching_def split: prod.split sum.split) (metis fst_conv snd_conv)+

lemma invar_finishing: "flow_invar J f \<Longrightarrow> (\<And>h. J h \<Longrightarrow> J (u h)) \<Longrightarrow> flow_invar J (finishing f u)"
  by (auto simp: flow_invar_def finishing_def split: prod.split) (metis fst_conv snd_conv)

lemma invar_andThen: "(\<And>h. J h \<Longrightarrow> J (u h)) \<Longrightarrow> flow_invar J g \<Longrightarrow> flow_invar J (andThen (update u) g)"
  by (rule invar_bind) auto

lemma invar_submit [simp]: "flow_invar J (submit nw payer ixs)"
  unfolding submit_def Let_def by (intro invar_bind) simp_all

lemma invar_readProtocolState [simp]: "flow_invar J (readProtocolState ch nw programId)"
  unfolding readProtocolState_def Let_def by (intro invar_bind) simp_all

lemma invar_attempt [simp]: "flow_invar J (attempt pg nw w proofs mode)"
  unfolding attempt_def Let_def by (intro invar_bind) simp_all

lemma invar_requestShieldQuote [simp]: "flow_invar J (requestShieldQuote pg nw w desired proof)"
  by (simp add: requestShieldQuote_def Let_def invar_bind invar_catching)

text \<open>What the hook holds: nothing, or a quote with a property that every answered quote has.\<close>

definition holds_only :: "(shield_quote \<Rightarrow> bool) \<Rightarrow> shield_hook \<Rightarrow> bool" where
  "holds_only S h \<longleftrightarrow> (\<forall>q. sh_quote h = Some q \<longrightarrow> S q)"

lemma holds_only_simps [simp]:
  "holds_only S (h\<lparr>sh_quote := Some q\<rparr>) \<longleftrightarrow> S q" "holds_only S (h\<lparr>sh_quote := None\<rparr>)"
  "holds_only S (h\<lparr>sh_quoteLoading := l\<rparr>) \<longleftrightarrow> holds_only S h" "holds_only S (h\<lparr>sh_executeLoading := l\<rparr>) \<longleftrightarrow> holds_only S h"
  "holds_only S (h\<lparr>sh_error := e\<rparr>) \<longleftrightarrow> holds_only S h" "holds_only S (h\<lparr>sh_verificationWarning := w\<rparr>) \<longleftrightarrow> holds_only S h"
  "holds_only S (h\<lparr>sh_lastTxSignature := t\<rparr>) \<longleftrightarrow> holds_only S h" "holds_only S (h\<lparr>sh_lastExecutionEvent := v\<rparr>) \<longleftrightarrow> holds_only S h"
  "holds_only S (h\<lparr>sh_protocolState := p\<rparr>) \<longleftrightarrow> holds_only S h"
  by (simp_all add: holds_only_def)

lemma invar_refreshProtocolState [simp]: "flow_invar (holds_only S) (refreshProtocolState pg nw)"
  by (auto simp: refreshProtocolState_def split: option.split intro!: invar_andThen invar_bind)

lemma invar_refreshQuote:
  assumes "\<And>q. answeredFor pg nw proof q \<Longrightarrow> S q"
  shows "flow_invar (holds_only S) (refreshQuote pg nw desired proof)"
proof (cases "wl_publicKey (pg_wallet pg)")
  case None
  then show ?thesis by (auto simp: refreshQuote_def intro!: invar_andThen)
next
  case (Some publicKey)
  have "flow_invar (holds_only S) (bind (requestShieldQuote pg nw (pg_base58 pg publicKey) desired proof) (\<lambda>(quote, warning).
      andThen (update (\<lambda>h. h\<lparr>sh_quote := Some quote, sh_verificationWarning := warning\<rparr>))
      (bind (refreshProtocolState pg nw) (\<lambda>_. lift (Inr (Some quote))))))"
    by (rule invar_bind_value[OF keeps_requestShieldQuote[of "\<lambda>_. True"]])
      (auto simp: answeredFor_def Some intro!: assms invar_andThen invar_bind)
  then show ?thesis
    by (auto simp: refreshQuote_def Some intro!: invar_andThen invar_finishing invar_catching)
qed

lemma invar_executeQuote: "flow_invar (holds_only S) (executeQuote pg nw programId user state active)"
  unfolding executeQuote_def Let_def by (intro invar_bind invar_andThen) simp_all

lemma invar_failed [simp]:
  "flow_invar (holds_only S) (andThen (update (\<lambda>h. h\<lparr>sh_error := e\<rparr>)) (lift r))"
  by (rule invar_andThen) simp_all

lemma invar_executeShield:
  assumes "\<And>q. answeredFor pg nw proof q \<Longrightarrow> S q"
  shows "flow_invar (holds_only S) (executeShield pg nw quote state desired proof)"
proof (cases "wl_canSign (pg_wallet pg) \<and> wl_publicKey (pg_wallet pg) \<noteq> None \<and> pg_programId pg \<noteq> None")
  case True
  then obtain user programId where k: "wl_publicKey (pg_wallet pg) = Some user" "pg_programId pg = Some programId" by auto
  have "flow_invar (holds_only S) (bind (refreshQuote pg nw desired proof) (\<lambda>fresh.
         executeQuote pg nw programId user state (case fresh of Some q \<Rightarrow> Some q | None \<Rightarrow> quote)))"
    by (rule invar_bind[OF invar_refreshQuote[OF assms] invar_executeQuote])
  then show ?thesis
    using True k by (simp add: executeShield_def Let_def invar_andThen invar_finishing invar_catching)
next
  case False
  then show ?thesis by (auto simp: executeShield_def Let_def split: option.split bool.split)
qed

text \<open>
  The states the hook of a page can be in: mounted, and after any of its operations, under any wallet that was
  connected then, any answers of the network, and with the quote and protocol state of any render.
\<close>

inductive hook_reached :: "page \<Rightarrow> shield_hook \<Rightarrow> bool" for pg :: page where
  mounted: "hook_reached pg \<lparr>sh_quote = None, sh_quoteLoading = False, sh_executeLoading = False, sh_error = None,
     sh_verificationWarning = None, sh_lastTxSignature = None, sh_lastExecutionEvent = None, sh_protocolState = None\<rparr>"
| reread: "hook_reached pg h \<Longrightarrow> refreshProtocolState (pg\<lparr>pg_wallet := w\<rparr>) nw cs h = (cs', h', r) \<Longrightarrow> hook_reached pg h'"
| refreshed: "hook_reached pg h \<Longrightarrow> refreshQuote (pg\<lparr>pg_wallet := w\<rparr>) nw desired proof cs h = (cs', h', r') \<Longrightarrow> hook_reached pg h'"
| executed: "hook_reached pg h \<Longrightarrow> hook_reached pg render \<Longrightarrow>
    executeShield (pg\<lparr>pg_wallet := w\<rparr>) nw (sh_quote render) (sh_protocolState render) desired proof cs h = (cs', h', r'') \<Longrightarrow>
    hook_reached pg h'"

lemma reached_quote:
  "hook_reached pg h \<Longrightarrow> holds_only (\<lambda>q. \<exists>w nw earlier. answeredFor (pg\<lparr>pg_wallet := w\<rparr>) nw earlier q) h"
proof (induction rule: hook_reached.induct)
  case mounted
  show ?case by (simp add: holds_only_def)
next
  case reread
  show ?case by (rule invarD[OF invar_refreshProtocolState]) fact+
next
  case refreshed
  show ?case by (rule invarD[OF invar_refreshQuote]) (blast | fact)+
next
  case executed
  show ?case by (rule invarD[OF invar_executeShield]) (blast | fact)+
qed

lemma answeredFor_capped:
  "answeredFor (pg\<lparr>pg_wallet := w\<rparr>) nw proof q \<Longrightarrow> isGuardedClaimDemo pg \<Longrightarrow>
   finalPriceLamports (sq_quote q) \<le> GUARDED_CLAIM_PRICE_CAP_LAMPORTS"
  by (auto simp: answeredFor_def answeredQuote_def isGuardedClaimDemo_def)

lemma fetchProtocolState_two:
  "fetchProtocolState ch (\<lambda>k. if k = findGlobalConfigV2Pda ch p then f (findGlobalConfigV2Pda ch p) else f (findAdminConfigPda ch p)) p
     = fetchProtocolState ch f p"
  by (simp add: fetchProtocolState_def Let_def)

subsection \<open>Sample\<close>

definition sample_chain :: chain where
  "sample_chain = \<lparr>ch_sha256 = (\<lambda>s. replicate 32 (of_nat (length s))), ch_pda = (\<lambda>seeds p. take 32 (concat seeds @ p)),
     ch_bpf_loader = replicate 32 1, ch_token_program = replicate 32 2, ch_system_program = replicate 32 0,
     ch_sysvar_instructions = replicate 32 3, ch_sysvar_rent = replicate 32 4\<rparr>"

definition sample_page :: page where
  "sample_page = \<lparr>pg_env = (\<lambda>_. None), pg_path = None, pg_chain = sample_chain, pg_programId = Some (replicate 32 9),
     pg_wallet = \<lparr>wl_publicKey = Some (replicate 32 7), wl_canSign = True\<rparr>, pg_base58 = (\<lambda>_. ''W1''),
     pg_pubkey = (\<lambda>_. Inr (replicate 32 5)), pg_text = (\<lambda>_. [])\<rparr>"

definition sample_hook :: shield_hook where
  "sample_hook = \<lparr>sh_quote = None, sh_quoteLoading = False, sh_executeLoading = False, sh_error = None,
     sh_verificationWarning = None, sh_lastTxSignature = None, sh_lastExecutionEvent = None, sh_protocolState = None\<rparr>"

definition sample_route :: "jsval \<Rightarrow> issued_score reply" where
  "sample_route body =
     (case rr_body (snd (POST (\<lambda>_. None) (\<lambda>_. True) None (sample_services 0) 0 (sample_readings 1000000)
          \<lparr>forwarded_for = None, real_ip = None, request_ip = None\<rparr> (Some body) \<lparr>rs_rate = rate_empty, rs_oracle = sample_oracle\<rparr>)) of
        Handled (Issued i) \<Rightarrow> Replied i | _ \<Rightarrow> Refused 400 JNull)"

definition sample_network :: "(jsval \<Rightarrow> issued_score reply) \<Rightarrow> issued_score network" where
  "sample_network answer = \<lparr>nw_fetch = (\<lambda>calls url body. answer body), nw_account = (\<lambda>calls k. Inr (Some (replicate 41 8))),
     nw_programs = (\<lambda>_. Inr []), nw_blockhash = (\<lambda>_. Inr ''B''), nw_sign = (\<lambda>calls tx. Inr []), nw_send = (\<lambda>calls raw. Inr ''S''),
     nw_confirm = (\<lambda>calls s. Inr None), nw_logs = (\<lambda>calls s. Inr [])\<rparr>"

definition fallback_network :: "issued_score network" where
  "fallback_network = (sample_network sample_route)\<lparr>nw_fetch := \<lambda>calls url body. if calls = [] then No_answer (Thrown ''gone'') else sample_route body\<rparr>"

lemma sample_surroundings:
  "\<not> USE_FIXTURE_QUOTE (pg_env sample_page)" "\<not> isGuardedClaimDemo sample_page"
  "pg_programId sample_page = Some (replicate 32 9)" "pg_wallet sample_page = \<lparr>wl_publicKey = Some (replicate 32 7), wl_canSign = True\<rparr>"
  "pg_base58 sample_page = (\<lambda>_. ''W1'')" "pg_chain sample_page = sample_chain"
  "nw_fetch (sample_network answer) = (\<lambda>calls url body. answer body)"
  "nw_account (sample_network answer) = (\<lambda>calls k. Inr (Some (replicate 41 8)))" "nw_blockhash (sample_network answer) = (\<lambda>_. Inr ''B'')"
  "nw_sign (sample_network answer) = (\<lambda>calls tx. Inr [])" "nw_send (sample_network answer) = (\<lambda>calls raw. Inr ''S'')"
  "nw_confirm (sample_network answer) = (\<lambda>calls s. Inr None)" "nw_logs (sample_network answer) = (\<lambda>calls s. Inr [])"
  by (simp_all add: sample_page_def USE_FIXTURE_QUOTE_def DEMO_QUOTE_MODE_def isGuardedClaimDemo_def sample_network_def)

definition sample_run :: "call list \<times> shield_hook \<times> execute_result result" where
  "sample_run = executeShield sample_page (sample_network sample_route) None None Guest JNull [] sample_hook"

text \<open>The parts of the run that are computed; the flow around them is unfolded.\<close>

lemma sample_parts:
  "case sample_route (quoteBody sample_page ''W1'' [] Guest) of
     Replied i \<Rightarrow> (case shieldQuoteFromApiResponse i Guest of
         Inr q \<Rightarrow> \<not> cq_blocked (sq_quote q)
           \<and> (case executeInstructionsOf sample_page (replicate 32 9) (replicate 32 7)
                 (Some (fetchProtocolState sample_chain (\<lambda>_. Some (replicate 41 8)) (replicate 32 9))) q of Inr _ \<Rightarrow> True | Inl _ \<Rightarrow> False)
       | Inl _ \<Rightarrow> False)
   | _ \<Rightarrow> False"
  by code_simp

lemma quote_parts:
  assumes "case reply of Replied i \<Rightarrow> (case f i of
       Inr q \<Rightarrow> P q \<and> (case g q of Inr _ \<Rightarrow> True | Inl _ \<Rightarrow> False) | Inl _ \<Rightarrow> False) | _ \<Rightarrow> False"
  shows "\<exists>i q x. reply = Replied i \<and> f i = Inr q \<and> P q \<and> g q = Inr x"
  using assms by (auto split: reply.splits sum.splits)

lemma sample_found:
  obtains i q ixs where "sample_route (quoteBody sample_page ''W1'' [] Guest) = Replied i" "shieldQuoteFromApiResponse i Guest = Inr q"
    "\<not> cq_blocked (sq_quote q)"
    "executeInstructionsOf sample_page (replicate 32 9) (replicate 32 7)
       (Some (fetchProtocolState sample_chain (\<lambda>_. Some (replicate 41 8)) (replicate 32 9))) q = Inr ixs"
  using quote_parts[OF sample_parts] by blast

lemma sample_run_signs: "\<exists>tx. Signed tx \<in> set (fst sample_run)"
proof -
  obtain i q ixs where p: "sample_route (quoteBody sample_page ''W1'' [] Guest) = Replied i" "shieldQuoteFromApiResponse i Guest = Inr q"
    "\<not> cq_blocked (sq_quote q)"
    "executeInstructionsOf sample_page (replicate 32 9) (replicate 32 7)
       (Some (fetchProtocolState sample_chain (\<lambda>_. Some (replicate 41 8)) (replicate 32 9))) q = Inr ixs" by (rule sample_found)
  have f: "\<not> USE_FIXTURE_QUOTE (pg_env sample_page)" "\<not> isGuardedClaimDemo sample_page" "normalizeSignedProofPayload JNull = []" by code_simp+
  have pg: "pg_programId sample_page = Some (replicate 32 9)" "pg_wallet sample_page = \<lparr>wl_publicKey = Some (replicate 32 7), wl_canSign = True\<rparr>"
    "pg_base58 sample_page = (\<lambda>_. ''W1'')" "pg_chain sample_page = sample_chain" by (simp_all add: sample_page_def)
  have nw: "nw_fetch (sample_network sample_route) = (\<lambda>calls url body. sample_route body)"
    "nw_account (sample_network sample_route) = (\<lambda>calls k. Inr (Some (replicate 41 8)))"
    "nw_blockhash (sample_network sample_route) = (\<lambda>_. Inr ''B'')" by (simp_all add: sample_network_def)
  show ?thesis
    by (simp add: sample_run_def executeShield_def refreshQuote_def requestShieldQuote_def attempt_def refreshProtocolState_def
        readProtocolState_def executeQuote_def submit_def readReply_def flow_simps Let_def ensure_def f pg nw p fetchProtocolState_two
        split: sum.split prod.split)
qed

lemma sample_run_eq:
  "executeShield sample_page (sample_network sample_route) None None Guest JNull [] sample_hook
     = (fst sample_run, fst (snd sample_run), snd (snd sample_run))"
  by (simp add: sample_run_def)

subsection \<open>Properties\<close>

lemma executeInstructionsOf_Inr:
  assumes "executeInstructionsOf pg programId user state q = Inr ixs"
  obtains payload signature oracleKey where "hexToBytes (sq_payloadHex q) = Inr payload" "hexToBytes (sq_oracleSignatureHex q) = Inr signature"
    "length payload = 141" "length signature = 64" "pg_pubkey pg (sq_oraclePubkey q) = Inr oracleKey"
    "xi_ed25519Ix ixs = \<lparr>ed_publicKey = oracleKey, ed_message = payload, ed_signature = signature\<rparr>"
    "ti_programId (xi_executeIx ixs) = programId"
    "ti_data (xi_executeIx ixs) = anchorDiscriminator (ch_sha256 (pg_chain pg)) ''global'' ''execute_shield'' @ payload @ signature"
    "\<exists>s authority. state = Some s \<and> ps_globalAuthority s = Some authority \<and> ps_adminConfigExists s
       \<and> map am_pubkey (take 3 (ti_keys (xi_executeIx ixs))) = [user, findGlobalConfigV2Pda (pg_chain pg) programId, authority]"
  using assms
  by (auto simp: executeInstructionsOf_def buildExecuteInstructions_def buildExecuteInstructionData_def Let_def js_simps
      split: option.splits if_splits)

text \<open>
  C18. Whatever the network answers and whatever the hook of the page has done before, a transaction that
  \<open>executeShield\<close> has the wallet sign is for a quote that is not blocked: a fresh one, answered to a request for this
  very wallet, or the quote of the render, which was answered to an earlier request of this page, for the wallet of
  that time. On the demo page the price of either is under the cap. The transaction has exactly the three
  instructions, and what the oracle's key is checked against and what the program gets are the same 141 bytes of
  payload and 64 of signature, those of the quote.
\<close>

theorem execute_signs_checked_quotes:
  assumes "hook_reached pg render"
    and "executeShield pg nw (sh_quote render) state desired proof cs h = (cs', h', r)" "Signed tx \<in> set cs'" "Signed tx \<notin> set cs"
  shows "\<exists>q payload signature oracleKey ix. (answeredFor pg nw proof q
        \<or> sh_quote render = Some q \<and> (\<exists>w nw' earlier. answeredFor (pg\<lparr>pg_wallet := w\<rparr>) nw' earlier q))
     \<and> (isGuardedClaimDemo pg \<longrightarrow> finalPriceLamports (sq_quote q) \<le> GUARDED_CLAIM_PRICE_CAP_LAMPORTS) \<and> \<not> cq_blocked (sq_quote q)
     \<and> hexToBytes (sq_payloadHex q) = Inr payload \<and> hexToBytes (sq_oracleSignatureHex q) = Inr signature
     \<and> length payload = 141 \<and> length signature = 64 \<and> pg_pubkey pg (sq_oraclePubkey q) = Inr oracleKey
     \<and> tx_instructions tx = [Compute_unit_limit 900000,
          Ed25519_verify \<lparr>ed_publicKey = oracleKey, ed_message = payload, ed_signature = signature\<rparr>, Invoke ix]
     \<and> Some (ti_programId ix) = pg_programId pg \<and> Some (tx_feePayer tx) = wl_publicKey (pg_wallet pg)
     \<and> ti_data ix = anchorDiscriminator (ch_sha256 (pg_chain pg)) ''global'' ''execute_shield'' @ payload @ signature"
proof -
  from keeps_signed[OF keeps_executeShield assms(2-4)] obtain q
    where q: "answeredFor pg nw proof q \<or> sh_quote render = Some q" "transactionOf pg q tx" by blast
  have same: "pg\<lparr>pg_wallet := pg_wallet pg\<rparr> = pg" by simp
  have origin: "\<exists>w nw' earlier. answeredFor (pg\<lparr>pg_wallet := w\<rparr>) nw' earlier q"
    using q(1) reached_quote[OF assms(1)] same unfolding holds_only_def by metis
  then have cap: "isGuardedClaimDemo pg \<Longrightarrow> finalPriceLamports (sq_quote q) \<le> GUARDED_CLAIM_PRICE_CAP_LAMPORTS"
    using answeredFor_capped by blast
  from q(2) obtain programId user st ixs where t: "\<not> cq_blocked (sq_quote q)" "pg_programId pg = Some programId"
      "wl_publicKey (pg_wallet pg) = Some user" "executeInstructionsOf pg programId user st q = Inr ixs"
      "tx_instructions tx = [Compute_unit_limit 900000, Ed25519_verify (xi_ed25519Ix ixs), Invoke (xi_executeIx ixs)]"
      "tx_feePayer tx = user"
    unfolding transactionOf_def by blast
  from t(4) obtain payload signature oracleKey where i: "hexToBytes (sq_payloadHex q) = Inr payload"
      "hexToBytes (sq_oracleSignatureHex q) = Inr signature" "length payload = 141" "length signature = 64"
      "pg_pubkey pg (sq_oraclePubkey q) = Inr oracleKey"
      "xi_ed25519Ix ixs = \<lparr>ed_publicKey = oracleKey, ed_message = payload, ed_signature = signature\<rparr>"
      "ti_programId (xi_executeIx ixs) = programId"
      "ti_data (xi_executeIx ixs) = anchorDiscriminator (ch_sha256 (pg_chain pg)) ''global'' ''execute_shield'' @ payload @ signature"
    by (rule executeInstructionsOf_Inr) blast
  show ?thesis
    by (rule exI[of _ q], rule exI[of _ payload], rule exI[of _ signature], rule exI[of _ oracleKey],
        rule exI[of _ "xi_executeIx ixs"])
      (use q(1) origin cap t(1,2,3,5,6) i in simp)
qed

theorem execute_signs_checked_quotes_witness:
  "\<exists>tx payload ix. Signed tx \<in> set (fst sample_run) \<and> length payload = 141 \<and> last (tx_instructions tx) = Invoke ix
     \<and> take 141 (drop 8 (ti_data ix)) = payload \<and> tx_feePayer tx = replicate 32 7"
proof -
  obtain tx where tx: "Signed tx \<in> set (fst sample_run)" using sample_run_signs by blast
  have l: "length (anchorDiscriminator (ch_sha256 (pg_chain sample_page)) ''global'' ''execute_shield'') = 8" by code_simp
  have m: "hook_reached sample_page sample_hook" "sh_quote sample_hook = None"
    using hook_reached.mounted[of sample_page] by (simp_all add: sample_hook_def)
  from execute_signs_checked_quotes[OF m(1) sample_run_eq[folded m(2)] tx] obtain payload signature ix oracleKey where
    "length payload = 141" "tx_instructions tx = [Compute_unit_limit 900000,
          Ed25519_verify \<lparr>ed_publicKey = oracleKey, ed_message = payload, ed_signature = signature\<rparr>, Invoke ix]"
    "Some (tx_feePayer tx) = wl_publicKey (pg_wallet sample_page)"
    "ti_data ix = anchorDiscriminator (ch_sha256 (pg_chain sample_page)) ''global'' ''execute_shield'' @ payload @ signature"
    by (auto simp: m(2))
  with tx l show ?thesis
    by - (rule exI[of _ tx], rule exI[of _ payload], rule exI[of _ ix], simp add: sample_page_def)
qed

text \<open>
  The page announces the mode of its quote: it is the mode that was asked for, without a warning, or a verified
  quote was asked for and the quote is the guest's, with a warning that says why; with the demo fixture it is always
  the guest's.
\<close>

theorem quote_mode_is_announced:
  assumes "requestShieldQuote pg nw (pg_base58 pg publicKey) desired proof cs h = (cs', h', Inr (q, warning))"
  shows "answeredQuote pg nw publicKey (normalizeSignedProofPayload proof) q
     \<and> (if USE_FIXTURE_QUOTE (pg_env pg) then sq_mode q = Guest \<and> warning = None
        else sq_mode q = desired \<and> warning = None
          \<or> desired = Verified \<and> sq_mode q = Guest \<and> (\<exists>message. warning = Some (fallback_warning message)))"
  using keepsD(2)[OF keeps_requestShieldQuote assms refl] by (simp add: announced_def)

theorem quote_mode_is_announced_witness:
  "\<exists>q message. snd (snd (requestShieldQuote sample_page fallback_network ''W1'' Verified JNull [] ()))
       = Inr (q, Some (fallback_warning message)) \<and> sq_mode q = Guest"
proof -
  let ?r = "requestShieldQuote sample_page fallback_network (pg_base58 sample_page (replicate 32 7)) Verified JNull [] ()"
  obtain i q ixs where p: "sample_route (quoteBody sample_page ''W1'' [] Guest) = Replied i" "shieldQuoteFromApiResponse i Guest = Inr q"
    by (rule sample_found)
  have n: "nw_fetch fallback_network = (\<lambda>calls url body. if calls = [] then No_answer (Thrown ''gone'') else sample_route body)"
    by (simp add: fallback_network_def)
  have "\<exists>cs message. ?r = (cs, (), Inr (q, Some (fallback_warning message)))"
    by (simp add: requestShieldQuote_def attempt_def readReply_def flow_simps Let_def sample_surroundings p n normalizeSignedProofPayload_def) blast
  then obtain cs message where r: "?r = (cs, (), Inr (q, Some (fallback_warning message)))" by blast
  from quote_mode_is_announced[OF r] r show ?thesis by (simp add: sample_surroundings)
qed

lemma executeQuote_result:
  assumes "executeQuote pg nw programId user state active cs h = (cs', h', Inr res)"
  shows "\<exists>signature event mint. res = Executed signature event mint \<and> sh_lastTxSignature h' = Some signature \<and> sh_lastExecutionEvent h' = event"
  using assms
  by (auto simp: executeQuote_def flow_simps Let_def split: prod.splits sum.splits option.splits)

text \<open>
  \<open>executeShield\<close> always answers: an error is caught, shown and returned as its message, a success sets the
  signature, and the loading flag is cleared.
\<close>

theorem execute_always_answers:
  assumes "executeShield pg nw quote state desired proof cs h = (cs', h', r)"
  shows "(\<exists>signature event mint. r = Inr (Executed signature event mint) \<and> sh_lastTxSignature h' = Some signature
            \<and> sh_lastExecutionEvent h' = event \<and> \<not> sh_executeLoading h')
     \<or> (\<exists>message. r = Inr (Not_executed message) \<and> sh_error h' = Some message
            \<and> (sh_executeLoading h' \<longrightarrow> h' = h\<lparr>sh_error := Some message\<rparr> \<and> cs' = cs))"
proof (cases "wl_canSign (pg_wallet pg) \<and> wl_publicKey (pg_wallet pg) \<noteq> None \<and> pg_programId pg \<noteq> None")
  case True
  then obtain user programId where k: "wl_publicKey (pg_wallet pg) = Some user" "pg_programId pg = Some programId" by auto
  let ?f = "bind (refreshQuote pg nw desired proof) (\<lambda>fresh.
         executeQuote pg nw programId user state (case fresh of Some q \<Rightarrow> Some q | None \<Rightarrow> quote))"
  obtain c1 h1 r1 where f: "?f cs (h\<lparr>sh_executeLoading := True, sh_error := None\<rparr>) = (c1, h1, r1)"
    by (cases "?f cs (h\<lparr>sh_executeLoading := True, sh_error := None\<rparr>)")
  have "\<exists>signature event mint. res = Executed signature event mint \<and> sh_lastTxSignature h1 = Some signature \<and> sh_lastExecutionEvent h1 = event"
    if "r1 = Inr res" for res
    using f that executeQuote_result by (auto simp: bind_def split: prod.splits sum.splits)
  with f show ?thesis
    using True k assms
    by (cases r1) (auto simp: executeShield_def Let_def bind_def[of "update _"] update_def finishing_def catching_def bind_def[of "update _"] lift_def)
next
  case False
  then show ?thesis using assms
    by (auto simp: executeShield_def Let_def flow_simps split: option.splits bool.splits)
qed

theorem execute_always_answers_witness:
  "\<exists>message. executeShield (sample_page\<lparr>pg_programId := None\<rparr>) (sample_network sample_route) None None Guest JNull [] sample_hook
     = ([], sample_hook\<lparr>sh_error := Some message\<rparr>, Inr (Not_executed message)) \<and> message \<noteq> []"
proof -
  let ?r = "executeShield (sample_page\<lparr>pg_programId := None\<rparr>) (sample_network sample_route) None None Guest JNull [] sample_hook"
  have c: "snd (snd ?r) = Inr (Not_executed ''Program ID not configured'') \<and> fst ?r = []"
    by (simp add: executeShield_def flow_simps sample_page_def Let_def)
  have "?r = (fst ?r, fst (snd ?r), snd (snd ?r))" by simp
  from execute_always_answers[OF this] c show ?thesis
    by (auto simp: executeShield_def flow_simps sample_page_def Let_def)
qed

lemma issued_signature_hex:
  assumes "handleShieldScoreRequest sv r st body = (st', res)" "sr_body res = Issued i"
  shows "is_oracle_signature_hex i = to_hex (is_oracle_signature i)"
proof -
  have s: "signScore sv st b m w d p bs u = (st2, Inr res2) \<Longrightarrow> sr_body res2 = Issued i \<Longrightarrow> ?thesis" for st b m w d p bs u st2 res2
    by (auto simp: signScore_def Let_def split: prod.splits sum.splits)
  have t: "issueScore sv r st b m w u a = (st2, Inr res2) \<Longrightarrow> sr_body res2 = Issued i \<Longrightarrow> ?thesis" for st b m w u a st2 res2
    by (auto simp: issueScore_def Let_def fail_def split: sum.splits if_splits intro: s)
  have v: "verifiedChecks sv v a w = (v2, Inr (Some res2)) \<Longrightarrow> sr_body res2 \<noteq> Issued i" for v a w v2 res2
    by (auto simp: verifiedChecks_def fail_def Let_def split: prod.splits sum.splits if_splits ownership.splits verification.splits)
  have "shieldScoreBody sv r st body = (st', Inr res)"
    using assms by (auto simp: handleShieldScoreRequest_def split: prod.splits sum.splits)
  then show ?thesis
    using assms(2) t v by (auto simp: shieldScoreBody_def fail_def Let_def split: sum.splits if_splits option.splits prod.splits)
qed

text \<open>What the oracle issued behind its route, as the client's quote has it.\<close>

lemma issued_quote:
  assumes "handleShieldScoreRequest sv r st body = (st', res)" "sr_body res = Issued i"
    and "shieldQuoteFromApiResponse i mode = Inr q"
  obtains wallet m base58 user p bytes k where "js_prop body ''wallet'' = Inr wallet" "sv_pubkey sv wallet = Inr (base58, user)"
    "parse_mode (js_nullish (js_prop_opt body ''mode'') (JStr ''verified'')) = Some m"
    "serializeShieldPayloadV0 p = Inr bytes" "user_pubkey p = user" "user_mode p = modeToCode m"
    "sq_payloadHex q = to_hex bytes" "sq_oracleSignatureHex q = to_hex (sv_sign sv bytes k)" "sq_oraclePubkey q = sv_key_base58 sv k"
    "calculateShieldQuote (initial_price p) (sales_velocity_bps p) (time_elapsed p) (dignity_score p) = Inr (sq_quote q)"
  using assms(1,2)
proof (rule handle_Issued)
  fix wallet m base58 user v t
  assume w: "js_prop body ''wallet'' = Inr wallet" "sv_pubkey sv wallet = Inr (base58, user)"
      "parse_mode (js_nullish (js_prop_opt body ''mode'') (JStr ''verified'')) = Some m"
    and f: "issue_facts sv r (st\<lparr>verify_state := v\<rparr>) body m base58 user
      (js_nullish (js_prop_opt body ''reclaim_attestations'') (JArr [])) st' i t"
  have hex: "is_oracle_signature_hex i = to_hex (is_oracle_signature i)"
    using assms(1,2) by (rule issued_signature_hex)
  show ?thesis
    using that[OF w(1,2,3), of "it_payload t" "it_bytes t" "it_oracle t"] f buildPayload_fields[OF issue_facts_payload[OF f]] assms(3) hex
    by (auto simp: issue_facts_def Let_def shieldQuoteFromApiResponse_def viewPayload_def js_simps)
qed

lemma quoteBody_props:
  assumes "\<not> USE_FIXTURE_QUOTE (pg_env pg)"
  shows "js_prop (quoteBody pg w proofs mode) ''wallet'' = Inr (JStr w)"
    "js_nullish (quoteBody pg w proofs mode) d = quoteBody pg w proofs mode"
    "parse_mode (js_nullish (js_prop_opt (quoteBody pg w proofs mode) ''mode'') d) = Some mode"
  using assms by (simp_all add: quoteBody_def js_nullish_def[of "JObj xs" for xs])

text \<open>The route's answers as the network's, for any limits, times and states of the route.\<close>

definition oracleBehind :: "issued_score network \<Rightarrow> env \<Rightarrow> (string \<Rightarrow> bool) \<Rightarrow> ('k, 'v) oracle_services \<Rightarrow> bool" where
  "oracleBehind nw env isIP sv \<longleftrightarrow>
     (\<forall>calls url body i. nw_fetch nw calls url body = Replied i \<longrightarrow>
        (\<exists>redis now r req st. rr_body (snd (POST env isIP redis sv now r req (Some body) st)) = Handled (Issued i)))"

lemma route_Issued:
  assumes "rr_body (snd (POST env isIP redis sv now r req (Some body) st)) = Handled (Issued i)"
  obtains res where "handleShieldScoreRequest sv r (rs_oracle st) (js_nullish body (JObj []))
      = (fst (handleShieldScoreRequest sv r (rs_oracle st) (js_nullish body (JObj []))), res)" "sr_body res = Issued i"
  using assms that
  by (cases "handleShieldScoreRequest sv r (rs_oracle st) (js_nullish body (JObj []))")
    (auto simp: POST_def Let_def split: if_splits prod.splits)

lemma answeredFor_signed:
  assumes "answeredFor pg nw proof q" "\<not> USE_FIXTURE_QUOTE (pg_env pg)" "oracleBehind nw env isIP sv"
    and "wl_publicKey (pg_wallet pg) = Some user" "sv_pubkey sv (JStr (pg_base58 pg user)) = Inr (name, user)"
  obtains p bytes k where "serializeShieldPayloadV0 p = Inr bytes" "user_pubkey p = user" "user_mode p = modeToCode (sq_mode q)"
    "sq_payloadHex q = to_hex bytes" "sq_oracleSignatureHex q = to_hex (sv_sign sv bytes k)" "sq_oraclePubkey q = sv_key_base58 sv k"
    "calculateShieldQuote (initial_price p) (sales_velocity_bps p) (time_elapsed p) (dignity_score p) = Inr (sq_quote q)"
proof -
  obtain calls i mode where a: "nw_fetch nw calls (quoteUrl pg) (quoteBody pg (pg_base58 pg user) (normalizeSignedProofPayload proof) mode) = Replied i"
      and q: "shieldQuoteFromApiResponse i mode = Inr q"
    using assms(1,4) unfolding answeredFor_def answeredQuote_def by auto
  let ?body = "quoteBody pg (pg_base58 pg user) (normalizeSignedProofPayload proof) mode"
  obtain redis now r req st where "rr_body (snd (POST env isIP redis sv now r req (Some ?body) st)) = Handled (Issued i)"
    using a assms(3) unfolding oracleBehind_def by blast
  then obtain res where h: "handleShieldScoreRequest sv r (rs_oracle st) ?body
      = (fst (handleShieldScoreRequest sv r (rs_oracle st) ?body), res)" "sr_body res = Issued i"
    using quoteBody_props(2)[OF assms(2)] by (elim route_Issued) simp
  note qb = quoteBody_props[OF assms(2)]
  show ?thesis
    by (rule issued_quote[OF h q]) (use that qb assms(5) quote_mode[OF q] in auto)
qed



subsection \<open>A failed refresh\<close>

lemma refreshQuote_offline:
  assumes "\<forall>calls url body. nw_fetch nw calls url body = No_answer e" "wl_publicKey (pg_wallet pg) = Some user"
  shows "\<exists>calls h'. refreshQuote pg nw desired proof cs h = (calls, h', Inr None)"
  using assms
  by (auto simp: refreshQuote_def requestShieldQuote_def attempt_def readReply_def flow_simps Let_def)

lemma refreshProtocolState_online:
  assumes "\<forall>calls k. nw_account nw calls k = Inr (accounts k)" "pg_programId pg = Some programId"
  shows "\<exists>calls h'. refreshProtocolState pg nw cs h = (calls, h', Inr (Some (fetchProtocolState (pg_chain pg) accounts programId)))"
  using assms
  by (simp add: refreshProtocolState_def readProtocolState_def flow_simps Let_def fetchProtocolState_two)

text \<open>
  A failed refresh does not stop an execution: while no request for a quote is answered, \<open>executeShield\<close> has the
  wallet sign the transaction of the quote of the render, whatever mode is asked for now and whatever the mode and
  the expiry of that quote, and although \<open>refreshQuote\<close> has just removed it from the page.
\<close>

theorem failed_refresh_executes_old_quote:
  assumes "\<forall>calls url body. nw_fetch nw calls url body = No_answer e"
    and "\<forall>calls k. nw_account nw calls k = Inr (accounts k)" "\<forall>calls. nw_blockhash nw calls = Inr blockhash"
    and "pg_programId pg = Some programId" "wl_publicKey (pg_wallet pg) = Some user" "wl_canSign (pg_wallet pg)"
    and "\<not> cq_blocked (sq_quote q)"
    and "executeInstructionsOf pg programId user (Some (fetchProtocolState (pg_chain pg) accounts programId)) q = Inr ixs"
  shows "\<exists>h1 h2 calls. refreshQuote pg nw desired proof cs h1 = (calls, h2, Inr None)
     \<and> Signed \<lparr>tx_instructions = [Compute_unit_limit 900000, Ed25519_verify (xi_ed25519Ix ixs), Invoke (xi_executeIx ixs)],
          tx_recentBlockhash = blockhash, tx_feePayer = user\<rparr>
        \<in> set (fst (executeShield pg nw (Some q) state desired proof cs h))"
proof -
  let ?h = "h\<lparr>sh_executeLoading := True, sh_error := None\<rparr>"
  obtain c1 h1 where r: "refreshQuote pg nw desired proof cs ?h = (c1, h1, Inr None)"
    using refreshQuote_offline[OF assms(1,5)] by blast
  obtain c2 h2 where p: "refreshProtocolState pg nw c1 h1 = (c2, h2, Inr (Some (fetchProtocolState (pg_chain pg) accounts programId)))"
    using refreshProtocolState_online[OF assms(2,4)] by blast
  let ?tx = "\<lparr>tx_instructions = [Compute_unit_limit 900000, Ed25519_verify (xi_ed25519Ix ixs), Invoke (xi_executeIx ixs)],
     tx_recentBlockhash = blockhash, tx_feePayer = user\<rparr>"
  have "Signed ?tx \<in> set (fst (executeQuote pg nw programId user state (Some q) c1 h1))"
    using assms(3,7,8) p
    by (auto simp: executeQuote_def submit_def flow_simps Let_def ensure_def split: sum.split prod.split)
  then have "Signed ?tx \<in> set (fst (executeShield pg nw (Some q) state desired proof cs h))"
    using assms(4-6) r
    by (auto simp: executeShield_def flow_simps Let_def split: sum.splits prod.splits)
  with r show ?thesis by blast
qed

theorem failed_refresh_executes_old_quote_witness:
  "\<exists>q tx. sq_mode q = Guest \<and> Signed tx \<in> set (fst (executeShield sample_page (sample_network (\<lambda>_. No_answer (Thrown ''down'')))
     (Some q) None Verified JNull [] sample_hook)) \<and> length (tx_instructions tx) = 3"
proof -
  let ?a = "\<lambda>_ :: pubkey. Some (replicate 41 8 :: bytes)" and ?p = "replicate 32 9" and ?u = "replicate 32 7"
  let ?x = "\<lambda>q. executeInstructionsOf sample_page ?p ?u (Some (fetchProtocolState (pg_chain sample_page) ?a ?p)) q"
  obtain i q ixs where f: "shieldQuoteFromApiResponse i Guest = Inr q" "\<not> cq_blocked (sq_quote q)" "?x q = Inr ixs"
    by (rule sample_found) (auto simp: sample_page_def)
  then have q: "\<not> cq_blocked (sq_quote q)" "sq_mode q = Guest" "?x q = Inr ixs" using quote_mode[OF f(1)] by simp_all
  have n: "\<forall>calls url body. nw_fetch (sample_network (\<lambda>_. No_answer (Thrown ''down''))) calls url body = No_answer (Thrown ''down'')"
    "\<forall>calls k. nw_account (sample_network (\<lambda>_. No_answer (Thrown ''down''))) calls k = Inr (?a k)"
    "\<forall>calls. nw_blockhash (sample_network (\<lambda>_. No_answer (Thrown ''down''))) calls = Inr ''B''"
    by (simp_all add: sample_network_def)
  have pg: "pg_programId sample_page = Some ?p" "wl_publicKey (pg_wallet sample_page) = Some ?u" "wl_canSign (pg_wallet sample_page)"
    by (simp_all add: sample_page_def)
  from failed_refresh_executes_old_quote[OF n pg q(1,3), of Verified JNull "[]" None sample_hook] q(2)
  show ?thesis by (metis (no_types, lifting) length_Cons list.size(3) numeral_3_eq_3 transaction.select_convs(1))
qed

end
