(* ===== verification/Spent_Proof.thy ===== *)
theory Spent_Proof
  imports Shield_Flow
begin

section \<open>The preview spends the proof\<close>

text \<open>
  useShieldFlow.ts and the oracle together: \<open>refreshQuote\<close> and \<open>executeShield\<close> both ask the oracle for a score, and the
  oracle issues one verified score per proof and wallet in five minutes. The network here is the handler itself, with
  the state that the calls so far have left.
\<close>

subsection \<open>The oracle as the network\<close>

text \<open>\<open>clock n\<close> are the readings of the request that comes after \<open>n\<close> calls of the page.\<close>

fun oracleRun ::
  "('k, 'v) oracle_services \<Rightarrow> (nat \<Rightarrow> readings) \<Rightarrow> nat \<Rightarrow> ('k, 'v) oracle_state \<Rightarrow> call list \<Rightarrow> ('k, 'v) oracle_state" where
  "oracleRun sv clock n st [] = st"
| "oracleRun sv clock n st (Fetched url body # calls) =
     oracleRun sv clock (Suc n) (fst (handleShieldScoreRequest sv (clock n) st body)) calls"
| "oracleRun sv clock n st (_ # calls) = oracleRun sv clock (Suc n) st calls"

definition oracleAnswers ::
  "issued_score network \<Rightarrow> ('k, 'v) oracle_services \<Rightarrow> (nat \<Rightarrow> readings) \<Rightarrow> ('k, 'v) oracle_state \<Rightarrow> bool" where
  "oracleAnswers nw sv clock st0 \<longleftrightarrow>
     (\<forall>calls url body i. nw_fetch nw calls url body = Replied i \<longrightarrow>
        sr_body (snd (handleShieldScoreRequest sv (clock (length calls)) (oracleRun sv clock 0 st0 calls) body)) = Issued i)"

lemma oracleRun_append:
  "oracleRun sv clock n st (xs @ ys) = oracleRun sv clock (n + length xs) (oracleRun sv clock n st xs) ys"
proof (induction xs arbitrary: n st)
  case (Cons x xs)
  then show ?case by (cases x) simp_all
qed simp

text \<open>Calls that ask the oracle nothing leave it as it is.\<close>

fun asksOracle :: "call \<Rightarrow> bool" where
  "asksOracle (Fetched url body) = True"
| "asksOracle _ = False"

lemma oracleRun_idle: "\<not> list_ex asksOracle calls \<Longrightarrow> oracleRun sv clock n st calls = st"
proof (induction calls arbitrary: n)
  case (Cons c calls)
  then show ?case by (cases c) simp_all
qed simp

subsection \<open>The one-time mark\<close>

lemma map_get_filter: "map_get m k = Some v \<Longrightarrow> P (k, v) \<Longrightarrow> map_get (filter P m) k = Some v"
  by (induction m) auto

text \<open>A verified score leaves a mark for five minutes, and no verified score is issued for a marked body.\<close>

lemma verified_marks:
  assumes "handleShieldScoreRequest sv r st body = (st', res)" "sr_body res = Issued i"
    and "parse_mode (js_nullish (js_prop_opt body ''mode'') (JStr ''verified'')) = Some Verified"
  obtains user hash where "proofHashOf sv body (js_nullish (js_prop_opt body ''reclaim_attestations'') (JArr [])) = Inr hash"
    "\<exists>wallet base58. js_prop body ''wallet'' = Inr wallet \<and> sv_pubkey sv wallet = Inr (base58, user)"
    "map_get (seenProofByUniq st') (computeUniqKey (sv_keccak sv) hash user) = Some (now_secs r + 300)"
    "\<not> proof_reused Verified (now_secs r) (map_get (cleanupSeen (now_secs r) (seenProofByUniq st)) (computeUniqKey (sv_keccak sv) hash user))"
  using assms(1,2)
proof (rule handle_Issued)
  fix wallet m base58 user v t
  assume w: "js_prop body ''wallet'' = Inr wallet" "sv_pubkey sv wallet = Inr (base58, user)"
      "parse_mode (js_nullish (js_prop_opt body ''mode'') (JStr ''verified'')) = Some m"
    and f: "issue_facts sv r (st\<lparr>verify_state := v\<rparr>) body m base58 user
      (js_nullish (js_prop_opt body ''reclaim_attestations'') (JArr [])) st' i t"
  have m: "m = Verified" using w(3) assms(3) by simp
  note p = buildPayload_fields[OF issue_facts_payload[OF f]]
  show ?thesis
    by (rule that[of "zk_proof_hash (it_payload t)" user]) (use f w p m in \<open>auto simp: issue_facts_def Let_def\<close>)
qed

lemma marked_not_issued:
  assumes "handleShieldScoreRequest sv r st body = (st', res)" "sr_body res = Issued i"
    and "parse_mode (js_nullish (js_prop_opt body ''mode'') (JStr ''verified'')) = Some Verified"
    and "now_secs r' < now_secs r + 300" "seenProofByUniq st2 = seenProofByUniq st'" "0 < now_secs r + 300"
  shows "sr_body (snd (handleShieldScoreRequest sv r' st2 body)) \<noteq> Issued j"
proof
  assume j: "sr_body (snd (handleShieldScoreRequest sv r' st2 body)) = Issued j"
  obtain user hash where a: "proofHashOf sv body (js_nullish (js_prop_opt body ''reclaim_attestations'') (JArr [])) = Inr hash"
      "\<exists>wallet base58. js_prop body ''wallet'' = Inr wallet \<and> sv_pubkey sv wallet = Inr (base58, user)"
      "map_get (seenProofByUniq st') (computeUniqKey (sv_keccak sv) hash user) = Some (now_secs r + 300)"
    by (rule verified_marks[OF assms(1-3)]) blast
  let ?h = "handleShieldScoreRequest sv r' st2 body"
  obtain user2 hash2 where b: "proofHashOf sv body (js_nullish (js_prop_opt body ''reclaim_attestations'') (JArr [])) = Inr hash2"
      "\<exists>wallet base58. js_prop body ''wallet'' = Inr wallet \<and> sv_pubkey sv wallet = Inr (base58, user2)"
      "\<not> proof_reused Verified (now_secs r') (map_get (cleanupSeen (now_secs r') (seenProofByUniq st2)) (computeUniqKey (sv_keccak sv) hash2 user2))"
    by (rule verified_marks[OF prod.collapse[of ?h, symmetric] j assms(3)]) blast
  have "hash2 = hash" "user2 = user" using a(1,2) b(1,2) by auto
  moreover have "map_get (cleanupSeen (now_secs r') (seenProofByUniq st2)) (computeUniqKey (sv_keccak sv) hash user) = Some (now_secs r + 300)"
    unfolding cleanupSeen_def assms(5) using assms(4) by (intro map_get_filter[OF a(3)]) auto
  ultimately show False using b(3) assms(4,6) by (simp add: proof_reused_def)
qed

subsection \<open>Two requests of the page\<close>

lemma attempt_result:
  assumes "attempt pg nw w proofs mode cs h = (cs', h', r)"
  shows "cs' = cs @ [Fetched (quoteUrl pg) (quoteBody pg w proofs mode)]" "h' = h"
    "r = Inr q \<Longrightarrow> \<exists>i. nw_fetch nw cs (quoteUrl pg) (quoteBody pg w proofs mode) = Replied i \<and> sq_mode q = mode"
  using assms quote_mode
  by (auto simp: attempt_def flow_simps Let_def readReply_Inr split: sum.splits if_splits)

lemma refreshProtocolState_reads:
  assumes "refreshProtocolState pg nw cs h = (cs', h', r)"
  shows "\<exists>reads. cs' = cs @ reads \<and> \<not> list_ex asksOracle reads"
  using assms
  by (auto simp: refreshProtocolState_def readProtocolState_def flow_simps Let_def split: option.splits sum.splits)

text \<open>A verified quote came from an answer to the verified request, and nothing asked the oracle after it.\<close>

lemma verified_refresh:
  assumes "refreshQuote pg nw Verified proof cs h = (cs1, h1, Inr (Some q))" "sq_mode q = Verified"
    and "\<not> USE_FIXTURE_QUOTE (pg_env pg)" "wl_publicKey (pg_wallet pg) = Some user"
  defines "body \<equiv> quoteBody pg (pg_base58 pg user) (normalizeSignedProofPayload proof) Verified"
  obtains i reads where "nw_fetch nw cs (quoteUrl pg) body = Replied i" "cs1 = cs @ [Fetched (quoteUrl pg) body] @ reads"
    "\<not> list_ex asksOracle reads"
proof -
  let ?w = "pg_base58 pg user" and ?p = "normalizeSignedProofPayload proof"
  let ?h = "h\<lparr>sh_quoteLoading := True, sh_error := None\<rparr>"
  obtain c r where v: "attempt pg nw ?w ?p Verified cs ?h = (c, ?h, r)" and c: "c = cs @ [Fetched (quoteUrl pg) body]"
    using attempt_result(1,2)[of pg nw ?w ?p Verified cs ?h] unfolding body_def by (cases "attempt pg nw ?w ?p Verified cs ?h") auto
  show thesis
  proof (cases r)
    case (Inr q')
    obtain i where i: "nw_fetch nw cs (quoteUrl pg) body = Replied i"
      using attempt_result(3)[OF v] Inr unfolding body_def by blast
    let ?u = "?h\<lparr>sh_quote := Some q', sh_verificationWarning := None\<rparr>"
    obtain c2 h2 r2 where p: "refreshProtocolState pg nw c ?u = (c2, h2, r2)" by (cases "refreshProtocolState pg nw c ?u")
    have "cs1 = c2" using assms(1,3,4) v Inr p
      by (cases r2) (auto simp: refreshQuote_def requestShieldQuote_def Let_def catching_def finishing_def bind_def update_def lift_def)
    then show thesis using that[OF i] refreshProtocolState_reads[OF p] c by auto
  next
    case (Inl e)
    obtain c2 h2 r2 where g: "attempt pg nw ?w ?p Guest c ?h = (c2, h2, r2)" by (cases "attempt pg nw ?w ?p Guest c ?h")
    have "sq_mode q = Guest"
    proof (cases r2)
      case (Inr q2)
      then have "sq_mode q2 = Guest" using attempt_result(3)[OF g] by blast
      moreover have "q = q2" using assms(1,3,4) v Inl g Inr
        by (auto simp: refreshQuote_def requestShieldQuote_def Let_def catching_def finishing_def bind_def update_def lift_def
            split: prod.splits sum.splits)
      ultimately show ?thesis by simp
    next
      case (Inl e2)
      then show ?thesis using assms(1,3,4) v \<open>r = Inl e\<close> g
        by (auto simp: refreshQuote_def requestShieldQuote_def Let_def catching_def finishing_def bind_def update_def lift_def
            split: prod.splits sum.splits)
    qed
    then show thesis using assms(2) by simp
  qed
qed

lemma keeps_refreshMode:
  assumes "\<not> USE_FIXTURE_QUOTE (pg_env pg)" "wl_publicKey (pg_wallet pg) = Some user"
  shows "flow_keeps P (refreshQuote pg nw Verified proof) (\<lambda>r. \<forall>q. r = Some q \<longrightarrow> sq_mode q \<in> {Verified, Guest})"
proof -
  have "flow_keeps P (bind (requestShieldQuote pg nw (pg_base58 pg user) Verified proof) (\<lambda>(quote, warning).
      andThen (update (\<lambda>h. h\<lparr>sh_quote := Some quote, sh_verificationWarning := warning\<rparr>))
      (bind (refreshProtocolState pg nw) (\<lambda>_. lift (Inr (Some quote))))))
     (\<lambda>r. \<forall>q. r = Some q \<longrightarrow> sq_mode q \<in> {Verified, Guest})"
    by (rule keeps_bind[OF keeps_requestShieldQuote])
      (auto simp: announced_def assms(1) intro!: keeps_andThen keeps_bind[OF keeps_refreshProtocolState])
  then show ?thesis
    by (auto simp: refreshQuote_def assms(2) intro!: keeps_andThen keeps_finishing keeps_catching)
qed

lemma refused_refresh_is_guest:
  assumes "\<forall>i. nw_fetch nw cs (quoteUrl pg) (quoteBody pg (pg_base58 pg user) (normalizeSignedProofPayload proof) Verified) \<noteq> Replied i"
    and "refreshQuote pg nw Verified proof cs h = (cs1, h1, Inr (Some q))"
    and "\<not> USE_FIXTURE_QUOTE (pg_env pg)" "wl_publicKey (pg_wallet pg) = Some user"
  shows "sq_mode q = Guest"
proof (rule ccontr)
  assume n: "sq_mode q \<noteq> Guest"
  have "sq_mode q = Verified"
  proof -
    have "flow_keeps (\<lambda>_. True) (refreshQuote pg nw Verified proof) (\<lambda>r. \<forall>q. r = Some q \<longrightarrow> sq_mode q \<in> {Verified, Guest})"
      using keeps_refreshMode[OF assms(3,4)] .
    from keepsD(2)[OF this assms(2) refl] n show ?thesis by auto
  qed
  from verified_refresh[OF assms(2) this assms(3,4)] assms(1) show False by metis
qed

subsection \<open>Property\<close>

lemma refreshQuote_signs_nothing:
  assumes "refreshQuote pg nw desired proof cs h = (cs', h', r)" "Signed tx \<in> set cs'"
  shows "Signed tx \<in> set cs"
  using keepsD(1)[OF keeps_refreshQuote[of "\<lambda>_. False" pg nw desired "proof"] assms(1)] assms(2) by auto

lemma executeShield_signed:
  assumes "executeShield pg nw quote state desired proof cs h = (cs', h', r)" "Signed tx \<in> set cs'" "Signed tx \<notin> set cs"
    and "wl_publicKey (pg_wallet pg) = Some user"
  obtains c h1 fresh q where
    "refreshQuote pg nw desired proof cs (h\<lparr>sh_executeLoading := True, sh_error := None\<rparr>) = (c, h1, Inr fresh)"
    "transactionOf pg q tx" "q \<in> (case fresh of Some q \<Rightarrow> {q} | None \<Rightarrow> set_option quote)"
proof -
  let ?h = "h\<lparr>sh_executeLoading := True, sh_error := None\<rparr>"
  obtain c h1 r1 where f: "refreshQuote pg nw desired proof cs ?h = (c, h1, r1)" by (cases "refreshQuote pg nw desired proof cs ?h")
  have c: "Signed tx \<notin> set c" using refreshQuote_signs_nothing[OF f] assms(3) by blast
  have ps: "wl_canSign (pg_wallet pg) \<and> pg_programId pg \<noteq> None"
    using assms(1,2,3) by (auto simp: executeShield_def flow_simps Let_def split: option.splits bool.splits)
  then obtain programId where p: "pg_programId pg = Some programId" by auto
  show thesis
  proof (cases r1)
    case (Inl e)
    then show thesis using assms f c ps p
      by (auto simp: executeShield_def catching_def finishing_def bind_def update_def lift_def Let_def)
  next
    case (Inr fresh)
    let ?active = "case fresh of Some q \<Rightarrow> Some q | None \<Rightarrow> quote"
    obtain c2 h2 r2 where e: "executeQuote pg nw programId user state ?active c h1 = (c2, h2, r2)"
      by (cases "executeQuote pg nw programId user state ?active c h1")
    have "cs' = c2" using assms(1,4) f ps p Inr e
      by (cases r2) (auto simp: executeShield_def catching_def finishing_def bind_def update_def lift_def Let_def)
    then have "\<exists>q. q \<in> (case fresh of Some q \<Rightarrow> {q} | None \<Rightarrow> set_option quote) \<and> transactionOf pg q tx"
      using keeps_signed[OF keeps_executeQuote[OF p assms(4), of ?active "\<lambda>q. q \<in> (case fresh of Some q \<Rightarrow> {q} | None \<Rightarrow> set_option quote)" nw state] e]
        assms(2) c by (auto split: option.splits)
    then show thesis using that f Inr by blast
  qed
qed

text \<open>What an answered quote has in its hex fields: bytes the oracle has signed for the mode of the quote.\<close>

lemma answered_bytes:
  assumes "oracleAnswers nw sv clock st0" "\<not> USE_FIXTURE_QUOTE (pg_env pg)" "answeredFor pg nw proof q"
  obtains bytes k where "hexToBytes (sq_payloadHex q) = Inr bytes" "hexToBytes (sq_oracleSignatureHex q) = Inr (sv_sign sv bytes k)"
    "byte_at bytes 59 = modeToCode (sq_mode q)"
proof -
  obtain publicKey calls i mode
    where a: "nw_fetch nw calls (quoteUrl pg) (quoteBody pg (pg_base58 pg publicKey) (normalizeSignedProofPayload proof) mode) = Replied i"
      and q: "shieldQuoteFromApiResponse i mode = Inr q"
    using assms(3) unfolding answeredFor_def answeredQuote_def by blast
  let ?body = "quoteBody pg (pg_base58 pg publicKey) (normalizeSignedProofPayload proof) mode"
  let ?h = "handleShieldScoreRequest sv (clock (length calls)) (oracleRun sv clock 0 st0 calls) ?body"
  have h: "sr_body (snd ?h) = Issued i" using a assms(1) unfolding oracleAnswers_def by blast
  show thesis
  proof (rule issued_quote[OF prod.collapse[of ?h, symmetric] h q])
    fix wallet m base58 user p bytes k
    assume m: "parse_mode (js_nullish (js_prop_opt ?body ''mode'') (JStr ''verified'')) = Some m"
      and p: "serializeShieldPayloadV0 p = Inr bytes" "user_mode p = modeToCode m"
      and x: "sq_payloadHex q = to_hex bytes" "sq_oracleSignatureHex q = to_hex (sv_sign sv bytes k)"
    have mode: "m = sq_mode q" using m quoteBody_props(3)[OF assms(2)] quote_mode[OF q] by simp
    have wf: "wf_payload p" "bytes = payload_layout p" using p(1) by (simp_all add: serialize_Inr_iff)
    have "byte_at bytes 59 = modeToCode (sq_mode q)"
      unfolding wf(2) payload_layout_bytes(4)[OF wf(1)] p(2) mode by (cases "sq_mode q") simp_all
    then show thesis using that x by simp
  qed
qed

text \<open>What the wallet is asked to sign for a quote.\<close>

lemma transactionOf_bytes:
  assumes "transactionOf pg q tx" "hexToBytes (sq_payloadHex q) = Inr bytes" "hexToBytes (sq_oracleSignatureHex q) = Inr signature"
  shows "\<exists>oracleKey ix. tx_instructions tx = [Compute_unit_limit 900000,
        Ed25519_verify \<lparr>ed_publicKey = oracleKey, ed_message = bytes, ed_signature = signature\<rparr>, Invoke ix]
     \<and> ti_data ix = anchorDiscriminator (ch_sha256 (pg_chain pg)) ''global'' ''execute_shield'' @ bytes @ signature"
proof -
  obtain programId user state ixs where x: "executeInstructionsOf pg programId user state q = Inr ixs"
      "tx_instructions tx = [Compute_unit_limit 900000, Ed25519_verify (xi_ed25519Ix ixs), Invoke (xi_executeIx ixs)]"
    using assms(1) unfolding transactionOf_def by blast
  from x(1) show ?thesis by (rule executeInstructionsOf_Inr) (use assms(2,3) x(2) in auto)
qed

text \<open>
  C17. The preview spends the proof: once a page shows a verified quote, the oracle answers the next verified request
  of the page not with a score for five minutes. So what an execution in that time has the wallet sign carries, when its own
  refresh has found a quote, the bytes of that quote, which the oracle has signed for the mode guest (byte 59 of the
  payload); and when it has found none, the bytes and the signature of the quote of the preview, once more.
\<close>

theorem preview_spends_the_proof:
  assumes "oracleAnswers nw sv clock st0" "\<not> USE_FIXTURE_QUOTE (pg_env pg)" "wl_publicKey (pg_wallet pg) = Some user"
    and "refreshQuote pg nw Verified proof cs h = (cs1, h1, Inr (Some q1))" "sq_mode q1 = Verified"
    and "executeShield pg nw (Some q1) state Verified proof cs1 h2 = (cs2, h3, r)" "Signed tx \<in> set cs2" "Signed tx \<notin> set cs1"
    and "now_secs (clock (length cs1)) < now_secs (clock (length cs)) + 300" "0 < now_secs (clock (length cs)) + 300"
  shows "(\<forall>i. nw_fetch nw cs1 (quoteUrl pg) (quoteBody pg (pg_base58 pg user) (normalizeSignedProofPayload proof) Verified) \<noteq> Replied i)
     \<and> (\<exists>calls h' fresh bytes signature oracleKey ix.
         refreshQuote pg nw Verified proof cs1 (h2\<lparr>sh_executeLoading := True, sh_error := None\<rparr>) = (calls, h', Inr fresh)
         \<and> tx_instructions tx = [Compute_unit_limit 900000,
              Ed25519_verify \<lparr>ed_publicKey = oracleKey, ed_message = bytes, ed_signature = signature\<rparr>, Invoke ix]
         \<and> ti_data ix = anchorDiscriminator (ch_sha256 (pg_chain pg)) ''global'' ''execute_shield'' @ bytes @ signature
         \<and> (\<exists>k. signature = sv_sign sv bytes k)
         \<and> (case fresh of
              Some q \<Rightarrow> sq_mode q = Guest \<and> byte_at bytes 59 = modeToCode Guest
                \<and> hexToBytes (sq_payloadHex q) = Inr bytes \<and> hexToBytes (sq_oracleSignatureHex q) = Inr signature
            | None \<Rightarrow> byte_at bytes 59 = modeToCode Verified
                \<and> hexToBytes (sq_payloadHex q1) = Inr bytes \<and> hexToBytes (sq_oracleSignatureHex q1) = Inr signature))"
proof -
  let ?body = "quoteBody pg (pg_base58 pg user) (normalizeSignedProofPayload proof) Verified"
  let ?st = "oracleRun sv clock 0 st0 cs"
  let ?first = "handleShieldScoreRequest sv (clock (length cs)) ?st ?body"
  obtain i reads where v: "nw_fetch nw cs (quoteUrl pg) ?body = Replied i"
      and cs1: "cs1 = cs @ [Fetched (quoteUrl pg) ?body] @ reads" and idle: "\<not> list_ex asksOracle reads"
    by (rule verified_refresh[OF assms(4,5,2,3)]) blast
  have i: "sr_body (snd ?first) = Issued i" using assms(1) v unfolding oracleAnswers_def by blast
  have st1: "oracleRun sv clock 0 st0 cs1 = fst ?first"
    unfolding cs1 by (simp add: oracleRun_append oracleRun_idle[OF idle])
  have mode: "parse_mode (js_nullish (js_prop_opt ?body ''mode'') (JStr ''verified'')) = Some Verified"
    by (rule quoteBody_props(3)[OF assms(2)])
  have refused: "\<forall>j. nw_fetch nw cs1 (quoteUrl pg) ?body \<noteq> Replied j"
  proof (intro allI notI)
    fix j
    assume "nw_fetch nw cs1 (quoteUrl pg) ?body = Replied j"
    then have "sr_body (snd (handleShieldScoreRequest sv (clock (length cs1)) (fst ?first) ?body)) = Issued j"
      using assms(1) st1 unfolding oracleAnswers_def by metis
    then show False
      using marked_not_issued[OF prod.collapse[of ?first, symmetric] i mode assms(9) refl assms(10)] by blast
  qed
  obtain c h' fresh q where e: "refreshQuote pg nw Verified proof cs1 (h2\<lparr>sh_executeLoading := True, sh_error := None\<rparr>) = (c, h', Inr fresh)"
      "transactionOf pg q tx" "q \<in> (case fresh of Some q \<Rightarrow> {q} | None \<Rightarrow> set_option (Some q1))"
    by (rule executeShield_signed[OF assms(6-8,3)]) blast
  have ans: "answeredFor pg nw proof q"
    using e(1,3) keepsD(2)[OF keeps_refreshQuote[of "\<lambda>_. True" pg nw Verified "proof"] e(1) refl]
      keepsD(2)[OF keeps_refreshQuote[of "\<lambda>_. True" pg nw Verified "proof"] assms(4) refl] by (cases fresh) auto
  have mode: "sq_mode q = (case fresh of Some _ \<Rightarrow> Guest | None \<Rightarrow> Verified)"
    using e(1,3) refused_refresh_is_guest[OF refused _ assms(2,3)] assms(5) by (cases fresh) auto
  obtain bytes k where b: "hexToBytes (sq_payloadHex q) = Inr bytes" "hexToBytes (sq_oracleSignatureHex q) = Inr (sv_sign sv bytes k)"
      "byte_at bytes 59 = modeToCode (sq_mode q)" by (rule answered_bytes[OF assms(1,2) ans])
  obtain oracleKey ix where x: "tx_instructions tx = [Compute_unit_limit 900000,
        Ed25519_verify \<lparr>ed_publicKey = oracleKey, ed_message = bytes, ed_signature = sv_sign sv bytes k\<rparr>, Invoke ix]"
      "ti_data ix = anchorDiscriminator (ch_sha256 (pg_chain pg)) ''global'' ''execute_shield'' @ bytes @ sv_sign sv bytes k"
    using transactionOf_bytes[OF e(2) b(1,2)] by blast
  show ?thesis
    by (rule conjI[OF refused], rule exI[of _ c], rule exI[of _ h'], rule exI[of _ fresh], rule exI[of _ bytes],
        rule exI[of _ "sv_sign sv bytes k"], rule exI[of _ oracleKey], rule exI[of _ ix])
      (use e(1,3) b x mode in \<open>auto split: option.splits\<close>)
qed

subsection \<open>A sample run\<close>

definition signed_proof :: jsval where
  "signed_proof = JObj [(''identifier'', JStr ''a''), (''commit_count'', JNum (Fin 60)), (''signatures'', JArr [JStr ''s'']), (''claimData'', JObj
     [(''provider'', JStr ''github''), (''owner'', JStr ''W1''), (''context'', JStr ''ctx'')])]"

definition sample_body_of :: "user_mode \<Rightarrow> jsval" where
  "sample_body_of mode = quoteBody sample_page ''W1'' (normalizeSignedProofPayload signed_proof) mode"

abbreviation sampleAsk :: "(nat, replay_store) oracle_state \<Rightarrow> jsval \<Rightarrow> (nat, replay_store) oracle_state \<times> shield_result" where
  "sampleAsk st body \<equiv> handleShieldScoreRequest (sample_services 1000000) (sample_readings 1000000) st body"

definition reply_of :: "shield_result \<Rightarrow> issued_score reply" where
  "reply_of res = (case sr_body res of Issued i \<Rightarrow> Replied i | _ \<Rightarrow> Refused (sr_status res) JNull)"

definition oracle_network :: "issued_score network" where
  "oracle_network = (sample_network (\<lambda>_. No_answer TypeError))\<lparr>nw_fetch := \<lambda>calls url body.
     reply_of (snd (sampleAsk (oracleRun (sample_services 1000000) (\<lambda>_. sample_readings 1000000) 0 sample_oracle calls) body))\<rparr>"

abbreviation after_first :: "(nat, replay_store) oracle_state" where
  "after_first \<equiv> fst (sampleAsk sample_oracle (sample_body_of Verified))"

abbreviation after_second :: "(nat, replay_store) oracle_state" where
  "after_second \<equiv> fst (sampleAsk after_first (sample_body_of Verified))"

lemma sample_first:
  "case sr_body (snd (sampleAsk sample_oracle (sample_body_of Verified))) of
     Issued i \<Rightarrow> (case shieldQuoteFromApiResponse i Verified of Inr q \<Rightarrow> True | _ \<Rightarrow> False) | _ \<Rightarrow> False"
  by code_simp

lemma sample_second:
  "case sr_body (snd (sampleAsk after_first (sample_body_of Verified))) of Issued i \<Rightarrow> False | _ \<Rightarrow> True"
  by code_simp

lemma sample_third:
  "case sr_body (snd (sampleAsk after_second (sample_body_of Guest))) of
     Issued i \<Rightarrow> (case shieldQuoteFromApiResponse i Guest of
         Inr q \<Rightarrow> \<not> cq_blocked (sq_quote q)
           \<and> (case executeInstructionsOf sample_page (replicate 32 9) (replicate 32 7)
                 (Some (fetchProtocolState sample_chain (\<lambda>_. Some (replicate 41 8)) (replicate 32 9))) q of Inr _ \<Rightarrow> True | Inl _ \<Rightarrow> False)
       | Inl _ \<Rightarrow> False)
   | _ \<Rightarrow> False"
  by code_simp

lemma issued_parts:
  assumes "case sr_body res of Issued i \<Rightarrow> P i | _ \<Rightarrow> False"
  shows "\<exists>i. reply_of res = Replied i \<and> P i"
  using assms by (auto simp: reply_of_def split: shield_body.splits)

lemma refused_parts:
  assumes "case sr_body res of Issued i \<Rightarrow> False | _ \<Rightarrow> True"
  shows "\<exists>status body. reply_of res = Refused status body"
  using assms by (auto simp: reply_of_def split: shield_body.splits)

lemma sample_first_found:
  obtains i q where "reply_of (snd (sampleAsk sample_oracle (sample_body_of Verified))) = Replied i" "shieldQuoteFromApiResponse i Verified = Inr q"
proof -
  obtain i where i: "reply_of (snd (sampleAsk sample_oracle (sample_body_of Verified))) = Replied i"
      "case shieldQuoteFromApiResponse i Verified of Inr q \<Rightarrow> True | _ \<Rightarrow> False"
    using issued_parts[OF sample_first] by blast
  obtain q where "shieldQuoteFromApiResponse i Verified = Inr q"
    using i(2) by (cases "shieldQuoteFromApiResponse i Verified") simp_all
  then show thesis using that i(1) by blast
qed

lemma sample_second_found:
  obtains status body where "reply_of (snd (sampleAsk after_first (sample_body_of Verified))) = Refused status body"
  using refused_parts[OF sample_second] by blast

lemma sample_third_found:
  obtains i q ixs where "reply_of (snd (sampleAsk after_second (sample_body_of Guest))) = Replied i" "shieldQuoteFromApiResponse i Guest = Inr q"
    "\<not> cq_blocked (sq_quote q)"
    "executeInstructionsOf sample_page (replicate 32 9) (replicate 32 7)
       (Some (fetchProtocolState sample_chain (\<lambda>_. Some (replicate 41 8)) (replicate 32 9))) q = Inr ixs"
proof -
  obtain i where i: "reply_of (snd (sampleAsk after_second (sample_body_of Guest))) = Replied i"
      "case shieldQuoteFromApiResponse i Guest of
         Inr q \<Rightarrow> \<not> cq_blocked (sq_quote q)
           \<and> (case executeInstructionsOf sample_page (replicate 32 9) (replicate 32 7)
                 (Some (fetchProtocolState sample_chain (\<lambda>_. Some (replicate 41 8)) (replicate 32 9))) q of Inr _ \<Rightarrow> True | Inl _ \<Rightarrow> False)
       | Inl _ \<Rightarrow> False"
    using issued_parts[OF sample_third] by blast
  have "case reply_of (snd (sampleAsk after_second (sample_body_of Guest))) of Replied i \<Rightarrow> (case shieldQuoteFromApiResponse i Guest of
         Inr q \<Rightarrow> \<not> cq_blocked (sq_quote q)
           \<and> (case executeInstructionsOf sample_page (replicate 32 9) (replicate 32 7)
                 (Some (fetchProtocolState sample_chain (\<lambda>_. Some (replicate 41 8)) (replicate 32 9))) q of Inr _ \<Rightarrow> True | Inl _ \<Rightarrow> False)
       | Inl _ \<Rightarrow> False) | _ \<Rightarrow> False"
    unfolding i(1) reply.case using i(2) .
  from quote_parts[OF this] that show thesis by blast
qed

lemma sample_around:
  "\<not> USE_FIXTURE_QUOTE (pg_env sample_page)" "\<not> isGuardedClaimDemo sample_page"
  "pg_programId sample_page = Some (replicate 32 9)" "pg_wallet sample_page = \<lparr>wl_publicKey = Some (replicate 32 7), wl_canSign = True\<rparr>"
  "pg_base58 sample_page = (\<lambda>_. ''W1'')" "pg_chain sample_page = sample_chain"
  "nw_account oracle_network = (\<lambda>calls k. Inr (Some (replicate 41 8)))" "nw_blockhash oracle_network = (\<lambda>_. Inr ''B'')"
  "nw_sign oracle_network = (\<lambda>calls tx. Inr [])" "nw_send oracle_network = (\<lambda>calls raw. Inr ''S'')"
  "nw_confirm oracle_network = (\<lambda>calls s. Inr None)" "nw_logs oracle_network = (\<lambda>calls s. Inr [])"
  "now_secs (sample_readings 1000000) = 1000"
  by (simp_all add: sample_page_def USE_FIXTURE_QUOTE_def DEMO_QUOTE_MODE_def isGuardedClaimDemo_def oracle_network_def sample_network_def
      sample_readings_def now_secs_def)

lemma oracle_network_asks:
  "nw_fetch oracle_network calls url (sample_body_of mode)
     = reply_of (snd (sampleAsk (oracleRun (sample_services 1000000) (\<lambda>_. sample_readings 1000000) 0 sample_oracle calls) (sample_body_of mode)))"
  by (simp add: oracle_network_def)

lemma oracle_network_answers: "oracleAnswers oracle_network (sample_services 1000000) (\<lambda>_. sample_readings 1000000) sample_oracle"
  unfolding oracleAnswers_def oracle_network_def reply_of_def by (simp split: shield_body.splits)

lemma sample_preview:
  obtains cs1 h1 q1 reads where "refreshQuote sample_page oracle_network Verified signed_proof [] sample_hook = (cs1, h1, Inr (Some q1))"
    "sq_mode q1 = Verified" "cs1 = Fetched (quoteUrl sample_page) (sample_body_of Verified) # reads"
    "\<not> list_ex asksOracle reads" "signed_in cs1 = []"
proof -
  obtain i q where f: "reply_of (snd (sampleAsk sample_oracle (sample_body_of Verified))) = Replied i" "shieldQuoteFromApiResponse i Verified = Inr q"
    by (rule sample_first_found)
  have "\<exists>h1 a b. refreshQuote sample_page oracle_network Verified signed_proof [] sample_hook
      = ([Fetched (quoteUrl sample_page) (sample_body_of Verified), Read_account a, Read_account b], h1, Inr (Some q))"
    by (simp add: refreshQuote_def requestShieldQuote_def attempt_def refreshProtocolState_def
        readProtocolState_def readReply_def flow_simps Let_def sample_around f fetchProtocolState_two
        sample_body_of_def[symmetric] oracle_network_asks)
  then show thesis using that quote_mode[OF f(2)] by (fastforce simp: signed_in_def List.map_filter_def)
qed

lemma sample_execution:
  assumes "cs1 = Fetched (quoteUrl sample_page) (sample_body_of Verified) # reads" "\<not> list_ex asksOracle reads"
  shows "\<exists>tx. Signed tx \<in> set (fst (executeShield sample_page oracle_network quote state Verified signed_proof cs1 h))"
proof -
  obtain status body where s: "reply_of (snd (sampleAsk after_first (sample_body_of Verified))) = Refused status body"
    by (rule sample_second_found)
  obtain i q ixs where t: "reply_of (snd (sampleAsk after_second (sample_body_of Guest))) = Replied i" "shieldQuoteFromApiResponse i Guest = Inr q"
    "\<not> cq_blocked (sq_quote q)"
    "executeInstructionsOf sample_page (replicate 32 9) (replicate 32 7)
       (Some (fetchProtocolState sample_chain (\<lambda>_. Some (replicate 41 8)) (replicate 32 9))) q = Inr ixs" by (rule sample_third_found)
  note o = oracleRun_append oracleRun_idle[OF assms(2)] assms(1)
  show ?thesis
    by (simp add: executeShield_def refreshQuote_def requestShieldQuote_def attempt_def refreshProtocolState_def
        readProtocolState_def executeQuote_def submit_def readReply_def flow_simps Let_def ensure_def sample_around s t fetchProtocolState_two
        sample_body_of_def[symmetric] oracle_network_asks o) blast
qed

theorem preview_spends_the_proof_witness:
  "\<exists>q1 (tx :: transaction) bytes signature oracleKey ix. snd (snd (refreshQuote sample_page oracle_network Verified signed_proof [] sample_hook)) = Inr (Some q1)
     \<and> sq_mode q1 = Verified \<and> tx_instructions tx = [Compute_unit_limit 900000,
         Ed25519_verify \<lparr>ed_publicKey = oracleKey, ed_message = bytes, ed_signature = signature\<rparr>, Invoke ix]
     \<and> (byte_at bytes 59 = 1 \<or> hexToBytes (sq_payloadHex q1) = Inr bytes)"
proof -
  obtain cs1 h1 q1 reads where p: "refreshQuote sample_page oracle_network Verified signed_proof [] sample_hook = (cs1, h1, Inr (Some q1))"
    "sq_mode q1 = Verified" "cs1 = Fetched (quoteUrl sample_page) (sample_body_of Verified) # reads"
    "\<not> list_ex asksOracle reads" "signed_in cs1 = []" by (rule sample_preview)
  let ?x = "executeShield sample_page oracle_network (Some q1) None Verified signed_proof cs1 h1"
  obtain tx where tx: "Signed tx \<in> set (fst ?x)" using sample_execution[OF p(3,4)] by blast
  have new: "Signed tx \<notin> set cs1"
    using p(5) by (auto simp: signed_in_def List.map_filter_def filter_empty_conv)
  have x: "?x = (fst ?x, fst (snd ?x), snd (snd ?x))" by simp
  have user: "wl_publicKey (pg_wallet sample_page) = Some (replicate 32 7)" by (simp add: sample_around)
  have "now_secs (sample_readings 1000000) < now_secs (sample_readings 1000000) + 300" "0 < now_secs (sample_readings 1000000) + 300"
    by (simp_all add: sample_around)
  from preview_spends_the_proof[OF oracle_network_answers sample_around(1) user p(1,2) x tx new this]
  obtain bytes signature oracleKey ix where
    "tx_instructions tx = [Compute_unit_limit 900000,
         Ed25519_verify \<lparr>ed_publicKey = oracleKey, ed_message = bytes, ed_signature = signature\<rparr>, Invoke ix]"
    "byte_at bytes 59 = 1 \<or> hexToBytes (sq_payloadHex q1) = Inr bytes"
    by (force split: option.splits)
  moreover have "snd (snd (refreshQuote sample_page oracle_network Verified signed_proof [] sample_hook)) = Inr (Some q1)"
    using p(1) by simp
  ultimately show ?thesis using p(2) by (intro exI conjI)
qed

end
