(* ===== verification/Buy_Ticket.thy ===== *)
theory Buy_Ticket
  imports Wallet_Flow Api_Sign
begin

section \<open>Buying a ticket of the first version (hooks/useBuyTicket.ts)\<close>

text \<open>
  \<open>buyTicket\<close> asks the authorization route for a signature, builds the signed message again from the fields of the
  answer, and sends it with the instruction of the program. What the library checks of the arguments of
  the Ed25519 instruction, and \<open>String(v)\<close> of an error that is no text, are parameters.
\<close>

subsection \<open>The hook\<close>

definition buildAuthorizationPayload :: "bytes \<Rightarrow> bytes \<Rightarrow> int \<Rightarrow> int \<Rightarrow> int \<Rightarrow> bytes result" where
  "buildAuthorizationPayload userWallet eventId tierLevel expiry nonceVal =
     alphaMessage userWallet eventId tierLevel expiry nonceVal"

definition ITEMS_SOLD_OFFSET :: nat where
  "ITEMS_SOLD_OFFSET = 8 + 32 + 32 + 8 + 8 + 8"

text \<open>\<open>normalizeSignedProofPayload\<close> of this file: the filter of the client library, but one proof stays one proof.\<close>

definition signedProofField :: "jsval \<Rightarrow> jsval option" where
  "signedProofField proof =
     (case normalizeSignedProofPayload proof of
        [] \<Rightarrow> None
      | p # ps \<Rightarrow> Some (case proof of JArr _ \<Rightarrow> JArr (p # ps) | _ \<Rightarrow> p))"

record buy_hook =
  bh_loading :: bool
  bh_error :: "string option"

datatype buy_result = Bought string | Buy_failed string

definition signBody :: "page \<Rightarrow> pubkey \<Rightarrow> pubkey \<Rightarrow> jsval \<Rightarrow> jsval" where
  "signBody pg publicKey globalStatePda proof =
     JObj ([(''wallet'', JStr (pg_base58 pg publicKey)), (''eventId'', JStr (pg_base58 pg globalStatePda))]
       @ (case signedProofField proof of None \<Rightarrow> [] | Some p \<Rightarrow> [(''proof'', p)]))"

text \<open>\<open>if (!res.ok) ... throw new Error(errData.error || ...)\<close>, else \<open>await res.json()\<close>.\<close>

definition ok_status :: "int \<Rightarrow> bool" where
  "ok_status s \<longleftrightarrow> 200 \<le> s \<and> s < 300"

definition api_error :: "int \<Rightarrow> js_error" where
  "api_error status = Thrown (''API error: '' @ show_int status)"

definition signReply :: "(jsval \<Rightarrow> string) \<Rightarrow> 'a reply \<Rightarrow> 'a result" where
  "signReply showValue reply =
     (case reply of
        No_answer e \<Rightarrow> Inl e
      | Not_json status raw \<Rightarrow> Inl (if ok_status status then SyntaxError else api_error status)
      | Refused status body \<Rightarrow>
          (case js_prop body ''error'' of
             Inl e \<Rightarrow> Inl e
           | Inr v \<Rightarrow> Inl (if js_truthy v then Thrown (case v of JStr s \<Rightarrow> s | _ \<Rightarrow> showValue v) else api_error status))
      | Replied x \<Rightarrow> Inr x)"

text \<open>\<open>data.readBigUInt64LE(offset)\<close>\<close>

definition itemsSoldOf :: "bytes option \<Rightarrow> int result" where
  "itemsSoldOf account =
     (case account of
        None \<Rightarrow> Inl (Thrown ''Global state not found. Run initialize first.'')
      | Some dat \<Rightarrow> if ITEMS_SOLD_OFFSET + 8 \<le> length dat then Inr (readU64LE dat ITEMS_SOLD_OFFSET) else Inl RangeError)"

definition ticketPda :: "chain \<Rightarrow> pubkey \<Rightarrow> pubkey \<Rightarrow> pubkey \<Rightarrow> int \<Rightarrow> pubkey" where
  "ticketPda ch programId globalStatePda buyer itemsSold =
     ch_pda ch [utf8ToBytes ''ticket'', globalStatePda, buyer, encodeU64LE itemsSold] programId"

text \<open>The authorization read back: the event key, the nonce and the message.\<close>

definition rebuildMessage :: "page \<Rightarrow> pubkey \<Rightarrow> alpha_authorization \<Rightarrow> (int \<times> bytes) result" where
  "rebuildMessage pg publicKey a =
     rbind (pg_pubkey pg (aa_eventId a)) (\<lambda>eventIdPk.
     rbind (bigint_of_string (aa_nonce a)) (\<lambda>nonceVal.
     rbind (buildAuthorizationPayload publicKey eventIdPk (aa_tierLevel a) (aa_expiry a) nonceVal) (\<lambda>message.
       Inr (nonceVal, message))))"

definition buyInstructions ::
  "page \<Rightarrow> (ed25519_args \<Rightarrow> unit result) \<Rightarrow> pubkey \<Rightarrow> pubkey \<Rightarrow> alpha_authorization \<Rightarrow> int \<Rightarrow> bytes \<Rightarrow> int \<Rightarrow> instruction list result" where
  "buyInstructions pg checkEd25519 programId publicKey a nonceVal message itemsSold =
     (let ch = pg_chain pg; globalStatePda = ch_pda ch [utf8ToBytes ''global''] programId in
      rbind (pg_pubkey pg (aa_oraclePubkey a)) (\<lambda>oraclePubkeyBytes.
      let ed = \<lparr>ed_publicKey = oraclePubkeyBytes, ed_message = message, ed_signature = aa_signature a\<rparr> in
      rbind (checkEd25519 ed) (\<lambda>_.
        Inr [Compute_unit_limit 300000, Ed25519_verify ed,
          Buy_ticket 1 globalStatePda (aa_tierLevel a) (aa_expiry a) nonceVal
            [(''buyer'', publicKey), (''globalState'', globalStatePda), (''vault'', ch_pda ch [utf8ToBytes ''vault''] programId),
             (''ticket'', ticketPda ch programId globalStatePda publicKey itemsSold),
             (''instructionSysvar'', ch_sysvar_instructions ch), (''systemProgram'', ch_system_program ch)]])))"

text \<open>\<open>wallet.signTransaction!\<close> is called without a check: a wallet without it throws a TypeError at that point.\<close>

definition signAndSubmit :: "page \<Rightarrow> 'a network \<Rightarrow> pubkey \<Rightarrow> instruction list \<Rightarrow> ('h, string) flow" where
  "signAndSubmit pg nw publicKey ixs =
     (if wl_canSign (pg_wallet pg) then submit nw publicKey ixs
      else bind (ask Asked_blockhash (nw_blockhash nw)) (\<lambda>_. lift (Inl TypeError)))"

definition buySteps ::
  "page \<Rightarrow> (jsval \<Rightarrow> string) \<Rightarrow> (ed25519_args \<Rightarrow> unit result) \<Rightarrow> alpha_authorization network \<Rightarrow> pubkey \<Rightarrow> string \<Rightarrow> jsval \<Rightarrow>
   ('h, string) flow" where
  "buySteps pg showValue checkEd25519 nw programId apiBaseUrl proof =
     (case wl_publicKey (pg_wallet pg) of
        None \<Rightarrow> lift (Inl (Thrown ''Wallet not connected''))
      | Some publicKey \<Rightarrow>
        (let globalStatePda = ch_pda (pg_chain pg) [utf8ToBytes ''global''] programId;
             url = apiBaseUrl @ ''/sign-alpha''; body = signBody pg publicKey globalStatePda proof in
         bind (ask (Fetched url body) (\<lambda>cs. signReply showValue (nw_fetch nw cs url body))) (\<lambda>a.
         bind (lift (rebuildMessage pg publicKey a)) (\<lambda>(nonceVal, message).
         bind (ask (Read_account globalStatePda) (\<lambda>cs. nw_account nw cs globalStatePda)) (\<lambda>account.
         bind (lift (itemsSoldOf account)) (\<lambda>itemsSold.
         bind (lift (buyInstructions pg checkEd25519 programId publicKey a nonceVal message itemsSold)) (\<lambda>ixs.
           signAndSubmit pg nw publicKey ixs)))))))"

definition buyTicket ::
  "page \<Rightarrow> (jsval \<Rightarrow> string) \<Rightarrow> (ed25519_args \<Rightarrow> unit result) \<Rightarrow> alpha_authorization network \<Rightarrow> pubkey \<Rightarrow> string \<Rightarrow> jsval \<Rightarrow>
   (buy_hook, buy_result) flow" where
  "buyTicket pg showValue checkEd25519 nw programId apiBaseUrl proof =
     andThen (update (\<lambda>h. h\<lparr>bh_loading := True, bh_error := None\<rparr>))
       (catching
         (bind (buySteps pg showValue checkEd25519 nw programId apiBaseUrl proof) (\<lambda>txSignature.
          andThen (update (\<lambda>h. h\<lparr>bh_loading := False\<rparr>)) (lift (Inr (Bought txSignature)))))
         (\<lambda>e. let msg = messageOf (pg_text pg) e in
              andThen (update (\<lambda>h. h\<lparr>bh_error := Some msg, bh_loading := False\<rparr>)) (lift (Inr (Buy_failed msg)))))"

subsection \<open>What it has signed\<close>

definition ticketTransaction ::
  "page \<Rightarrow> (ed25519_args \<Rightarrow> unit result) \<Rightarrow> alpha_authorization network \<Rightarrow> pubkey \<Rightarrow> string \<Rightarrow> jsval \<Rightarrow> transaction \<Rightarrow> bool" where
  "ticketTransaction pg checkEd25519 nw programId apiBaseUrl proof tx \<longleftrightarrow>
     (\<exists>user calls a nonceVal message itemsSold. wl_publicKey (pg_wallet pg) = Some user \<and> tx_feePayer tx = user
        \<and> nw_fetch nw calls (apiBaseUrl @ ''/sign-alpha'')
            (signBody pg user (ch_pda (pg_chain pg) [utf8ToBytes ''global''] programId) proof) = Replied a
        \<and> rebuildMessage pg user a = Inr (nonceVal, message)
        \<and> buyInstructions pg checkEd25519 programId user a nonceVal message itemsSold = Inr (tx_instructions tx))"

lemma signReply_Inr: "signReply showValue reply = Inr x \<longleftrightarrow> reply = Replied x"
  by (cases reply) (auto simp: signReply_def split: sum.splits)

lemma keeps_signAndSubmit:
  assumes "\<And>blockhash. P \<lparr>tx_instructions = ixs, tx_recentBlockhash = blockhash, tx_feePayer = payer\<rparr>"
  shows "flow_keeps P (signAndSubmit pg nw payer ixs) (\<lambda>_. True)"
  unfolding signAndSubmit_def using assms
  by (auto intro!: keeps_submit keeps_bind[where Q="\<lambda>_. True"] keeps_call)

lemma keeps_buySteps:
  "flow_keeps (ticketTransaction pg checkEd25519 nw programId apiBaseUrl proof)
     (buySteps pg showValue checkEd25519 nw programId apiBaseUrl proof) (\<lambda>_. True)"
proof (cases "wl_publicKey (pg_wallet pg)")
  case None
  then show ?thesis by (simp add: buySteps_def)
next
  case (Some user)
  let ?g = "ch_pda (pg_chain pg) [utf8ToBytes ''global''] programId"
  let ?url = "apiBaseUrl @ ''/sign-alpha''" and ?body = "signBody pg user ?g proof"
  show ?thesis
    unfolding buySteps_def Some option.case Let_def
  proof (rule keeps_bind[where Q="\<lambda>a. \<exists>calls. nw_fetch nw calls ?url ?body = Replied a"], goal_cases)
    case (2 a)
    show ?case
    proof (rule keeps_bind[where Q="\<lambda>(n, m). rebuildMessage pg user a = Inr (n, m)"], goal_cases)
      case (2 x)
      obtain n m where x: "x = (n, m)" by fastforce
      show ?case
        unfolding x prod.case
      proof (rule keeps_bind[where Q="\<lambda>_. True"], goal_cases)
        case (2 account)
        show ?case
        proof (rule keeps_bind[where Q="\<lambda>_. True"], goal_cases)
          case (2 sold)
          show ?case
          proof (rule keeps_bind[where Q="\<lambda>ixs. buyInstructions pg checkEd25519 programId user a n m sold = Inr ixs"], goal_cases)
            case (2 ixs)
            have r: "rebuildMessage pg user a = Inr (n, m)" using \<open>case x of (n, m) \<Rightarrow> rebuildMessage pg user a = Inr (n, m)\<close> x by simp
            then have "\<exists>calls a nonceVal message itemsSold. nw_fetch nw calls ?url ?body = Replied a
                \<and> rebuildMessage pg user a = Inr (nonceVal, message)
                \<and> buyInstructions pg checkEd25519 programId user a nonceVal message itemsSold = Inr ixs"
              using 2 \<open>\<exists>calls. nw_fetch nw calls ?url ?body = Replied a\<close> by blast
            then show ?case by (intro keeps_signAndSubmit) (simp add: ticketTransaction_def Some)
          qed simp
        qed simp
      qed (auto intro: keeps_call)
    qed auto
  qed (auto intro!: keeps_call simp: signReply_Inr)
qed

lemma keeps_buyTicket:
  "flow_keeps (ticketTransaction pg checkEd25519 nw programId apiBaseUrl proof)
     (buyTicket pg showValue checkEd25519 nw programId apiBaseUrl proof) (\<lambda>_. True)"
  unfolding buyTicket_def Let_def
  by (auto intro!: keeps_andThen keeps_catching keeps_bind[OF keeps_buySteps])

subsection \<open>Properties\<close>

text \<open>The codec of keys of the page agrees with the one of the route, on keys of 32 bytes.\<close>

definition codecs_agree :: "page \<Rightarrow> ('k, 'v) oracle_services \<Rightarrow> bool" where
  "codecs_agree pg sv \<longleftrightarrow> (\<forall>v name bs. sv_pubkey sv v = Inr (name, bs) \<longrightarrow> pg_pubkey pg name = Inr bs \<and> length bs = 32)"

text \<open>The network's answers are those of the authorization route.\<close>

definition authorityBehind :: "alpha_authorization network \<Rightarrow> env \<Rightarrow> (jsval list \<Rightarrow> bool option) \<Rightarrow> ('k, 'v) oracle_services \<Rightarrow> bool" where
  "authorityBehind nw env verifyProof sv \<longleftrightarrow>
     (\<forall>calls url body a. nw_fetch nw calls url body = Replied a \<longrightarrow>
        (\<exists>r oracle oracle'. postSignAlpha env verifyProof sv r (Some body) oracle = (oracle', \<lparr>ht_status = 200, ht_body = Inr a\<rparr>)))"

lemma signBody_props [simp]:
  "js_prop_opt (signBody pg user g proof) ''wallet'' = JStr (pg_base58 pg user)"
  "js_prop_opt (signBody pg user g proof) ''eventId'' = JStr (pg_base58 pg g)"
  by (simp_all add: signBody_def)

lemma buyInstructions_Inr:
  assumes "buyInstructions pg checkEd25519 programId user a nonceVal message sold = Inr ixs"
  shows "\<exists>oracleKey accounts. ixs = [Compute_unit_limit 300000,
       Ed25519_verify \<lparr>ed_publicKey = oracleKey, ed_message = message, ed_signature = aa_signature a\<rparr>,
       Buy_ticket 1 (ch_pda (pg_chain pg) [utf8ToBytes ''global''] programId) (aa_tierLevel a) (aa_expiry a) nonceVal accounts]
     \<and> pg_pubkey pg (aa_oraclePubkey a) = Inr oracleKey \<and> map_of accounts ''buyer'' = Some user"
  using assms by (auto simp: buyInstructions_def Let_def js_simps)

text \<open>
  C21. The signed message survives the way over the network: when the answer is the authorization route's, the message
  the hook rebuilds from its fields is, byte for byte, the one the oracle signed, so the Ed25519 instruction checks the
  signature over exactly wallet, event, tier, expiry and nonce that the buy instruction passes on, for the buyer that
  pays and the event of the program's own state.
\<close>

theorem buy_carries_signed_authorization:
  assumes "buyTicket pg showValue checkEd25519 nw programId apiBaseUrl proof cs h = (cs', h', r)"
    and "Signed tx \<in> set cs'" "Signed tx \<notin> set cs"
    and "authorityBehind nw env verifyProof sv" "codecs_agree pg sv"
    and "wl_publicKey (pg_wallet pg) = Some user" "sv_pubkey sv (JStr (pg_base58 pg user)) = Inr (name, user)"
    and "globalState = ch_pda (pg_chain pg) [utf8ToBytes ''global''] programId" "pg_base58 pg globalState \<noteq> []"
    and "sv_pubkey sv (JStr (pg_base58 pg globalState)) = Inr (event, globalState)"
  shows "\<exists>m k oracleKey tier expiry nonceVal accounts. tx_instructions tx = [Compute_unit_limit 300000,
         Ed25519_verify \<lparr>ed_publicKey = oracleKey, ed_message = m, ed_signature = sv_sign sv m k\<rparr>,
         Buy_ticket 1 globalState tier expiry nonceVal accounts]
     \<and> pg_pubkey pg (sv_key_base58 sv k) = Inr oracleKey \<and> tx_feePayer tx = user \<and> map_of accounts ''buyer'' = Some user
     \<and> length m = 81 \<and> Byte_Codec.slice m 0 32 = user \<and> Byte_Codec.slice m 32 64 = globalState \<and> byte_at m 64 = tier
     \<and> readI64LE m 65 = expiry \<and> readU64LE m 73 = nonceVal \<and> tier \<in> {1, 2}"
proof -
  from keeps_signed[OF keeps_buyTicket assms(1-3)] assms(6,8) obtain calls a nonceVal message sold where
      t: "tx_feePayer tx = user" "rebuildMessage pg user a = Inr (nonceVal, message)"
        "buyInstructions pg checkEd25519 programId user a nonceVal message sold = Inr (tx_instructions tx)"
      and f: "nw_fetch nw calls (apiBaseUrl @ ''/sign-alpha'') (signBody pg user globalState proof) = Replied a"
    unfolding ticketTransaction_def by auto
  let ?body = "signBody pg user globalState proof"
  obtain rd orc orc' where "postSignAlpha env verifyProof sv rd (Some ?body) orc = (orc', \<lparr>ht_status = 200, ht_body = Inr a\<rparr>)"
    using f assms(4) unfolding authorityBehind_def by blast
  then obtain walletText u e k m num where p: "sv_pubkey sv (JStr (pg_base58 pg user)) = Inr (walletText, u)"
      "sv_pubkey sv (JStr (pg_base58 pg globalState)) = Inr (aa_eventId a, e)"
      "alphaMessage u e (aa_tierLevel a) (aa_expiry a) num = Inr m" "aa_nonce a = show_int num"
      "aa_tierLevel a = tr_tierLevel (resolveTierLevel env verifyProof walletText (js_prop_opt ?body ''proof''))"
      "aa_signature a = sv_sign sv m k" "aa_oraclePubkey a = sv_key_base58 sv k"
    using assms(9) by (elim alpha_issued) simp
  have ue: "u = user" "e = globalState" using p(1,2) assms(7,10) by simp_all
  have len: "length user = 32" "length globalState = 32" "pg_pubkey pg (aa_eventId a) = Inr globalState"
    using assms(5,7,10) p(2) ue unfolding codecs_agree_def by blast+
  have tier: "aa_tierLevel a \<in> {1, 2}" unfolding p(5) by (rule tier_levels)
  have msg: "nonceVal = num" "message = m"
    using t(2) p(3,4) ue len(3) by (auto simp: rebuildMessage_def buildAuthorizationPayload_def js_simps)
  obtain oracleKey accounts where "tx_instructions tx = [Compute_unit_limit 300000,
       Ed25519_verify \<lparr>ed_publicKey = oracleKey, ed_message = m, ed_signature = sv_sign sv m k\<rparr>,
       Buy_ticket 1 globalState (aa_tierLevel a) (aa_expiry a) num accounts]"
      "pg_pubkey pg (sv_key_base58 sv k) = Inr oracleKey" "map_of accounts ''buyer'' = Some user"
    using buyInstructions_Inr[OF t(3)] unfolding p(6,7) msg assms(8) by blast
  moreover note alpha_parts[OF p(3)[unfolded ue] len(1,2) tier]
  ultimately show ?thesis using t(1) tier by blast
qed

lemma buySteps_hook: "fst (snd (buySteps pg showValue checkEd25519 nw programId apiBaseUrl proof cs h)) = h"
  by (auto simp: buySteps_def signAndSubmit_def submit_def flow_simps Let_def split: option.split prod.split sum.split)

text \<open>
  \<open>buyTicket\<close> always answers and stops loading: with a signature and no error on the page, or with the message of
  the error, which the page shows.
\<close>

theorem buy_always_answers:
  "\<exists>cs' h' res. buyTicket pg showValue checkEd25519 nw programId apiBaseUrl proof cs h = (cs', h', Inr res) \<and> \<not> bh_loading h'
     \<and> (case res of Bought signature \<Rightarrow> bh_error h' = None | Buy_failed message \<Rightarrow> bh_error h' = Some message)"
proof -
  let ?h = "h\<lparr>bh_loading := True, bh_error := None\<rparr>"
  obtain c r where b: "buySteps pg showValue checkEd25519 nw programId apiBaseUrl proof cs ?h = (c, ?h, r)"
    using buySteps_hook[of pg showValue checkEd25519 nw programId apiBaseUrl "proof" cs ?h]
    by (cases "buySteps pg showValue checkEd25519 nw programId apiBaseUrl proof cs ?h") auto
  then show ?thesis by (cases r) (simp_all add: buyTicket_def flow_simps Let_def)
qed

subsection \<open>A sample run\<close>

definition ticket_page :: page where
  "ticket_page = \<lparr>pg_env = (\<lambda>_. None), pg_path = None,
     pg_chain = \<lparr>ch_sha256 = (\<lambda>s. replicate 32 0), ch_pda = (\<lambda>seeds p. replicate 32 7), ch_bpf_loader = replicate 32 1,
       ch_token_program = replicate 32 2, ch_system_program = replicate 32 0, ch_sysvar_instructions = replicate 32 3,
       ch_sysvar_rent = replicate 32 4\<rparr>,
     pg_programId = None, pg_wallet = \<lparr>wl_publicKey = Some (replicate 32 7), wl_canSign = True\<rparr>,
     pg_base58 = (\<lambda>_. ''W1''), pg_pubkey = (\<lambda>s. Inr (replicate 32 7)), pg_text = (\<lambda>_. [])\<rparr>"

definition ticket_network :: "alpha_authorization network" where
  "ticket_network = \<lparr>nw_fetch = (\<lambda>calls url body.
       case postSignAlpha (\<lambda>_. None) (\<lambda>_. None) (sample_services 0) (sample_readings 5000) (Some body) None of
         (_, res) \<Rightarrow> if ht_status res = 200 then (case ht_body res of Inr a \<Rightarrow> Replied a | Inl _ \<Rightarrow> Refused 500 JNull) else Refused (ht_status res) JNull),
     nw_account = (\<lambda>calls k. Inr (Some (replicate 105 1))), nw_programs = (\<lambda>_. Inr []), nw_blockhash = (\<lambda>_. Inr ''B''),
     nw_sign = (\<lambda>calls tx. Inr []), nw_send = (\<lambda>calls raw. Inr ''S''), nw_confirm = (\<lambda>calls s. Inr None), nw_logs = (\<lambda>calls s. Inr [])\<rparr>"

definition ticket_run :: "call list \<times> buy_hook \<times> buy_result result" where
  "ticket_run = buyTicket ticket_page (\<lambda>_. []) (\<lambda>_. Inr ()) ticket_network (replicate 32 9) ''/api'' JNull []
     \<lparr>bh_loading = False, bh_error = None\<rparr>"

theorem buy_carries_signed_authorization_witness:
  "\<exists>tx m. Signed tx \<in> set (fst ticket_run) \<and> length m = 81 \<and> byte_at m 64 = 2 \<and> readI64LE m 65 = 65
     \<and> (\<exists>ed accounts. tx_instructions tx = [Compute_unit_limit 300000, Ed25519_verify ed, Buy_ticket 1 (replicate 32 7) 2 65 (readU64LE m 73) accounts]
          \<and> ed_message ed = m)"
proof -
  let ?tx = "hd (signed_in (fst ticket_run))"
  have c: "length (signed_in (fst ticket_run)) = 1" by code_simp
  have v: "case tx_instructions ?tx ! 2 of Buy_ticket _ _ t e _ _ \<Rightarrow> t = 2 \<and> e = 65 | _ \<Rightarrow> False" by code_simp
  note tx = signed_in_hd[OF c]
  have run: "buyTicket ticket_page (\<lambda>_. []) (\<lambda>_. Inr ()) ticket_network (replicate 32 9) ''/api'' JNull []
     \<lparr>bh_loading = False, bh_error = None\<rparr> = (fst ticket_run, fst (snd ticket_run), snd (snd ticket_run))"
    by (simp add: ticket_run_def)
  have au: "authorityBehind ticket_network (\<lambda>_. None) (\<lambda>_. None) (sample_services 0)"
    unfolding authorityBehind_def
  proof (intro allI impI)
    fix calls url body a
    let ?p = "postSignAlpha (\<lambda>_. None) (\<lambda>_. None) (sample_services 0) (sample_readings 5000) (Some body) None"
    assume "nw_fetch ticket_network calls url body = Replied a"
    then have "ht_status (snd ?p) = 200" "ht_body (snd ?p) = Inr a"
      by (auto simp: ticket_network_def split: prod.splits if_splits sum.splits)
    then have "?p = (fst ?p, \<lparr>ht_status = 200, ht_body = Inr a\<rparr>)" by (cases ?p) (simp add: http.equality)
    then show "\<exists>r oracle oracle'. postSignAlpha (\<lambda>_. None) (\<lambda>_. None) (sample_services 0) r (Some body) oracle
        = (oracle', \<lparr>ht_status = 200, ht_body = Inr a\<rparr>)" by blast
  qed
  have co: "codecs_agree ticket_page (sample_services 0)"
    by (auto simp: codecs_agree_def ticket_page_def sample_services_def split: if_splits)
  have pk: "wl_publicKey (pg_wallet ticket_page) = Some (replicate 32 7)" "pg_base58 ticket_page (replicate 32 7) \<noteq> []"
    "sv_pubkey (sample_services 0) (JStr (pg_base58 ticket_page (replicate 32 7))) = Inr (''W1'', replicate 32 7)"
    "replicate 32 7 = ch_pda (pg_chain ticket_page) [utf8ToBytes ''global''] (replicate 32 9)"
    by (simp_all add: ticket_page_def sample_services_def)
  from buy_carries_signed_authorization[OF run tx _ au co pk(1,3,4,2,3)] tx v show ?thesis by fastforce
qed

end
