(* ===== verification/Identity_Panel.thy ===== *)
theory Identity_Panel
  imports Wallet_Flow
begin

section \<open>The identity panel (components/IdentityVerifier.tsx)\<close>

text \<open>
  The panel restores a proof from the browser's storage, asks the Reclaim SDK for a new one, and hands what it has to the
  page. Its state, the storage and the page's proof are the record \<open>visit\<close>; each handler and each callback
  of the SDK is an operation, and \<open>visited\<close> holds the states that any sequence of them leads to. The page shows the panel
  only while a wallet is connected: a wallet that goes takes the panel with it, the next one brings a new panel, and the
  page keeps its proof. The panels are numbered, since a session of one that is gone may still end; the page's giver is
  the panel that has last set the page's proof, 0 before any has. The request object of the SDK is a value of a type
  variable; \<open>JSON\<close> is a parameter. The texts of the errors are constructors.
\<close>

subsection \<open>State\<close>

datatype identity_status = Identity_idle | Identity_verifying | Identity_verified | Identity_failed

datatype identity_error = App_not_configured | Provider_not_configured | Provider_unknown | Init_failed
  | Reclaim_not_ready | Verification_failed string

record 'q panel =
  pn_status :: identity_status
  pn_error :: "identity_error option"
  pn_proofRequest :: "'q option"
  pn_proofPreview :: "string option"
  pn_showProof :: bool
  pn_connectingReclaim :: bool
  pn_reclaimReady :: bool
  pn_isResetting :: bool

record 'q visit =
  vs_panel :: "'q panel option"
  vs_number :: nat
  vs_giver :: nat
  vs_storage :: "string \<Rightarrow> string option"
  vs_proofData :: jsval

text \<open>\<open>JSON.parse\<close>, \<open>JSON.stringify\<close> and \<open>JSON.stringify(v, null, 2)\<close>, on values that are JSON.\<close>

record json =
  js_parse :: "string \<Rightarrow> jsval result"
  js_stringify :: "jsval \<Rightarrow> string"
  js_pretty :: "jsval \<Rightarrow> string"

definition STORAGE_KEY :: string where "STORAGE_KEY = ''unforgiven.reclaimProof''"

definition DEMO_APP_ID :: string where "DEMO_APP_ID = ''6d3f6753-7ee6-49ee-a545-62d1b1822619''"

definition new_panel :: "'q panel" where
  "new_panel = \<lparr>pn_status = Identity_idle, pn_error = None, pn_proofRequest = None, pn_proofPreview = None,
     pn_showProof = False, pn_connectingReclaim = False, pn_reclaimReady = False, pn_isResetting = False\<rparr>"

abbreviation onPanel :: "('q panel \<Rightarrow> 'q panel) \<Rightarrow> 'q visit \<Rightarrow> 'q visit" where
  "onPanel f v \<equiv> v\<lparr>vs_panel := map_option f (vs_panel v)\<rparr>"

subsection \<open>Opening the page\<close>

definition isPlaceholderAppId :: "string option \<Rightarrow> bool" where
  "isPlaceholderAppId key =
     (case key of
        None \<Rightarrow> True
      | Some s \<Rightarrow> length s < 10 \<or> str_includes (to_lower s) ''your'' \<or> str_includes (to_lower s) ''placeholder'' \<or> to_lower s = ''demo'')"

definition isPlaceholderProviderId :: "string option \<Rightarrow> bool" where
  "isPlaceholderProviderId key =
     (case key of
        None \<Rightarrow> True
      | Some s \<Rightarrow> s = [] \<or> str_includes (to_lower s) ''your'' \<or> str_includes (to_lower s) ''placeholder'' \<or> to_lower s = ''demo''
          \<or> to_lower s = ''spotify-username'')"

text \<open>The first effect; a storage that cannot be read is an empty one.\<close>

definition restoreProof :: "json \<Rightarrow> 'q visit \<Rightarrow> 'q visit" where
  "restoreProof js v =
     (case vs_storage v STORAGE_KEY of
        None \<Rightarrow> v
      | Some raw \<Rightarrow>
          if raw = [] then v
          else (case js_parse js raw of
             Inl e \<Rightarrow> v
           | Inr parsed \<Rightarrow> (onPanel (\<lambda>p. p\<lparr>pn_status := Identity_verified, pn_proofPreview := Some (js_pretty js parsed)\<rparr>) v)
               \<lparr>vs_proofData := parsed, vs_giver := vs_number v\<rparr>))"

definition openPage :: "(string \<Rightarrow> string option) \<Rightarrow> 'q visit" where
  "openPage storage = \<lparr>vs_panel = None, vs_number = 0, vs_giver = 0, vs_storage = storage, vs_proofData = JNull\<rparr>"

text \<open>The page's gate: a panel is there exactly while there is a wallet.\<close>

definition connectWallet :: "json \<Rightarrow> 'q visit \<Rightarrow> 'q visit" where
  "connectWallet js v =
     (case vs_panel v of
        Some p \<Rightarrow> v
      | None \<Rightarrow> restoreProof js (v\<lparr>vs_panel := Some new_panel, vs_number := Suc (vs_number v)\<rparr>))"

definition disconnectWallet :: "'q visit \<Rightarrow> 'q visit" where
  "disconnectWallet v = v\<lparr>vs_panel := None\<rparr>"

text \<open>The second effect: the panel, and the application and provider for which the SDK is asked.\<close>

definition initBegin :: "env \<Rightarrow> 'q panel \<Rightarrow> 'q panel \<times> (string \<times> string) option" where
  "initBegin env p =
     (let appId = (case env ''NEXT_PUBLIC_RECLAIM_APP_ID'' of Some s \<Rightarrow> s | None \<Rightarrow> DEMO_APP_ID);
          providerId = (case env ''NEXT_PUBLIC_RECLAIM_PROVIDER_ID'' of Some s \<Rightarrow> s | None \<Rightarrow> []);
          unready = (\<lambda>err. p\<lparr>pn_proofRequest := None, pn_reclaimReady := False, pn_error := Some err\<rparr>) in
      if isPlaceholderAppId (env ''NEXT_PUBLIC_RECLAIM_APP_ID'') then (unready App_not_configured, None)
      else if isPlaceholderProviderId (Some providerId) then (unready Provider_not_configured, None)
      else (p, Some (appId, providerId)))"

definition initAnswered :: "(js_error \<Rightarrow> string) \<Rightarrow> 'q result \<Rightarrow> 'q panel \<Rightarrow> 'q panel" where
  "initAnswered text r p =
     (case r of
        Inr request \<Rightarrow> p\<lparr>pn_proofRequest := Some request, pn_reclaimReady := True, pn_error := None\<rparr>
      | Inl e \<Rightarrow> p\<lparr>pn_proofRequest := None, pn_reclaimReady := False,
          pn_error := Some (if str_includes (case e of Thrown s \<Rightarrow> s | _ \<Rightarrow> text e) ''Provider ID does not exist''
            then Provider_unknown else Init_failed)\<rparr>)"

subsection \<open>Verifying\<close>

datatype 'q verify_step = Verify_ignored | Verify_unready | Verify_triggered 'q

text \<open>\<open>handleVerify\<close> up to its first \<open>await\<close>; status and request are those of the render.\<close>

definition verifyBegin :: "bool \<Rightarrow> 'q panel \<Rightarrow> 'q panel \<Rightarrow> 'q panel \<times> 'q verify_step" where
  "verifyBegin force rendered p =
     (if pn_status rendered = Identity_verified \<and> \<not> force then (p, Verify_ignored)
      else let p' = p\<lparr>pn_error := None, pn_connectingReclaim := True\<rparr> in
        case pn_proofRequest rendered of
          None \<Rightarrow> (p', Verify_unready)
        | Some request \<Rightarrow> (p'\<lparr>pn_status := Identity_verifying\<rparr>, Verify_triggered request))"

definition verifyUnready :: "'q panel \<Rightarrow> 'q panel" where
  "verifyUnready p = p\<lparr>pn_connectingReclaim := False, pn_error := Some Reclaim_not_ready\<rparr>"

definition flowTriggered :: "'q panel \<Rightarrow> 'q panel" where
  "flowTriggered p = p\<lparr>pn_connectingReclaim := False\<rparr>"

text \<open>The \<open>catch\<close> of the handler and the callback \<open>onError\<close>, with the message of the error.\<close>

definition verifyFailed :: "string \<Rightarrow> 'q panel \<Rightarrow> 'q panel" where
  "verifyFailed message p = p\<lparr>pn_error := Some (Verification_failed message), pn_status := Identity_failed, pn_connectingReclaim := False\<rparr>"

definition onError :: "string option \<Rightarrow> 'q panel \<Rightarrow> 'q panel" where
  "onError message = verifyFailed (case message of Some m \<Rightarrow> if m \<noteq> [] then m else ''Verification failed'' | None \<Rightarrow> ''Verification failed'')"

definition finalProof :: "jsval \<Rightarrow> jsval" where
  "finalProof proofs =
     (let first = (case proofs of JArr xs \<Rightarrow> js_nullish (case xs of [] \<Rightarrow> JUndef | x # _ \<Rightarrow> x) proofs | _ \<Rightarrow> proofs) in
      js_nullish first (JObj [(''claimData'', JObj [(''context'', JStr ''zkTLS verified'')])]))"

text \<open>
  The callback \<open>onSuccess\<close> of a session that panel \<open>n\<close> has started; \<open>stored\<close> says whether the storage takes the
  proof. The state of a panel that is gone cannot be set; the storage and the page's proof can.
\<close>

definition onSuccess :: "json \<Rightarrow> nat \<Rightarrow> bool \<Rightarrow> jsval \<Rightarrow> 'q visit \<Rightarrow> 'q visit" where
  "onSuccess js n stored proofs v =
     (let f = finalProof proofs;
          v' = (if n = vs_number v
            then onPanel (\<lambda>p. p\<lparr>pn_status := Identity_verified, pn_proofPreview := Some (js_pretty js f)\<rparr>) v else v) in
      v'\<lparr>vs_storage := (if stored then (vs_storage v)(STORAGE_KEY \<mapsto> js_stringify js f) else vs_storage v),
        vs_proofData := f, vs_giver := n\<rparr>)"

text \<open>The buttons, which are there with the panel.\<close>

definition handleReverify :: "'q panel \<Rightarrow> 'q visit \<Rightarrow> 'q visit \<times> 'q verify_step" where
  "handleReverify rendered v =
     (case vs_panel v of
        None \<Rightarrow> (v, Verify_ignored)
      | Some p \<Rightarrow>
          let (p', step) = verifyBegin True rendered
                (p\<lparr>pn_status := Identity_idle, pn_error := None, pn_proofPreview := None, pn_showProof := False\<rparr>) in
          (v\<lparr>vs_panel := Some p', vs_proofData := JNull, vs_giver := vs_number v\<rparr>, step))"

definition toggleProof :: "'q panel \<Rightarrow> 'q panel" where
  "toggleProof p = p\<lparr>pn_showProof := \<not> pn_showProof p\<rparr>"

text \<open>\<open>handleReset\<close> up to the reload, which opens the page again.\<close>

definition handleReset :: "'q visit \<Rightarrow> 'q visit" where
  "handleReset v =
     (case vs_panel v of
        None \<Rightarrow> v
      | Some p \<Rightarrow> v\<lparr>vs_panel := Some (p\<lparr>pn_isResetting := True\<rparr>),
          vs_storage := (vs_storage v)(''unforgiven_proof'' := None, ''unforgiven_status'' := None, STORAGE_KEY := None),
          vs_proofData := JNull, vs_giver := vs_number v\<rparr>)"

subsection \<open>The page's reading of the proof (app/page.tsx)\<close>

definition desiredModeOf :: "jsval \<Rightarrow> user_mode" where
  "desiredModeOf proofData = (if normalizeSignedProofPayload proofData \<noteq> [] then Verified else Guest)"

definition tierLevelOf :: "jsval \<Rightarrow> int" where
  "tierLevelOf proofData = (if desiredModeOf proofData = Verified then 1 else 2)"

subsection \<open>Visits\<close>

text \<open>
  Any handler may run with the values of any render, and a callback of the SDK may come at any time, for the panel that
  is there or for one that was; what the latter does to its own state is lost. The wallet comes and goes as it likes.
\<close>

inductive visited :: "env \<Rightarrow> json \<Rightarrow> (js_error \<Rightarrow> string) \<Rightarrow> (string \<Rightarrow> string option) \<Rightarrow> 'q visit \<Rightarrow> bool"
  for env js msg storage where
  opened: "visited env js msg storage (openPage storage)"
| connected: "visited env js msg storage v \<Longrightarrow> visited env js msg storage (connectWallet js v)"
| disconnected: "visited env js msg storage v \<Longrightarrow> visited env js msg storage (disconnectWallet v)"
| initialized: "visited env js msg storage v \<Longrightarrow> visited env js msg storage (onPanel (\<lambda>p. fst (initBegin env p)) v)"
| sdk_answered: "visited env js msg storage v \<Longrightarrow> visited env js msg storage (onPanel (initAnswered msg r) v)"
| verified: "visited env js msg storage v \<Longrightarrow> visited env js msg storage (onPanel (\<lambda>p. fst (verifyBegin force rendered p)) v)"
| unready: "visited env js msg storage v \<Longrightarrow> visited env js msg storage (onPanel verifyUnready v)"
| triggered: "visited env js msg storage v \<Longrightarrow> visited env js msg storage (onPanel flowTriggered v)"
| threw: "visited env js msg storage v \<Longrightarrow> visited env js msg storage (onPanel (verifyFailed message) v)"
| refused: "visited env js msg storage v \<Longrightarrow> visited env js msg storage (onPanel (onError reason) v)"
| succeeded: "visited env js msg storage v \<Longrightarrow> 1 \<le> n \<Longrightarrow> n \<le> vs_number v
    \<Longrightarrow> visited env js msg storage (onSuccess js n stored proofs v)"
| reverified: "visited env js msg storage v \<Longrightarrow> visited env js msg storage (fst (handleReverify rendered v))"
| toggled: "visited env js msg storage v \<Longrightarrow> visited env js msg storage (onPanel toggleProof v)"
| reset: "visited env js msg storage v \<Longrightarrow> visited env js msg storage (handleReset v)"
| reloaded: "visited env js msg storage v \<Longrightarrow> visited env js msg storage (openPage (vs_storage v))"

text \<open>
  A panel says verified only when it shows a proof, and its button is ready when it has a request. Unless an earlier
  panel has given the page its proof, the proof that is shown is the page's, until the page is reset, and a page without
  a shown proof has none.
\<close>

definition panel_fits :: "json \<Rightarrow> bool \<Rightarrow> jsval \<Rightarrow> 'q panel \<Rightarrow> bool" where
  "panel_fits js own page p \<longleftrightarrow>
     (pn_proofPreview p = None \<longrightarrow> pn_status p \<noteq> Identity_verified)
     \<and> (pn_reclaimReady p \<longleftrightarrow> pn_proofRequest p \<noteq> None)
     \<and> (own \<longrightarrow> (case pn_proofPreview p of
          None \<Rightarrow> page = JNull
        | Some shown \<Rightarrow> \<not> pn_isResetting p \<longrightarrow> shown = js_pretty js page))"

definition stored_ok :: "json \<Rightarrow> (string \<Rightarrow> string option) \<Rightarrow> string option \<Rightarrow> bool" where
  "stored_ok js storage text \<longleftrightarrow> text \<in> {None, storage STORAGE_KEY} \<or> (\<exists>proofs. text = Some (js_stringify js (finalProof proofs)))"

text \<open>The page's proof, if any, was handed over by the SDK or read from the storage.\<close>

definition proof_from :: "json \<Rightarrow> (string \<Rightarrow> string option) \<Rightarrow> jsval \<Rightarrow> bool" where
  "proof_from js storage page \<longleftrightarrow>
     page = JNull \<or> (\<exists>proofs. page = finalProof proofs)
     \<or> (\<exists>raw. js_parse js raw = Inr page \<and> stored_ok js storage (Some raw))"

definition panel_ok :: "json \<Rightarrow> (string \<Rightarrow> string option) \<Rightarrow> 'q visit \<Rightarrow> bool" where
  "panel_ok js storage v \<longleftrightarrow>
     vs_giver v \<le> vs_number v
     \<and> (vs_giver v = 0 \<longrightarrow> vs_proofData v = JNull)
     \<and> (case vs_panel v of None \<Rightarrow> True | Some p \<Rightarrow> 0 < vs_number v
         \<and> (vs_giver v = 0 \<longrightarrow> pn_proofPreview p = None)
         \<and> panel_fits js (vs_giver v \<in> {0, vs_number v}) (vs_proofData v) p)
     \<and> stored_ok js storage (vs_storage v STORAGE_KEY) \<and> proof_from js storage (vs_proofData v)"

lemma openPage_ok: "stored_ok js storage (stored STORAGE_KEY) \<Longrightarrow> panel_ok js storage (openPage stored)"
  by (simp add: openPage_def panel_ok_def proof_from_def)

lemma restoreProof_ok:
  assumes "panel_ok js storage v" "vs_panel v = Some p"
  shows "panel_ok js storage (restoreProof js v)"
proof -
  have "stored_ok js storage (vs_storage v STORAGE_KEY)" using assms by (simp add: panel_ok_def)
  then have from_storage: "proof_from js storage parsed" if "vs_storage v STORAGE_KEY = Some raw" "js_parse js raw = Inr parsed" for raw parsed
    unfolding proof_from_def using that by metis
  show ?thesis
  proof (cases "\<exists>raw parsed. vs_storage v STORAGE_KEY = Some raw \<and> raw \<noteq> [] \<and> js_parse js raw = Inr parsed")
    case True
    then obtain raw parsed where r: "vs_storage v STORAGE_KEY = Some raw" "raw \<noteq> []" "js_parse js raw = Inr parsed" by blast
    show ?thesis using assms from_storage[OF r(1,3)] r
      by (simp add: restoreProof_def panel_ok_def panel_fits_def)
  next
    case False
    then have "restoreProof js v = v" by (auto simp: restoreProof_def split: option.split sum.split)
    then show ?thesis using assms by simp
  qed
qed

lemma connectWallet_ok:
  assumes "panel_ok js storage v"
  shows "panel_ok js storage (connectWallet js v)"
proof (cases "vs_panel v")
  case None
  then have "panel_ok js storage (v\<lparr>vs_panel := Some new_panel, vs_number := Suc (vs_number v)\<rparr>)"
    using assms by (auto simp: panel_ok_def panel_fits_def new_panel_def)
  then show ?thesis using restoreProof_ok[of js storage "v\<lparr>vs_panel := Some new_panel, vs_number := Suc (vs_number v)\<rparr>" new_panel] None
    by (simp add: connectWallet_def)
qed (use assms in \<open>simp add: connectWallet_def\<close>)

lemma verifyBegin_fields:
  "pn_status (fst (verifyBegin force rendered p)) \<in> {pn_status p, Identity_verifying}"
  "pn_isResetting (fst (verifyBegin force rendered p)) = pn_isResetting p"
  "pn_proofPreview (fst (verifyBegin force rendered p)) = pn_proofPreview p"
  "pn_reclaimReady (fst (verifyBegin force rendered p)) = pn_reclaimReady p"
  "pn_proofRequest (fst (verifyBegin force rendered p)) = pn_proofRequest p"
  by (simp_all add: verifyBegin_def Let_def split: option.split)

text \<open>A change of the panel alone.\<close>

lemma onPanel_ok:
  assumes "panel_ok js storage v"
    and "\<And>p own page. panel_fits js own page p \<Longrightarrow> panel_fits js own page (f p) \<and> pn_proofPreview (f p) = pn_proofPreview p"
  shows "panel_ok js storage (onPanel f v)"
  using assms by (auto simp: panel_ok_def split: option.splits)

lemmas panel_steps = initBegin_def initAnswered_def verifyUnready_def flowTriggered_def verifyFailed_def onError_def
  toggleProof_def Let_def

lemma null_ok: "proof_from js storage JNull" "stored_ok js storage None"
  by (simp_all add: stored_ok_def proof_from_def)

lemma finalProof_ok: "stored_ok js storage (Some (js_stringify js (finalProof proofs)))" "proof_from js storage (finalProof proofs)"
  by (auto simp: stored_ok_def proof_from_def)

lemma onSuccess_ok: "panel_ok js storage v \<Longrightarrow> 1 \<le> n \<Longrightarrow> n \<le> vs_number v \<Longrightarrow> panel_ok js storage (onSuccess js n stored proofs v)"
  using finalProof_ok[of js storage proofs]
  by (cases "vs_panel v") (simp_all add: panel_ok_def panel_fits_def onSuccess_def Let_def)

lemma handleReverify_ok:
  assumes "panel_ok js storage v"
  shows "panel_ok js storage (fst (handleReverify rendered v))"
proof (cases "vs_panel v")
  case (Some p)
  let ?p = "p\<lparr>pn_status := Identity_idle, pn_error := None, pn_proofPreview := None, pn_showProof := False\<rparr>"
  let ?q = "fst (verifyBegin True rendered ?p)"
  have q: "pn_proofPreview ?q = None" "pn_status ?q \<noteq> Identity_verified" "pn_reclaimReady ?q = pn_reclaimReady p" "pn_proofRequest ?q = pn_proofRequest p"
    using verifyBegin_fields[of True rendered ?p] by auto
  have "panel_fits js True JNull ?q" using assms Some q by (simp add: panel_ok_def panel_fits_def)
  moreover have "fst (handleReverify rendered v) = v\<lparr>vs_panel := Some ?q, vs_proofData := JNull, vs_giver := vs_number v\<rparr>"
    by (simp add: handleReverify_def Some split_def Let_def)
  ultimately show ?thesis using assms Some q(1) by (simp add: panel_ok_def null_ok)
qed (use assms in \<open>simp add: handleReverify_def\<close>)

lemma visited_ok: "visited env js msg storage v \<Longrightarrow> panel_ok js storage v"
proof (induction rule: visited.induct)
  case opened
  show ?case by (rule openPage_ok) (simp add: stored_ok_def)
next
  case (reloaded v)
  then show ?case by (intro openPage_ok) (simp add: panel_ok_def)
next
  case (verified v force rendered)
  show ?case
  proof (rule onPanel_ok[OF verified.IH], goal_cases)
    case (1 p own page)
    then show ?case using verifyBegin_fields(1)[of force rendered p] by (auto simp: panel_fits_def verifyBegin_fields(2-) split: option.split)
  qed
next
  case (connected v)
  show ?case by (rule connectWallet_ok[OF connected.IH])
next
  case (disconnected v)
  then show ?case by (simp add: disconnectWallet_def panel_ok_def)
next
  case (succeeded v n stored proofs)
  then show ?case by (intro onSuccess_ok)
next
  case (reverified v rendered)
  then show ?case by (intro handleReverify_ok)
next
  case (reset v)
  then show ?case
    by (cases "vs_panel v") (auto simp: panel_ok_def panel_fits_def handleReset_def null_ok split: option.splits)
qed ((rule onPanel_ok; (assumption | force simp: panel_fits_def panel_steps split: option.splits sum.splits))+)

subsection \<open>Properties\<close>

text \<open>
  C24. Whatever the user, the wallet and the SDK do in whatever order: unless a session of an earlier panel, one that
  went with its wallet, has given the page its proof, a panel that says verified and is not being reset shows the proof
  that the page works with, and a page whose panel shows no proof asks for guest quotes only; it never happens before the
  wallet has left once. The verify button is ready exactly when a request is there to be triggered; the stored proof is
  the one found at the start or one the SDK handed over; and the page's proof, if any, is from the SDK or such a stored one.
\<close>

theorem panel_shows_the_page_proof:
  assumes "visited env js msg storage v"
  shows "vs_giver v \<le> vs_number v
     \<and> (case vs_panel v of None \<Rightarrow> True | Some p \<Rightarrow>
          (vs_giver v \<in> {0, vs_number v} \<longrightarrow>
             (pn_status p = Identity_verified \<and> \<not> pn_isResetting p \<longrightarrow> pn_proofPreview p = Some (js_pretty js (vs_proofData v)))
             \<and> (pn_proofPreview p = None \<longrightarrow> desiredModeOf (vs_proofData v) = Guest))
          \<and> (vs_number v = 1 \<longrightarrow> vs_giver v \<in> {0, vs_number v})
          \<and> (pn_reclaimReady p \<longleftrightarrow> pn_proofRequest p \<noteq> None))
     \<and> stored_ok js storage (vs_storage v STORAGE_KEY) \<and> proof_from js storage (vs_proofData v)"
proof -
  have "normalizeSignedProofPayload JNull = []" by (simp add: normalizeSignedProofPayload_def)
  then show ?thesis using visited_ok[OF assms]
    by (auto simp: panel_ok_def panel_fits_def desiredModeOf_def split: option.splits)
qed

definition plain_json :: json where
  "plain_json = \<lparr>js_parse = (\<lambda>s. if s = ''1'' then Inr (JNum (Fin 1)) else Inl SyntaxError), js_stringify = (\<lambda>_. ''1''), js_pretty = (\<lambda>_. ''1'')\<rparr>"

text \<open>A session that ends while its panel is there.\<close>

theorem panel_shows_the_page_proof_witness:
  "\<exists>(v :: nat visit) p. visited (\<lambda>_. None) plain_json (\<lambda>_. []) (\<lambda>_. None) v \<and> vs_panel v = Some p \<and> pn_status p = Identity_verified
     \<and> pn_proofPreview p = Some (js_pretty plain_json (vs_proofData v)) \<and> tierLevelOf (vs_proofData v) = 1"
proof -
  let ?proofs = "JArr [JObj [(''signatures'', JArr [JStr ''s''])]]"
  let ?v = "onSuccess plain_json 1 True ?proofs (connectWallet plain_json (openPage (\<lambda>_. None))) :: nat visit"
  let ?p = "(new_panel :: nat panel)\<lparr>pn_status := Identity_verified, pn_proofPreview := Some (js_pretty plain_json (finalProof ?proofs))\<rparr>"
  have v: "visited (\<lambda>_. None) plain_json (\<lambda>_. []) (\<lambda>_. None) ?v"
    by (intro visited.succeeded visited.connected visited.opened) (simp_all add: connectWallet_def openPage_def restoreProof_def)
  have p: "vs_panel ?v = Some ?p" "vs_giver ?v = vs_number ?v" "pn_status ?p = Identity_verified" "\<not> pn_isResetting ?p"
    by (simp_all add: onSuccess_def Let_def connectWallet_def openPage_def restoreProof_def new_panel_def)
  have "tierLevelOf (vs_proofData ?v) = 1"
    by (simp add: onSuccess_def Let_def finalProof_def js_nullish_def tierLevelOf_def desiredModeOf_def normalizeSignedProofPayload_def)
  moreover have "pn_proofPreview ?p = Some (js_pretty plain_json (vs_proofData ?v))"
    using panel_shows_the_page_proof[OF v] unfolding p(1) using p(2-4) by simp
  ultimately show ?thesis using v p(1,3) by blast
qed

text \<open>
  The earlier panel's session is a real case: it ends after the wallet has left and come back. The new panel, which
  has found nothing in the storage, does not say verified, while the page asks for verified quotes.
\<close>

theorem panel_misses_an_earlier_session:
  "\<exists>(v :: nat visit) p. visited (\<lambda>_. None) plain_json (\<lambda>_. []) (\<lambda>_. None) v \<and> vs_panel v = Some p
     \<and> pn_status p = Identity_idle \<and> pn_proofPreview p = None \<and> desiredModeOf (vs_proofData v) = Verified"
proof -
  let ?proofs = "JArr [JObj [(''signatures'', JArr [JStr ''s''])]]"
  let ?c = "connectWallet plain_json" let ?o = "openPage (\<lambda>_. None) :: nat visit"
  let ?v = "onSuccess plain_json 1 True ?proofs (?c (disconnectWallet (?c ?o)))"
  have "visited (\<lambda>_. None) plain_json (\<lambda>_. []) (\<lambda>_. None) ?v"
    by (intro visited.succeeded visited.connected visited.disconnected visited.opened)
      (simp_all add: connectWallet_def openPage_def restoreProof_def disconnectWallet_def)
  moreover have "vs_panel ?v = Some new_panel"
    by (simp add: onSuccess_def Let_def connectWallet_def openPage_def restoreProof_def disconnectWallet_def)
  moreover have "desiredModeOf (vs_proofData ?v) = Verified"
    by (simp add: onSuccess_def Let_def finalProof_def js_nullish_def desiredModeOf_def normalizeSignedProofPayload_def)
  ultimately show ?thesis by (intro exI[of _ ?v] exI[of _ "new_panel :: nat panel"]) (simp add: new_panel_def)
qed

lemma has_signatures:
  "(case v of Some (JArr (_ # _)) \<Rightarrow> True | _ \<Rightarrow> False) \<longleftrightarrow> (\<exists>s ss. v = Some (JArr (s # ss)))"
  by (auto split: option.split jsval.split list.split)

text \<open>
  The panel trusts the storage: on an opened page whose wallet has come, it says verified exactly when there is a JSON
  text under the key, whatever it says, and the page offers the verified tier exactly when one of its proofs has a list of
  signatures that is not empty. Nobody has checked either of them by then.
\<close>

theorem opened_page_trusts_storage:
  fixes js :: json and storage :: "string \<Rightarrow> string option"
  defines "page \<equiv> connectWallet js (openPage storage :: 'q visit)"
  shows "(map_option pn_status (vs_panel page) = Some Identity_verified
      \<longleftrightarrow> (\<exists>raw parsed. storage STORAGE_KEY = Some raw \<and> raw \<noteq> [] \<and> js_parse js raw = Inr parsed))
   \<and> (tierLevelOf (vs_proofData page) = 1
      \<longleftrightarrow> (\<exists>raw parsed x. storage STORAGE_KEY = Some raw \<and> raw \<noteq> [] \<and> js_parse js raw = Inr parsed
           \<and> x \<in> set (case parsed of JArr xs \<Rightarrow> xs | _ \<Rightarrow> [parsed])
           \<and> (\<exists>s ss. js_own x ''signatures'' = Some (JArr (s # ss)))))"
proof -
  have signed: "normalizeSignedProofPayload p \<noteq> []
      \<longleftrightarrow> (\<exists>x \<in> set (case p of JArr xs \<Rightarrow> xs | _ \<Rightarrow> [p]). \<exists>s ss. js_own x ''signatures'' = Some (JArr (s # ss)))" for p
  proof (cases "js_truthy p")
    case False
    then show ?thesis by (cases p) (simp_all add: normalizeSignedProofPayload_def)
  next
    case True
    then show ?thesis by (simp add: normalizeSignedProofPayload_def filter_empty_conv has_signatures)
  qed
  have tier: "tierLevelOf p = 1 \<longleftrightarrow> normalizeSignedProofPayload p \<noteq> []" for p
    by (simp add: tierLevelOf_def desiredModeOf_def)
  have none: "normalizeSignedProofPayload JNull = []" by (simp add: normalizeSignedProofPayload_def)
  show ?thesis
  proof (cases "\<exists>raw parsed. storage STORAGE_KEY = Some raw \<and> raw \<noteq> [] \<and> js_parse js raw = Inr parsed")
    case True
    then obtain raw parsed where r: "storage STORAGE_KEY = Some raw" "raw \<noteq> []" "js_parse js raw = Inr parsed" by blast
    then have o: "vs_proofData page = parsed" "map_option pn_status (vs_panel page) = Some Identity_verified"
      by (simp_all add: page_def connectWallet_def openPage_def restoreProof_def)
    show ?thesis unfolding tier signed o by (auto simp: r)
  next
    case False
    then have "restoreProof js v = v" if "vs_storage v = storage" for v :: "'q visit"
      using that by (auto simp: restoreProof_def split: option.split sum.split)
    then have "vs_panel page = Some new_panel" "vs_proofData page = JNull"
      by (simp_all add: page_def connectWallet_def openPage_def)
    then show ?thesis using False by (auto simp: tier none new_panel_def)
  qed
qed

text \<open>
  Asking for a new verification takes the proof from the page but not from the storage: if the new one fails, the next
  time the page is opened it says verified again, with the old proof.
\<close>

theorem reverification_keeps_the_stored_proof:
  fixes v :: "'q visit"
  assumes "vs_panel v = Some p" "vs_storage v STORAGE_KEY = Some raw" "raw \<noteq> []" "js_parse js raw = Inr parsed"
  shows "vs_proofData (fst (handleReverify rendered v)) = JNull
     \<and> (let failed = onPanel (verifyFailed message) (fst (handleReverify rendered v));
            again = connectWallet js (openPage (vs_storage failed)) :: 'q visit in
         map_option pn_status (vs_panel failed) = Some Identity_failed
         \<and> map_option pn_status (vs_panel again) = Some Identity_verified \<and> vs_proofData again = parsed)"
  using assms
  by (simp add: handleReverify_def Let_def verifyFailed_def connectWallet_def openPage_def restoreProof_def split: prod.split)

theorem reverification_keeps_the_stored_proof_witness:
  "let v = connectWallet plain_json (openPage (\<lambda>_. Some ''1'')) :: nat visit;
       failed = onPanel (verifyFailed ''no'') (fst (handleReverify (the (vs_panel v)) v)) in
     map_option pn_status (vs_panel failed) = Some Identity_failed
     \<and> vs_proofData (connectWallet plain_json (openPage (vs_storage failed)) :: nat visit) = JNum (Fin 1)"
proof -
  let ?v = "connectWallet plain_json (openPage (\<lambda>_. Some ''1'')) :: nat visit"
  have "vs_panel ?v = Some (the (vs_panel ?v))" "vs_storage ?v STORAGE_KEY = Some ''1''" "js_parse plain_json ''1'' = Inr (JNum (Fin 1))"
    by (simp_all add: plain_json_def connectWallet_def openPage_def restoreProof_def)
  from reverification_keeps_the_stored_proof[OF this(1,2) _ this(3), of "the (vs_panel ?v)" "''no''"] show ?thesis by (simp add: Let_def)
qed

end
