(* ===== verification/Ticket_Portfolio.thy ===== *)
theory Ticket_Portfolio
  imports Wallet_Flow
begin

section \<open>Owned tickets and the resale market (hooks/useTicketPortfolio.ts)\<close>

text \<open>
  The hook shows the tickets of the wallet and the open listings, and sends three transactions: list, cancel, buy.
  Its state is the record \<open>portfolio\<close>; the readings of one refresh are made one after the other here, at once in the code.
\<close>

subsection \<open>State and readings\<close>

record portfolio =
  pf_ownedTickets :: "(ticket_receipt \<times> ticket_listing option) list"
  pf_marketListings :: "ticket_listing list"
  pf_loading :: bool
  pf_actionMint :: "string option"
  pf_error :: "string option"

datatype portfolio_result = Action_done string | Action_failed string

definition sendWalletTransaction :: "page \<Rightarrow> 'a network \<Rightarrow> transaction_instruction list \<Rightarrow> ('h, string) flow" where
  "sendWalletTransaction pg nw instructions =
     (case wl_publicKey (pg_wallet pg) of
        Some publicKey \<Rightarrow>
          if wl_canSign (pg_wallet pg) then submit nw publicKey (map Invoke instructions)
          else lift (Inl (Thrown ''Wallet not connected''))
      | None \<Rightarrow> lift (Inl (Thrown ''Wallet not connected'')))"

fun readAccounts :: "'a network \<Rightarrow> pubkey list \<Rightarrow> ('h, (pubkey \<times> bytes option) list) flow" where
  "readAccounts nw [] = lift (Inr [])"
| "readAccounts nw (k # ks) =
     bind (ask (Read_account k) (\<lambda>cs. nw_account nw cs k)) (\<lambda>info.
     bind (readAccounts nw ks) (\<lambda>rest. lift (Inr ((k, info) # rest))))"

text \<open>The receipts of a wallet among the accounts of the program, before they are sorted.\<close>

definition ownedReceipts :: "chain \<Rightarrow> (pubkey \<times> bytes) list \<Rightarrow> pubkey \<Rightarrow> ticket_receipt list" where
  "ownedReceipts ch programAccounts owner =
     filter (\<lambda>r. tr_currentHolder r = owner)
       (List.map_filter (\<lambda>(k, dat). parseTicketReceiptAccount k dat)
         (filter (\<lambda>(k, dat). hasAccountDiscriminator (ch_sha256 ch) dat ''TicketReceipt'') programAccounts))"

definition readOwnedTickets ::
  "page \<Rightarrow> 'a network \<Rightarrow> pubkey \<Rightarrow> pubkey \<Rightarrow> ('h, (ticket_receipt \<times> ticket_listing option) list) flow" where
  "readOwnedTickets pg nw programId owner =
     (let ch = pg_chain pg in
      bind (ask Read_programs (nw_programs nw)) (\<lambda>programAccounts.
      bind (readAccounts nw (map (\<lambda>r. findTicketListingPda ch programId (tr_mint r)) (ownedReceipts ch programAccounts owner))) (\<lambda>infos.
        lift (Inr (fetchOwnedTickets ch programAccounts (\<lambda>k. Option.bind (map_of infos k) id) programId owner)))))"

definition refresh :: "page \<Rightarrow> 'a network \<Rightarrow> (portfolio, unit) flow" where
  "refresh pg nw =
     (case pg_programId pg of
        None \<Rightarrow> update (\<lambda>h. h\<lparr>pf_ownedTickets := [], pf_marketListings := [], pf_error := None\<rparr>)
      | Some programId \<Rightarrow>
          andThen (update (\<lambda>h. h\<lparr>pf_loading := True\<rparr>))
            (finishing
              (catching
                (bind (case wl_publicKey (pg_wallet pg) of
                         Some owner \<Rightarrow> readOwnedTickets pg nw programId owner | None \<Rightarrow> lift (Inr [])) (\<lambda>tickets.
                 bind (ask Read_programs (nw_programs nw)) (\<lambda>programAccounts.
                   update (\<lambda>h. h\<lparr>pf_ownedTickets := tickets, pf_marketListings := fetchActiveListings (pg_chain pg) programAccounts,
                     pf_error := None\<rparr>))))
                (\<lambda>e. update (\<lambda>h. h\<lparr>pf_error := Some (messageOf (pg_text pg) e)\<rparr>)))
              (\<lambda>h. h\<lparr>pf_loading := False\<rparr>)))"

subsection \<open>Actions\<close>

text \<open>The frame the three actions share: \<open>build\<close> makes the instruction.\<close>

definition portfolioAction ::
  "page \<Rightarrow> 'a network \<Rightarrow> string \<Rightarrow> (pubkey \<Rightarrow> pubkey \<Rightarrow> (portfolio, transaction_instruction) flow) \<Rightarrow> (portfolio, portfolio_result) flow" where
  "portfolioAction pg nw mint build =
     (case (pg_programId pg, wl_publicKey (pg_wallet pg)) of
        (Some programId, Some publicKey) \<Rightarrow>
          andThen (update (\<lambda>h. h\<lparr>pf_actionMint := Some mint, pf_error := None\<rparr>))
            (finishing
              (catching
                (bind (build programId publicKey) (\<lambda>instruction.
                 bind (sendWalletTransaction pg nw [instruction]) (\<lambda>signature.
                 andThen (refresh pg nw) (lift (Inr (Action_done signature))))))
                (\<lambda>e. let message = messageOf (pg_text pg) e in
                  andThen (update (\<lambda>h. h\<lparr>pf_error := Some message\<rparr>)) (lift (Inr (Action_failed message)))))
              (\<lambda>h. h\<lparr>pf_actionMint := None\<rparr>))
      | _ \<Rightarrow> lift (Inr (Action_failed ''Wallet not connected'')))"

text \<open>\<open>BigInt(Math.round(...))\<close> throws for a number that is not finite.\<close>

definition lamportsOfSol :: "jsnum \<Rightarrow> int result" where
  "lamportsOfSol x = (case finite_num x of Some v \<Rightarrow> Inr (solToLamports v) | None \<Rightarrow> Inl RangeError)"

definition listTicket :: "page \<Rightarrow> 'a network \<Rightarrow> string \<Rightarrow> jsnum \<Rightarrow> (portfolio, portfolio_result) flow" where
  "listTicket pg nw ticketMint askPriceSol =
     portfolioAction pg nw ticketMint (\<lambda>programId seller. lift
       (rbind (pg_pubkey pg ticketMint) (\<lambda>mint. rbind (lamportsOfSol askPriceSol) (\<lambda>askPriceLamports.
          Inr (fst (buildListTicketInstruction (pg_chain pg) programId seller mint askPriceLamports))))))"

definition cancelListing :: "page \<Rightarrow> 'a network \<Rightarrow> string \<Rightarrow> (portfolio, portfolio_result) flow" where
  "cancelListing pg nw ticketMint =
     portfolioAction pg nw ticketMint (\<lambda>programId seller. lift
       (rbind (pg_pubkey pg ticketMint) (\<lambda>mint. Inr (buildCancelTicketListingInstruction (pg_chain pg) programId seller mint))))"

definition buyListing :: "page \<Rightarrow> 'a network \<Rightarrow> ticket_listing \<Rightarrow> (portfolio, portfolio_result) flow" where
  "buyListing pg nw listing =
     portfolioAction pg nw (pg_base58 pg (tl_mint listing)) (\<lambda>programId buyer.
       bind (readProtocolState (pg_chain pg) nw programId) (\<lambda>protocolState.
       lift (case ps_globalAuthority protocolState of
         None \<Rightarrow> Inl (Thrown ''Protocol treasury is missing on this cluster'')
       | Some authority \<Rightarrow> Inr (buildFillTicketListingInstruction (pg_chain pg) programId buyer (tl_seller listing) authority (tl_mint listing)))))"

subsection \<open>What the flows return and have signed\<close>

lemma keeps_readAccounts: "flow_keeps P (readAccounts nw ks) (\<lambda>_. True)"
  by (induction ks) (auto intro!: keeps_bind[where Q="\<lambda>_. True"] keeps_call)

lemma keeps_refresh: "flow_keeps P (refresh pg nw) (\<lambda>_. True)"
  unfolding refresh_def readOwnedTickets_def Let_def
  by (auto intro!: keeps_andThen keeps_finishing keeps_catching keeps_bind[where Q="\<lambda>_. True"] keeps_call keeps_readAccounts
      split: option.split)

text \<open>A transaction of the wallet with one instruction, which satisfies \<open>I\<close>.\<close>

definition oneInstruction :: "page \<Rightarrow> (pubkey \<Rightarrow> pubkey \<Rightarrow> transaction_instruction \<Rightarrow> bool) \<Rightarrow> transaction \<Rightarrow> bool" where
  "oneInstruction pg I tx \<longleftrightarrow> wl_canSign (pg_wallet pg)
     \<and> (\<exists>programId ix. pg_programId pg = Some programId \<and> wl_publicKey (pg_wallet pg) = Some (tx_feePayer tx)
          \<and> tx_instructions tx = [Invoke ix] \<and> I programId (tx_feePayer tx) ix)"

lemma keeps_portfolioAction:
  assumes "\<And>programId user. flow_keeps (oneInstruction pg I) (build programId user) (I programId user)"
  shows "flow_keeps (oneInstruction pg I) (portfolioAction pg nw mint build) (\<lambda>_. True)"
proof (cases "pg_programId pg \<noteq> None \<and> wl_publicKey (pg_wallet pg) \<noteq> None")
  case False
  then show ?thesis by (auto simp: portfolioAction_def split: option.split)
next
  case True
  then obtain programId user where k: "pg_programId pg = Some programId" "wl_publicKey (pg_wallet pg) = Some user" by auto
  have send: "flow_keeps (oneInstruction pg I) (sendWalletTransaction pg nw [ix]) (\<lambda>_. True)" if "I programId user ix" for ix
    using that k by (auto simp: sendWalletTransaction_def oneInstruction_def intro!: keeps_submit)
  have "flow_keeps (oneInstruction pg I) (bind (build programId user) (\<lambda>ix. bind (sendWalletTransaction pg nw [ix]) (\<lambda>signature.
      andThen (refresh pg nw) (lift (Inr (Action_done signature)))))) (\<lambda>_. True)"
    by (rule keeps_bind[OF assms], rule keeps_bind[OF send], assumption, rule keeps_bind[OF keeps_refresh]) simp
  then show ?thesis
    unfolding portfolioAction_def k Let_def option.case prod.case
    by (intro keeps_andThen keeps_finishing keeps_catching) simp_all
qed

lemma keeps_listTicket:
  "flow_keeps (oneInstruction pg (\<lambda>programId seller ix. \<exists>mint price. pg_pubkey pg ticketMint = Inr mint \<and> lamportsOfSol askPriceSol = Inr price
       \<and> ix = fst (buildListTicketInstruction (pg_chain pg) programId seller mint price)))
     (listTicket pg nw ticketMint askPriceSol) (\<lambda>_. True)"
  unfolding listTicket_def by (rule keeps_portfolioAction) (auto simp: js_simps)

lemma keeps_cancelListing:
  "flow_keeps (oneInstruction pg (\<lambda>programId seller ix. \<exists>mint. pg_pubkey pg ticketMint = Inr mint
       \<and> ix = buildCancelTicketListingInstruction (pg_chain pg) programId seller mint))
     (cancelListing pg nw ticketMint) (\<lambda>_. True)"
  unfolding cancelListing_def by (rule keeps_portfolioAction) (auto simp: js_simps)

text \<open>A protocol state as the cluster has answered it: the accounts at its two addresses.\<close>

definition protocolRead :: "chain \<Rightarrow> 'a network \<Rightarrow> pubkey \<Rightarrow> protocol_state \<Rightarrow> bool" where
  "protocolRead ch nw programId state \<longleftrightarrow>
     (\<exists>cs1 cs2 g a. nw_account nw cs1 (findGlobalConfigV2Pda ch programId) = Inr g \<and> nw_account nw cs2 (findAdminConfigPda ch programId) = Inr a
        \<and> state = fetchProtocolState ch (\<lambda>k. if k = findGlobalConfigV2Pda ch programId then g else a) programId)"

lemma keeps_protocolRead: "flow_keeps P (readProtocolState ch nw programId) (protocolRead ch nw programId)"
  unfolding readProtocolState_def Let_def
proof (rule keeps_bind[where Q="\<lambda>g. \<exists>cs. nw_account nw cs (findGlobalConfigV2Pda ch programId) = Inr g"])
  fix g
  assume g: "\<exists>cs. nw_account nw cs (findGlobalConfigV2Pda ch programId) = Inr g"
  show "flow_keeps P (bind (ask (Read_account (findAdminConfigPda ch programId)) (\<lambda>cs. nw_account nw cs (findAdminConfigPda ch programId)))
      (\<lambda>a. lift (Inr (fetchProtocolState ch (\<lambda>k. if k = findGlobalConfigV2Pda ch programId then g else a) programId))))
     (protocolRead ch nw programId)"
  proof (rule keeps_bind[where Q="\<lambda>a. \<exists>cs. nw_account nw cs (findAdminConfigPda ch programId) = Inr a"])
    fix a
    assume "\<exists>cs. nw_account nw cs (findAdminConfigPda ch programId) = Inr a"
    with g have "protocolRead ch nw programId
        (fetchProtocolState ch (\<lambda>k. if k = findGlobalConfigV2Pda ch programId then g else a) programId)"
      unfolding protocolRead_def by blast
    then show "flow_keeps P (lift (Inr (fetchProtocolState ch (\<lambda>k. if k = findGlobalConfigV2Pda ch programId then g else a) programId)))
       (protocolRead ch nw programId)" by simp
  qed (auto intro!: keeps_call)
qed (auto intro!: keeps_call)

lemma keeps_buyListing:
  "flow_keeps (oneInstruction pg (\<lambda>programId buyer ix. \<exists>state authority. protocolRead (pg_chain pg) nw programId state
       \<and> ps_globalAuthority state = Some authority
       \<and> ix = buildFillTicketListingInstruction (pg_chain pg) programId buyer (tl_seller listing) authority (tl_mint listing)))
     (buyListing pg nw listing) (\<lambda>_. True)"
  unfolding buyListing_def
  by (rule keeps_portfolioAction) (auto intro!: keeps_bind[OF keeps_protocolRead] split: option.splits, blast)

text \<open>The three actions as one operation, and what it signs: nothing before the instruction is built, then one transaction.\<close>

datatype portfolio_action = List_ticket string jsnum | Cancel_listing string | Buy_listing ticket_listing

fun runAction :: "page \<Rightarrow> 'a network \<Rightarrow> portfolio_action \<Rightarrow> (portfolio, portfolio_result) flow" where
  "runAction pg nw (List_ticket ticketMint askPriceSol) = listTicket pg nw ticketMint askPriceSol"
| "runAction pg nw (Cancel_listing ticketMint) = cancelListing pg nw ticketMint"
| "runAction pg nw (Buy_listing listing) = buyListing pg nw listing"

definition one_action :: "portfolio_result \<Rightarrow> nat \<Rightarrow> bool" where
  "one_action res n \<longleftrightarrow> n \<le> 1 \<and> (\<forall>signature. res = Action_done signature \<longrightarrow> n = 1)"

lemma count_portfolioAction:
  assumes "\<And>programId user. flow_keeps (\<lambda>_. False) (build programId user) (\<lambda>_. True)"
  shows "flow_count one_action 1 (portfolioAction pg nw mint build)"
proof (cases "pg_programId pg \<noteq> None \<and> wl_publicKey (pg_wallet pg) \<noteq> None")
  case False
  then show ?thesis by (auto simp: portfolioAction_def one_action_def intro!: count_lift split: option.split)
next
  case True
  then obtain programId user where k: "pg_programId pg = Some programId" "wl_publicKey (pg_wallet pg) = Some user" by auto
  have send: "flow_count (\<lambda>_ n. n = 1) 1 (sendWalletTransaction pg nw [ix])" for ix
    by (auto simp: sendWalletTransaction_def simp del: One_nat_def intro!: count_submit count_lift split: option.split)
  have tail: "flow_count (\<lambda>res n. one_action res (Suc n)) 0 (andThen (refresh pg nw) (lift (Inr (Action_done signature))))" for signature
    by (rule count_skip[OF count_keeps[OF keeps_refresh]]) (auto simp: one_action_def intro!: count_lift)
  have "flow_count one_action 1 (bind (build programId user) (\<lambda>ix. bind (sendWalletTransaction pg nw [ix]) (\<lambda>signature.
      andThen (refresh pg nw) (lift (Inr (Action_done signature))))))"
    by (rule count_skip[OF count_keeps[OF assms]], rule count_signs[OF send tail])
  then show ?thesis
    unfolding portfolioAction_def k Let_def option.case prod.case
    by (intro count_andThen count_finishing, elim count_catching)
      (auto simp: one_action_def intro!: exI[of _ "0::nat"] count_andThen count_lift)
qed

lemma count_runAction: "flow_count one_action 1 (runAction pg nw action)"
  by (cases action)
    (auto simp: listTicket_def cancelListing_def buyListing_def simp del: One_nat_def
      intro!: count_portfolioAction keeps_bind[OF keeps_readProtocolState])

lemma portfolioAction_answers: "\<exists>res. snd (snd (portfolioAction pg nw mint build cs h)) = Inr res"
  by (auto simp: portfolioAction_def flow_simps Let_def split: option.split prod.split sum.split)

lemma runAction_answers: "\<exists>res. snd (snd (runAction pg nw action cs h)) = Inr res"
  by (cases action) (simp_all add: listTicket_def cancelListing_def buyListing_def portfolioAction_answers)

subsection \<open>Properties\<close>

text \<open>
  C22. Each action answers, and has the wallet sign at most one transaction, exactly one when it reports a signature.
  The transaction has one instruction, is paid by the wallet of the page, and is the instruction of this action and no
  other: \<open>list_ticket\<close> with the chosen mint and the price in lamports, \<open>cancel_ticket_listing\<close> with the chosen mint, or
  \<open>fill_ticket_listing\<close> with the seller and the mint of the chosen listing and the treasury the cluster has just
  answered, each with the wallet as its signer.
\<close>

theorem portfolio_signs_its_action:
  assumes "runAction pg nw action cs h = (cs', h', r)"
  shows "\<exists>calls res. cs' = cs @ calls \<and> r = Inr res \<and> length (signed_in calls) \<le> 1
     \<and> (\<forall>signature. res = Action_done signature \<longrightarrow> length (signed_in calls) = 1)
     \<and> (\<forall>tx \<in> set (signed_in calls). \<exists>programId user ix. pg_programId pg = Some programId
         \<and> wl_publicKey (pg_wallet pg) = Some user \<and> wl_canSign (pg_wallet pg) \<and> tx_feePayer tx = user
         \<and> tx_instructions tx = [Invoke ix] \<and> ti_programId ix = programId
         \<and> (case action of
              List_ticket ticketMint price \<Rightarrow> (\<exists>mint lamports. pg_pubkey pg ticketMint = Inr mint \<and> lamportsOfSol price = Inr lamports
                \<and> ti_data ix = anchorDiscriminator (ch_sha256 (pg_chain pg)) ''global'' ''list_ticket'' @ encodeU64LE lamports
                \<and> ix = fst (buildListTicketInstruction (pg_chain pg) programId user mint lamports)
                \<and> take 2 (ti_keys ix) = [meta user True True, meta mint False False])
            | Cancel_listing ticketMint \<Rightarrow> (\<exists>mint. pg_pubkey pg ticketMint = Inr mint
                \<and> ti_data ix = anchorDiscriminator (ch_sha256 (pg_chain pg)) ''global'' ''cancel_ticket_listing''
                \<and> ix = buildCancelTicketListingInstruction (pg_chain pg) programId user mint
                \<and> take 2 (ti_keys ix) = [meta user True True, meta mint False False])
            | Buy_listing listing \<Rightarrow> (\<exists>state authority. protocolRead (pg_chain pg) nw programId state
                \<and> ps_globalAuthority state = Some authority
                \<and> ti_data ix = anchorDiscriminator (ch_sha256 (pg_chain pg)) ''global'' ''fill_ticket_listing''
                \<and> ix = buildFillTicketListingInstruction (pg_chain pg) programId user (tl_seller listing) authority (tl_mint listing)
                \<and> take 5 (ti_keys ix) = [meta user True True, meta (tl_seller listing) False True,
                     meta (findGlobalConfigV2Pda (pg_chain pg) programId) False False, meta authority False True,
                     meta (tl_mint listing) False False])))"
proof -
  obtain res where r: "r = Inr res" using runAction_answers[of pg nw action cs h] assms by auto
  obtain calls where calls: "cs' = cs @ calls" "one_action res (length (signed_in calls))"
    using flow_countD[OF count_runAction assms] r by auto
  show ?thesis
  proof (cases action)
    case (List_ticket ticketMint price)
    with assms have a: "listTicket pg nw ticketMint price cs h = (cs', h', r)" by simp
    have "\<forall>tx. Signed tx \<in> set calls \<longrightarrow> oneInstruction pg (\<lambda>programId seller ix. \<exists>mint lamports. pg_pubkey pg ticketMint = Inr mint
        \<and> lamportsOfSol price = Inr lamports
        \<and> ix = fst (buildListTicketInstruction (pg_chain pg) programId seller mint lamports)) tx"
      using keepsD(1)[OF keeps_listTicket a] calls(1) by auto
    then show ?thesis unfolding List_ticket portfolio_action.case using calls r
      by (fastforce simp: one_action_def signed_in_iff oneInstruction_def buildListTicketInstruction_def Let_def)
  next
    case (Cancel_listing ticketMint)
    with assms have a: "cancelListing pg nw ticketMint cs h = (cs', h', r)" by simp
    have "\<forall>tx. Signed tx \<in> set calls \<longrightarrow> oneInstruction pg (\<lambda>programId seller ix. \<exists>mint. pg_pubkey pg ticketMint = Inr mint
        \<and> ix = buildCancelTicketListingInstruction (pg_chain pg) programId seller mint) tx"
      using keepsD(1)[OF keeps_cancelListing a] calls(1) by auto
    then show ?thesis unfolding Cancel_listing portfolio_action.case using calls r
      by (fastforce simp: one_action_def signed_in_iff oneInstruction_def buildCancelTicketListingInstruction_def)
  next
    case (Buy_listing listing)
    with assms have a: "buyListing pg nw listing cs h = (cs', h', r)" by simp
    have "\<forall>tx. Signed tx \<in> set calls \<longrightarrow> oneInstruction pg (\<lambda>programId buyer ix. \<exists>state authority.
        protocolRead (pg_chain pg) nw programId state \<and> ps_globalAuthority state = Some authority
        \<and> ix = buildFillTicketListingInstruction (pg_chain pg) programId buyer (tl_seller listing) authority (tl_mint listing)) tx"
      using keepsD(1)[OF keeps_buyListing a] calls(1) by auto
    then show ?thesis unfolding Buy_listing portfolio_action.case using calls r
      by (fastforce simp: one_action_def signed_in_iff oneInstruction_def buildFillTicketListingInstruction_def)
  qed
qed

definition market_page :: page where
  "market_page = \<lparr>pg_env = (\<lambda>_. None), pg_path = None,
     pg_chain = \<lparr>ch_sha256 = (\<lambda>s. replicate 32 (of_nat (length s))), ch_pda = (\<lambda>seeds p. take 32 (concat seeds @ p)), ch_bpf_loader = replicate 32 1,
       ch_token_program = replicate 32 2, ch_system_program = replicate 32 0, ch_sysvar_instructions = replicate 32 3,
       ch_sysvar_rent = replicate 32 4\<rparr>,
     pg_programId = Some (replicate 32 9), pg_wallet = \<lparr>wl_publicKey = Some (replicate 32 7), wl_canSign = True\<rparr>,
     pg_base58 = (\<lambda>_. ''M''), pg_pubkey = (\<lambda>s. Inr (replicate 32 6)), pg_text = (\<lambda>_. [])\<rparr>"

definition market_network :: "unit network" where
  "market_network = \<lparr>nw_fetch = (\<lambda>calls url body. Replied ()), nw_account = (\<lambda>calls k. Inr None),
     nw_programs = (\<lambda>_. Inr []), nw_blockhash = (\<lambda>_. Inr ''B''), nw_sign = (\<lambda>calls tx. Inr []), nw_send = (\<lambda>calls raw. Inr ''S''),
     nw_confirm = (\<lambda>calls s. Inr None), nw_logs = (\<lambda>calls s. Inr [])\<rparr>"

definition empty_portfolio :: portfolio where
  "empty_portfolio = \<lparr>pf_ownedTickets = [], pf_marketListings = [], pf_loading = False, pf_actionMint = None, pf_error = None\<rparr>"

definition market_run :: "call list \<times> portfolio \<times> portfolio_result result" where
  "market_run = listTicket market_page market_network ''M'' (Fin 2) [] empty_portfolio"

theorem portfolio_signs_its_action_witness:
  "\<exists>tx ix. signed_in (fst market_run) = [tx] \<and> tx_feePayer tx = replicate 32 7 \<and> tx_instructions tx = [Invoke ix]
     \<and> drop 8 (ti_data ix) = encodeU64LE 2000000000"
proof -
  have c: "length (signed_in (fst market_run)) = 1" by code_simp
  have l: "length (anchorDiscriminator (ch_sha256 (pg_chain market_page)) ''global'' ''list_ticket'') = 8" by code_simp
  have p: "lamportsOfSol (Fin 2) = Inr 2000000000" by code_simp
  have r: "runAction market_page market_network (List_ticket ''M'' (Fin 2)) [] empty_portfolio
      = (fst market_run, fst (snd market_run), snd (snd market_run))"
    by (simp add: market_run_def)
  obtain tx where tx: "signed_in (fst market_run) = [tx]" using c by (cases "signed_in (fst market_run)") auto
  from portfolio_signs_its_action[OF r] tx p l show ?thesis by (auto simp: market_page_def)
qed

lemma refresh_answers: "\<exists>cs' h'. refresh pg nw cs h = (cs', h', Inr ())"
  by (auto simp: refresh_def flow_simps Let_def split: option.split prod.split sum.split)

text \<open>
  An action always answers and ends: it is done with a signature, or failed with a message that the page shows,
  and the mark at its mint is removed; without a program or a wallet nothing happens.
\<close>

theorem portfolio_always_answers:
  "\<exists>cs' h' res. portfolioAction pg nw mint build cs h = (cs', h', Inr res)
     \<and> (case res of
          Action_done signature \<Rightarrow> pf_actionMint h' = None
        | Action_failed message \<Rightarrow> if pg_programId pg = None \<or> wl_publicKey (pg_wallet pg) = None then cs' = cs \<and> h' = h
            else pf_actionMint h' = None \<and> pf_error h' = Some message)"
proof (cases "pg_programId pg \<noteq> None \<and> wl_publicKey (pg_wallet pg) \<noteq> None")
  case False
  then show ?thesis by (auto simp: portfolioAction_def lift_def split: option.split)
next
  case True
  then obtain programId user where k: "pg_programId pg = Some programId" "wl_publicKey (pg_wallet pg) = Some user" by auto
  let ?f = "bind (build programId user) (\<lambda>ix. bind (sendWalletTransaction pg nw [ix]) (\<lambda>signature.
      andThen (refresh pg nw) (lift (Inr (Action_done signature)))))"
  let ?h = "h\<lparr>pf_actionMint := Some mint, pf_error := None\<rparr>"
  obtain c1 h1 r1 where f: "?f cs ?h = (c1, h1, r1)" by (cases "?f cs ?h")
  have "\<exists>signature. res = Action_done signature" if "r1 = Inr res" for res
    using f that refresh_answers[of pg nw] by (auto simp: bind_def lift_def split: prod.splits sum.splits)
  then show ?thesis
    using f k by (cases r1) (auto simp: portfolioAction_def catching_def finishing_def bind_def[of "update _"] update_def lift_def Let_def)
qed

lemma fetchOwnedTickets_owned:
  "(r, l) \<in> set (fetchOwnedTickets ch accs info programId owner) \<Longrightarrow> tr_currentHolder r = owner"
  by (auto simp: fetchOwnedTickets_def Let_def)

lemma sorted_sort_key_map: "sorted (map f (sort_key f xs))"
  by simp

lemma refresh_shows:
  assumes "refresh pg nw cs h = (cs', h', r)" "pf_error h' = None" "pg_programId pg = Some programId" "wl_publicKey (pg_wallet pg) = Some owner"
  shows "\<exists>accs info accs'. pf_ownedTickets h' = fetchOwnedTickets (pg_chain pg) accs info programId owner
     \<and> pf_marketListings h' = fetchActiveListings (pg_chain pg) accs'"
  using assms
  by (auto simp: refresh_def readOwnedTickets_def Let_def catching_def finishing_def bind_def update_def ask_def lift_def
      split: prod.splits sum.splits) blast

text \<open>
  After a refresh without an error the page shows tickets of its wallet only, the newest first, and the listings the
  newest first.
\<close>

theorem portfolio_shows_own_tickets:
  assumes "refresh pg nw cs h = (cs', h', r)" "pf_error h' = None" "pg_programId pg = Some programId" "wl_publicKey (pg_wallet pg) = Some owner"
  shows "(\<forall>(receipt, listing) \<in> set (pf_ownedTickets h'). tr_currentHolder receipt = owner)
     \<and> sorted (map (\<lambda>(receipt, listing). - tr_issuedAt receipt) (pf_ownedTickets h'))
     \<and> sorted (map (\<lambda>listing. - tl_createdAt listing) (pf_marketListings h'))"
proof -
  from refresh_shows[OF assms] obtain accs info accs' where
    s: "pf_ownedTickets h' = fetchOwnedTickets (pg_chain pg) accs info programId owner"
       "pf_marketListings h' = fetchActiveListings (pg_chain pg) accs'" by blast
  have "sorted (map (\<lambda>(receipt, listing). - tr_issuedAt receipt) (pf_ownedTickets h'))"
    unfolding s fetchOwnedTickets_def Let_def by (rule sorted_sort_key_map)
  moreover have "sorted (map (\<lambda>listing. - tl_createdAt listing) (pf_marketListings h'))"
    unfolding s fetchActiveListings_def by (rule sorted_sort_key_map)
  ultimately show ?thesis using fetchOwnedTickets_owned unfolding s by fast
qed

definition receipt_bytes :: "nat \<Rightarrow> nat \<Rightarrow> bytes" where
  "receipt_bytes holder issued = replicate 8 21 @ replicate 96 1 @ replicate 32 (of_nat holder) @ replicate 16 0
     @ (of_nat issued # replicate 7 0) @ replicate 58 0"

theorem portfolio_shows_own_tickets_witness:
  "\<exists>h'. snd (refresh market_page (market_network\<lparr>nw_programs := \<lambda>_. Inr [(replicate 32 1, receipt_bytes 7 3),
       (replicate 32 2, receipt_bytes 8 4)]\<rparr>) [] empty_portfolio) = (h', Inr ())
     \<and> length (pf_ownedTickets h') = 1 \<and> (\<forall>(receipt, listing) \<in> set (pf_ownedTickets h'). tr_currentHolder receipt = replicate 32 7)"
proof -
  let ?nw = "market_network\<lparr>nw_programs := \<lambda>_. Inr [(replicate 32 1, receipt_bytes 7 3),
       (replicate 32 2, receipt_bytes 8 4)]\<rparr>"
  let ?r = "refresh market_page ?nw [] empty_portfolio"
  have "case ?r of (cs, h, r) \<Rightarrow> pf_error h = None \<and> length (pf_ownedTickets h) = 1 \<and> r = Inr ()" by code_simp
  then have c: "pf_error (fst (snd ?r)) = None \<and> length (pf_ownedTickets (fst (snd ?r))) = 1 \<and> snd (snd ?r) = Inr ()"
    unfolding case_prod_beta .
  have pg: "pg_programId market_page = Some (replicate 32 9)" "wl_publicKey (pg_wallet market_page) = Some (replicate 32 7)"
    by (simp_all add: market_page_def)
  have "?r = (fst ?r, fst (snd ?r), snd (snd ?r))" by simp
  from portfolio_shows_own_tickets[OF this _ pg] c show ?thesis by (intro exI[of _ "fst (snd ?r)"]) (simp add: prod_eq_iff)
qed

text \<open>
  The buyer is not bound to the price it saw: the transaction is the same for every price, so a listing that is
  replaced by a dearer one for the same mint and seller is bought at the new price.
\<close>

theorem buyers_price_is_not_sent:
  "buyListing pg nw (listing\<lparr>tl_askPriceLamports := price\<rparr>) = buyListing pg nw listing"
proof -
  have "tl_seller (listing\<lparr>tl_askPriceLamports := price\<rparr>) = tl_seller listing"
    "tl_mint (listing\<lparr>tl_askPriceLamports := price\<rparr>) = tl_mint listing" by simp_all
  then show ?thesis unfolding buyListing_def by (simp only:)
qed

text \<open>The price of a listing is cut to 64 bits: one of 2 to the 64 lamports or more is listed for less.\<close>

theorem ask_price_wraps:
  "buildListTicketInstruction ch programId seller mint (price + 2 ^ 64) = buildListTicketInstruction ch programId seller mint price"
proof -
  have "drop_bit (8 * i) (price + 2 ^ 64) AND 0xff = drop_bit (8 * i) price AND (0xff :: int)" if "i < 8" for i :: nat
  proof -
    have "(price + 2 ^ 64) div 2 ^ (8 * i) mod 2 ^ 8 = price div 2 ^ (8 * i) mod (2 ^ 8 :: int)"
    proof -
      have e: "(2 :: int) ^ 64 = 2 ^ (64 - 8 * i) * 2 ^ (8 * i)" using that by (simp flip: power_add)
      have "(price + 2 ^ 64) div 2 ^ (8 * i) = price div 2 ^ (8 * i) + 2 ^ (64 - 8 * i)"
        unfolding e by simp
      moreover have "64 - 8 * i = (56 - 8 * i) + 8" using that by simp
      then have "(2 :: int) ^ (64 - 8 * i) = 2 ^ (56 - 8 * i) * 2 ^ 8" by (metis power_add)
      ultimately show ?thesis by simp
    qed
    then show ?thesis by (simp add: drop_bit_eq_div and_255 take_bit_eq_mod)
  qed
  then have "encodeU64LE (price + 2 ^ 64) = encodeU64LE price" unfolding encodeU64LE_def by (intro map_cong) auto
  then show ?thesis by (simp add: buildListTicketInstruction_def)
qed

end
