(* ===== verification/Home_Page.thy ===== *)
theory Home_Page
  imports Identity_Panel Shield_Flow Ticket_Portfolio
begin

section \<open>The page that sells (app/page.tsx)\<close>

text \<open>
  What the page makes of the two hooks and the proof: the amounts and labels it shows, when its button works, and the
  handler of the button. The handler runs in the state of both hooks and returns the alert it ends with. The two
  refreshes after a purchase are one after the other.
\<close>

subsection \<open>What the page shows\<close>

definition DEFAULT_SOL :: rat where "DEFAULT_SOL = 1"

definition tierBadgeLabel :: "jsval \<Rightarrow> string" where
  "tierBadgeLabel proofData = (if tierLevelOf proofData = 1 then ''Tier 1: Verified zkTLS'' else ''Tier 2: Guest path'')"

definition quoteModeHint :: "jsval \<Rightarrow> string" where
  "quoteModeHint proofData =
     (if desiredModeOf proofData = Verified then ''Wallet-bound zkTLS / Reclaim proof accepted'' else ''Guest path: no zkTLS weight applied'')"

definition faceValueSol :: "shield_quote option \<Rightarrow> rat" where
  "faceValueSol quote = (case quote of Some q \<Rightarrow> lamportsToSol (sq_initialPriceLamports q) | None \<Rightarrow> DEFAULT_SOL)"

definition depositSol :: "shield_quote option \<Rightarrow> rat" where
  "depositSol quote = (case quote of Some q \<Rightarrow> lamportsToSol (surchargeLamports (sq_quote q)) | None \<Rightarrow> 0)"

definition currentTotalSol :: "shield_quote option \<Rightarrow> rat" where
  "currentTotalSol quote = (case quote of Some q \<Rightarrow> lamportsToSol (finalPriceLamports (sq_quote q)) | None \<Rightarrow> DEFAULT_SOL)"

definition quoteExpiresInSec :: "int \<Rightarrow> shield_quote option \<Rightarrow> int option" where
  "quoteExpiresInSec nowSec quote = map_option (\<lambda>q. max 0 (sq_attestationExpiry q - nowSec)) quote"

definition protocolMissingAdmin :: "protocol_state option \<Rightarrow> bool" where
  "protocolMissingAdmin state = (case state of Some s \<Rightarrow> \<not> ps_adminConfigExists s | None \<Rightarrow> False)"

definition protocolMissingGlobal :: "protocol_state option \<Rightarrow> bool" where
  "protocolMissingGlobal state = (case state of Some s \<Rightarrow> \<not> ps_globalConfigExists s | None \<Rightarrow> False)"

definition visibleListings :: "page \<Rightarrow> portfolio \<Rightarrow> ticket_listing list" where
  "visibleListings pg p = filter (\<lambda>listing. Some (pg_base58 pg (tl_seller listing)) \<noteq> map_option (pg_base58 pg) (wl_publicKey (pg_wallet pg)))
     (pf_marketListings p)"

definition payDisabled :: "shield_hook \<Rightarrow> portfolio \<Rightarrow> bool" where
  "payDisabled s p \<longleftrightarrow> sh_executeLoading s \<or> sh_quoteLoading s
     \<or> (case sh_quote s of None \<Rightarrow> True | Some q \<Rightarrow> cq_blocked (sq_quote q))
     \<or> protocolMissingAdmin (sh_protocolState s) \<or> protocolMissingGlobal (sh_protocolState s) \<or> pf_ownedTickets p \<noteq> []"

subsection \<open>The button\<close>

record home =
  hm_shield :: shield_hook
  hm_portfolio :: portfolio

datatype alert = Wallet_gone | Quote_not_ready | Told string | Purchased string string rat

definition onShield :: "(shield_hook, 'a) flow \<Rightarrow> (home, 'a) flow" where
  "onShield f cs h = (case f cs (hm_shield h) of (cs', s, r) \<Rightarrow> (cs', h\<lparr>hm_shield := s\<rparr>, r))"

definition onPortfolio :: "(portfolio, 'a) flow \<Rightarrow> (home, 'a) flow" where
  "onPortfolio f cs h = (case f cs (hm_portfolio h) of (cs', p, r) \<Rightarrow> (cs', h\<lparr>hm_portfolio := p\<rparr>, r))"

text \<open>What follows the execution; quote and protocol state are those of the render, the result is the alert, if there is one.\<close>

definition afterExecution ::
  "page \<Rightarrow> issued_score network \<Rightarrow> shield_quote option \<Rightarrow> jsval \<Rightarrow> execute_result \<Rightarrow> (home, alert option) flow" where
  "afterExecution pg nw quote proofData result =
     (case result of
        Executed txSignature event ticketMint \<Rightarrow>
          if txSignature = [] then lift (Inr None)
          else bind (onShield (refreshQuote pg nw (desiredModeOf proofData) proofData)) (\<lambda>_.
               bind (onPortfolio (refresh pg nw)) (\<lambda>_.
                 lift (Inr (Some (Purchased txSignature ticketMint
                   (case event of Some e \<Rightarrow> lamportsToSol (ev_finalPriceLamports e) | None \<Rightarrow> currentTotalSol quote))))))
      | Not_executed message \<Rightarrow> lift (Inr (if message \<noteq> [] then Some (Told message) else None)))"

definition handleBuyTicket ::
  "page \<Rightarrow> issued_score network \<Rightarrow> shield_quote option \<Rightarrow> protocol_state option \<Rightarrow> jsval \<Rightarrow> (home, alert option) flow" where
  "handleBuyTicket pg nw quote state proofData =
     (if wl_publicKey (pg_wallet pg) = None then lift (Inr (Some Wallet_gone))
      else if quote = None then lift (Inr (Some Quote_not_ready))
      else catching
        (bind (onShield (executeShield pg nw quote state (desiredModeOf proofData) proofData)) (afterExecution pg nw quote proofData))
        (\<lambda>e. lift (Inr (Some (Told (messageOf (pg_text pg) e))))))"

lemma count_onShield: "flow_count C m f \<Longrightarrow> flow_count C m (onShield f)"
  unfolding flow_count_def onShield_def by (auto split: prod.splits)

lemma count_onPortfolio: "flow_count C m f \<Longrightarrow> flow_count C m (onPortfolio f)"
  unfolding flow_count_def onPortfolio_def by (auto split: prod.splits)

lemma keeps_onShield: "flow_keeps P f Q \<Longrightarrow> flow_keeps P (onShield f) Q"
  unfolding flow_keeps_def onShield_def by (auto split: prod.splits)

lemma keeps_onPortfolio: "flow_keeps P f Q \<Longrightarrow> flow_keeps P (onPortfolio f) Q"
  unfolding flow_keeps_def onPortfolio_def by (auto split: prod.splits)

subsection \<open>How often the wallet signs\<close>

lemma count_executeQuote:
  "flow_count (\<lambda>r n. n = 1) 1 (executeQuote pg nw programId user state active)"
  unfolding executeQuote_def Let_def
  by (intro count_skip[OF count_value] count_skip[OF count_keeps[OF keeps_refreshProtocolState]] count_signs[OF count_submit]
      count_skip[OF count_silent] count_andThen count_lift) simp_all

lemma count_executeShield:
  "flow_count (\<lambda>r n. n \<le> 1 \<and> (\<forall>s event mint. r = Executed s event mint \<longrightarrow> n = 1)) 1 (executeShield pg nw quote state desired proof)"
proof (cases "wl_canSign (pg_wallet pg) \<and> wl_publicKey (pg_wallet pg) \<noteq> None \<and> pg_programId pg \<noteq> None")
  case True
  then obtain user programId where k: "wl_publicKey (pg_wallet pg) = Some user" "pg_programId pg = Some programId" by auto
  let ?C = "\<lambda>r n. n \<le> 1 \<and> (\<forall>s event mint. r = Executed s event mint \<longrightarrow> n = (1::nat))"
  have "flow_count ?C 1 (bind (refreshQuote pg nw desired proof) (\<lambda>fresh.
         executeQuote pg nw programId user state (case fresh of Some q \<Rightarrow> Some q | None \<Rightarrow> quote)))"
    by (rule count_skip[OF count_keeps[OF keeps_refreshQuote]], rule count_weaken[OF count_executeQuote]) auto
  then have "flow_count ?C 1 (catching (bind (refreshQuote pg nw desired proof) (\<lambda>fresh.
         executeQuote pg nw programId user state (case fresh of Some q \<Rightarrow> Some q | None \<Rightarrow> quote)))
      (\<lambda>e. andThen (update (\<lambda>h. h\<lparr>sh_error := Some (messageOf (pg_text pg) e)\<rparr>)) (lift (Inr (Not_executed (messageOf (pg_text pg) e))))))"
    by (rule count_catching) (auto intro!: exI[of _ "0::nat"] count_andThen count_lift)
  then show ?thesis using True k by (auto simp: executeShield_def Let_def intro!: count_andThen count_finishing)
next
  case False
  then show ?thesis by (auto simp: executeShield_def Let_def intro!: count_andThen count_lift split: option.split bool.split)
qed

definition one_purchase :: "alert option \<Rightarrow> nat \<Rightarrow> bool" where
  "one_purchase shown n \<longleftrightarrow> n \<le> 1 \<and> (\<forall>s mint sol. shown = Some (Purchased s mint sol) \<longrightarrow> n = 1)"

lemma count_afterExecution:
  assumes "n \<le> 1" "\<And>s event mint. result = Executed s event mint \<Longrightarrow> n = 1"
  shows "flow_count (\<lambda>shown l. one_purchase shown (n + l)) 0 (afterExecution pg nw quote proofData result)"
  using assms by (cases result)
    (auto simp: afterExecution_def one_purchase_def intro!: count_lift count_skip[OF count_onShield[OF count_keeps[OF keeps_refreshQuote]]]
      count_skip[OF count_onPortfolio[OF count_keeps[OF keeps_refresh]]])

lemma count_handleBuyTicket: "flow_count one_purchase 1 (handleBuyTicket pg nw quote state proofData)"
proof -
  have "flow_count one_purchase 1 (bind (onShield (executeShield pg nw quote state (desiredModeOf proofData) proofData))
      (afterExecution pg nw quote proofData))"
    by (rule count_bind[OF count_onShield[OF count_executeShield]], simp, rule exI[of _ 0], rule conjI, rule count_afterExecution) auto
  then show ?thesis
    by (auto simp: handleBuyTicket_def one_purchase_def intro!: count_lift count_catching[where m=1] exI[of _ "0::nat"])
qed

lemma keeps_handleBuyTicket:
  "flow_keeps (\<lambda>tx. \<exists>q. (answeredFor pg nw proofData q \<or> quote = Some q) \<and> transactionOf pg q tx)
     (handleBuyTicket pg nw quote state proofData) (\<lambda>_. True)"
  unfolding handleBuyTicket_def afterExecution_def
  by (auto intro!: keeps_catching keeps_bind[OF keeps_onShield[OF keeps_executeShield]] keeps_bind[OF keeps_onShield[OF keeps_refreshQuote]]
      keeps_bind[OF keeps_onPortfolio[OF keeps_refresh]] split: execute_result.split)

subsection \<open>Properties\<close>

text \<open>
  C23. One click, one transaction: whatever wallet, oracle and cluster do, the handler of the button ends with at most one
  alert, has the wallet sign at most one transaction, exactly one when it reports a purchase, and that one is for
  a quote that is not blocked, answered to this wallet just now or the one on the page.
\<close>

theorem one_click_signs_once:
  assumes "handleBuyTicket pg nw quote state proofData cs h = (cs', h', r)"
  shows "\<exists>calls shown. cs' = cs @ calls \<and> r = Inr shown \<and> length (signed_in calls) \<le> 1
     \<and> (\<forall>s mint sol. shown = Some (Purchased s mint sol) \<longrightarrow> length (signed_in calls) = 1)
     \<and> (\<forall>tx \<in> set (signed_in calls). \<exists>q. (answeredFor pg nw proofData q \<or> quote = Some q) \<and> transactionOf pg q tx)"
proof -
  obtain shown where r: "r = Inr shown"
    using assms by (auto simp: handleBuyTicket_def lift_def catching_def split: if_splits prod.splits sum.splits)
  obtain calls where calls: "cs' = cs @ calls"
      "\<forall>tx. Signed tx \<in> set calls \<longrightarrow> (\<exists>q. (answeredFor pg nw proofData q \<or> quote = Some q) \<and> transactionOf pg q tx)"
    using keepsD(1)[OF keeps_handleBuyTicket assms] by blast
  have "one_purchase shown (length (signed_in calls))"
    using flow_countD[OF count_handleBuyTicket assms] calls(1) r by simp
  then show ?thesis using calls r by (auto simp: one_purchase_def signed_in_iff)
qed

definition sample_home :: home where
  "sample_home = \<lparr>hm_shield = sample_hook, hm_portfolio = \<lparr>pf_ownedTickets = [], pf_marketListings = [], pf_loading = False,
     pf_actionMint = None, pf_error = None\<rparr>\<rparr>"

lemma no_proofs: "desiredModeOf JNull = Guest" "normalizeSignedProofPayload JNull = []"
  by (simp_all add: desiredModeOf_def normalizeSignedProofPayload_def)

lemma refresh_Inr: "bind (onPortfolio (refresh pg nw)) g cs h
    = g () (fst (onPortfolio (refresh pg nw) cs h)) (fst (snd (onPortfolio (refresh pg nw) cs h)))"
proof -
  obtain c p where "refresh pg nw cs (hm_portfolio h) = (c, p, Inr ())" using refresh_answers by blast
  then show ?thesis by (simp add: onPortfolio_def bind_def)
qed

lemma sample_click:
  "\<exists>mint sol calls h. handleBuyTicket sample_page (sample_network sample_route) (Some q) None JNull [] sample_home
     = (calls, h, Inr (Some (Purchased ''S'' mint sol)))"
proof -
  obtain i q1 ixs where p: "sample_route (quoteBody sample_page ''W1'' [] Guest) = Replied i" "shieldQuoteFromApiResponse i Guest = Inr q1"
    "\<not> cq_blocked (sq_quote q1)"
    "executeInstructionsOf sample_page (replicate 32 9) (replicate 32 7)
       (Some (fetchProtocolState sample_chain (\<lambda>_. Some (replicate 41 8)) (replicate 32 9))) q1 = Inr ixs" by (rule sample_found)
  have e: "\<exists>c h'. executeShield sample_page (sample_network sample_route) (Some q) None Guest JNull [] sample_hook
      = (c, h', Inr (Executed ''S'' (parseExecutionEventFromLogs (ch_sha256 sample_chain) []) ''W1''))"
    by (simp add: executeShield_def refreshQuote_def requestShieldQuote_def attempt_def refreshProtocolState_def
        readProtocolState_def executeQuote_def submit_def readReply_def flow_simps Let_def ensure_def sample_surroundings no_proofs p
        fetchProtocolState_two)
  have f: "\<exists>c' h'. refreshQuote sample_page (sample_network sample_route) Guest JNull c h = (c', h', Inr (Some q1))" for c h
    by (simp add: refreshQuote_def requestShieldQuote_def attempt_def refreshProtocolState_def
        readProtocolState_def readReply_def flow_simps Let_def sample_surroundings no_proofs p fetchProtocolState_two)
  obtain c h' where e': "executeShield sample_page (sample_network sample_route) (Some q) None Guest JNull [] sample_hook
      = (c, h', Inr (Executed ''S'' (parseExecutionEventFromLogs (ch_sha256 sample_chain) []) ''W1''))" using e by blast
  obtain c' h'' where f': "refreshQuote sample_page (sample_network sample_route) Guest JNull c h' = (c', h'', Inr (Some q1))" using f by blast
  show ?thesis
    by (simp add: handleBuyTicket_def afterExecution_def sample_surroundings no_proofs catching_def sample_home_def onShield_def bind_def
        e' f' refresh_Inr[unfolded bind_def] lift_def split: prod.split sum.split)
qed

theorem one_click_signs_once_witness:
  "\<exists>q mint sol calls h. handleBuyTicket sample_page (sample_network sample_route) (Some q) None JNull [] sample_home
     = (calls, h, Inr (Some (Purchased ''S'' mint sol))) \<and> length (signed_in calls) = 1"
proof -
  fix q
  obtain mint sol calls h where r: "handleBuyTicket sample_page (sample_network sample_route) (Some q) None JNull [] sample_home
     = (calls, h, Inr (Some (Purchased ''S'' mint sol)))" using sample_click by blast
  have "length (signed_in calls) = 1" using one_click_signs_once[OF r] by auto
  then show ?thesis using r by blast
qed

text \<open>
  The tier on the page is not that of the quote: whenever a refresh falls back to the guest's mode, so that the price is
  a guest's and the page has the warning, its badge still says tier 1 and its hint that the proof was accepted.
\<close>

theorem badge_ignores_fallback:
  assumes "refreshQuote pg nw (desiredModeOf proofData) proofData cs h = (cs', h', Inr (Some q))"
    and "sh_verificationWarning h' = Some warning"
  shows "sq_mode q = Guest \<and> sh_quote h' = Some q \<and> tierBadgeLabel proofData = ''Tier 1: Verified zkTLS''
     \<and> quoteModeHint proofData = ''Wallet-bound zkTLS / Reclaim proof accepted''"
proof -
  obtain user where u: "wl_publicKey (pg_wallet pg) = Some user"
    using assms(1) by (cases "wl_publicKey (pg_wallet pg)") (auto simp: refreshQuote_def flow_simps)
  let ?h = "h\<lparr>sh_quoteLoading := True, sh_error := None\<rparr>"
  obtain c h1 r1 where q: "requestShieldQuote pg nw (pg_base58 pg user) (desiredModeOf proofData) proofData cs ?h = (c, h1, r1)"
    by (cases "requestShieldQuote pg nw (pg_base58 pg user) (desiredModeOf proofData) proofData cs ?h")
  obtain q1 w where r1: "r1 = Inr (q1, w)"
    using assms(1) q u by (cases r1) (auto simp: refreshQuote_def flow_simps Let_def)
  let ?h2 = "h1\<lparr>sh_quote := Some q1, sh_verificationWarning := w\<rparr>"
  obtain c2 h2 r2 where p: "refreshProtocolState pg nw c ?h2 = (c2, h2, r2)" by (cases "refreshProtocolState pg nw c ?h2")
  have s: "sh_quote h2 = Some q1 \<and> sh_verificationWarning h2 = w"
    using p by (auto simp: refreshProtocolState_def readProtocolState_def flow_simps Let_def split: option.splits sum.splits)
  have "announced pg (desiredModeOf proofData) (sq_mode q1) w"
    using keepsD(2)[OF keeps_requestShieldQuote q[unfolded r1] refl] by simp
  moreover have "q1 = q \<and> w = Some warning \<and> sh_quote h' = Some q"
    using assms q u r1 p s by (cases r2) (auto simp: refreshQuote_def flow_simps Let_def)
  ultimately show ?thesis by (auto simp: announced_def tierBadgeLabel_def tierLevelOf_def quoteModeHint_def split: if_splits)
qed

theorem badge_ignores_fallback_witness:
  "\<exists>calls h q. refreshQuote sample_page fallback_network Verified (JObj [(''signatures'', JArr [JStr ''s''])]) [] sample_hook = (calls, h, Inr (Some q))
     \<and> sq_mode q = Guest \<and> tierBadgeLabel (JObj [(''signatures'', JArr [JStr ''s''])]) = ''Tier 1: Verified zkTLS''"
proof -
  let ?p = "JObj [(''signatures'', JArr [JStr ''s''])]"
  obtain i q ixs where p: "sample_route (quoteBody sample_page ''W1'' [] Guest) = Replied i" "shieldQuoteFromApiResponse i Guest = Inr q"
    by (rule sample_found)
  have b: "quoteBody pg w proofs Guest = quoteBody pg w [] Guest" for pg w proofs by (simp add: quoteBody_def)
  have d: "desiredModeOf ?p = Verified" by (simp add: desiredModeOf_def normalizeSignedProofPayload_def)
  have n: "nw_account fallback_network = (\<lambda>calls k. Inr (Some (replicate 41 8)))"
    "nw_fetch fallback_network = (\<lambda>calls url body. if calls = [] then No_answer (Thrown ''gone'') else sample_route body)"
    by (simp_all add: fallback_network_def sample_network_def)
  have "\<exists>calls h warning. refreshQuote sample_page fallback_network (desiredModeOf ?p) ?p [] sample_hook = (calls, h, Inr (Some q))
      \<and> sh_verificationWarning h = Some warning"
    unfolding d by (simp add: refreshQuote_def requestShieldQuote_def attempt_def refreshProtocolState_def
        readProtocolState_def readReply_def flow_simps Let_def sample_surroundings p fetchProtocolState_two b[of _ _ "normalizeSignedProofPayload ?p"] n)
  then obtain calls h warning where r: "refreshQuote sample_page fallback_network (desiredModeOf ?p) ?p [] sample_hook = (calls, h, Inr (Some q))"
      "sh_verificationWarning h = Some warning" by blast
  from badge_ignores_fallback[OF r] r d show ?thesis by auto
qed

end
