(* ===== verification/Fan_Pass_Page.thy ===== *)
theory Fan_Pass_Page
  imports Wallet_Flow Api_Hub
begin

section \<open>The fan pass page (app/fan-pass/page.tsx)\<close>

text \<open>
  The page loads the catalog, runs workflows and anchors, and keeps a log of eight entries. Its state is \<open>fan_page\<close>. The
  answers with a good status have the shapes of the routes of the hub (\<open>hub_answers\<close>); \<open>showValue\<close> is \<open>String(v)\<close>. What a log
  entry tells is a value (\<open>log_details\<close>), from which the page makes its text.
\<close>

subsection \<open>State\<close>

datatype log_status = Log_success | Log_blocked | Log_step_up | Log_error

datatype log_details = Executed_at string | Needs_proof | Blocked_by_policy | Anchored_as string chain_mode | Failed_as string

record flow_log =
  fl_id :: string
  fl_title :: string
  fl_at :: int
  fl_status :: log_status
  fl_details :: log_details

record workflow_state =
  ws_quoteDecision :: hub_decision
  ws_quoteTier :: user_mode
  ws_finalPrice :: string
  ws_reputationScore :: int
  ws_trustTier :: trust_tier
  ws_snapshotHash :: string

record fan_page =
  fp_catalog :: "fan_pass_catalog option"
  fp_loadingCatalog :: bool
  fp_running :: bool
  fp_error :: "string option"
  fp_workflowState :: "workflow_state option"
  fp_latestAnchor :: "anchor_receipt option"
  fp_logs :: "flow_log list"

record hub_answers =
  ha_catalog :: "call list \<Rightarrow> fan_pass_catalog reply"
  ha_workflow :: "call list \<Rightarrow> jsval \<Rightarrow> workflow_result reply"
  ha_anchor :: "call list \<Rightarrow> jsval \<Rightarrow> anchor_receipt reply"

subsection \<open>Requests\<close>

text \<open>\<open>getJson\<close> and \<open>postJson\<close>: a failed answer throws its error, or the status.\<close>

definition failureText :: "(jsval \<Rightarrow> string) \<Rightarrow> int \<Rightarrow> jsval \<Rightarrow> string" where
  "failureText showValue status v =
     (if v \<in> {JUndef, JNull} then ''Request failed ('' @ show_int status @ '')''
      else case v of JStr s \<Rightarrow> s | _ \<Rightarrow> showValue v)"

definition jsonReply :: "(jsval \<Rightarrow> string) \<Rightarrow> 'a reply \<Rightarrow> 'a result" where
  "jsonReply showValue reply =
     (case reply of
        No_answer e \<Rightarrow> Inl e
      | Not_json status raw \<Rightarrow> Inl SyntaxError
      | Refused status payload \<Rightarrow>
          rbind (js_prop payload ''error'') (\<lambda>v. Inl (Thrown (failureText showValue status v)))
      | Replied x \<Rightarrow> Inr x)"

definition fanPassFailed :: "(js_error \<Rightarrow> string) \<Rightarrow> js_error \<Rightarrow> (fan_page, unit) flow" where
  "fanPassFailed msg e = update (\<lambda>h. h\<lparr>fp_error := Some (messageOf msg e)\<rparr>)"

definition loadCatalog :: "(js_error \<Rightarrow> string) \<Rightarrow> (jsval \<Rightarrow> string) \<Rightarrow> hub_answers \<Rightarrow> (fan_page, unit) flow" where
  "loadCatalog msg showValue net =
     andThen (update (\<lambda>h. h\<lparr>fp_loadingCatalog := True, fp_error := None\<rparr>))
       (finishing
         (catching
           (bind (ask (Fetched ''/api/fan-pass/catalog'' JUndef) (\<lambda>cs. jsonReply showValue (ha_catalog net cs))) (\<lambda>payload.
              update (\<lambda>h. h\<lparr>fp_catalog := Some payload\<rparr>)))
           (fanPassFailed msg))
         (\<lambda>h. h\<lparr>fp_loadingCatalog := False\<rparr>))"

definition pushLog :: "flow_log \<Rightarrow> fan_page \<Rightarrow> fan_page" where
  "pushLog entry h = h\<lparr>fp_logs := take 8 (entry # fp_logs h)\<rparr>"

subsection \<open>Workflows\<close>

definition workflowBody :: "string \<Rightarrow> workflow_kind \<Rightarrow> string \<Rightarrow> jsval" where
  "workflowBody walletBase58 kind itemId =
     JObj [(''wallet'', JStr walletBase58), (''workflow_kind'', JStr (workflow_name kind)), (''item_id'', JStr itemId)]"

definition workflowStateOf :: "workflow_result \<Rightarrow> workflow_state" where
  "workflowStateOf result =
     (let quote = wr_quote result; rep = wg_reputation (wr_export_snapshot result) in
      \<lparr>ws_quoteDecision = qr_decision quote, ws_quoteTier = qr_tier quote, ws_finalPrice = qr_final_price_lamports quote,
       ws_reputationScore = rp_score rep, ws_trustTier = rp_trust_tier rep, ws_snapshotHash = rp_snapshot_hash_hex rep\<rparr>)"

fun logStatusOf :: "hub_decision \<Rightarrow> log_status" where
  "logStatusOf Allow = Log_success"
| "logStatusOf Step_up = Log_step_up"
| "logStatusOf Block = Log_blocked"

fun logDetailsOf :: "hub_decision \<Rightarrow> string \<Rightarrow> log_details" where
  "logDetailsOf Allow price = Executed_at price"
| "logDetailsOf Step_up price = Needs_proof"
| "logDetailsOf Block price = Blocked_by_policy"

definition workflowLog :: "workflow_kind \<Rightarrow> string \<Rightarrow> string \<Rightarrow> int \<Rightarrow> int \<Rightarrow> log_status \<Rightarrow> log_details \<Rightarrow> flow_log" where
  "workflowLog kind itemId title now1 now2 status details =
     \<lparr>fl_id = workflow_name kind @ '':'' @ itemId @ '':'' @ show_int now1, fl_title = title, fl_at = now2, fl_status = status,
      fl_details = details\<rparr>"

text \<open>\<open>now1\<close> and \<open>now2\<close> are the readings for the log entry; \<open>walletBase58\<close> is empty without a wallet.\<close>

definition runWorkflow ::
  "(js_error \<Rightarrow> string) \<Rightarrow> (jsval \<Rightarrow> string) \<Rightarrow> hub_answers \<Rightarrow> int \<Rightarrow> int \<Rightarrow> string \<Rightarrow> workflow_kind \<Rightarrow> string \<Rightarrow> string \<Rightarrow>
   (fan_page, unit) flow" where
  "runWorkflow msg showValue net now1 now2 walletBase58 kind itemId title =
     (if walletBase58 = [] then update (\<lambda>h. h\<lparr>fp_error := Some ''Connect wallet first''\<rparr>)
      else andThen (update (\<lambda>h. h\<lparr>fp_running := True, fp_error := None\<rparr>))
        (finishing
          (catching
            (let body = workflowBody walletBase58 kind itemId in
             bind (ask (Fetched ''/api/fan-pass/workflow/execute'' body) (\<lambda>cs. jsonReply showValue (ha_workflow net cs body))) (\<lambda>result.
             let decision = qr_decision (wr_quote result) in
             andThen (update (\<lambda>h. pushLog (workflowLog kind itemId title now1 now2 (logStatusOf decision)
                 (logDetailsOf decision (qr_final_price_lamports (wr_quote result)))) (h\<lparr>fp_workflowState := Some (workflowStateOf result)\<rparr>)))
               (loadCatalog msg showValue net)))
            (\<lambda>e. andThen (fanPassFailed msg e)
               (update (pushLog (workflowLog kind itemId title now1 now2 Log_error (Failed_as (messageOf msg e)))))))
          (\<lambda>h. h\<lparr>fp_running := False\<rparr>)))"

definition anchorLog :: "int \<Rightarrow> int \<Rightarrow> log_status \<Rightarrow> log_details \<Rightarrow> flow_log" where
  "anchorLog now1 now2 status details =
     \<lparr>fl_id = ''anchor:'' @ show_int now1, fl_title = ''Anchor Snapshot'', fl_at = now2, fl_status = status, fl_details = details\<rparr>"

definition runDailyAnchorNow ::
  "(js_error \<Rightarrow> string) \<Rightarrow> (jsval \<Rightarrow> string) \<Rightarrow> hub_answers \<Rightarrow> int \<Rightarrow> int \<Rightarrow> (fan_page, unit) flow" where
  "runDailyAnchorNow msg showValue net now1 now2 =
     andThen (update (\<lambda>h. h\<lparr>fp_running := True, fp_error := None\<rparr>))
       (finishing
         (catching
           (bind (ask (Fetched ''/api/graph/snapshots/anchor'' (JObj []))
               (\<lambda>cs. jsonReply showValue (ha_anchor net cs (JObj [])))) (\<lambda>receipt.
              update (\<lambda>h. pushLog (anchorLog now1 now2 Log_success (Anchored_as (take 18 (an_anchor_tx_signature receipt)) (an_mode receipt)))
                (h\<lparr>fp_latestAnchor := Some receipt\<rparr>))))
           (\<lambda>e. andThen (fanPassFailed msg e) (update (pushLog (anchorLog now1 now2 Log_error (Failed_as (messageOf msg e)))))))
         (\<lambda>h. h\<lparr>fp_running := False\<rparr>))"

subsection \<open>What the page does with an answer\<close>

text \<open>The answer of a route of the hub, as the page gets it.\<close>

definition routeReply :: "'a http \<Rightarrow> 'a reply" where
  "routeReply res = (case ht_body res of Inr x \<Rightarrow> Replied x | Inl e \<Rightarrow> Refused (ht_status res) (JObj [(''error'', JStr e)]))"

lemma loadCatalog_fields:
  obtains cs' h' where "loadCatalog msg showValue net cs h = (cs', h', Inr ())" "fp_logs h' = fp_logs h"
    "fp_workflowState h' = fp_workflowState h" "fp_running h' = fp_running h"
proof -
  have "\<exists>cs' h'. loadCatalog msg showValue net cs h = (cs', h', Inr ()) \<and> fp_logs h' = fp_logs h
      \<and> fp_workflowState h' = fp_workflowState h \<and> fp_running h' = fp_running h"
    by (simp add: loadCatalog_def fanPassFailed_def flow_simps split: sum.split)
  then show thesis using that by blast
qed

lemma runWorkflow_log:
  assumes "runWorkflow msg showValue net now1 now2 walletBase58 kind itemId title cs h = (cs', h', r)" "walletBase58 \<noteq> []"
  obtains (answered) result where "ha_workflow net cs (workflowBody walletBase58 kind itemId) = Replied result" "r = Inr ()"
      "fp_logs h' = take 8 (workflowLog kind itemId title now1 now2 (logStatusOf (qr_decision (wr_quote result)))
         (logDetailsOf (qr_decision (wr_quote result)) (qr_final_price_lamports (wr_quote result))) # fp_logs h)"
      "fp_workflowState h' = Some (workflowStateOf result)" "\<not> fp_running h'"
    | (failed) e where "jsonReply showValue (ha_workflow net cs (workflowBody walletBase58 kind itemId)) = Inl e" "r = Inr ()"
      "fp_logs h' = take 8 (workflowLog kind itemId title now1 now2 Log_error (Failed_as (messageOf msg e)) # fp_logs h)"
      "fp_workflowState h' = fp_workflowState h" "\<not> fp_running h'"
proof (cases "jsonReply showValue (ha_workflow net cs (workflowBody walletBase58 kind itemId))")
  case (Inl e)
  then show thesis using failed[OF Inl] assms
    by (auto simp: runWorkflow_def fanPassFailed_def pushLog_def flow_simps Let_def)
next
  case (Inr result)
  let ?h = "pushLog (workflowLog kind itemId title now1 now2 (logStatusOf (qr_decision (wr_quote result)))
      (logDetailsOf (qr_decision (wr_quote result)) (qr_final_price_lamports (wr_quote result))))
      (h\<lparr>fp_running := True, fp_error := None, fp_workflowState := Some (workflowStateOf result)\<rparr>)"
  have a: "ha_workflow net cs (workflowBody walletBase58 kind itemId) = Replied result"
    using Inr by (cases "ha_workflow net cs (workflowBody walletBase58 kind itemId)")
      (auto simp: jsonReply_def js_simps)
  obtain c h2 where l: "loadCatalog msg showValue net (cs @ [Fetched ''/api/fan-pass/workflow/execute'' (workflowBody walletBase58 kind itemId)]) ?h
      = (c, h2, Inr ())" "fp_logs h2 = fp_logs ?h" "fp_workflowState h2 = fp_workflowState ?h"
    by (rule loadCatalog_fields) blast
  show thesis using answered[OF a] assms Inr l
    by (auto simp: runWorkflow_def pushLog_def flow_simps Let_def)
qed

subsection \<open>The page and the hub\<close>

lemma workflow_body_parsed:
  assumes "key walletBase58 = Some wallet" "trim walletBase58 = walletBase58" "walletBase58 \<noteq> []" "trim itemId = itemId" "itemId \<noteq> []"
  shows "parseExecuteFanPassWorkflowBody key (workflowBody walletBase58 kind itemId)
     = Inr \<lparr>wi_wallet = wallet, wi_workflow_kind = kind, wi_item_id = itemId, wi_proofs = None\<rparr>"
proof -
  have t: "trim s = s \<Longrightarrow> s \<noteq> [] \<Longrightarrow> asString (JStr s) f = Inr s" for s f by (simp add: asString_def)
  have k: "asString (JStr (workflow_name kind)) f = Inr (workflow_name kind)" for f
    by (rule t; cases kind) (simp_all, code_simp+)
  have o: "oneOf workflow_name FAN_PASS_WORKFLOW_KINDS f (workflow_name kind) = Inr kind" for f
    by (cases kind) (simp_all add: oneOf_def FAN_PASS_WORKFLOW_KINDS_def)
  show ?thesis using assms k o t
    by (simp add: parseExecuteFanPassWorkflowBody_def workflowBody_def asObject_def js_prop_opt_def parseWallet_def
        parseProofs_def mapItems_def nullish_def)
qed

lemma route_replies:
  assumes "ha_workflow net cs body = routeReply (snd (postWorkflow msg h sv clock key (Some body) st))"
    and "parseExecuteFanPassWorkflowBody key body = Inr inp" "ha_workflow net cs body = Replied w"
  shows "executeFanPassWorkflow h sv clock inp st = (fst (postWorkflow msg h sv clock key (Some body) st), Inr w)"
  using assms
  by (auto simp: postWorkflow_def readJson_def routeReply_def ok_response_def error_response_def Let_def split: prod.splits sum.splits)

lemma execute_quote:
  assumes "executeFanPassWorkflow h sv clock inp st = (st', Inr w)"
  obtains amount st1 where "quoteHubDecision h sv (wc_quote clock) (quoteRequest inp amount) st = (st1, Inr (wr_quote w))"
proof -
  obtain amount st1 q where q: "quoteHubDecision h sv (wc_quote clock) (quoteRequest inp amount) st = (st1, Inr q)"
      "snd (recordWorkflow h clock inp q (sv_hub st1)) = Inr w"
    using assms by (auto simp: executeFanPassWorkflow_def Let_def split: sum.splits prod.splits)
  have "wr_quote w = q"
    using q(2) by (auto simp: recordWorkflow_def Let_def split: prod.splits if_splits sum.splits)
  then show thesis using that q(1) by blast
qed

text \<open>A workflow that fails leaves the graph alone, and so does the route then.\<close>

lemma execute_failed:
  assumes "executeFanPassWorkflow h sv clock inp st = (st', Inl e)"
  shows "getState h (sv_hub st') = getState h (sv_hub st)"
proof (cases "rbind (ensureValidWorkflowItem inp) (\<lambda>_. amountLamportsForWorkflow inp)")
  case (Inl e')
  then show ?thesis using assms by (simp add: executeFanPassWorkflow_def)
next
  case (Inr amount)
  obtain st1 r where q: "quoteHubDecision h sv (wc_quote clock) (quoteRequest inp amount) st = (st1, r)" by fastforce
  have g: "getState h (sv_hub st1) = getState h (sv_hub st)"
    using quote_graph[of h sv "wc_quote clock" "quoteRequest inp amount" st] by (simp add: q)
  obtain rel where rel: "relationUpdateForWorkflow inp = Inr rel"
    using Inr valid_item_relation by (cases "ensureValidWorkflowItem inp") (auto simp: js_simps)
  have "\<exists>w. snd (recordWorkflow h clock inp quote hs) = Inr w" for quote hs
    by (auto simp: recordWorkflow_def rel Let_def split: prod.split)
  then show ?thesis using assms Inr q g
    by (cases r) (auto simp: executeFanPassWorkflow_def Let_def split: prod.splits, metis snd_conv sum.distinct(1))
qed

lemma route_fails:
  assumes "(st', res) = postWorkflow msg h sv clock key (Some body) st"
    and "parseExecuteFanPassWorkflowBody key body = Inr inp" "\<And>w. ht_body res \<noteq> Inr w"
  shows "getState h (sv_hub st') = getState h (sv_hub st)"
proof -
  obtain st1 r where x: "executeFanPassWorkflow h sv clock inp st = (st1, r)" by fastforce
  obtain e where "r = Inl e" "st' = st1"
    using assms x by (cases r) (auto simp: postWorkflow_def readJson_def ok_response_def Let_def)
  with x show ?thesis using execute_failed by blast
qed

text \<open>A workflow that is not allowed notes its quote and does nothing else.\<close>

lemma execute_stopped:
  assumes "executeFanPassWorkflow h sv clock inp st = (st', Inr w)" "qr_decision (wr_quote w) \<noteq> Allow"
  obtains e where "\<not> wr_executed w" "ge_event_type e = Ev_quote"
    "hg_events (getState h (sv_hub st')) = map_set (wc_quote_id clock) e (hg_events (getState h (sv_hub st)))"
    "hg_relations (getState h (sv_hub st')) = hg_relations (getState h (sv_hub st))"
  using assms(1)
proof (rule execute_recorded)
  fix quote hs1
  assume rec: "recordWorkflow h clock inp quote hs1 = (sv_hub st', Inr w)" "wr_quote w = quote" "getState h hs1 = getState h (sv_hub st)"
  from rec(1) show thesis
  proof (cases rule: recordWorkflow_effect)
    case (stopped e)
    then show thesis using that rec(3) by simp
  qed (use rec(2) assms(2) in simp)
qed

text \<open>Without proofs no fresh quote allows a sensitive action.\<close>

lemma no_proofs_no_sensitive:
  assumes "quoteHubDecision h sv clock inp st = (st', Inr q)" "map_get (sv_cache st) (quote_key h clock inp st) = None"
    and "actionNeedsStepUp (hq_action_type inp)" "hq_proofs inp = None"
  shows "qr_decision q \<noteq> Allow"
proof
  assume "qr_decision q = Allow"
  from quote_fresh(1)[OF assms(1,2)] this have "quoteMode inp (reputation_at h clock inp st) = Verified"
    by (rule allowed_issued) (use assms(3) in simp)
  then show False using assms(4) by (simp add: quoteMode_Verified hasProofs_def)
qed

subsection \<open>Properties\<close>


definition sample_fan_page :: fan_page where
  "sample_fan_page = \<lparr>fp_catalog = None, fp_loadingCatalog = False, fp_running = False, fp_error = None, fp_workflowState = None,
     fp_latestAnchor = None, fp_logs = []\<rparr>"

abbreviation samplePost :: "jsval \<Rightarrow> (nat, replay_store) hub_services \<times> workflow_result http" where
  "samplePost body \<equiv> postWorkflow (\<lambda>_. []) sample_host (sample_services 1000000) sample_workflow_clock Some (Some body) sample_services_state"

definition sample_answers :: hub_answers where
  "sample_answers = \<lparr>ha_catalog = (\<lambda>_. No_answer TypeError), ha_workflow = (\<lambda>cs body. routeReply (snd (samplePost body))),
     ha_anchor = (\<lambda>_ _. No_answer TypeError)\<rparr>"

abbreviation sampleClick :: "workflow_kind \<Rightarrow> string \<Rightarrow> call list \<times> fan_page \<times> unit result" where
  "sampleClick kind itemId \<equiv> runWorkflow (\<lambda>_. []) (\<lambda>_. []) sample_answers 1 2 ''W1'' kind itemId ''t'' [] sample_fan_page"

lemma sample_purchase:
  "case snd (executeFanPassWorkflow sample_host (sample_services 1000000) sample_workflow_clock
      (sample_workflow Purchase_release ''release:flame-rises-genesis-pass'' None) sample_services_state) of
     Inr w \<Rightarrow> qr_decision (wr_quote w) = Allow | Inl _ \<Rightarrow> False"
  by code_simp

lemma sample_ids: "trim ''W1'' = ''W1''" "trim ''release:flame-rises-genesis-pass'' = ''release:flame-rises-genesis-pass''"
  "trim ''membership:core'' = ''membership:core''"
  by code_simp+


text \<open>
  C26. Memberships are out of reach: the page never sends a proof and the hub allows an upgrade only with one, so whatever the
  reputation of the wallet, a click on an upgrade whose quote is not from the cache ends with a log entry that is not a
  success, the hub has executed nothing, none of its relations has changed, and its only new event, if any, is the quote.
\<close>

theorem memberships_are_out_of_reach:
  assumes "runWorkflow msg showValue net now1 now2 walletBase58 Upgrade_membership itemId title cs p = (cs', p', r)"
    and "key walletBase58 = Some wallet" "trim walletBase58 = walletBase58" "walletBase58 \<noteq> []" "trim itemId = itemId" "itemId \<noteq> []"
    and "inp = \<lparr>wi_wallet = wallet, wi_workflow_kind = Upgrade_membership, wi_item_id = itemId, wi_proofs = None\<rparr>"
    and "\<forall>amount. map_get (sv_cache st) (quote_key h (wc_quote clock) (quoteRequest inp amount) st) = None"
    and "(st', res) = postWorkflow msg h sv clock key (Some (workflowBody walletBase58 Upgrade_membership itemId)) st"
    and "ha_workflow net cs (workflowBody walletBase58 Upgrade_membership itemId) = routeReply res"
    and "before = getState h (sv_hub st)" "after = getState h (sv_hub st')"
  shows "(\<exists>entry. fp_logs p' = take 8 (entry # fp_logs p) \<and> fl_status entry \<noteq> Log_success)
     \<and> (\<forall>w. ht_body res = Inr w \<longrightarrow> \<not> wr_executed w)
     \<and> hg_relations after = hg_relations before
     \<and> (hg_events after = hg_events before
        \<or> (\<exists>e. ge_event_type e = Ev_quote \<and> hg_events after = map_set (wc_quote_id clock) e (hg_events before)))"
  using assms(1,4)
proof (cases rule: runWorkflow_log)
  case (answered w)
  have st': "st' = fst (postWorkflow msg h sv clock key (Some (workflowBody walletBase58 Upgrade_membership itemId)) st)"
      "res = snd (postWorkflow msg h sv clock key (Some (workflowBody walletBase58 Upgrade_membership itemId)) st)"
    using assms(9) by (metis fst_conv, metis snd_conv)
  have body: "ht_body res = Inr w" using answered(1) assms(10) by (auto simp: routeReply_def split: sum.splits)
  have x: "executeFanPassWorkflow h sv clock inp st = (st', Inr w)"
    unfolding assms(7) st'
    by (rule route_replies[OF assms(10)[unfolded st'] workflow_body_parsed[where key=key and ?walletBase58.0=walletBase58, OF assms(2-6)] answered(1)])
  then have d: "qr_decision (wr_quote w) \<noteq> Allow"
  proof (rule execute_quote)
    fix amount st1
    assume q: "quoteHubDecision h sv (wc_quote clock) (quoteRequest inp amount) st = (st1, Inr (wr_quote w))"
    show ?thesis
      by (rule no_proofs_no_sensitive[OF q]) (use assms(7,8) in \<open>simp_all add: quoteRequest_def actionNeedsStepUp_def\<close>)
  qed
  then have "logStatusOf (qr_decision (wr_quote w)) \<noteq> Log_success" by (cases "qr_decision (wr_quote w)") simp_all
  then have entry: "\<exists>entry. fp_logs p' = take 8 (entry # fp_logs p) \<and> fl_status entry \<noteq> Log_success"
    using answered(3) by (auto simp: workflowLog_def)
  from x d show ?thesis
  proof (rule execute_stopped)
    fix e
    assume e: "\<not> wr_executed w" "ge_event_type e = Ev_quote"
      "hg_events (getState h (sv_hub st')) = map_set (wc_quote_id clock) e (hg_events (getState h (sv_hub st)))"
      "hg_relations (getState h (sv_hub st')) = hg_relations (getState h (sv_hub st))"
    show ?thesis
      unfolding assms(11,12) using entry body e by (intro conjI disjI2 exI[of _ e]) simp_all
  qed
next
  case (failed e)
  have res: "ht_body res \<noteq> Inr w" for w
    using failed(1) assms(10) by (auto simp: routeReply_def jsonReply_def)
  have "after = before" unfolding assms(11,12)
    by (rule route_fails[OF assms(9) workflow_body_parsed[where key=key and ?walletBase58.0=walletBase58, OF assms(2-6)] res])
  then show ?thesis using failed res by (auto simp: workflowLog_def)
qed

theorem memberships_are_out_of_reach_witness:
  "\<exists>entry. fp_logs (fst (snd (sampleClick Upgrade_membership ''membership:core''))) = [entry] \<and> fl_status entry \<noteq> Log_success
     \<and> hg_relations (getState sample_host (sv_hub (fst (samplePost (workflowBody ''W1'' Upgrade_membership ''membership:core'')))))
       = hg_relations (getState sample_host (sv_hub sample_services_state))"
proof -
  let ?c = "sampleClick Upgrade_membership ''membership:core''"
  have run: "?c = (fst ?c, fst (snd ?c), snd (snd ?c))" by simp
  have fresh: "\<forall>amount. map_get (sv_cache sample_services_state) (quote_key sample_host (wc_quote sample_workflow_clock)
      (quoteRequest \<lparr>wi_wallet = ''W1'', wi_workflow_kind = Upgrade_membership, wi_item_id = ''membership:core'', wi_proofs = None\<rparr> amount)
      sample_services_state) = None" by (simp add: sample_services_state_def)
  have reply: "ha_workflow sample_answers [] (workflowBody ''W1'' Upgrade_membership ''membership:core'')
      = routeReply (snd (samplePost (workflowBody ''W1'' Upgrade_membership ''membership:core'')))" by (simp add: sample_answers_def)
  from memberships_are_out_of_reach[OF run, of Some "''W1''", OF _ _ _ _ _ refl fresh prod.collapse reply refl refl]
  show ?thesis by (auto simp: sample_ids sample_fan_page_def)
qed

end
