(* ===== verification/Lab_Runners.thy ===== *)
theory Lab_Runners
  imports Wallet_Flow Api_Lab
begin

section \<open>The runners of the lab (app/lab/components/)\<close>

text \<open>
  NarrativeQuizRunner.tsx and PressureRunner.tsx: what the page measures, the telemetry it makes of it, and what it
  posts. A component keeps two kinds of state: refs, which a handler reads as they are, and the state of the render a
  handler was made in (\<open>rendered\<close>). Window measures are doubles, times are milliseconds; \<open>Math.log2\<close> and the answers of
  \<open>fetch\<close> are parameters. The texts for the player and the marks in \<open>localStorage\<close> are left out.
\<close>

subsection \<open>Posting\<close>

text \<open>\<open>showValue\<close> is \<open>String(v)\<close> of a value that is no text.\<close>

definition postReply :: "(jsval \<Rightarrow> string) \<Rightarrow> jsval reply \<Rightarrow> jsval result" where
  "postReply showValue reply =
     (case reply of
        No_answer e \<Rightarrow> Inl e
      | Not_json status raw \<Rightarrow> Inl SyntaxError
      | Refused status body \<Rightarrow>
          (case js_prop_opt body ''error'' of
             JStr s \<Rightarrow> Inl (Thrown s)
           | v \<Rightarrow> Inl (Thrown (if nullish v then ''request failed'' else showValue v)))
      | Replied body \<Rightarrow> Inr body)"

type_synonym fetch = "call list \<Rightarrow> string \<Rightarrow> jsval \<Rightarrow> jsval reply"

definition postJson :: "(jsval \<Rightarrow> string) \<Rightarrow> fetch \<Rightarrow> string \<Rightarrow> jsval \<Rightarrow> ('h, jsval) flow" where
  "postJson showValue fetch url body = ask (Fetched url body) (\<lambda>cs. postReply showValue (fetch cs url body))"

text \<open>\<open>String(res.session.session_id)\<close>\<close>

definition sessionIdOf :: "(jsval \<Rightarrow> string) \<Rightarrow> jsval \<Rightarrow> string result" where
  "sessionIdOf showValue res =
     rbind (js_prop res ''session'') (\<lambda>session. rbind (js_prop session ''session_id'') (\<lambda>v.
       Inr (case v of JStr s \<Rightarrow> s | _ \<Rightarrow> showValue v)))"

definition startBody :: "lab_entry_type \<Rightarrow> string \<Rightarrow> lab_consent_mode \<Rightarrow> jsval" where
  "startBody entryType entryId mode =
     JObj [(''entry_type'', JStr (entry_type_name entryType)), (''entry_id'', JStr entryId), (''consent_mode'', JStr (consent_name mode))]"

definition ingestBody :: "string \<Rightarrow> jsval \<Rightarrow> jsval" where
  "ingestBody sessionId telemetry = JObj [(''session_id'', JStr sessionId), (''telemetry_summary'', telemetry)]"

definition submitBody :: "string \<Rightarrow> lab_entry_type \<Rightarrow> string \<Rightarrow> jsval \<Rightarrow> jsval \<Rightarrow> jsval" where
  "submitBody sessionId entryType entryId answer telemetry =
     JObj [(''session_id'', JStr sessionId), (''entry_type'', JStr (entry_type_name entryType)), (''entry_id'', JStr entryId),
       (''answer'', answer), (''telemetry_summary'', telemetry)]"

text \<open>\<open>JSON.stringify\<close> leaves out a field that is undefined.\<close>

definition present :: "string \<Rightarrow> jsval option \<Rightarrow> (string \<times> jsval) list" where
  "present k v = (case v of None \<Rightarrow> [] | Some x \<Rightarrow> [(k, x)])"

abbreviation jint :: "int \<Rightarrow> jsval" where
  "jint n \<equiv> JNum (Fin (of_int n))"

text \<open>A ref that holds a time: null and 0 are false.\<close>

definition set_time :: "int option \<Rightarrow> int option" where
  "set_time t = (if t = Some 0 then None else t)"

datatype runner_error = Not_started | Nothing_selected | Failed_with string

subsection \<open>Reading and answering (NarrativeQuizRunner.tsx)\<close>

definition entropy_bin :: "rat \<Rightarrow> nat" where
  "entropy_bin v = (let a = \<bar>v\<bar> in
     if a < fl (1 / 100) then 0 else if a < fl (3 / 100) then 1 else if a < fl (8 / 100) then 2 else if a < fl (15 / 100) then 3 else 4)"

definition entropy_bins :: "rat list \<Rightarrow> nat list" where
  "entropy_bins samples = foldl (\<lambda>bins v. bins[entropy_bin v := bins ! entropy_bin v + 1]) [0, 0, 0, 0, 0] samples"

text \<open>\<open>Number(x.toFixed(3))\<close> for a number below \<open>10^21\<close>\<close>

definition toFixed3 :: "rat \<Rightarrow> rat" where
  "toFixed3 x = (if x < 0 then - fl (of_int \<lfloor>- x * 1000 + 1 / 2\<rfloor> / 1000) else fl (of_int \<lfloor>x * 1000 + 1 / 2\<rfloor> / 1000))"

definition computeEntropy :: "(rat \<Rightarrow> rat) \<Rightarrow> rat list \<Rightarrow> rat" where
  "computeEntropy log2 samples =
     (if length samples < 2 then 0
      else toFixed3 (foldl (\<lambda>entropy n. if n = 0 then entropy
        else let p = fl (of_nat n / of_nat (length samples)) in fl (entropy - fl (p * log2 p))) 0 (entropy_bins samples)))"

record narrative =
  nr_mode :: lab_consent_mode
  nr_sessionId :: "string option"
  nr_selectedOptionId :: "rat option"
  nr_busy :: bool
  nr_error :: "runner_error option"
  nr_result :: "jsval option"
  nr_startAt :: "int option"
  nr_firstQuizInteractionAt :: "int option"
  nr_focusBlurCount :: int
  nr_maxProgress :: rat
  nr_lastScrollY :: rat
  nr_scrollDeltaSamples :: "rat list"

definition narrative_start :: narrative where
  "narrative_start = \<lparr>nr_mode = Diegetic_opt_in, nr_sessionId = None, nr_selectedOptionId = None, nr_busy = False, nr_error = None,
     nr_result = None, nr_startAt = None, nr_firstQuizInteractionAt = None, nr_focusBlurCount = 0, nr_maxProgress = 0,
     nr_lastScrollY = 0, nr_scrollDeltaSamples = []\<rparr>"

definition onBlur :: "narrative \<Rightarrow> narrative" where
  "onBlur h = h\<lparr>nr_focusBlurCount := nr_focusBlurCount h + 1\<rparr>"

definition onScroll :: "rat \<Rightarrow> rat \<Rightarrow> rat \<Rightarrow> narrative \<Rightarrow> narrative" where
  "onScroll scrollY scrollHeight innerHeight h =
     (let scrollable = max 1 (fl (scrollHeight - innerHeight));
          ratio = max 0 (min 1 (fl (scrollY / scrollable)));
          delta = fl (scrollY - nr_lastScrollY h);
          arr = nr_scrollDeltaSamples h @ [fl (delta / max 1 innerHeight)] in
      h\<lparr>nr_maxProgress := max (nr_maxProgress h) ratio, nr_lastScrollY := scrollY,
        nr_scrollDeltaSamples := (if 120 < length arr then tl arr else arr)\<rparr>)"

definition onSelect :: "int \<Rightarrow> rat \<Rightarrow> narrative \<Rightarrow> narrative" where
  "onSelect now chosen h =
     h\<lparr>nr_firstQuizInteractionAt := (case set_time (nr_firstQuizInteractionAt h) of None \<Rightarrow> Some now | Some t \<Rightarrow> Some t),
       nr_selectedOptionId := Some chosen\<rparr>"

definition onToggleMode :: "narrative \<Rightarrow> narrative" where
  "onToggleMode h = h\<lparr>nr_mode := (if nr_mode h = Diegetic_opt_in then Summary_only else Diegetic_opt_in)\<rparr>"

text \<open>The part of \<open>start\<close> after the answer.\<close>

definition started :: "string \<Rightarrow> int \<Rightarrow> rat \<Rightarrow> narrative \<Rightarrow> narrative" where
  "started sessionId now scrollY h =
     h\<lparr>nr_sessionId := Some sessionId, nr_result := None, nr_selectedOptionId := None, nr_startAt := Some now,
       nr_firstQuizInteractionAt := None, nr_focusBlurCount := 0, nr_maxProgress := 0, nr_scrollDeltaSamples := [],
       nr_lastScrollY := scrollY\<rparr>"

definition narrativeFailed :: "(js_error \<Rightarrow> string) \<Rightarrow> js_error \<Rightarrow> (narrative, unit) flow" where
  "narrativeFailed text e = update (\<lambda>h. h\<lparr>nr_error := Some (Failed_with (messageOf text e))\<rparr>)"

definition start ::
  "(js_error \<Rightarrow> string) \<Rightarrow> (jsval \<Rightarrow> string) \<Rightarrow> fetch \<Rightarrow> int \<Rightarrow> rat \<Rightarrow> lab_entry_type \<Rightarrow> string \<Rightarrow> narrative \<Rightarrow> (narrative, unit) flow" where
  "start text showValue fetch now scrollY entryType entryId rendered =
     andThen (update (\<lambda>h. h\<lparr>nr_busy := True, nr_error := None\<rparr>))
       (finishing
         (catching
           (bind (postJson showValue fetch ''/api/lab/session/start'' (startBody entryType entryId (nr_mode rendered))) (\<lambda>res.
            bind (lift (sessionIdOf showValue res)) (\<lambda>sessionId. update (started sessionId now scrollY))))
           (narrativeFailed text))
         (\<lambda>h. h\<lparr>nr_busy := False\<rparr>))"

text \<open>The refs are those of the moment, the session, the choice and the mode those of the render.\<close>

definition buildTelemetry ::
  "(rat \<Rightarrow> rat) \<Rightarrow> int \<Rightarrow> lab_entry_type \<Rightarrow> string \<Rightarrow> narrative \<Rightarrow> narrative \<Rightarrow> jsval" where
  "buildTelemetry log2 now entryType entryId rendered h =
     (let reading = (case set_time (nr_startAt h) of Some t \<Rightarrow> max 0 (now - t) | None \<Rightarrow> 0);
          inputLatency = map_option (\<lambda>t. max 0 (now - t)) (set_time (nr_firstQuizInteractionAt h)) in
      JObj ([(''schema_version'', jint 1), (''scenario_type'', JStr ''narrative''),
         (''session_id'', JStr (opt_or (nr_sessionId rendered) ''pending'')), (''reading_time_ms'', jint reading),
         (''progress_ratio'', JNum (Fin (nr_maxProgress h))),
         (''scroll_entropy'', JNum (Fin (computeEntropy log2 (nr_scrollDeltaSamples h)))),
         (''focus_blur_count'', jint (nr_focusBlurCount h))]
       @ present ''input_latency_ms'' (map_option jint inputLatency)
       @ present ''quiz_answer_id'' (map_option (JNum \<circ> Fin) (nr_selectedOptionId rendered))
       @ [(''consent_mode'', JStr (consent_name (nr_mode rendered))), (''client_ts'', jint now)]
       @ (if entryType = Story then [(''story_id'', JStr entryId)] else [])
       @ (if entryType = Case_file then [(''case_id'', JStr entryId)] else [])))"

definition submitAnswer ::
  "(js_error \<Rightarrow> string) \<Rightarrow> (jsval \<Rightarrow> string) \<Rightarrow> fetch \<Rightarrow> (rat \<Rightarrow> rat) \<Rightarrow> int \<Rightarrow> lab_entry_type \<Rightarrow> string \<Rightarrow> narrative \<Rightarrow>
   (narrative, unit) flow" where
  "submitAnswer text showValue fetch log2 now entryType entryId rendered cs h =
     (case (nr_sessionId rendered, nr_selectedOptionId rendered) of
        (Some sessionId, selected) \<Rightarrow>
          if sessionId = [] then update (\<lambda>h. h\<lparr>nr_error := Some Not_started\<rparr>) cs h
          else if selected = None \<or> selected = Some 0 then update (\<lambda>h. h\<lparr>nr_error := Some Nothing_selected\<rparr>) cs h
          else
            (let telemetry = buildTelemetry log2 now entryType entryId rendered h;
                 answer = JObj [(''option_id'', JNum (Fin (the selected)))] in
             andThen (update (\<lambda>h. h\<lparr>nr_busy := True, nr_error := None\<rparr>))
               (finishing
                 (catching
                   (bind (postJson showValue fetch ''/api/lab/telemetry/ingest'' (ingestBody sessionId telemetry)) (\<lambda>_.
                    bind (postJson showValue fetch ''/api/lab/challenge/submit'' (submitBody sessionId entryType entryId answer telemetry))
                      (\<lambda>response. update (\<lambda>h. h\<lparr>nr_result := Some response\<rparr>))))
                   (narrativeFailed text))
                 (\<lambda>h. h\<lparr>nr_busy := False\<rparr>)) cs h)
      | (None, _) \<Rightarrow> update (\<lambda>h. h\<lparr>nr_error := Some Not_started\<rparr>) cs h)"

definition nextRoute :: "lab_entry_type \<Rightarrow> string" where
  "nextRoute entryType =
     (case entryType of
        Story \<Rightarrow> ''/lab/case/case-midnight-signal''
      | Case_file \<Rightarrow> ''/lab/daily/2026-02-26-first-anomaly''
      | _ \<Rightarrow> ''/lab/pressure/evt-20260301-final-gate'')"

text \<open>\<open>padStart(2, '0')\<close>\<close>

definition pad2 :: "int \<Rightarrow> string" where
  "pad2 n = (let s = show_int n in replicate (2 - length s) (CHR ''0'') @ s)"

definition formatDuration :: "int \<Rightarrow> string" where
  "formatDuration ms = (let sec = ms div 1000 in pad2 (sec div 60) @ '':'' @ pad2 (sec mod 60))"

subsection \<open>Waiting and clicking (PressureRunner.tsx)\<close>

datatype queue_state = Queue_idle | Queue_waiting | Queue_done

record pressure =
  pr_sessionId :: "string option"
  pr_busy :: bool
  pr_error :: "runner_error option"
  pr_retryCount :: int
  pr_result :: "jsval option"
  pr_queueState :: queue_state
  pr_queueWaitMs :: int
  pr_unlockAt :: "int option"
  pr_focusBlurCount :: int
  pr_finalClickDelta :: "int option"
  pr_sessionStartedAt :: "int option"

text \<open>The numbers of the event that the page uses.\<close>

record pressure_event =
  pv_id :: string
  pv_countdown_ms :: int
  pv_queue_window_ms :: rat

definition getPhase :: "string option \<Rightarrow> int \<Rightarrow> queue_state \<Rightarrow> jsval option \<Rightarrow> string" where
  "getPhase sessionId countdownRemaining queueState result =
     (if opt_or sessionId [] = [] then ''Briefing''
      else if result \<noteq> None then ''Report''
      else if queueState = Queue_waiting then ''Queue''
      else if 0 < countdownRemaining then ''Countdown''
      else ''Window Open'')"

definition countdownRemaining :: "pressure_event \<Rightarrow> int \<Rightarrow> pressure \<Rightarrow> int" where
  "countdownRemaining event now h =
     (case set_time (pr_unlockAt h) of Some t \<Rightarrow> max 0 (t - now) | None \<Rightarrow> pv_countdown_ms event)"

definition pressureBlur :: "pressure \<Rightarrow> pressure" where
  "pressureBlur h = h\<lparr>pr_focusBlurCount := pr_focusBlurCount h + 1\<rparr>"

text \<open>The part of \<open>startPressureSession\<close> after the answer, with its two readings of the clock.\<close>

definition pressureStarted :: "pressure_event \<Rightarrow> string \<Rightarrow> int \<Rightarrow> int \<Rightarrow> pressure \<Rightarrow> pressure" where
  "pressureStarted event sid now1 now2 h =
     h\<lparr>pr_sessionId := Some sid, pr_sessionStartedAt := Some now1, pr_unlockAt := Some (now2 + pv_countdown_ms event),
       pr_finalClickDelta := None, pr_focusBlurCount := 0, pr_retryCount := 0, pr_queueState := Queue_idle,
       pr_queueWaitMs := 0, pr_result := None\<rparr>"

definition pressureFailed :: "(js_error \<Rightarrow> string) \<Rightarrow> js_error \<Rightarrow> pressure \<Rightarrow> pressure" where
  "pressureFailed text e h = h\<lparr>pr_error := Some (Failed_with (messageOf text e))\<rparr>"

definition startPressureSession ::
  "(js_error \<Rightarrow> string) \<Rightarrow> (jsval \<Rightarrow> string) \<Rightarrow> fetch \<Rightarrow> pressure_event \<Rightarrow> int \<Rightarrow> int \<Rightarrow> (pressure, unit) flow" where
  "startPressureSession text showValue fetch event now1 now2 =
     andThen (update (\<lambda>h. h\<lparr>pr_busy := True, pr_error := None\<rparr>))
       (finishing
         (catching
           (bind (postJson showValue fetch ''/api/lab/session/start'' (startBody Pressure_event (pv_id event) Diegetic_opt_in)) (\<lambda>res.
            bind (lift (sessionIdOf showValue res)) (\<lambda>sid. update (pressureStarted event sid now1 now2))))
           (\<lambda>e. update (pressureFailed text e)))
         (\<lambda>h. h\<lparr>pr_busy := False\<rparr>))"

definition simulatedQueue :: "pressure_event \<Rightarrow> rat \<Rightarrow> int" where
  "simulatedQueue event random = max 200 (min 9000 (js_round (fl (260 + fl (random * pv_queue_window_ms event)))))"

datatype attempt_outcome = Not_attempted | Too_early | Queued int

text \<open>\<open>handleAttempt\<close> up to the pause in the queue.\<close>

definition attemptBegin :: "pressure_event \<Rightarrow> int \<Rightarrow> rat \<Rightarrow> pressure \<Rightarrow> pressure \<Rightarrow> pressure \<times> attempt_outcome" where
  "attemptBegin event now random rendered h =
     (case set_time (pr_unlockAt h) of
        None \<Rightarrow> (h\<lparr>pr_error := Some Not_started\<rparr>, Not_attempted)
      | Some unlockAt \<Rightarrow>
          if opt_or (pr_sessionId rendered) [] = [] then (h\<lparr>pr_error := Some Not_started\<rparr>, Not_attempted)
          else if pr_busy rendered then (h, Not_attempted)
          else if now - unlockAt < 0 then (h\<lparr>pr_retryCount := pr_retryCount h + 1\<rparr>, Too_early)
          else
            (let wait = simulatedQueue event random in
             (h\<lparr>pr_busy := True, pr_error := None, pr_finalClickDelta := Some (now - unlockAt),
                pr_queueState := Queue_waiting, pr_queueWaitMs := wait\<rparr>, Queued wait)))"

text \<open>The telemetry after the pause, with its readings of the clock; the state is that of the render of the click.\<close>

definition pressureTelemetry :: "pressure_event \<Rightarrow> int \<Rightarrow> int \<Rightarrow> int \<Rightarrow> pressure \<Rightarrow> pressure \<Rightarrow> jsval" where
  "pressureTelemetry event now1 now2 now3 rendered h =
     (let clickDelta = (case pr_finalClickDelta h of
            Some d \<Rightarrow> Some d | None \<Rightarrow> map_option (\<lambda>t. now1 - t) (set_time (pr_unlockAt h)));
          inputLatency = map_option (\<lambda>t. max 0 (now2 - t)) (set_time (pr_sessionStartedAt h)) in
      JObj ([(''schema_version'', jint 1), (''scenario_type'', JStr ''pressure_sim''),
         (''session_id'', JStr (opt_or (pr_sessionId rendered) ''pending'')), (''event_id'', JStr (pv_id event)),
         (''retry_count'', jint (pr_retryCount rendered)), (''queue_wait_ms'', jint (pr_queueWaitMs rendered))]
       @ present ''countdown_to_click_ms'' (map_option jint clickDelta)
       @ [(''focus_blur_count'', jint (pr_focusBlurCount h))]
       @ present ''input_latency_ms'' (map_option jint inputLatency)
       @ [(''consent_mode'', JStr ''diegetic_opt_in''), (''client_ts'', jint now3)]))"

definition attemptSend ::
  "(js_error \<Rightarrow> string) \<Rightarrow> (jsval \<Rightarrow> string) \<Rightarrow> fetch \<Rightarrow> pressure_event \<Rightarrow> int \<Rightarrow> int \<Rightarrow> int \<Rightarrow> pressure \<Rightarrow> (pressure, unit) flow" where
  "attemptSend text showValue fetch event now1 now2 now3 rendered cs h =
     (let sessionId = opt_or (pr_sessionId rendered) [];
          telemetry = pressureTelemetry event now1 now2 now3 rendered h in
      finishing
        (catching
          (bind (postJson showValue fetch ''/api/lab/telemetry/ingest'' (ingestBody sessionId telemetry)) (\<lambda>_.
           bind (postJson showValue fetch ''/api/lab/challenge/submit''
             (submitBody sessionId Pressure_event (pv_id event) (JObj [(''action'', JStr ''claim_slot'')]) telemetry)) (\<lambda>response.
             update (\<lambda>h. h\<lparr>pr_queueState := Queue_done, pr_result := Some response\<rparr>))))
          (\<lambda>e. update (\<lambda>h. (pressureFailed text e h)\<lparr>pr_queueState := Queue_idle\<rparr>)))
        (\<lambda>h. h\<lparr>pr_busy := False\<rparr>) cs h)"

subsection \<open>What the lab makes of the telemetry\<close>

lemma runner_parse_simps:
  "asString (JStr s) name = (if trim s = [] then Inl (Invalid (name @ '' must be a non-empty string'')) else Inr (trim s))"
  "asFiniteNumber (JNum (Fin x)) name = Inr (Some (Fin x))" "asFiniteNumber JUndef name = Inr None"
  "asOptionalBoolean JUndef name = Inr None" "asOptionalString JUndef = None"
  "toNumber (JNum y) = Inr y"
  by (simp_all add: asString_def asFiniteNumber_def asOptionalBoolean_def asOptionalString_def nullish_def toNumber_def)

lemma name_texts:
  "trim (consent_name m) = consent_name m" "consent_name m \<noteq> []"
  "trim (entry_type_name t) = entry_type_name t" "entry_type_name t \<noteq> []"
  "trim (scenario_name sc) = scenario_name sc" "scenario_name sc \<noteq> []"
proof -
  have "trim (consent_name Diegetic_opt_in) = consent_name Diegetic_opt_in" "trim (consent_name Summary_only) = consent_name Summary_only"
    by code_simp+
  then show "trim (consent_name m) = consent_name m" "consent_name m \<noteq> []" by (cases m; simp)+
  have "\<forall>t \<in> set LAB_ENTRY_TYPES. trim (entry_type_name t) = entry_type_name t" by code_simp
  then show "trim (entry_type_name t) = entry_type_name t" "entry_type_name t \<noteq> []" by (cases t; simp add: LAB_ENTRY_TYPES_def)+
  have "\<forall>sc \<in> set SCENARIO_TYPES. trim (scenario_name sc) = scenario_name sc" by code_simp
  then show "trim (scenario_name sc) = scenario_name sc" "scenario_name sc \<noteq> []" by (cases sc; simp add: SCENARIO_TYPES_def)+
qed

lemma runner_names:
  "oneOf scenario_name SCENARIO_TYPES field ''narrative'' = Inr Narrative"
  "oneOf scenario_name SCENARIO_TYPES field ''pressure_sim'' = Inr Pressure_sim"
  "asOptionalString (JStr (consent_name m)) = Some (consent_name m)"
  "oneOf consent_name CONSENT_MODES field (consent_name m) = Inr m"
  "oneOf entry_type_name LAB_ENTRY_TYPES field (entry_type_name t) = Inr t"
  "trim ''narrative'' = ''narrative''" "trim ''pressure_sim'' = ''pressure_sim''"
  using name_texts(1,2)[of m] name_texts(5)[of Narrative] name_texts(5)[of Pressure_sim]
  by (simp_all add: oneOf_def SCENARIO_TYPES_def asOptionalString_def)
    ((cases m; simp add: CONSENT_MODES_def), (cases t; simp add: LAB_ENTRY_TYPES_def))

lemma map_of_present:
  "map_of (present k v @ xs) j = (if j = k \<and> v \<noteq> None then v else map_of xs j)"
  "map_of (present k v) j = (if j = k then v else None)"
  by (auto simp: present_def split: option.splits)

text \<open>The summary a narrative sends, as the lab reads it.\<close>

definition narrativeSummary ::
  "(rat \<Rightarrow> rat) \<Rightarrow> int \<Rightarrow> lab_entry_type \<Rightarrow> string \<Rightarrow> string \<Rightarrow> narrative \<Rightarrow> narrative \<Rightarrow> jsnum telemetry" where
  "narrativeSummary log2 now entryType entryId sid rendered h =
     \<lparr>tl_scenario_type = Narrative, tl_session_id = sid,
      tl_story_id = (if entryType = Story then asOptionalString (JStr entryId) else None),
      tl_case_id = (if entryType = Case_file then asOptionalString (JStr entryId) else None), tl_event_id = None,
      tl_reading_time_ms = Some (Fin (case set_time (nr_startAt h) of Some t \<Rightarrow> of_int (max 0 (now - t)) | None \<Rightarrow> 0)),
      tl_progress_ratio = Some (Fin (nr_maxProgress h)),
      tl_scroll_entropy = Some (Fin (computeEntropy log2 (nr_scrollDeltaSamples h))),
      tl_focus_blur_count = Some (Fin (of_int (nr_focusBlurCount h))),
      tl_input_latency_ms = map_option (\<lambda>t. Fin (of_int (max 0 (now - t)))) (set_time (nr_firstQuizInteractionAt h)),
      tl_retry_count = None, tl_queue_wait_ms = None, tl_countdown_to_click_ms = None, tl_quiz_correct = None,
      tl_quiz_answer_id = map_option Fin (nr_selectedOptionId rendered), tl_consent_mode = Some (nr_mode rendered),
      tl_client_ts = Some (Fin (of_int now)), tl_telemetry_hash = None\<rparr>"

lemma parse_narrative:
  assumes "nr_sessionId rendered = Some sid" "trim sid = sid" "sid \<noteq> []"
  shows "parseTelemetrySummary (buildTelemetry log2 now entryType entryId rendered h)
     = Inr (narrativeSummary log2 now entryType entryId sid rendered h)"
  using assms
  by (cases entryType; cases "set_time (nr_firstQuizInteractionAt h)"; cases "nr_selectedOptionId rendered")
    (simp_all add: parseTelemetrySummary_def buildTelemetry_def narrativeSummary_def Let_def asObject_def runner_parse_simps runner_names present_def optionally_def split: option.split)

text \<open>The summary an event under pressure sends.\<close>

definition pressureSummary :: "pressure_event \<Rightarrow> int \<Rightarrow> int \<Rightarrow> int \<Rightarrow> string \<Rightarrow> pressure \<Rightarrow> pressure \<Rightarrow> jsnum telemetry" where
  "pressureSummary event now1 now2 now3 sid rendered h =
     \<lparr>tl_scenario_type = Pressure_sim, tl_session_id = sid, tl_story_id = None, tl_case_id = None,
      tl_event_id = asOptionalString (JStr (pv_id event)), tl_reading_time_ms = None, tl_progress_ratio = None,
      tl_scroll_entropy = None, tl_focus_blur_count = Some (Fin (of_int (pr_focusBlurCount h))),
      tl_input_latency_ms = map_option (\<lambda>t. Fin (of_int (max 0 (now2 - t)))) (set_time (pr_sessionStartedAt h)),
      tl_retry_count = Some (Fin (of_int (pr_retryCount rendered))), tl_queue_wait_ms = Some (Fin (of_int (pr_queueWaitMs rendered))),
      tl_countdown_to_click_ms = (case pr_finalClickDelta h of Some d \<Rightarrow> Some (Fin (of_int d))
          | None \<Rightarrow> map_option (\<lambda>t. Fin (of_int (now1 - t))) (set_time (pr_unlockAt h))),
      tl_quiz_correct = None, tl_quiz_answer_id = None, tl_consent_mode = Some Diegetic_opt_in,
      tl_client_ts = Some (Fin (of_int now3)), tl_telemetry_hash = None\<rparr>"

lemma consent_default: "''diegetic_opt_in'' = consent_name Diegetic_opt_in"
  by simp

lemma parse_pressure:
  assumes "pr_sessionId rendered = Some sid" "trim sid = sid" "sid \<noteq> []"
  shows "parseTelemetrySummary (pressureTelemetry event now1 now2 now3 rendered h)
     = Inr (pressureSummary event now1 now2 now3 sid rendered h)"
  using assms unfolding pressureTelemetry_def consent_default
  by (cases "pr_finalClickDelta h"; cases "set_time (pr_unlockAt h)"; cases "set_time (pr_sessionStartedAt h)")
    (simp_all add: parseTelemetrySummary_def pressureSummary_def Let_def asObject_def
      runner_parse_simps runner_names present_def optionally_def del: consent_name.simps)

subsection \<open>What the runners keep\<close>

text \<open>The states the handlers of the reading page lead to; \<open>other\<close> is a change of what is shown.\<close>

inductive narrative_reachable :: "narrative \<Rightarrow> bool" where
  nr_first: "narrative_reachable narrative_start"
| nr_blur: "narrative_reachable h \<Longrightarrow> narrative_reachable (onBlur h)"
| nr_scroll: "narrative_reachable h \<Longrightarrow> narrative_reachable (onScroll scrollY scrollHeight innerHeight h)"
| nr_select: "narrative_reachable h \<Longrightarrow> narrative_reachable (onSelect now chosen h)"
| nr_toggle: "narrative_reachable h \<Longrightarrow> narrative_reachable (onToggleMode h)"
| nr_started: "narrative_reachable h \<Longrightarrow> narrative_reachable (started sid now scrollY h)"
| nr_other: "narrative_reachable h \<Longrightarrow> narrative_reachable (h\<lparr>nr_busy := b, nr_error := e, nr_result := r\<rparr>)"

definition measured :: "narrative \<Rightarrow> bool" where
  "measured h \<longleftrightarrow> length (nr_scrollDeltaSamples h) \<le> 120 \<and> 0 \<le> nr_maxProgress h \<and> nr_maxProgress h \<le> 1 \<and> 0 \<le> nr_focusBlurCount h"

lemma narrative_measured: "narrative_reachable h \<Longrightarrow> measured h"
proof (induction rule: narrative_reachable.induct)
  case (nr_scroll h scrollY scrollHeight innerHeight)
  then show ?case by (simp add: measured_def onScroll_def Let_def max_def min_def)
qed (simp_all add: measured_def narrative_start_def onBlur_def onSelect_def onToggleMode_def started_def)

text \<open>The states of the pressure page between the start of a session and its first click in the open window.\<close>

inductive before_first_attempt :: "pressure_event \<Rightarrow> pressure \<Rightarrow> bool" for event where
  bf_started: "0 < now1 \<Longrightarrow> now1 \<le> now2 \<Longrightarrow>
     before_first_attempt event ((pressureStarted event sid now1 now2 h)\<lparr>pr_busy := False\<rparr>)"
| bf_blur: "before_first_attempt event h \<Longrightarrow> before_first_attempt event (pressureBlur h)"
| bf_early: "before_first_attempt event h \<Longrightarrow> attemptBegin event now random h h = (h', Too_early) \<Longrightarrow> before_first_attempt event h'"

lemma attemptBegin_early: "attemptBegin event now random r h = (h', Too_early) \<Longrightarrow> h' = h\<lparr>pr_retryCount := pr_retryCount h + 1\<rparr>"
  by (auto simp: attemptBegin_def Let_def split: option.splits if_splits)

lemma attemptBegin_queued:
  assumes "attemptBegin event now random r h = (h', Queued wait)"
  shows "wait = simulatedQueue event random" "200 \<le> wait" "wait \<le> 9000"
    "\<exists>unlockAt. set_time (pr_unlockAt h) = Some unlockAt \<and> unlockAt \<le> now
       \<and> h' = h\<lparr>pr_busy := True, pr_error := None, pr_finalClickDelta := Some (now - unlockAt),
           pr_queueState := Queue_waiting, pr_queueWaitMs := wait\<rparr>"
  using assms by (auto simp: attemptBegin_def Let_def simulatedQueue_def split: option.splits if_splits)

lemma first_attempt_state:
  "before_first_attempt event h \<Longrightarrow> pr_queueWaitMs h = 0
     \<and> (\<exists>s u. pr_sessionStartedAt h = Some s \<and> 0 < s \<and> pr_unlockAt h = Some u \<and> s + pv_countdown_ms event \<le> u)"
proof (induction rule: before_first_attempt.induct)
  case (bf_early h now random h')
  then show ?case using attemptBegin_early[OF bf_early(2)] by simp
qed (auto simp: pressureStarted_def pressureBlur_def)

lemma pressure_anomalies:
  assumes "tl_queue_wait_ms t = Some q" "q < 50" "tl_input_latency_ms t = Some l" "4000 < l"
  shows "{''pressure_queue_rejoin_anomaly'', ''pressure_latency_pattern_anomaly''}
     \<subseteq> sg_signal ` set (ss_risk_signals (scorePressureShadow src (Some t)))"
proof -
  have "opt_sat (\<lambda>x. x < 50) (Some q)" using assms(2) by (simp add: opt_sat_def)
  then show ?thesis using assms
    by (simp add: scorePressureShadow_def finalizeShadowResult_def Let_def pressureDraft_def scoreLatency_def draft_simps)
qed

subsection \<open>The entropy of the steps\<close>

text \<open>The entropy of the frequencies of the sizes, over the sizes that occur.\<close>

definition frequencyEntropy :: "(rat \<Rightarrow> rat) \<Rightarrow> nat list \<Rightarrow> rat" where
  "frequencyEntropy log2 sizes =
     foldl (\<lambda>entropy k. let p = fl (of_nat (count_list sizes k) / of_nat (length sizes)) in fl (entropy - fl (p * log2 p))) 0
       (filter (\<lambda>k. k \<in> set sizes) [0..<5])"

lemma entropy_bin_less: "entropy_bin v < 5"
  by (simp add: entropy_bin_def Let_def)

lemma entropy_bins_count: "entropy_bins samples = map (count_list (map entropy_bin samples)) [0..<5]"
proof (induction samples rule: rev_induct)
  case Nil
  have "[0..<5] = [0, 1, 2, 3, 4 :: nat]" by code_simp
  then show ?case by (simp add: entropy_bins_def)
next
  case (snoc v samples)
  have "entropy_bins (samples @ [v]) = (entropy_bins samples)[entropy_bin v := entropy_bins samples ! entropy_bin v + 1]"
    by (simp add: entropy_bins_def)
  also have "\<dots> = map (count_list (map entropy_bin (samples @ [v]))) [0..<5]"
    using entropy_bin_less[of v] unfolding snoc by (intro nth_equalityI) (auto simp: nth_list_update)
  finally show ?case .
qed

lemma foldl_skip: "foldl (\<lambda>a k. if f k = 0 then a else g a (f k)) a ks = foldl (\<lambda>a k. g a (f k)) a (filter (\<lambda>k. f k \<noteq> 0) ks)"
  by (induction ks arbitrary: a) simp_all

lemma computeEntropy_frequencies:
  assumes "2 \<le> length samples"
  shows "computeEntropy log2 samples = toFixed3 (frequencyEntropy log2 (map entropy_bin samples))"
proof -
  let ?sizes = "map entropy_bin samples"
  have "foldl (\<lambda>entropy n. if n = 0 then entropy else let p = fl (of_nat n / of_nat (length samples)) in fl (entropy - fl (p * log2 p))) 0
      (map (count_list ?sizes) [0..<5]) = frequencyEntropy log2 ?sizes"
    unfolding frequencyEntropy_def foldl_map
    by (subst foldl_skip[where g = "\<lambda>entropy n. let p = fl (of_nat n / of_nat (length samples)) in fl (entropy - fl (p * log2 p))"])
      (simp add: count_list_0_iff)
  then show ?thesis using assms by (simp add: computeEntropy_def entropy_bins_count)
qed

lemma count_one: "set xs \<subseteq> {k} \<Longrightarrow> count_list xs k = length xs"
  by (induction xs) auto

lemma count_two: "set xs \<subseteq> {j, k} \<Longrightarrow> j \<noteq> k \<Longrightarrow> count_list xs j + count_list xs k = length xs"
  by (induction xs) auto

lemma fl_1: "fl 1 = 1"
  using fl_of_int[of 1] by simp

lemma toFixed3_0: "toFixed3 0 = 0" "toFixed3 1 = 1"
  by code_simp+

lemma one_size:
  assumes "log2 1 = 0" "set sizes \<subseteq> {k}"
  shows "toFixed3 (frequencyEntropy log2 sizes) = 0"
proof (cases "sizes = []")
  case True
  then show ?thesis by (simp add: frequencyEntropy_def toFixed3_0)
next
  case False
  then have "set sizes = {k}" "(of_nat (count_list sizes k) :: rat) / of_nat (length sizes) = 1"
    using assms(2) count_one[OF assms(2)] by (auto simp: subset_singleton_iff)
  then have step: "fl (0 - fl (fl (of_nat (count_list sizes j) / of_nat (length sizes)) * log2 (fl (of_nat (count_list sizes j) / of_nat (length sizes))))) = 0"
    if "j \<in> set sizes" for j using that assms(1) by (simp add: fl_1)
  have "foldl (\<lambda>entropy k. let p = fl (of_nat (count_list sizes k) / of_nat (length sizes)) in fl (entropy - fl (p * log2 p))) 0
      (filter (\<lambda>k. k \<in> set sizes) ks) = 0" for ks
    using step by (induction ks) (simp_all add: Let_def)
  then show ?thesis by (simp add: frequencyEntropy_def toFixed3_0)
qed

lemma two_sizes:
  assumes "log2 (1 / 2) = - 1" "sizes \<noteq> []" "j \<noteq> k" "set sizes \<subseteq> {j, k}" "count_list sizes j = count_list sizes k"
    and "\<And>i. i \<in> set sizes \<Longrightarrow> i < 5"
  shows "toFixed3 (frequencyEntropy log2 sizes) = 1"
proof -
  have n: "2 * count_list sizes j = length sizes" "2 * count_list sizes k = length sizes"
    using count_two[OF assms(4,3)] assms(5) by simp_all
  then have pos: "count_list sizes j \<noteq> 0" "count_list sizes k \<noteq> 0" using length_greater_0_conv[of sizes] assms(2) by linarith+
  then have in_sizes: "set sizes = {j, k}" using assms(4) by (auto simp: count_list_0_iff)
  have p: "(of_nat (count_list sizes i) :: rat) / of_nat (length sizes) = 1 / 2" if "i \<in> {j, k}" for i
    using that n pos by (auto simp: field_simps simp flip: n)
  have half: "fl (1 / 2) = 1 / 2" "fl (- (1 / 2)) = - (1 / 2)" "fl 1 = 1" by code_simp+
  have step: "(let p = fl (of_nat (count_list sizes i) / of_nat (length sizes)) in fl (entropy - fl (p * log2 p))) = fl (entropy + 1 / 2)"
    if "i \<in> {j, k}" for i entropy unfolding p[OF that] half(1) Let_def assms(1) by (simp add: half(1) del: divide_const_simps)
  have "length (filter (\<lambda>i. i \<in> set sizes) [0..<5]) = card (set (filter (\<lambda>i. i \<in> set sizes) [0..<5]))"
    by (rule distinct_card[symmetric]) simp
  also have "set (filter (\<lambda>i. i \<in> set sizes) [0..<5]) = {j, k}" using in_sizes assms(6) by auto
  finally obtain a b where ab: "filter (\<lambda>i. i \<in> set sizes) [0..<5] = [a, b]" using assms(3)
    by (auto simp: numeral_2_eq_2 length_Suc_conv)
  have "set [a, b] \<subseteq> {j, k}" unfolding ab[symmetric] in_sizes by auto
  then have "a \<in> {j, k}" "b \<in> {j, k}" by simp_all
  then have "frequencyEntropy log2 sizes = fl (fl (0 + 1 / 2) + 1 / 2)"
    unfolding frequencyEntropy_def ab foldl.simps by (simp only: step)
  also have "\<dots> = 1" by code_simp
  finally have "frequencyEntropy log2 sizes = 1" .
  then show ?thesis by (simp add: toFixed3_0)
qed

text \<open>The summary as the lab keeps it, with its entropy taken for what it is.\<close>

lemma normalized_narrative:
  assumes "measured h" and n: "n = normalizeTelemetry (narrativeSummary log2 now entryType entryId sid rendered h) sid"
  shows "n = \<lparr>tl_scenario_type = Narrative, tl_session_id = sid,
     tl_story_id = (if entryType = Story \<and> trim entryId \<noteq> [] then Some (trim entryId) else None),
     tl_case_id = (if entryType = Case_file \<and> trim entryId \<noteq> [] then Some (trim entryId) else None), tl_event_id = None,
     tl_reading_time_ms = Some (case set_time (nr_startAt h) of Some s \<Rightarrow> of_int (max 0 (now - s)) | None \<Rightarrow> 0),
     tl_progress_ratio = Some (nr_maxProgress h), tl_scroll_entropy = tl_scroll_entropy n,
     tl_focus_blur_count = Some (of_int (nr_focusBlurCount h)),
     tl_input_latency_ms = map_option (\<lambda>s. of_int (max 0 (now - s))) (set_time (nr_firstQuizInteractionAt h)),
     tl_retry_count = None, tl_queue_wait_ms = None, tl_countdown_to_click_ms = None, tl_quiz_correct = None,
     tl_quiz_answer_id = map_option Fin (nr_selectedOptionId rendered), tl_consent_mode = Some (nr_mode rendered),
     tl_client_ts = Some (Fin (of_int now)), tl_telemetry_hash = None\<rparr>"
  using assms(1)
  by (cases "set_time (nr_firstQuizInteractionAt h)") (auto simp: n normalizeTelemetry_def narrativeSummary_def measured_def clamp_def nonNegative_def nonNegativeCount_def
      asOptionalString_def max_def min_def split: option.split)

subsection \<open>Properties\<close>

text \<open>
  C27. What the reading page measures is what the lab works with: after any blurs, scrolls, choices and restarts at most
  120 samples are kept and the progress is between 0 and 1, and when the page sends its summary for a session of the
  lab with a narrative, the lab accepts it and stores it as the session's latest with each measure as the page has it:
  the reading time, the progress, the blurs, the time since the first choice, the choice, the consent and the time. Its
  scroll entropy is 0 with fewer than two samples and otherwise the entropy of the frequencies of the five sizes of
  step, to three places and not below 0: 0 when all steps are of one size, 1 when they are half of one, half of another.
\<close>

theorem narrative_summary_is_accepted:
  assumes "narrative_reachable h" "nr_sessionId rendered = Some sid" "trim sid = sid" "sid \<noteq> []"
    and "getSessionOrThrow st sid = Inr session" "ls_session_id session = sid" "ls_scenario_type session = Narrative"
    and "samples = nr_scrollDeltaSamples h" "sizes = map entropy_bin samples"
  shows "length samples \<le> 120 \<and> 0 \<le> nr_maxProgress h \<and> nr_maxProgress h \<le> 1
     \<and> (\<exists>st' session' stored t. postLabIngest text received (Some (ingestBody sid (buildTelemetry log2 now entryType entryId rendered h))) st
          = (st', ok_response (session', t))
        \<and> ls_telemetry_latest session' = Some t \<and> map_get (lb_sessions st') sid = Some stored \<and> ls_telemetry_latest stored = Some t
        \<and> t = \<lparr>tl_scenario_type = Narrative, tl_session_id = sid,
             tl_story_id = (if entryType = Story \<and> trim entryId \<noteq> [] then Some (trim entryId) else None),
             tl_case_id = (if entryType = Case_file \<and> trim entryId \<noteq> [] then Some (trim entryId) else None), tl_event_id = None,
             tl_reading_time_ms = Some (case set_time (nr_startAt h) of Some s \<Rightarrow> of_int (max 0 (now - s)) | None \<Rightarrow> 0),
             tl_progress_ratio = Some (nr_maxProgress h),
             tl_scroll_entropy = Some (if length samples < 2 then 0 else max 0 (toFixed3 (frequencyEntropy log2 sizes))),
             tl_focus_blur_count = Some (of_int (nr_focusBlurCount h)),
             tl_input_latency_ms = map_option (\<lambda>s. of_int (max 0 (now - s))) (set_time (nr_firstQuizInteractionAt h)),
             tl_retry_count = None, tl_queue_wait_ms = None, tl_countdown_to_click_ms = None, tl_quiz_correct = None,
             tl_quiz_answer_id = map_option Fin (nr_selectedOptionId rendered), tl_consent_mode = Some (nr_mode rendered),
             tl_client_ts = Some (Fin (of_int now)), tl_telemetry_hash = None\<rparr>
        \<and> (log2 1 = 0 \<and> (\<exists>k. set sizes \<subseteq> {k}) \<longrightarrow> tl_scroll_entropy t = Some 0)
        \<and> (log2 (1 / 2) = - 1 \<and> samples \<noteq> [] \<and> (\<exists>j k. j \<noteq> k \<and> set sizes \<subseteq> {j, k} \<and> count_list sizes j = count_list sizes k)
            \<longrightarrow> tl_scroll_entropy t = Some 1))"
proof -
  have m: "measured h" by (rule narrative_measured[OF assms(1)])
  let ?t = "narrativeSummary log2 now entryType entryId sid rendered h"
  have p: "parseLabTelemetryIngestBody (ingestBody sid (buildTelemetry log2 now entryType entryId rendered h)) = Inr (sid, ?t)"
    using parse_narrative[OF assms(2-4)] assms(3,4)
    by (simp add: parseLabTelemetryIngestBody_def ingestBody_def asObject_def runner_parse_simps narrativeSummary_def)
  let ?n = "normalizeTelemetry ?t sid"
  have "tl_scenario_type ?n = Narrative" by (simp add: normalizeTelemetry_def narrativeSummary_def)
  then obtain st' session' stored where
    r: "postLabIngest text received (Some (ingestBody sid (buildTelemetry log2 now entryType entryId rendered h))) st
       = (st', ok_response (session', ?n))" "ls_telemetry_latest session' = Some ?n"
       "map_get (lb_sessions st') sid = Some stored" "ls_telemetry_latest stored = Some ?n"
    using p assms(5-7) by (simp add: postLabIngest_def readJson_def ingestLabTelemetry_def Let_def publicSessionShape_def put_session_def ok_response_def)
  have e: "tl_scroll_entropy ?n = Some (if length samples < 2 then 0 else max 0 (toFixed3 (frequencyEntropy log2 sizes)))"
    using computeEntropy_frequencies[of samples log2]
    by (simp add: normalizeTelemetry_def narrativeSummary_def nonNegative_def assms(8,9) computeEntropy_def)
  have one: "tl_scroll_entropy ?n = Some 0" if "log2 1 = 0" "set sizes \<subseteq> {k}" for k
    using one_size[of log2 sizes k] that unfolding e by (cases "length samples < 2") (auto simp: assms(9))
  have two: "tl_scroll_entropy ?n = Some 1"
    if "log2 (1 / 2) = - 1" "samples \<noteq> []" "j \<noteq> k" "set sizes \<subseteq> {j, k}" "count_list sizes j = count_list sizes k" for j k
  proof -
    have "sizes \<noteq> []" "\<And>i. i \<in> set sizes \<Longrightarrow> i < 5" using that(2) entropy_bin_less by (auto simp: assms(9))
    moreover from this(1) have "2 \<le> length samples" using count_two[OF that(4,3)] that(5)
      by (cases "count_list sizes k") (auto simp: assms(9))
    ultimately show ?thesis using two_sizes[of log2 sizes j k] that unfolding e by simp
  qed
  show ?thesis
    using m r one two normalized_narrative[OF m refl, of log2 now entryType entryId sid rendered] unfolding e assms(8)[symmetric]
    by (intro conjI exI[of _ st'] exI[of _ session'] exI[of _ stored] exI[of _ ?n]) (auto simp: measured_def assms(8))
qed

definition reading_page :: narrative where
  "reading_page = onScroll 300 1000 600 (onBlur (started ''lab-1'' 1000 0 narrative_start))"

theorem narrative_summary_is_accepted_witness:
  "\<exists>st' session' t. postLabIngest (\<lambda>_. []) 2000 (Some (ingestBody ''lab-1'' (buildTelemetry (\<lambda>x. x) 61000 Story ''story-1'' reading_page reading_page)))
     sample_lab = (st', ok_response (session', t)) \<and> tl_progress_ratio t = Some (fl (3 / 4)) \<and> tl_reading_time_ms t = Some 60000"
proof -
  let ?s = "getSessionOrThrow sample_lab ''lab-1''"
  have r: "narrative_reachable reading_page" unfolding reading_page_def by (intro nr_scroll nr_blur nr_started nr_first)
  have sid: "nr_sessionId reading_page = Some ''lab-1''" "trim ''lab-1'' = ''lab-1''" "''lab-1'' \<noteq> []" by code_simp+
  have "case ?s of Inr session \<Rightarrow> ls_session_id session = ''lab-1'' \<and> ls_scenario_type session = Narrative | Inl _ \<Rightarrow> False"
    by code_simp
  then obtain session where s: "?s = Inr session" "ls_session_id session = ''lab-1''" "ls_scenario_type session = Narrative"
    by (auto split: sum.splits)
  have v: "nr_maxProgress reading_page = fl (3 / 4)" "nr_startAt reading_page = Some 1000" by code_simp+
  show ?thesis
    using narrative_summary_is_accepted[OF r sid s refl refl, of "\<lambda>_. []" 2000 "\<lambda>x. x" 61000 Story "''story-1''"] unfolding v
    apply (elim conjE exE)
    subgoal for st' session' stored t by (intro exI[of _ st'] exI[of _ session'] exI[of _ t]) (simp add: set_time_def)
    done
qed

lemma pressureBlur_funpow:
  "(pressureBlur ^^ n) h = h\<lparr>pr_focusBlurCount := pr_focusBlurCount h + int n\<rparr>"
  by (induction n) (simp_all add: pressureBlur_def)

text \<open>
  C28. The first attempt of every player is scored as an anomaly: the click handler was made before the queue, so the
  summary has a queue wait of 0 although the page waited at least 200 milliseconds; and its latency, measured from the
  start of the session, is above the range for every event with a countdown of more than four seconds. The scoring
  of the lab answers with both anomaly signals.
\<close>

theorem first_attempt_is_an_anomaly:
  assumes "before_first_attempt event h" "attemptBegin event now random h h = (h1, Queued wait)"
    and "pr_sessionId h = Some sid" "trim sid = sid" "sid \<noteq> []" "4000 < pv_countdown_ms event" "now \<le> now2"
  shows "\<exists>t. parseTelemetrySummary (pressureTelemetry event now1 now2 now3 h ((pressureBlur ^^ n) h1)) = Inr t
     \<and> tl_queue_wait_ms t = Some (Fin 0) \<and> pr_queueWaitMs ((pressureBlur ^^ n) h1) = wait \<and> 200 \<le> wait
     \<and> (\<exists>d \<ge> 0. tl_countdown_to_click_ms t = Some (Fin (of_int d)))
     \<and> {''pressure_queue_rejoin_anomaly'', ''pressure_latency_pattern_anomaly''}
          \<subseteq> sg_signal ` set (ss_risk_signals (scorePressureShadow src (Some (normalizeTelemetry t sid))))"
proof -
  let ?h = "(pressureBlur ^^ n) h1"
  let ?t = "pressureSummary event now1 now2 now3 sid h ?h"
  obtain s u where f: "pr_queueWaitMs h = 0" "pr_sessionStartedAt h = Some s" "0 < s" "pr_unlockAt h = Some u" "s + pv_countdown_ms event \<le> u"
    using first_attempt_state[OF assms(1)] by blast
  obtain unlock where q: "set_time (pr_unlockAt h) = Some unlock" "unlock \<le> now"
      "h1 = h\<lparr>pr_busy := True, pr_error := None, pr_finalClickDelta := Some (now - unlock), pr_queueState := Queue_waiting, pr_queueWaitMs := wait\<rparr>"
    using attemptBegin_queued(4)[OF assms(2)] by blast
  have u: "unlock = u" using q(1) f(4) by (simp add: set_time_def split: if_splits)
  have w: "200 \<le> wait" using attemptBegin_queued(2)[OF assms(2)] .
  have t: "tl_queue_wait_ms ?t = Some (Fin 0)" "tl_countdown_to_click_ms ?t = Some (Fin (of_int (now - unlock)))"
    "tl_input_latency_ms ?t = Some (Fin (of_int (max 0 (now2 - s))))"
    using f q by (simp_all add: pressureSummary_def pressureBlur_funpow set_time_def)
  have l: "4000 < now2 - s" using f(5) assms(6,7) q(2) u by linarith
  have n: "tl_queue_wait_ms (normalizeTelemetry ?t sid) = Some 0" "tl_input_latency_ms (normalizeTelemetry ?t sid) = Some (of_int (now2 - s))"
    using t l by (simp_all add: normalizeTelemetry_def nonNegative_def max_def)
  have "parseTelemetrySummary (pressureTelemetry event now1 now2 now3 h ?h) = Inr ?t"
    by (rule parse_pressure[OF assms(3-5)])
  moreover have "pr_queueWaitMs ?h = wait" by (simp add: pressureBlur_funpow q(3))
  moreover have "(4000 :: rat) < of_int (now2 - s)" using l by linarith
  moreover have "\<exists>d \<ge> 0. tl_countdown_to_click_ms ?t = Some (Fin (of_int d))"
    unfolding t(2) using q(2) by (intro exI[of _ "now - unlock"]) simp
  ultimately show ?thesis
    using t(1) w pressure_anomalies[OF n(1) _ n(2), of src] by (intro exI[of _ ?t]) simp
qed

definition runner_event :: pressure_event where
  "runner_event = \<lparr>pv_id = ''e'', pv_countdown_ms = 8000, pv_queue_window_ms = 2000\<rparr>"

definition runner_pressure :: pressure where
  "runner_pressure = \<lparr>pr_sessionId = None, pr_busy = False, pr_error = None, pr_retryCount = 0, pr_result = None, pr_queueState = Queue_idle,
     pr_queueWaitMs = 0, pr_unlockAt = None, pr_focusBlurCount = 0, pr_finalClickDelta = None, pr_sessionStartedAt = None\<rparr>"

theorem first_attempt_is_an_anomaly_witness:
  "\<exists>h h1 t. attemptBegin runner_event 9500 (1 / 2) h h = (h1, Queued 1260)
     \<and> parseTelemetrySummary (pressureTelemetry runner_event 11000 11000 11000 h h1) = Inr t \<and> tl_queue_wait_ms t = Some (Fin 0)"
proof -
  let ?h = "(pressureStarted runner_event ''s'' 1000 1000 runner_pressure)\<lparr>pr_busy := False\<rparr>"
  let ?b = "attemptBegin runner_event 9500 (1 / 2) ?h ?h"
  have b: "before_first_attempt runner_event ?h" by (rule bf_started) simp_all
  have c: "snd ?b = Queued 1260" by code_simp
  then have q: "?b = (fst ?b, Queued 1260)" by (simp add: prod_eq_iff)
  have sid: "pr_sessionId ?h = Some ''s''" "trim ''s'' = ''s''" "''s'' \<noteq> []" "4000 < pv_countdown_ms runner_event" "(9500 :: int) \<le> 11000"
    by (simp add: pressureStarted_def, code_simp, simp_all add: runner_event_def)
  from first_attempt_is_an_anomaly[OF b q sid, of 11000 11000 0] obtain t where
    "parseTelemetrySummary (pressureTelemetry runner_event 11000 11000 11000 ?h (fst ?b)) = Inr t" "tl_queue_wait_ms t = Some (Fin 0)"
    by auto
  with q show ?thesis by blast
qed

end
