(* ===== verification/Spec2Isabelle.thy ===== *)
theory Spec2Isabelle
  imports Shield_Sdk Shield_Route Client_Instructions Hub_Workflow Lab_Quote Hide_Sis_Replay Openworld_Truth Openworld_Scenes
    Api_Graph Api_Lab Api_Sign Api_Story Vrgda
    Redis_Client Spent_Proof Buy_Ticket Home_Page Fan_Pass_Page Lab_Runners
begin

text \<open>
  A model of the decision core of UNFORGIVEN: the scoring oracle that signs a buyer's dignity score, the two
  libraries that turn a signed score into a price and into instructions for the chain program, the hub that
  keeps a graph of events and decides actions by it, the behavior laboratory that scores play telemetry,
  and the story game hide-sis with its open world.

  \<^bold>\<open>How the parts interact.\<close> A client posts a wallet and attestations to the oracle's route. The route
  finds the client's address, applies the limits per address and wallet, and calls the handler. In the
  mode \<open>verified\<close> the handler checks that the attestations belong to the wallet, has the bundle verified
  (signatures, providers, owner, context, and each proof identifier claimed once), scores the
  attestations, refuses a proof that is in use, and signs a payload of 141 bytes. The client library
  reads the response, computes the price by a fixed-point power, and builds the instructions; the SDK
  does the scoring and pricing locally with checked arithmetic. The hub answers a quote from its graph's
  reputation, the telemetry of the request and a call of the oracle handler; a fan pass workflow asks for a
  quote and records what it allows; the laboratory scores a submission itself and asks the hub for a quote
  beside it. The game is a session map with its own rules, and a replay of its events. The open world is a
  second session map: an action changes the world by the engine's rules at once, then a language model is asked
  for the scene, and when the time is over for the ending, whose small deltas adjust the engine's score. On the
  other side of the routes are the hooks of the pages: one asks for quotes and executes them on the chain, one buys
  tickets with an authorization of the server, one trades them, and two runners collect telemetry for the laboratory.

  \<^bold>\<open>Theories.\<close> \<open>Prelude\<close>: results with errors, maps in insertion order, clamping. \<open>Js_Number\<close>: doubles
  as rationals rounded to nearest even, with an error bound; exponents are not bounded below.
  \<open>Js_Text\<close>, \<open>Js_Value\<close>: strings, conversions, JSON values. \<open>Byte_Codec\<close>: little-endian fields.
  \<open>Dignity_Scoring\<close> (services/dignity-scoring/src), \<open>Shield_Payload\<close> (shield_score.ts), \<open>Guards\<close> (the
  contracts of one-time and fixed-window guards, as locales), \<open>Rate_Limit\<close> (rate_limit.ts),
  \<open>Replay_Store\<close> (proof_replay_store.ts), \<open>Reclaim_Verify\<close> (reclaim_verify.ts), \<open>Oracle_Key\<close>
  (oracle.ts), \<open>Shield_Handler\<close> (handler.ts), all under services/shield-oracle/src, and \<open>Shield_Route\<close>
  (app/api/shield-score/route.ts); \<open>Shield_Price\<close> (the price of lib/unforgiven-v2-client.ts and of
  packages/universal-shield-sdk/src/index.ts), \<open>Shield_Sdk\<close> (the rest of the SDK), \<open>Client_Codec\<close> and
  \<open>Client_Instructions\<close> (the rest of the client library). Under services/fan-pass-hub/src: \<open>Hub_Types\<close>
  (types.ts), \<open>Chain_Adapter\<close> (chain_adapter.ts), \<open>Hub_Graph\<close> (graph_store.ts), \<open>Hub_Decision\<close>
  (decision_engine.ts), \<open>Hub_Workflow\<close> (hub_workflow.ts). Under services/behavior-lab-engine/src: \<open>Lab_Types\<close>
  (types.ts), \<open>Lab_Scoring\<close> (scoring.ts), \<open>Lab_Catalog\<close> (catalog.ts), \<open>Lab_Session\<close> (session_store.ts), and
  \<open>Lab_Quote\<close> (a submission together with the hub and the oracle). \<open>Hide_Sis_Rules\<close>
  (packages/universal-shield-sdk/src/hide_sis_types.ts and services/hide-sis-engine/src/state_machine.ts),
  \<open>Hide_Sis_Session\<close> (session_store.ts of the same service), \<open>Hide_Sis_Play\<close> and \<open>Hide_Sis_Replay\<close> (its reachable
  sessions, and what the replay makes of them). The open world: \<open>Openworld_World\<close> (hide_sis_openworld_types.ts of
  the SDK and the world that openworld_engine.ts of the game's service builds), \<open>Openworld_Action\<close>,
  \<open>Openworld_Score\<close>, \<open>Openworld_View\<close> and \<open>Openworld_Session\<close> (the actions, scores, payloads and requests of the
  same file), \<open>Openworld_Llm\<close> (openworld_llm.ts); \<open>Openworld_Play\<close>, \<open>Openworld_Bounds\<close>, \<open>Openworld_Scenes\<close>,
  \<open>Openworld_Ends\<close> and \<open>Openworld_Truth\<close> hold reachable stores and what is proved of them. The other routes under
  app/api: \<open>Api_Input\<close> (what the parsers in hub/dto.ts, graph/dto.ts, fan-pass/dto.ts and lab/dto.ts share), \<open>Api_Hub\<close>
  (those of the hub with its eight routes), \<open>Api_Graph\<close> (the graphs that requests lead to), \<open>Api_Lab\<close> (lab/dto.ts and the
  four routes of the laboratory), \<open>Api_Sign\<close> (sign-alpha, demo/quote-fixture, oracle-pubkey, shield-config), \<open>Api_Story\<close>
  (hide-sis/dto.ts and routes of the game and the open world). \<open>Vrgda\<close>: the price previews of app/utils/vrgda.ts and
  hooks/useVrgdaPrice.ts. \<open>Redis_Client\<close>: the connection that \<open>getRedisClient\<close> of rate_limit.ts and of
  proof_replay_store.ts opens and shares. The pages: \<open>Wallet_Flow\<close> (what the hooks that send transactions share),
  \<open>Shield_Flow\<close> (hooks/useShieldFlow.ts), \<open>Spent_Proof\<close> (the same hook with the oracle as its network), \<open>Buy_Ticket\<close>
  (hooks/useBuyTicket.ts), \<open>Ticket_Portfolio\<close> (hooks/useTicketPortfolio.ts), \<open>Identity_Panel\<close>
  (components/IdentityVerifier.tsx), \<open>Home_Page\<close> (app/page.tsx), \<open>Fan_Pass_Page\<close> (app/fan-pass/page.tsx), \<open>Lab_Runners\<close>
  (NarrativeQuizRunner.tsx and PressureRunner.tsx under app/lab/components).

  \<^bold>\<open>State.\<close> The module variables of the oracle are records passed through every operation:
  \<open>seenProofByUniq\<close>, the key and the replay store in \<open>oracle_state\<close>, the two bucket maps in
  \<open>rate_state\<close>; those of the hub are \<open>hub_state\<close> and \<open>hub_services\<close> (graph with its file, quote cache, oracle), of
  the laboratory \<open>lab_state\<close>, of the game \<open>hs_store\<close>, of the open world \<open>ow_store\<close>. A clock reading or a random identifier is an argument of
  the operation that takes it. An operation that waits is two definitions, before and after the answer
  (\<open>anchorBegin\<close> and \<open>anchorFinish\<close>, \<open>submitBegin\<close> and \<open>submitFinish\<close>), so that others can come between; in the
  open world what waits is a task (\<open>ow_task\<close>), and \<open>resume\<close> goes on with it when the model has answered. \<open>hub_run\<close> are the
  states of a hub with its waiting anchors: requests come between the two halves of an anchor, a write of the file may
  fail (\<open>writeFailed\<close>), and a process may stop and start again. An object of the source that is used as a map with names from
  a request has the names every object inherits (\<open>relationOf\<close> of the open world, where they give NaN). The connection to Redis
  is a record with its requests in flight (\<open>connection\<close>). A flow of a page passes the state of its hook and the calls made so
  far; what the network, the chain and the wallet answer is a function of these calls (\<open>network\<close>). The values of the render
  that a flow was made in are its arguments, so a stale closure is an old argument. \<open>hook_reached\<close> are the states of the
  shield hook after any of its flows, on any network and for any wallet before. The identity panel comes and goes with the
  wallet: \<open>visit\<close> numbers the panels, and a session of a panel that is gone can still give the page its proof.

  \<^bold>\<open>What the lemmas show.\<close> The guards are locales with the laws an operation must keep; they are
  interpreted on the replay store, on both bucket maps and on the handler's one-time map, which gives
  the spacing and counting properties of each; \<open>run_bundles\<close> runs any sequence of verifications on one store. The price lemmas compare the fixed-point power with
  real compound growth, show it monotone, and relate the two price rules. The codec lemmas are round
  trips. The graph, the laboratory and the game have inductive sets of reachable states with an invariant
  each; the properties of their operations follow from it. The game refines one without budgets and
  counters (\<open>game_step\<close>), on which its plays are evaluated. For the open world the lemmas show which ranges hold in every
  reachable store, that it ends, how truth is gained, and how little an answer of the model can do. For the routes the
  lemmas show what a parser lets through and that the operations store nothing else: \<open>graph_contract\<close> is the contract
  of a request to the hub, interpreted on every route, and \<open>served\<close> the states that requests lead to. For the pages
  \<open>flow_keeps\<close> is a small calculus of what a flow returns and of the transactions it has signed, and \<open>flow_count\<close> counts
  them; with these the lemmas show
  what is in a transaction, that no flow throws, and, against the models of the routes, that what a page signs is what
  the route issued.

  \<^bold>\<open>Termination.\<close> Every function is total; the loops of the power decrease the exponent, and there is no
  fuel.

  \<^bold>\<open>Parameters.\<close> SHA-256, Keccak, the signature, the key parser, \<open>JSON.parse\<close> and \<open>JSON.stringify\<close>, the
  base-58 codec, the texts of the errors of the language, \<open>isIP\<close>, the Reclaim verifier and its SDK, the package \<open>redis\<close>, the wallet and the cluster that the pages talk to, the service of the language model and the derivation of program addresses
  are arguments of the definitions. Strings are byte lists; \<open>trim\<close> removes the white space of the language, and what lower-cases or splits does so on ASCII.

  \<^bold>\<open>Not modelled.\<close> Logging; what the pages render, and the pages and components that are not named above; the scripts; the generated
  IDL in utils/; the validation inside \<open>Ed25519Program\<close>; titles and texts of the stories of the first game. \<open>Math.pow\<close> of that
  game's cost is the rounded exact power, which is what it is at the exponent 0, the only one that occurs
  (\<open>budget_never_blocks\<close>). An action of the open world is one of the seven types, and a session of the game starts with a wallet
  that is a text; the routes openworld/action and session/start do not check that, so they are left out. A response is its
  status with the value it carries or its error text; constant fields such as schema versions are left out.
  A write of the hub's file that fails leaves the graph in the process and the file as it was; that the request is then answered
  500 is not in the models of the routes. The handler of the oracle and each other operation that is one definition runs
  without another in between. The storage of the browser is the page's alone: other tabs do not write it.
\<close>

end
